(* ===== verification/Maestro_Prelude.thy ===== *)
theory Maestro_Prelude
  imports Main "HOL-Library.Word"
begin

text \<open>
  Shared vocabulary of the development: the names of the machine types the Rust sources
  use, the standard-library operations on them that the components call (checked and
  saturating arithmetic, slice access, string helpers), results as sums, and the generic
  lemmas on lists, maps and words that the component proofs rest on.

  Conventions. A Rust \<^verbatim>\<open>String\<close> or \<^verbatim>\<open>&str\<close> is a \<^typ>\<open>string\<close> whose characters are its UTF-8
  bytes; a \<^verbatim>\<open>Vec<u8>\<close> of raw data is a list of \<^typ>\<open>8 word\<close>. A \<^verbatim>\<open>u64\<close> counter is a
  \<^typ>\<open>64 word\<close>; a \<^verbatim>\<open>usize\<close> that measures something in memory (a length, an index) is a
  \<^typ>\<open>nat\<close>, since no list of the model is longer than the address space. \<^verbatim>\<open>Result<T, E>\<close> is the
  sum \<open>E + T\<close>, with \<^term>\<open>Inl\<close> for \<^verbatim>\<open>Err\<close>.
\<close>

section \<open>Names of types\<close>

type_synonym u8 = "8 word"
type_synonym u16 = "16 word"
type_synonym u32 = "32 word"
type_synonym u64 = "64 word"
type_synonym bytes = "u8 list"
type_synonym uuid = "128 word"
type_synonym instant = int
type_synonym date_time = int

text \<open>
  A \<^verbatim>\<open>Path\<close> is the list of its components, as \<^verbatim>\<open>Path::components\<close> yields them (the root
  directory is the component \<open>''/''\<close>); \<^verbatim>\<open>Path::starts_with\<close> compares whole components.
\<close>

type_synonym path = "string list"

definition path_starts_with :: "path \<Rightarrow> path \<Rightarrow> bool" where
  "path_starts_with p prefix \<longleftrightarrow> take (length prefix) p = prefix"

text \<open>
  \<^verbatim>\<open>Path::file_name\<close>: the last component, unless it is the root or \<open>''..''\<close>; \<^verbatim>\<open>Path::parent\<close>: the path
  without it, for a path that is neither empty nor the root.
\<close>

definition path_file_name :: "path \<Rightarrow> string option" where
  "path_file_name p = (if p = [] \<or> last p = ''/'' \<or> last p = ''..'' then None else Some (last p))"

definition path_parent :: "path \<Rightarrow> path option" where
  "path_parent p = (if p = [] \<or> p = [''/''] then None else Some (butlast p))"

lemma path_starts_with_append [simp]: "path_starts_with (p @ q) p"
  by (simp add: path_starts_with_def)

lemma path_starts_with_iff: "path_starts_with p prefix \<longleftrightarrow> (\<exists>rest. p = prefix @ rest)"
  unfolding path_starts_with_def by (metis append_eq_conv_conj append_take_drop_id)

lemma path_starts_with_trans:
  "path_starts_with p q \<Longrightarrow> path_starts_with q r \<Longrightarrow> path_starts_with p r"
  by (auto simp: path_starts_with_iff)

section \<open>Collections of facts\<close>

named_theorems invariant_intros \<open>preservation of component invariants\<close>
named_theorems word_facts \<open>unsigned readings of machine arithmetic\<close>

section \<open>Results\<close>

fun is_ok :: "'e + 'a \<Rightarrow> bool" where
  "is_ok (Inl _) = False"
| "is_ok (Inr _) = True"

fun and_then :: "'e + 'a \<Rightarrow> ('a \<Rightarrow> 'e + 'b) \<Rightarrow> 'e + 'b" where
  "and_then (Inl e) _ = Inl e"
| "and_then (Inr x) f = f x"

fun map_err :: "('e \<Rightarrow> 'f) \<Rightarrow> 'e + 'a \<Rightarrow> 'f + 'a" where
  "map_err f (Inl e) = Inl (f e)"
| "map_err _ (Inr x) = Inr x"

definition ok_or :: "'e \<Rightarrow> 'a option \<Rightarrow> 'e + 'a" where
  "ok_or e x = (case x of None \<Rightarrow> Inl e | Some y \<Rightarrow> Inr y)"

lemma ok_or_simps [simp]: "ok_or e None = Inl e" "ok_or e (Some x) = Inr x"
  by (simp_all add: ok_or_def)

lemma and_then_Inr_iff: "and_then r f = Inr y \<longleftrightarrow> (\<exists>x. r = Inr x \<and> f x = Inr y)"
  by (cases r) auto

lemma is_ok_iff: "is_ok r \<longleftrightarrow> (\<exists>x. r = Inr x)"
  by (cases r) auto

lemma map_err_Inr_iff [simp]: "map_err f r = Inr x \<longleftrightarrow> r = Inr x"
  by (cases r) auto

fun collect_results :: "('e + 'a) list \<Rightarrow> 'e + 'a list" where
  "collect_results [] = Inr []"
| "collect_results (r # rs) = and_then r (\<lambda>x. and_then (collect_results rs) (\<lambda>xs. Inr (x # xs)))"

text \<open>A number in decimal digits.\<close>

fun decimal :: "nat \<Rightarrow> string" where
  "decimal n = (if n < 10 then [char_of (48 + n)] else decimal (n div 10) @ [char_of (48 + n mod 10)])"

declare decimal.simps [simp del]

section \<open>Machine arithmetic\<close>

definition saturating_add :: "'n::len word \<Rightarrow> 'n word \<Rightarrow> 'n word" where
  "saturating_add a b = (if unat a + unat b < 2 ^ LENGTH('n) then a + b else - 1)"

definition saturating_sub :: "'n::len word \<Rightarrow> 'n word \<Rightarrow> 'n word" where
  "saturating_sub a b = (if b \<le> a then a - b else 0)"

definition checked_add :: "'n::len word \<Rightarrow> 'n word \<Rightarrow> 'n word option" where
  "checked_add a b = (if unat a + unat b < 2 ^ LENGTH('n) then Some (a + b) else None)"

lemma unat_add_no_overflow:
  "unat (a :: 'n::len word) + unat b < 2 ^ LENGTH('n) \<Longrightarrow> unat (a + b) = unat a + unat b"
  by (simp add: unat_word_ariths)

lemma unat_saturating_add [word_facts]:
  "unat (saturating_add (a :: 'n::len word) b) = min (unat a + unat b) (2 ^ LENGTH('n) - 1)"
  by (auto simp: saturating_add_def unat_add_no_overflow unsigned_minus_1_eq_mask mask_eq_exp_minus_1)

lemma unat_saturating_sub [word_facts]: "unat (saturating_sub a b) = unat a - unat b"
  by (auto simp: saturating_sub_def unat_sub word_le_nat_alt)

lemma checked_add_Some [word_facts]:
  "checked_add a b = Some c \<Longrightarrow> unat c = unat a + unat b"
  by (auto simp: checked_add_def unat_add_no_overflow split: if_splits)

lemma checked_add_None_iff:
  "checked_add (a :: 'n::len word) b = None \<longleftrightarrow> 2 ^ LENGTH('n) \<le> unat a + unat b"
  by (auto simp: checked_add_def)

section \<open>Slices\<close>

text \<open>\<^verbatim>\<open>slice.get(i)\<close>: the element, or \<^term>\<open>None\<close> past the end.\<close>

definition get :: "'a list \<Rightarrow> nat \<Rightarrow> 'a option" where
  "get xs i = (if i < length xs then Some (xs ! i) else None)"

text \<open>
  \<^verbatim>\<open>slice.get(i.wrapping_sub(1))\<close>: at \<open>i = 0\<close> the index wraps to \<^verbatim>\<open>usize::MAX\<close>, which no
  slice reaches, so the read is \<^term>\<open>None\<close>.
\<close>

definition get_before :: "'a list \<Rightarrow> nat \<Rightarrow> 'a option" where
  "get_before xs i = (if i = 0 then None else get xs (i - 1))"

definition sub :: "'a list \<Rightarrow> nat \<Rightarrow> nat \<Rightarrow> 'a list" where
  "sub xs i j = take (j - i) (drop i xs)"

lemma get_Some_iff: "get xs i = Some x \<longleftrightarrow> i < length xs \<and> xs ! i = x"
  by (auto simp: get_def)

lemma sub_append_sub:
  assumes "i \<le> j" "j \<le> k"
  shows "sub xs i j @ sub xs j k = sub xs i k"
proof -
  have "take ((j - i) + (k - j)) (drop i xs) = take (j - i) (drop i xs) @ take (k - j) (drop (j - i) (drop i xs))"
    by (rule take_add)
  with assms show ?thesis by (simp add: sub_def)
qed

lemma length_sub: "j \<le> length xs \<Longrightarrow> length (sub xs i j) = j - i"
  by (auto simp: sub_def)

section \<open>Strings\<close>

text \<open>
  \<^verbatim>\<open>str::trim().is_empty()\<close> on the identifiers of the system: the string consists of white
  space only. The ASCII white space of Rust's \<^verbatim>\<open>char::is_whitespace\<close> is tab, line feed,
  vertical tab, form feed, carriage return and space.
\<close>

definition is_trim_whitespace :: "char \<Rightarrow> bool" where
  "is_trim_whitespace c \<longleftrightarrow>
     c \<in> {CHR 0x09, CHR 0x0A, CHR 0x0B, CHR 0x0C, CHR 0x0D, CHR '' ''}"

definition blank :: "string \<Rightarrow> bool" where
  "blank s \<longleftrightarrow> (\<forall>c \<in> set s. is_trim_whitespace c)"

definition starts_with :: "'a list \<Rightarrow> 'a list \<Rightarrow> bool" where
  "starts_with s prefix \<longleftrightarrow> take (length prefix) s = prefix"

definition ends_with :: "'a list \<Rightarrow> 'a list \<Rightarrow> bool" where
  "ends_with s suffix \<longleftrightarrow> length suffix \<le> length s \<and> drop (length s - length suffix) s = suffix"

fun contains_sub :: "'a list \<Rightarrow> 'a list \<Rightarrow> bool" where
  "contains_sub [] needle = (needle = [])"
| "contains_sub (c # s) needle = (starts_with (c # s) needle \<or> contains_sub s needle)"

lemma blank_Nil [simp]: "blank []"
  by (simp add: blank_def)

lemma contains_sub_iff: "contains_sub s needle \<longleftrightarrow> (\<exists>pre post. s = pre @ needle @ post)"
proof (induction s)
  case Nil
  then show ?case by auto
next
  case (Cons c s)
  have "starts_with (c # s) needle \<longleftrightarrow> (\<exists>post. c # s = needle @ post)"
    unfolding starts_with_def by (metis append_eq_conv_conj append_take_drop_id)
  then show ?case
    using Cons.IH by (auto simp: Cons_eq_append_conv)
qed

section \<open>Lists and finite maps\<close>

lemma sorted_upt_filter: "filter (\<lambda>k. c < k) [a..<b] = [max a (Suc c)..<b]"
  by (induction b) (auto simp: max_def)

lemma takeWhile_prefix: "\<exists>n. takeWhile P xs = take n xs"
  by (metis takeWhile_eq_take)

lemma finite_dom_upd_card:
  "finite (dom m) \<Longrightarrow> m k = None \<Longrightarrow> card (dom (m(k \<mapsto> v))) = Suc (card (dom m))"
  by (simp add: domIff)

lemma finite_dom_del_card:
  "finite (dom m) \<Longrightarrow> m k = Some v \<Longrightarrow> card (dom (m(k := None))) = card (dom m) - 1"
  by (simp add: domI)

end
