(* ===== verification/Domain_Types.thy ===== *)
theory Domain_Types
  imports Maestro_Prelude
begin

text \<open>
  The durable domain types of \<^verbatim>\<open>crates/maestro-domain\<close>: identifiers (\<^verbatim>\<open>ids.rs\<close>), the error
  value every fallible operation returns (\<^verbatim>\<open>error.rs\<close>), capability descriptors
  (\<^verbatim>\<open>capability.rs\<close>) and normalized events (\<^verbatim>\<open>event.rs\<close>). JSON values are the
  data of \<^verbatim>\<open>serde_json::Value\<close> that the sources match on.

  Identifiers and correlation tags come from a random generator (\<^verbatim>\<open>Uuid::new_v4\<close>) and time
  stamps from the system clock: an operation that draws one takes it as an argument.
\<close>

section \<open>JSON values\<close>

datatype json_number = PosInt u64 | NegInt int | Float u64

datatype json =
    Null
  | Bool bool
  | Number json_number
  | String string
  | Array "json list"
  | Object "(string \<times> json) list"

fun as_str :: "json \<Rightarrow> string option" where
  "as_str (String s) = Some s"
| "as_str _ = None"

fun as_object :: "json \<Rightarrow> (string \<times> json) list option" where
  "as_object (Object kvs) = Some kvs"
| "as_object _ = None"

fun as_u64 :: "json \<Rightarrow> u64 option" where
  "as_u64 (Number (PosInt n)) = Some n"
| "as_u64 _ = None"

text \<open>Numbers as the \<^verbatim>\<open>json!\<close> macro renders them.\<close>

definition nat_json :: "nat \<Rightarrow> json" where
  "nat_json n = Number (PosInt (of_nat n))"

definition int_json :: "int \<Rightarrow> json" where
  "int_json i = (if i < 0 then Number (NegInt i) else Number (PosInt (of_int i)))"

section \<open>Identifiers\<close>

datatype project_id = ProjectId uuid
datatype session_id = SessionId uuid
datatype run_id = RunId uuid
datatype turn_id = TurnId uuid
datatype event_id = EventId uuid
datatype request_id = RequestId uuid
datatype terminal_id = TerminalId uuid

section \<open>Errors\<close>

datatype error_code =
    AuthenticationRequired | CliNotInstalled | CliProtocolIncompatible | DaemonLocked
  | DatabaseUnavailable | InvalidRequest | PermissionDenied | ProcessCrashed
  | SessionNotFound | TerminalLimitReached | TerminalNotFound | TerminalNotRunning
  | InputTooLarge | InvalidPath | UnsupportedCapability | Internal

record maestro_error =
  err_code :: error_code
  err_message :: string
  err_retryable :: bool
  err_user_action :: "string option"
  err_correlation_id :: uuid
  err_details :: "json option"

text \<open>\<^verbatim>\<open>MaestroError::new\<close>; \<open>cid\<close> is the fresh correlation identifier.\<close>

definition maestro_error_new :: "uuid \<Rightarrow> error_code \<Rightarrow> string \<Rightarrow> maestro_error" where
  "maestro_error_new cid code message =
     \<lparr>err_code = code, err_message = message, err_retryable = False,
      err_user_action = None, err_correlation_id = cid, err_details = None\<rparr>"

definition with_user_action :: "maestro_error \<Rightarrow> string \<Rightarrow> maestro_error" where
  "with_user_action e action = e\<lparr>err_user_action := Some action\<rparr>"

lemma maestro_error_new_simps [simp]:
  "err_code (maestro_error_new cid code message) = code"
  "err_message (maestro_error_new cid code message) = message"
  "err_details (maestro_error_new cid code message) = None"
  "err_retryable (maestro_error_new cid code message) = False"
  "err_correlation_id (maestro_error_new cid code message) = cid"
  by (simp_all add: maestro_error_new_def)

section \<open>Capabilities\<close>

datatype agent_kind = Codex | Claude | Agy | Fake

fun executable_name :: "agent_kind \<Rightarrow> string" where
  "executable_name Codex = ''codex''"
| "executable_name Claude = ''claude''"
| "executable_name Agy = ''agy''"
| "executable_name Fake = ''maestro-fake-agent''"

datatype capability_support = Structured | CliManaged | PtyOnly | MaestroEmulated | Unavailable

datatype capability_maturity = Stable | Experimental

datatype security_class = ReadOnly | Mutating | Sensitive | Dangerous

text \<open>\<^verbatim>\<open>SecurityClass\<close> derives its order from the order of its variants.\<close>

instantiation security_class :: linorder
begin

fun security_rank :: "security_class \<Rightarrow> nat" where
  "security_rank ReadOnly = 0"
| "security_rank Mutating = 1"
| "security_rank Sensitive = 2"
| "security_rank Dangerous = 3"

definition less_eq_security_class :: "security_class \<Rightarrow> security_class \<Rightarrow> bool" where
  "less_eq_security_class a b \<longleftrightarrow> security_rank a \<le> security_rank b"

definition less_security_class :: "security_class \<Rightarrow> security_class \<Rightarrow> bool" where
  "less_security_class a b \<longleftrightarrow> security_rank a < security_rank b"

instance
proof
  fix a b :: security_class
  show "a \<le> b \<Longrightarrow> b \<le> a \<Longrightarrow> a = b"
    by (cases a; cases b) (simp_all add: less_eq_security_class_def)
qed (auto simp: less_eq_security_class_def less_security_class_def)

end

record capability_descriptor =
  cap_id :: string
  cap_label :: string
  cap_description :: string
  cap_support :: capability_support
  cap_maturity :: capability_maturity
  cap_security_class :: security_class
  cap_tested_version_range :: "string option"
  cap_requires_authentication :: bool
  cap_fallback :: "string option"
  cap_unavailable_reason :: "string option"

definition is_available :: "capability_descriptor \<Rightarrow> bool" where
  "is_available c \<longleftrightarrow> cap_support c \<noteq> Unavailable"

definition requires_explicit_warning :: "capability_descriptor \<Rightarrow> bool" where
  "requires_explicit_warning c \<longleftrightarrow>
     cap_maturity c = Experimental \<or> cap_security_class c = Dangerous"

section \<open>Events\<close>

datatype event_source = Cli | Gui | Daemon | Hook | Pty

datatype event_visibility = VisUser | VisDebug | VisSensitive

record normalized_event =
  ev_kind :: string
  ev_visibility :: event_visibility
  ev_payload :: json
  ev_vendor_event_id :: "string option"
  ev_raw_segment_reference :: "string option"

definition normalized_event_user :: "string \<Rightarrow> json \<Rightarrow> normalized_event" where
  "normalized_event_user kind payload =
     \<lparr>ev_kind = kind, ev_visibility = VisUser, ev_payload = payload,
      ev_vendor_event_id = None, ev_raw_segment_reference = None\<rparr>"

record event_envelope =
  env_event_id :: event_id
  env_session_id :: session_id
  env_run_id :: "run_id option"
  env_sequence :: u64
  env_timestamp :: date_time
  env_source :: event_source
  env_event :: normalized_event

text \<open>\<^verbatim>\<open>EventEnvelope::new\<close>; the identifier and the time stamp are drawn by the caller.\<close>

definition event_envelope_new ::
  "event_id \<Rightarrow> date_time \<Rightarrow> session_id \<Rightarrow> run_id option \<Rightarrow> u64 \<Rightarrow> event_source \<Rightarrow> normalized_event \<Rightarrow>
   event_envelope" where
  "event_envelope_new eid now session run sequence source event =
     \<lparr>env_event_id = eid, env_session_id = session, env_run_id = run, env_sequence = sequence,
      env_timestamp = now, env_source = source, env_event = event\<rparr>"

lemma event_envelope_new_simps [simp]:
  "env_sequence (event_envelope_new eid now session run sequence source event) = sequence"
  "env_event (event_envelope_new eid now session run sequence source event) = event"
  "env_session_id (event_envelope_new eid now session run sequence source event) = session"
  by (simp_all add: event_envelope_new_def)

end
