(* ===== verification/Session_State.thy ===== *)
theory Session_State
  imports Domain_Types
begin

text \<open>
  The durable session state machine of \<^verbatim>\<open>crates/maestro-domain/src/session.rs\<close>: the states,
  the transition table \<^verbatim>\<open>can_transition_to\<close>, the validated step \<^verbatim>\<open>transition_to\<close>, and the
  runs of the machine as an inductive relation.
\<close>

datatype integration_mode = StructuredMode | CliManagedMode | PtyTui

datatype session_state =
    Created | Starting | Ready | Running | AwaitingPermission | AwaitingUserInput
  | Background | Interrupting | Completed | Stopped | Failed | Interrupted
  | Recoverable | Incompatible

fun is_terminal :: "session_state \<Rightarrow> bool" where
  "is_terminal s \<longleftrightarrow> s \<in> {Completed, Stopped, Incompatible}"

fun can_transition_to :: "session_state \<Rightarrow> session_state \<Rightarrow> bool" where
  "can_transition_to Created n \<longleftrightarrow> n \<in> {Starting, Stopped}"
| "can_transition_to Starting n \<longleftrightarrow>
     n \<in> {Ready, Running, Failed, Interrupted, Incompatible, Stopped}"
| "can_transition_to Ready n \<longleftrightarrow> n \<in> {Running, Background, Stopped, Failed}"
| "can_transition_to Running n \<longleftrightarrow>
     n \<in> {AwaitingPermission, AwaitingUserInput, Background, Interrupting, Completed, Failed,
          Interrupted, Stopped}"
| "can_transition_to AwaitingPermission n \<longleftrightarrow>
     n \<in> {Running, Background, Interrupting, Failed, Interrupted, Stopped}"
| "can_transition_to AwaitingUserInput n \<longleftrightarrow>
     n \<in> {Running, Background, Interrupting, Failed, Interrupted, Stopped}"
| "can_transition_to Background n \<longleftrightarrow>
     n \<in> {Ready, Running, AwaitingPermission, AwaitingUserInput, Interrupting, Completed, Failed,
          Interrupted, Stopped}"
| "can_transition_to Interrupting n \<longleftrightarrow> n \<in> {Ready, Interrupted, Completed, Failed, Stopped}"
| "can_transition_to Failed n \<longleftrightarrow> n \<in> {Recoverable, Starting, Stopped}"
| "can_transition_to Interrupted n \<longleftrightarrow> n \<in> {Recoverable, Starting, Stopped}"
| "can_transition_to Recoverable n \<longleftrightarrow> n \<in> {Starting, Stopped, Incompatible}"
| "can_transition_to _ n \<longleftrightarrow> False"

record session_transition_error =
  from_state :: session_state
  to_state :: session_state

definition transition_to ::
  "session_state \<Rightarrow> session_state \<Rightarrow> session_transition_error + session_state" where
  "transition_to s n =
     (if s = n \<or> can_transition_to s n then Inr n else Inl \<lparr>from_state = s, to_state = n\<rparr>)"

section \<open>Runs of the machine\<close>

inductive session_run :: "session_state \<Rightarrow> session_state list \<Rightarrow> session_state \<Rightarrow> bool" where
  run_done: "session_run s [] s"
| run_step: "transition_to s n = Inr n \<Longrightarrow> session_run n ns t \<Longrightarrow> session_run s (n # ns) t"

inductive_cases run_NilE: "session_run s [] t"
inductive_cases run_ConsE: "session_run s (n # ns) t"

lemma terminal_no_successor: "is_terminal s \<longleftrightarrow> (\<forall>n. \<not> can_transition_to s n)"
  by (cases s) auto

lemma transition_to_ok_iff: "transition_to s n = Inr m \<longleftrightarrow> m = n \<and> (s = n \<or> can_transition_to s n)"
  by (auto simp: transition_to_def)

lemma session_run_append:
  "session_run s ns t \<Longrightarrow> session_run t ms u \<Longrightarrow> session_run s (ns @ ms) u"
  by (induction rule: session_run.induct) (auto intro: session_run.intros)

lemma terminal_absorbing: "session_run s ns t \<Longrightarrow> is_terminal s \<Longrightarrow> t = s"
proof (induction rule: session_run.induct)
  case (run_step s n ns t)
  then show ?case
    using terminal_no_successor [of s] by (auto simp: transition_to_ok_iff)
qed simp

lemma step_from_Created:
  "can_transition_to Created n \<longleftrightarrow> n = Starting \<or> n = Stopped"
  by auto

lemma created_reaches: "\<exists>ns. session_run Created ns s"
proof -
  have one: "\<And>a b c ns. session_run a ns b \<Longrightarrow> can_transition_to b c \<Longrightarrow> \<exists>ms. session_run a ms c"
    by (metis run_done run_step session_run_append transition_to_ok_iff)
  have st: "\<exists>ns. session_run Created ns Starting"
    using one [OF run_done] by simp
  then have ru: "\<exists>ns. session_run Created ns Running"
    and fa: "\<exists>ns. session_run Created ns Failed"
    using one by (meson can_transition_to.simps insertCI)+
  from fa have "\<exists>ns. session_run Created ns Recoverable"
    using one by (meson can_transition_to.simps insertCI)
  moreover have "\<exists>ns. session_run Created ns Created"
    using run_done by blast
  ultimately show ?thesis
    using st ru fa one by (cases s) (meson can_transition_to.simps insertCI)+
qed

section \<open>Properties\<close>

text \<open>the terminal states of the durable session machine are exactly the states without a
  successor, every state that is not terminal can be stopped at once, every state is reachable
  from \<^const>\<open>Created\<close> by validated transitions, and a run of validated transitions never leaves a
  terminal state: a completed, stopped or incompatible session does not become active again in place.
\<close>

theorem session_machine_shape:
  "(is_terminal s \<longleftrightarrow> (\<forall>n. \<not> can_transition_to s n)) \<and>
   (is_terminal s \<or> can_transition_to s Stopped) \<and>
   (\<exists>ns. session_run Created ns s) \<and>
   (\<forall>ns t. session_run s ns t \<and> is_terminal s \<longrightarrow> t = s)"
proof -
  have "is_terminal s \<or> can_transition_to s Stopped"
    by (cases s) auto
  then show ?thesis
    using terminal_no_successor created_reaches terminal_absorbing by blast
qed

theorem session_machine_shape_witness:
  "session_run Completed [Completed] Completed \<and> is_terminal Completed \<and>
   \<not> session_run Completed [Completed, Stopped] Stopped"
proof -
  have "session_run Completed [Completed] Completed"
    by (auto intro: session_run.intros simp: transition_to_def)
  moreover have "is_terminal Completed" by simp
  ultimately show ?thesis using session_machine_shape [of Completed] by blast
qed

end
