(* ===== verification/Permission.thy ===== *)
theory Permission
  imports Session_State
begin

text \<open>
  Permission evaluation of \<^verbatim>\<open>crates/maestro-domain/src/permission.rs\<close>: rule scopes and their
  specificity, the matcher, the overlay order of \<^verbatim>\<open>evaluate_permission\<close> and the creation of
  durable rules. The \<^verbatim>\<open>regex\<close> crate is a parameter: \<open>regex_match pattern text\<close> is
  \<^term>\<open>None\<close> when the pattern does not compile and otherwise whether it matches.
\<close>

datatype permission_effect = Allow | Deny

datatype permission_rule_scope =
    ScopeRequest request_id | ScopeSession session_id | ScopeProject project_id
  | ScopeCli agent_kind | ScopeGlobal

record permission_request_context =
  rq_request_id :: request_id
  rq_session_id :: session_id
  rq_project_id :: project_id
  rq_agent :: agent_kind
  rq_tool_name :: "string option"
  rq_command :: "string option"
  rq_canonical_paths :: "path list"
  rq_dangerous :: bool

fun specificity :: "permission_rule_scope \<Rightarrow> nat" where
  "specificity (ScopeRequest _) = 5"
| "specificity (ScopeSession _) = 4"
| "specificity (ScopeProject _) = 3"
| "specificity (ScopeCli _) = 2"
| "specificity ScopeGlobal = 1"

fun scope_matches :: "permission_rule_scope \<Rightarrow> permission_request_context \<Rightarrow> bool" where
  "scope_matches (ScopeRequest i) r \<longleftrightarrow> i = rq_request_id r"
| "scope_matches (ScopeSession i) r \<longleftrightarrow> i = rq_session_id r"
| "scope_matches (ScopeProject i) r \<longleftrightarrow> i = rq_project_id r"
| "scope_matches (ScopeCli a) r \<longleftrightarrow> a = rq_agent r"
| "scope_matches ScopeGlobal r \<longleftrightarrow> True"

record permission_rule_matcher =
  m_tool_name :: "string option"
  m_command_regex :: "string option"
  m_canonical_path_prefix :: "path option"

record permission_rule =
  rule_id :: string
  rule_effect :: permission_effect
  rule_scope :: permission_rule_scope
  rule_matcher :: permission_rule_matcher
  rule_expires_at :: "date_time option"
  rule_created_at :: date_time
  rule_creation_source :: string

datatype vendor_default_decision = VendorAllow | VendorDeny | VendorAsk

record vendor_permission_policy =
  admin_or_vendor_denied :: bool
  explicitly_asks :: bool
  default_decision :: vendor_default_decision

datatype permission_evaluation_source =
    VendorOrAdminDeny | MaestroRule string | VendorExplicitAsk | VendorDefault | GuiPrompt

record permission_evaluation =
  pe_effect :: "permission_effect option"
  pe_source :: permission_evaluation_source

type_synonym regex_engine = "string \<Rightarrow> string \<Rightarrow> bool option"

definition matcher_matches ::
  "regex_engine \<Rightarrow> permission_rule_matcher \<Rightarrow> permission_request_context \<Rightarrow> permission_effect \<Rightarrow> bool"
where
  "matcher_matches regex_match m r effect =
     (if (case m_tool_name m of None \<Rightarrow> False | Some expected \<Rightarrow> rq_tool_name r \<noteq> Some expected)
      then False
      else if (case m_command_regex m of
                 None \<Rightarrow> False
               | Some pattern \<Rightarrow>
                   (case rq_command r of
                      None \<Rightarrow> True
                    | Some command \<Rightarrow> regex_match pattern command \<noteq> Some True))
      then False
      else (case m_canonical_path_prefix m of
              None \<Rightarrow> True
            | Some prefix \<Rightarrow>
                if rq_canonical_paths r = [] then False
                else (case effect of
                        Allow \<Rightarrow> list_all (\<lambda>p. path_starts_with p prefix) (rq_canonical_paths r)
                      | Deny \<Rightarrow> list_ex (\<lambda>p. path_starts_with p prefix) (rq_canonical_paths r))))"

text \<open>\<^verbatim>\<open>Iterator::max_by_key\<close>: the last element with the greatest key.\<close>

fun max_by_key :: "('a \<Rightarrow> nat) \<Rightarrow> 'a list \<Rightarrow> 'a option" where
  "max_by_key k [] = None"
| "max_by_key k (x # xs) =
     (case max_by_key k xs of
        None \<Rightarrow> Some x
      | Some y \<Rightarrow> Some (if k x > k y then x else y))"

definition rule_applies ::
  "regex_engine \<Rightarrow> permission_request_context \<Rightarrow> date_time \<Rightarrow> permission_effect \<Rightarrow> permission_rule \<Rightarrow> bool"
where
  "rule_applies regex_match r now effect rule \<longleftrightarrow>
     rule_effect rule = effect \<and>
     (case rule_expires_at rule of None \<Rightarrow> True | Some t \<Rightarrow> t > now) \<and>
     scope_matches (rule_scope rule) r \<and>
     matcher_matches regex_match (rule_matcher rule) r effect"

definition best_matching_rule ::
  "regex_engine \<Rightarrow> permission_request_context \<Rightarrow> permission_rule list \<Rightarrow> date_time \<Rightarrow>
   permission_effect \<Rightarrow> permission_rule option" where
  "best_matching_rule regex_match r rules now effect =
     max_by_key (\<lambda>rule. specificity (rule_scope rule))
       (filter (\<lambda>rule. matcher_matches regex_match (rule_matcher rule) r effect)
         (filter (\<lambda>rule. scope_matches (rule_scope rule) r)
           (filter (\<lambda>rule. case rule_expires_at rule of None \<Rightarrow> True | Some t \<Rightarrow> t > now)
             (filter (\<lambda>rule. rule_effect rule = effect) rules))))"

definition evaluation ::
  "permission_effect \<Rightarrow> permission_evaluation_source \<Rightarrow> permission_evaluation" where
  "evaluation effect source = \<lparr>pe_effect = Some effect, pe_source = source\<rparr>"

definition evaluate_permission ::
  "regex_engine \<Rightarrow> permission_request_context \<Rightarrow> vendor_permission_policy \<Rightarrow> permission_rule list \<Rightarrow>
   date_time \<Rightarrow> permission_evaluation" where
  "evaluate_permission regex_match request vendor rules now =
     (if admin_or_vendor_denied vendor then evaluation Deny VendorOrAdminDeny
      else (case best_matching_rule regex_match request rules now Deny of
         Some rule \<Rightarrow> evaluation Deny (MaestroRule (rule_id rule))
       | None \<Rightarrow>
           if explicitly_asks vendor
           then \<lparr>pe_effect = None, pe_source = VendorExplicitAsk\<rparr>
           else (case best_matching_rule regex_match request rules now Allow of
              Some rule \<Rightarrow> evaluation Allow (MaestroRule (rule_id rule))
            | None \<Rightarrow>
                (case default_decision vendor of
                   VendorAllow \<Rightarrow> evaluation Allow VendorDefault
                 | VendorDeny \<Rightarrow> evaluation Deny VendorDefault
                 | VendorAsk \<Rightarrow> \<lparr>pe_effect = None, pe_source = GuiPrompt\<rparr>))))"

record permission_rule_draft =
  d_id :: string
  d_effect :: permission_effect
  d_scope :: permission_rule_scope
  d_matcher :: permission_rule_matcher
  d_expires_at :: "date_time option"
  d_creation_source :: string
  d_dangerous :: bool

datatype rule_creation_intent = ThisRequestOnly | Remember bool bool

datatype permission_rule_creation_error = GlobalConfirmationRequired | DangerousConfirmationRequired

definition create_persistent_permission_rule ::
  "permission_rule_draft \<Rightarrow> rule_creation_intent \<Rightarrow> date_time \<Rightarrow>
   permission_rule_creation_error + permission_rule option" where
  "create_persistent_permission_rule draft intent now =
     (case intent of
        ThisRequestOnly \<Rightarrow> Inr None
      | Remember global_confirmed dangerous_confirmed \<Rightarrow>
          if d_scope draft = ScopeGlobal \<and> \<not> global_confirmed then Inl GlobalConfirmationRequired
          else if d_dangerous draft \<and> \<not> dangerous_confirmed then Inl DangerousConfirmationRequired
          else Inr (Some \<lparr>rule_id = d_id draft, rule_effect = d_effect draft,
                          rule_scope = d_scope draft, rule_matcher = d_matcher draft,
                          rule_expires_at = d_expires_at draft, rule_created_at = now,
                          rule_creation_source = d_creation_source draft\<rparr>))"

section \<open>The best rule\<close>

lemma max_by_key_None_iff: "max_by_key k xs = None \<longleftrightarrow> xs = []"
  by (cases xs) (auto split: option.splits)

lemma max_by_key_SomeD:
  "max_by_key k xs = Some x \<Longrightarrow>
     \<exists>as bs. xs = as @ x # bs \<and> (\<forall>a \<in> set as. k a \<le> k x) \<and> (\<forall>b \<in> set bs. k b < k x)"
proof (induction xs arbitrary: x)
  case Nil
  then show ?case by simp
next
  case (Cons y ys)
  show ?case
  proof (cases "max_by_key k ys")
    case None
    with Cons.prems have "y # ys = [] @ x # []" by (simp add: max_by_key_None_iff)
    then show ?thesis by fastforce
  next
    case (Some z)
    then obtain as bs where z: "ys = as @ z # bs" "\<forall>a \<in> set as. k a \<le> k z" "\<forall>b \<in> set bs. k b < k z"
      using Cons.IH by blast
    show ?thesis
    proof (cases "k y > k z")
      case True
      with z have "\<forall>a \<in> set ys. k a < k y" by fastforce
      moreover from True Some Cons.prems have "x = y" by simp
      ultimately show ?thesis by (intro exI [of _ "[]"] exI [of _ ys]) simp
    next
      case False
      with Some Cons.prems have "x = z" by simp
      with z False show ?thesis by (intro exI [of _ "y # as"] exI [of _ bs]) simp
    qed
  qed
qed

lemma best_matching_rule_alt:
  "best_matching_rule regex_match r rules now effect =
     max_by_key (\<lambda>rule. specificity (rule_scope rule)) (filter (rule_applies regex_match r now effect) rules)"
  unfolding best_matching_rule_def rule_applies_def filter_filter
  by (rule arg_cong [where f = "max_by_key _"], rule filter_cong) auto

lemma best_matching_rule_None_iff:
  "best_matching_rule regex_match r rules now effect = None \<longleftrightarrow>
     (\<forall>rule \<in> set rules. \<not> rule_applies regex_match r now effect rule)"
  by (auto simp: best_matching_rule_alt max_by_key_None_iff filter_empty_conv)

lemma best_matching_rule_Some:
  assumes "best_matching_rule regex_match r rules now effect = Some rule"
  shows "rule \<in> set rules" "rule_applies regex_match r now effect rule"
    and "\<And>other. other \<in> set rules \<Longrightarrow> rule_applies regex_match r now effect other \<Longrightarrow>
           specificity (rule_scope other) \<le> specificity (rule_scope rule)"
proof -
  from assms obtain as bs where
    eq: "filter (rule_applies regex_match r now effect) rules = as @ rule # bs"
    and le: "\<forall>a \<in> set as. specificity (rule_scope a) \<le> specificity (rule_scope rule)"
    and lt: "\<forall>b \<in> set bs. specificity (rule_scope b) < specificity (rule_scope rule)"
    by (auto simp: best_matching_rule_alt dest!: max_by_key_SomeD)
  have mem: "rule \<in> set (filter (rule_applies regex_match r now effect) rules)" using eq by simp
  then show "rule \<in> set rules" "rule_applies regex_match r now effect rule" by simp_all
  fix other
  assume "other \<in> set rules" "rule_applies regex_match r now effect other"
  then have "other \<in> set (as @ rule # bs)" unfolding eq [symmetric] by simp
  then show "specificity (rule_scope other) \<le> specificity (rule_scope rule)"
    using le lt by (auto intro: less_imp_le)
qed

lemmas evaluate_simps = evaluate_permission_def evaluation_def

lemmas evaluate_splits = option.splits vendor_default_decision.splits if_splits

section \<open>Properties\<close>

text \<open>
  C1: the overlay order, completely. A request is allowed exactly when no vendor or
  administrator denial, no applicable deny rule and no explicit vendor prompt stands against
  it and an applicable allow rule or the vendor default grants it; it is denied exactly when
  the vendor denies, an applicable deny rule exists, or, with no explicit prompt and no allow
  rule, the vendor default denies. In every other case the user is asked.
\<close>

theorem evaluate_permission_characterised:
  "(pe_effect (evaluate_permission rx request vendor rules now) = Some Allow \<longleftrightarrow>
      \<not> admin_or_vendor_denied vendor \<and> (\<nexists>r. r \<in> set rules \<and> rule_applies rx request now Deny r) \<and>
      \<not> explicitly_asks vendor \<and>
      ((\<exists>r. r \<in> set rules \<and> rule_applies rx request now Allow r) \<or>
       default_decision vendor = VendorAllow)) \<and>
   (pe_effect (evaluate_permission rx request vendor rules now) = Some Deny \<longleftrightarrow>
      admin_or_vendor_denied vendor \<or> (\<exists>r. r \<in> set rules \<and> rule_applies rx request now Deny r) \<or>
      (\<not> explicitly_asks vendor \<and> default_decision vendor = VendorDeny \<and>
       (\<nexists>r. r \<in> set rules \<and> rule_applies rx request now Allow r)))"
proof (cases "best_matching_rule rx request rules now Deny")
  case deny: None
  then have nodeny: "\<nexists>r. r \<in> set rules \<and> rule_applies rx request now Deny r"
    by (auto simp: best_matching_rule_None_iff)
  show ?thesis
  proof (cases "best_matching_rule rx request rules now Allow")
    case None
    then have "\<nexists>r. r \<in> set rules \<and> rule_applies rx request now Allow r"
      by (auto simp: best_matching_rule_None_iff)
    with nodeny deny None show ?thesis
      by (auto simp: evaluate_simps split: vendor_default_decision.splits)
  next
    case (Some rule)
    with best_matching_rule_Some [OF Some] nodeny deny show ?thesis
      by (auto simp: evaluate_simps)
  qed
next
  case (Some rule)
  with best_matching_rule_Some(1,2) [OF Some] show ?thesis
    by (auto simp: evaluate_simps)
qed

text \<open>when the decision is attributed to a Maestro rule, that rule is one of the user's rules,
  it applies to the request (scope, matcher, not expired), its effect is the decision, and no
  applicable rule of the same effect is more specific.
\<close>

theorem deciding_rule_most_specific:
  assumes "pe_source (evaluate_permission rx request vendor rules now) = MaestroRule i"
  shows "\<exists>rule effect. rule \<in> set rules \<and> rule_id rule = i \<and>
           pe_effect (evaluate_permission rx request vendor rules now) = Some effect \<and>
           rule_applies rx request now effect rule \<and>
           (\<forall>other. other \<in> set rules \<and> rule_applies rx request now effect other \<longrightarrow>
              specificity (rule_scope other) \<le> specificity (rule_scope rule))"
proof -
  from assms obtain rule effect where
    best: "best_matching_rule rx request rules now effect = Some rule" and i: "rule_id rule = i"
    and eff: "pe_effect (evaluate_permission rx request vendor rules now) = Some effect"
    by (auto simp: evaluate_simps split: evaluate_splits)
  show ?thesis
    using best_matching_rule_Some [OF best] i eff by blast
qed

definition sample_request :: permission_request_context where
  "sample_request = \<lparr>rq_request_id = RequestId 1, rq_session_id = SessionId 2, rq_project_id = ProjectId 3,
     rq_agent = Fake, rq_tool_name = Some ''shell'', rq_command = None,
     rq_canonical_paths = [[''/'', ''work'', ''a'']], rq_dangerous = False\<rparr>"

definition sample_rule :: "string \<Rightarrow> permission_effect \<Rightarrow> permission_rule_scope \<Rightarrow> date_time option \<Rightarrow> permission_rule" where
  "sample_rule i effect scope expiry = \<lparr>rule_id = i, rule_effect = effect, rule_scope = scope,
     rule_matcher = \<lparr>m_tool_name = Some ''shell'', m_command_regex = None,
       m_canonical_path_prefix = Some [''/'', ''work'']\<rparr>,
     rule_expires_at = expiry, rule_created_at = 0, rule_creation_source = ''gui''\<rparr>"

definition open_vendor :: vendor_permission_policy where
  "open_vendor = \<lparr>admin_or_vendor_denied = False, explicitly_asks = False, default_decision = VendorAsk\<rparr>"

lemmas sample_defs = sample_request_def sample_rule_def open_vendor_def evaluate_simps
  best_matching_rule_def matcher_matches_def path_starts_with_def rule_applies_def

theorem deciding_rule_most_specific_witness:
  "pe_source (evaluate_permission (\<lambda>_ _. None) sample_request open_vendor
     [sample_rule ''g'' Allow ScopeGlobal None, sample_rule ''s'' Allow (ScopeSession (SessionId 2)) None] 5)
     = MaestroRule ''s'' \<and>
   (\<exists>rule effect. rule_id rule = ''s'' \<and> rule_applies (\<lambda>_ _. None) sample_request 5 effect rule)"
proof -
  have h: "pe_source (evaluate_permission (\<lambda>_ _. None) sample_request open_vendor
     [sample_rule ''g'' Allow ScopeGlobal None, sample_rule ''s'' Allow (ScopeSession (SessionId 2)) None] 5)
     = MaestroRule ''s''"
    by (simp add: sample_defs)
  show ?thesis using h deciding_rule_most_specific [OF h] by blast
qed

text \<open>
  a rule that has expired is inert: removing it from the list, wherever it stands, changes
  neither the decision nor its attribution.
\<close>

theorem expired_rule_inert:
  assumes "rule_expires_at rule = Some t" and "t \<le> now"
  shows "evaluate_permission rx request vendor (as @ rule # bs) now =
         evaluate_permission rx request vendor (as @ bs) now"
proof -
  have "\<not> rule_applies rx request now effect rule" for effect
    using assms by (simp add: rule_applies_def)
  then have "best_matching_rule rx request (as @ rule # bs) now effect =
      best_matching_rule rx request (as @ bs) now effect" for effect
    by (simp add: best_matching_rule_alt)
  then show ?thesis
    by (simp add: evaluate_permission_def split: option.split)
qed

theorem expired_rule_inert_witness:
  "rule_expires_at (sample_rule ''x'' Deny ScopeGlobal (Some 5)) = Some 5 \<and> (5::int) \<le> 5 \<and>
   evaluate_permission (\<lambda>_ _. None) sample_request open_vendor
     ([] @ sample_rule ''x'' Deny ScopeGlobal (Some 5) # [sample_rule ''g'' Allow ScopeGlobal None]) 5 =
   evaluate_permission (\<lambda>_ _. None) sample_request open_vendor
     ([] @ [sample_rule ''g'' Allow ScopeGlobal None]) 5"
proof -
  have h: "rule_expires_at (sample_rule ''x'' Deny ScopeGlobal (Some 5)) = Some 5"
    by (simp add: sample_rule_def)
  show ?thesis
    using h expired_rule_inert [OF h order_refl, of _ _ _ "[]"] by simp
qed

text \<open>a durable rule comes into being exactly on an explicit wish to remember it, with the
  second confirmation when its scope is global and the stronger one when it is dangerous, and
  then it carries the draft's effect, scope and matcher.
\<close>

theorem persistent_rule_iff_confirmed:
  "create_persistent_permission_rule draft intent now = Inr (Some rule) \<longleftrightarrow>
     (\<exists>g d. intent = Remember g d \<and> (d_scope draft \<noteq> ScopeGlobal \<or> g) \<and> (d \<or> d_dangerous draft = False) \<and>
        rule = \<lparr>rule_id = d_id draft, rule_effect = d_effect draft, rule_scope = d_scope draft,
                rule_matcher = d_matcher draft, rule_expires_at = d_expires_at draft,
                rule_created_at = now, rule_creation_source = d_creation_source draft\<rparr>)"
  by (auto simp: create_persistent_permission_rule_def split: rule_creation_intent.splits if_splits)

definition sample_draft :: permission_rule_draft where
  "sample_draft = \<lparr>d_id = ''r'', d_effect = Allow, d_scope = ScopeGlobal,
     d_matcher = \<lparr>m_tool_name = None, m_command_regex = None, m_canonical_path_prefix = None\<rparr>,
     d_expires_at = None, d_creation_source = ''gui'', d_dangerous = True\<rparr>"

theorem persistent_rule_iff_confirmed_witness:
  "\<not> is_ok (create_persistent_permission_rule sample_draft (Remember True False) 7) \<and>
   (\<forall>rule. create_persistent_permission_rule sample_draft (Remember False True) 7 \<noteq> Inr (Some rule))"
proof -
  have "create_persistent_permission_rule sample_draft (Remember False True) 7 \<noteq> Inr (Some rule)" for rule
    unfolding persistent_rule_iff_confirmed by (simp add: sample_draft_def)
  then show ?thesis by (simp add: create_persistent_permission_rule_def sample_draft_def)
qed

end
