(* ===== verification/Wire_Protocol.thy ===== *)
theory Wire_Protocol
  imports Domain_Types
begin

text \<open>
  The length-prefixed frame codec of \<^verbatim>\<open>crates/maestro-protocol/src/lib.rs\<close> and the frame
  reader and writer of \<^verbatim>\<open>crates/maestrod/src/ipc.rs\<close>. The MessagePack serializer
  (\<^verbatim>\<open>rmp_serde\<close>) is a parameter: \<open>to_vec_named\<close> encodes a value, \<open>from_read\<close> decodes a
  payload; either may fail with an error, kept as its text. A socket is the list of segments its
  \<^verbatim>\<open>read\<close> calls return, so that short reads are part of the model.
\<close>

unbundle bit_operations_syntax

section \<open>Constants\<close>

definition PROTOCOL_VERSION :: u16 where "PROTOCOL_VERSION = 9"
definition MAX_FRAME_BYTES :: nat where "MAX_FRAME_BYTES = 16 * 1024 * 1024"
definition MAX_HELLO_FRAME_BYTES :: nat where "MAX_HELLO_FRAME_BYTES = 16 * 1024"

section \<open>Codec\<close>

datatype codec_error =
    FrameTooLarge nat nat
  | IncompleteFrame nat nat
  | Encode string
  | Decode string

text \<open>\<^verbatim>\<open>u32::to_be_bytes\<close> and \<^verbatim>\<open>u32::from_be_bytes\<close>.\<close>

definition to_be_bytes :: "u32 \<Rightarrow> bytes" where
  "to_be_bytes n = map (\<lambda>i. ucast (drop_bit i n)) [24, 16, 8, 0]"

definition from_be_bytes :: "bytes \<Rightarrow> u32" where
  "from_be_bytes bs = foldl (\<lambda>acc b. push_bit 8 acc OR ucast b) 0 bs"

type_synonym 'a encoder = "'a \<Rightarrow> string + bytes"
type_synonym 'a decoder = "bytes \<Rightarrow> string + 'a"

definition encode_frame :: "'a encoder \<Rightarrow> 'a \<Rightarrow> codec_error + bytes" where
  "encode_frame to_vec_named value =
     (case to_vec_named value of
        Inl e \<Rightarrow> Inl (Encode e)
      | Inr payload \<Rightarrow>
          if length payload > MAX_FRAME_BYTES
          then Inl (FrameTooLarge (length payload) MAX_FRAME_BYTES)
          else if length payload \<ge> 2 ^ 32
          then Inl (FrameTooLarge (length payload) MAX_FRAME_BYTES)
          else Inr (to_be_bytes (of_nat (length payload)) @ payload))"

definition decode_payload :: "'a decoder \<Rightarrow> bytes \<Rightarrow> codec_error + 'a" where
  "decode_payload from_read payload =
     (if length payload > MAX_FRAME_BYTES
      then Inl (FrameTooLarge (length payload) MAX_FRAME_BYTES)
      else map_err Decode (from_read payload))"

definition decode_frame :: "'a decoder \<Rightarrow> bytes \<Rightarrow> codec_error + 'a" where
  "decode_frame from_read frame =
     (if length frame < 4 then Inl (IncompleteFrame 4 (length frame))
      else
        (let len = unat (from_be_bytes (take 4 frame)) in
         if len > MAX_FRAME_BYTES then Inl (FrameTooLarge len MAX_FRAME_BYTES)
         else if length frame \<noteq> len + 4 then Inl (IncompleteFrame (len + 4) (length frame))
         else decode_payload from_read (drop 4 frame)))"

section \<open>Socket reads\<close>

text \<open>
  \<open>read_some n segments\<close> is one \<^verbatim>\<open>read\<close> into a buffer of \<open>n\<close> bytes: at most the first pending
  segment, nothing at the end of the stream. Empty segments do not occur on a socket; the
  model skips them.
\<close>

fun read_some :: "nat \<Rightarrow> bytes list \<Rightarrow> bytes \<times> bytes list" where
  "read_some n [] = ([], [])"
| "read_some n ([] # segs) = read_some n segs"
| "read_some n (seg # segs) =
     (take n seg, if length seg \<le> n then segs else drop n seg # segs)"

lemma read_some_concat:
  "read_some n segs = (got, rest) \<Longrightarrow> concat segs = got @ concat rest"
  by (induction n segs rule: read_some.induct) (auto split: if_splits)

lemma read_some_bound: "read_some n segs = (got, rest) \<Longrightarrow> length got \<le> n"
  by (induction n segs rule: read_some.induct) auto

lemma read_some_Nil: "read_some n segs = ([], rest) \<Longrightarrow> 0 < n \<Longrightarrow> concat segs = []"
  by (induction n segs rule: read_some.induct) auto

text \<open>
  The prefix loop: reads until four bytes are there; at the end of the stream with no byte it
  is a clean end, with some bytes a truncated prefix. \<^verbatim>\<open>read_exact\<close> is the same loop for the
  payload, whose end of stream is an I/O error.
\<close>

datatype ipc_error = Io | Codec | TruncatedPrefix nat | Fatal maestro_error | UnexpectedFrame
  | Disconnected

function read_full :: "nat \<Rightarrow> bytes \<Rightarrow> bytes list \<Rightarrow> (bytes + bytes) \<times> bytes list" where
  "read_full n acc segs =
     (if length acc \<ge> n then (Inr acc, segs)
      else case read_some (n - length acc) segs of
             (got, rest) \<Rightarrow> if got = [] then (Inl acc, rest) else read_full n (acc @ got) rest)"
  by pat_completeness auto
termination
  by (relation "measure (\<lambda>(n, acc, segs). n - length acc)") (auto intro!: diff_less_mono2)

declare read_full.simps [simp del]

definition read_frame_with_limit ::
  "'a decoder \<Rightarrow> nat \<Rightarrow> bytes list \<Rightarrow> (ipc_error + 'a option) \<times> bytes list" where
  "read_frame_with_limit from_read maximum_bytes segs =
     (case read_full 4 [] segs of
        (Inl [], rest) \<Rightarrow> (Inr None, rest)
      | (Inl acc, rest) \<Rightarrow> (Inl (TruncatedPrefix (length acc)), rest)
      | (Inr prefix, rest) \<Rightarrow>
          let len = unat (from_be_bytes prefix) in
          if len > min maximum_bytes MAX_FRAME_BYTES then (Inl Codec, rest)
          else (case read_full len [] rest of
                  (Inl _, rest') \<Rightarrow> (Inl Io, rest')
                | (Inr payload, rest') \<Rightarrow>
                    (map_err (\<lambda>_. Codec) (map_sum id Some (decode_payload from_read payload)), rest')))"

definition read_frame :: "'a decoder \<Rightarrow> bytes list \<Rightarrow> (ipc_error + 'a option) \<times> bytes list" where
  "read_frame from_read = read_frame_with_limit from_read MAX_FRAME_BYTES"

definition write_frame ::
  "'a encoder \<Rightarrow> bytes \<Rightarrow> 'a \<Rightarrow> ipc_error + bytes" where
  "write_frame to_vec_named written frame =
     map_err (\<lambda>_. Codec) (map_sum id (\<lambda>encoded. written @ encoded) (encode_frame to_vec_named frame))"

section \<open>Byte order\<close>

lemma length_to_be_bytes [simp]: "length (to_be_bytes n) = 4"
  by (simp add: to_be_bytes_def)

lemma from_to_be_bytes [simp]: "from_be_bytes (to_be_bytes n) = n"
proof (rule bit_word_eqI)
  fix i
  assume "i < LENGTH(32)"
  then consider "i < 8" | "8 \<le> i" "i < 16" | "16 \<le> i" "i < 24" | "24 \<le> i" "i < 32" by force
  then show "bit (from_be_bytes (to_be_bytes n)) i \<longleftrightarrow> bit n i"
    by cases (auto simp: from_be_bytes_def to_be_bytes_def bit_simps)
qed

lemma to_from_be_bytes:
  assumes "length bs = 4"
  shows "to_be_bytes (from_be_bytes bs) = bs"
proof -
  from assms obtain a b c d where bs: "bs = [a, b, c, d]"
    by (auto simp: length_Suc_conv eval_nat_numeral)
  show ?thesis
    unfolding bs from_be_bytes_def to_be_bytes_def
    by (simp, intro conjI; rule bit_word_eqI) (auto simp: bit_simps dest: bit_imp_le_length)
qed

lemma of_nat_unat_u32: "of_nat (unat (n :: u32)) = n"
  by simp

lemma unat_length_u32: "n \<le> MAX_FRAME_BYTES \<Longrightarrow> unat (of_nat n :: u32) = n"
  by (simp add: MAX_FRAME_BYTES_def unsigned_of_nat take_bit_nat_eq_self)

section \<open>Reads do not depend on how the stream is cut\<close>

lemma read_full_spec:
  assumes "length acc \<le> n"
  shows "\<exists>rest. read_full n acc segs =
           (if n \<le> length acc + length (concat segs)
            then (Inr (acc @ take (n - length acc) (concat segs)), rest)
            else (Inl (acc @ concat segs), rest)) \<and>
         concat rest = drop (n - length acc) (concat segs)"
  using assms
proof (induction n acc segs rule: read_full.induct)
  case (1 n acc segs)
  show ?case
  proof (cases "length acc \<ge> n")
    case True
    with "1.prems" show ?thesis by (simp add: read_full.simps [of n acc segs])
  next
    case False
    obtain got rest where rs: "read_some (n - length acc) segs = (got, rest)" by fastforce
    then have split: "concat segs = got @ concat rest" and bound: "length got \<le> n - length acc"
      by (auto dest: read_some_concat read_some_bound)
    show ?thesis
    proof (cases "got = []")
      case True
      with rs False have "concat segs = []" by (metis read_some_Nil zero_less_diff not_le)
      with split have "concat rest = []" by simp
      with \<open>concat segs = []\<close> True rs False show ?thesis
        by (simp add: read_full.simps [of n acc segs] del: concat_eq_Nil_conv)
    next
      case got: False
      with bound False have "length (acc @ got) \<le> n" by simp
      from "1.IH" [OF False rs [symmetric] got this] obtain rest' where
        "read_full n (acc @ got) rest = (if n \<le> length (acc @ got) + length (concat rest)
            then (Inr ((acc @ got) @ take (n - length (acc @ got)) (concat rest)), rest')
            else (Inl ((acc @ got) @ concat rest), rest'))"
        "concat rest' = drop (n - length (acc @ got)) (concat rest)" by blast
      with split bound False got rs show ?thesis
        by (intro exI [of _ rest']) (simp add: read_full.simps [of n acc segs] add.assoc)
    qed
  qed
qed

lemma read_full_enough:
  assumes "concat segs = front @ back" and "length front = n"
  shows "\<exists>rest. read_full n [] segs = (Inr front, rest) \<and> concat rest = back"
  using read_full_spec [of "[]" n segs] assms by auto

lemma read_full_short:
  assumes "length (concat segs) < n"
  shows "\<exists>rest. read_full n [] segs = (Inl (concat segs), rest) \<and> concat rest = []"
  using read_full_spec [of "[]" n segs] assms by auto

lemma encode_frame_Inr:
  assumes "encode_frame to_vec v = Inr frame"
  obtains payload where "to_vec v = Inr payload" "length payload \<le> MAX_FRAME_BYTES"
    "frame = to_be_bytes (of_nat (length payload)) @ payload"
    "unat (of_nat (length payload) :: u32) = length payload"
  using assms by (auto simp: encode_frame_def unsigned_of_nat take_bit_nat_eq_self split: sum.splits if_splits)

lemma read_frame_of_encoded:
  assumes enc: "encode_frame to_vec v = Inr frame"
    and law: "\<And>p. to_vec v = Inr p \<Longrightarrow> from_read p = Inr v"
    and stream: "concat segs = frame @ back"
  shows "\<exists>rest. read_frame from_read segs = (Inr (Some v), rest) \<and> concat rest = back"
proof -
  obtain payload where p: "to_vec v = Inr payload" "length payload \<le> MAX_FRAME_BYTES"
    and frame: "frame = to_be_bytes (of_nat (length payload)) @ payload"
    and len: "unat (of_nat (length payload) :: u32) = length payload"
    using enc by (rule encode_frame_Inr)
  from stream frame obtain rest where
    r1: "read_full 4 [] segs = (Inr (to_be_bytes (of_nat (length payload))), rest)"
    and c1: "concat rest = payload @ back"
    using read_full_enough [of segs "to_be_bytes (of_nat (length payload))" "payload @ back" 4] by auto
  from read_full_enough [OF c1 refl] obtain rest' where
    r2: "read_full (length payload) [] rest = (Inr payload, rest')" and c2: "concat rest' = back" by auto
  from r1 r2 c2 len p law [OF p(1)] show ?thesis
    by (simp add: read_frame_def read_frame_with_limit_def decode_payload_def)
qed

section \<open>Reading a written conversation back\<close>

text \<open>A writer that sends the frames one after the other, and a reader that takes \<open>n\<close> frames.\<close>

fun write_all :: "'a encoder \<Rightarrow> bytes \<Rightarrow> 'a list \<Rightarrow> ipc_error + bytes" where
  "write_all to_vec_named written [] = Inr written"
| "write_all to_vec_named written (v # vs) =
     and_then (write_frame to_vec_named written v) (\<lambda>written'. write_all to_vec_named written' vs)"

fun read_many :: "'a decoder \<Rightarrow> nat \<Rightarrow> bytes list \<Rightarrow> (ipc_error + 'a option) list" where
  "read_many from_read 0 segs = []"
| "read_many from_read (Suc n) segs =
     (case read_frame from_read segs of (r, rest) \<Rightarrow> r # read_many from_read n rest)"

lemma write_frame_Inr:
  "write_frame to_vec written v = Inr out \<longleftrightarrow>
     (\<exists>frame. encode_frame to_vec v = Inr frame \<and> out = written @ frame)"
  by (cases "encode_frame to_vec v") (auto simp: write_frame_def)

lemma read_frame_end:
  assumes "concat segs = []"
  shows "\<exists>rest. read_frame from_read segs = (Inr None, rest)"
  using read_full_short [of segs 4] assms
  by (auto simp: read_frame_def read_frame_with_limit_def)

lemma read_many_of_written:
  assumes law: "\<And>v p. to_vec v = Inr p \<Longrightarrow> from_read p = Inr v"
  shows "write_all to_vec written vs = Inr out \<Longrightarrow>
         \<exists>tail. out = written @ tail \<and>
           (\<forall>segs. concat segs = tail \<longrightarrow>
              read_many from_read (Suc (length vs)) segs = map (\<lambda>v. Inr (Some v)) vs @ [Inr None])"
proof (induction vs arbitrary: written)
  case Nil
  have "read_many from_read (Suc (length [])) segs = [Inr None]" if "concat segs = []" for segs
    using read_frame_end [OF that, of from_read] by auto
  with Nil show ?case by auto
next
  case (Cons v vs)
  then obtain frame where enc: "encode_frame to_vec v = Inr frame"
    and rest: "write_all to_vec (written @ frame) vs = Inr out"
    by (auto simp: and_then_Inr_iff write_frame_Inr)
  from Cons.IH [OF rest] obtain tail where out: "out = (written @ frame) @ tail"
    and IH: "\<And>segs. concat segs = tail \<Longrightarrow>
               read_many from_read (Suc (length vs)) segs = map (\<lambda>v. Inr (Some v)) vs @ [Inr None]"
    by blast
  have "read_many from_read (Suc (length (v # vs))) segs = map (\<lambda>v. Inr (Some v)) (v # vs) @ [Inr None]"
    if "concat segs = frame @ tail" for segs
  proof -
    from read_frame_of_encoded [OF enc _ that, of from_read] law obtain rest where
      "read_frame from_read segs = (Inr (Some v), rest)" "concat rest = tail" by blast
    with IH show ?thesis by simp
  qed
  with out show ?case by auto
qed

section \<open>Properties\<close>

text \<open>
  C2: whatever frames a peer writes one after the other, the reader gets exactly these values
  in this order and then the end of the stream, however the socket cuts the bytes into reads,
  provided the MessagePack decoder inverts the encoder.
\<close>

theorem frames_read_back:
  assumes law: "\<forall>v p. to_vec v = Inr p \<longrightarrow> from_read p = Inr v"
    and sent: "write_all to_vec [] vs = Inr stream"
    and cut: "concat segs = stream"
  shows "read_many from_read (Suc (length vs)) segs = map (\<lambda>v. Inr (Some v)) vs @ [Inr None]"
  using read_many_of_written [of to_vec from_read "[]" vs stream] assms by auto

definition tag_encoder :: "u8 encoder" where "tag_encoder v = Inr [v, v]"
definition tag_decoder :: "u8 decoder" where
  "tag_decoder p = (case p of [a, b] \<Rightarrow> Inr a | _ \<Rightarrow> Inl ''bad payload'')"

theorem frames_read_back_witness:
  "write_all tag_encoder [] [7, 9] = Inr [0, 0, 0, 2, 7, 7, 0, 0, 0, 2, 9, 9] \<and>
   read_many tag_decoder 3 [[0, 0], [0, 2, 7], [7, 0, 0, 0, 2, 9], [9]] = [Inr (Some 7), Inr (Some 9), Inr None]"
proof -
  have law: "\<forall>v p. tag_encoder v = Inr p \<longrightarrow> tag_decoder p = Inr v"
    by (auto simp: tag_encoder_def tag_decoder_def)
  have sent: "write_all tag_encoder [] [7, 9] = Inr [0, 0, 0, 2, 7, 7, 0, 0, 0, 2, 9, 9]"
    by (simp add: write_frame_def encode_frame_def tag_encoder_def to_be_bytes_def MAX_FRAME_BYTES_def)
  have cut: "concat [[0, 0], [0, 2, 7], [7, 0, 0, 0, 2, 9], [9]] = [0, 0, 0, 2, 7, 7, 0, 0, 0, 2, 9, 9 :: u8]"
    by simp
  show ?thesis
    using sent frames_read_back [OF law sent cut] by (simp add: numeral_3_eq_3)
qed

text \<open>a frame is accepted by \<^verbatim>\<open>decode_frame\<close> exactly when it is the four-byte big-endian length
  of its payload followed by that payload, the payload is within the limit, and the decoder
  accepts it; no trailing byte, missing byte or oversized frame gets through.
\<close>

theorem decode_frame_accepts_iff:
  "decode_frame from_read frame = Inr v \<longleftrightarrow>
     (\<exists>payload. frame = to_be_bytes (of_nat (length payload)) @ payload \<and>
        length payload \<le> MAX_FRAME_BYTES \<and> from_read payload = Inr v)"
proof
  assume ok: "decode_frame from_read frame = Inr v"
  define n where "n = from_be_bytes (take 4 frame)"
  from ok have len: "4 \<le> length frame" "unat n \<le> MAX_FRAME_BYTES" "length frame = unat n + 4"
    and dec: "from_read (drop 4 frame) = Inr v"
    by (auto simp: decode_frame_def decode_payload_def n_def Let_def split: if_splits)
  have "take 4 frame = to_be_bytes n"
    unfolding n_def using len(1) by (simp add: to_from_be_bytes)
  then have "frame = to_be_bytes (of_nat (length (drop 4 frame))) @ drop 4 frame"
    using len by (metis append_take_drop_id length_drop diff_add_inverse2 of_nat_unat_u32)
  then show "\<exists>payload. frame = to_be_bytes (of_nat (length payload)) @ payload \<and>
        length payload \<le> MAX_FRAME_BYTES \<and> from_read payload = Inr v"
    using dec len by (intro exI [of _ "drop 4 frame"]) simp
next
  assume "\<exists>payload. frame = to_be_bytes (of_nat (length payload)) @ payload \<and>
        length payload \<le> MAX_FRAME_BYTES \<and> from_read payload = Inr v"
  then show "decode_frame from_read frame = Inr v"
    by (auto simp: decode_frame_def decode_payload_def unat_length_u32)
qed

end
