(* ===== verification/Line_Framing.thy ===== *)
theory Line_Framing
  imports Maestro_Prelude
begin

text \<open>
  Newline framing, as a contract. \<open>split_lines\<close> is the reference: the complete lines of a byte
  stream and the unfinished rest. The locale \<open>line_decoder\<close> states what an incremental decoder
  promises (a clean push consumes exactly the lines the reference finds, an error is final, the
  end of the stream is accepted only at a line boundary); its lemmas lift this to a run over any
  sequence of chunks. Both decoders of the program, the adapter's and the supervisor's, are
  instances.
\<close>

definition newline :: u8 where "newline = 10"
definition carriage_return :: u8 where "carriage_return = 13"

fun split_lines :: "bytes \<Rightarrow> bytes \<Rightarrow> bytes list \<times> bytes" where
  "split_lines acc [] = ([], acc)"
| "split_lines acc (b # bs) =
     (if b = newline then (case split_lines [] bs of (ls, tail) \<Rightarrow> (acc # ls, tail))
      else split_lines (acc @ [b]) bs)"

definition strip_carriage_return :: "bytes \<Rightarrow> bytes" where
  "strip_carriage_return line =
     (if line \<noteq> [] \<and> last line = carriage_return then butlast line else line)"

text \<open>What a decoder with frame limit \<open>n\<close> and line parser \<open>p\<close> makes of complete lines.\<close>

definition lines_decode :: "nat \<Rightarrow> (bytes \<Rightarrow> 'v option) \<Rightarrow> bytes list \<Rightarrow> 'v list \<Rightarrow> bool" where
  "lines_decode n p ls vs \<longleftrightarrow> (\<forall>l \<in> set ls. length l \<le> n) \<and> map p ls = map Some vs"

lemma lines_decode_Nil [simp]: "lines_decode n p [] vs \<longleftrightarrow> vs = []"
  by (auto simp: lines_decode_def)

lemma lines_decode_Cons:
  "lines_decode n p (l # ls) vs \<longleftrightarrow>
     (\<exists>v vs'. vs = v # vs' \<and> length l \<le> n \<and> p l = Some v \<and> lines_decode n p ls vs')"
  by (cases vs) (auto simp: lines_decode_def)

lemma lines_decode_append:
  "lines_decode n p (ls @ ms) vs \<longleftrightarrow>
     (\<exists>vs1 vs2. vs = vs1 @ vs2 \<and> lines_decode n p ls vs1 \<and> lines_decode n p ms vs2)"
  unfolding lines_decode_def by (auto simp: append_eq_map_conv)

lemma lines_decode_appendI:
  "lines_decode n p ls vs \<Longrightarrow> lines_decode n p ms ws \<Longrightarrow> lines_decode n p (ls @ ms) (vs @ ws)"
  by (auto simp: lines_decode_append)

lemma lines_decode_length: "lines_decode n p ls vs \<Longrightarrow> length vs = length ls"
  unfolding lines_decode_def by (metis length_map)

lemma split_lines_append:
  "split_lines acc (xs @ ys) =
     (case split_lines acc xs of
        (ls, tail) \<Rightarrow> case split_lines tail ys of (ms, tail') \<Rightarrow> (ls @ ms, tail'))"
  by (induction acc xs rule: split_lines.induct) (auto split: prod.splits)

lemma split_lines_no_newline:
  "newline \<notin> set xs \<Longrightarrow> split_lines acc xs = ([], acc @ xs)"
  by (induction acc xs rule: split_lines.induct) auto

lemma split_lines_line:
  "newline \<notin> set xs \<Longrightarrow>
   split_lines acc (xs @ newline # ys) =
     (case split_lines [] ys of (ls, tail) \<Rightarrow> ((acc @ xs) # ls, tail))"
  by (simp add: split_lines_append split_lines_no_newline split: prod.splits)

lemma split_lines_join:
  assumes "\<forall>l \<in> set ls. newline \<notin> set l"
  shows "split_lines [] (concat (map (\<lambda>l. l @ [newline]) ls)) = (ls, [])"
  using assms by (induction ls) (simp_all add: split_lines_line)

lemma split_lines_tail_no_newline:
  "split_lines acc xs = (ls, tail) \<Longrightarrow> newline \<notin> set acc \<Longrightarrow> newline \<notin> set tail"
  by (induction acc xs arbitrary: ls tail rule: split_lines.induct) (auto split: prod.splits if_splits)

text \<open>A run over chunks: the frames so far and the first error, after which nothing is read.\<close>

fun run_chunks ::
  "('d \<Rightarrow> bytes \<Rightarrow> 'd \<times> 'v list \<times> 'e option) \<Rightarrow> 'd \<Rightarrow> bytes list \<Rightarrow> 'd \<times> 'v list \<times> 'e option" where
  "run_chunks push d [] = (d, [], None)"
| "run_chunks push d (chunk # chunks) =
     (case push d chunk of
        (d', vs, Some e) \<Rightarrow> (d', vs, Some e)
      | (d', vs, None) \<Rightarrow> (case run_chunks push d' chunks of (d'', ws, r) \<Rightarrow> (d'', vs @ ws, r)))"

text \<open>Every chunk of the run stays within the per-push bounds, given the unfinished line \<open>acc\<close>.\<close>

fun admissible_chunks :: "(bytes \<Rightarrow> bytes list \<Rightarrow> bool) \<Rightarrow> bytes \<Rightarrow> bytes list \<Rightarrow> bool" where
  "admissible_chunks adm acc [] \<longleftrightarrow> True"
| "admissible_chunks adm acc (chunk # chunks) \<longleftrightarrow>
     adm chunk (fst (split_lines acc chunk)) \<and> admissible_chunks adm (snd (split_lines acc chunk)) chunks"

lemma split_lines_acc_bound:
  "split_lines acc xs = (ls, tail) \<Longrightarrow> \<forall>l \<in> set ls. length l \<le> n \<Longrightarrow> length tail \<le> n \<Longrightarrow> length acc \<le> n"
  by (induction acc xs arbitrary: ls tail rule: split_lines.induct) (fastforce split: if_splits prod.splits)+

lemma run_chunks_ConsE:
  assumes "run_chunks push d (chunk # chunks) = (d', vs, r)"
  obtains (error) e where "push d chunk = (d', vs, Some e)" "r = Some e"
    | (clean) d1 vs1 vs2 where "push d chunk = (d1, vs1, None)"
        "run_chunks push d1 chunks = (d', vs2, r)" "vs = vs1 @ vs2"
proof (cases "push d chunk")
  case (fields d1 vs1 r1)
  show thesis
  proof (cases r1)
    case None
    with fields assms clean [of d1 vs1] show thesis
      by (cases "run_chunks push d1 chunks") auto
  next
    case (Some e)
    with fields assms error show thesis by auto
  qed
qed

section \<open>The contract\<close>

locale line_decoder =
  fixes inv :: "'d \<Rightarrow> bool"
    and buffer :: "'d \<Rightarrow> bytes"
    and failed :: "'d \<Rightarrow> bool"
    and limit :: "'d \<Rightarrow> nat"
    and admissible :: "'d \<Rightarrow> bytes \<Rightarrow> bytes list \<Rightarrow> bool"
    and parse_line :: "bytes \<Rightarrow> 'v option"
    and push :: "'d \<Rightarrow> bytes \<Rightarrow> 'd \<times> 'v list \<times> 'e option"
    and finish_ok :: "'d \<Rightarrow> bool"
  assumes push_clean:
    "inv d \<Longrightarrow> \<not> failed d \<Longrightarrow> split_lines (buffer d) chunk = (ls, tail) \<Longrightarrow> admissible d chunk ls \<Longrightarrow>
     lines_decode (limit d) parse_line ls vs \<Longrightarrow> length tail \<le> limit d \<Longrightarrow>
     \<exists>d'. push d chunk = (d', vs, None)"
    and push_clean_only:
    "inv d \<Longrightarrow> push d chunk = (d', vs, None) \<Longrightarrow>
     inv d' \<and> \<not> failed d \<and> \<not> failed d' \<and> limit d' = limit d \<and> admissible d' = admissible d \<and>
     (\<exists>ls. split_lines (buffer d) chunk = (ls, buffer d') \<and> lines_decode (limit d) parse_line ls vs)"
    and push_error: "inv d \<Longrightarrow> push d chunk = (d', vs, Some e) \<Longrightarrow> inv d' \<and> failed d'"
    and push_failed: "failed d \<Longrightarrow> \<exists>e. push d chunk = (d, [], Some e)"
    and finish_ok_iff: "finish_ok d \<longleftrightarrow> \<not> failed d \<and> buffer d = []"
begin

lemma run_clean:
  assumes "inv d" "\<not> failed d" "split_lines (buffer d) (concat chunks) = (ls, tail)"
    and "lines_decode (limit d) parse_line ls vs" "length tail \<le> limit d"
    and "admissible_chunks (admissible d) (buffer d) chunks"
  shows "\<exists>d'. run_chunks push d chunks = (d', vs, None) \<and> buffer d' = tail \<and> \<not> failed d'"
  using assms
proof (induction chunks arbitrary: d ls vs)
  case Nil
  then show ?case by auto
next
  case (Cons chunk chunks)
  obtain ls1 mid where s1: "split_lines (buffer d) chunk = (ls1, mid)" by fastforce
  obtain ls2 tail2 where s2: "split_lines mid (concat chunks) = (ls2, tail2)" by fastforce
  from Cons.prems(3) s1 s2 have ls: "ls = ls1 @ ls2" and tl: "tail2 = tail"
    by (simp_all add: split_lines_append)
  from Cons.prems(4) ls obtain vs1 vs2 where vs: "vs = vs1 @ vs2"
    and d1: "lines_decode (limit d) parse_line ls1 vs1" and d2: "lines_decode (limit d) parse_line ls2 vs2"
    by (auto simp: lines_decode_append)
  from Cons.prems(6) s1 have adm: "admissible d chunk ls1" "admissible_chunks (admissible d) mid chunks"
    by simp_all
  have mid: "length mid \<le> limit d"
    using split_lines_acc_bound [OF s2] d2 tl Cons.prems(5) by (simp add: lines_decode_def)
  from push_clean [OF Cons.prems(1,2) s1 adm(1) d1 mid] obtain d' where
    p: "push d chunk = (d', vs1, None)" by blast
  from push_clean_only [OF Cons.prems(1) p] s1 have d': "inv d'" "buffer d' = mid" "\<not> failed d'"
    and same: "limit d' = limit d" "admissible d' = admissible d" by auto
  have "\<exists>d''. run_chunks push d' chunks = (d'', vs2, None) \<and> buffer d'' = tail \<and> \<not> failed d''"
    using Cons.IH [of d' ls2 vs2] d' s2 tl d2 adm(2) same Cons.prems(5) by simp
  with p vs show ?case by auto
qed

lemma run_clean_only:
  "run_chunks push d chunks = (d', vs, None) \<Longrightarrow> inv d \<Longrightarrow> \<not> failed d \<Longrightarrow>
   inv d' \<and> \<not> failed d' \<and> (\<exists>ls. split_lines (buffer d) (concat chunks) = (ls, buffer d') \<and>
     lines_decode (limit d) parse_line ls vs)"
proof (induction chunks arbitrary: d vs)
  case Nil
  then show ?case by simp
next
  case (Cons chunk chunks)
  from Cons.prems(1) obtain d1 vs1 vs2 where p: "push d chunk = (d1, vs1, None)"
    and r: "run_chunks push d1 chunks = (d', vs2, None)" and vs: "vs = vs1 @ vs2"
    by (rule run_chunks_ConsE) auto
  from push_clean_only [OF Cons.prems(2) p] obtain ls1 where 1: "inv d1" "\<not> failed d1" "limit d1 = limit d"
    "split_lines (buffer d) chunk = (ls1, buffer d1)" "lines_decode (limit d) parse_line ls1 vs1"
    by blast
  from Cons.IH [OF r 1(1,2)] 1 vs show ?case
    by (auto simp: split_lines_append intro: lines_decode_appendI)
qed

lemma run_failed:
  assumes "failed d"
  shows "\<exists>e. run_chunks push d (chunk # chunks) = (d, [], Some e)"
  using push_failed [OF assms, of chunk] by auto

lemma run_error_final:
  "run_chunks push d chunks = (d', vs, Some e) \<Longrightarrow> inv d \<Longrightarrow> failed d' \<and> \<not> finish_ok d'"
proof (induction chunks arbitrary: d vs)
  case (Cons chunk chunks)
  from Cons.prems(1) show ?case
    by (rule run_chunks_ConsE)
      (use Cons.IH Cons.prems(2) in \<open>auto simp: finish_ok_iff dest: push_error push_clean_only\<close>)
qed simp

text \<open>
  The stream as a whole. A fresh decoder that accepts every chunk and the end of the stream was
  given exactly framed lines with the values it returned; and it accepts every such stream that
  is delivered within the per-push bounds, however it is cut.
\<close>

lemma stream_sound:
  assumes "run_chunks push d chunks = (d', vs, None)" "inv d" "\<not> failed d" "buffer d = []" "finish_ok d'"
  shows "\<exists>ls. split_lines [] (concat chunks) = (ls, []) \<and> lines_decode (limit d) parse_line ls vs"
  using run_clean_only [OF assms(1,2,3)] assms(4,5) by (simp add: finish_ok_iff)

lemma stream_complete:
  assumes "inv d" "\<not> failed d" "buffer d = []" "concat chunks = concat (map (\<lambda>l. l @ [newline]) ls)"
    and "\<forall>l \<in> set ls. newline \<notin> set l" "lines_decode (limit d) parse_line ls vs"
    and "admissible_chunks (admissible d) [] chunks"
  shows "\<exists>d'. run_chunks push d chunks = (d', vs, None) \<and> finish_ok d'"
  using run_clean [of d chunks ls "[]" vs] assms split_lines_join [of ls]
  by (auto simp: finish_ok_iff)

end

end
