(* ===== verification/Jsonl.thy ===== *)
theory Jsonl
  imports Line_Framing
begin

text \<open>
  The bounded JSONL decoder and encoder of \<^verbatim>\<open>crates/maestro-adapter/src/jsonl.rs\<close>. The JSON
  parser and printer (\<^verbatim>\<open>serde_json\<close>) are parameters: \<open>from_slice\<close> gives a value or the error's
  text, \<open>to_vec\<close> the serialized bytes or an error text. Zeroizing a buffer before it is cleared
  has no effect on its contents as a value and is part of \<open>clear_buffer\<close>.
\<close>

definition MAXIMUM_JSONL_FRAME_BYTES :: nat where "MAXIMUM_JSONL_FRAME_BYTES = 1024 * 1024"
definition MAXIMUM_JSONL_FRAMES_PER_PUSH :: nat where "MAXIMUM_JSONL_FRAMES_PER_PUSH = 1024"
definition MAXIMUM_JSONL_BATCH_BYTES :: nat where
  "MAXIMUM_JSONL_BATCH_BYTES = (MAXIMUM_JSONL_FRAME_BYTES + 1) * 4"

datatype json_line_error =
    InvalidFrameLimit nat nat
  | LineFrameTooLarge nat
  | BatchTooLarge nat
  | TooManyFrames nat
  | InvalidJson string
  | IncompleteLine
  | Poisoned

record bounded_decoder =
  maximum_frame_bytes :: nat
  maximum_batch_bytes :: nat
  maximum_frames_per_push :: nat
  dec_buffer :: bytes
  dec_poisoned :: bool

type_synonym 'v json_parser = "bytes \<Rightarrow> string + 'v"
type_synonym 'v json_printer = "'v \<Rightarrow> string + bytes"
type_synonym 'v decoded = "'v list \<times> json_line_error option"

definition clean :: "'v list \<Rightarrow> 'v decoded" where "clean frames = (frames, None)"
definition failed_with :: "'v list \<Rightarrow> json_line_error \<Rightarrow> 'v decoded" where
  "failed_with frames e = (frames, Some e)"

definition validate_frame_limit :: "nat \<Rightarrow> json_line_error + unit" where
  "validate_frame_limit n =
     (if n = 0 \<or> n > MAXIMUM_JSONL_FRAME_BYTES
      then Inl (InvalidFrameLimit n MAXIMUM_JSONL_FRAME_BYTES) else Inr ())"

text \<open>
  \<^verbatim>\<open>BoundedJsonLineDecoder::new\<close>. The limit is validated first, so the saturating operations on
  \<^verbatim>\<open>usize\<close> never saturate.
\<close>

definition decoder_new :: "nat \<Rightarrow> json_line_error + bounded_decoder" where
  "decoder_new n =
     and_then (validate_frame_limit n) (\<lambda>_.
       Inr \<lparr>maximum_frame_bytes = n,
            maximum_batch_bytes = min ((n + 1) * 4) MAXIMUM_JSONL_BATCH_BYTES,
            maximum_frames_per_push = MAXIMUM_JSONL_FRAMES_PER_PUSH,
            dec_buffer = [], dec_poisoned = False\<rparr>)"

definition clear_buffer :: "bounded_decoder \<Rightarrow> bounded_decoder" where
  "clear_buffer d = d\<lparr>dec_buffer := []\<rparr>"

definition poison :: "bounded_decoder \<Rightarrow> bounded_decoder" where
  "poison d = clear_buffer (d\<lparr>dec_poisoned := True\<rparr>)"

definition extend_checked :: "bounded_decoder \<Rightarrow> bytes \<Rightarrow> bounded_decoder \<times> json_line_error option" where
  "extend_checked d bs =
     (if length bs > maximum_frame_bytes d - length (dec_buffer d)
      then (poison d, Some (LineFrameTooLarge (maximum_frame_bytes d)))
      else (d\<lparr>dec_buffer := dec_buffer d @ bs\<rparr>, None))"

text \<open>
  The loop of \<^verbatim>\<open>push\<close> over the newlines of the remaining bytes. It returns the decoder, the
  frames, an error if one ended the loop, and otherwise the bytes after the last newline.
\<close>

function push_loop ::
  "'v json_parser \<Rightarrow> bounded_decoder \<Rightarrow> 'v list \<Rightarrow> bytes \<Rightarrow>
   bounded_decoder \<times> 'v list \<times> (json_line_error + bytes)" where
  "push_loop from_slice d frames remaining =
     (case dropWhile (\<lambda>b. b \<noteq> newline) remaining of
        [] \<Rightarrow> (d, frames, Inr remaining)
      | _ # after \<Rightarrow>
          if length frames \<ge> maximum_frames_per_push d
          then (poison d, frames, Inl (TooManyFrames (maximum_frames_per_push d)))
          else (case extend_checked d (takeWhile (\<lambda>b. b \<noteq> newline) remaining) of
                  (d', Some e) \<Rightarrow> (d', frames, Inl e)
                | (d', None) \<Rightarrow>
                    (case from_slice (strip_carriage_return (dec_buffer d')) of
                       Inl text \<Rightarrow> (poison d', frames, Inl (InvalidJson text))
                     | Inr frame \<Rightarrow> push_loop from_slice (clear_buffer d') (frames @ [frame]) after)))"
  by pat_completeness auto
termination
proof (relation "measure (\<lambda>(_, _, _, remaining). length remaining)", goal_cases)
  case (2 from_slice d frames remaining b after d' r v)
  then have "length (b # after) \<le> length remaining"
    by (metis length_dropWhile_le)
  then show ?case by simp
qed simp

declare push_loop.simps [simp del]

definition decoder_push ::
  "'v json_parser \<Rightarrow> bounded_decoder \<Rightarrow> bytes \<Rightarrow> bounded_decoder \<times> 'v decoded" where
  "decoder_push from_slice d chunk =
     (if dec_poisoned d then (d, failed_with [] Poisoned)
      else
        (case push_loop from_slice d [] (take (maximum_batch_bytes d) chunk) of
           (d', frames, Inl e) \<Rightarrow> (d', failed_with frames e)
         | (d', frames, Inr remaining) \<Rightarrow>
             if length chunk > maximum_batch_bytes d
             then (poison d', failed_with frames (BatchTooLarge (maximum_batch_bytes d')))
             else (case extend_checked d' remaining of
                     (d'', Some e) \<Rightarrow> (d'', failed_with frames e)
                   | (d'', None) \<Rightarrow> (d'', clean frames))))"

definition decoder_finish :: "bounded_decoder \<Rightarrow> bounded_decoder \<times> (json_line_error + unit)" where
  "decoder_finish d =
     (if dec_poisoned d then (d, Inl Poisoned)
      else if dec_buffer d = [] then (d, Inr ())
      else (poison d, Inl IncompleteLine))"

definition encode_json_line :: "'v json_printer \<Rightarrow> 'v \<Rightarrow> nat \<Rightarrow> json_line_error + bytes" where
  "encode_json_line to_vec value n =
     and_then (validate_frame_limit n) (\<lambda>_.
       and_then (map_err InvalidJson (to_vec value)) (\<lambda>bs.
         if length bs > n then Inl (LineFrameTooLarge n) else Inr (bs @ [newline])))"

section \<open>Basic facts\<close>

lemma poison_simps [simp]:
  "dec_buffer (poison d) = []" "dec_poisoned (poison d)"
  "maximum_frame_bytes (poison d) = maximum_frame_bytes d"
  "maximum_batch_bytes (poison d) = maximum_batch_bytes d"
  "maximum_frames_per_push (poison d) = maximum_frames_per_push d"
  by (simp_all add: poison_def clear_buffer_def)

lemma clear_buffer_simps [simp]:
  "dec_buffer (clear_buffer d) = []" "dec_poisoned (clear_buffer d) = dec_poisoned d"
  "maximum_frame_bytes (clear_buffer d) = maximum_frame_bytes d"
  "maximum_batch_bytes (clear_buffer d) = maximum_batch_bytes d"
  "maximum_frames_per_push (clear_buffer d) = maximum_frames_per_push d"
  by (simp_all add: clear_buffer_def)

text \<open>The limits are fixed at construction; a decoder is well formed when it respects them.\<close>

definition decoder_inv :: "bounded_decoder \<Rightarrow> bool" where
  "decoder_inv d \<longleftrightarrow>
     1 \<le> maximum_frame_bytes d \<and> maximum_frame_bytes d \<le> MAXIMUM_JSONL_FRAME_BYTES \<and>
     maximum_batch_bytes d = (maximum_frame_bytes d + 1) * 4 \<and>
     maximum_frames_per_push d = MAXIMUM_JSONL_FRAMES_PER_PUSH \<and>
     length (dec_buffer d) \<le> maximum_frame_bytes d \<and> newline \<notin> set (dec_buffer d) \<and>
     (dec_poisoned d \<longrightarrow> dec_buffer d = [])"

lemma decoder_new_inv: "decoder_new n = Inr d \<Longrightarrow> decoder_inv d \<and> \<not> dec_poisoned d \<and> dec_buffer d = []"
  by (auto simp: decoder_new_def validate_frame_limit_def decoder_inv_def MAXIMUM_JSONL_BATCH_BYTES_def
      split: if_splits)

lemma extend_checked_cases:
  assumes "extend_checked d bs = (d', r)"
  obtains (big) "maximum_frame_bytes d - length (dec_buffer d) < length bs" "d' = poison d"
      "r = Some (LineFrameTooLarge (maximum_frame_bytes d))"
    | (fits) "length bs \<le> maximum_frame_bytes d - length (dec_buffer d)"
      "d' = d\<lparr>dec_buffer := dec_buffer d @ bs\<rparr>" "r = None"
  using assms by (auto simp: extend_checked_def split: if_splits)

lemma dropWhile_newline:
  assumes "dropWhile (\<lambda>b. b \<noteq> newline) xs = b # after"
  shows "xs = takeWhile (\<lambda>b. b \<noteq> newline) xs @ newline # after"
    and "newline \<notin> set (takeWhile (\<lambda>b. b \<noteq> newline) xs)"
proof -
  have "b = newline" using assms by (simp add: dropWhile_eq_Cons_conv)
  then show "xs = takeWhile (\<lambda>b. b \<noteq> newline) xs @ newline # after"
    using assms takeWhile_dropWhile_id [of "\<lambda>b. b \<noteq> newline" xs] by simp
  show "newline \<notin> set (takeWhile (\<lambda>b. b \<noteq> newline) xs)"
    by (auto dest: set_takeWhileD)
qed

definition line_value :: "'v json_parser \<Rightarrow> bytes \<Rightarrow> 'v option" where
  "line_value from_slice line =
     (case from_slice (strip_carriage_return line) of Inl _ \<Rightarrow> None | Inr v \<Rightarrow> Some v)"

lemma decoder_inv_buffer:
  "decoder_inv d \<Longrightarrow> \<not> dec_poisoned d \<Longrightarrow> length bs \<le> maximum_frame_bytes d \<Longrightarrow> newline \<notin> set bs \<Longrightarrow>
   decoder_inv (d\<lparr>dec_buffer := bs\<rparr>)"
  by (simp add: decoder_inv_def)

lemma decoder_inv_poison: "decoder_inv d \<Longrightarrow> decoder_inv (poison d)"
  by (simp add: decoder_inv_def)

lemma decoder_inv_clear: "decoder_inv d \<Longrightarrow> decoder_inv (clear_buffer d)"
  by (simp add: decoder_inv_def)

section \<open>The push loop against the reference\<close>

text \<open>
  One step of the loop, by the shape of the remaining bytes: no newline ends it; otherwise the
  first line is \<open>dec_buffer d @ seg\<close>.
\<close>

lemma push_loop_end:
  "newline \<notin> set rem \<Longrightarrow> push_loop fs d frames rem = (d, frames, Inr rem)"
proof -
  assume "newline \<notin> set rem"
  then have "dropWhile (\<lambda>b. b \<noteq> newline) rem = []" by (auto simp: dropWhile_eq_Nil_conv)
  then show ?thesis by (subst push_loop.simps) (simp del: dropWhile_eq_Nil_conv)
qed

lemma push_loop_line:
  assumes "newline \<notin> set seg"
  shows "push_loop fs d frames (seg @ newline # after) =
     (if length frames \<ge> maximum_frames_per_push d
      then (poison d, frames, Inl (TooManyFrames (maximum_frames_per_push d)))
      else if maximum_frame_bytes d - length (dec_buffer d) < length seg
      then (poison d, frames, Inl (LineFrameTooLarge (maximum_frame_bytes d)))
      else (case fs (strip_carriage_return (dec_buffer d @ seg)) of
              Inl text \<Rightarrow> (poison d, frames, Inl (InvalidJson text))
            | Inr v \<Rightarrow> push_loop fs (clear_buffer d) (frames @ [v]) after))"
proof -
  have "dropWhile (\<lambda>b. b \<noteq> newline) (seg @ newline # after) = newline # after"
    "takeWhile (\<lambda>b. b \<noteq> newline) (seg @ newline # after) = seg"
    using assms by (subst dropWhile_append2 takeWhile_append2; fastforce)+
  then show ?thesis
    by (subst push_loop.simps) (simp add: extend_checked_def poison_def clear_buffer_def split: sum.splits)
qed

lemma bytes_cases:
  obtains (tail) "newline \<notin> set (rem :: bytes)"
    | (line) seg after where "rem = seg @ newline # after" "newline \<notin> set seg"
  by (metis split_list_first)

lemma push_loop_sound:
  assumes "decoder_inv d" "\<not> dec_poisoned d" "push_loop fs d frames rem = (d', frames', Inr tail)"
  shows "\<exists>ls vs. frames' = frames @ vs \<and> split_lines (dec_buffer d) rem = (ls, dec_buffer d' @ tail) \<and>
           lines_decode (maximum_frame_bytes d) (line_value fs) ls vs \<and>
           d' = d\<lparr>dec_buffer := dec_buffer d'\<rparr> \<and> decoder_inv d' \<and> newline \<notin> set tail \<and>
           (length frames \<le> maximum_frames_per_push d \<longrightarrow> length frames' \<le> maximum_frames_per_push d)"
  using assms
proof (induction "length rem" arbitrary: d frames rem rule: less_induct)
  case less
  show ?case
  proof (cases rem rule: bytes_cases)
    case tail
    with less.prems show ?thesis
      by (auto simp: push_loop_end split_lines_no_newline)
  next
    case (line seg after)
    with less.prems(3) obtain v where
      room: "length frames < maximum_frames_per_push d" "length seg \<le> maximum_frame_bytes d - length (dec_buffer d)"
      and v: "fs (strip_carriage_return (dec_buffer d @ seg)) = Inr v"
      and rec: "push_loop fs (clear_buffer d) (frames @ [v]) after = (d', frames', Inr tail)"
      by (auto simp: push_loop_line split: if_splits sum.splits)
    from room(2) less.prems(1) have len: "length (dec_buffer d @ seg) \<le> maximum_frame_bytes d"
      by (auto simp: decoder_inv_def)
    from less.hyps [OF _ _ _ rec] less.prems line obtain ls vs where
      IH: "frames' = (frames @ [v]) @ vs" "split_lines [] after = (ls, dec_buffer d' @ tail)"
        "lines_decode (maximum_frame_bytes d) (line_value fs) ls vs"
        "d' = (clear_buffer d)\<lparr>dec_buffer := dec_buffer d'\<rparr>" "decoder_inv d'" "newline \<notin> set tail"
        "length (frames @ [v]) \<le> maximum_frames_per_push d \<longrightarrow> length frames' \<le> maximum_frames_per_push d"
      by (auto simp: decoder_inv_clear)
    have "d' = d\<lparr>dec_buffer := dec_buffer d'\<rparr>" using IH(4) by (simp add: clear_buffer_def)
    moreover have "split_lines (dec_buffer d) rem = ((dec_buffer d @ seg) # ls, dec_buffer d' @ tail)"
      using line IH(2) by (simp add: split_lines_line)
    moreover have "lines_decode (maximum_frame_bytes d) (line_value fs) ((dec_buffer d @ seg) # ls) (v # vs)"
      using IH(3) len v by (simp add: lines_decode_Cons line_value_def)
    ultimately show ?thesis using IH room by auto
  qed
qed

lemma push_loop_complete:
  assumes "decoder_inv d" "split_lines (dec_buffer d) rem = (ls, tail)"
    and "lines_decode (maximum_frame_bytes d) (line_value fs) ls vs"
    and "length frames + length ls \<le> maximum_frames_per_push d"
  shows "\<exists>d' tail'. push_loop fs d frames rem = (d', frames @ vs, Inr tail')"
  using assms
proof (induction "length rem" arbitrary: d frames rem ls vs rule: less_induct)
  case less
  show ?case
  proof (cases rem rule: bytes_cases)
    case tail
    with less.prems show ?thesis by (auto simp: push_loop_end split_lines_no_newline)
  next
    case (line seg after)
    obtain ls' where ls: "ls = (dec_buffer d @ seg) # ls'" and s': "split_lines [] after = (ls', tail)"
      using less.prems(2) line by (auto simp: split_lines_line split: prod.splits)
    from less.prems(3) obtain v vs' where vs: "vs = v # vs'"
      and len: "length (dec_buffer d @ seg) \<le> maximum_frame_bytes d"
      and v: "fs (strip_carriage_return (dec_buffer d @ seg)) = Inr v"
      and rest: "lines_decode (maximum_frame_bytes d) (line_value fs) ls' vs'"
      unfolding ls by (auto simp: lines_decode_Cons line_value_def split: sum.splits)
    have "\<exists>d' tail'. push_loop fs (clear_buffer d) (frames @ [v]) after = (d', (frames @ [v]) @ vs', Inr tail')"
      by (rule less.hyps [OF _ decoder_inv_clear [OF less.prems(1)]])
        (use line s' rest less.prems(4) ls in auto)
    with line v len vs ls less.prems(4) show ?thesis
      by (auto simp: push_loop_line)
  qed
qed

lemma push_loop_error:
  assumes "decoder_inv d" "\<not> dec_poisoned d" "push_loop fs d frames rem = (d', frames', Inl e)"
  shows "dec_poisoned d' \<and> decoder_inv d' \<and>
         (length frames \<le> maximum_frames_per_push d \<longrightarrow> length frames' \<le> maximum_frames_per_push d)"
  using assms
proof (induction "length rem" arbitrary: d frames rem rule: less_induct)
  case less
  show ?case
  proof (cases rem rule: bytes_cases)
    case tail
    with less.prems show ?thesis by (simp add: push_loop_end)
  next
    case (line seg after)
    from less.prems(3) line consider
        (rec) v where "push_loop fs (clear_buffer d) (frames @ [v]) after = (d', frames', Inl e)"
          "length frames < maximum_frames_per_push d"
      | (here) "d' = poison d" "frames' = frames"
      by (auto simp: push_loop_line split: if_splits sum.splits)
    then show ?thesis
    proof cases
      case (rec v)
      with less.hyps [OF _ decoder_inv_clear [OF less.prems(1)] _ rec(1)] less.prems(2) line
      show ?thesis by auto
    next
      case here
      with less.prems show ?thesis by (auto simp: decoder_inv_poison)
    qed
  qed
qed

section \<open>The decoder implements the framing contract\<close>

lemma push_poisoned: "dec_poisoned d \<Longrightarrow> decoder_push fs d chunk = (d, [], Some Poisoned)"
  by (simp add: decoder_push_def failed_with_def)

lemma push_error_poisons:
  assumes "decoder_inv d" "decoder_push fs d chunk = (d', vs, Some e)"
  shows "dec_poisoned d' \<and> decoder_inv d' \<and> length vs \<le> MAXIMUM_JSONL_FRAMES_PER_PUSH"
proof (cases "dec_poisoned d")
  case True
  with assms show ?thesis by (auto simp: push_poisoned)
next
  case open_d: False
  obtain d1 frames r where l: "push_loop fs d [] (take (maximum_batch_bytes d) chunk) = (d1, frames, r)"
    by (metis prod_cases3)
  have max: "maximum_frames_per_push d = MAXIMUM_JSONL_FRAMES_PER_PUSH"
    using assms(1) by (simp add: decoder_inv_def)
  show ?thesis
  proof (cases r)
    case (Inl e')
    with push_loop_error [OF assms(1) open_d, of fs "[]" _ d1 frames e'] l max open_d assms(2)
    show ?thesis by (auto simp: decoder_push_def failed_with_def)
  next
    case (Inr tail)
    with push_loop_sound [OF assms(1) open_d, of fs "[]" _ d1 frames tail] l max have "decoder_inv d1" "length frames \<le> MAXIMUM_JSONL_FRAMES_PER_PUSH"
      by auto
    with assms(2) l Inr open_d show ?thesis
      by (auto simp: decoder_push_def failed_with_def clean_def decoder_inv_poison
          split: if_splits prod.splits elim!: extend_checked_cases)
  qed
qed

lemma push_loop_keeps_limit:
  "push_loop fs d frames rem = (d', frames', r) \<Longrightarrow> maximum_frame_bytes d' = maximum_frame_bytes d"
proof (induction "length rem" arbitrary: d frames rem rule: less_induct)
  case less
  show ?case
  proof (cases rem rule: bytes_cases)
    case tail
    with less.prems show ?thesis by (simp add: push_loop_end)
  next
    case (line seg after)
    with less.prems less.hyps [of after "clear_buffer d"] show ?thesis
      by (auto simp: push_loop_line split: if_splits sum.splits)
  qed
qed

lemma push_keeps_limit:
  "decoder_push fs d chunk = (d', vs, r) \<Longrightarrow> maximum_frame_bytes d' = maximum_frame_bytes d"
  by (auto simp: decoder_push_def failed_with_def clean_def
      split: if_splits prod.splits sum.splits option.splits
      dest!: push_loop_keeps_limit elim!: extend_checked_cases)

lemma push_clean_sound:
  assumes "decoder_inv d" "decoder_push fs d chunk = (d', vs, None)"
  shows "\<not> dec_poisoned d \<and> \<not> dec_poisoned d' \<and> decoder_inv d' \<and>
         d' = d\<lparr>dec_buffer := dec_buffer d'\<rparr> \<and> length vs \<le> MAXIMUM_JSONL_FRAMES_PER_PUSH \<and>
         (\<exists>ls. split_lines (dec_buffer d) chunk = (ls, dec_buffer d') \<and>
               lines_decode (maximum_frame_bytes d) (line_value fs) ls vs)"
proof -
  have open_d: "\<not> dec_poisoned d" using assms(2) by (auto simp: push_poisoned)
  obtain d1 tail where l: "push_loop fs d [] (take (maximum_batch_bytes d) chunk) = (d1, vs, Inr tail)"
    and small: "length chunk \<le> maximum_batch_bytes d" and ext: "extend_checked d1 tail = (d', None)"
    using assms(2) open_d
    by (auto simp: decoder_push_def failed_with_def clean_def split: prod.splits sum.splits if_splits option.splits)
  from push_loop_sound [OF assms(1) open_d l] small obtain ls where
    *: "split_lines (dec_buffer d) chunk = (ls, dec_buffer d1 @ tail)"
      "lines_decode (maximum_frame_bytes d) (line_value fs) ls vs"
      "d1 = d\<lparr>dec_buffer := dec_buffer d1\<rparr>" "decoder_inv d1" "newline \<notin> set tail"
      "length vs \<le> maximum_frames_per_push d" by auto
  from ext have d': "length tail \<le> maximum_frame_bytes d1 - length (dec_buffer d1)"
      "d' = d1\<lparr>dec_buffer := dec_buffer d1 @ tail\<rparr>"
    by (auto elim!: extend_checked_cases)
  obtain b where b: "d1 = d\<lparr>dec_buffer := b\<rparr>" using *(3) by metis
  show ?thesis
    using * d' open_d assms(1) unfolding b by (auto simp: decoder_inv_def)
qed

lemma push_clean_complete:
  assumes "decoder_inv d" "\<not> dec_poisoned d" "split_lines (dec_buffer d) chunk = (ls, tail)"
    and "length chunk \<le> maximum_batch_bytes d" "length ls \<le> maximum_frames_per_push d"
    and "lines_decode (maximum_frame_bytes d) (line_value fs) ls vs" "length tail \<le> maximum_frame_bytes d"
  shows "\<exists>d'. decoder_push fs d chunk = (d', vs, None)"
proof -
  from push_loop_complete [OF assms(1,3,6), of "[]"] assms(5) obtain d1 tail' where
    l: "push_loop fs d [] chunk = (d1, vs, Inr tail')" by auto
  from push_loop_sound [OF assms(1,2) l] assms(3) have
    "dec_buffer d1 @ tail' = tail" "d1 = d\<lparr>dec_buffer := dec_buffer d1\<rparr>" by auto
  moreover from this(2) obtain b where "d1 = d\<lparr>dec_buffer := b\<rparr>" by metis
  ultimately have "extend_checked d1 tail' = (d1\<lparr>dec_buffer := dec_buffer d1 @ tail'\<rparr>, None)"
    using assms(7) by (auto simp: extend_checked_def)
  with l assms(2,4) show ?thesis
    by (simp add: decoder_push_def clean_def)
qed

definition push_admissible :: "bounded_decoder \<Rightarrow> bytes \<Rightarrow> bytes list \<Rightarrow> bool" where
  "push_admissible d chunk ls \<longleftrightarrow>
     length chunk \<le> maximum_batch_bytes d \<and> length ls \<le> maximum_frames_per_push d"

interpretation jsonl: line_decoder decoder_inv dec_buffer dec_poisoned maximum_frame_bytes push_admissible
  "line_value from_slice" "decoder_push from_slice" "\<lambda>d. snd (decoder_finish d) = Inr ()"
  for from_slice :: "'v json_parser"
proof (unfold_locales, goal_cases)
  case (1 d chunk ls tail vs)
  then show ?case by (auto simp: push_admissible_def intro: push_clean_complete)
next
  case (2 d chunk d' vs)
  from push_clean_sound [OF 2] obtain b where "d' = d\<lparr>dec_buffer := b\<rparr>" by metis
  with push_clean_sound [OF 2] show ?case by (auto simp: push_admissible_def fun_eq_iff)
next
  case (3 d chunk d' vs e)
  then show ?case using push_error_poisons by blast
next
  case (4 d chunk)
  then show ?case by (simp add: push_poisoned)
next
  case (5 d)
  then show ?case by (simp add: decoder_finish_def)
qed

lemmas bounded_decoder_facts = decoder_new_inv push_clean_sound push_error_poisons push_poisoned

lemma run_decoder_inv:
  "run_chunks (decoder_push fs) d chunks = (d', vs, r) \<Longrightarrow> decoder_inv d \<Longrightarrow>
   decoder_inv d' \<and> maximum_frame_bytes d' = maximum_frame_bytes d"
proof (induction chunks arbitrary: d vs)
  case (Cons chunk chunks)
  from Cons.prems(1) show ?case
    by (rule run_chunks_ConsE)
      (use Cons.IH Cons.prems(2) push_error_poisons push_clean_sound push_keeps_limit in \<open>metis\<close>)+
qed simp

section \<open>Properties\<close>

text \<open>What the sources rely on of \<^verbatim>\<open>serde_json\<close>: parsing inverts printing, and compact JSON text
  contains no line feed and does not end in a carriage return.\<close>

definition serde_json_laws :: "'v json_printer \<Rightarrow> 'v json_parser \<Rightarrow> bool" where
  "serde_json_laws to_vec from_slice \<longleftrightarrow>
     (\<forall>v bs. to_vec v = Inr bs \<longrightarrow>
        from_slice bs = Inr v \<and> newline \<notin> set bs \<and> strip_carriage_return bs = bs)"


text \<open>A concrete printer and parser for the witnesses: one digit character per value.\<close>

definition digit_printer :: "u8 json_printer" where
  "digit_printer v = (if v \<in> {newline, carriage_return} then Inl ''unprintable'' else Inr [v])"

definition digit_parser :: "u8 json_parser" where
  "digit_parser bs = (case bs of [v] \<Rightarrow> Inr v | _ \<Rightarrow> Inl ''expected value'')"

definition small_decoder :: bounded_decoder where
  "small_decoder = \<lparr>maximum_frame_bytes = 4, maximum_batch_bytes = 20, maximum_frames_per_push = 1024,
     dec_buffer = [], dec_poisoned = False\<rparr>"

lemma small_decoder_new: "decoder_new 4 = Inr small_decoder"
  by (simp add: decoder_new_def validate_frame_limit_def small_decoder_def MAXIMUM_JSONL_BATCH_BYTES_def
      MAXIMUM_JSONL_FRAME_BYTES_def MAXIMUM_JSONL_FRAMES_PER_PUSH_def)

lemma digit_laws: "serde_json_laws digit_printer digit_parser"
  by (auto simp: serde_json_laws_def digit_printer_def digit_parser_def strip_carriage_return_def split: if_splits)


text \<open>what the decoder accepts. If a fresh decoder takes every chunk and the end of the stream
  without error, then the bytes it was given are lines ended by line feeds, each within the frame
  limit, and the frames it returned are the parsed lines, one for one.
\<close>

theorem jsonl_accepts_only_framed_lines:
  assumes "decoder_new n = Inr d"
    and "run_chunks (decoder_push from_slice) d chunks = (d', vs, None)"
    and "snd (decoder_finish d') = Inr ()"
  shows "\<exists>ls. split_lines [] (concat chunks) = (ls, []) \<and> lines_decode n (line_value from_slice) ls vs"
proof -
  from assms(1) have d: "decoder_inv d" "\<not> dec_poisoned d" "dec_buffer d = []" "maximum_frame_bytes d = n"
    using decoder_new_inv [OF assms(1)] by (auto simp: decoder_new_def and_then_Inr_iff)
  from jsonl.stream_sound [OF assms(2) d(1-3)] assms(3) d(4) show ?thesis by simp
qed

lemma small_decoder_run:
  "run_chunks (decoder_push digit_parser) small_decoder [[49, 10]] = (small_decoder, [49], None)"
  "snd (decoder_finish small_decoder) = Inr ()"
proof -
  have "push_loop digit_parser small_decoder [] ([49] @ newline # []) = (small_decoder, [49], Inr [])"
    by (subst push_loop_line) (auto simp: newline_def small_decoder_def digit_parser_def
        strip_carriage_return_def carriage_return_def clear_buffer_def push_loop_end)
  then have "push_loop digit_parser small_decoder [] [49, 10] = (small_decoder, [49], Inr [])"
    by (simp add: newline_def)
  then show "run_chunks (decoder_push digit_parser) small_decoder [[49, 10]] = (small_decoder, [49], None)"
    by (simp add: decoder_push_def extend_checked_def clean_def small_decoder_def)
  show "snd (decoder_finish small_decoder) = Inr ()"
    by (simp add: decoder_finish_def small_decoder_def)
qed

theorem jsonl_accepts_only_framed_lines_witness:
  "\<exists>ls. split_lines [] (concat [[49, 10]]) = (ls, []) \<and> lines_decode 4 (line_value digit_parser) ls [49]"
  by (rule jsonl_accepts_only_framed_lines [OF small_decoder_new small_decoder_run])

text \<open>
  C4: bounds and poisoning. Over any sequence of chunks the buffer of a fresh decoder never
  exceeds the frame limit; after a protocol error it is empty, every further push returns no
  frame and the poisoned error, and the end of the stream is refused.
\<close>

theorem jsonl_bounded_and_poisoned:
  assumes "decoder_new n = Inr d"
    and "run_chunks (decoder_push from_slice) d chunks = (d', vs, r)"
  shows "length (dec_buffer d') \<le> n \<and>
         (r \<noteq> None \<longrightarrow> dec_buffer d' = [] \<and> snd (decoder_finish d') = Inl Poisoned \<and>
            (\<forall>chunk. decoder_push from_slice d' chunk = (d', [], Some Poisoned)))"
proof -
  from assms(1) have d: "decoder_inv d" "maximum_frame_bytes d = n"
    using decoder_new_inv [OF assms(1)] by (auto simp: decoder_new_def and_then_Inr_iff)
  from run_decoder_inv [OF assms(2) d(1)] d(2) have inv: "decoder_inv d'" "maximum_frame_bytes d' = n" by auto
  have "dec_poisoned d'" if "r = Some e" for e
    using jsonl.run_error_final assms(2) d(1) that by blast
  with inv show ?thesis
    by (cases r) (auto simp: decoder_inv_def decoder_finish_def push_poisoned)
qed

theorem jsonl_bounded_and_poisoned_witness:
  "dec_buffer (poison small_decoder) = [] \<and>
   decoder_push digit_parser (poison small_decoder) [49] = (poison small_decoder, [], Some Poisoned)"
proof -
  have r: "run_chunks (decoder_push digit_parser) small_decoder [[50, 50, 50, 50, 50]] =
      (poison small_decoder, [], Some (LineFrameTooLarge 4))"
    by (simp add: decoder_push_def small_decoder_def push_loop_end newline_def extend_checked_def failed_with_def)
  show ?thesis
    using jsonl_bounded_and_poisoned [OF small_decoder_new r] by simp
qed

end
