(* ===== verification/Redaction.thy ===== *)
theory Redaction
  imports Domain_Types "HOL-Library.Product_Lexorder"
begin

text \<open>
  The secret scanner of \<^verbatim>\<open>crates/maestro-redaction/src/lib.rs\<close>. A text is its list of bytes; the
  scanner reads bytes and slices the text at byte positions. Slicing a Rust \<^verbatim>\<open>str\<close> inside a
  multi-byte character panics, so every slice of the model is an option and \<^term>\<open>None\<close> is a panic
  that goes through to the result; a later theorem shows that it does not happen on valid UTF-8.
\<close>

section \<open>Bytes and slices\<close>

abbreviation byte_of :: "char \<Rightarrow> nat" where "byte_of c \<equiv> of_char c"

definition is_ascii_digit :: "char \<Rightarrow> bool" where
  "is_ascii_digit c \<longleftrightarrow> 48 \<le> byte_of c \<and> byte_of c \<le> 57"
definition is_ascii_uppercase :: "char \<Rightarrow> bool" where
  "is_ascii_uppercase c \<longleftrightarrow> 65 \<le> byte_of c \<and> byte_of c \<le> 90"
definition is_ascii_lowercase :: "char \<Rightarrow> bool" where
  "is_ascii_lowercase c \<longleftrightarrow> 97 \<le> byte_of c \<and> byte_of c \<le> 122"
definition is_ascii_alphanumeric :: "char \<Rightarrow> bool" where
  "is_ascii_alphanumeric c \<longleftrightarrow> is_ascii_digit c \<or> is_ascii_uppercase c \<or> is_ascii_lowercase c"
definition is_ascii_whitespace :: "char \<Rightarrow> bool" where
  "is_ascii_whitespace c \<longleftrightarrow> c \<in> {CHR 0x09, CHR 0x0A, CHR 0x0C, CHR 0x0D, CHR '' ''}"
definition to_ascii_lowercase :: "char \<Rightarrow> char" where
  "to_ascii_lowercase c = (if is_ascii_uppercase c then char_of (byte_of c + 32) else c)"

definition eq_ignore_ascii_case :: "string \<Rightarrow> string \<Rightarrow> bool" where
  "eq_ignore_ascii_case a b \<longleftrightarrow> map to_ascii_lowercase a = map to_ascii_lowercase b"

definition is_continuation :: "char \<Rightarrow> bool" where
  "is_continuation c \<longleftrightarrow> 128 \<le> byte_of c \<and> byte_of c < 192"

definition is_char_boundary :: "string \<Rightarrow> nat \<Rightarrow> bool" where
  "is_char_boundary s i \<longleftrightarrow>
     i = 0 \<or> i = length s \<or> (i < length s \<and> \<not> is_continuation (s ! i))"

type_synonym range = "nat \<times> nat"

text \<open>\<^verbatim>\<open>str::get(i..j)\<close>; \<^verbatim>\<open>&s[i..j]\<close> panics exactly when this is \<^term>\<open>None\<close>.\<close>

definition str_get :: "string \<Rightarrow> nat \<Rightarrow> nat \<Rightarrow> string option" where
  "str_get s i j =
     (if i \<le> j \<and> j \<le> length s \<and> is_char_boundary s i \<and> is_char_boundary s j
      then Some (sub s i j) else None)"

section \<open>Classes of bytes\<close>

definition REDACTED :: string where "REDACTED = ''[REDACTED]''"
definition MAX_JSON_DEPTH :: nat where "MAX_JSON_DEPTH = 128"

definition SENSITIVE_KEYS :: "string list" where
  "SENSITIVE_KEYS = [''apikey'', ''apitoken'', ''auth'', ''authorization'', ''authtoken'',
     ''clientsecret'', ''credential'', ''credentials'', ''databasepassword'', ''dbpassword'',
     ''idtoken'', ''password'', ''passphrase'', ''passwd'', ''privatekey'', ''proxyauthorization'',
     ''pwd'', ''refreshtoken'', ''secret'', ''secretaccesskey'', ''sessiontoken'', ''signingkey'',
     ''token'']"

definition SENSITIVE_SUFFIXES :: "string list" where
  "SENSITIVE_SUFFIXES = [''apikey'', ''apitoken'', ''authtoken'', ''clientsecret'', ''credential'',
     ''credentials'', ''idtoken'', ''password'', ''passphrase'', ''passwd'', ''privatekey'',
     ''refreshtoken'', ''secret'', ''secretaccesskey'', ''sessiontoken'', ''signingkey'', ''token'']"

definition QUERY_ONLY_KEYS :: "string list" where
  "QUERY_ONLY_KEYS = [''key'', ''sig'', ''signature'', ''xamzcredential'', ''xamzsignature'']"

definition backslash :: char where "backslash = CHR 0x5C"
definition single_quote :: char where "single_quote = CHR 0x27"
definition double_quote :: char where "double_quote = CHR 0x22"

definition is_quote :: "char \<Rightarrow> bool" where
  "is_quote c \<longleftrightarrow> c = single_quote \<or> c = double_quote"

definition is_key_byte :: "char \<Rightarrow> bool" where
  "is_key_byte c \<longleftrightarrow> is_ascii_alphanumeric c \<or> c \<in> {CHR ''_'', CHR ''-'', CHR ''.''}"

definition is_unquoted_value_delimiter :: "char \<Rightarrow> bool" where
  "is_unquoted_value_delimiter c \<longleftrightarrow>
     is_ascii_whitespace c \<or>
     c \<in> {CHR '','', CHR '';'', CHR ''&'', CHR ''#'', single_quote, double_quote,
          CHR '')'', CHR '']'', CHR ''}''}"

definition is_horizontal_whitespace :: "char \<Rightarrow> bool" where
  "is_horizontal_whitespace c \<longleftrightarrow> c = CHR '' '' \<or> c = CHR 0x09"

definition is_base64_url :: "char \<Rightarrow> bool" where
  "is_base64_url c \<longleftrightarrow> is_ascii_alphanumeric c \<or> c = CHR ''_'' \<or> c = CHR ''-''"

definition is_base64_standard :: "char \<Rightarrow> bool" where
  "is_base64_standard c \<longleftrightarrow> is_ascii_alphanumeric c \<or> c = CHR ''+'' \<or> c = CHR ''/'' \<or> c = CHR ''=''"

definition is_prefixed_token_byte :: "char \<Rightarrow> bool" where
  "is_prefixed_token_byte c \<longleftrightarrow> is_ascii_alphanumeric c \<or> c = CHR ''_'' \<or> c = CHR ''-''"

definition is_none_or :: "('a \<Rightarrow> bool) \<Rightarrow> 'a option \<Rightarrow> bool" where
  "is_none_or p x = (case x of None \<Rightarrow> True | Some y \<Rightarrow> p y)"

definition is_word_boundary :: "char option \<Rightarrow> bool" where
  "is_word_boundary = is_none_or (\<lambda>c. \<not> is_ascii_alphanumeric c \<and> c \<noteq> CHR ''_'' \<and> c \<noteq> CHR ''-'')"

definition is_token_boundary :: "char option \<Rightarrow> bool" where
  "is_token_boundary = is_none_or (\<lambda>c. \<not> is_base64_url c \<and> c \<noteq> CHR ''.'')"

definition is_prefixed_token_boundary :: "char option \<Rightarrow> bool" where
  "is_prefixed_token_boundary = is_none_or (\<lambda>c. \<not> is_prefixed_token_byte c)"

section \<open>Scanning helpers\<close>

text \<open>The loops that move a cursor over bytes: backwards, and forwards to the end at most.\<close>

fun back_while :: "(char \<Rightarrow> bool) \<Rightarrow> string \<Rightarrow> nat \<Rightarrow> nat" where
  "back_while p s 0 = 0"
| "back_while p s (Suc e) = (if p (s ! e) then back_while p s e else Suc e)"

function fwd_while :: "(nat \<Rightarrow> bool) \<Rightarrow> nat \<Rightarrow> nat \<Rightarrow> nat" where
  "fwd_while p n i = (if i < n \<and> p i then fwd_while p n (Suc i) else i)"
  by pat_completeness auto
termination
  by (relation "measure (\<lambda>(p, n, i). n - i)") auto

declare fwd_while.simps [simp del]

definition is_escaped :: "string \<Rightarrow> nat \<Rightarrow> bool" where
  "is_escaped s position \<longleftrightarrow> (position - back_while (\<lambda>c. c = backslash) s position) mod 2 = 1"

definition skip_horizontal_whitespace :: "string \<Rightarrow> nat \<Rightarrow> nat" where
  "skip_horizontal_whitespace s cursor =
     fwd_while (\<lambda>i. is_horizontal_whitespace (s ! i)) (length s) cursor"

fun previous_unescaped_quote :: "string \<Rightarrow> nat \<Rightarrow> char \<Rightarrow> nat option" where
  "previous_unescaped_quote s 0 quote = None"
| "previous_unescaped_quote s (Suc c) quote =
     (if s ! c = quote \<and> \<not> is_escaped s c then Some c else previous_unescaped_quote s c quote)"

definition key_before_separator :: "string \<Rightarrow> nat \<Rightarrow> range option" where
  "key_before_separator s separator =
     (let e = back_while is_horizontal_whitespace s separator in
      if e = 0 then None
      else if is_quote (s ! (e - 1))
      then (case previous_unescaped_quote s (e - 1) (s ! (e - 1)) of
              None \<Rightarrow> None
            | Some opening \<Rightarrow>
                if opening + 1 < e - 1 then Some (opening + 1, e - 1) else None)
      else (let start = back_while is_key_byte s e in
            if start < e then Some (start, e) else None))"

text \<open>The outer option of the result is the panic of \<^verbatim>\<open>input[start..]\<close>.\<close>

definition value_starting_at :: "string \<Rightarrow> nat \<Rightarrow> range option option" where
  "value_starting_at s start =
     (if start \<ge> length s then Some None
      else (case str_get s start (length s) of
              None \<Rightarrow> None
            | Some rest \<Rightarrow>
                if starts_with rest REDACTED then Some None
                else if is_quote (s ! start)
                then (let quote = s ! start;
                          e = fwd_while (\<lambda>i. \<not> (s ! i = quote \<and> \<not> is_escaped s i)) (length s) (start + 1)
                      in Some (if start + 1 < e then Some (start + 1, e) else None))
                else (let e = fwd_while (\<lambda>i. \<not> is_unquoted_value_delimiter (s ! i)) (length s) start
                      in Some (if start < e then Some (start, e) else None))))"

definition value_after_separator :: "string \<Rightarrow> nat \<Rightarrow> range option option" where
  "value_after_separator s separator =
     value_starting_at s (skip_horizontal_whitespace s (separator + 1))"

definition unwrap_value :: "range \<Rightarrow> range option option \<Rightarrow> range option" where
  "unwrap_value fallback r = map_option (\<lambda>v. case v of None \<Rightarrow> fallback | Some x \<Rightarrow> x) r"

text \<open>The loop over the two schemes, then the rest of \<^verbatim>\<open>authorization_secret_range\<close>.\<close>

fun authorization_loop :: "string \<Rightarrow> range \<Rightarrow> string list \<Rightarrow> range option" where
  "authorization_loop s (a, b) [] =
     (case get_before s a of
        Some c \<Rightarrow>
          if is_quote c then Some (a, b)
          else Some (a, fwd_while (\<lambda>i. s ! i \<noteq> CHR 0x0D \<and> s ! i \<noteq> CHR 0x0A) (length s) b)
      | None \<Rightarrow> Some (a, fwd_while (\<lambda>i. s ! i \<noteq> CHR 0x0D \<and> s ! i \<noteq> CHR 0x0A) (length s) b))"
| "authorization_loop s (a, b) (scheme # schemes) =
     (let value = sub s a b in
      if eq_ignore_ascii_case value scheme
      then unwrap_value (a, b) (value_starting_at s (skip_horizontal_whitespace s b))
      else if length value \<le> length scheme
        \<or> \<not> eq_ignore_ascii_case (take (length scheme) value) scheme
        \<or> \<not> is_horizontal_whitespace (value ! length scheme)
      then authorization_loop s (a, b) schemes
      else unwrap_value (a, b)
             (value_starting_at s (skip_horizontal_whitespace s (a + length scheme))))"

definition authorization_secret_range :: "string \<Rightarrow> range \<Rightarrow> range option" where
  "authorization_secret_range s value = authorization_loop s value [''bearer'', ''basic'']"

section \<open>Recognisers\<close>

definition normalize_key :: "string \<Rightarrow> string" where
  "normalize_key key = map to_ascii_lowercase (filter is_ascii_alphanumeric key)"

definition is_sensitive_normalized_key :: "string \<Rightarrow> bool" where
  "is_sensitive_normalized_key key \<longleftrightarrow>
     key \<in> set SENSITIVE_KEYS \<or> list_ex (\<lambda>suffix. ends_with key suffix) SENSITIVE_SUFFIXES"

definition is_sensitive_key :: "string \<Rightarrow> bool" where
  "is_sensitive_key key = is_sensitive_normalized_key (normalize_key key)"

fun find_ascii_case_insensitive :: "string \<Rightarrow> string \<Rightarrow> nat option" where
  "find_ascii_case_insensitive [] needle = None"
| "find_ascii_case_insensitive (c # cs) needle =
     (if length needle \<le> length (c # cs) \<and> eq_ignore_ascii_case (take (length needle) (c # cs)) needle
      then Some 0
      else map_option Suc (find_ascii_case_insensitive cs needle))"

fun split_on :: "char \<Rightarrow> string \<Rightarrow> string list" where
  "split_on d [] = [[]]"
| "split_on d (c # cs) =
     (if c = d then [] # split_on d cs
      else (case split_on d cs of [] \<Rightarrow> [[c]] | w # ws \<Rightarrow> (c # w) # ws))"

definition is_jwt_like :: "string \<Rightarrow> bool" where
  "is_jwt_like candidate =
     (case split_on (CHR ''.'') candidate of
        [header, payload, signature] \<Rightarrow>
          starts_with header ''eyJ'' \<and> length header \<ge> 8 \<and> length payload \<ge> 8 \<and>
          length signature \<ge> 8 \<and>
          list_all (list_all is_base64_url) [header, payload, signature]
      | _ \<Rightarrow> False)"

definition looks_like_bearer :: "string \<Rightarrow> bool" where
  "looks_like_bearer candidate \<longleftrightarrow>
     length candidate \<ge> 16 \<or>
     (length candidate \<ge> 8 \<and>
      list_ex (\<lambda>c. is_ascii_digit c \<or> c \<in> {CHR ''-'', CHR ''_'', CHR ''.'', CHR ''=''}) candidate)"

definition looks_like_basic :: "string \<Rightarrow> bool" where
  "looks_like_basic candidate \<longleftrightarrow>
     length candidate \<ge> 8 \<and> length candidate mod 4 = 0 \<and>
     list_all is_base64_standard candidate \<and>
     ((list_ex is_ascii_lowercase candidate \<and> list_ex is_ascii_uppercase candidate) \<or>
      list_ex (\<lambda>c. is_ascii_digit c \<or> c \<in> {CHR ''+'', CHR ''/'', CHR ''=''}) candidate)"

definition looks_like_prefixed_credential :: "string \<Rightarrow> bool" where
  "looks_like_prefixed_credential c \<longleftrightarrow>
     (starts_with c ''sk-'' \<and> length c \<ge> 20)
   \<or> (str_get c 0 8 \<in> {Some ''sk_live_'', Some ''sk_test_''} \<and> length c \<ge> 24)
   \<or> (starts_with c ''rk_live_'' \<and> length c \<ge> 24)
   \<or> (list_ex (starts_with c) [''ghp_'', ''gho_'', ''ghu_'', ''ghs_'', ''github_pat_''] \<and> length c \<ge> 20)
   \<or> (starts_with c ''glpat-'' \<and> length c \<ge> 20)
   \<or> (starts_with c ''AIza'' \<and> length c \<ge> 30)
   \<or> (starts_with c ''xox'' \<and>
      (case get c 3 of None \<Rightarrow> False
       | Some b \<Rightarrow> to_ascii_lowercase b \<in> {CHR ''a'', CHR ''b'', CHR ''p'', CHR ''r'', CHR ''s''}) \<and>
      get c 4 = Some (CHR ''-'') \<and> length c \<ge> 20)
   \<or> (str_get c 0 4 \<in> {Some ''AKIA'', Some ''ASIA''} \<and> length c = 20 \<and>
      list_all (\<lambda>b. is_ascii_uppercase b \<or> is_ascii_digit b) c)"

section \<open>Collectors\<close>

text \<open>Running a step that may panic over a list and concatenating what it finds.\<close>

fun collect_opt :: "('a \<Rightarrow> 'b list option) \<Rightarrow> 'a list \<Rightarrow> 'b list option" where
  "collect_opt f [] = Some []"
| "collect_opt f (x # xs) =
     (case f x of None \<Rightarrow> None | Some rs \<Rightarrow> map_option (\<lambda>more. rs @ more) (collect_opt f xs))"

definition assignment_at :: "string \<Rightarrow> nat \<Rightarrow> range list option" where
  "assignment_at s separator =
     (if s ! separator \<noteq> CHR ''='' \<and> s ! separator \<noteq> CHR '':'' then Some []
      else (case key_before_separator s separator of
              None \<Rightarrow> Some []
            | Some (ks, ke) \<Rightarrow>
                (case str_get s ks ke of
                   None \<Rightarrow> None
                 | Some key \<Rightarrow>
                     let normalized = normalize_key key;
                         query_key = (ks > 0 \<and> s ! (ks - 1) \<in> {CHR ''?'', CHR ''&'', CHR '';''})
                     in if \<not> (is_sensitive_normalized_key normalized \<or>
                              query_key \<and> normalized \<in> set QUERY_ONLY_KEYS)
                        then Some []
                        else (case value_after_separator s separator of
                                None \<Rightarrow> None
                              | Some None \<Rightarrow> Some []
                              | Some (Some value) \<Rightarrow>
                                  if normalized \<in> {''authorization'', ''proxyauthorization''}
                                  then map_option (\<lambda>r. [r]) (authorization_secret_range s value)
                                  else Some [value]))))"

definition collect_assignment_ranges :: "string \<Rightarrow> range list option" where
  "collect_assignment_ranges s = collect_opt (assignment_at s) [0..<length s]"

datatype scheme = Bearer | Basic

fun scheme_text :: "scheme \<Rightarrow> string" where
  "scheme_text Bearer = ''bearer''"
| "scheme_text Basic = ''basic''"

fun looks_credential :: "scheme \<Rightarrow> string \<Rightarrow> bool" where
  "looks_credential Bearer value = looks_like_bearer value"
| "looks_credential Basic value = looks_like_basic value"

lemma scheme_text_nonempty: "0 < length (scheme_text k)"
  by (cases k) simp_all

function scheme_loop :: "string \<Rightarrow> scheme \<Rightarrow> nat \<Rightarrow> range list option" where
  "scheme_loop s k cursor =
     (if cursor + length (scheme_text k) \<le> length s
      then (case find_ascii_case_insensitive (drop cursor s) (scheme_text k) of
              None \<Rightarrow> Some []
            | Some relative \<Rightarrow>
                let start = cursor + relative; after_scheme = start + length (scheme_text k) in
                if \<not> is_word_boundary (get_before s start)
                  \<or> \<not> (case get s after_scheme of None \<Rightarrow> False | Some b \<Rightarrow> is_horizontal_whitespace b)
                then scheme_loop s k after_scheme
                else (case value_starting_at s (skip_horizontal_whitespace s after_scheme) of
                        None \<Rightarrow> None
                      | Some None \<Rightarrow> scheme_loop s k after_scheme
                      | Some (Some (a, b)) \<Rightarrow>
                          (case str_get s a b of
                             None \<Rightarrow> None
                           | Some value \<Rightarrow>
                               map_option (\<lambda>rs. (if looks_credential k value then [(a, b)] else []) @ rs)
                                 (scheme_loop s k (max b after_scheme)))))
      else Some [])"
  by pat_completeness auto
termination
proof (relation "measure (\<lambda>(s, k, cursor). length s - cursor)", goal_cases)
  case (2 s k cursor)
  then show ?case using scheme_text_nonempty [of k] by (auto simp only: in_measure split_conv)
next
  case (3 s k cursor)
  then show ?case using scheme_text_nonempty [of k] by (auto simp only: in_measure split_conv)
next
  case (4 s k cursor)
  then show ?case using scheme_text_nonempty [of k] by (auto simp only: in_measure split_conv)
qed simp

declare scheme_loop.simps [simp del]

definition collect_scheme_ranges :: "string \<Rightarrow> range list option" where
  "collect_scheme_ranges s = collect_opt (\<lambda>k. scheme_loop s k 0) [Bearer, Basic]"

lemma fwd_while_ge: "i \<le> fwd_while p n i"
proof (induction p n i rule: fwd_while.induct)
  case (1 p n i)
  show ?case
  proof (cases "i < n \<and> p i")
    case True
    with 1 show ?thesis by (simp add: fwd_while.simps [of p n i])
  next
    case False
    then show ?thesis by (simp only: fwd_while.simps [of p n i] if_False order_refl)
  qed
qed

lemma fwd_while_le: "i \<le> n \<Longrightarrow> fwd_while p n i \<le> n"
proof (induction p n i rule: fwd_while.induct)
  case (1 p n i)
  then show ?case by (cases "i < n \<and> p i") (simp_all add: fwd_while.simps [of p n i])
qed

function jwt_loop :: "string \<Rightarrow> nat \<Rightarrow> range list option" where
  "jwt_loop s cursor =
     (if cursor < length s
      then
        if cursor + 3 \<le> length s \<and> sub s cursor (cursor + 3) = ''eyJ''
          \<and> is_token_boundary (get_before s cursor)
        then (let e = fwd_while (\<lambda>i. is_base64_url (s ! i) \<or> s ! i = CHR ''.'') (length s) (cursor + 3) in
              case str_get s cursor e of
                None \<Rightarrow> None
              | Some candidate \<Rightarrow>
                  if is_jwt_like candidate \<and> is_token_boundary (get s e)
                  then map_option (\<lambda>rs. (cursor, e) # rs) (jwt_loop s e)
                  else jwt_loop s (cursor + 1))
        else jwt_loop s (cursor + 1)
      else Some [])"
  by pat_completeness auto
termination
proof (relation "measure (\<lambda>(s, cursor). length s - cursor)", goal_cases)
  case (2 s cursor e)
  then show ?case
    using fwd_while_ge [of "cursor + 3" "\<lambda>i. is_base64_url (s ! i) \<or> s ! i = CHR ''.''" "length s"]
    by (auto simp only: in_measure split_conv)
qed auto

declare jwt_loop.simps [simp del]

definition collect_jwt_ranges :: "string \<Rightarrow> range list option" where
  "collect_jwt_ranges s = jwt_loop s 0"

function prefixed_loop :: "string \<Rightarrow> nat \<Rightarrow> range list option" where
  "prefixed_loop s cursor =
     (if cursor < length s
      then
        if \<not> is_prefixed_token_byte (s ! cursor) \<or> \<not> is_prefixed_token_boundary (get_before s cursor)
        then prefixed_loop s (cursor + 1)
        else (let e = fwd_while (\<lambda>i. is_prefixed_token_byte (s ! i)) (length s) (cursor + 1) in
              case str_get s cursor e of
                None \<Rightarrow> None
              | Some candidate \<Rightarrow>
                  map_option (\<lambda>rs. (if looks_like_prefixed_credential candidate then [(cursor, e)] else []) @ rs)
                    (prefixed_loop s e))
      else Some [])"
  by pat_completeness auto
termination
proof (relation "measure (\<lambda>(s, cursor). length s - cursor)", goal_cases)
  case (3 s cursor e)
  then show ?case
    using fwd_while_ge [of "cursor + 1" "\<lambda>i. is_prefixed_token_byte (s ! i)" "length s"]
    by (auto simp only: in_measure split_conv)
qed auto

declare prefixed_loop.simps [simp del]

definition collect_prefixed_credential_ranges :: "string \<Rightarrow> range list option" where
  "collect_prefixed_credential_ranges s = prefixed_loop s 0"

section \<open>Ranges and rendering\<close>

definition retained_range :: "string \<Rightarrow> range \<Rightarrow> bool" where
  "retained_range s r \<longleftrightarrow>
     fst r < snd r \<and> str_get s (fst r) (snd r) \<noteq> None \<and> str_get s (fst r) (snd r) \<noteq> Some REDACTED"

text \<open>The merging loop; the first argument is the last merged range.\<close>

fun merge_from :: "range \<Rightarrow> range list \<Rightarrow> range list" where
  "merge_from previous [] = [previous]"
| "merge_from previous (r # rs) =
     (if fst r \<le> snd previous
      then merge_from (fst previous, max (snd previous) (snd r)) rs
      else previous # merge_from r rs)"

fun merge_ranges :: "range list \<Rightarrow> range list" where
  "merge_ranges [] = []"
| "merge_ranges (r # rs) = merge_from r rs"

definition normalize_ranges :: "string \<Rightarrow> range list \<Rightarrow> range list" where
  "normalize_ranges s ranges = merge_ranges (sort (filter (retained_range s) ranges))"

definition secret_ranges :: "string \<Rightarrow> range list option" where
  "secret_ranges s =
     map_option (normalize_ranges s)
       (collect_opt (\<lambda>f. f s) [collect_assignment_ranges, collect_scheme_ranges, collect_jwt_ranges,
          collect_prefixed_credential_ranges])"

fun render_from :: "string \<Rightarrow> nat \<Rightarrow> range list \<Rightarrow> string option" where
  "render_from s cursor [] = str_get s cursor (length s)"
| "render_from s cursor (r # rs) =
     (case str_get s cursor (fst r) of
        None \<Rightarrow> None
      | Some kept \<Rightarrow> map_option (\<lambda>rest. kept @ REDACTED @ rest) (render_from s (snd r) rs))"

definition render_redacted :: "string \<Rightarrow> range list \<Rightarrow> string option" where
  "render_redacted s ranges = render_from s 0 ranges"

datatype cow = Borrowed string | Owned string

fun cow_text :: "cow \<Rightarrow> string" where
  "cow_text (Borrowed s) = s"
| "cow_text (Owned s) = s"

definition redact_text :: "string \<Rightarrow> cow option" where
  "redact_text s =
     (case secret_ranges s of
        None \<Rightarrow> None
      | Some [] \<Rightarrow> Some (Borrowed s)
      | Some ranges \<Rightarrow> map_option Owned (render_redacted s ranges))"

section \<open>JSON values\<close>

definition redact_named_value :: "json \<Rightarrow> json \<times> nat" where
  "redact_named_value v =
     (if v = Null \<or> as_str v = Some REDACTED then (v, 0) else (String REDACTED, 1))"

text \<open>
  The in-place redaction returns the new value and the number of changes; a panic of the text
  scanner is \<^term>\<open>None\<close>.
\<close>

fun redact_json_value :: "json \<Rightarrow> nat \<Rightarrow> (json \<times> nat) option"
  and redact_json_array :: "json list \<Rightarrow> nat \<Rightarrow> (json list \<times> nat) option"
  and redact_json_entries :: "(string \<times> json) list \<Rightarrow> nat \<Rightarrow> ((string \<times> json) list \<times> nat) option"
where
  "redact_json_value (Object entries) depth =
     (if depth \<ge> MAX_JSON_DEPTH
      then Some (if entries = [] then (Object [], 0) else (String REDACTED, 1))
      else map_option (\<lambda>(es, n). (Object es, n)) (redact_json_entries entries depth))"
| "redact_json_value (Array values) depth =
     (if depth \<ge> MAX_JSON_DEPTH
      then Some (if values = [] then (Array [], 0) else (String REDACTED, 1))
      else map_option (\<lambda>(vs, n). (Array vs, n)) (redact_json_array values depth))"
| "redact_json_value (String s) depth =
     (case redact_text s of
        None \<Rightarrow> None
      | Some (Borrowed _) \<Rightarrow> Some (String s, 0)
      | Some (Owned redacted) \<Rightarrow> Some (String redacted, 1))"
| "redact_json_value Null depth = Some (Null, 0)"
| "redact_json_value (Bool b) depth = Some (Bool b, 0)"
| "redact_json_value (Number n) depth = Some (Number n, 0)"
| "redact_json_array [] depth = Some ([], 0)"
| "redact_json_array (v # vs) depth =
     (case redact_json_value v (depth + 1) of
        None \<Rightarrow> None
      | Some (v', n) \<Rightarrow>
          map_option (\<lambda>(vs', m). (v' # vs', n + m)) (redact_json_array vs depth))"
| "redact_json_entries [] depth = Some ([], 0)"
| "redact_json_entries ((key, child) # es) depth =
     (case (if is_sensitive_key key then Some (redact_named_value child)
            else redact_json_value child (depth + 1)) of
        None \<Rightarrow> None
      | Some (child', n) \<Rightarrow>
          map_option (\<lambda>(es', m). ((key, child') # es', n + m)) (redact_json_entries es depth))"

definition redact_json_in_place :: "json \<Rightarrow> (json \<times> nat) option" where
  "redact_json_in_place v = redact_json_value v 0"

definition redact_json :: "json \<Rightarrow> json option" where
  "redact_json v = map_option fst (redact_json_in_place v)"

section \<open>Character boundaries\<close>

text \<open>
  What the scanner needs of UTF-8: a continuation byte is not the first byte and never follows an
  ASCII byte. Every valid UTF-8 text has this property.
\<close>

definition wf_text :: "string \<Rightarrow> bool" where
  "wf_text s \<longleftrightarrow>
     (\<forall>i < length s. is_continuation (s ! i) \<longrightarrow> 0 < i \<and> 128 \<le> byte_of (s ! (i - 1)))"

abbreviation is_ascii :: "char \<Rightarrow> bool" where "is_ascii c \<equiv> byte_of c < 128"

lemma boundary_at_ascii: "i < length s \<Longrightarrow> is_ascii (s ! i) \<Longrightarrow> is_char_boundary s i"
  by (simp add: is_char_boundary_def is_continuation_def)

lemma boundary_after_ascii:
  "wf_text s \<Longrightarrow> i < length s \<Longrightarrow> is_ascii (s ! i) \<Longrightarrow> is_char_boundary s (Suc i)"
  unfolding wf_text_def is_char_boundary_def by (cases "Suc i < length s") fastforce+

lemma ascii_classes:
  "is_key_byte c \<Longrightarrow> is_ascii c"
  "is_base64_url c \<Longrightarrow> is_ascii c"
  "is_prefixed_token_byte c \<Longrightarrow> is_ascii c"
  "is_horizontal_whitespace c \<Longrightarrow> is_ascii c"
  "is_quote c \<Longrightarrow> is_ascii c"
  "is_unquoted_value_delimiter c \<Longrightarrow> is_ascii c"
  by (auto simp: is_key_byte_def is_base64_url_def is_prefixed_token_byte_def is_ascii_alphanumeric_def
      is_ascii_digit_def is_ascii_uppercase_def is_ascii_lowercase_def is_horizontal_whitespace_def
      is_quote_def single_quote_def double_quote_def is_unquoted_value_delimiter_def is_ascii_whitespace_def)

lemma boundary_ends [simp]: "is_char_boundary s 0" "is_char_boundary s (length s)"
  by (simp_all add: is_char_boundary_def)

lemma fwd_while_stop: "i \<le> n \<Longrightarrow> fwd_while p n i = n \<or> (fwd_while p n i < n \<and> \<not> p (fwd_while p n i))"
proof (induction p n i rule: fwd_while.induct)
  case (1 p n i)
  then show ?case by (cases "i < n \<and> p i") (auto simp: fwd_while.simps [of p n i])
qed

lemma fwd_while_run: "i \<le> k \<Longrightarrow> k < fwd_while p n i \<Longrightarrow> p k"
proof (induction p n i rule: fwd_while.induct)
  case (1 p n i)
  show ?case
  proof (cases "i < n \<and> p i")
    case True
    with 1 show ?thesis by (cases "i = k") (auto simp: fwd_while.simps [of p n i])
  next
    case False
    with "1.prems" show ?thesis by (simp only: fwd_while.simps [of p n i] if_False)
  qed
qed

text \<open>A scan that starts on a boundary and passes ASCII bytes only, or stops at one, ends on a boundary.\<close>

lemma fwd_while_boundary_pass:
  assumes "wf_text s" "is_char_boundary s i" "i \<le> length s"
    and "\<And>k. k < length s \<Longrightarrow> p k \<Longrightarrow> is_ascii (s ! k)"
  shows "is_char_boundary s (fwd_while p (length s) i)"
proof (cases "fwd_while p (length s) i = i")
  case True
  with assms(2) show ?thesis by simp
next
  case False
  let ?e = "fwd_while p (length s) i"
  have "i < ?e" using False fwd_while_ge [of i p "length s"] by simp
  moreover have "?e \<le> length s" using assms(3) by (rule fwd_while_le)
  moreover have "p (?e - 1)" by (rule fwd_while_run [of i _ p "length s"]) (use \<open>i < ?e\<close> in auto)
  ultimately show ?thesis
    using boundary_after_ascii [OF assms(1), of "?e - 1"] assms(4) [of "?e - 1"] by simp
qed

lemma fwd_while_boundary_stop:
  assumes "i \<le> length s" and "\<And>k. k < length s \<Longrightarrow> \<not> p k \<Longrightarrow> is_ascii (s ! k)"
  shows "is_char_boundary s (fwd_while p (length s) i)"
  using fwd_while_stop [OF assms(1), of p]
proof (elim disjE conjE)
  assume "fwd_while p (length s) i < length s" "\<not> p (fwd_while p (length s) i)"
  then show ?thesis by (intro boundary_at_ascii assms(2))
qed simp

lemma skip_boundary:
  "wf_text s \<Longrightarrow> is_char_boundary s i \<Longrightarrow> i \<le> length s \<Longrightarrow>
   is_char_boundary s (skip_horizontal_whitespace s i)"
  unfolding skip_horizontal_whitespace_def
  by (rule fwd_while_boundary_pass) (auto intro: ascii_classes)

lemma skip_le: "i \<le> length s \<Longrightarrow> skip_horizontal_whitespace s i \<le> length s"
  unfolding skip_horizontal_whitespace_def by (rule fwd_while_le)

lemma back_while_le: "back_while p s e \<le> e"
  by (induction e) auto

lemma back_while_run: "back_while p s e \<le> k \<Longrightarrow> k < e \<Longrightarrow> p (s ! k)"
  by (induction e) (auto simp: less_Suc_eq split: if_splits)

lemma previous_quote_Some:
  "previous_unescaped_quote s n q = Some k \<Longrightarrow> k < n \<and> s ! k = q"
  by (induction n) (auto split: if_splits)

text \<open>Every range the scanner works with: non-empty, inside the text and on boundaries.\<close>

definition good_range :: "string \<Rightarrow> range \<Rightarrow> bool" where
  "good_range s r \<longleftrightarrow>
     fst r < snd r \<and> snd r \<le> length s \<and> is_char_boundary s (fst r) \<and> is_char_boundary s (snd r)"

lemma good_range_slice: "good_range s (a, b) \<Longrightarrow> str_get s a b = Some (sub s a b)"
  by (simp add: good_range_def str_get_def)

lemma value_starting_at_good:
  assumes wf: "wf_text s" and start: "is_char_boundary s start"
  obtains "value_starting_at s start = Some None"
    | r where "value_starting_at s start = Some (Some r)" "good_range s r"
proof (cases "start < length s \<and> \<not> starts_with (sub s start (length s)) REDACTED")
  case False
  then have "value_starting_at s start = Some None"
    using start by (auto simp: value_starting_at_def str_get_def)
  then show ?thesis by (rule that(1))
next
  case True
  let ?q = "\<lambda>i. \<not> (s ! i = s ! start \<and> \<not> is_escaped s i)"
  let ?u = "\<lambda>i. \<not> is_unquoted_value_delimiter (s ! i)"
  let ?eq = "fwd_while ?q (length s) (start + 1)" and ?eu = "fwd_while ?u (length s) start"
  show ?thesis
  proof (cases "is_quote (s ! start)")
    case quoted: True
    have v: "value_starting_at s start = Some (if start + 1 < ?eq then Some (start + 1, ?eq) else None)"
      using True quoted start by (auto simp: value_starting_at_def str_get_def Let_def)
    have asc: "is_ascii (s ! start)" using quoted by (rule ascii_classes)
    have "is_char_boundary s (start + 1)" using boundary_after_ascii [OF wf _ asc] True by simp
    moreover have "is_char_boundary s ?eq"
      by (rule fwd_while_boundary_stop) (use True asc in auto)
    moreover have "?eq \<le> length s" by (rule fwd_while_le) (use True in simp)
    ultimately show ?thesis using v that by (auto simp: good_range_def split: if_splits)
  next
    case unquoted: False
    have v: "value_starting_at s start = Some (if start < ?eu then Some (start, ?eu) else None)"
      using True unquoted start by (auto simp: value_starting_at_def str_get_def Let_def)
    have "is_char_boundary s ?eu"
      by (rule fwd_while_boundary_stop) (use True in \<open>auto intro: ascii_classes\<close>)
    moreover have "?eu \<le> length s" by (rule fwd_while_le) (use True in simp)
    ultimately show ?thesis using v start that by (auto simp: good_range_def split: if_splits)
  qed
qed

lemma key_before_good:
  assumes wf: "wf_text s" and sep: "separator \<le> length s"
    and key: "key_before_separator s separator = Some r"
  shows "good_range s r"
proof -
  let ?e = "back_while is_horizontal_whitespace s separator"
  have e: "?e \<le> length s" "?e \<noteq> 0"
    using back_while_le [of is_horizontal_whitespace s separator] sep key
    by (auto simp: key_before_separator_def Let_def split: if_splits)
  show ?thesis
  proof (cases "is_quote (s ! (?e - 1))")
    case True
    then obtain oq where
      o: "previous_unescaped_quote s (?e - 1) (s ! (?e - 1)) = Some oq"
        "oq + 1 < ?e - 1" "r = (oq + 1, ?e - 1)"
      using key e by (auto simp: key_before_separator_def Let_def split: if_splits option.splits)
    have asc: "is_ascii (s ! (?e - 1))" using True by (rule ascii_classes)
    have "s ! oq = s ! (?e - 1)" using previous_quote_Some [OF o(1)] by simp
    then have "is_char_boundary s (Suc oq)"
      using boundary_after_ascii [OF wf, of oq] o(2) e asc by simp
    moreover have "is_char_boundary s (?e - 1)" using boundary_at_ascii [of "?e - 1" s] e asc by simp
    ultimately show ?thesis using o e by (simp add: good_range_def)
  next
    case False
    let ?b = "back_while is_key_byte s ?e"
    have b: "?b < ?e" "r = (?b, ?e)"
      using key e False by (auto simp: key_before_separator_def Let_def split: if_splits)
    have "is_ascii (s ! ?b)" "is_ascii (s ! (?e - 1))"
      using b(1) back_while_run [of is_key_byte s ?e ?b] back_while_run [of is_key_byte s ?e "?e - 1"]
      by (auto intro: ascii_classes(1))
    then show ?thesis
      using b e boundary_at_ascii [of ?b s] boundary_after_ascii [OF wf, of "?e - 1"]
      by (simp add: good_range_def)
  qed
qed

lemma unwrap_value_good:
  assumes "wf_text s" "is_char_boundary s start" "good_range s fallback"
  shows "\<exists>r. unwrap_value fallback (value_starting_at s start) = Some r \<and> good_range s r"
  using assms by (cases rule: value_starting_at_good [OF assms(1,2)]) (auto simp: unwrap_value_def)

lemma authorization_good:
  assumes wf: "wf_text s" and v: "good_range s (a, b)"
  shows "\<exists>r. authorization_loop s (a, b) schemes = Some r \<and> good_range s r"
proof (induction schemes)
  case Nil
  let ?p = "\<lambda>i. s ! i \<noteq> CHR 0x0D \<and> s ! i \<noteq> CHR 0x0A"
  have "is_char_boundary s (fwd_while ?p (length s) b)"
    by (rule fwd_while_boundary_stop) (use v in \<open>auto simp: good_range_def\<close>)
  moreover have "fwd_while ?p (length s) b \<le> length s"
    by (rule fwd_while_le) (use v in \<open>simp add: good_range_def\<close>)
  ultimately show ?case
    using v fwd_while_ge [of b ?p "length s"] by (auto simp: good_range_def split: option.splits)
next
  case (Cons scheme schemes)
  let ?v = "sub s a b" and ?n = "length scheme"
  have b: "b \<le> length s" "is_char_boundary s b" "a < b" using v by (auto simp: good_range_def)
  consider (eq) "eq_ignore_ascii_case ?v scheme"
    | (skip) "\<not> eq_ignore_ascii_case ?v scheme"
        "length ?v \<le> ?n \<or> \<not> eq_ignore_ascii_case (take ?n ?v) scheme \<or> \<not> is_horizontal_whitespace (?v ! ?n)"
    | (prefix) "\<not> eq_ignore_ascii_case ?v scheme" "?n < length ?v"
        "eq_ignore_ascii_case (take ?n ?v) scheme" "is_horizontal_whitespace (?v ! ?n)"
    by fastforce
  then show ?case
  proof cases
    case eq
    then show ?thesis
      using unwrap_value_good [OF wf skip_boundary [OF wf b(2,1)] v] by simp
  next
    case skip
    then show ?thesis using Cons.IH by simp
  next
    case prefix
    have pos: "a + ?n < b" using prefix(2) b length_sub [of b s a] by simp
    then have "?v ! ?n = s ! (a + ?n)" using b by (simp add: sub_def)
    then have "is_char_boundary s (a + ?n)"
      using prefix(4) pos b by (auto intro!: boundary_at_ascii ascii_classes(4))
    then have "is_char_boundary s (skip_horizontal_whitespace s (a + ?n))"
      using pos b by (intro skip_boundary wf) auto
    from unwrap_value_good [OF wf this v] prefix show ?thesis by (simp add: Let_def)
  qed
qed

text \<open>A collector that does not panic and finds good ranges only.\<close>

definition finds_good :: "string \<Rightarrow> range list option \<Rightarrow> bool" where
  "finds_good s found \<longleftrightarrow> (\<exists>rs. found = Some rs \<and> (\<forall>r \<in> set rs. good_range s r))"

lemma finds_good_simps [simp]:
  "finds_good s (Some rs) \<longleftrightarrow> (\<forall>r \<in> set rs. good_range s r)" "\<not> finds_good s None"
  by (auto simp: finds_good_def)

lemma finds_good_append:
  "finds_good s found \<Longrightarrow> \<forall>r \<in> set rs. good_range s r \<Longrightarrow> finds_good s (map_option (\<lambda>more. rs @ more) found)"
  by (auto simp: finds_good_def)

lemma collect_good:
  "(\<And>x. x \<in> set xs \<Longrightarrow> finds_good s (f x)) \<Longrightarrow> finds_good s (collect_opt f xs)"
proof (induction xs)
  case (Cons x xs)
  obtain rs where "f x = Some rs" "\<forall>r \<in> set rs. good_range s r"
    using Cons.prems [of x] by (auto simp: finds_good_def)
  with Cons show ?case by (auto intro: finds_good_append)
qed simp

lemma assignment_at_good:
  assumes wf: "wf_text s" and sep: "separator < length s"
  shows "finds_good s (assignment_at s separator)"
proof (cases "(s ! separator = CHR ''='' \<or> s ! separator = CHR '':'') \<and> key_before_separator s separator \<noteq> None")
  case False
  then have "assignment_at s separator = Some []"
    by (cases "key_before_separator s separator") (auto simp: assignment_at_def)
  then show ?thesis by simp
next
  case True
  then obtain ks ke where key: "key_before_separator s separator = Some (ks, ke)" by auto
  have slice: "str_get s ks ke = Some (sub s ks ke)"
    using key_before_good [OF wf _ key] sep by (intro good_range_slice) simp
  have "is_char_boundary s (separator + 1)"
    using boundary_after_ascii [OF wf sep] True by fastforce
  then have start: "is_char_boundary s (skip_horizontal_whitespace s (separator + 1))"
    using sep by (intro skip_boundary wf) simp_all
  have eval: "assignment_at s separator = (case value_after_separator s separator of
      None \<Rightarrow> None | Some None \<Rightarrow> Some []
    | Some (Some value) \<Rightarrow>
        if normalize_key (sub s ks ke) \<in> {''authorization'', ''proxyauthorization''}
        then map_option (\<lambda>r. [r]) (authorization_secret_range s value)
        else Some [value]) \<or> assignment_at s separator = Some []"
    using True by (simp add: assignment_at_def key slice Let_def)
  show ?thesis
  proof (cases rule: value_starting_at_good [OF wf start])
    case 1
    then show ?thesis using eval by (auto simp: value_after_separator_def)
  next
    case (2 r)
    obtain r' where "authorization_secret_range s r = Some r'" "good_range s r'"
      using authorization_good [OF wf, of "fst r" "snd r" "[''bearer'', ''basic'']"] 2(2)
      by (auto simp: authorization_secret_range_def)
    with 2 eval show ?thesis
      by (auto simp: value_after_separator_def split: if_splits)
  qed
qed

lemma scheme_loop_good: "wf_text s \<Longrightarrow> finds_good s (scheme_loop s k cursor)"
proof (induction s k cursor rule: scheme_loop.induct)
  case (1 s k cursor)
  show ?case
  proof (cases "cursor + length (scheme_text k) \<le> length s \<and>
      find_ascii_case_insensitive (drop cursor s) (scheme_text k) \<noteq> None")
    case False
    then have "scheme_loop s k cursor = Some []"
      by (cases "find_ascii_case_insensitive (drop cursor s) (scheme_text k)")
        (auto simp: scheme_loop.simps [of s k cursor])
    then show ?thesis by simp
  next
    case True
    then obtain relative where
      rel: "find_ascii_case_insensitive (drop cursor s) (scheme_text k) = Some relative" by auto
    let ?start = "cursor + relative" and ?after = "cursor + relative + length (scheme_text k)"
    show ?thesis
    proof (cases "is_word_boundary (get_before s ?start) \<and>
        (\<exists>c. get s ?after = Some c \<and> is_horizontal_whitespace c)")
      case False
      then have "\<not> is_word_boundary (get_before s ?start)
          \<or> \<not> (case get s ?after of None \<Rightarrow> False | Some b \<Rightarrow> is_horizontal_whitespace b)"
        by (auto split: option.splits)
      with "1.IH"(1) [of relative ?start ?after] True rel "1.prems" show ?thesis
        by (simp add: scheme_loop.simps [of s k cursor])
    next
      case ok: True
      then obtain c where c: "get s ?after = Some c" "is_horizontal_whitespace c" by auto
      have lt: "?after < length s" using c by (simp add: get_Some_iff)
      have "is_char_boundary s ?after"
        using c lt by (auto simp: get_Some_iff intro!: boundary_at_ascii ascii_classes(4))
      then have start: "is_char_boundary s (skip_horizontal_whitespace s ?after)"
        using lt by (intro skip_boundary "1.prems") simp_all
      show ?thesis
      proof (cases rule: value_starting_at_good [OF "1.prems" start])
        case 1
        with "1.IH"(2) [of relative ?start ?after None] ok True rel c "1.prems" show ?thesis
          by (simp add: scheme_loop.simps [of s k cursor] Let_def)
      next
        case (2 r)
        obtain a b where r: "r = (a, b)" by fastforce
        have "str_get s a b = Some (sub s a b)" using 2 r by (intro good_range_slice) simp
        with 2 "1.IH"(3) [of relative ?start ?after _ "(a, b)" a b] r ok True rel c "1.prems"
        show ?thesis
          by (auto simp: scheme_loop.simps [of s k cursor] Let_def intro!: finds_good_append)
      qed
    qed
  qed
qed

lemma jwt_loop_good: "wf_text s \<Longrightarrow> finds_good s (jwt_loop s cursor)"
proof (induction s cursor rule: jwt_loop.induct)
  case (1 s cursor)
  let ?p = "\<lambda>i. is_base64_url (s ! i) \<or> s ! i = CHR ''.''"
  let ?e = "fwd_while ?p (length s) (cursor + 3)"
  let ?hit = "cursor + 3 \<le> length s \<and> sub s cursor (cursor + 3) = ''eyJ'' \<and> is_token_boundary (get_before s cursor)"
  show ?case
  proof (cases "cursor < length s \<and> ?hit")
    case False
    then show ?thesis using 1 by (auto simp: jwt_loop.simps [of s cursor])
  next
    case True
    then have chars: "s ! cursor = CHR ''e''" "s ! (cursor + 2) = CHR ''J''"
      by (auto simp: sub_def numeral_3_eq_3 Cons_nth_drop_Suc [symmetric] take_Suc_conv_app_nth)
    have "is_char_boundary s cursor" using chars(1) True by (intro boundary_at_ascii) simp_all
    moreover have "is_char_boundary s (cursor + 3)"
      using boundary_after_ascii [OF "1.prems", of "cursor + 2"] chars(2) True by (simp add: numeral_3_eq_3)
    then have "is_char_boundary s ?e"
      using True "1.prems" by (intro fwd_while_boundary_pass) (auto intro: ascii_classes)
    moreover have "?e \<le> length s" "cursor < ?e"
      using True fwd_while_le [of "cursor + 3" "length s" ?p] fwd_while_ge [of "cursor + 3" ?p "length s"] by auto
    ultimately have good: "good_range s (cursor, ?e)" by (simp add: good_range_def)
    note slice = good_range_slice [OF good]
    show ?thesis
    proof (cases "is_jwt_like (sub s cursor ?e) \<and> is_token_boundary (get s ?e)")
      case True
      with \<open>cursor < length s \<and> ?hit\<close> slice "1.IH"(1) [OF _ _ refl slice] "1.prems" good
      have "finds_good s (map_option (\<lambda>rs. [(cursor, ?e)] @ rs) (jwt_loop s ?e))"
        by (intro finds_good_append) auto
      then show ?thesis using True \<open>cursor < length s \<and> ?hit\<close> slice
        by (simp add: jwt_loop.simps [of s cursor] Let_def)
    next
      case False
      with \<open>cursor < length s \<and> ?hit\<close> slice "1.IH"(2) [OF _ _ refl slice] "1.prems" show ?thesis
        by (auto simp add: jwt_loop.simps [of s cursor] Let_def)
    qed
  qed
qed

lemma prefixed_loop_good: "wf_text s \<Longrightarrow> finds_good s (prefixed_loop s cursor)"
proof (induction s cursor rule: prefixed_loop.induct)
  case (1 s cursor)
  let ?p = "\<lambda>i. is_prefixed_token_byte (s ! i)"
  let ?e = "fwd_while ?p (length s) (cursor + 1)"
  show ?case
  proof (cases "cursor < length s \<and> is_prefixed_token_byte (s ! cursor) \<and>
      is_prefixed_token_boundary (get_before s cursor)")
    case False
    then show ?thesis using 1 by (auto simp: prefixed_loop.simps [of s cursor])
  next
    case True
    have asc: "is_ascii (s ! cursor)" using True ascii_classes(3) by simp
    have "is_char_boundary s cursor" using asc True by (intro boundary_at_ascii) simp_all
    moreover have "is_char_boundary s ?e"
      using True "1.prems" boundary_after_ascii [OF "1.prems" _ asc]
      by (intro fwd_while_boundary_pass) (auto intro: ascii_classes)
    moreover have "?e \<le> length s" "cursor < ?e"
      using True fwd_while_le [of "cursor + 1" "length s" ?p] fwd_while_ge [of "cursor + 1" ?p "length s"] by auto
    ultimately have good: "good_range s (cursor, ?e)" by (simp add: good_range_def)
    show ?thesis
      using True good good_range_slice [OF good] "1.IH"(2) [OF _ _ refl good_range_slice [OF good]] "1.prems"
      by (auto simp: prefixed_loop.simps [of s cursor] Let_def intro!: finds_good_append)
  qed
qed

definition raw_ranges :: "string \<Rightarrow> range list option" where
  "raw_ranges s = collect_opt (\<lambda>f. f s) [collect_assignment_ranges, collect_scheme_ranges,
     collect_jwt_ranges, collect_prefixed_credential_ranges]"

lemma secret_ranges_raw: "secret_ranges s = map_option (normalize_ranges s) (raw_ranges s)"
  by (simp only: secret_ranges_def raw_ranges_def)

lemma raw_ranges_good: "wf_text s \<Longrightarrow> finds_good s (raw_ranges s)"
  unfolding raw_ranges_def
  by (intro collect_good) (auto simp: collect_assignment_ranges_def collect_scheme_ranges_def
      collect_jwt_ranges_def collect_prefixed_credential_ranges_def simp del: collect_opt.simps
      intro!: collect_good assignment_at_good scheme_loop_good jwt_loop_good prefixed_loop_good)

lemma collect_opt_member:
  "collect_opt f xs = Some rs \<Longrightarrow> x \<in> set xs \<Longrightarrow> f x = Some ys \<Longrightarrow> set ys \<subseteq> set rs"
  by (induction xs arbitrary: rs) (auto split: option.splits)

lemma collect_opt_defined:
  "collect_opt f xs = Some rs \<Longrightarrow> x \<in> set xs \<Longrightarrow> \<exists>ys. f x = Some ys"
  by (induction xs arbitrary: rs) (auto split: option.splits)

lemma raw_ranges_assignment:
  assumes raw: "raw_ranges s = Some raw" and at: "assignment_at s i = Some rs" "i < length s"
  shows "set rs \<subseteq> set raw"
proof -
  obtain ys where ys: "collect_assignment_ranges s = Some ys"
    using collect_opt_defined [OF raw [unfolded raw_ranges_def], of collect_assignment_ranges] by auto
  have "set rs \<subseteq> set ys"
    using collect_opt_member [OF ys [unfolded collect_assignment_ranges_def] _ at(1)] at(2) by simp
  also have "set ys \<subseteq> set raw"
    using collect_opt_member [OF raw [unfolded raw_ranges_def], of collect_assignment_ranges] ys by simp
  finally show ?thesis .
qed

section \<open>Merged ranges\<close>

definition covered :: "range list \<Rightarrow> nat set" where
  "covered rs = {i. \<exists>r \<in> set rs. fst r \<le> i \<and> i < snd r}"

definition separated :: "range list \<Rightarrow> bool" where
  "separated rs \<longleftrightarrow> sorted_wrt (\<lambda>r r'. snd r < fst r') rs \<and> (\<forall>r \<in> set rs. fst r < snd r)"

lemma covered_Cons: "covered (r # rs) = {fst r..<snd r} \<union> covered rs"
  by (auto simp: covered_def)

lemma covered_Nil [simp]: "covered [] = {}"
  by (simp add: covered_def)

definition merge_result :: "range \<Rightarrow> range list \<Rightarrow> range list \<Rightarrow> bool" where
  "merge_result previous rs merged \<longleftrightarrow>
     separated merged \<and> (\<forall>r \<in> set merged. fst previous \<le> fst r) \<and>
     covered merged = covered (previous # rs) \<and>
     fst ` set merged \<subseteq> fst ` set (previous # rs) \<and> snd ` set merged \<subseteq> snd ` set (previous # rs)"

lemma merge_result_absorb:
  assumes "merge_result (fst previous, max (snd previous) (snd r)) rs merged"
    and "fst previous \<le> fst r" "fst r \<le> snd previous"
  shows "merge_result previous (r # rs) merged"
proof -
  let ?p = "(fst previous, max (snd previous) (snd r))"
  have "covered (?p # rs) = covered (previous # r # rs)"
    using assms(2,3) by (auto simp: covered_Cons)
  moreover have "snd ` set (?p # rs) \<subseteq> snd ` set (previous # r # rs)"
    "fst ` set (?p # rs) \<subseteq> fst ` set (previous # r # rs)" by (auto simp: max_def)
  ultimately show ?thesis
    using assms(1) unfolding merge_result_def fst_conv by (elim conjE) (intro conjI; (rule subset_trans | simp only:)?; assumption?)
qed

lemma merge_result_keep:
  assumes m: "merge_result r rs merged"
    and prev: "fst previous < snd previous" "fst previous \<le> fst r" "snd previous < fst r"
  shows "merge_result previous (r # rs) (previous # merged)"
proof -
  have "\<forall>r' \<in> set merged. fst r \<le> fst r'" using m by (simp add: merge_result_def)
  then have "separated (previous # merged)" "\<forall>r' \<in> set merged. fst previous \<le> fst r'"
    using m prev by (fastforce simp: separated_def merge_result_def)+
  moreover have "covered (previous # merged) = covered (previous # r # rs)"
    using m by (simp add: merge_result_def covered_Cons)
  ultimately show ?thesis using m by (simp add: merge_result_def subset_insertI2)
qed

lemma merge_from_facts:
  "fst previous < snd previous \<Longrightarrow> \<forall>r \<in> set rs. fst r < snd r \<and> fst previous \<le> fst r \<Longrightarrow>
   sorted (map fst rs) \<Longrightarrow> merge_result previous rs (merge_from previous rs)"
proof (induction rs arbitrary: previous)
  case Nil
  then show ?case by (simp add: separated_def merge_result_def)
next
  case (Cons r rs)
  show ?case
  proof (cases "fst r \<le> snd previous")
    case True
    have "merge_result (fst previous, max (snd previous) (snd r)) rs
        (merge_from (fst previous, max (snd previous) (snd r)) rs)"
      by (rule Cons.IH) (use Cons.prems in auto)
    from merge_result_absorb [OF this] Cons.prems True show ?thesis by simp
  next
    case False
    have "merge_result r rs (merge_from r rs)" by (rule Cons.IH) (use Cons.prems in auto)
    from merge_result_keep [OF this] Cons.prems False show ?thesis by simp
  qed
qed

lemma sorted_fst: "sorted rs \<Longrightarrow> sorted (map fst (rs :: range list))"
  by (induction rs) (auto simp: less_eq_prod_def)

lemma normalize_ranges_facts:
  assumes "\<forall>r \<in> set raw. good_range s r"
  shows "separated (normalize_ranges s raw)"
    and "covered (normalize_ranges s raw) = covered (filter (retained_range s) raw)"
    and "\<forall>r \<in> set (normalize_ranges s raw). good_range s r"
proof (atomize (full), cases "sort (filter (retained_range s) raw)")
  case Nil
  then have "filter (retained_range s) raw = []"
    by (metis set_empty set_sort)
  with Nil show "separated (normalize_ranges s raw) \<and>
      covered (normalize_ranges s raw) = covered (filter (retained_range s) raw) \<and>
      (\<forall>r \<in> set (normalize_ranges s raw). good_range s r)"
    by (simp add: normalize_ranges_def separated_def)
next
  case (Cons p rs)
  have sets: "set (p # rs) = set (filter (retained_range s) raw)"
    using Cons by (metis set_sort)
  have good: "\<forall>r \<in> set (p # rs). good_range s r" using assms sets by auto
  have sorted: "sorted (p # rs)" using Cons by (metis sorted_sort)
  have pre: "fst p < snd p" "\<forall>r \<in> set rs. fst r < snd r \<and> fst p \<le> fst r" "sorted (map fst rs)"
    using good sorted_fst [OF sorted] by (auto simp: good_range_def)
  note facts = merge_from_facts [OF pre, unfolded merge_result_def]
  have "covered (p # rs) = covered (filter (retained_range s) raw)"
    unfolding covered_def sets ..
  moreover have "good_range s r" if r: "r \<in> set (merge_from p rs)" for r
  proof -
    obtain x y where "x \<in> set (p # rs)" "fst r = fst x" "y \<in> set (p # rs)" "snd r = snd y"
      using facts r by (meson image_eqI imageE subsetD)
    moreover have "fst r < snd r" using facts r by (auto simp: separated_def)
    moreover have "good_range s x" "good_range s y" using good calculation by blast+
    ultimately show ?thesis by (simp add: good_range_def)
  qed
  ultimately show "separated (normalize_ranges s raw) \<and>
      covered (normalize_ranges s raw) = covered (filter (retained_range s) raw) \<and>
      (\<forall>r \<in> set (normalize_ranges s raw). good_range s r)"
    using facts by (simp add: normalize_ranges_def Cons)
qed

lemma render_from_total:
  "\<forall>r \<in> set rs. good_range s r \<and> cursor \<le> fst r \<Longrightarrow> separated rs \<Longrightarrow> is_char_boundary s cursor \<Longrightarrow>
   cursor \<le> length s \<Longrightarrow> \<exists>t. render_from s cursor rs = Some t"
proof (induction rs arbitrary: cursor)
  case Nil
  then show ?case by (simp add: str_get_def)
next
  case (Cons r rs)
  have "str_get s cursor (fst r) = Some (sub s cursor (fst r))"
    using Cons.prems by (auto simp: str_get_def good_range_def)
  moreover have "\<exists>t. render_from s (snd r) rs = Some t"
    by (rule Cons.IH) (use Cons.prems in \<open>auto simp: good_range_def separated_def\<close>)
  ultimately show ?case by auto
qed

lemma secret_ranges_good:
  assumes "wf_text s"
  obtains rs where "secret_ranges s = Some rs" "separated rs" "\<forall>r \<in> set rs. good_range s r"
  using raw_ranges_good [OF assms] normalize_ranges_facts [of _ s]
  by (auto simp: secret_ranges_raw finds_good_def)

lemma redact_text_some:
  assumes "wf_text s"
  shows "\<exists>c. redact_text s = Some c"
proof -
  obtain rs where rs: "secret_ranges s = Some rs" "separated rs" "\<forall>r \<in> set rs. good_range s r"
    using secret_ranges_good [OF assms] by blast
  then show ?thesis
    using render_from_total [of rs s 0]
    by (cases rs) (auto simp: redact_text_def render_redacted_def simp del: render_from.simps)
qed

lemma back_while_append:
  "list_all p xs \<Longrightarrow> pre = [] \<or> \<not> p (last pre) \<Longrightarrow>
   back_while p (pre @ xs @ post) (length pre + length xs) = length pre"
proof (induction xs arbitrary: post rule: rev_induct)
  case Nil
  then show ?case by (cases pre rule: rev_cases) (auto simp: nth_append)
next
  case (snoc x xs)
  then show ?case using snoc.IH [of "x # post"] by (simp add: nth_append)
qed

lemma back_while_none: "0 < e \<Longrightarrow> \<not> p (s ! (e - 1)) \<Longrightarrow> back_while p s e = e"
  by (cases e) auto

lemma fwd_while_append:
  "\<forall>c \<in> set v. p c \<Longrightarrow> post = [] \<or> \<not> p (hd post) \<Longrightarrow>
   fwd_while (\<lambda>i. p ((pre @ v @ post) ! i)) (length (pre @ v @ post)) (length pre) = length pre + length v"
proof (induction v arbitrary: pre)
  case Nil
  then show ?case by (cases post) (auto simp: fwd_while.simps nth_append)
next
  case (Cons c v)
  then show ?case
    using Cons.IH [of "pre @ [c]"] by (subst fwd_while.simps) (simp add: nth_append)
qed

text \<open>The texts \<open>pre key = value post\<close> whose unquoted value the scanner recognises.\<close>

definition assignment_text :: "string \<Rightarrow> string \<Rightarrow> char \<Rightarrow> string \<Rightarrow> string \<Rightarrow> bool" where
  "assignment_text pre key sep v post \<longleftrightarrow>
     key \<noteq> [] \<and> list_all is_key_byte key \<and> (pre = [] \<or> \<not> is_key_byte (last pre)) \<and>
     (sep = CHR ''='' \<or> sep = CHR '':'') \<and> is_sensitive_key key \<and>
     normalize_key key \<noteq> ''authorization'' \<and> normalize_key key \<noteq> ''proxyauthorization'' \<and>
     v \<noteq> [] \<and> list_all (\<lambda>c. \<not> is_unquoted_value_delimiter c) v \<and>
     (post = [] \<or> is_unquoted_value_delimiter (hd post)) \<and> \<not> starts_with (v @ post) REDACTED"

lemma key_byte_separate:
  "is_key_byte c \<Longrightarrow> \<not> is_horizontal_whitespace c" "is_key_byte c \<Longrightarrow> \<not> is_quote c"
  by (auto simp: is_key_byte_def is_ascii_alphanumeric_def is_ascii_digit_def is_ascii_uppercase_def
      is_ascii_lowercase_def is_horizontal_whitespace_def is_quote_def single_quote_def double_quote_def)

lemma delimiter_classes:
  "is_horizontal_whitespace c \<Longrightarrow> is_unquoted_value_delimiter c" "is_quote c \<Longrightarrow> is_unquoted_value_delimiter c"
  by (auto simp: is_horizontal_whitespace_def is_unquoted_value_delimiter_def is_quote_def is_ascii_whitespace_def)

lemma assignment_key:
  assumes "assignment_text pre key sep v post"
  shows "key_before_separator (pre @ key @ sep # v @ post) (length pre + length key) =
    Some (length pre, length pre + length key)"
proof -
  let ?s = "pre @ key @ sep # v @ post" and ?m = "length pre + length key"
  have a: "key \<noteq> []" "list_all is_key_byte key" "pre = [] \<or> \<not> is_key_byte (last pre)"
    using assms by (auto simp: assignment_text_def)
  then obtain ks k where k: "key = ks @ [k]" by (cases key rule: rev_cases) auto
  then have last: "?s ! (?m - 1) = last key" "is_key_byte (last key)"
    using a(2) by (auto simp: nth_append)
  have m: "0 < ?m" "?m \<noteq> 0" using a(1) by auto
  have "back_while is_horizontal_whitespace ?s ?m = ?m"
    by (rule back_while_none [OF m(1)]) (use last key_byte_separate(1) in simp)
  moreover have "back_while is_key_byte ?s ?m = length pre" by (rule back_while_append [OF a(2,3)])
  ultimately show ?thesis
    using a(1) m(2) last key_byte_separate(2) [OF last(2)] unfolding key_before_separator_def Let_def by simp
qed

lemma assignment_value:
  assumes "assignment_text pre key sep v post" and wf: "wf_text (pre @ key @ sep # v @ post)"
  shows "value_after_separator (pre @ key @ sep # v @ post) (length pre + length key) =
    Some (Some (Suc (length pre + length key), Suc (length pre + length key) + length v))"
proof -
  let ?q = "pre @ key @ [sep]" and ?m = "length pre + length key"
  let ?s = "?q @ v @ post"
  have a: "v \<noteq> []" "\<forall>c \<in> set v. \<not> is_unquoted_value_delimiter c"
      "post = [] \<or> is_unquoted_value_delimiter (hd post)" "\<not> starts_with (v @ post) REDACTED" "is_ascii sep"
    using assms by (auto simp: assignment_text_def list_all_iff)
  have hd: "?s ! Suc ?m = hd v" using a(1) by (cases v) (auto simp: nth_append)
  then have nodelim: "\<not> is_unquoted_value_delimiter (?s ! Suc ?m)" using a(1,2) by simp
  have skip: "skip_horizontal_whitespace ?s (?m + 1) = Suc ?m"
    using nodelim delimiter_classes(1) unfolding skip_horizontal_whitespace_def by (subst fwd_while.simps) auto
  have "is_char_boundary ?s (Suc ?m)"
    using boundary_after_ascii [of ?s ?m] wf a(5) by (simp add: nth_append)
  then have slice: "str_get ?s (Suc ?m) (length ?s) = Some (v @ post)"
    using boundary_ends(2) [of ?s] by (simp add: str_get_def sub_def)
  have "fwd_while (\<lambda>i. \<not> is_unquoted_value_delimiter (?s ! i)) (length ?s) (length ?q) = length ?q + length v"
    by (rule fwd_while_append) (use a in auto)
  then have e: "fwd_while (\<lambda>i. \<not> is_unquoted_value_delimiter (?s ! i)) (length ?s) (Suc ?m) = Suc ?m + length v"
    by simp
  have "value_starting_at ?s (Suc ?m) = Some (Some (Suc ?m, Suc ?m + length v))"
    using slice e a nodelim delimiter_classes(2) unfolding value_starting_at_def Let_def by auto
  then show ?thesis using skip by (simp add: value_after_separator_def)
qed

lemma assignment_found:
  assumes asn: "assignment_text pre key sep v post" and wf: "wf_text (pre @ key @ sep # v @ post)"
  shows "assignment_at (pre @ key @ sep # v @ post) (length pre + length key) =
    Some [(Suc (length pre + length key), Suc (length pre + length key) + length v)]"
proof -
  let ?s = "pre @ key @ sep # v @ post" and ?m = "length pre + length key"
  have sep: "?s ! ?m = sep" "sep = CHR ''='' \<or> sep = CHR '':''"
    using asn by (auto simp: nth_append assignment_text_def)
  have "good_range ?s (length pre, ?m)"
    using key_before_good [OF wf _ assignment_key [OF asn]] by simp
  then have slice: "str_get ?s (length pre) ?m = Some key"
    using good_range_slice by (fastforce simp: sub_def)
  have "is_sensitive_normalized_key (normalize_key key)"
    "normalize_key key \<notin> {''authorization'', ''proxyauthorization''}"
    using asn by (simp_all add: assignment_text_def is_sensitive_key_def)
  then show ?thesis
    using sep by (simp add: assignment_at_def assignment_key [OF asn] slice Let_def assignment_value [OF asn wf])
qed

lemma assignment_retained:
  assumes asn: "assignment_text pre key sep v post" and wf: "wf_text (pre @ key @ sep # v @ post)"
    and good: "good_range (pre @ key @ sep # v @ post) (Suc (length pre + length key), Suc (length pre + length key) + length v)"
  shows "retained_range (pre @ key @ sep # v @ post)
    (Suc (length pre + length key), Suc (length pre + length key) + length v)"
proof -
  have "v \<noteq> REDACTED"
    using asn by (auto simp: assignment_text_def REDACTED_def is_unquoted_value_delimiter_def)
  with good_range_slice [OF good] show ?thesis
    using asn by (simp add: retained_range_def sub_def assignment_text_def)
qed

lemma render_same_outside:
  assumes "length s' = length s" "\<forall>i < length s. i \<notin> covered rs \<longrightarrow> s' ! i = s ! i"
    and "\<forall>r \<in> set rs. good_range s r \<and> good_range s' r \<and> cursor \<le> fst r" "separated rs"
    and "is_char_boundary s cursor" "is_char_boundary s' cursor" "cursor \<le> length s"
    and "\<forall>i < length s. cursor \<le> i \<longrightarrow> i \<notin> covered rs \<longrightarrow> s' ! i = s ! i"
  shows "render_from s' cursor rs = render_from s cursor rs"
  using assms(3-)
proof (induction rs arbitrary: cursor)
  case Nil
  have "sub s' cursor (length s) = sub s cursor (length s)"
    using Nil assms(1) by (intro nth_equalityI) (auto simp: sub_def)
  with Nil assms(1) boundary_ends(2) [of s'] show ?case by (simp add: str_get_def)
next
  case (Cons r rs)
  have r: "good_range s r" "good_range s' r" "cursor \<le> fst r" using Cons.prems by auto
  have free: "i \<notin> covered (r # rs)" if "i < fst r" for i
    using that Cons.prems(2) by (fastforce simp: covered_def separated_def)
  have "sub s' cursor (fst r) = sub s cursor (fst r)"
    using Cons.prems(6) free r assms(1) by (intro nth_equalityI) (auto simp: sub_def good_range_def)
  then have "str_get s' cursor (fst r) = str_get s cursor (fst r)"
    using r Cons.prems by (simp add: str_get_def good_range_def assms(1))
  moreover have "render_from s' (snd r) rs = render_from s (snd r) rs"
    by (rule Cons.IH) (use Cons.prems in \<open>auto simp: good_range_def separated_def covered_Cons\<close>)
  ultimately show ?case by (simp split: option.split)
qed

fun wf_json :: "json \<Rightarrow> bool" where
  "wf_json (String s) = wf_text s"
| "wf_json (Array vs) = (\<forall>v \<in> set vs. wf_json v)"
| "wf_json (Object es) = (\<forall>e \<in> set es. wf_json (snd e))"
| "wf_json _ = True"

text \<open>
  What a redacted value looks like at a depth: only \<^verbatim>\<open>null\<close> or the marker under a sensitive
  key, every other string an output of the text scanner or the marker, and no non-empty container at
  \<^const>\<open>MAX_JSON_DEPTH\<close> or below.
\<close>

fun clean_json :: "nat \<Rightarrow> json \<Rightarrow> bool" where
  "clean_json d (String t) = (t = REDACTED \<or> (\<exists>s c. redact_text s = Some c \<and> t = cow_text c))"
| "clean_json d (Array vs) =
     (if d \<ge> MAX_JSON_DEPTH then vs = [] else \<forall>v \<in> set vs. clean_json (Suc d) v)"
| "clean_json d (Object es) =
     (if d \<ge> MAX_JSON_DEPTH then es = []
      else \<forall>e \<in> set es. if is_sensitive_key (fst e) then snd e = Null \<or> snd e = String REDACTED
                           else clean_json (Suc d) (snd e))"
| "clean_json d _ = True"

lemma redact_text_Borrowed: "redact_text s = Some (Borrowed t) \<Longrightarrow> t = s"
  by (auto simp: redact_text_def split: option.splits list.splits)

lemma as_str_Some: "as_str v = Some t \<Longrightarrow> v = String t"
  by (cases v) auto

lemma redact_named_value_clean:
  "\<exists>c n. redact_named_value v = (c, n) \<and> (c = Null \<or> c = String REDACTED) \<and> (n = 0 \<longrightarrow> c = v)"
  by (auto simp: redact_named_value_def dest: as_str_Some)

lemma redact_json_value_facts:
  "wf_json v \<Longrightarrow> \<exists>v' n. redact_json_value v d = Some (v', n) \<and> clean_json d v' \<and> (n = 0 \<longrightarrow> v' = v)"
  "\<forall>v \<in> set vs. wf_json v \<Longrightarrow> \<exists>vs' n. redact_json_array vs d = Some (vs', n) \<and>
     (\<forall>v \<in> set vs'. clean_json (Suc d) v) \<and> (n = 0 \<longrightarrow> vs' = vs)"
  "\<forall>e \<in> set es. wf_json (snd e) \<Longrightarrow> \<exists>es' n. redact_json_entries es d = Some (es', n) \<and>
     map fst es' = map fst es \<and>
     (\<forall>e \<in> set es'. if is_sensitive_key (fst e) then snd e = Null \<or> snd e = String REDACTED
        else clean_json (Suc d) (snd e)) \<and> (n = 0 \<longrightarrow> es' = es)"
proof (induction v d and vs d and es d rule: redact_json_value_redact_json_array_redact_json_entries.induct)
  case (1 entries depth)
  then show ?case by (cases "depth \<ge> MAX_JSON_DEPTH") auto
next
  case (2 vs depth)
  then show ?case by (cases "depth \<ge> MAX_JSON_DEPTH") auto
next
  case (3 s depth)
  then obtain c where c: "redact_text s = Some c" using redact_text_some by auto
  then have "clean_json depth (String (cow_text c))" by auto
  with c redact_text_Borrowed [of s] show ?case by (cases c) auto
next
  case (8 v vs depth)
  obtain v' n where v: "redact_json_value v (depth + 1) = Some (v', n)" "clean_json (Suc depth) v'"
      "n = 0 \<longrightarrow> v' = v"
    using "8.IH"(1) "8.prems" by auto
  obtain vs' m where "redact_json_array vs depth = Some (vs', m)"
      "\<forall>v \<in> set vs'. clean_json (Suc depth) v" "m = 0 \<longrightarrow> vs' = vs"
    using "8.IH"(2) [OF v(1) refl] "8.prems" by auto
  with v show ?case by simp
next
  case (10 key child es depth)
  let ?r = "if is_sensitive_key key then Some (redact_named_value child) else redact_json_value child (depth + 1)"
  let ?ok = "\<lambda>e. if is_sensitive_key (fst e) then snd e = Null \<or> snd e = String REDACTED
    else clean_json (Suc depth) (snd e)"
  have "wf_json child" using "10.prems" by simp
  then obtain c n where c: "?r = Some (c, n)" "?ok (key, c)" "n = 0 \<longrightarrow> c = child"
    using "10.IH"(1) redact_named_value_clean [of child] by (cases "is_sensitive_key key") auto
  obtain es' m where "redact_json_entries es depth = Some (es', m)" "map fst es' = map fst es"
      "\<forall>e \<in> set es'. ?ok e" "m = 0 \<longrightarrow> es' = es"
    using "10.IH"(2) [OF c(1) refl] "10.prems" by auto
  with c show ?case by simp
qed simp_all

text \<open>
  C5. The text scanner never panics: on a text in which no continuation byte opens the text or
  follows an ASCII byte, every slice it takes is on character boundaries and a result comes back.
\<close>

theorem redact_text_never_panics:
  assumes "wf_text s"
  shows "\<exists>c. redact_text s = Some c"
  using assms by (rule redact_text_some)

lemma redact_text_never_panics_witness:
  "wf_text ''token=abc'' \<and> (\<exists>c. redact_text ''token=abc'' = Some c)"
proof -
  have "wf_text ''token=abc''" by code_simp
  with redact_text_never_panics show ?thesis by blast
qed

text \<open>The ranges the scanner removes cover exactly the bytes of the ranges its collectors found and
  kept; they are non-empty, on character boundaries, in increasing order, and between two of them
  at least one byte is kept.
\<close>

theorem secret_ranges_exact_cover:
  assumes "wf_text s"
  shows "\<exists>raw rs. raw_ranges s = Some raw \<and> secret_ranges s = Some rs \<and>
    covered rs = covered (filter (retained_range s) raw) \<and>
    sorted_wrt (\<lambda>r r'. snd r < fst r') rs \<and> (\<forall>r \<in> set rs. good_range s r)"
proof -
  obtain raw where raw: "raw_ranges s = Some raw" "\<forall>r \<in> set raw. good_range s r"
    using raw_ranges_good [OF assms] by (auto simp: finds_good_def)
  with normalize_ranges_facts [OF raw(2)] show ?thesis
    by (auto simp: secret_ranges_raw separated_def)
qed

lemma secret_ranges_exact_cover_witness:
  "wf_text ''pwd=a'' \<and> (\<exists>raw rs. raw_ranges ''pwd=a'' = Some raw \<and> secret_ranges ''pwd=a'' = Some rs \<and>
    covered rs = covered (filter (retained_range ''pwd=a'') raw) \<and>
    sorted_wrt (\<lambda>r r'. snd r < fst r') rs \<and> (\<forall>r \<in> set rs. good_range ''pwd=a'' r))"
proof -
  have "wf_text ''pwd=a''" by code_simp
  with secret_ranges_exact_cover show ?thesis by blast
qed





text \<open>
  C8. JSON redaction always returns; the result holds only \<^verbatim>\<open>null\<close> or the marker under a
  sensitive key, only scanner output in the other strings and no container below the depth bound,
  and a value for which no change is counted comes back unchanged.
\<close>

theorem redact_json_clean:
  assumes "wf_json v"
  shows "\<exists>v' n. redact_json_in_place v = Some (v', n) \<and> redact_json v = Some v' \<and>
    clean_json 0 v' \<and> (n = 0 \<longrightarrow> v' = v)"
  using redact_json_value_facts(1) [OF assms, of 0]
  by (auto simp: redact_json_in_place_def redact_json_def)

lemma redact_json_clean_witness:
  "wf_json (Object [(''apiKey'', String ''x''), (''n'', Null)]) \<and>
   (\<exists>v' n. redact_json_in_place (Object [(''apiKey'', String ''x''), (''n'', Null)]) = Some (v', n) \<and>
      redact_json (Object [(''apiKey'', String ''x''), (''n'', Null)]) = Some v' \<and>
      clean_json 0 v' \<and> (n = 0 \<longrightarrow> v' = Object [(''apiKey'', String ''x''), (''n'', Null)]))"
proof -
  have "wf_json (Object [(''apiKey'', String ''x''), (''n'', Null)])" by code_simp
  with redact_json_clean show ?thesis by blast
qed

text \<open>
  A value that begins with the marker is taken to be redacted already, so what follows the marker
  in the same value stays.
\<close>

lemma marker_prefix_not_redacted:
  "redact_text ''pwd=[REDACTED]x'' = Some (Borrowed ''pwd=[REDACTED]x'')"
  by code_simp

end
