(* ===== verification/Replay_Log.thy ===== *)
theory Replay_Log
  imports Maestro_Prelude
begin

text \<open>
  Bounded replay logs, as a contract. Two components keep the newest part of a numbered stream
  in memory and drop the oldest entries when a bound is exceeded: the event log of a structured
  session (\<^verbatim>\<open>EventLog\<close> in \<^verbatim>\<open>fake_session.rs\<close>) and the output buffer of a terminal
  (\<^verbatim>\<open>OutputBuffer\<close> in \<^verbatim>\<open>terminal.rs\<close>). Both serve readers that hold a cursor, the sequence
  number they have read up to. The locale states what appending promises; its lemmas say what a
  reader with a cursor gets, in terms of the complete history of the stream.
\<close>

text \<open>The entries after a cursor, as both components select them.\<close>

definition after_cursor :: "('x \<Rightarrow> u64) \<Rightarrow> u64 \<Rightarrow> 'x list \<Rightarrow> 'x list" where
  "after_cursor seq cursor entries = filter (\<lambda>x. seq x > cursor) entries"

text \<open>Appending a list of items one after the other, stopping when an append is refused.\<close>

fun append_all :: "('a \<Rightarrow> 's \<Rightarrow> 's option) \<Rightarrow> 's \<Rightarrow> 'a list \<Rightarrow> 's option" where
  "append_all app s [] = Some s"
| "append_all app s (a # as) = (case app a s of None \<Rightarrow> None | Some s' \<Rightarrow> append_all app s' as)"

lemma append_all_snoc:
  "append_all app s (as @ [a]) = (case append_all app s as of None \<Rightarrow> None | Some s' \<Rightarrow> app a s')"
  by (induction as arbitrary: s) (auto split: option.splits)

text \<open>Sequence numbers count the retained entries without a hole, up to the newest.\<close>

definition numbered :: "('x \<Rightarrow> u64) \<Rightarrow> 'x list \<Rightarrow> u64 \<Rightarrow> u64 \<Rightarrow> bool" where
  "numbered seq entries dropped latest \<longleftrightarrow>
     unat dropped \<le> unat latest \<and>
     map (\<lambda>x. unat (seq x)) entries = [Suc (unat dropped)..<Suc (unat latest)]"

lemma numbered_length:
  "numbered seq entries dropped latest \<Longrightarrow> length entries = unat latest - unat dropped"
  unfolding numbered_def by (metis diff_Suc_Suc length_map length_upt)

lemma numbered_nth:
  assumes "numbered seq entries dropped latest" "i < length entries"
  shows "unat (seq (entries ! i)) = Suc (unat dropped) + i"
proof -
  have "map (\<lambda>x. unat (seq x)) entries ! i = [Suc (unat dropped)..<Suc (unat latest)] ! i"
    using assms(1) by (simp add: numbered_def)
  with assms(2) numbered_length [OF assms(1)] show ?thesis
    by (simp del: upt_Suc)
qed

lemma after_cursor_numbered:
  assumes "numbered seq entries dropped latest" "unat dropped \<le> unat cursor"
  shows "after_cursor seq cursor entries = drop (unat cursor - unat dropped) entries"
proof -
  let ?k = "unat cursor - unat dropped"
  have 1: "filter (\<lambda>x. cursor < seq x) (take ?k entries) = []"
    using numbered_nth [OF assms(1)] assms(2)
    by (auto simp: filter_empty_conv in_set_conv_nth word_less_nat_alt)
  have 2: "filter (\<lambda>x. cursor < seq x) (drop ?k entries) = drop ?k entries"
    using numbered_nth [OF assms(1)] assms(2)
    by (auto simp: filter_id_conv in_set_conv_nth word_less_nat_alt less_diff_conv add.commute)
  show ?thesis
    unfolding after_cursor_def
    by (metis 1 2 append_Nil append_take_drop_id filter_append)
qed

lemma numbered_snoc:
  assumes "numbered seq entries dropped latest" "unat latest + 1 < 2 ^ 64" "unat (seq x) = unat latest + 1"
  shows "numbered seq (entries @ [x]) dropped (latest + 1)"
proof -
  have "unat (latest + 1) = unat latest + 1"
    using assms(2) by (simp add: unat_word_ariths)
  with assms show ?thesis by (auto simp: numbered_def)
qed

lemma numbered_pop:
  assumes "numbered seq (x # entries) dropped latest"
  shows "numbered seq entries (seq x) latest"
proof -
  from assms have eq: "unat (seq x) # map (\<lambda>x. unat (seq x)) entries = [Suc (unat dropped)..<Suc (unat latest)]"
    by (simp add: numbered_def del: upt_Suc)
  then have "Suc (unat dropped) < Suc (unat latest)" by (metis list.distinct(1) upt_rec)
  with eq show ?thesis by (auto simp: numbered_def upt_conv_Cons simp del: upt_Suc)
qed

section \<open>The contract\<close>

locale replay_log =
  fixes inv :: "'s \<Rightarrow> bool"
    and entries :: "'s \<Rightarrow> 'x list"
    and seq :: "'x \<Rightarrow> u64"
    and item :: "'x \<Rightarrow> 'q"
    and latest :: "'s \<Rightarrow> u64"
    and dropped :: "'s \<Rightarrow> u64"
    and app :: "'a \<Rightarrow> 's \<Rightarrow> 's option"
    and want :: "'a \<Rightarrow> 'q"
    and empty :: 's
  assumes inv_empty: "inv empty" "entries empty = []" "latest empty = 0" "dropped empty = 0"
    and inv_numbered: "inv s \<Longrightarrow> numbered seq (entries s) (dropped s) (latest s)"
    and inv_app: "inv s \<Longrightarrow> unat (latest s) + 1 < 2 ^ 64 \<Longrightarrow> app a s = Some s' \<Longrightarrow> inv s'"
    and app_keeps: "inv s \<Longrightarrow> unat (latest s) + 1 < 2 ^ 64 \<Longrightarrow> app a s = Some s' \<Longrightarrow>
      latest s' = latest s + 1 \<and> unat (dropped s) \<le> unat (dropped s') \<and>
      (\<exists>x. item x = want a \<and> entries s' = drop (unat (dropped s') - unat (dropped s)) (entries s @ [x]))"
begin

text \<open>
  The log as a view of the whole history: after the items \<open>as\<close> have been appended to an empty
  log, the retained entries are the history without its first \<open>dropped\<close> items, and \<open>latest\<close>
  counts the history.
\<close>

lemma history:
  assumes "append_all app empty as = Some s" "length as < 2 ^ 64"
  shows "inv s \<and> unat (latest s) = length as \<and> map item (entries s) = drop (unat (dropped s)) (map want as)"
  using assms
proof (induction as arbitrary: s rule: rev_induct)
  case Nil
  then show ?case using inv_empty by simp
next
  case (snoc a as)
  then obtain s0 where s0: "append_all app empty as = Some s0" and s: "app a s0 = Some s"
    by (auto simp: append_all_snoc split: option.splits)
  from snoc.IH [OF s0] snoc.prems(2) have IH: "inv s0" "unat (latest s0) = length as"
      "map item (entries s0) = drop (unat (dropped s0)) (map want as)" by auto
  have room: "unat (latest s0) + 1 < 2 ^ 64" using IH(2) snoc.prems(2) by simp
  obtain x where step: "latest s = latest s0 + 1" "unat (dropped s0) \<le> unat (dropped s)" "item x = want a"
      "entries s = drop (unat (dropped s) - unat (dropped s0)) (entries s0 @ [x])"
    using app_keeps [OF IH(1) room s] by blast
  have d0: "unat (dropped s0) \<le> length as"
    using inv_numbered [OF IH(1)] IH(2) by (simp add: numbered_def)
  have "map item (entries s) =
      drop (unat (dropped s) - unat (dropped s0)) (drop (unat (dropped s0)) (map want as) @ [want a])"
    unfolding step(4) by (simp only: drop_map [symmetric] map_append IH(3) list.map step(3))
  also have "\<dots> = drop (unat (dropped s) - unat (dropped s0)) (drop (unat (dropped s0)) (map want as @ [want a]))"
    using d0 by simp
  also have "\<dots> = drop (unat (dropped s)) (map want (as @ [a]))"
    unfolding drop_drop using step(2) by simp
  finally have "map item (entries s) = drop (unat (dropped s)) (map want (as @ [a]))" .
  moreover have "unat (latest s) = length (as @ [a])"
    using step(1) room IH(2) by (simp add: unat_word_ariths)
  ultimately show ?case using inv_app [OF IH(1) room s] by blast
qed

text \<open>
  What a reader with cursor \<open>c\<close> gets: the history from the later of its cursor and the first
  retained entry on, numbered consecutively.
\<close>

lemma reader:
  fixes c :: u64
  assumes "append_all app empty as = Some s" "length as < 2 ^ 64"
  defines "c' \<equiv> max c (dropped s)"
  shows "map item (after_cursor seq c' (entries s)) = drop (unat c') (map want as)"
    and "map (\<lambda>x. unat (seq x)) (after_cursor seq c' (entries s)) = [Suc (unat c')..<Suc (length as)]"
proof -
  from history [OF assms(1,2)] have inv: "inv s" and lat: "unat (latest s) = length as"
    and hist: "map item (entries s) = drop (unat (dropped s)) (map want as)" by auto
  note num = inv_numbered [OF inv]
  have le: "unat (dropped s) \<le> unat c'" unfolding c'_def by (simp add: word_le_nat_alt [symmetric])
  have sel: "after_cursor seq c' (entries s) = drop (unat c' - unat (dropped s)) (entries s)"
    by (rule after_cursor_numbered [OF num le])
  show "map item (after_cursor seq c' (entries s)) = drop (unat c') (map want as)"
    unfolding sel drop_map [symmetric] hist drop_drop using le by simp
  have "map (\<lambda>x. unat (seq x)) (entries s) = [Suc (unat (dropped s))..<Suc (length as)]"
    using num lat by (simp add: numbered_def)
  then show "map (\<lambda>x. unat (seq x)) (after_cursor seq c' (entries s)) = [Suc (unat c')..<Suc (length as)]"
    unfolding sel drop_map [symmetric] using le by (simp del: upt_Suc)
qed

end

end
