(* ===== verification/Session_Buffers.thy ===== *)
theory Session_Buffers
  imports Redaction Line_Framing Replay_Log
begin

text \<open>
  The bounded buffers of a structured session in \<^verbatim>\<open>crates/maestrod/src/fake_session.rs\<close>: the
  JSON-lines decoder of the child's standard output, the ring of its standard error, the exact-byte
  protocol capture, and the event log with its replay subscriptions.
\<close>

section \<open>The protocol decoder\<close>

record protocol_failure =
  pf_category :: string
  pf_incompatible :: bool

definition protocol_failure_new :: "string \<Rightarrow> bool \<Rightarrow> protocol_failure" where
  "protocol_failure_new category incompatible = \<lparr>pf_category = category, pf_incompatible = incompatible\<rparr>"

record json_line_decoder =
  jd_frame :: bytes
  jd_maximum_frame_bytes :: nat
  jd_failed :: bool

definition json_line_decoder_new :: "nat \<Rightarrow> json_line_decoder" where
  "json_line_decoder_new maximum = \<lparr>jd_frame = [], jd_maximum_frame_bytes = maximum, jd_failed = False\<rparr>"

type_synonym 'v frame_parser = "bytes \<Rightarrow> string + 'v"

text \<open>The loop over the bytes of a chunk: the decoder, the frames and the first failure.\<close>

fun jd_push_loop ::
  "'v frame_parser \<Rightarrow> json_line_decoder \<Rightarrow> bytes \<Rightarrow>
   json_line_decoder \<times> 'v list \<times> protocol_failure option" where
  "jd_push_loop from_slice d [] = (d, [], None)"
| "jd_push_loop from_slice d (byte # rest) =
     (if byte = newline
      then (let frame = strip_carriage_return (jd_frame d) in
            if frame = []
            then (d\<lparr>jd_frame := frame, jd_failed := True\<rparr>, [], Some (protocol_failure_new ''empty_frame'' False))
            else (case from_slice frame of
                    Inl _ \<Rightarrow> (d\<lparr>jd_frame := [], jd_failed := True\<rparr>, [],
                              Some (protocol_failure_new ''malformed_json'' False))
                  | Inr value \<Rightarrow>
                      (case jd_push_loop from_slice (d\<lparr>jd_frame := []\<rparr>) rest of
                         (d', frames, failure) \<Rightarrow> (d', value # frames, failure))))
      else if length (jd_frame d) \<ge> jd_maximum_frame_bytes d
      then (d\<lparr>jd_frame := [], jd_failed := True\<rparr>, [], Some (protocol_failure_new ''oversized_frame'' False))
      else jd_push_loop from_slice (d\<lparr>jd_frame := jd_frame d @ [byte]\<rparr>) rest)"

definition jd_push ::
  "'v frame_parser \<Rightarrow> json_line_decoder \<Rightarrow> bytes \<Rightarrow>
   json_line_decoder \<times> 'v list \<times> protocol_failure option" where
  "jd_push from_slice d bytes =
     (if jd_failed d then (d, [], Some (protocol_failure_new ''decoder_already_failed'' False))
      else jd_push_loop from_slice d bytes)"

definition jd_finish :: "json_line_decoder \<Rightarrow> protocol_failure + unit" where
  "jd_finish d =
     (if jd_failed d then Inl (protocol_failure_new ''decoder_already_failed'' False)
      else if jd_frame d = [] then Inr ()
      else Inl (protocol_failure_new ''truncated_frame'' False))"

definition jd_inv :: "json_line_decoder \<Rightarrow> bool" where
  "jd_inv d \<longleftrightarrow> length (jd_frame d) \<le> jd_maximum_frame_bytes d"

text \<open>What a complete line stands for: an empty frame and malformed JSON are no value.\<close>

definition frame_value :: "'v frame_parser \<Rightarrow> bytes \<Rightarrow> 'v option" where
  "frame_value from_slice line =
     (if strip_carriage_return line = [] then None
      else (case from_slice (strip_carriage_return line) of Inl _ \<Rightarrow> None | Inr v \<Rightarrow> Some v))"

lemma jd_loop_complete:
  "\<not> jd_failed d \<Longrightarrow> split_lines (jd_frame d) chunk = (ls, tail) \<Longrightarrow>
   lines_decode (jd_maximum_frame_bytes d) (frame_value fs) ls vs \<Longrightarrow> length tail \<le> jd_maximum_frame_bytes d \<Longrightarrow>
   \<exists>d'. jd_push_loop fs d chunk = (d', vs, None)"
proof (induction fs d chunk arbitrary: ls vs rule: jd_push_loop.induct)
  case (1 fs d)
  then show ?case by simp
next
  case (2 fs d b rest)
  show ?case
  proof (cases "b = newline")
    case True
    with "2.prems"(2) obtain ls' where s: "split_lines [] rest = (ls', tail)" "ls = jd_frame d # ls'"
      by (auto split: prod.splits)
    with "2.prems"(3) obtain v vs' where vs: "vs = v # vs'" "frame_value fs (jd_frame d) = Some v"
      "lines_decode (jd_maximum_frame_bytes d) (frame_value fs) ls' vs'"
      by (auto simp: lines_decode_Cons)
    from vs(2) have f: "strip_carriage_return (jd_frame d) \<noteq> []" "fs (strip_carriage_return (jd_frame d)) = Inr v"
      by (auto simp: frame_value_def split: if_splits sum.splits)
    obtain d' where "jd_push_loop fs (d\<lparr>jd_frame := []\<rparr>) rest = (d', vs', None)"
      using "2.IH"(1) [OF True refl f(1,2), of ls' vs'] "2.prems"(1,4) s vs by auto
    with True f vs show ?thesis by simp
  next
    case False
    with "2.prems"(2) have s: "split_lines (jd_frame d @ [b]) rest = (ls, tail)" by simp
    have "length (jd_frame d @ [b]) \<le> jd_maximum_frame_bytes d"
      using split_lines_acc_bound [OF s] "2.prems"(3,4) by (simp add: lines_decode_def)
    then have lt: "\<not> jd_maximum_frame_bytes d \<le> length (jd_frame d)" by simp
    then show ?thesis using False "2.IH"(2) [OF False lt, of ls vs] "2.prems"(1,3,4) s by simp
  qed
qed

lemma jd_loop_sound:
  "jd_push_loop fs d chunk = (d', vs, None) \<Longrightarrow> jd_inv d \<Longrightarrow> \<not> jd_failed d \<Longrightarrow>
   jd_inv d' \<and> \<not> jd_failed d' \<and> jd_maximum_frame_bytes d' = jd_maximum_frame_bytes d \<and>
   (\<exists>ls. split_lines (jd_frame d) chunk = (ls, jd_frame d') \<and>
      lines_decode (jd_maximum_frame_bytes d) (frame_value fs) ls vs)"
proof (induction fs d chunk arbitrary: vs rule: jd_push_loop.induct)
  case (1 fs d)
  then show ?case by auto
next
  case (2 fs d b rest)
  show ?case
  proof (cases "b = newline")
    case True
    with "2.prems"(1) obtain v vs' where f: "strip_carriage_return (jd_frame d) \<noteq> []"
        "fs (strip_carriage_return (jd_frame d)) = Inr v"
      and r: "jd_push_loop fs (d\<lparr>jd_frame := []\<rparr>) rest = (d', vs', None)" "vs = v # vs'"
      by (auto simp: Let_def split: if_splits sum.splits prod.splits)
    obtain ls where ls: "jd_inv d'" "\<not> jd_failed d'" "jd_maximum_frame_bytes d' = jd_maximum_frame_bytes d"
        "split_lines [] rest = (ls, jd_frame d')" "lines_decode (jd_maximum_frame_bytes d) (frame_value fs) ls vs'"
      using "2.IH"(1) [OF True refl f r(1)] "2.prems" by (auto simp: jd_inv_def)
    moreover have "frame_value fs (jd_frame d) = Some v" using f by (simp add: frame_value_def)
    moreover have "length (jd_frame d) \<le> jd_maximum_frame_bytes d" using "2.prems"(2) by (simp add: jd_inv_def)
    ultimately show ?thesis
      using True r(2) by (intro conjI exI [of _ "jd_frame d # ls"]) (auto simp: lines_decode_Cons)
  next
    case False
    with "2.prems"(1) have lt: "\<not> jd_maximum_frame_bytes d \<le> length (jd_frame d)"
      and r: "jd_push_loop fs (d\<lparr>jd_frame := jd_frame d @ [b]\<rparr>) rest = (d', vs, None)"
      by (auto split: if_splits)
    with "2.IH"(2) [OF False lt r] "2.prems" False show ?thesis by (auto simp: jd_inv_def)
  qed
qed

lemma strip_length: "length (strip_carriage_return l) \<le> length l"
  by (simp add: strip_carriage_return_def)

lemma jd_loop_error:
  "jd_push_loop fs d chunk = (d', vs, Some e) \<Longrightarrow> jd_inv d \<Longrightarrow> jd_inv d' \<and> jd_failed d'"
proof (induction fs d chunk arbitrary: vs rule: jd_push_loop.induct)
  case (2 fs d b rest)
  then show ?case
    by (auto simp: jd_inv_def Let_def split: if_splits sum.splits prod.splits)
qed simp

interpretation session_decoder: line_decoder jd_inv jd_frame jd_failed jd_maximum_frame_bytes
  "\<lambda>_ _ _. True" "frame_value from_slice" "jd_push from_slice" "\<lambda>d. jd_finish d = Inr ()"
  for from_slice :: "'v frame_parser"
proof (unfold_locales, goal_cases)
  case (1 d chunk ls tail vs)
  then show ?case using jd_loop_complete by (simp add: jd_push_def)
next
  case (2 d chunk d' vs)
  then show ?case using jd_loop_sound by (force simp: jd_push_def split: if_splits)
next
  case (3 d chunk d' vs e)
  then show ?case by (auto simp: jd_push_def split: if_splits dest: jd_loop_error)
next
  case (4 d chunk)
  then show ?case by (simp add: jd_push_def)
next
  case (5 d)
  then show ?case by (simp add: jd_finish_def)
qed

section \<open>Standard error and the raw capture\<close>

record bounded_bytes =
  bb_bytes :: bytes
  bb_truncated :: bool

definition bounded_bytes_default :: bounded_bytes where
  "bounded_bytes_default = \<lparr>bb_bytes = [], bb_truncated = False\<rparr>"

text \<open>The loop that drops from the front until the bytes fit.\<close>

fun bb_trim :: "nat \<Rightarrow> bytes \<Rightarrow> bool \<Rightarrow> bytes \<times> bool" where
  "bb_trim limit [] truncated = ([], truncated)"
| "bb_trim limit (b # bs) truncated =
     (if length (b # bs) > limit then bb_trim limit bs True else (b # bs, truncated))"

definition bb_push :: "bounded_bytes \<Rightarrow> bytes \<Rightarrow> nat \<Rightarrow> bounded_bytes" where
  "bb_push b data limit =
     (if limit = 0 then b\<lparr>bb_truncated := bb_truncated b \<or> data \<noteq> []\<rparr>
      else if length data \<ge> limit
      then \<lparr>bb_bytes = drop (length data - limit) data, bb_truncated = True\<rparr>
      else (case bb_trim limit (bb_bytes b @ data) (bb_truncated b) of
              (bs, t) \<Rightarrow> \<lparr>bb_bytes = bs, bb_truncated = t\<rparr>))"

record raw_capture_state =
  rp_run_id :: run_id
  rp_bytes :: bytes
  rp_observed_byte_count :: u64
  rp_truncated :: bool
  rp_complete :: bool

definition raw_capture_new :: "run_id \<Rightarrow> raw_capture_state" where
  "raw_capture_new run = \<lparr>rp_run_id = run, rp_bytes = [], rp_observed_byte_count = 0,
     rp_truncated = False, rp_complete = False\<rparr>"

definition u64_try_from :: "nat \<Rightarrow> u64" where
  "u64_try_from n = (if n < 2 ^ 64 then of_nat n else - 1)"

definition raw_capture_push :: "raw_capture_state \<Rightarrow> bytes \<Rightarrow> nat \<Rightarrow> raw_capture_state" where
  "raw_capture_push c input limit =
     (let input_length = u64_try_from (length input);
          next_observed = saturating_add (rp_observed_byte_count c) input_length;
          truncated = (rp_truncated c \<or> (next_observed = - 1 \<and> input_length \<noteq> 0));
          remaining = limit - length (rp_bytes c);
          retained = min remaining (length input)
      in c\<lparr>rp_bytes := rp_bytes c @ take retained input, rp_observed_byte_count := next_observed,
           rp_truncated := truncated \<or> retained < length input\<rparr>)"

section \<open>The event log\<close>

record event_log =
  el_retained :: "event_envelope list"
  el_latest_sequence :: u64
  el_dropped_through_sequence :: u64

definition event_log_new :: event_log where
  "event_log_new = \<lparr>el_retained = [], el_latest_sequence = 0, el_dropped_through_sequence = 0\<rparr>"

text \<open>
  The redaction of a payload. \<^const>\<open>redact_json\<close> is undefined only where the text scanner panics,
  which it does not on the strings of a JSON value; the marker stands in for that case.
\<close>

definition redact_payload :: "json \<Rightarrow> json" where
  "redact_payload v = (case redact_json v of Some v' \<Rightarrow> v' | None \<Rightarrow> String REDACTED)"

text \<open>The loop that drops the oldest events beyond the bound and notes the last one dropped.\<close>

fun drop_oldest :: "nat \<Rightarrow> event_envelope list \<Rightarrow> u64 \<Rightarrow> event_envelope list \<times> u64" where
  "drop_oldest limit [] dropped = ([], dropped)"
| "drop_oldest limit (e # es) dropped =
     (if length (e # es) > limit then drop_oldest limit es (env_sequence e) else (e # es, dropped))"

text \<open>
  One publication: the correlation identifier of an error, the event identifier and the time stamp
  are drawn by the caller. The result is the envelope that is also sent to the live channel.
\<close>

record publication =
  pub_cid :: uuid
  pub_event_id :: event_id
  pub_now :: date_time
  pub_run_id :: "run_id option"
  pub_source :: event_source
  pub_event :: normalized_event

definition publish_log ::
  "session_id \<Rightarrow> nat \<Rightarrow> publication \<Rightarrow> event_log \<Rightarrow> (maestro_error + event_envelope) \<times> event_log" where
  "publish_log session replay_events p log =
     (let event = (pub_event p)\<lparr>ev_payload := redact_payload (ev_payload (pub_event p))\<rparr> in
      case checked_add (el_latest_sequence log) 1 of
        None \<Rightarrow> (Inl (maestro_error_new (pub_cid p) Internal ''session sequence exhausted''), log)
      | Some sequence \<Rightarrow>
          let envelope = event_envelope_new (pub_event_id p) (pub_now p) session (pub_run_id p) sequence
                (pub_source p) event
          in case drop_oldest replay_events (el_retained log @ [envelope]) (el_dropped_through_sequence log) of
               (retained, dropped) \<Rightarrow>
                 (Inr envelope, \<lparr>el_retained = retained, el_latest_sequence = sequence,
                                 el_dropped_through_sequence = dropped\<rparr>))"

record replay_gap =
  requested_after_sequence :: u64
  available_after_sequence :: u64

definition subscribe_log ::
  "uuid \<Rightarrow> u64 \<Rightarrow> event_log \<Rightarrow> maestro_error + (event_envelope list \<times> replay_gap option)" where
  "subscribe_log cid after_sequence log =
     (if after_sequence > el_latest_sequence log
      then Inl (maestro_error_new cid InvalidRequest ''the replay cursor is newer than the session event stream'')
      else let gap = (if after_sequence < el_dropped_through_sequence log
                      then Some \<lparr>requested_after_sequence = after_sequence,
                                 available_after_sequence = el_dropped_through_sequence log\<rparr>
                      else None);
               cursor = max after_sequence (el_dropped_through_sequence log)
           in Inr (filter (\<lambda>e. env_sequence e > cursor) (el_retained log), gap))"

text \<open>What an envelope says of the publication it comes from, apart from its number.\<close>

definition envelope_item :: "event_envelope \<Rightarrow> run_id option \<times> event_source \<times> normalized_event" where
  "envelope_item e = (env_run_id e, env_source e, env_event e)"

definition published_item :: "publication \<Rightarrow> run_id option \<times> event_source \<times> normalized_event" where
  "published_item p =
     (pub_run_id p, pub_source p, (pub_event p)\<lparr>ev_payload := redact_payload (ev_payload (pub_event p))\<rparr>)"

definition event_log_inv :: "nat \<Rightarrow> event_log \<Rightarrow> bool" where
  "event_log_inv limit log \<longleftrightarrow>
     numbered env_sequence (el_retained log) (el_dropped_through_sequence log) (el_latest_sequence log) \<and>
     length (el_retained log) \<le> limit"

definition publish_append :: "session_id \<Rightarrow> nat \<Rightarrow> publication \<Rightarrow> event_log \<Rightarrow> event_log option" where
  "publish_append session limit p log =
     (case publish_log session limit p log of (Inl _, _) \<Rightarrow> None | (Inr _, log') \<Rightarrow> Some log')"

lemma drop_oldest_facts:
  "numbered env_sequence es dropped latest \<Longrightarrow> drop_oldest limit es dropped = (es', dropped') \<Longrightarrow>
   numbered env_sequence es' dropped' latest \<and> unat dropped \<le> unat dropped' \<and>
   es' = drop (unat dropped' - unat dropped) es \<and> length es' \<le> limit"
proof (induction limit es dropped rule: drop_oldest.induct)
  case (1 limit dropped)
  then show ?case by simp
next
  case (2 limit e es dropped)
  show ?case
  proof (cases "length (e # es) > limit")
    case True
    have e: "unat (env_sequence e) = Suc (unat dropped)"
      using numbered_nth [OF "2.prems"(1), of 0] by simp
    have "drop_oldest limit es (env_sequence e) = (es', dropped')" using True "2.prems"(2) by simp
    from "2.IH" [OF True numbered_pop [OF "2.prems"(1)] this] e show ?thesis
      by (auto simp: drop_Cons' Suc_diff_le)
  next
    case False
    with "2.prems" show ?thesis by auto
  qed
qed

lemma publish_append_facts:
  assumes "event_log_inv limit log" "unat (el_latest_sequence log) + 1 < 2 ^ 64"
    and "publish_append session limit p log = Some log'"
  shows "event_log_inv limit log' \<and> el_latest_sequence log' = el_latest_sequence log + 1 \<and>
    unat (el_dropped_through_sequence log) \<le> unat (el_dropped_through_sequence log') \<and>
    (\<exists>x. envelope_item x = published_item p \<and>
       el_retained log' = drop (unat (el_dropped_through_sequence log') - unat (el_dropped_through_sequence log))
         (el_retained log @ [x]))"
proof -
  let ?seq = "el_latest_sequence log + 1"
  let ?x = "event_envelope_new (pub_event_id p) (pub_now p) session (pub_run_id p) ?seq (pub_source p)
    ((pub_event p)\<lparr>ev_payload := redact_payload (ev_payload (pub_event p))\<rparr>)"
  have chk: "checked_add (el_latest_sequence log) 1 = Some ?seq"
    using assms(2) by (simp add: checked_add_def)
  obtain r d where t: "drop_oldest limit (el_retained log @ [?x]) (el_dropped_through_sequence log) = (r, d)"
    by fastforce
  have log': "log' = \<lparr>el_retained = r, el_latest_sequence = ?seq, el_dropped_through_sequence = d\<rparr>"
    using assms(3) chk t by (simp add: publish_append_def publish_log_def Let_def)
  have "unat ?seq = unat (el_latest_sequence log) + 1" using assms(2) by (simp add: unat_word_ariths)
  then have "numbered env_sequence (el_retained log @ [?x]) (el_dropped_through_sequence log) ?seq"
    using assms(1,2) by (intro numbered_snoc) (auto simp: event_log_inv_def)
  from drop_oldest_facts [OF this t] log' show ?thesis
    by (auto simp: event_log_inv_def envelope_item_def published_item_def event_envelope_new_def intro!: exI [of _ ?x])
qed

interpretation session_log: replay_log "event_log_inv limit" el_retained env_sequence envelope_item
  el_latest_sequence el_dropped_through_sequence "publish_append session limit" published_item event_log_new
  for session :: session_id and limit :: nat
proof (unfold_locales, goal_cases)
  case 1
  then show ?case by (simp add: event_log_inv_def event_log_new_def numbered_def)
next
  case (5 s)
  then show ?case by (simp add: event_log_inv_def)
next
  case (6 s a s')
  then show ?case using publish_append_facts by blast
next
  case (7 s a s')
  then show ?case using publish_append_facts by blast
qed (simp_all add: event_log_new_def)

section \<open>Properties\<close>

text \<open>The session decoder and the reference framing agree: whatever the chunks, a fresh decoder
  returns the values \<open>vs\<close> and accepts the end of the stream exactly when the stream is a sequence of
  complete lines, none longer than the limit and none empty, with the values \<open>vs\<close>.
\<close>

theorem session_decoder_exact:
  "(\<exists>d. run_chunks (jd_push from_slice) (json_line_decoder_new n) chunks = (d, vs, None) \<and> jd_finish d = Inr ()) \<longleftrightarrow>
   (\<exists>ls. split_lines [] (concat chunks) = (ls, []) \<and> lines_decode n (frame_value from_slice) ls vs)"
  (is "?run \<longleftrightarrow> ?framed")
proof
  have new: "jd_inv (json_line_decoder_new n)" "\<not> jd_failed (json_line_decoder_new n)"
    "jd_frame (json_line_decoder_new n) = []" "jd_maximum_frame_bytes (json_line_decoder_new n) = n"
    by (simp_all add: json_line_decoder_new_def jd_inv_def)
  have adm: "admissible_chunks (\<lambda>_ _. True) acc cs" for acc cs
    by (induction cs arbitrary: acc) auto
  show ?framed if ?run
    using that session_decoder.stream_sound [OF _ new(1-3)] new(4) by auto
  show ?run if ?framed
    using that session_decoder.run_clean [OF new(1,2), of chunks _ "[]" from_slice vs] new(3,4) adm
    by (auto simp: jd_finish_def)
qed


definition sample_publication :: "json \<Rightarrow> publication" where
  "sample_publication payload = \<lparr>pub_cid = 0, pub_event_id = EventId 1, pub_now = 0, pub_run_id = None,
     pub_source = Daemon, pub_event = normalized_event_user ''message'' payload\<rparr>"


lemma bb_trim_eq:
  "bb_trim limit bs t = (drop (length bs - limit) bs, t \<or> limit < length bs)"
proof (induction limit bs t rule: bb_trim.induct)
  case (2 limit b bs t)
  then show ?case by (cases "length (b # bs) > limit") (auto simp: Suc_diff_le)
qed simp

lemma bb_push_suffix:
  assumes "bb_bytes b = drop (length s - limit) s" "bb_truncated b \<or> length s \<le> limit"
  shows "bb_bytes (bb_push b data limit) = drop (length (s @ data) - limit) (s @ data) \<and>
    (bb_truncated (bb_push b data limit) \<or> length (s @ data) \<le> limit)"
  using assms by (cases "length s \<le> limit") (auto simp: bb_push_def bb_trim_eq add.commute)

lemma stderr_ring_is_suffix:
  "let b = foldl (\<lambda>b data. bb_push b data limit) bounded_bytes_default chunks in
   bb_bytes b = drop (length (concat chunks) - limit) (concat chunks) \<and>
   (bb_truncated b \<or> bb_bytes b = concat chunks)"
proof -
  let ?run = "foldl (\<lambda>b data. bb_push b data limit) bounded_bytes_default"
  have "bb_bytes (?run chunks) = drop (length (concat chunks) - limit) (concat chunks) \<and>
    (bb_truncated (?run chunks) \<or> length (concat chunks) \<le> limit)"
  proof (induction chunks rule: rev_induct)
    case Nil
    then show ?case by (simp add: bounded_bytes_default_def)
  next
    case (snoc data chunks)
    then show ?case
      using bb_push_suffix [of "?run chunks" "concat chunks" limit data] by simp
  qed
  then show ?thesis by (auto simp: Let_def)
qed

text \<open>A single write of exactly the limit is reported as truncated although no byte is lost.\<close>

lemma bb_full_write_reports_truncation:
  "0 < limit \<Longrightarrow> length data = limit \<Longrightarrow>
   bb_push bounded_bytes_default data limit = \<lparr>bb_bytes = data, bb_truncated = True\<rparr>"
  by (simp add: bb_push_def)

definition capture_chunks :: "run_id \<Rightarrow> nat \<Rightarrow> bytes list \<Rightarrow> raw_capture_state" where
  "capture_chunks run limit chunks = foldl (\<lambda>c input. raw_capture_push c input limit) (raw_capture_new run) chunks"

lemma unat_u64_try_from: "unat (u64_try_from n) = min n (2 ^ 64 - 1)"
  by (auto simp: u64_try_from_def unat_of_nat unsigned_minus_1_eq_mask mask_eq_exp_minus_1)

lemma u64_max_iff: "(x :: u64) = - 1 \<longleftrightarrow> unat x = 2 ^ 64 - 1"
  by (simp add: word_unat_eq_iff unsigned_minus_1_eq_mask mask_eq_exp_minus_1)

lemma raw_capture_push_facts:
  fixes input :: bytes
  assumes "rp_bytes c = take limit s" "unat (rp_observed_byte_count c) = min (length s) (2 ^ 64 - 1)"
    and "rp_truncated c \<longleftrightarrow> limit < length s \<or> 2 ^ 64 - 1 \<le> length s"
  defines "c' \<equiv> raw_capture_push c input limit"
  shows "rp_bytes c' = take limit (s @ input)"
    and "unat (rp_observed_byte_count c') = min (length (s @ input)) (2 ^ 64 - 1)"
    and "rp_truncated c' \<longleftrightarrow> limit < length (s @ input) \<or> 2 ^ 64 - 1 \<le> length (s @ input)"
proof -
  show "rp_bytes c' = take limit (s @ input)"
    using assms(1) by (simp add: c'_def raw_capture_push_def Let_def min_def)
  have obs: "unat (saturating_add (rp_observed_byte_count c) (u64_try_from (length input))) =
      min (length (s @ input)) (2 ^ 64 - 1)"
    using assms(2) by (simp add: unat_saturating_add unat_u64_try_from min_def)
  then show "unat (rp_observed_byte_count c') = min (length (s @ input)) (2 ^ 64 - 1)"
    by (simp add: c'_def raw_capture_push_def Let_def)
  have zero: "u64_try_from (length input) \<noteq> 0 \<longleftrightarrow> input \<noteq> []"
    using unat_u64_try_from [of "length input"] by (auto simp: unat_eq_zero [symmetric] min_def split: if_splits)
  have "rp_truncated c' \<longleftrightarrow> rp_truncated c \<or> (2 ^ 64 - 1 \<le> length (s @ input) \<and> input \<noteq> []) \<or>
      min (limit - length (take limit s)) (length input) < length input"
    using obs zero assms(1) by (simp add: c'_def raw_capture_push_def Let_def u64_max_iff min_def)
  then show "rp_truncated c' \<longleftrightarrow> limit < length (s @ input) \<or> 2 ^ 64 - 1 \<le> length (s @ input)"
    using assms(3) by (cases input) auto
qed

lemma raw_capture_is_prefix:
  "rp_bytes (capture_chunks run limit chunks) = take limit (concat chunks) \<and>
   unat (rp_observed_byte_count (capture_chunks run limit chunks)) = min (length (concat chunks)) (2 ^ 64 - 1) \<and>
   (rp_truncated (capture_chunks run limit chunks) \<longleftrightarrow>
      limit < length (concat chunks) \<or> 2 ^ 64 - 1 \<le> length (concat chunks))"
proof (induction chunks rule: rev_induct)
  case Nil
  then show ?case by (simp add: capture_chunks_def raw_capture_new_def)
next
  case (snoc input chunks)
  then show ?case
    using raw_capture_push_facts [of "capture_chunks run limit chunks" limit "concat chunks" input]
    by (simp add: capture_chunks_def)
qed

text \<open>
  What a session keeps of its child's raw output, whatever the reads: the standard-error ring holds
  exactly the last bytes of the stream up to its limit, and if it is not flagged as truncated, the
  whole stream; the raw protocol capture holds exactly the first bytes up to its limit, counts every
  byte observed (saturating), and reports a truncation exactly when bytes were left out or the counter
  reached its maximum.
\<close>

theorem session_stream_records:
  "(let b = foldl (\<lambda>b data. bb_push b data limit) bounded_bytes_default chunks in
    bb_bytes b = drop (length (concat chunks) - limit) (concat chunks) \<and>
    (bb_truncated b \<or> bb_bytes b = concat chunks)) \<and>
   (let c = capture_chunks run limit chunks in
    rp_bytes c = take limit (concat chunks) \<and>
    unat (rp_observed_byte_count c) = min (length (concat chunks)) (2 ^ 64 - 1) \<and>
    (rp_truncated c \<longleftrightarrow> limit < length (concat chunks) \<or> 2 ^ 64 - 1 \<le> length (concat chunks)))"
  using stderr_ring_is_suffix [of limit chunks] raw_capture_is_prefix [of run limit chunks] unfolding Let_def by blast

end
