(* ===== verification/Pending.thy ===== *)
theory Pending
  imports Session_State Domain_Types
begin

text \<open>
  \<^verbatim>\<open>PendingTracker\<close> of \<^verbatim>\<open>crates/maestrod/src/fake_session.rs\<close>: the requests of a structured run
  that wait for an answer, those whose answer is being delivered, and a bounded memory of the
  identifiers that have been used. Each operation returns its result and the new tracker; the reading
  of the clock is an argument.
\<close>

datatype pending_kind = PendPermission | PendUserInput | PendGuiAction

fun pending_label :: "pending_kind \<Rightarrow> string" where
  "pending_label PendPermission = ''permission''"
| "pending_label PendUserInput = ''user_input''"
| "pending_label PendGuiAction = ''gui_action''"

record pending_request =
  pr_kind :: pending_kind
  pr_deadline :: instant

type_synonym pending_key = "string \<times> pending_kind"

record pending_tracker =
  pt_active :: "string \<rightharpoonup> pending_request"
  pt_in_flight :: "string \<rightharpoonup> pending_request"
  pt_resolved_order :: "pending_key list"
  pt_resolved :: "pending_key set"
  pt_delivery_uncertain :: "pending_key set"
  pt_capacity :: nat

definition invalid_request :: "uuid \<Rightarrow> string \<Rightarrow> maestro_error" where
  "invalid_request cid message = maestro_error_new cid InvalidRequest message"

definition pending_tracker_new :: "nat \<Rightarrow> pending_tracker" where
  "pending_tracker_new capacity =
     \<lparr>pt_active = Map.empty, pt_in_flight = Map.empty, pt_resolved_order = [], pt_resolved = {},
      pt_delivery_uncertain = {}, pt_capacity = capacity\<rparr>"

text \<open>The loop that forgets the oldest keys beyond the capacity.\<close>

fun forget_oldest ::
  "nat \<Rightarrow> pending_key list \<Rightarrow> pending_key set \<Rightarrow> pending_key set \<Rightarrow>
   pending_key list \<times> pending_key set \<times> pending_key set" where
  "forget_oldest capacity [] resolved uncertain = ([], resolved, uncertain)"
| "forget_oldest capacity (k # ks) resolved uncertain =
     (if length (k # ks) > capacity then forget_oldest capacity ks (resolved - {k}) (uncertain - {k})
      else (k # ks, resolved, uncertain))"

definition forget_expired :: "pending_tracker \<Rightarrow> pending_tracker" where
  "forget_expired t =
     (case forget_oldest (pt_capacity t) (pt_resolved_order t) (pt_resolved t) (pt_delivery_uncertain t) of
        (ks, r, u) \<Rightarrow> t\<lparr>pt_resolved_order := ks, pt_resolved := r, pt_delivery_uncertain := u\<rparr>)"

definition remember_resolved :: "string \<Rightarrow> pending_kind \<Rightarrow> pending_tracker \<Rightarrow> pending_tracker" where
  "remember_resolved request_id kind t =
     (let key = (request_id, kind) in
      forget_expired
        (if key \<in> pt_resolved t then t
         else t\<lparr>pt_resolved := insert key (pt_resolved t), pt_resolved_order := pt_resolved_order t @ [key]\<rparr>))"

definition remember_delivery_uncertain :: "string \<Rightarrow> pending_kind \<Rightarrow> pending_tracker \<Rightarrow> pending_tracker" where
  "remember_delivery_uncertain request_id kind t =
     (let key = (request_id, kind) in
      forget_expired
        (if key \<in> pt_delivery_uncertain t then t
         else t\<lparr>pt_delivery_uncertain := insert key (pt_delivery_uncertain t),
                pt_resolved_order := pt_resolved_order t @ [key]\<rparr>))"

definition pending_register ::
  "uuid \<Rightarrow> string \<Rightarrow> pending_kind \<Rightarrow> instant \<Rightarrow> pending_tracker \<Rightarrow> (maestro_error + unit) \<times> pending_tracker" where
  "pending_register cid request_id kind deadline t =
     (if card (dom (pt_active t)) + card (dom (pt_in_flight t)) \<ge> pt_capacity t
      then (Inl (invalid_request cid ''too many pending structured requests''), t)
      else if pt_active t request_id \<noteq> None \<or> pt_in_flight t request_id \<noteq> None
        \<or> (request_id, kind) \<in> pt_resolved t \<or> (request_id, kind) \<in> pt_delivery_uncertain t
      then (Inl (invalid_request cid ''the structured request ID is not unique''), t)
      else (Inr (), t\<lparr>pt_active := (pt_active t)(request_id \<mapsto> \<lparr>pr_kind = kind, pr_deadline = deadline\<rparr>)\<rparr>))"

definition claim_active ::
  "uuid \<Rightarrow> instant \<Rightarrow> string \<Rightarrow> pending_kind \<Rightarrow> pending_tracker \<Rightarrow> (maestro_error + unit) \<times> pending_tracker" where
  "claim_active cid now request_id kind t =
     (case pt_active t request_id of
        None \<Rightarrow> (Inl (invalid_request cid ''the structured request is unknown or already used''), t)
      | Some pending \<Rightarrow>
          if pr_kind pending \<noteq> kind \<or> pr_deadline pending \<le> now
          then (Inl (invalid_request cid ''the structured request is expired or has the wrong type''), t)
          else (Inr (), t\<lparr>pt_active := (pt_active t)(request_id := None),
                         pt_in_flight := (pt_in_flight t)(request_id \<mapsto> pending)\<rparr>))"

text \<open>\<^verbatim>\<open>map.get(id).is_some_and(|pending| pending.kind == kind)\<close>\<close>

definition has_kind :: "(string \<rightharpoonup> pending_request) \<Rightarrow> string \<Rightarrow> pending_kind \<Rightarrow> bool" where
  "has_kind m request_id kind = (case m request_id of None \<Rightarrow> False | Some p \<Rightarrow> pr_kind p = kind)"

definition restore_in_flight :: "string \<Rightarrow> pending_kind \<Rightarrow> pending_tracker \<Rightarrow> bool \<times> pending_tracker" where
  "restore_in_flight request_id kind t =
     (if \<not> has_kind (pt_in_flight t) request_id kind then (False, t)
      else (True, t\<lparr>pt_in_flight := (pt_in_flight t)(request_id := None),
                    pt_active := (pt_active t)(request_id := pt_in_flight t request_id)\<rparr>))"

definition resolve_in_flight ::
  "uuid \<Rightarrow> string \<Rightarrow> pending_kind \<Rightarrow> pending_tracker \<Rightarrow> (maestro_error + unit) \<times> pending_tracker" where
  "resolve_in_flight cid request_id kind t =
     (if (request_id, kind) \<in> pt_resolved t then (Inr (), t)
      else if \<not> has_kind (pt_in_flight t) request_id kind
      then (Inl (invalid_request cid ''the structured request is no longer in flight''), t)
      else (Inr (), remember_resolved request_id kind (t\<lparr>pt_in_flight := (pt_in_flight t)(request_id := None)\<rparr>)))"

definition mark_delivery_uncertain :: "string \<Rightarrow> pending_kind \<Rightarrow> pending_tracker \<Rightarrow> bool \<times> pending_tracker" where
  "mark_delivery_uncertain request_id kind t =
     (if (request_id, kind) \<in> pt_resolved t then (True, t)
      else if has_kind (pt_in_flight t) request_id kind
      then (False, remember_delivery_uncertain request_id kind
                     (t\<lparr>pt_in_flight := (pt_in_flight t)(request_id := None)\<rparr>))
      else (False, t))"

definition resolve_active ::
  "uuid \<Rightarrow> instant \<Rightarrow> string \<Rightarrow> pending_kind \<Rightarrow> pending_tracker \<Rightarrow> (maestro_error + unit) \<times> pending_tracker" where
  "resolve_active cid now request_id kind t =
     (case pt_active t request_id of
        None \<Rightarrow> (Inl (invalid_request cid ''the structured request is unknown or already used''), t)
      | Some pending \<Rightarrow>
          if pr_kind pending \<noteq> kind \<or> pr_deadline pending \<le> now
          then (Inl (invalid_request cid ''the structured request is expired or has the wrong type''), t)
          else (Inr (), remember_resolved request_id kind (t\<lparr>pt_active := (pt_active t)(request_id := None)\<rparr>)))"

definition force_resolve :: "string \<Rightarrow> pending_kind \<Rightarrow> pending_tracker \<Rightarrow> pending_tracker" where
  "force_resolve request_id kind t =
     (if has_kind (pt_active t) request_id kind
      then remember_resolved request_id kind (t\<lparr>pt_active := (pt_active t)(request_id := None)\<rparr>) else t)"

definition pending_expire :: "string \<Rightarrow> pending_kind \<Rightarrow> instant \<Rightarrow> pending_tracker \<Rightarrow> bool \<times> pending_tracker" where
  "pending_expire request_id kind now t =
     (case pt_active t request_id of
        None \<Rightarrow> (False, t)
      | Some pending \<Rightarrow>
          if \<not> (pr_kind pending = kind \<and> pr_deadline pending \<le> now) then (False, t)
          else (True, remember_resolved request_id kind (t\<lparr>pt_active := (pt_active t)(request_id := None)\<rparr>)))"

definition confirm_resolved :: "string \<Rightarrow> pending_kind \<Rightarrow> pending_tracker \<Rightarrow> bool \<times> pending_tracker" where
  "confirm_resolved request_id kind t =
     (let key = (request_id, kind) in
      if key \<in> pt_resolved t then (True, t)
      else if key \<in> pt_delivery_uncertain t
      then (True, t\<lparr>pt_delivery_uncertain := pt_delivery_uncertain t - {key},
                    pt_resolved := insert key (pt_resolved t)\<rparr>)
      else if has_kind (pt_in_flight t) request_id kind
      then (True, remember_resolved request_id kind (t\<lparr>pt_in_flight := (pt_in_flight t)(request_id := None)\<rparr>))
      else (False, t))"

definition waits_for :: "pending_kind \<Rightarrow> pending_tracker \<Rightarrow> bool" where
  "waits_for kind t \<longleftrightarrow> (\<exists>p \<in> ran (pt_active t) \<union> ran (pt_in_flight t). pr_kind p = kind)"

definition waiting_state :: "pending_tracker \<Rightarrow> session_state option" where
  "waiting_state t =
     (if waits_for PendPermission t then Some AwaitingPermission
      else if waits_for PendUserInput t then Some AwaitingUserInput
      else None)"

definition clear_active :: "pending_tracker \<Rightarrow> pending_tracker" where
  "clear_active t = t\<lparr>pt_active := Map.empty, pt_in_flight := Map.empty\<rparr>"

section \<open>Invariant\<close>

definition pending_inv :: "pending_tracker \<Rightarrow> bool" where
  "pending_inv t \<longleftrightarrow>
     finite (dom (pt_active t)) \<and> finite (dom (pt_in_flight t)) \<and>
     dom (pt_active t) \<inter> dom (pt_in_flight t) = {} \<and>
     card (dom (pt_active t)) + card (dom (pt_in_flight t)) \<le> pt_capacity t \<and>
     distinct (pt_resolved_order t) \<and>
     set (pt_resolved_order t) = pt_resolved t \<union> pt_delivery_uncertain t \<and>
     pt_resolved t \<inter> pt_delivery_uncertain t = {} \<and>
     length (pt_resolved_order t) \<le> pt_capacity t \<and>
     (\<forall>i p. pt_active t i = Some p \<or> pt_in_flight t i = Some p \<longrightarrow>
        (i, pr_kind p) \<notin> pt_resolved t \<union> pt_delivery_uncertain t)"

lemma forget_oldest_eq:
  "distinct ks \<Longrightarrow> r \<union> u \<subseteq> set ks \<Longrightarrow>
   forget_oldest c ks r u =
     (let ks' = drop (length ks - c) ks in (ks', r \<inter> set ks', u \<inter> set ks'))"
proof (induction c ks r u rule: forget_oldest.induct)
  case (1 c r u)
  then show ?case by (auto simp: Let_def)
next
  case (2 c k ks r u)
  show ?case
  proof (cases "length (k # ks) > c")
    case True
    have "(r - {k}) \<inter> set (drop n ks) = r \<inter> set (drop n ks)" for n
      using "2.prems"(1) set_drop_subset [of n ks] by auto
    moreover have "(u - {k}) \<inter> set (drop n ks) = u \<inter> set (drop n ks)" for n
      using "2.prems"(1) set_drop_subset [of n ks] by auto
    moreover have "r - {k} \<union> (u - {k}) \<subseteq> set ks" "distinct ks" using "2.prems" by auto
    ultimately show ?thesis
      using True "2.IH" [OF True] by (simp add: Let_def Suc_diff_le)
  next
    case False
    then show ?thesis using "2.prems" by (auto simp: Let_def)
  qed
qed

lemma forget_expired_facts:
  assumes "distinct (pt_resolved_order t)" "pt_resolved t \<union> pt_delivery_uncertain t \<subseteq> set (pt_resolved_order t)"
  defines "ks \<equiv> drop (length (pt_resolved_order t) - pt_capacity t) (pt_resolved_order t)"
  shows "forget_expired t = t\<lparr>pt_resolved_order := ks, pt_resolved := pt_resolved t \<inter> set ks,
    pt_delivery_uncertain := pt_delivery_uncertain t \<inter> set ks\<rparr>"
  unfolding forget_expired_def ks_def using forget_oldest_eq [OF assms(1,2)] by (simp add: Let_def)

lemma forget_expired_inv:
  assumes "finite (dom (pt_active t))" "finite (dom (pt_in_flight t))"
    "dom (pt_active t) \<inter> dom (pt_in_flight t) = {}"
    "card (dom (pt_active t)) + card (dom (pt_in_flight t)) \<le> pt_capacity t"
    "distinct (pt_resolved_order t)" "set (pt_resolved_order t) = pt_resolved t \<union> pt_delivery_uncertain t"
    "pt_resolved t \<inter> pt_delivery_uncertain t = {}"
    "\<forall>i p. pt_active t i = Some p \<or> pt_in_flight t i = Some p \<longrightarrow>
       (i, pr_kind p) \<notin> pt_resolved t \<union> pt_delivery_uncertain t"
  shows "pending_inv (forget_expired t)"
proof -
  let ?ks = "drop (length (pt_resolved_order t) - pt_capacity t) (pt_resolved_order t)"
  have sub: "set ?ks \<subseteq> pt_resolved t \<union> pt_delivery_uncertain t"
    using set_drop_subset assms(6) by fastforce
  have eq: "forget_expired t = t\<lparr>pt_resolved_order := ?ks, pt_resolved := pt_resolved t \<inter> set ?ks,
    pt_delivery_uncertain := pt_delivery_uncertain t \<inter> set ?ks\<rparr>"
    using assms(5,6) by (intro forget_expired_facts) auto
  show ?thesis
    unfolding eq pending_inv_def using assms sub by (auto simp: distinct_drop)
qed

text \<open>Taking a request out of the active or the in-flight ones and remembering its key.\<close>

lemma remove_active_inv:
  assumes "pending_inv t"
  shows "pending_inv (t\<lparr>pt_active := (pt_active t)(i := None)\<rparr>)"
    and "pending_inv (t\<lparr>pt_in_flight := (pt_in_flight t)(i := None)\<rparr>)"
proof -
  have "card (dom (pt_active t) - {i}) \<le> card (dom (pt_active t))"
    "card (dom (pt_in_flight t) - {i}) \<le> card (dom (pt_in_flight t))"
    using assms by (auto simp: pending_inv_def intro: card_mono)
  then show "pending_inv (t\<lparr>pt_active := (pt_active t)(i := None)\<rparr>)"
    "pending_inv (t\<lparr>pt_in_flight := (pt_in_flight t)(i := None)\<rparr>)"
    using assms unfolding pending_inv_def by (auto split: if_splits)
qed

lemma remember_inv:
  assumes inv: "pending_inv t" and new: "(i, k) \<notin> pt_resolved t \<union> pt_delivery_uncertain t"
    and gone: "\<not> has_kind (pt_active t) i k" "\<not> has_kind (pt_in_flight t) i k"
  shows "pending_inv (remember_resolved i k t)" "pending_inv (remember_delivery_uncertain i k t)"
proof -
  have old: "\<forall>j p. pt_active t j = Some p \<or> pt_in_flight t j = Some p \<longrightarrow>
      (j, pr_kind p) \<notin> insert (i, k) (pt_resolved t \<union> pt_delivery_uncertain t)"
    using inv gone by (auto simp: pending_inv_def has_kind_def)
  have f: "finite (dom (pt_active t))" "finite (dom (pt_in_flight t))"
    "dom (pt_active t) \<inter> dom (pt_in_flight t) = {}"
    "card (dom (pt_active t)) + card (dom (pt_in_flight t)) \<le> pt_capacity t"
    "distinct (pt_resolved_order t)" "set (pt_resolved_order t) = pt_resolved t \<union> pt_delivery_uncertain t"
    "pt_resolved t \<inter> pt_delivery_uncertain t = {}"
    using inv unfolding pending_inv_def by blast+
  have "pending_inv (forget_expired (t\<lparr>pt_resolved := insert (i, k) (pt_resolved t),
      pt_resolved_order := pt_resolved_order t @ [(i, k)]\<rparr>))"
    by (rule forget_expired_inv) (use f new old in simp_all)
  then show "pending_inv (remember_resolved i k t)"
    using new by (simp add: remember_resolved_def Let_def)
  have "pending_inv (forget_expired (t\<lparr>pt_delivery_uncertain := insert (i, k) (pt_delivery_uncertain t),
      pt_resolved_order := pt_resolved_order t @ [(i, k)]\<rparr>))"
    by (rule forget_expired_inv) (use f new old in simp_all)
  then show "pending_inv (remember_delivery_uncertain i k t)"
    using new by (simp add: remember_delivery_uncertain_def Let_def)
qed

lemma has_kind_Some: "has_kind m i k \<longleftrightarrow> (\<exists>p. m i = Some p \<and> pr_kind p = k)"
  by (auto simp: has_kind_def split: option.splits)

lemma pending_exclusive:
  assumes "pending_inv t"
  shows "has_kind (pt_active t) i k \<Longrightarrow> pt_in_flight t i = None \<and> (i, k) \<notin> pt_resolved t \<union> pt_delivery_uncertain t"
    and "has_kind (pt_in_flight t) i k \<Longrightarrow> pt_active t i = None \<and> (i, k) \<notin> pt_resolved t \<union> pt_delivery_uncertain t"
proof -
  have dis: "dom (pt_active t) \<inter> dom (pt_in_flight t) = {}"
    and old: "\<forall>i p. pt_active t i = Some p \<or> pt_in_flight t i = Some p \<longrightarrow>
        (i, pr_kind p) \<notin> pt_resolved t \<union> pt_delivery_uncertain t"
    using assms unfolding pending_inv_def by blast+
  show "has_kind (pt_active t) i k \<Longrightarrow> pt_in_flight t i = None \<and> (i, k) \<notin> pt_resolved t \<union> pt_delivery_uncertain t"
    using dis old unfolding has_kind_Some by blast
  show "has_kind (pt_in_flight t) i k \<Longrightarrow> pt_active t i = None \<and> (i, k) \<notin> pt_resolved t \<union> pt_delivery_uncertain t"
    using dis old unfolding has_kind_Some by blast
qed

text \<open>The two ways a request leaves: from the active ones and from the in-flight ones.\<close>

lemma finish_active_inv:
  assumes "pending_inv t" "has_kind (pt_active t) i k"
  shows "pending_inv (remember_resolved i k (t\<lparr>pt_active := (pt_active t)(i := None)\<rparr>))"
  by (rule remember_inv(1) [OF remove_active_inv(1) [OF assms(1)]])
    (use pending_exclusive(1) [OF assms] in \<open>simp_all add: has_kind_def\<close>)

lemma finish_in_flight_inv:
  assumes "pending_inv t" "has_kind (pt_in_flight t) i k"
  shows "pending_inv (remember_resolved i k (t\<lparr>pt_in_flight := (pt_in_flight t)(i := None)\<rparr>))"
    and "pending_inv (remember_delivery_uncertain i k (t\<lparr>pt_in_flight := (pt_in_flight t)(i := None)\<rparr>))"
  by (rule remember_inv [OF remove_active_inv(2) [OF assms(1)]],
      use pending_exclusive(2) [OF assms] in \<open>simp_all add: has_kind_def\<close>)+

lemma move_inv:
  assumes "pending_inv t"
  shows "pt_active t i = Some p \<Longrightarrow>
      pending_inv (t\<lparr>pt_active := (pt_active t)(i := None), pt_in_flight := (pt_in_flight t)(i \<mapsto> p)\<rparr>)"
    and "pt_in_flight t i = Some p \<Longrightarrow>
      pending_inv (t\<lparr>pt_in_flight := (pt_in_flight t)(i := None), pt_active := (pt_active t)(i \<mapsto> p)\<rparr>)"
proof -
  have fin: "finite (dom (pt_active t))" "finite (dom (pt_in_flight t))"
    and cap: "card (dom (pt_active t)) + card (dom (pt_in_flight t)) \<le> pt_capacity t"
    and dis: "dom (pt_active t) \<inter> dom (pt_in_flight t) = {}"
    using assms by (auto simp: pending_inv_def)
  show "pending_inv (t\<lparr>pt_active := (pt_active t)(i := None), pt_in_flight := (pt_in_flight t)(i \<mapsto> p)\<rparr>)"
    if a: "pt_active t i = Some p"
  proof -
    have "pt_in_flight t i = None" using a dis by (auto simp: disjoint_iff domIff)
    moreover have "card (dom (pt_active t)) > 0" using a fin by (auto simp: card_gt_0_iff)
    ultimately have "card (dom ((pt_active t)(i := None))) + card (dom ((pt_in_flight t)(i \<mapsto> p))) \<le> pt_capacity t"
      using finite_dom_del_card [OF fin(1) a] finite_dom_upd_card [OF fin(2)] cap by (simp del: dom_fun_upd)
    then show ?thesis using assms a unfolding pending_inv_def by (auto split: if_splits)
  qed
  show "pending_inv (t\<lparr>pt_in_flight := (pt_in_flight t)(i := None), pt_active := (pt_active t)(i \<mapsto> p)\<rparr>)"
    if a: "pt_in_flight t i = Some p"
  proof -
    have "pt_active t i = None" using a dis by (auto simp: disjoint_iff domIff)
    moreover have "card (dom (pt_in_flight t)) > 0" using a fin by (auto simp: card_gt_0_iff)
    ultimately have "card (dom ((pt_in_flight t)(i := None))) + card (dom ((pt_active t)(i \<mapsto> p))) \<le> pt_capacity t"
      using finite_dom_del_card [OF fin(2) a] finite_dom_upd_card [OF fin(1)] cap by (simp del: dom_fun_upd)
    then show ?thesis using assms a unfolding pending_inv_def by (auto split: if_splits)
  qed
qed

section \<open>Runs of operations\<close>

datatype pending_op =
    OpRegister string pending_kind instant
  | OpClaim instant string pending_kind
  | OpRestore string pending_kind
  | OpResolveInFlight string pending_kind
  | OpUncertain string pending_kind
  | OpResolveActive instant string pending_kind
  | OpForce string pending_kind
  | OpExpire string pending_kind instant
  | OpConfirm string pending_kind
  | OpClear

fun pending_exec :: "uuid \<Rightarrow> pending_op \<Rightarrow> pending_tracker \<Rightarrow> pending_tracker" where
  "pending_exec cid (OpRegister i k d) t = snd (pending_register cid i k d t)"
| "pending_exec cid (OpClaim now i k) t = snd (claim_active cid now i k t)"
| "pending_exec cid (OpRestore i k) t = snd (restore_in_flight i k t)"
| "pending_exec cid (OpResolveInFlight i k) t = snd (resolve_in_flight cid i k t)"
| "pending_exec cid (OpUncertain i k) t = snd (mark_delivery_uncertain i k t)"
| "pending_exec cid (OpResolveActive now i k) t = snd (resolve_active cid now i k t)"
| "pending_exec cid (OpForce i k) t = force_resolve i k t"
| "pending_exec cid (OpExpire i k now) t = snd (pending_expire i k now t)"
| "pending_exec cid (OpConfirm i k) t = snd (confirm_resolved i k t)"
| "pending_exec cid OpClear t = clear_active t"

definition pending_run :: "uuid \<Rightarrow> pending_op list \<Rightarrow> pending_tracker \<Rightarrow> pending_tracker" where
  "pending_run cid ops t = fold (pending_exec cid) ops t"

lemma register_inv:
  assumes "pending_inv t"
  shows "pending_inv (snd (pending_register cid i k d t))"
proof (cases "fst (pending_register cid i k d t) = Inr ()")
  case False
  then show ?thesis using assms by (auto simp: pending_register_def)
next
  case True
  then have room: "card (dom (pt_active t)) + card (dom (pt_in_flight t)) < pt_capacity t"
    and new: "pt_active t i = None" "pt_in_flight t i = None" "(i, k) \<notin> pt_resolved t \<union> pt_delivery_uncertain t"
    by (auto simp: pending_register_def split: if_splits)
  have fin: "finite (dom (pt_active t))" using assms by (simp add: pending_inv_def)
  have "card (dom ((pt_active t)(i \<mapsto> \<lparr>pr_kind = k, pr_deadline = d\<rparr>))) + card (dom (pt_in_flight t)) \<le> pt_capacity t"
    using finite_dom_upd_card [OF fin new(1)] room by (simp del: dom_fun_upd)
  then have "pending_inv (t\<lparr>pt_active := (pt_active t)(i \<mapsto> \<lparr>pr_kind = k, pr_deadline = d\<rparr>)\<rparr>)"
    using assms new unfolding pending_inv_def by (auto split: if_splits)
  then show ?thesis using room new by (simp add: pending_register_def)
qed

lemma confirm_inv:
  assumes "pending_inv t"
  shows "pending_inv (snd (confirm_resolved i k t))"
proof -
  consider "(i, k) \<in> pt_resolved t" | (moved) "(i, k) \<in> pt_delivery_uncertain t" "(i, k) \<notin> pt_resolved t"
    | (other) "(i, k) \<notin> pt_resolved t \<union> pt_delivery_uncertain t" by blast
  then show ?thesis
  proof cases
    case moved
    have "pt_resolved t \<union> pt_delivery_uncertain t = insert (i, k) (pt_resolved t) \<union> (pt_delivery_uncertain t - {(i, k)})"
      using moved by blast
    then have "pending_inv (t\<lparr>pt_delivery_uncertain := pt_delivery_uncertain t - {(i, k)},
        pt_resolved := insert (i, k) (pt_resolved t)\<rparr>)"
      using assms unfolding pending_inv_def by auto
    then show ?thesis using moved by (simp add: confirm_resolved_def Let_def)
  next
    case other
    then show ?thesis
      using assms finish_in_flight_inv(1) [OF assms] by (simp add: confirm_resolved_def Let_def)
  qed (use assms in \<open>simp add: confirm_resolved_def\<close>)
qed

lemma active_kindI: "pt_active t i = Some p \<Longrightarrow> has_kind (pt_active t) i (pr_kind p)"
  by (simp add: has_kind_def)

lemma pending_exec_inv [invariant_intros]:
  assumes "pending_inv t"
  shows "pending_inv (pending_exec cid op t)"
proof (cases op)
  case (OpRegister i k d)
  then show ?thesis using register_inv [OF assms] by simp
next
  case (OpClaim now i k)
  then show ?thesis using assms move_inv(1) [OF assms, of i]
    by (auto simp: claim_active_def split: option.splits)
next
  case (OpRestore i k)
  then show ?thesis using assms move_inv(2) [OF assms, of i]
    by (auto simp: restore_in_flight_def has_kind_def split: option.splits)
next
  case (OpResolveInFlight i k)
  then show ?thesis using assms finish_in_flight_inv(1) [OF assms] by (simp add: resolve_in_flight_def)
next
  case (OpUncertain i k)
  then show ?thesis using assms finish_in_flight_inv(2) [OF assms] by (simp add: mark_delivery_uncertain_def)
next
  case (OpResolveActive now i k)
  then show ?thesis using assms finish_active_inv [OF assms, of i k] active_kindI
    by (auto simp: resolve_active_def has_kind_def split: option.splits)
next
  case (OpForce i k)
  then show ?thesis using assms finish_active_inv [OF assms] by (simp add: force_resolve_def)
next
  case (OpExpire i k now)
  then show ?thesis using assms finish_active_inv [OF assms, of i k]
    by (auto simp: pending_expire_def has_kind_def split: option.splits)
next
  case (OpConfirm i k)
  then show ?thesis using confirm_inv [OF assms] by simp
next
  case OpClear
  then show ?thesis using assms by (auto simp: clear_active_def pending_inv_def)
qed

lemma pending_run_inv [invariant_intros]: "pending_inv t \<Longrightarrow> pending_inv (pending_run cid ops t)"
  unfolding pending_run_def by (induction ops arbitrary: t) (auto intro: pending_exec_inv)

lemma pending_new_inv [invariant_intros]: "pending_inv (pending_tracker_new capacity)"
  by (simp add: pending_inv_def pending_tracker_new_def)

text \<open>Operations that can make a request with the identifier \<open>i\<close> active.\<close>

fun reactivates :: "string \<Rightarrow> pending_op \<Rightarrow> bool" where
  "reactivates i (OpRegister j _ _) = (j = i)"
| "reactivates i (OpRestore j _) = (j = i)"
| "reactivates i _ = False"

lemma remember_keeps_maps [simp]:
  "pt_active (remember_resolved i k t) = pt_active t" "pt_in_flight (remember_resolved i k t) = pt_in_flight t"
  "pt_active (remember_delivery_uncertain i k t) = pt_active t"
  "pt_in_flight (remember_delivery_uncertain i k t) = pt_in_flight t"
  "pt_capacity (remember_resolved i k t) = pt_capacity t"
  "pt_capacity (remember_delivery_uncertain i k t) = pt_capacity t"
  by (simp_all add: remember_resolved_def remember_delivery_uncertain_def forget_expired_def Let_def split: prod.splits)

lemmas pending_op_defs = pending_register_def claim_active_def restore_in_flight_def resolve_in_flight_def
  mark_delivery_uncertain_def resolve_active_def force_resolve_def pending_expire_def confirm_resolved_def
  clear_active_def Let_def

lemma exec_keeps_inactive:
  "\<not> reactivates i op \<Longrightarrow> pt_active t i = None \<Longrightarrow> pt_active (pending_exec cid op t) i = None"
  by (cases op) (simp_all add: pending_op_defs split: option.splits)

lemma run_keeps_inactive:
  "\<forall>op \<in> set ops. \<not> reactivates i op \<Longrightarrow> pt_active t i = None \<Longrightarrow> pt_active (pending_run cid ops t) i = None"
  unfolding pending_run_def by (induction ops arbitrary: t) (auto simp: exec_keeps_inactive)

section \<open>The memory of used identifiers\<close>

text \<open>
  Finishing a request that is pending puts its key at the end of the memory, from which at most the
  oldest key falls out; every other operation leaves the memory's order alone.
\<close>

definition pushed :: "pending_key \<Rightarrow> pending_tracker \<Rightarrow> pending_key list" where
  "pushed key t = drop (Suc (length (pt_resolved_order t)) - pt_capacity t) (pt_resolved_order t @ [key])"

lemma remember_order:
  assumes "pending_inv t" "(i, k) \<notin> pt_resolved t \<union> pt_delivery_uncertain t"
  shows "pt_resolved_order (remember_resolved i k t) = pushed (i, k) t"
    and "pt_resolved_order (remember_delivery_uncertain i k t) = pushed (i, k) t"
proof -
  have o: "distinct (pt_resolved_order t)" "set (pt_resolved_order t) = pt_resolved t \<union> pt_delivery_uncertain t"
    using assms(1) by (auto simp: pending_inv_def)
  show "pt_resolved_order (remember_resolved i k t) = pushed (i, k) t"
    using o assms(2) by (simp add: remember_resolved_def Let_def pushed_def forget_expired_facts)
  show "pt_resolved_order (remember_delivery_uncertain i k t) = pushed (i, k) t"
    using o assms(2) by (simp add: remember_delivery_uncertain_def Let_def pushed_def forget_expired_facts)
qed

lemma finish_order:
  assumes "pending_inv t"
  shows "has_kind (pt_active t) i k \<Longrightarrow>
      pt_resolved_order (remember_resolved i k (t\<lparr>pt_active := (pt_active t)(i := None)\<rparr>)) = pushed (i, k) t"
    and "has_kind (pt_in_flight t) i k \<Longrightarrow>
      pt_resolved_order (remember_resolved i k (t\<lparr>pt_in_flight := (pt_in_flight t)(i := None)\<rparr>)) = pushed (i, k) t"
    and "has_kind (pt_in_flight t) i k \<Longrightarrow>
      pt_resolved_order (remember_delivery_uncertain i k (t\<lparr>pt_in_flight := (pt_in_flight t)(i := None)\<rparr>)) = pushed (i, k) t"
  using remember_order [OF remove_active_inv(1) [OF assms, of i], of i k]
    remember_order [OF remove_active_inv(2) [OF assms, of i], of i k]
    pending_exclusive [OF assms, of i k] by (simp_all add: pushed_def)

lemma has_kind_update:
  "has_kind (m(i := None)) j k \<longleftrightarrow> j \<noteq> i \<and> has_kind m j k"
  "has_kind (m(i \<mapsto> p)) j k \<longleftrightarrow> (if j = i then pr_kind p = k else has_kind m j k)"
  by (simp_all add: has_kind_def)

definition has_pending :: "pending_tracker \<Rightarrow> string \<Rightarrow> pending_kind \<Rightarrow> bool" where
  "has_pending t i k \<longleftrightarrow> has_kind (pt_active t) i k \<or> has_kind (pt_in_flight t) i k"

lemma has_kind_unique: "has_kind m i k \<Longrightarrow> has_kind m i k' \<Longrightarrow> k' = k"
  by (simp add: has_kind_def split: option.splits)

lemma has_kind_None: "m i = None \<Longrightarrow> \<not> has_kind m i k"
  by (simp add: has_kind_def)

lemma exec_order:
  assumes inv: "pending_inv t"
  shows "pt_resolved_order (pending_exec cid op t) = pt_resolved_order t \<and>
      (op = OpClear \<or> (\<forall>i k. has_pending t i k \<longrightarrow> has_pending (pending_exec cid op t) i k)) \<or>
    (\<exists>i k. pt_resolved_order (pending_exec cid op t) = pushed (i, k) t \<and>
       (\<forall>i' k'. has_pending t i' k' \<longrightarrow> (i', k') = (i, k) \<or> has_pending (pending_exec cid op t) i' k'))"
    (is "?same \<or> (\<exists>i k. ?push i k)")
proof -
  have same: ?same if "pending_exec cid op t = t" using that by simp
  have excl: "pt_in_flight t i = None" if "pt_active t i = Some p" for i p
    using pending_exclusive(1) [OF inv active_kindI [OF that]] by simp
  have act: "?push i k" if h: "has_kind (pt_active t) i k"
    "pending_exec cid op t = remember_resolved i k (t\<lparr>pt_active := (pt_active t)(i := None)\<rparr>)" for i k
    unfolding h(2) using finish_order(1) [OF inv h(1)] pending_exclusive(1) [OF inv h(1)] has_kind_unique [OF h(1)]
    by (auto simp: has_pending_def has_kind_update has_kind_None)
  have fly: "?push i k" if h: "has_kind (pt_in_flight t) i k"
    "pending_exec cid op t = f i k (t\<lparr>pt_in_flight := (pt_in_flight t)(i := None)\<rparr>)"
    "f = remember_resolved \<or> f = remember_delivery_uncertain" for f i k
    unfolding h(2) using h(3) finish_order(2,3) [OF inv h(1)] pending_exclusive(2) [OF inv h(1)] has_kind_unique [OF h(1)]
    by (auto simp: has_pending_def has_kind_update has_kind_None)
  show ?thesis
  proof (cases op)
    case (OpRegister i k d)
    then show ?thesis
      by (intro disjI1) (auto simp: pending_register_def has_pending_def has_kind_def)
  next
    case (OpClaim now i k)
    show ?thesis
    proof (cases "pending_exec cid op t = t")
      case False
      then obtain p where p: "pt_active t i = Some p" "pending_exec cid op t =
          t\<lparr>pt_active := (pt_active t)(i := None), pt_in_flight := (pt_in_flight t)(i \<mapsto> p)\<rparr>"
        using OpClaim by (auto simp: claim_active_def split: option.splits if_splits)
      then show ?thesis
        using excl [OF p(1)] by (intro disjI1) (auto simp: has_pending_def has_kind_def)
    qed (use same in blast)
  next
    case (OpRestore i k)
    show ?thesis
    proof (cases "pending_exec cid op t = t")
      case False
      then obtain p where p: "pt_in_flight t i = Some p" "pending_exec cid op t =
          t\<lparr>pt_in_flight := (pt_in_flight t)(i := None), pt_active := (pt_active t)(i \<mapsto> p)\<rparr>"
        using OpRestore by (auto simp: restore_in_flight_def has_kind_def split: option.splits if_splits)
      moreover have "pt_active t i = None" using excl [of i] p(1) by (cases "pt_active t i") auto
      ultimately show ?thesis by (intro disjI1) (auto simp: has_pending_def has_kind_def)
    qed (use same in blast)
  next
    case (OpResolveInFlight i k)
    show ?thesis
    proof (cases "pending_exec cid op t = t")
      case False
      then have "has_kind (pt_in_flight t) i k"
          "pending_exec cid op t = remember_resolved i k (t\<lparr>pt_in_flight := (pt_in_flight t)(i := None)\<rparr>)"
        using OpResolveInFlight by (auto simp: resolve_in_flight_def split: if_splits)
      then show ?thesis using fly by blast
    qed (use same in blast)
  next
    case (OpUncertain i k)
    show ?thesis
    proof (cases "pending_exec cid op t = t")
      case False
      then have "has_kind (pt_in_flight t) i k"
          "pending_exec cid op t = remember_delivery_uncertain i k (t\<lparr>pt_in_flight := (pt_in_flight t)(i := None)\<rparr>)"
        using OpUncertain by (auto simp: mark_delivery_uncertain_def split: if_splits)
      then show ?thesis using fly by blast
    qed (use same in blast)
  next
    case (OpResolveActive now i k)
    then show ?thesis
    proof (cases "pending_exec cid op t = t")
      case False
      then have "has_kind (pt_active t) i k"
          "pending_exec cid op t = remember_resolved i k (t\<lparr>pt_active := (pt_active t)(i := None)\<rparr>)"
        using OpResolveActive by (auto simp: resolve_active_def has_kind_def split: option.splits if_splits)
      then show ?thesis using act by blast
    qed (use same in blast)
  next
    case (OpForce i k)
    show ?thesis
    proof (cases "pending_exec cid op t = t")
      case False
      then have "has_kind (pt_active t) i k"
          "pending_exec cid op t = remember_resolved i k (t\<lparr>pt_active := (pt_active t)(i := None)\<rparr>)"
        using OpForce by (auto simp: force_resolve_def split: if_splits)
      then show ?thesis using act by blast
    qed (use same in blast)
  next
    case (OpExpire i k now)
    then show ?thesis
    proof (cases "pending_exec cid op t = t")
      case False
      then have "has_kind (pt_active t) i k"
          "pending_exec cid op t = remember_resolved i k (t\<lparr>pt_active := (pt_active t)(i := None)\<rparr>)"
        using OpExpire by (auto simp: pending_expire_def has_kind_def split: option.splits if_splits)
      then show ?thesis using act by blast
    qed (use same in blast)
  next
    case (OpConfirm i k)
    show ?thesis
    proof (cases "(i, k) \<notin> pt_resolved t \<union> pt_delivery_uncertain t \<and> has_kind (pt_in_flight t) i k")
      case True
      then have "pending_exec cid op t = remember_resolved i k (t\<lparr>pt_in_flight := (pt_in_flight t)(i := None)\<rparr>)"
        using OpConfirm by (simp add: confirm_resolved_def Let_def)
      then show ?thesis using fly True by blast
    next
      case False
      then have "pt_resolved_order (pending_exec cid op t) = pt_resolved_order t"
          "has_pending (pending_exec cid op t) = has_pending t"
        using OpConfirm by (auto simp: confirm_resolved_def Let_def has_pending_def fun_eq_iff)
      then show ?thesis by simp
    qed
  next
    case OpClear
    then show ?thesis by (simp add: clear_active_def)
  qed
qed

lemma exec_capacity [simp]: "pt_capacity (pending_exec cid op t) = pt_capacity t"
  by (cases op) (simp_all add: pending_op_defs split: option.splits)

lemma window_step:
  assumes "pending_inv t" "pt_resolved_order t = xs @ key # ys" "length ys + 2 \<le> pt_capacity t"
  shows "\<exists>xs' ys'. pt_resolved_order (pending_exec cid op t) = xs' @ key # ys' \<and> length ys' \<le> Suc (length ys)"
proof -
  have "pushed x t = drop (Suc (length (xs @ key # ys)) - pt_capacity t) xs @ key # ys @ [x]" for x
    using assms(2,3) by (simp add: pushed_def)
  with exec_order [OF assms(1), of cid op] assms(2) show ?thesis by fastforce
qed

lemma window_run:
  "pending_inv t \<Longrightarrow> pt_resolved_order t = xs @ key # ys \<Longrightarrow> length ys + length ops < pt_capacity t \<Longrightarrow>
   key \<in> set (pt_resolved_order (pending_run cid ops t))"
proof (induction ops arbitrary: t xs ys)
  case Nil
  then show ?case by (simp add: pending_run_def)
next
  case (Cons op ops)
  obtain xs' ys' where s: "pt_resolved_order (pending_exec cid op t) = xs' @ key # ys'" "length ys' \<le> Suc (length ys)"
    using window_step [OF Cons.prems(1,2), of cid op] Cons.prems(3) by auto
  from Cons.IH [OF pending_exec_inv [OF Cons.prems(1)] s(1)] s(2) Cons.prems(3)
  show ?case by (simp add: pending_run_def)
qed

section \<open>Properties\<close>

text \<open>Whatever sequence of operations is applied to a fresh tracker, requests being answered and
  requests waiting are disjoint and together within the capacity, the memory of used keys is within
  the capacity and without duplicates, and no request that is pending is remembered as used.
\<close>

theorem pending_tracker_bounded:
  "let t = pending_run cid ops (pending_tracker_new capacity) in
   card (dom (pt_active t)) + card (dom (pt_in_flight t)) \<le> capacity \<and>
   dom (pt_active t) \<inter> dom (pt_in_flight t) = {} \<and>
   length (pt_resolved_order t) \<le> capacity \<and> distinct (pt_resolved_order t) \<and>
   set (pt_resolved_order t) = pt_resolved t \<union> pt_delivery_uncertain t \<and>
   (\<forall>i k. has_pending t i k \<longrightarrow> (i, k) \<notin> pt_resolved t \<union> pt_delivery_uncertain t)"
proof -
  let ?t = "pending_run cid ops (pending_tracker_new capacity)"
  have inv: "pending_inv ?t" by (intro invariant_intros)
  have "pt_capacity ?t = capacity"
    unfolding pending_run_def
    by (induction ops rule: rev_induct) (simp_all add: pending_tracker_new_def)
  moreover have "\<forall>i k. has_pending ?t i k \<longrightarrow> (i, k) \<notin> pt_resolved ?t \<union> pt_delivery_uncertain ?t"
    using pending_exclusive [OF inv] unfolding has_pending_def by blast
  ultimately show ?thesis using inv unfolding pending_inv_def Let_def by (elim conjE) (intro conjI; simp)
qed

lemma pending_tracker_bounded_witness:
  "card (dom (pt_active (pending_run 0 [OpRegister ''a'' PendPermission 9] (pending_tracker_new 1)))) +
   card (dom (pt_in_flight (pending_run 0 [OpRegister ''a'' PendPermission 9] (pending_tracker_new 1)))) \<le> 1"
  using pending_tracker_bounded [of 0 "[OpRegister ''a'' PendPermission 9]" 1] by (simp only: Let_def)

text \<open>An answer is claimed at most once: after a successful claim no claim of the same identifier
  succeeds, whatever operations come in between, unless one of them registers the identifier again
  or restores the undelivered answer.
\<close>

theorem claim_is_exclusive:
  assumes "claim_active cid now i k t = (Inr (), t')"
    and "\<forall>op \<in> set ops. \<not> reactivates i op"
  shows "\<exists>e. claim_active cid' now' i k' (pending_run cid'' ops t') = (Inl e, pending_run cid'' ops t')"
proof -
  have "pt_active t' i = None"
    using assms(1) by (auto simp: claim_active_def split: option.splits if_splits)
  from run_keeps_inactive [OF assms(2) this] show ?thesis by (simp add: claim_active_def)
qed

definition tracker_with_claim :: pending_tracker where
  "tracker_with_claim = (pending_tracker_new 2)\<lparr>pt_active := [''a'' \<mapsto> \<lparr>pr_kind = PendPermission, pr_deadline = 9\<rparr>]\<rparr>"

lemma claim_is_exclusive_witness:
  "fst (claim_active 0 3 ''a'' PendPermission tracker_with_claim) = Inr () \<and>
   (\<exists>e. claim_active 0 4 ''a'' PendPermission
      (pending_run 0 [OpResolveInFlight ''a'' PendPermission] (snd (claim_active 0 3 ''a'' PendPermission tracker_with_claim)))
      = (Inl e, pending_run 0 [OpResolveInFlight ''a'' PendPermission] (snd (claim_active 0 3 ''a'' PendPermission tracker_with_claim))))"
proof -
  have c: "claim_active 0 3 ''a'' PendPermission tracker_with_claim =
      (Inr (), snd (claim_active 0 3 ''a'' PendPermission tracker_with_claim))"
    by (simp add: claim_active_def tracker_with_claim_def)
  have "\<forall>op \<in> set [OpResolveInFlight ''a'' PendPermission]. \<not> reactivates ''a'' op" by simp
  from claim_is_exclusive [OF c this, of 0 4 PendPermission 0] c show ?thesis by (metis fst_conv)
qed

text \<open>
  Used identifiers stay used: when an operation other than the final clearing takes a pending
  request out, its identifier cannot be registered again for the same kind during the next
  operations, fewer than the capacity.
\<close>

theorem used_request_id_rejected:
  assumes "pending_inv t" "op \<noteq> OpClear" "has_pending t i k" "\<not> has_pending (pending_exec cid op t) i k"
    and "length ops < pt_capacity t"
  shows "\<exists>e. fst (pending_register cid' i k d (pending_run cid'' ops (pending_exec cid op t))) = Inl e"
proof -
  let ?t = "pending_exec cid op t"
  let ?u = "pending_run cid'' ops ?t"
  have "pt_resolved_order ?t = pushed (i, k) t"
    using exec_order [OF assms(1), of cid op] assms(2-4) by blast
  moreover have "Suc (length (pt_resolved_order t)) - pt_capacity t \<le> length (pt_resolved_order t)"
    using assms(5) by simp
  ultimately have "pt_resolved_order ?t =
      drop (Suc (length (pt_resolved_order t)) - pt_capacity t) (pt_resolved_order t) @ (i, k) # []"
    by (simp add: pushed_def)
  from window_run [OF pending_exec_inv [OF assms(1)] this] assms(5)
  have "(i, k) \<in> set (pt_resolved_order ?u)" by simp
  moreover have "pending_inv ?u" using assms(1) by (intro invariant_intros)
  ultimately have "(i, k) \<in> pt_resolved ?u \<union> pt_delivery_uncertain ?u" by (simp add: pending_inv_def)
  then show ?thesis by (auto simp: pending_register_def)
qed

lemma used_request_id_rejected_witness:
  "\<exists>e. fst (pending_register 0 ''a'' PendPermission 20
     (pending_run 0 [] (pending_exec 0 (OpExpire ''a'' PendPermission 10) tracker_with_claim))) = Inl e"
proof (rule used_request_id_rejected)
  show "pending_inv tracker_with_claim"
    by (simp add: pending_inv_def tracker_with_claim_def pending_tracker_new_def)
  show "has_pending tracker_with_claim ''a'' PendPermission"
    by (simp add: has_pending_def has_kind_def tracker_with_claim_def)
  show "\<not> has_pending (pending_exec 0 (OpExpire ''a'' PendPermission 10) tracker_with_claim) ''a'' PendPermission"
    by (simp add: has_pending_def has_kind_def tracker_with_claim_def pending_expire_def pending_tracker_new_def)
  show "length [] < pt_capacity tracker_with_claim" by (simp add: tracker_with_claim_def pending_tracker_new_def)
qed simp

end
