(* ===== verification/Process.thy ===== *)
theory Process
  imports Domain_Types "HOL-Library.List_Lexorder" "HOL-Library.Char_ord"
begin

text \<open>
  The process primitives of \<^verbatim>\<open>crates/maestro-process\<close> the supervisors build on: the environment
  policy that decides which variables a child sees (\<^verbatim>\<open>environment.rs\<close>), launch specifications and
  exit causes (\<^verbatim>\<open>structured.rs\<close>), the life cycle outcome (\<^verbatim>\<open>lifecycle.rs\<close>) and the admission
  controller (\<^verbatim>\<open>lib.rs\<close>). Names and values of variables are text that is valid UTF-8, on which
  \<^verbatim>\<open>to_string_lossy\<close> is the identity. Spawning, signalling and reaping are system calls.
\<close>

section \<open>Environment policy\<close>

definition DEFAULT_ALLOWED :: "string list" where
  "DEFAULT_ALLOWED = [''COLORTERM'', ''DBUS_SESSION_BUS_ADDRESS'', ''DISPLAY'', ''HOME'', ''LANG'', ''LC_ALL'',
     ''LC_CTYPE'', ''LOGNAME'', ''PATH'', ''SHELL'', ''SSH_AUTH_SOCK'', ''TERM'', ''TMPDIR'', ''USER'',
     ''WAYLAND_DISPLAY'', ''XAUTHORITY'', ''XDG_CACHE_HOME'', ''XDG_CONFIG_HOME'', ''XDG_DATA_HOME'',
     ''XDG_RUNTIME_DIR'', ''XDG_STATE_HOME'']"

definition SECRET_MARKERS :: "string list" where
  "SECRET_MARKERS = [''AUTH'', ''CREDENTIAL'', ''KEY'', ''PASSWORD'', ''SECRET'', ''TOKEN'']"

record environment_policy =
  env_allowed :: "string set"
  env_denied :: "string set"
  env_overrides :: "string \<rightharpoonup> string"
  env_inherit_full :: bool

definition environment_policy_default :: environment_policy where
  "environment_policy_default =
     \<lparr>env_allowed = set DEFAULT_ALLOWED, env_denied = {}, env_overrides = Map.empty, env_inherit_full = False\<rparr>"

definition policy_allow :: "string \<Rightarrow> environment_policy \<Rightarrow> environment_policy" where
  "policy_allow name p = p\<lparr>env_allowed := insert name (env_allowed p)\<rparr>"

definition policy_deny :: "string \<Rightarrow> environment_policy \<Rightarrow> environment_policy" where
  "policy_deny name p = p\<lparr>env_denied := insert name (env_denied p)\<rparr>"

definition policy_override_value :: "string \<Rightarrow> string \<Rightarrow> environment_policy \<Rightarrow> environment_policy" where
  "policy_override_value name value p = p\<lparr>env_overrides := (env_overrides p)(name \<mapsto> value)\<rparr>"

definition policy_inherit_full :: "bool \<Rightarrow> environment_policy \<Rightarrow> environment_policy" where
  "policy_inherit_full enabled p = p\<lparr>env_inherit_full := enabled\<rparr>"

type_synonym controlled_environment = "string \<rightharpoonup> string"

text \<open>The loop over the source variables, in their order.\<close>

fun inherit_variables :: "environment_policy \<Rightarrow> (string \<times> string) list \<Rightarrow> controlled_environment \<Rightarrow> controlled_environment" where
  "inherit_variables p [] vals = vals"
| "inherit_variables p ((name, v) # rest) vals =
     inherit_variables p rest
       (if name \<notin> env_denied p \<and> (env_inherit_full p \<or> name \<in> env_allowed p) then vals(name \<mapsto> v) else vals)"

text \<open>The overrides are inserted after that; their order does not matter, as their names differ.\<close>

definition environment_evaluate :: "environment_policy \<Rightarrow> (string \<times> string) list \<Rightarrow> controlled_environment" where
  "environment_evaluate p source =
     inherit_variables p source Map.empty ++ (\<lambda>name. if name \<in> env_denied p then None else env_overrides p name)"

definition environment_insert :: "string \<Rightarrow> string \<Rightarrow> controlled_environment \<Rightarrow> controlled_environment" where
  "environment_insert name v vals = vals(name \<mapsto> v)"

definition to_ascii_upper :: "char \<Rightarrow> char" where
  "to_ascii_upper c =
     (if 97 \<le> (of_char c :: nat) \<and> (of_char c :: nat) \<le> 122 then char_of ((of_char c :: nat) - 32) else c)"

definition masked_value :: "string \<Rightarrow> string \<Rightarrow> string" where
  "masked_value name v =
     (if list_ex (\<lambda>marker. contains_sub (map to_ascii_upper name) marker) SECRET_MARKERS
      then ''[REDACTED]'' else v)"

record environment_preview =
  preview_name :: string
  preview_value :: string

text \<open>The preview goes over the map in the order of its names.\<close>

definition environment_preview_of :: "controlled_environment \<Rightarrow> environment_preview list" where
  "environment_preview_of vals =
     map (\<lambda>name. \<lparr>preview_name = name, preview_value = masked_value name (the (vals name))\<rparr>)
       (sorted_list_of_set (dom vals))"

section \<open>Launch specifications, exits and the life cycle\<close>

record process_spec =
  ps_executable :: string
  ps_arguments :: "string list"
  ps_working_directory :: string
  ps_environment :: controlled_environment

definition process_spec_new :: "string \<Rightarrow> string \<Rightarrow> process_spec" where
  "process_spec_new executable cwd =
     \<lparr>ps_executable = executable, ps_arguments = [], ps_working_directory = cwd, ps_environment = Map.empty\<rparr>"

definition spec_argument :: "string \<Rightarrow> process_spec \<Rightarrow> process_spec" where
  "spec_argument a s = s\<lparr>ps_arguments := ps_arguments s @ [a]\<rparr>"

definition spec_arguments :: "string list \<Rightarrow> process_spec \<Rightarrow> process_spec" where
  "spec_arguments as s = s\<lparr>ps_arguments := ps_arguments s @ as\<rparr>"

definition spec_environment :: "controlled_environment \<Rightarrow> process_spec \<Rightarrow> process_spec" where
  "spec_environment e s = s\<lparr>ps_environment := e\<rparr>"

type_synonym i32 = int

datatype exit_cause = Exited i32 | Signaled i32 | ExitUnknown

text \<open>\<^verbatim>\<open>ExitCause::from_status\<close>, from what the status says of a code and of a signal.\<close>

definition exit_cause_from_status :: "i32 option \<Rightarrow> i32 option \<Rightarrow> exit_cause" where
  "exit_cause_from_status code signal =
     (case code of Some c \<Rightarrow> Exited c
      | None \<Rightarrow> (case signal of Some s \<Rightarrow> Signaled s | None \<Rightarrow> ExitUnknown))"

datatype process_error =
    Capacity nat | ProcessIo string | ProcessPty string | MissingStream string | AlreadyExited
  | MissingProcessId | Termination string

datatype lifecycle_outcome = LifecycleRunning | LifecycleExited exit_cause | LifecycleFailed string

fun outcome_result :: "lifecycle_outcome \<Rightarrow> (process_error + exit_cause) option" where
  "outcome_result LifecycleRunning = None"
| "outcome_result (LifecycleExited cause) = Some (Inr cause)"
| "outcome_result (LifecycleFailed message) = Some (Inl (Termination message))"

definition lifecycle_is_running :: "lifecycle_outcome \<Rightarrow> bool" where
  "lifecycle_is_running o' \<longleftrightarrow> o' = LifecycleRunning"

text \<open>
  \<^verbatim>\<open>wait\<close> over the values the watch channel shows, current one first; the list ends when the
  sender is dropped.
\<close>

fun lifecycle_wait :: "lifecycle_outcome list \<Rightarrow> process_error + exit_cause" where
  "lifecycle_wait [] = Inl (Termination ''process supervisor stopped unexpectedly'')"
| "lifecycle_wait (o' # os) = (case outcome_result o' of Some r \<Rightarrow> r | None \<Rightarrow> lifecycle_wait os)"

section \<open>Admission\<close>

definition DEFAULT_PROCESS_LIMIT :: nat where "DEFAULT_PROCESS_LIMIT = 32"

record process_spawner =
  sp_available_permits :: nat
  sp_limit :: nat

text \<open>\<^term>\<open>None\<close> is the panic on a zero limit.\<close>

definition process_spawner_new :: "nat \<Rightarrow> process_spawner option" where
  "process_spawner_new limit =
     (if limit > 0 then Some \<lparr>sp_available_permits = limit, sp_limit = limit\<rparr> else None)"

definition active_count :: "process_spawner \<Rightarrow> nat" where
  "active_count s = sp_limit s - sp_available_permits s"

definition try_reserve :: "process_spawner \<Rightarrow> (process_error + unit) \<times> process_spawner" where
  "try_reserve s =
     (if sp_available_permits s = 0 then (Inl (Capacity (sp_limit s)), s)
      else (Inr (), s\<lparr>sp_available_permits := sp_available_permits s - 1\<rparr>))"

text \<open>Dropping a permit.\<close>

definition drop_permit :: "process_spawner \<Rightarrow> process_spawner" where
  "drop_permit s = s\<lparr>sp_available_permits := sp_available_permits s + 1\<rparr>"

section \<open>Properties\<close>

lemma inherit_variables_eq:
  "inherit_variables p source vals name =
     (if name \<notin> env_denied p \<and> (env_inherit_full p \<or> name \<in> env_allowed p)
      then (case map_of (rev source) name of Some v \<Rightarrow> Some v | None \<Rightarrow> vals name) else vals name)"
  by (induction p source vals rule: inherit_variables.induct) (auto simp: map_add_def split: option.splits)

text \<open>The environment of a child, name by name: a denied name is absent whatever the rest of the
  policy says; otherwise an override decides; otherwise the last value of the source passes exactly
  when the name is allowed or full inheritance is on.
\<close>

theorem environment_decided_by_name:
  "environment_evaluate p source name =
     (if name \<in> env_denied p then None
      else case env_overrides p name of
             Some v \<Rightarrow> Some v
           | None \<Rightarrow> if env_inherit_full p \<or> name \<in> env_allowed p then map_of (rev source) name else None)"
  by (simp add: environment_evaluate_def map_add_def inherit_variables_eq split: option.splits)

lemma inherit_variables_finite: "finite (dom vals) \<Longrightarrow> finite (dom (inherit_variables p source vals))"
  by (induction p source vals rule: inherit_variables.induct) auto

text \<open>The preview lists every variable once, in the order of names, and does not depend on the value
  of a variable whose name contains one of the secret markers in any case.
\<close>

theorem preview_hides_secrets:
  assumes "finite (dom vals)" "dom vals' = dom vals"
    and "\<forall>name. vals' name \<noteq> vals name \<longrightarrow>
      (\<exists>marker \<in> set SECRET_MARKERS. contains_sub (map to_ascii_upper name) marker)"
  shows "environment_preview_of vals' = environment_preview_of vals \<and>
    set (map preview_name (environment_preview_of vals)) = dom vals \<and>
    sorted (map preview_name (environment_preview_of vals)) \<and>
    distinct (map preview_name (environment_preview_of vals))"
proof -
  have "masked_value name (the (vals' name)) = masked_value name (the (vals name))" for name
    using assms(3) by (cases "vals' name = vals name") (auto simp: masked_value_def list_ex_iff)
  then have "environment_preview_of vals' = environment_preview_of vals"
    by (simp add: environment_preview_of_def assms(2))
  moreover have "map preview_name (environment_preview_of vals) = sorted_list_of_set (dom vals)"
    by (simp add: environment_preview_of_def comp_def)
  ultimately show ?thesis using assms(1) by simp
qed

lemma preview_hides_secrets_witness:
  "environment_preview_of [''api_key'' \<mapsto> ''two''] = environment_preview_of [''api_key'' \<mapsto> ''one'']"
proof -
  have "contains_sub (map to_ascii_upper ''api_key'') ''KEY''" by code_simp
  moreover have "''KEY'' \<in> set SECRET_MARKERS" by (simp add: SECRET_MARKERS_def)
  ultimately have "\<exists>marker \<in> set SECRET_MARKERS. contains_sub (map to_ascii_upper ''api_key'') marker" by blast
  then have "\<forall>name. [''api_key'' \<mapsto> ''two''] name \<noteq> [''api_key'' \<mapsto> ''one''] name \<longrightarrow>
      (\<exists>marker \<in> set SECRET_MARKERS. contains_sub (map to_ascii_upper name) marker)"
    by (simp only: fun_upd_apply split: if_split) blast
  then show ?thesis
    using preview_hides_secrets [of "[''api_key'' \<mapsto> ''one'']" "[''api_key'' \<mapsto> ''two'']"] by simp
qed

end
