(* ===== verification/Writer_Lease.thy ===== *)
theory Writer_Lease
  imports Maestro_Prelude
begin

text \<open>
  Writer leases, as a contract. A vendor binding may have one writer at a time: the supervisor
  (\<^verbatim>\<open>claim_binding\<close> and \<^verbatim>\<open>release_binding\<close> in \<^verbatim>\<open>fake_session.rs\<close>) and the fake adapter
  (\<^verbatim>\<open>claim_binding\<close> and \<^verbatim>\<open>release_binding_claim\<close> in \<^verbatim>\<open>fake.rs\<close>) each keep a table from bindings to
  the token of their writer. The locale states what the two operations promise; its lemmas say what
  holds of any interleaving of claims and releases.
\<close>

datatype ('a, 't) lease_op = Claim string 'a | Release string 't

fun lease_exec ::
  "(string \<Rightarrow> 'a \<Rightarrow> 's \<Rightarrow> ('e + unit) \<times> 's) \<Rightarrow> (string \<Rightarrow> 't \<Rightarrow> 's \<Rightarrow> 's) \<Rightarrow> ('a, 't) lease_op \<Rightarrow> 's \<Rightarrow> 's" where
  "lease_exec claim release (Claim b a) s = snd (claim b a s)"
| "lease_exec claim release (Release b t) s = release b t s"

locale writer_table =
  fixes owner :: "'s \<Rightarrow> string \<rightharpoonup> 't"
    and valid :: "string \<Rightarrow> bool"
    and token :: "'a \<Rightarrow> 't"
    and claim :: "string \<Rightarrow> 'a \<Rightarrow> 's \<Rightarrow> ('e + unit) \<times> 's"
    and release :: "string \<Rightarrow> 't \<Rightarrow> 's \<Rightarrow> 's"
  assumes claim_free: "valid b \<Longrightarrow> owner s b = None \<Longrightarrow>
      \<exists>s'. claim b a s = (Inr (), s') \<and> owner s' = (owner s)(b \<mapsto> token a)"
    and claim_refused: "\<not> valid b \<or> owner s b \<noteq> None \<Longrightarrow> \<exists>e. claim b a s = (Inl e, s)"
    and release_owner: "owner (release b t s) = (if owner s b = Some t then (owner s)(b := None) else owner s)"
begin

lemma exec_keeps_owner:
  assumes "owner s b = Some t" "op \<noteq> Release b t"
  shows "owner (lease_exec claim release op s) b = Some t"
proof (cases op)
  case (Claim c a)
  show ?thesis
  proof (cases "valid c \<and> owner s c = None")
    case True
    then obtain s' where "claim c a s = (Inr (), s')" "owner s' = (owner s)(c \<mapsto> token a)"
      using claim_free by blast
    with Claim assms(1) True show ?thesis by auto
  next
    case False
    then obtain e where "claim c a s = (Inl e, s)" using claim_refused by blast
    with Claim assms(1) show ?thesis by simp
  qed
next
  case (Release c u)
  with assms show ?thesis by (auto simp: release_owner)
qed

text \<open>Until its token is released, an owner keeps the binding and every claim of it is refused.\<close>

lemma lease_exclusive:
  "owner s b = Some t \<Longrightarrow> Release b t \<notin> set ops \<Longrightarrow>
   owner (fold (lease_exec claim release) ops s) b = Some t \<and>
   (\<exists>e. claim b a (fold (lease_exec claim release) ops s) = (Inl e, fold (lease_exec claim release) ops s))"
proof (induction ops arbitrary: s)
  case Nil
  then show ?case using claim_refused [of b s a] by auto
next
  case (Cons op ops)
  then show ?case using exec_keeps_owner [of s b t op] by auto
qed

lemma claim_ok_iff: "fst (claim b a s) = Inr () \<longleftrightarrow> valid b \<and> owner s b = None"
proof
  show "valid b \<and> owner s b = None" if "fst (claim b a s) = Inr ()"
    using that claim_refused [of b s a] by fastforce
  show "fst (claim b a s) = Inr ()" if "valid b \<and> owner s b = None"
    using that claim_free [of b s a] by fastforce
qed

lemma claim_owner: "fst (claim b a s) = Inr () \<Longrightarrow> owner (snd (claim b a s)) b = Some (token a)"
  using claim_ok_iff [of b a s] claim_free [of b s a] by fastforce

text \<open>A released binding can be claimed again, by anyone.\<close>

lemma release_frees:
  "owner s b = Some t \<Longrightarrow> valid b \<Longrightarrow> fst (claim b a (release b t s)) = Inr ()"
  by (simp add: claim_ok_iff release_owner)

end

end
