(* ===== verification/Fake_Session.thy ===== *)
theory Fake_Session
  imports Session_Buffers Pending Process Writer_Lease
begin

text \<open>
  The supervisor of structured sessions, \<^verbatim>\<open>crates/maestrod/src/fake_session.rs\<close>. A session record
  holds what the daemon keeps of a logical session; its runs live in a table, because the record, the
  reader tasks and the request timers share one \<^verbatim>\<open>RunControl\<close> through reference counting. Handlers
  are functions on the table of binding writers and a session record. What a system call or the random
  generator answers is an argument: the outcome of a spawn, a write, a read or a wait, and the
  \<open>stamp\<close> with the correlation identifier, event identifier and clock readings an operation draws.
  \<open>rc_stdin\<close> collects the lines that were written to the child.
\<close>

section \<open>Limits and parameters\<close>

definition READ_CHUNK_BYTES :: nat where "READ_CHUNK_BYTES = 8 * 1024"
definition SUPPORTED_FAKE_PROTOCOL_VERSION :: u64 where "SUPPORTED_FAKE_PROTOCOL_VERSION = 1"
definition MAX_LAUNCH_TEXT_BYTES :: nat where "MAX_LAUNCH_TEXT_BYTES = 1024"

record fake_session_limits =
  fl_maximum_frame_bytes :: nat
  fl_replay_events :: nat
  fl_broadcast_events :: nat
  fl_stderr_bytes :: nat
  fl_pending_requests :: nat
  fl_maximum_input_bytes :: nat
  fl_maximum_sessions :: nat
  fl_maximum_raw_protocol_bytes :: nat
  fl_request_timeout :: int
  fl_termination_grace :: int

text \<open>Durations in milliseconds.\<close>

definition fake_session_limits_default :: fake_session_limits where
  "fake_session_limits_default =
     \<lparr>fl_maximum_frame_bytes = 1024 * 1024, fl_replay_events = 2048, fl_broadcast_events = 256,
      fl_stderr_bytes = 256 * 1024, fl_pending_requests = 128, fl_maximum_input_bytes = 1024 * 1024,
      fl_maximum_sessions = 256, fl_maximum_raw_protocol_bytes = 1024 * 1024,
      fl_request_timeout = 5 * 60 * 1000, fl_termination_grace = 2000\<rparr>"

definition limits_validate :: "uuid \<Rightarrow> fake_session_limits \<Rightarrow> maestro_error + fake_session_limits" where
  "limits_validate cid l =
     (if fl_maximum_frame_bytes l = 0 \<or> fl_replay_events l = 0 \<or> fl_broadcast_events l = 0
        \<or> fl_pending_requests l = 0 \<or> fl_maximum_input_bytes l = 0 \<or> fl_maximum_sessions l = 0
        \<or> fl_maximum_raw_protocol_bytes l = 0 \<or> fl_request_timeout l = 0
      then Inl (invalid_request cid ''fake-session limits other than stderr capacity must be nonzero'')
      else Inr l)"

text \<open>The text form of an identifier and the JSON printer and parser belong to other packages.\<close>

record host =
  h_uuid_text :: "uuid \<Rightarrow> string"
  h_to_vec :: "json \<Rightarrow> string + bytes"
  h_from_slice :: "bytes \<Rightarrow> string + json"

record stamp =
  st_cid :: uuid
  st_event_id :: event_id
  st_now :: date_time
  st_instant :: instant

fun run_json :: "host \<Rightarrow> run_id \<Rightarrow> json" where
  "run_json h (RunId u) = String (h_uuid_text h u)"

fun session_json :: "host \<Rightarrow> session_id \<Rightarrow> json" where
  "session_json h (SessionId u) = String (h_uuid_text h u)"

section \<open>State\<close>

datatype permission_decision = DecisionAllow | DecisionDeny | DecisionCancel

fun decision_as_str :: "permission_decision \<Rightarrow> string" where
  "decision_as_str DecisionAllow = ''allow''"
| "decision_as_str DecisionDeny = ''deny''"
| "decision_as_str DecisionCancel = ''cancel''"

record binding_writer =
  bw_token :: uuid
  bw_session_id :: session_id

type_synonym writers = "string \<rightharpoonup> binding_writer"

record run_control =
  rc_run_id :: run_id
  rc_process_id :: u32
  rc_lease_token :: uuid
  rc_leased_binding :: "string option"
  rc_stdin :: "bytes list"
  rc_pending :: pending_tracker
  rc_stop_requested :: bool
  rc_finalized :: bool
  rc_raw_capture :: "raw_capture_state option"

record session_record =
  sr_session_id :: session_id
  sr_launching :: bool
  sr_state :: session_state
  sr_binding :: "string option"
  sr_active_run :: "run_id option"
  sr_last_exit :: "exit_cause option"
  sr_last_error :: "maestro_error option"
  sr_events :: event_log
  sr_sent :: "event_envelope list"
  sr_stderr :: bounded_bytes
  sr_raw_capture :: "run_id option"
  sr_runs :: "run_id \<Rightarrow> run_control"

text \<open>
  The table of runs is total: an identifier that was never launched stands for a finalized run
  without a lease, which no handler is given.
\<close>

definition no_run :: "run_id \<Rightarrow> run_control" where
  "no_run run = \<lparr>rc_run_id = run, rc_process_id = 0, rc_lease_token = 0, rc_leased_binding = None, rc_stdin = [],
     rc_pending = pending_tracker_new 0, rc_stop_requested = False, rc_finalized = True, rc_raw_capture = None\<rparr>"

definition session_record_new :: "session_id \<Rightarrow> session_record" where
  "session_record_new session =
     \<lparr>sr_session_id = session, sr_launching = False, sr_state = Created, sr_binding = None,
      sr_active_run = None, sr_last_exit = None, sr_last_error = None, sr_events = event_log_new,
      sr_sent = [], sr_stderr = bounded_bytes_default, sr_raw_capture = None, sr_runs = no_run\<rparr>"

definition update_run :: "run_id \<Rightarrow> (run_control \<Rightarrow> run_control) \<Rightarrow> session_record \<Rightarrow> session_record" where
  "update_run run f r = r\<lparr>sr_runs := (sr_runs r)(run := f (sr_runs r run))\<rparr>"

definition run_pending :: "session_record \<Rightarrow> run_id \<Rightarrow> pending_tracker" where
  "run_pending r run = rc_pending (sr_runs r run)"

definition set_pending :: "run_id \<Rightarrow> pending_tracker \<Rightarrow> session_record \<Rightarrow> session_record" where
  "set_pending run t r = update_run run (\<lambda>c. c\<lparr>rc_pending := t\<rparr>) r"

datatype structured_write_error = Definite maestro_error | Uncertain maestro_error

fun write_error_into_error :: "structured_write_error \<Rightarrow> maestro_error" where
  "write_error_into_error (Definite e) = e"
| "write_error_into_error (Uncertain e) = e"

section \<open>Validation and errors\<close>

definition validate_identifier :: "uuid \<Rightarrow> string \<Rightarrow> string \<Rightarrow> maestro_error + unit" where
  "validate_identifier cid value label =
     (if value = [] \<or> length value > MAX_LAUNCH_TEXT_BYTES \<or> CHR 0x0A \<in> set value \<or> CHR 0x0D \<in> set value
      then Inl (invalid_request cid (label @ '' is empty or too large'')) else Inr ())"

definition validate_launch ::
  "uuid \<Rightarrow> string \<Rightarrow> string \<Rightarrow> string \<Rightarrow> string option \<Rightarrow> maestro_error + unit" where
  "validate_launch cid executable scenario cwd binding =
     (if executable = [] then Inl (invalid_request cid ''the fake-agent executable path is empty'')
      else if cwd = [] then Inl (invalid_request cid ''the fake-agent working directory is empty'')
      else if \<not> starts_with scenario ''structured/'' \<or> scenario = [] \<or> length scenario > MAX_LAUNCH_TEXT_BYTES
      then Inl (invalid_request cid ''the fake-session scenario must be a bounded structured scenario'')
      else case binding of Some b \<Rightarrow> validate_identifier cid b ''vendor binding'' | None \<Rightarrow> Inr ())"

fun process_error_category :: "process_error \<Rightarrow> string" where
  "process_error_category (Capacity _) = ''capacity''"
| "process_error_category (ProcessIo _) = ''io''"
| "process_error_category (ProcessPty _) = ''pty''"
| "process_error_category (MissingStream _) = ''missing_stream''"
| "process_error_category AlreadyExited = ''already_exited''"
| "process_error_category MissingProcessId = ''missing_process_id''"
| "process_error_category (Termination _) = ''termination''"

definition safe_process_error :: "uuid \<Rightarrow> process_error \<Rightarrow> string \<Rightarrow> maestro_error" where
  "safe_process_error cid e operation =
     (maestro_error_new cid ProcessCrashed ''the fake CLI process operation failed'')
       \<lparr>err_details := Some (Object [(''operation'', String operation), (''category'', String (process_error_category e))])\<rparr>"

fun assoc_insert :: "'k \<Rightarrow> 'v \<Rightarrow> ('k \<times> 'v) list \<Rightarrow> ('k \<times> 'v) list" where
  "assoc_insert k v [] = [(k, v)]"
| "assoc_insert k v ((k', v') # rest) = (if k' = k then (k, v) # rest else (k', v') # assoc_insert k v rest)"

definition annotate_delivery_error :: "maestro_error \<Rightarrow> string \<Rightarrow> bool \<Rightarrow> maestro_error" where
  "annotate_delivery_error e delivery retry_safe =
     (let details = (case err_details e of Some (Object d) \<Rightarrow> d | _ \<Rightarrow> [])
      in e\<lparr>err_details := Some (Object (assoc_insert ''retry_safe'' (Bool retry_safe)
             (assoc_insert ''delivery'' (String delivery) details)))\<rparr>)"

definition session_not_found :: "host \<Rightarrow> uuid \<Rightarrow> session_id \<Rightarrow> maestro_error" where
  "session_not_found h cid session =
     (maestro_error_new cid SessionNotFound ''fake session does not exist'')
       \<lparr>err_details := Some (Object [(''session_id'', session_json h session)])\<rparr>"

definition SUPPORTED_EVENT_KINDS :: "string list" where
  "SUPPORTED_EVENT_KINDS = [''init'', ''message_delta'', ''tool_start'', ''tool_end'', ''artifact'', ''usage'',
     ''result'', ''permission_request'', ''permission_result'', ''user_input_request'', ''user_input_result'',
     ''ready'', ''action_ack'', ''message'', ''delta'', ''binding'', ''resumed'', ''child_started'', ''signal_ignored'']"

definition is_supported_event_kind :: "string \<Rightarrow> bool" where
  "is_supported_event_kind kind \<longleftrightarrow> kind \<in> set SUPPORTED_EVENT_KINDS"

definition required_string :: "json option \<Rightarrow> string \<Rightarrow> protocol_failure + string" where
  "required_string value field =
     (case Option.bind value as_str of
        Some (c # s) \<Rightarrow> Inr (c # s)
      | _ \<Rightarrow> Inl (protocol_failure_new (if field = ''binding_id'' then ''invalid_binding'' else ''invalid_request_id'') False))"

section \<open>Writer leases\<close>

definition claim_binding ::
  "host \<Rightarrow> uuid \<Rightarrow> string \<Rightarrow> uuid \<Rightarrow> session_id \<Rightarrow> writers \<Rightarrow> (maestro_error + unit) \<times> writers" where
  "claim_binding h cid binding token session w =
     (case validate_identifier cid binding ''vendor binding'' of
        Inl e \<Rightarrow> (Inl e, w)
      | Inr _ \<Rightarrow>
          (case w binding of
             Some owner \<Rightarrow>
               (Inl ((invalid_request cid ''the vendor binding already has an active writer'')
                  \<lparr>err_details := Some (Object [(''binding'', String binding),
                     (''owner_session_id'', session_json h (bw_session_id owner))])\<rparr>), w)
           | None \<Rightarrow> (Inr (), w(binding \<mapsto> \<lparr>bw_token = token, bw_session_id = session\<rparr>))))"

definition release_binding :: "string \<Rightarrow> uuid \<Rightarrow> writers \<Rightarrow> writers" where
  "release_binding binding token w =
     (case w binding of
        Some owner \<Rightarrow> if bw_token owner = token then w(binding := None) else w
      | None \<Rightarrow> w)"

section \<open>Events, writes and states\<close>

definition stamp_publication :: "stamp \<Rightarrow> run_id option \<Rightarrow> event_source \<Rightarrow> normalized_event \<Rightarrow> publication" where
  "stamp_publication st run source event =
     \<lparr>pub_cid = st_cid st, pub_event_id = st_event_id st, pub_now = st_now st, pub_run_id = run,
      pub_source = source, pub_event = event\<rparr>"

definition publish ::
  "fake_session_limits \<Rightarrow> stamp \<Rightarrow> run_id option \<Rightarrow> event_source \<Rightarrow> normalized_event \<Rightarrow> session_record \<Rightarrow>
   (maestro_error + event_envelope) \<times> session_record" where
  "publish l st run source event r =
     (case publish_log (sr_session_id r) (fl_replay_events l) (stamp_publication st run source event) (sr_events r) of
        (Inl e, _) \<Rightarrow> (Inl e, r)
      | (Inr envelope, log) \<Rightarrow> (Inr envelope, r\<lparr>sr_events := log, sr_sent := sr_sent r @ [envelope]\<rparr>))"

definition encode_json :: "host \<Rightarrow> fake_session_limits \<Rightarrow> uuid \<Rightarrow> json \<Rightarrow> maestro_error + bytes" where
  "encode_json h l cid value =
     (case h_to_vec h value of
        Inl _ \<Rightarrow> Inl (invalid_request cid ''the structured input could not be encoded'')
      | Inr text \<Rightarrow>
          let bytes = text @ [newline] in
          if length bytes > fl_maximum_input_bytes l
          then Inl ((maestro_error_new cid InputTooLarge ''structured input exceeds the configured maximum'')
                 \<lparr>err_details := Some (Object [(''actual_bytes'', nat_json (length bytes)),
                    (''maximum_bytes'', nat_json (fl_maximum_input_bytes l))])\<rparr>)
          else Inr bytes)"

text \<open>\<open>wr\<close> is the outcome of the write to the child's standard input.\<close>

definition write_json_bytes ::
  "uuid \<Rightarrow> process_error + unit \<Rightarrow> run_id \<Rightarrow> bytes \<Rightarrow> session_record \<Rightarrow>
   (structured_write_error + unit) \<times> session_record" where
  "write_json_bytes cid wr run bytes r =
     (if rc_finalized (sr_runs r run) \<or> rc_stop_requested (sr_runs r run)
      then (Inl (Definite (invalid_request cid ''the run no longer accepts input'')), r)
      else (case wr of
              Inr _ \<Rightarrow> (Inr (), update_run run (\<lambda>c. c\<lparr>rc_stdin := rc_stdin c @ [bytes]\<rparr>) r)
            | Inl (MissingStream s) \<Rightarrow> (Inl (Definite (safe_process_error cid (MissingStream s) ''stdin_write'')), r)
            | Inl e \<Rightarrow> (Inl (Uncertain (safe_process_error cid e ''stdin_write'')), r)))"

definition write_json ::
  "host \<Rightarrow> fake_session_limits \<Rightarrow> uuid \<Rightarrow> process_error + unit \<Rightarrow> run_id \<Rightarrow> json \<Rightarrow> session_record \<Rightarrow>
   (maestro_error + unit) \<times> session_record" where
  "write_json h l cid wr run value r =
     (case encode_json h l cid value of
        Inl e \<Rightarrow> (Inl e, r)
      | Inr bytes \<Rightarrow>
          (case write_json_bytes cid wr run bytes r of
             (Inl e, r') \<Rightarrow> (Inl (write_error_into_error e), r')
           | (Inr _, r') \<Rightarrow> (Inr (), r')))"

definition bridged_transition :: "session_state \<Rightarrow> session_state \<Rightarrow> bool" where
  "bridged_transition s target \<longleftrightarrow>
     (s = Starting \<and> target \<in> {AwaitingPermission, AwaitingUserInput}) \<or>
     (s \<in> {Ready, AwaitingPermission, AwaitingUserInput} \<and> target = Completed)"

definition set_state :: "session_state \<Rightarrow> session_record \<Rightarrow> session_record" where
  "set_state target r =
     (if sr_state r = target then r
      else if is_ok (transition_to (sr_state r) target) \<or> bridged_transition (sr_state r) target \<or> target = Starting
      then r\<lparr>sr_state := target\<rparr>
      else r)"

definition update_waiting_state :: "run_id \<Rightarrow> session_record \<Rightarrow> session_record" where
  "update_waiting_state run r =
     set_state (case waiting_state (run_pending r run) of Some s \<Rightarrow> s | None \<Rightarrow> Running) r"

section \<open>Pending requests of a run\<close>

text \<open>The timer that \<^verbatim>\<open>register_pending\<close> starts runs \<open>expire_request\<close> at the deadline.\<close>

definition register_pending ::
  "fake_session_limits \<Rightarrow> stamp \<Rightarrow> run_id \<Rightarrow> string \<Rightarrow> pending_kind \<Rightarrow> session_record \<Rightarrow>
   (maestro_error + unit) \<times> session_record" where
  "register_pending l st run request_id kind r =
     (case validate_identifier (st_cid st) request_id ''request ID'' of
        Inl e \<Rightarrow> (Inl e, r)
      | Inr _ \<Rightarrow>
          (case pending_register (st_cid st) request_id kind (st_instant st + fl_request_timeout l) (run_pending r run) of
             (result, t) \<Rightarrow> (result, set_pending run t r)))"

definition expiry_response :: "string \<Rightarrow> pending_kind \<Rightarrow> json option" where
  "expiry_response request_id kind =
     (case kind of
        PendPermission \<Rightarrow> Some (Object [(''request_id'', String request_id), (''decision'', String ''cancel'')])
      | PendUserInput \<Rightarrow> Some (Object [(''request_id'', String request_id), (''value'', Null)])
      | PendGuiAction \<Rightarrow> None)"

definition expire_request ::
  "host \<Rightarrow> fake_session_limits \<Rightarrow> stamp \<Rightarrow> process_error + unit \<Rightarrow> run_id \<Rightarrow> string \<Rightarrow> pending_kind \<Rightarrow>
   session_record \<Rightarrow> session_record" where
  "expire_request h l st wr run request_id kind r =
     (if rc_finalized (sr_runs r run) then r
      else (case pending_expire request_id kind (st_instant st) (run_pending r run) of
              (expired, t) \<Rightarrow>
                if \<not> expired then r
                else let r1 = snd (publish l st (Some run) Daemon
                           (normalized_event_user ''request_expired''
                              (Object [(''request_id'', String request_id),
                                       (''request_kind'', String (pending_label kind))]))
                           (set_pending run t r));
                         r2 = (case expiry_response request_id kind of
                                 Some response \<Rightarrow> snd (write_json h l (st_cid st) wr run response r1)
                               | None \<Rightarrow> r1)
                     in update_waiting_state run r2))"

definition claim_pending ::
  "stamp \<Rightarrow> run_id \<Rightarrow> string \<Rightarrow> pending_kind \<Rightarrow> session_record \<Rightarrow> (maestro_error + unit) \<times> session_record" where
  "claim_pending st run request_id kind r =
     (case claim_active (st_cid st) (st_instant st) request_id kind (run_pending r run) of
        (result, t) \<Rightarrow> (result, set_pending run t r))"

definition complete_pending ::
  "stamp \<Rightarrow> run_id \<Rightarrow> string \<Rightarrow> pending_kind \<Rightarrow> session_record \<Rightarrow> (maestro_error + unit) \<times> session_record" where
  "complete_pending st run request_id kind r =
     (case resolve_in_flight (st_cid st) request_id kind (run_pending r run) of
        (result, t) \<Rightarrow> (result, set_pending run t r))"

definition restore_pending :: "run_id \<Rightarrow> string \<Rightarrow> pending_kind \<Rightarrow> session_record \<Rightarrow> bool \<times> session_record" where
  "restore_pending run request_id kind r =
     (case restore_in_flight request_id kind (run_pending r run) of
        (restored, t) \<Rightarrow> (restored, set_pending run t r))"

definition mark_pending_delivery_uncertain ::
  "run_id \<Rightarrow> string \<Rightarrow> pending_kind \<Rightarrow> session_record \<Rightarrow> bool \<times> session_record" where
  "mark_pending_delivery_uncertain run request_id kind r =
     (case mark_delivery_uncertain request_id kind (run_pending r run) of
        (proved, t) \<Rightarrow> (proved, set_pending run t r))"

text \<open>The answer to a request was not delivered: it can be answered again, unless it has expired.\<close>

definition undelivered ::
  "host \<Rightarrow> fake_session_limits \<Rightarrow> stamp \<Rightarrow> process_error + unit \<Rightarrow> run_id \<Rightarrow> string \<Rightarrow> pending_kind \<Rightarrow>
   session_record \<Rightarrow> session_record" where
  "undelivered h l st wr run request_id kind r =
     (case restore_pending run request_id kind r of
        (True, r') \<Rightarrow> expire_request h l st wr run request_id kind r'
      | (False, r') \<Rightarrow> r')"

text \<open>
  \<open>st\<close> and \<open>wr\<close> belong to the delivery, \<open>st'\<close> and \<open>wr'\<close> to the expiry of an answer that was not delivered.
\<close>

definition deliver_pending_response ::
  "host \<Rightarrow> fake_session_limits \<Rightarrow> stamp \<Rightarrow> process_error + unit \<Rightarrow> stamp \<Rightarrow> process_error + unit \<Rightarrow> run_id \<Rightarrow>
   string \<Rightarrow> pending_kind \<Rightarrow> json \<Rightarrow> normalized_event \<Rightarrow> session_record \<Rightarrow> (maestro_error + unit) \<times> session_record" where
  "deliver_pending_response h l st wr st' wr' run request_id kind response audit_event r =
     (case claim_pending st run request_id kind r of
        (Inl e, r1) \<Rightarrow> (Inl e, r1)
      | (Inr _, r1) \<Rightarrow>
          (let finish = (\<lambda>r3.
                 case publish l st (Some run) Gui audit_event (update_waiting_state run r3) of
                   (Inl e, r4) \<Rightarrow> (Inl (annotate_delivery_error e ''delivered'' False), r4)
                 | (Inr _, r4) \<Rightarrow> (Inr (), r4))
           in case encode_json h l (st_cid st) response of
                Inl e \<Rightarrow> (Inl (annotate_delivery_error e ''not_delivered'' True),
                          undelivered h l st' wr' run request_id kind r1)
              | Inr bytes \<Rightarrow>
                  (case write_json_bytes (st_cid st) wr run bytes r1 of
                     (Inr _, r2) \<Rightarrow>
                       (case complete_pending st run request_id kind r2 of
                          (Inl e, r3) \<Rightarrow> (Inl (annotate_delivery_error e ''delivered'' False), r3)
                        | (Inr _, r3) \<Rightarrow> finish r3)
                   | (Inl (Definite e), r2) \<Rightarrow>
                       (Inl (annotate_delivery_error e ''not_delivered'' True),
                        undelivered h l st' wr' run request_id kind r2)
                   | (Inl (Uncertain e), r2) \<Rightarrow>
                       (case mark_pending_delivery_uncertain run request_id kind r2 of
                          (False, r3) \<Rightarrow>
                            (Inl (annotate_delivery_error e ''uncertain'' False), update_waiting_state run r3)
                        | (True, r3) \<Rightarrow> finish r3))))"

section \<open>Frames from the child\<close>

definition frame_failure :: "string \<Rightarrow> protocol_failure + 'a" where
  "frame_failure category = Inl (protocol_failure_new category False)"

text \<open>A frame that binds the run to a vendor session.\<close>

definition handle_binding ::
  "host \<Rightarrow> stamp \<Rightarrow> run_id \<Rightarrow> (string \<times> json) list \<Rightarrow> writers \<times> session_record \<Rightarrow>
   (protocol_failure + unit) \<times> writers \<times> session_record" where
  "handle_binding h st run object wr =
     (case wr of (w, r) \<Rightarrow>
      case required_string (map_of object ''binding_id'') ''binding_id'' of
        Inl f \<Rightarrow> (Inl f, w, r)
      | Inr binding \<Rightarrow>
          (case validate_identifier (st_cid st) binding ''vendor binding'' of
             Inl _ \<Rightarrow> (frame_failure ''invalid_binding'', w, r)
           | Inr _ \<Rightarrow>
               (case rc_leased_binding (sr_runs r run) of
                  Some existing \<Rightarrow>
                    if existing \<noteq> binding then (frame_failure ''binding_mismatch'', w, r)
                    else (Inr (), w, r\<lparr>sr_binding := Some binding\<rparr>)
                | None \<Rightarrow>
                    (case claim_binding h (st_cid st) binding (rc_lease_token (sr_runs r run)) (sr_session_id r) w of
                       (Inl _, w') \<Rightarrow> (frame_failure ''binding_writer_conflict'', w', r)
                     | (Inr _, w') \<Rightarrow>
                         (Inr (), w', (update_run run (\<lambda>c. c\<lparr>rc_leased_binding := Some binding\<rparr>) r)
                            \<lparr>sr_binding := Some binding\<rparr>)))))"

text \<open>A frame that asks the user for something, or that reports the result of an answer.\<close>

definition handle_request ::
  "fake_session_limits \<Rightarrow> stamp \<Rightarrow> run_id \<Rightarrow> (string \<times> json) list \<Rightarrow> pending_kind \<Rightarrow> string \<Rightarrow> session_state \<Rightarrow>
   session_record \<Rightarrow> (protocol_failure + unit) \<times> session_record" where
  "handle_request l st run object kind category target r =
     (case required_string (map_of object ''request_id'') ''request_id'' of
        Inl f \<Rightarrow> (Inl f, r)
      | Inr request_id \<Rightarrow>
          (case register_pending l st run request_id kind r of
             (Inl _, r') \<Rightarrow> (frame_failure category, r')
           | (Inr _, r') \<Rightarrow> (Inr (), set_state target r')))"

definition handle_result ::
  "run_id \<Rightarrow> (string \<times> json) list \<Rightarrow> pending_kind \<Rightarrow> string \<Rightarrow> session_record \<Rightarrow>
   (protocol_failure + unit) \<times> session_record" where
  "handle_result run object kind category r =
     (case required_string (map_of object ''request_id'') ''request_id'' of
        Inl f \<Rightarrow> (Inl f, r)
      | Inr request_id \<Rightarrow>
          (case confirm_resolved request_id kind (run_pending r run) of
             (False, t) \<Rightarrow> (frame_failure category, set_pending run t r)
           | (True, t) \<Rightarrow> (Inr (), update_waiting_state run (set_pending run t r))))"

definition handle_action_ack ::
  "stamp \<Rightarrow> run_id \<Rightarrow> (string \<times> json) list \<Rightarrow> session_record \<Rightarrow> (protocol_failure + unit) \<times> session_record" where
  "handle_action_ack st run object r =
     (case Option.bind (Option.bind (Option.bind (map_of object ''action'') as_object)
             (\<lambda>action. map_of action ''action_id'')) as_str of
        None \<Rightarrow> (frame_failure ''uncorrelated_action_ack'', r)
      | Some action_id \<Rightarrow>
          (case resolve_active (st_cid st) (st_instant st) action_id PendGuiAction (run_pending r run) of
             (Inl _, t) \<Rightarrow> (frame_failure ''uncorrelated_action_ack'', set_pending run t r)
           | (Inr _, t) \<Rightarrow> (Inr (), set_pending run t r)))"

definition PASSIVE_KINDS :: "string list" where
  "PASSIVE_KINDS = [''init'', ''message_delta'', ''tool_start'', ''tool_end'', ''artifact'', ''usage'', ''result'',
     ''ready'', ''message'', ''delta'', ''child_started'', ''signal_ignored'']"

definition dispatch_frame ::
  "host \<Rightarrow> fake_session_limits \<Rightarrow> stamp \<Rightarrow> run_id \<Rightarrow> string \<Rightarrow> (string \<times> json) list \<Rightarrow> writers \<times> session_record \<Rightarrow>
   (protocol_failure + unit) \<times> writers \<times> session_record" where
  "dispatch_frame h l st run kind object wr =
     (let w = fst wr; r = snd wr in
      if kind = ''binding'' \<or> kind = ''resumed'' then handle_binding h st run object wr
      else if kind = ''permission_request''
      then (case handle_request l st run object PendPermission ''invalid_permission_request'' AwaitingPermission r of
              (res, r') \<Rightarrow> (res, w, r'))
      else if kind = ''user_input_request''
      then (case handle_request l st run object PendUserInput ''invalid_user_input_request'' AwaitingUserInput r of
              (res, r') \<Rightarrow> (res, w, r'))
      else if kind = ''permission_result''
      then (case handle_result run object PendPermission ''uncorrelated_permission_result'' r of (res, r') \<Rightarrow> (res, w, r'))
      else if kind = ''user_input_result''
      then (case handle_result run object PendUserInput ''uncorrelated_user_input_result'' r of (res, r') \<Rightarrow> (res, w, r'))
      else if kind = ''action_ack''
      then (case handle_action_ack st run object r of (res, r') \<Rightarrow> (res, w, r'))
      else if kind \<in> set PASSIVE_KINDS then (Inr (), w, r)
      else (frame_failure ''unknown_event_type'', w, r))"

text \<open>The normalized event a frame is published as.\<close>

definition frame_event :: "string \<Rightarrow> json \<Rightarrow> (string \<times> json) list \<Rightarrow> normalized_event" where
  "frame_event kind value object =
     \<lparr>ev_kind = kind,
      ev_visibility = (if kind = ''user_input_result'' \<or> kind = ''action_ack'' then VisSensitive else VisUser),
      ev_payload = value, ev_vendor_event_id = Option.bind (map_of object ''event_id'') as_str,
      ev_raw_segment_reference = None\<rparr>"

definition handle_frame ::
  "host \<Rightarrow> fake_session_limits \<Rightarrow> stamp \<Rightarrow> run_id \<Rightarrow> json \<Rightarrow> writers \<times> session_record \<Rightarrow>
   (protocol_failure + unit) \<times> writers \<times> session_record" where
  "handle_frame h l st run value wr =
     (case as_object value of
        None \<Rightarrow> (frame_failure ''non_object_frame'', wr)
      | Some object \<Rightarrow>
          (case Option.bind (map_of object ''type'') as_str of
             None \<Rightarrow> (frame_failure ''invalid_event_type'', wr)
           | Some kind \<Rightarrow>
               if (case map_of object ''protocol_version'' of
                     Some version \<Rightarrow> as_u64 version \<noteq> Some SUPPORTED_FAKE_PROTOCOL_VERSION | None \<Rightarrow> False)
               then (Inl (protocol_failure_new ''unsupported_protocol_version'' True), wr)
               else if \<not> is_supported_event_kind kind then (frame_failure ''unknown_event_type'', wr)
               else (case dispatch_frame h l st run kind object wr of
                       (Inl f, wr') \<Rightarrow> (Inl f, wr')
                     | (Inr _, w', r') \<Rightarrow>
                         (case publish l st (Some run) Cli (frame_event kind value object) r' of
                            (Inl _, r2) \<Rightarrow> (frame_failure ''event_sequence_failure'', w', r2)
                          | (Inr _, r2) \<Rightarrow>
                              (Inr (), w', if sr_state r2 = Starting
                                           then set_state (if kind = ''ready'' then Ready else Running) r2 else r2)))))"

section \<open>The end of a run\<close>

definition record_protocol_failure ::
  "host \<Rightarrow> fake_session_limits \<Rightarrow> stamp \<Rightarrow> run_id \<Rightarrow> protocol_failure \<Rightarrow> session_record \<Rightarrow> session_record" where
  "record_protocol_failure h l st run failure r =
     (let inc = pf_incompatible failure;
          e0 = (maestro_error_new (st_cid st) (if inc then CliProtocolIncompatible else ProcessCrashed)
                 (if inc then ''the fake CLI protocol version is unsupported''
                  else ''the fake CLI emitted an invalid structured frame''))
                 \<lparr>err_details := Some (Object [(''category'', String (pf_category failure))])\<rparr>;
          e = (if inc then e0\<lparr>err_user_action := Some ''Use the exact TUI compatibility mode''\<rparr> else e0);
          r1 = r\<lparr>sr_state := (if inc then Incompatible else Failed), sr_last_error := Some e\<rparr>
      in snd (publish l st (Some run) Daemon
           (normalized_event_user (if inc then ''protocol_incompatible'' else ''protocol_error'')
              (Object [(''category'', String (pf_category failure)),
                       (''correlation_id'', String (h_uuid_text h (err_correlation_id e)))])) r1))"

fun exit_json :: "exit_cause \<Rightarrow> json" where
  "exit_json (Exited code) = Object [(''code'', int_json code)]"
| "exit_json (Signaled signal) = Object [(''signal'', int_json signal)]"
| "exit_json ExitUnknown = Object [(''unknown'', Bool True)]"

definition classify_completion ::
  "uuid \<Rightarrow> bool \<Rightarrow> protocol_failure option \<Rightarrow> bool \<Rightarrow> process_error + exit_cause \<Rightarrow>
   session_state \<times> exit_cause option \<times> maestro_error option" where
  "classify_completion cid stop_requested failure stderr_failed exit =
     (let exit_cause = (case exit of Inr c \<Rightarrow> Some c | Inl _ \<Rightarrow> None) in
      if stop_requested then (Stopped, exit_cause, None)
      else case failure of
        Some f \<Rightarrow>
          (if pf_incompatible f then Incompatible else Failed, exit_cause,
           Some ((maestro_error_new cid (if pf_incompatible f then CliProtocolIncompatible else ProcessCrashed)
              ''the structured fake CLI run failed protocol validation'')
              \<lparr>err_details := Some (Object [(''category'', String (pf_category f))])\<rparr>))
      | None \<Rightarrow>
          if stderr_failed
          then (Failed, exit_cause,
                Some (maestro_error_new cid ProcessCrashed ''the fake CLI stderr stream could not be read''))
          else (case exit_cause of
                  Some (Exited code) \<Rightarrow>
                    if code = 0 then (Completed, exit_cause, None)
                    else (Failed, exit_cause,
                          Some ((maestro_error_new cid ProcessCrashed ''the fake CLI process exited unsuccessfully'')
                            \<lparr>err_details := Some (Object [(''exit'', exit_json (Exited code))])\<rparr>))
                | Some cause \<Rightarrow>
                    (Failed, exit_cause,
                     Some ((maestro_error_new cid ProcessCrashed ''the fake CLI process exited unsuccessfully'')
                       \<lparr>err_details := Some (Object [(''exit'', exit_json cause)])\<rparr>))
                | None \<Rightarrow>
                    (Failed, None,
                     Some (maestro_error_new cid ProcessCrashed ''the fake CLI process could not be reaped''))))"

definition option_json :: "json option \<Rightarrow> json" where
  "option_json x = (case x of Some v \<Rightarrow> v | None \<Rightarrow> Null)"

definition finalize_run ::
  "host \<Rightarrow> fake_session_limits \<Rightarrow> stamp \<Rightarrow> run_id \<Rightarrow> protocol_failure option \<Rightarrow> bool \<Rightarrow> process_error + exit_cause \<Rightarrow>
   writers \<times> session_record \<Rightarrow> writers \<times> session_record" where
  "finalize_run h l st run failure stderr_failed exit wr =
     (case wr of (w, r) \<Rightarrow>
      let c = sr_runs r run in
      if rc_finalized c then (w, r)
      else let c' = c\<lparr>rc_finalized := True,
                     rc_raw_capture := map_option (\<lambda>p. p\<lparr>rp_complete := True\<rparr>) (rc_raw_capture c),
                     rc_pending := clear_active (rc_pending c), rc_leased_binding := None\<rparr>;
               w' = (case rc_leased_binding c of Some b \<Rightarrow> release_binding b (rc_lease_token c) w | None \<Rightarrow> w)
           in case classify_completion (st_cid st) (rc_stop_requested c) failure stderr_failed exit of
                (state, exit_cause, error) \<Rightarrow>
                  let r1 = r\<lparr>sr_runs := (sr_runs r)(run := c'),
                            sr_active_run := (if sr_active_run r = Some run then None else sr_active_run r),
                            sr_state := state, sr_last_exit := exit_cause,
                            sr_last_error := (case error of Some e \<Rightarrow> Some e | None \<Rightarrow> sr_last_error r)\<rparr>
                  in (w', case state of
                        Completed \<Rightarrow> snd (publish l st (Some run) Daemon
                            (normalized_event_user ''run_completed'' (Object [(''run_id'', run_json h run)])) r1)
                      | Stopped \<Rightarrow> snd (publish l st (Some run) Daemon
                            (normalized_event_user ''run_stopped'' (Object [(''run_id'', run_json h run)])) r1)
                      | Incompatible \<Rightarrow> r1
                      | _ \<Rightarrow> snd (publish l st (Some run) Daemon
                            (normalized_event_user ''run_failed'' (Object [(''run_id'', run_json h run),
                               (''correlation_id'', option_json (map_option (\<lambda>e. String (h_uuid_text h (err_correlation_id e))) error)),
                               (''exit'', option_json (map_option exit_json exit_cause))])) r1)))"

section \<open>Reading the child's output\<close>

text \<open>
  A stream is the list of its reads: \<^term>\<open>Inl ()\<close> is a failed read, \<^term>\<open>Inr chunk\<close> a non-empty chunk of
  at most \<^const>\<open>READ_CHUNK_BYTES\<close>, and the end of the list is the end of the stream.
\<close>

type_synonym reads = "(unit + bytes) list"

fun handle_frames ::
  "host \<Rightarrow> fake_session_limits \<Rightarrow> (nat \<Rightarrow> stamp) \<Rightarrow> nat \<Rightarrow> run_id \<Rightarrow> json list \<Rightarrow> writers \<times> session_record \<Rightarrow>
   (protocol_failure + unit) \<times> writers \<times> session_record" where
  "handle_frames h l st n run [] wr = (Inr (), wr)"
| "handle_frames h l st n run (v # vs) wr =
     (case handle_frame h l (st n) run v wr of
        (Inl f, wr') \<Rightarrow> (Inl f, wr')
      | (Inr _, wr') \<Rightarrow> handle_frames h l st (Suc n) run vs wr')"

definition capture_chunk :: "fake_session_limits \<Rightarrow> run_id \<Rightarrow> bytes \<Rightarrow> session_record \<Rightarrow> session_record" where
  "capture_chunk l run chunk r =
     update_run run (\<lambda>c. c\<lparr>rc_raw_capture :=
       map_option (\<lambda>p. raw_capture_push p chunk (fl_maximum_raw_protocol_bytes l)) (rc_raw_capture c)\<rparr>) r"

fun read_stdout_loop ::
  "host \<Rightarrow> fake_session_limits \<Rightarrow> (nat \<Rightarrow> stamp) \<Rightarrow> nat \<Rightarrow> run_id \<Rightarrow> json_line_decoder \<Rightarrow> reads \<Rightarrow>
   writers \<times> session_record \<Rightarrow> (protocol_failure + unit) \<times> writers \<times> session_record" where
  "read_stdout_loop h l st n run d [] wr = (jd_finish d, wr)"
| "read_stdout_loop h l st n run d (Inl () # reads) wr = (frame_failure ''stdout_io'', wr)"
| "read_stdout_loop h l st n run d (Inr chunk # reads) wr =
     (case jd_push (h_from_slice h) d chunk of
        (d', frames, failure) \<Rightarrow>
          (case handle_frames h l st n run frames (fst wr, capture_chunk l run chunk (snd wr)) of
             (Inl f, wr') \<Rightarrow> (Inl f, wr')
           | (Inr _, wr') \<Rightarrow>
               (case failure of
                  Some f \<Rightarrow> (Inl f, wr')
                | None \<Rightarrow> read_stdout_loop h l st (n + length frames) run d' reads wr')))"

definition read_stdout ::
  "host \<Rightarrow> fake_session_limits \<Rightarrow> (nat \<Rightarrow> stamp) \<Rightarrow> run_id \<Rightarrow> reads \<Rightarrow> writers \<times> session_record \<Rightarrow>
   (protocol_failure + unit) \<times> writers \<times> session_record" where
  "read_stdout h l st run reads wr =
     read_stdout_loop h l st 0 run (json_line_decoder_new (fl_maximum_frame_bytes l)) reads wr"

fun read_stderr :: "nat \<Rightarrow> reads \<Rightarrow> session_record \<Rightarrow> bool \<times> session_record" where
  "read_stderr limit [] r = (False, r)"
| "read_stderr limit (Inl () # reads) r = (True, r)"
| "read_stderr limit (Inr chunk # reads) r =
     read_stderr limit reads (r\<lparr>sr_stderr := bb_push (sr_stderr r) chunk limit\<rparr>)"

text \<open>
  The task of a run: standard error is read beside standard output; the two readers touch different
  parts of the record, so reading one after the other gives the same record. \<open>fin\<close> is the stamp of the
  end of the run and \<open>exit\<close> what waiting for the child returns.
\<close>

definition supervise_run ::
  "host \<Rightarrow> fake_session_limits \<Rightarrow> (nat \<Rightarrow> stamp) \<Rightarrow> stamp \<Rightarrow> stamp \<Rightarrow> run_id \<Rightarrow> reads \<Rightarrow> reads \<Rightarrow>
   process_error + exit_cause \<Rightarrow> writers \<times> session_record \<Rightarrow> writers \<times> session_record" where
  "supervise_run h l st fail fin run stdout stderr exit wr =
     (case read_stdout h l st run stdout wr of
        (result, w, r) \<Rightarrow>
          let failure = (case result of Inl f \<Rightarrow> Some f | Inr _ \<Rightarrow> None);
              r1 = (case failure of Some f \<Rightarrow> record_protocol_failure h l fail run f r | None \<Rightarrow> r)
          in case read_stderr (fl_stderr_bytes l) stderr r1 of
               (stderr_failed, r2) \<Rightarrow> finalize_run h l fin run failure stderr_failed exit (w, r2))"

section \<open>Launching\<close>

definition record_launch_failure ::
  "host \<Rightarrow> fake_session_limits \<Rightarrow> stamp \<Rightarrow> maestro_error \<Rightarrow> session_record \<Rightarrow> session_record" where
  "record_launch_failure h l st e r =
     snd (publish l st None Daemon
       (normalized_event_user ''run_launch_failed''
          (Object [(''correlation_id'', String (h_uuid_text h (err_correlation_id e)))]))
       (r\<lparr>sr_state := Failed, sr_last_error := Some e\<rparr>))"

text \<open>What spawning answers: the process identifier and whether the two output streams are there.\<close>

record spawned =
  sd_pid :: u32
  sd_stdout :: "process_error + unit"
  sd_stderr :: "process_error + unit"

record launch_request =
  lr_executable :: string
  lr_scenario :: string
  lr_cwd :: string
  lr_binding :: "string option"
  lr_volume :: "nat option"
  lr_capture :: bool

record fake_run_handle =
  fh_session_id :: session_id
  fh_run_id :: run_id
  fh_process_id :: u32

definition launch_spec :: "(nat \<Rightarrow> string) \<Rightarrow> launch_request \<Rightarrow> process_spec" where
  "launch_spec show_nat q =
     (let s0 = spec_arguments [''--scenario'', lr_scenario q] (process_spec_new (lr_executable q) (lr_cwd q));
          s1 = (case lr_binding q of Some b \<Rightarrow> spec_arguments [''--binding'', b] s0 | None \<Rightarrow> s0)
      in case lr_volume q of Some v \<Rightarrow> spec_arguments [''--volume'', show_nat v] s1 | None \<Rightarrow> s1)"

text \<open>The drop of the launch guard.\<close>

definition drop_guard :: "uuid \<Rightarrow> string option \<Rightarrow> bool \<Rightarrow> writers \<times> session_record \<Rightarrow> writers \<times> session_record" where
  "drop_guard token reserved committed wr =
     (case wr of (w, r) \<Rightarrow>
      (if committed then w else case reserved of Some b \<Rightarrow> release_binding b token w | None \<Rightarrow> w,
       r\<lparr>sr_launching := False\<rparr>))"

text \<open>The record at the start of a run, and with the run committed to it.\<close>

definition starting_record :: "launch_request \<Rightarrow> session_record \<Rightarrow> session_record" where
  "starting_record q r =
     (set_state Starting r)\<lparr>sr_stderr := bounded_bytes_default, sr_last_exit := None, sr_last_error := None,
        sr_binding := (if lr_binding q \<noteq> None then lr_binding q else sr_binding r)\<rparr>"

definition run_control_new ::
  "fake_session_limits \<Rightarrow> uuid \<Rightarrow> run_id \<Rightarrow> u32 \<Rightarrow> launch_request \<Rightarrow> run_control" where
  "run_control_new l token run pid q =
     \<lparr>rc_run_id = run, rc_process_id = pid, rc_lease_token = token, rc_leased_binding = lr_binding q, rc_stdin = [],
      rc_pending = pending_tracker_new (fl_pending_requests l), rc_stop_requested = False, rc_finalized = False,
      rc_raw_capture = (if lr_capture q then Some (raw_capture_new run) else None)\<rparr>"

definition commit_run ::
  "fake_session_limits \<Rightarrow> uuid \<Rightarrow> run_id \<Rightarrow> u32 \<Rightarrow> launch_request \<Rightarrow> session_record \<Rightarrow> session_record" where
  "commit_run l token run pid q r =
     r\<lparr>sr_active_run := Some run, sr_runs := (sr_runs r)(run := run_control_new l token run pid q),
       sr_raw_capture := (if lr_capture q then Some run else None)\<rparr>"

definition launch_failed ::
  "host \<Rightarrow> fake_session_limits \<Rightarrow> stamp \<Rightarrow> process_error \<Rightarrow> string \<Rightarrow> session_record \<Rightarrow>
   (maestro_error + u32) \<times> session_record" where
  "launch_failed h l st e operation r =
     (Inl (safe_process_error (st_cid st) e operation),
      record_launch_failure h l st (safe_process_error (st_cid st) e operation) r)"

text \<open>The part between the reservation and the guard's drop.\<close>

definition launch_reserved ::
  "host \<Rightarrow> fake_session_limits \<Rightarrow> stamp \<Rightarrow> uuid \<Rightarrow> run_id \<Rightarrow> process_error + spawned \<Rightarrow> launch_request \<Rightarrow>
   session_record \<Rightarrow> (maestro_error + u32) \<times> session_record" where
  "launch_reserved h l st token run spawn q r =
     (let r1 = starting_record q r in
      case spawn of
        Inl e \<Rightarrow> launch_failed h l st e ''spawn'' r1
      | Inr p \<Rightarrow>
          (case sd_stdout p of
             Inl e \<Rightarrow> launch_failed h l st e ''take_stdout'' r1
           | Inr _ \<Rightarrow>
               (case sd_stderr p of
                  Inl e \<Rightarrow> launch_failed h l st e ''take_stderr'' r1
                | Inr _ \<Rightarrow>
                    if sr_active_run r1 \<noteq> None
                    then (Inl (invalid_request (st_cid st) ''the logical session already has an active run''), r1)
                    else (Inr (sd_pid p), commit_run l token run (sd_pid p) q r1))))"

definition launch ::
  "host \<Rightarrow> fake_session_limits \<Rightarrow> stamp \<Rightarrow> uuid \<Rightarrow> run_id \<Rightarrow> process_error + spawned \<Rightarrow> launch_request \<Rightarrow>
   writers \<times> session_record \<Rightarrow> (maestro_error + fake_run_handle) \<times> writers \<times> session_record" where
  "launch h l st token run spawn q wr =
     (case wr of (w, r) \<Rightarrow>
      case validate_launch (st_cid st) (lr_executable q) (lr_scenario q) (lr_cwd q) (lr_binding q) of
        Inl e \<Rightarrow> (Inl e, w, r)
      | Inr _ \<Rightarrow>
          if sr_launching r
          then (Inl (invalid_request (st_cid st) ''the logical session is already launching a run''), w, r)
          else (case (case lr_binding q of
                        Some b \<Rightarrow> claim_binding h (st_cid st) b token (sr_session_id r) w
                      | None \<Rightarrow> (Inr (), w)) of
                  (Inl e, w1) \<Rightarrow> (Inl e, w1, r\<lparr>sr_launching := False\<rparr>)
                | (Inr _, w1) \<Rightarrow>
                    (case launch_reserved h l st token run spawn q (r\<lparr>sr_launching := True\<rparr>) of
                       (Inl e, r1) \<Rightarrow> (Inl e, drop_guard token (lr_binding q) False (w1, r1))
                     | (Inr pid, r1) \<Rightarrow>
                         (case drop_guard token (lr_binding q) True (w1, r1) of
                            (w2, r2) \<Rightarrow>
                              (case publish l st (Some run) Daemon
                                 (normalized_event_user ''run_started''
                                    (Object [(''run_id'', run_json h run), (''process_id'', nat_json (unat pid)),
                                             (''scenario'', String (lr_scenario q))])) r2 of
                                 (Inl e, r3) \<Rightarrow> (Inl e, w2, r3)
                               | (Inr _, r3) \<Rightarrow>
                                   (Inr \<lparr>fh_session_id = sr_session_id r, fh_run_id = run, fh_process_id = pid\<rparr>,
                                    w2, r3))))))"

section \<open>The supervisor\<close>

record supervisor =
  sv_limits :: fake_session_limits
  sv_sessions :: "session_id \<rightharpoonup> session_record"
  sv_writers :: writers

definition supervisor_new :: "uuid \<Rightarrow> fake_session_limits \<Rightarrow> maestro_error + supervisor" where
  "supervisor_new cid l =
     (case limits_validate cid l of
        Inl e \<Rightarrow> Inl e
      | Inr l' \<Rightarrow> Inr \<lparr>sv_limits = l', sv_sessions = Map.empty, sv_writers = Map.empty\<rparr>)"

definition sv_session :: "host \<Rightarrow> uuid \<Rightarrow> session_id \<Rightarrow> supervisor \<Rightarrow> maestro_error + session_record" where
  "sv_session h cid session v = ok_or (session_not_found h cid session) (sv_sessions v session)"

text \<open>\<open>session\<close> and \<open>run\<close> are the identifiers drawn for the new session and its run.\<close>

definition start_with_volume_and_raw_capture ::
  "host \<Rightarrow> stamp \<Rightarrow> session_id \<Rightarrow> uuid \<Rightarrow> run_id \<Rightarrow> process_error + spawned \<Rightarrow> launch_request \<Rightarrow> supervisor \<Rightarrow>
   (maestro_error + fake_run_handle) \<times> supervisor" where
  "start_with_volume_and_raw_capture h st session token run spawn q v =
     (if card (dom (sv_sessions v)) \<ge> fl_maximum_sessions (sv_limits v)
      then (Inl (invalid_request (st_cid st) ''fake-session retention limit has been reached''), v)
      else (case launch h (sv_limits v) st token run spawn q (sv_writers v, session_record_new session) of
              (Inr handle, w, r) \<Rightarrow>
                (Inr handle, v\<lparr>sv_writers := w, sv_sessions := (sv_sessions v)(session \<mapsto> r)\<rparr>)
            | (Inl e, w, r) \<Rightarrow>
                (Inl e, v\<lparr>sv_writers := w,
                          sv_sessions := (if sr_state r = Created then (sv_sessions v)(session := None)
                                          else (sv_sessions v)(session \<mapsto> r))\<rparr>)))"

definition resume_with_raw_capture ::
  "host \<Rightarrow> stamp \<Rightarrow> session_id \<Rightarrow> uuid \<Rightarrow> run_id \<Rightarrow> process_error + spawned \<Rightarrow> launch_request \<Rightarrow> supervisor \<Rightarrow>
   (maestro_error + fake_run_handle) \<times> supervisor" where
  "resume_with_raw_capture h st session token run spawn q v =
     (case sv_session h (st_cid st) session v of
        Inl e \<Rightarrow> (Inl e, v)
      | Inr r \<Rightarrow>
          if sr_active_run r \<noteq> None
          then (Inl (invalid_request (st_cid st) ''the logical session already has an active writer''), v)
          else if (\<exists>stored requested. sr_binding r = Some stored \<and> lr_binding q = Some requested \<and> stored \<noteq> requested)
          then (Inl (invalid_request (st_cid st) ''the requested binding does not match the logical session''), v)
          else let q' = q\<lparr>lr_binding := (if sr_binding r \<noteq> None then sr_binding r else lr_binding q), lr_volume := None\<rparr>
               in case launch h (sv_limits v) st token run spawn q' (sv_writers v, r) of
                    (result, w, r') \<Rightarrow>
                      (result, v\<lparr>sv_writers := w, sv_sessions := (sv_sessions v)(session \<mapsto> r')\<rparr>))"

definition sv_subscribe ::
  "host \<Rightarrow> uuid \<Rightarrow> session_id \<Rightarrow> u64 \<Rightarrow> supervisor \<Rightarrow>
   maestro_error + (event_envelope list \<times> replay_gap option)" where
  "sv_subscribe h cid session after v =
     and_then (sv_session h cid session v) (\<lambda>r. subscribe_log cid after (sr_events r))"

record fake_session_snapshot =
  sn_session_id :: session_id
  sn_active_run_id :: "run_id option"
  sn_state :: session_state
  sn_binding :: "string option"
  sn_latest_sequence :: u64
  sn_dropped_through_sequence :: u64
  sn_stderr :: bytes
  sn_stderr_truncated :: bool
  sn_last_exit :: "exit_cause option"
  sn_last_error :: "maestro_error option"

definition sv_snapshot :: "host \<Rightarrow> uuid \<Rightarrow> session_id \<Rightarrow> supervisor \<Rightarrow> maestro_error + fake_session_snapshot" where
  "sv_snapshot h cid session v =
     and_then (sv_session h cid session v) (\<lambda>r. Inr
       \<lparr>sn_session_id = session, sn_active_run_id = sr_active_run r, sn_state = sr_state r, sn_binding = sr_binding r,
        sn_latest_sequence = el_latest_sequence (sr_events r),
        sn_dropped_through_sequence = el_dropped_through_sequence (sr_events r),
        sn_stderr = bb_bytes (sr_stderr r), sn_stderr_truncated = bb_truncated (sr_stderr r),
        sn_last_exit = sr_last_exit r, sn_last_error = sr_last_error r\<rparr>)"

definition attach_active :: "host \<Rightarrow> uuid \<Rightarrow> session_id \<Rightarrow> supervisor \<Rightarrow> maestro_error + fake_run_handle" where
  "attach_active h cid session v =
     and_then (sv_session h cid session v) (\<lambda>r.
       case sr_active_run r of
         None \<Rightarrow> Inl (invalid_request cid ''the structured session does not have an active run'')
       | Some run \<Rightarrow>
           if rc_finalized (sr_runs r run)
           then Inl (invalid_request cid ''the structured session run has already finalized'')
           else Inr \<lparr>fh_session_id = session, fh_run_id = run, fh_process_id = rc_process_id (sr_runs r run)\<rparr>)"

definition sv_raw_capture ::
  "host \<Rightarrow> uuid \<Rightarrow> session_id \<Rightarrow> run_id \<Rightarrow> supervisor \<Rightarrow> maestro_error + raw_capture_state option" where
  "sv_raw_capture h cid session run v =
     and_then (sv_session h cid session v) (\<lambda>r. Inr
       (case sr_raw_capture r of
          None \<Rightarrow> None
        | Some captured \<Rightarrow>
            (case rc_raw_capture (sr_runs r captured) of
               None \<Rightarrow> None
             | Some c \<Rightarrow> if rp_run_id c \<noteq> run then None else Some c)))"

definition active_run ::
  "host \<Rightarrow> uuid \<Rightarrow> session_id \<Rightarrow> run_id \<Rightarrow> supervisor \<Rightarrow> maestro_error + session_record" where
  "active_run h cid session run v =
     and_then (sv_session h cid session v) (\<lambda>r.
       if sr_active_run r \<noteq> Some run
       then Inl (invalid_request cid ''the requested run is not active in this session'')
       else if rc_finalized (sr_runs r run)
       then Inl (invalid_request cid ''the requested run has already finalized'')
       else Inr r)"

text \<open>Running a handler on the record of an active run and storing the record it leaves.\<close>

definition on_active_run ::
  "host \<Rightarrow> uuid \<Rightarrow> session_id \<Rightarrow> run_id \<Rightarrow> (session_record \<Rightarrow> (maestro_error + 'a) \<times> session_record) \<Rightarrow>
   supervisor \<Rightarrow> (maestro_error + 'a) \<times> supervisor" where
  "on_active_run h cid session run f v =
     (case active_run h cid session run v of
        Inl e \<Rightarrow> (Inl e, v)
      | Inr r \<Rightarrow> (case f r of (result, r') \<Rightarrow> (result, v\<lparr>sv_sessions := (sv_sessions v)(session \<mapsto> r')\<rparr>)))"

definition respond_permission ::
  "host \<Rightarrow> stamp \<Rightarrow> process_error + unit \<Rightarrow> stamp \<Rightarrow> process_error + unit \<Rightarrow> session_id \<Rightarrow> run_id \<Rightarrow> string \<Rightarrow>
   permission_decision \<Rightarrow> supervisor \<Rightarrow> (maestro_error + unit) \<times> supervisor" where
  "respond_permission h st wr st' wr' session run request_id decision v =
     (case validate_identifier (st_cid st) request_id ''permission request ID'' of
        Inl e \<Rightarrow> (Inl e, v)
      | Inr _ \<Rightarrow>
          let payload = Object [(''request_id'', String request_id), (''decision'', String (decision_as_str decision))] in
          on_active_run h (st_cid st) session run
            (deliver_pending_response h (sv_limits v) st wr st' wr' run request_id PendPermission payload
               (normalized_event_user ''gui_permission_response'' payload)) v)"

definition respond_user_input ::
  "host \<Rightarrow> stamp \<Rightarrow> process_error + unit \<Rightarrow> stamp \<Rightarrow> process_error + unit \<Rightarrow> session_id \<Rightarrow> run_id \<Rightarrow> string \<Rightarrow>
   json \<Rightarrow> supervisor \<Rightarrow> (maestro_error + unit) \<times> supervisor" where
  "respond_user_input h st wr st' wr' session run request_id value v =
     (case validate_identifier (st_cid st) request_id ''user-input request ID'' of
        Inl e \<Rightarrow> (Inl e, v)
      | Inr _ \<Rightarrow>
          on_active_run h (st_cid st) session run
            (deliver_pending_response h (sv_limits v) st wr st' wr' run request_id PendUserInput
               (Object [(''request_id'', String request_id), (''value'', value)])
               \<lparr>ev_kind = ''gui_user_input_response'', ev_visibility = VisSensitive,
                ev_payload = Object [(''request_id'', String request_id), (''value_recorded'', Bool False)],
                ev_vendor_event_id = None, ev_raw_segment_reference = None\<rparr>) v)"

text \<open>\<open>action_id\<close> is the text of the identifier drawn for the action.\<close>

definition gui_action ::
  "host \<Rightarrow> fake_session_limits \<Rightarrow> stamp \<Rightarrow> process_error + unit \<Rightarrow> run_id \<Rightarrow> string \<Rightarrow> string \<Rightarrow> json \<Rightarrow>
   session_record \<Rightarrow> (maestro_error + string) \<times> session_record" where
  "gui_action h l st wr run action_id action payload r =
     (case register_pending l st run action_id PendGuiAction r of
        (Inl e, r1) \<Rightarrow> (Inl e, r1)
      | (Inr _, r1) \<Rightarrow>
          (case publish l st (Some run) Gui
             (normalized_event_user ''gui_action''
                (Object [(''action_id'', String action_id), (''action'', String action)])) r1 of
             (Inl e, r2) \<Rightarrow> (Inl e, r2)
           | (Inr _, r2) \<Rightarrow>
               (case write_json h l (st_cid st) wr run
                  (Object [(''action_id'', String action_id), (''action'', String action), (''payload'', payload)]) r2 of
                  (Inl e, r3) \<Rightarrow>
                    (Inl e, set_pending run (force_resolve action_id PendGuiAction (run_pending r3 run)) r3)
                | (Inr _, r3) \<Rightarrow> (Inr action_id, r3))))"

definition send_gui_action ::
  "host \<Rightarrow> stamp \<Rightarrow> process_error + unit \<Rightarrow> uuid \<Rightarrow> session_id \<Rightarrow> run_id \<Rightarrow> string \<Rightarrow> json \<Rightarrow> supervisor \<Rightarrow>
   (maestro_error + string) \<times> supervisor" where
  "send_gui_action h st wr drawn session run action payload v =
     (case validate_identifier (st_cid st) action ''GUI action name'' of
        Inl e \<Rightarrow> (Inl e, v)
      | Inr _ \<Rightarrow>
          on_active_run h (st_cid st) session run
            (gui_action h (sv_limits v) st wr run (h_uuid_text h drawn) action payload) v)"

text \<open>\<open>trm\<close> is the outcome of terminating the process group.\<close>

definition stop_run ::
  "host \<Rightarrow> fake_session_limits \<Rightarrow> stamp \<Rightarrow> process_error + exit_cause \<Rightarrow> run_id \<Rightarrow> session_record \<Rightarrow>
   (maestro_error + exit_cause) \<times> session_record" where
  "stop_run h l st trm run r =
     (if rc_stop_requested (sr_runs r run)
      then (Inl (invalid_request (st_cid st) ''the run is already stopping''), r)
      else let r1 = set_state Interrupting (update_run run (\<lambda>c. c\<lparr>rc_stop_requested := True\<rparr>) r)
           in case publish l st (Some run) Gui
                (normalized_event_user ''gui_stop_requested'' (Object [(''run_id'', run_json h run)])) r1 of
                (Inl e, r2) \<Rightarrow> (Inl e, r2)
              | (Inr _, r2) \<Rightarrow>
                  (case trm of
                     Inl e \<Rightarrow> (Inl (safe_process_error (st_cid st) e ''terminate''), r2)
                   | Inr cause \<Rightarrow> (Inr cause, r2)))"

definition sv_stop ::
  "host \<Rightarrow> stamp \<Rightarrow> process_error + exit_cause \<Rightarrow> session_id \<Rightarrow> run_id \<Rightarrow> supervisor \<Rightarrow>
   (maestro_error + exit_cause) \<times> supervisor" where
  "sv_stop h st trm session run v = on_active_run h (st_cid st) session run (stop_run h (sv_limits v) st trm run) v"

definition session_count :: "supervisor \<Rightarrow> nat" where
  "session_count v = card (dom (sv_sessions v))"

text \<open>
  Stopping everything: the sessions in some order, each with the stamp and the outcome of its
  termination; the result counts the terminations that were initiated.
\<close>

definition active_targets :: "supervisor \<Rightarrow> session_id list \<Rightarrow> (session_id \<times> run_id) list" where
  "active_targets v order =
     concat (map (\<lambda>s. case sv_sessions v s of
       None \<Rightarrow> []
     | Some r \<Rightarrow> (case sr_active_run r of
                   Some run \<Rightarrow> if rc_finalized (sr_runs r run) then [] else [(s, run)]
                 | None \<Rightarrow> [])) order)"

fun stop_targets ::
  "host \<Rightarrow> (session_id \<Rightarrow> stamp \<times> (process_error + exit_cause)) \<Rightarrow> (session_id \<times> run_id) list \<Rightarrow> supervisor \<Rightarrow>
   nat \<times> supervisor" where
  "stop_targets h outcome [] v = (0, v)"
| "stop_targets h outcome ((s, run) # rest) v =
     (case sv_stop h (fst (outcome s)) (snd (outcome s)) s run v of
        (result, v1) \<Rightarrow> (case stop_targets h outcome rest v1 of
           (n, v2) \<Rightarrow> ((if is_ok result then 1 else 0) + n, v2)))"

definition stop_all ::
  "host \<Rightarrow> (session_id \<Rightarrow> stamp \<times> (process_error + exit_cause)) \<Rightarrow> session_id list \<Rightarrow> supervisor \<Rightarrow> nat \<times> supervisor" where
  "stop_all h outcome order v = stop_targets h outcome (active_targets v order) v"

section \<open>Leases\<close>

lemma validate_identifier_cases:
  "validate_identifier cid v label = Inr () \<or> (\<exists>e. validate_identifier cid v label = Inl e)"
  by (simp add: validate_identifier_def)

definition valid_identifier :: "string \<Rightarrow> bool" where
  "valid_identifier v \<longleftrightarrow> v \<noteq> [] \<and> length v \<le> MAX_LAUNCH_TEXT_BYTES \<and> CHR 0x0A \<notin> set v \<and> CHR 0x0D \<notin> set v"

lemma validate_identifier_iff:
  "validate_identifier cid v label = (if valid_identifier v then Inr () else Inl (invalid_request cid (label @ '' is empty or too large'')))"
  by (auto simp: validate_identifier_def valid_identifier_def)

lemma claim_binding_free:
  "valid_identifier b \<Longrightarrow> w b = None \<Longrightarrow>
   claim_binding h cid b token session w = (Inr (), w(b \<mapsto> \<lparr>bw_token = token, bw_session_id = session\<rparr>))"
  by (simp add: claim_binding_def validate_identifier_iff)

lemma claim_binding_refused:
  "\<not> valid_identifier b \<or> w b \<noteq> None \<Longrightarrow> \<exists>e. claim_binding h cid b token session w = (Inl e, w)"
  unfolding claim_binding_def validate_identifier_iff by (cases "valid_identifier b"; cases "w b") simp_all

interpretation session_leases: writer_table "\<lambda>w. map_option bw_token \<circ> w" valid_identifier fst
  "\<lambda>b a w. claim_binding h cid b (fst a) (snd a) w" release_binding
  for h :: host and cid :: uuid
proof (unfold_locales, goal_cases)
  case (1 b w a)
  then have "w b = None" by simp
  with 1(1) show ?case
    by (intro exI [of _ "w(b \<mapsto> \<lparr>bw_token = fst a, bw_session_id = snd a\<rparr>)"])
      (simp add: claim_binding_free fun_eq_iff)
next
  case (2 b w a)
  then have "\<not> valid_identifier b \<or> w b \<noteq> None" by auto
  then show ?case by (rule claim_binding_refused)
next
  case (3 b t w)
  show ?case by (cases "w b") (auto simp: release_binding_def fun_eq_iff)
qed

section \<open>The invariant of a session record\<close>

text \<open>
  Every buffer is within its limit, the retained events are the newest of those sent to the live
  channel, numbered without a hole, and the trackers keep their invariant.
\<close>

definition session_inv :: "fake_session_limits \<Rightarrow> session_record \<Rightarrow> bool" where
  "session_inv l r \<longleftrightarrow>
     event_log_inv (fl_replay_events l) (sr_events r) \<and>
     length (sr_sent r) = unat (el_latest_sequence (sr_events r)) \<and>
     el_retained (sr_events r) = drop (unat (el_dropped_through_sequence (sr_events r))) (sr_sent r) \<and>
     length (bb_bytes (sr_stderr r)) \<le> fl_stderr_bytes l \<and>
     (\<forall>run. pending_inv (rc_pending (sr_runs r run)) \<and>
        (\<forall>c. rc_raw_capture (sr_runs r run) = Some c \<longrightarrow> length (rp_bytes c) \<le> fl_maximum_raw_protocol_bytes l))"

lemma publish_frame:
  "sr_runs (snd (publish l st run src ev r)) = sr_runs r"
  "sr_state (snd (publish l st run src ev r)) = sr_state r"
  "sr_stderr (snd (publish l st run src ev r)) = sr_stderr r"
  "sr_active_run (snd (publish l st run src ev r)) = sr_active_run r"
  "sr_launching (snd (publish l st run src ev r)) = sr_launching r"
  "sr_session_id (snd (publish l st run src ev r)) = sr_session_id r"
  "sr_binding (snd (publish l st run src ev r)) = sr_binding r"
  "sr_last_exit (snd (publish l st run src ev r)) = sr_last_exit r"
  "sr_last_error (snd (publish l st run src ev r)) = sr_last_error r"
  "sr_raw_capture (snd (publish l st run src ev r)) = sr_raw_capture r"
  by (simp_all add: publish_def split: prod.split sum.split)

declare publish_frame [simp]

lemma publish_log_Inr:
  assumes "publish_log session limit p log = (Inr x, log')" "event_log_inv limit log"
    and "length sent = unat (el_latest_sequence log)"
    and "el_retained log = drop (unat (el_dropped_through_sequence log)) sent"
  shows "event_log_inv limit log' \<and> length (sent @ [x]) = unat (el_latest_sequence log') \<and>
    el_retained log' = drop (unat (el_dropped_through_sequence log')) (sent @ [x])"
proof -
  let ?d = "unat (el_dropped_through_sequence log)" and ?d' = "unat (el_dropped_through_sequence log')"
  have app: "publish_append session limit p log = Some log'" using assms(1) by (simp add: publish_append_def)
  have room: "unat (el_latest_sequence log) + 1 < 2 ^ 64"
    using assms(1) by (auto simp: publish_log_def checked_add_def Let_def split: if_splits)
  from publish_append_facts [OF assms(2) room app] have f: "event_log_inv limit log'"
      "el_latest_sequence log' = el_latest_sequence log + 1" "?d \<le> ?d'" by auto
  obtain es d where t: "drop_oldest limit (el_retained log @ [x]) (el_dropped_through_sequence log) = (es, d)"
      "el_retained log' = es" "el_dropped_through_sequence log' = d" "env_sequence x = el_latest_sequence log + 1"
    using assms(1) by (auto simp: publish_log_def Let_def checked_add_def split: option.splits if_splits prod.splits)
  have "unat (el_latest_sequence log + 1) = unat (el_latest_sequence log) + 1"
    using room by (simp add: unat_word_ariths)
  then have "numbered env_sequence (el_retained log @ [x]) (el_dropped_through_sequence log) (el_latest_sequence log + 1)"
    using assms(2) room t(4) by (intro numbered_snoc) (auto simp: event_log_inv_def)
  from drop_oldest_facts [OF this t(1)] t have "el_retained log' = drop (?d' - ?d) (el_retained log @ [x])" by simp
  also have "\<dots> = drop (?d' - ?d) (drop ?d (sent @ [x]))"
    using assms(2-4) by (simp add: event_log_inv_def numbered_def)
  also have "\<dots> = drop ?d' (sent @ [x])" unfolding drop_drop using f(3) by simp
  finally show ?thesis using f(1,2) assms(3) room by (simp add: unat_word_ariths)
qed

lemma publish_inv [invariant_intros]:
  assumes "session_inv l r"
  shows "session_inv l (snd (publish l st run src ev r))"
proof (cases "publish_log (sr_session_id r) (fl_replay_events l) (stamp_publication st run src ev) (sr_events r)")
  case (Pair res log)
  show ?thesis
  proof (cases res)
    case (Inl e)
    then show ?thesis using Pair assms by (simp add: publish_def)
  next
    case (Inr x)
    with Pair have p: "publish_log (sr_session_id r) (fl_replay_events l) (stamp_publication st run src ev) (sr_events r)
        = (Inr x, log)" by simp
    from publish_log_Inr [OF p, of "sr_sent r"] assms have "event_log_inv (fl_replay_events l) log \<and>
        length (sr_sent r @ [x]) = unat (el_latest_sequence log) \<and>
        el_retained log = drop (unat (el_dropped_through_sequence log)) (sr_sent r @ [x])"
      unfolding session_inv_def by blast
    then show ?thesis using p assms unfolding session_inv_def by (simp add: publish_def)
  qed
qed

lemma tracker_inv:
  assumes "pending_inv t"
  shows "pending_inv (snd (pending_register cid i k d t))" "pending_inv (snd (claim_active cid now i k t))"
    "pending_inv (snd (restore_in_flight i k t))" "pending_inv (snd (resolve_in_flight cid i k t))"
    "pending_inv (snd (mark_delivery_uncertain i k t))" "pending_inv (snd (resolve_active cid now i k t))"
    "pending_inv (force_resolve i k t)" "pending_inv (snd (pending_expire i k now t))"
    "pending_inv (snd (confirm_resolved i k t))" "pending_inv (clear_active t)"
  using pending_exec_inv [OF assms, of cid "OpRegister i k d"] pending_exec_inv [OF assms, of cid "OpClaim now i k"]
    pending_exec_inv [OF assms, of cid "OpRestore i k"] pending_exec_inv [OF assms, of cid "OpResolveInFlight i k"]
    pending_exec_inv [OF assms, of cid "OpUncertain i k"] pending_exec_inv [OF assms, of cid "OpResolveActive now i k"]
    pending_exec_inv [OF assms, of cid "OpForce i k"] pending_exec_inv [OF assms, of cid "OpExpire i k now"]
    pending_exec_inv [OF assms, of cid "OpConfirm i k"] pending_exec_inv [OF assms, of cid OpClear]
  by simp_all

lemma session_inv_pending: "session_inv l r \<Longrightarrow> pending_inv (run_pending r run)"
  by (simp add: session_inv_def run_pending_def)

lemma set_state_inv [simp]: "session_inv l (set_state s r) \<longleftrightarrow> session_inv l r"
  by (simp add: set_state_def session_inv_def)

lemma update_waiting_state_inv [simp]: "session_inv l (update_waiting_state run r) \<longleftrightarrow> session_inv l r"
  by (simp add: update_waiting_state_def)

lemma set_pending_inv [invariant_intros]:
  "session_inv l r \<Longrightarrow> pending_inv t \<Longrightarrow> session_inv l (set_pending run t r)"
  by (simp add: session_inv_def set_pending_def update_run_def)

lemma update_run_inv:
  assumes "session_inv l r" "pending_inv (rc_pending (f (sr_runs r run)))"
    and "\<forall>c. rc_raw_capture (f (sr_runs r run)) = Some c \<longrightarrow> length (rp_bytes c) \<le> fl_maximum_raw_protocol_bytes l"
  shows "session_inv l (update_run run f r)"
  using assms by (simp add: session_inv_def update_run_def)

lemma session_inv_irrelevant [simp]:
  "session_inv l (r\<lparr>sr_state := s\<rparr>) = session_inv l r" "session_inv l (r\<lparr>sr_binding := b\<rparr>) = session_inv l r"
  "session_inv l (r\<lparr>sr_launching := b'\<rparr>) = session_inv l r" "session_inv l (r\<lparr>sr_active_run := a\<rparr>) = session_inv l r"
  "session_inv l (r\<lparr>sr_last_exit := x\<rparr>) = session_inv l r" "session_inv l (r\<lparr>sr_last_error := e\<rparr>) = session_inv l r"
  "session_inv l (r\<lparr>sr_raw_capture := c\<rparr>) = session_inv l r"
  by (simp_all add: session_inv_def)

lemma write_json_bytes_inv [invariant_intros]:
  "session_inv l r \<Longrightarrow> session_inv l (snd (write_json_bytes cid wr run bytes r))"
  using update_run_inv [of l r "\<lambda>c. c\<lparr>rc_stdin := rc_stdin c @ [bytes]\<rparr>" run] session_inv_pending [of l r run]
  by (auto simp: write_json_bytes_def run_pending_def session_inv_def split: sum.split process_error.split)

lemma write_json_inv [invariant_intros]:
  "session_inv l r \<Longrightarrow> session_inv l (snd (write_json h l' cid wr run v r))"
  using write_json_bytes_inv [of l r cid wr run] by (auto simp: write_json_def split: sum.split prod.split) (metis snd_conv)+

lemma register_pending_inv [invariant_intros]:
  "session_inv l r \<Longrightarrow> session_inv l (snd (register_pending l' st run i k r))"
  using set_pending_inv tracker_inv(1) session_inv_pending
  by (auto simp: register_pending_def split: sum.split prod.split) (metis snd_conv)

lemma expire_request_inv [invariant_intros]:
  assumes "session_inv l r"
  shows "session_inv l (expire_request h l st wr run i k r)"
proof -
  obtain b t where e: "pending_expire i k (st_instant st) (run_pending r run) = (b, t)" by fastforce
  have "pending_inv t"
    using tracker_inv(8) [OF session_inv_pending [OF assms, of run], of i k "st_instant st"] e by simp
  then have "session_inv l (set_pending run t r)" using assms by (intro invariant_intros)
  then show ?thesis
    using assms e by (auto simp: expire_request_def Let_def split: option.split intro!: invariant_intros)
qed

text \<open>The handlers that run one tracker operation on the run's tracker.\<close>

lemma tracker_step_inv [invariant_intros]:
  assumes "session_inv l r"
  shows "session_inv l (snd (claim_pending st run i k r))" "session_inv l (snd (complete_pending st run i k r))"
    "session_inv l (snd (restore_pending run i k r))" "session_inv l (snd (mark_pending_delivery_uncertain run i k r))"
  using tracker_inv [OF session_inv_pending [OF assms, of run]] assms
  by (auto simp: claim_pending_def complete_pending_def restore_pending_def mark_pending_delivery_uncertain_def
      split: prod.split intro!: set_pending_inv dest!: arg_cong [of _ _ snd])

lemma undelivered_inv [invariant_intros]:
  "session_inv l r \<Longrightarrow> session_inv l (undelivered h l st wr run i k r)"
  using tracker_step_inv(3) [of l r run i k]
  by (auto simp: undelivered_def split: prod.split bool.split intro!: invariant_intros)

lemma deliver_inv [invariant_intros]:
  assumes "session_inv l r"
  shows "session_inv l (snd (deliver_pending_response h l st wr st' wr' run i k response audit r))"
proof -
  have claimed: "session_inv l r1" if "claim_pending st run i k r = (x, r1)" for x r1
    using tracker_step_inv(1) [OF assms, of st run i k] that by simp
  have written: "session_inv l r2" if "session_inv l r1" "write_json_bytes (st_cid st) wr run bytes r1 = (x, r2)" for r1 r2 x bytes
    using write_json_bytes_inv [OF that(1), of "st_cid st" wr run bytes] that(2) by simp
  have completed: "session_inv l r3" if "session_inv l r2" "complete_pending st run i k r2 = (x, r3)" for r2 r3 x
    using tracker_step_inv(2) [OF that(1), of st run i k] that(2) by simp
  have marked: "session_inv l r3" if "session_inv l r2" "mark_pending_delivery_uncertain run i k r2 = (x, r3)" for r2 r3 x
    using tracker_step_inv(4) [OF that(1), of run i k] that(2) by simp
  have finished: "session_inv l (snd (case publish l st (Some run) Gui audit (update_waiting_state run r3) of
        (Inl e, r4) \<Rightarrow> (Inl (annotate_delivery_error e ''delivered'' False), r4)
      | (Inr _, r4) \<Rightarrow> (Inr (), r4)))" if "session_inv l r3" for r3
    using publish_inv [of l "update_waiting_state run r3" st "Some run" Gui audit] that
    by (cases "publish l st (Some run) Gui audit (update_waiting_state run r3)") (simp split: sum.split)
  obtain x r1 where c: "claim_pending st run i k r = (x, r1)" by (metis surj_pair)
  note inv1 = claimed [OF c]
  show ?thesis
  proof (cases x)
    case (Inl e)
    then show ?thesis using c inv1 by (simp add: deliver_pending_response_def)
  next
    case x: (Inr u)
    show ?thesis
    proof (cases "encode_json h l (st_cid st) response")
      case (Inl e)
      then show ?thesis using c x inv1 by (simp add: deliver_pending_response_def undelivered_inv)
    next
      case enc: (Inr bytes)
      obtain y r2 where w: "write_json_bytes (st_cid st) wr run bytes r1 = (y, r2)" by (metis surj_pair)
      note inv2 = written [OF inv1 w]
      obtain z r3 where z: "complete_pending st run i k r2 = (z, r3)" by (metis surj_pair)
      obtain m r4 where m: "mark_pending_delivery_uncertain run i k r2 = (m, r4)" by (metis surj_pair)
      note inv3 = completed [OF inv2 z] and inv4 = marked [OF inv2 m]
      show ?thesis
      proof (cases y)
        case (Inr u')
        then show ?thesis
          using c x enc w z inv3 finished [OF inv3] by (cases z) (simp_all add: deliver_pending_response_def)
      next
        case (Inl f)
        then show ?thesis
          using c x enc w m inv2 inv4 finished [OF inv4] undelivered_inv [OF inv2]
          by (cases f; cases m) (simp_all add: deliver_pending_response_def)
      qed
    qed
  qed
qed

lemma handle_request_inv:
  "session_inv l r \<Longrightarrow> session_inv l (snd (handle_request l' st run obj k c target r))"
  using register_pending_inv [of l r l' st run _ k]
  by (auto simp: handle_request_def split: sum.split prod.split) (metis snd_conv)+

lemma handle_result_inv:
  assumes "session_inv l r"
  shows "session_inv l (snd (handle_result run obj k c r))"
proof -
  have "pending_inv t" if "confirm_resolved i k (run_pending r run) = (b, t)" for i b t
    using tracker_inv(9) [OF session_inv_pending [OF assms, of run], of i k] that by simp
  then show ?thesis
    using assms by (auto simp: handle_result_def split: sum.split prod.split bool.split intro!: set_pending_inv)
qed

lemma handle_action_ack_inv:
  assumes "session_inv l r"
  shows "session_inv l (snd (handle_action_ack st run obj r))"
proof -
  have "pending_inv t" if "resolve_active (st_cid st) (st_instant st) i PendGuiAction (run_pending r run) = (b, t)" for i b t
    using tracker_inv(6) [OF session_inv_pending [OF assms, of run], of "st_cid st" "st_instant st" i PendGuiAction] that by simp
  then show ?thesis
    using assms by (auto simp: handle_action_ack_def split: sum.split prod.split option.split intro!: set_pending_inv)
qed

lemma handle_binding_inv:
  assumes "session_inv l (snd wr)"
  shows "session_inv l (snd (snd (handle_binding h st run obj wr)))"
proof -
  have "session_inv l (update_run run (\<lambda>c. c\<lparr>rc_leased_binding := b\<rparr>) (snd wr))" for b
    using assms by (intro update_run_inv) (auto simp: session_inv_def)
  then show ?thesis
    using assms by (cases wr) (auto simp: handle_binding_def split: sum.split prod.split option.split)
qed

lemma dispatch_frame_inv:
  "session_inv l (snd wr) \<Longrightarrow> session_inv l (snd (snd (dispatch_frame h l' st run kind obj wr)))"
  using handle_request_inv [of l "snd wr" l' st run obj] handle_result_inv [of l "snd wr" run obj]
    handle_action_ack_inv [of l "snd wr" st run obj] handle_binding_inv [of l wr h st run obj]
  unfolding dispatch_frame_def Let_def by (simp add: split_beta)

lemma handle_frame_cases:
  obtains (rejected) f where "handle_frame h l st run v wr = (Inl f, wr)"
    | (failed) kind obj f wr' where "dispatch_frame h l st run kind obj wr = (Inl f, wr')"
        "handle_frame h l st run v wr = (Inl f, wr')"
    | (full) kind obj w' r' e r2 where "dispatch_frame h l st run kind obj wr = (Inr (), w', r')"
        "publish l st (Some run) Cli (frame_event kind v obj) r' = (Inl e, r2)"
        "handle_frame h l st run v wr = (frame_failure ''event_sequence_failure'', w', r2)"
    | (handled) kind obj w' r' x r2 where "v = Object obj" "dispatch_frame h l st run kind obj wr = (Inr (), w', r')"
        "publish l st (Some run) Cli (frame_event kind v obj) r' = (Inr x, r2)"
        "handle_frame h l st run v wr =
          (Inr (), w', if sr_state r2 = Starting then set_state (if kind = ''ready'' then Ready else Running) r2 else r2)"
proof (cases "\<exists>f. handle_frame h l st run v wr = (Inl f, wr)")
  case True
  then show ?thesis using rejected by blast
next
  case False
  then obtain obj kind where v: "v = Object obj" "Option.bind (map_of obj ''type'') as_str = Some kind"
      "\<not> (case map_of obj ''protocol_version'' of
           Some version \<Rightarrow> as_u64 version \<noteq> Some SUPPORTED_FAKE_PROTOCOL_VERSION | None \<Rightarrow> False)"
      "is_supported_event_kind kind"
    by (cases v) (auto simp: handle_frame_def frame_failure_def split: option.splits if_splits)
  obtain x w' r' where d: "dispatch_frame h l st run kind obj wr = (x, w', r')" by (metis surj_pair)
  obtain y r2 where p: "publish l st (Some run) Cli (frame_event kind v obj) r' = (y, r2)" by (metis surj_pair)
  have eq: "handle_frame h l st run v wr = (case x of Inl f \<Rightarrow> (Inl f, w', r') | Inr _ \<Rightarrow>
      (case y of Inl _ \<Rightarrow> (frame_failure ''event_sequence_failure'', w', r2)
       | Inr _ \<Rightarrow> (Inr (), w', if sr_state r2 = Starting
                      then set_state (if kind = ''ready'' then Ready else Running) r2 else r2)))"
    using v(2-4) d p unfolding v(1) by (cases x; cases y) (simp_all add: handle_frame_def)
  show ?thesis
  proof (cases x)
    case (Inl f)
    with d eq show ?thesis by (intro failed) simp_all
  next
    case (Inr u)
    then have d': "dispatch_frame h l st run kind obj wr = (Inr (), w', r')" using d by simp
    show ?thesis
    proof (cases y)
      case (Inl e)
      with p eq Inr show ?thesis by (intro full [OF d']) simp_all
    next
      case y: (Inr z)
      with p eq Inr show ?thesis by (intro handled [OF v(1) d']) simp_all
    qed
  qed
qed

lemma handle_frame_inv [invariant_intros]:
  assumes "session_inv l (snd wr)"
  shows "session_inv l (snd (snd (handle_frame h l st run v wr)))"
proof (cases rule: handle_frame_cases [of h l st run v wr])
  case (rejected f)
  then show ?thesis using assms by simp
next
  case (failed kind obj f wr')
  then show ?thesis using dispatch_frame_inv [OF assms, of h l st run kind obj] by simp
next
  case (full kind obj w' r' e r2)
  then show ?thesis
    using dispatch_frame_inv [OF assms, of h l st run kind obj]
      publish_inv [of l r' st "Some run" Cli "frame_event kind v obj"] by simp
next
  case (handled kind obj w' r' x r2)
  then show ?thesis
    using dispatch_frame_inv [OF assms, of h l st run kind obj]
      publish_inv [of l r' st "Some run" Cli "frame_event kind v obj"] by simp
qed

lemma handle_frames_inv:
  "session_inv l (snd wr) \<Longrightarrow> session_inv l (snd (snd (handle_frames h l st n run vs wr)))"
proof (induction vs arbitrary: n wr)
  case (Cons v vs)
  obtain x wr' where f: "handle_frame h l (st n) run v wr = (x, wr')" by (metis surj_pair)
  with handle_frame_inv [OF Cons.prems, of h "st n" run v] have "session_inv l (snd wr')" by simp
  with f Cons.IH [of wr' "Suc n"] show ?case by (simp split: sum.split)
qed simp

lemma capture_chunk_inv:
  assumes "session_inv l r"
  shows "session_inv l (capture_chunk l run chunk r)"
proof -
  have "length (rp_bytes (raw_capture_push p chunk n)) \<le> n" if "length (rp_bytes p) \<le> n" for p n
    using that by (auto simp: raw_capture_push_def Let_def)
  then show ?thesis unfolding capture_chunk_def using assms
    by (intro update_run_inv) (auto simp: session_inv_def)
qed

lemma read_stdout_inv:
  "session_inv l (snd wr) \<Longrightarrow> session_inv l (snd (snd (read_stdout_loop h l st n run d reads wr)))"
proof (induction reads arbitrary: n d wr)
  case (Cons rd reads)
  show ?case
  proof (cases rd)
    case (Inl u)
    then show ?thesis using Cons.prems by simp
  next
    case rd: (Inr chunk)
    obtain d' fs f where p: "jd_push (h_from_slice h) d chunk = (d', fs, f)" by (metis surj_pair)
    obtain x wr' where hf: "handle_frames h l st n run fs (fst wr, capture_chunk l run chunk (snd wr)) = (x, wr')"
      by (metis surj_pair)
    have "session_inv l (snd wr')"
      using handle_frames_inv [of l "(fst wr, capture_chunk l run chunk (snd wr))" h st n run fs]
        capture_chunk_inv [OF Cons.prems] hf by simp
    then show ?thesis
      using rd p hf Cons.IH [of wr' "n + length fs" d'] by (simp split: sum.split option.split)
  qed
qed simp

lemma bb_push_bound: "length (bb_bytes b) \<le> n \<Longrightarrow> length (bb_bytes (bb_push b data n)) \<le> n"
  by (auto simp: bb_push_def bb_trim_eq)

lemma read_stderr_inv:
  "session_inv l r \<Longrightarrow> session_inv l (snd (read_stderr (fl_stderr_bytes l) reads r))"
proof (induction "fl_stderr_bytes l" reads r rule: read_stderr.induct)
  case (3 chunk reads r)
  have "session_inv l (r\<lparr>sr_stderr := bb_push (sr_stderr r) chunk (fl_stderr_bytes l)\<rparr>)"
    using "3.prems" bb_push_bound by (simp add: session_inv_def)
  then show ?case using "3.hyps" by simp
qed simp_all

lemma record_protocol_failure_inv:
  "session_inv l r \<Longrightarrow> session_inv l (record_protocol_failure h l st run f r)"
  unfolding record_protocol_failure_def Let_def by (intro publish_inv) simp

lemma finalize_shape:
  assumes "\<not> rc_finalized (sr_runs r run)"
    and "classify_completion (st_cid st) (rc_stop_requested (sr_runs r run)) failure stderr_failed exit = (s, x, e)"
  defines "c' \<equiv> (sr_runs r run)\<lparr>rc_finalized := True,
      rc_raw_capture := map_option (\<lambda>p. p\<lparr>rp_complete := True\<rparr>) (rc_raw_capture (sr_runs r run)),
      rc_pending := clear_active (rc_pending (sr_runs r run)), rc_leased_binding := None\<rparr>"
  defines "r1 \<equiv> r\<lparr>sr_runs := (sr_runs r)(run := c'),
      sr_active_run := (if sr_active_run r = Some run then None else sr_active_run r),
      sr_state := s, sr_last_exit := x, sr_last_error := (case e of Some e \<Rightarrow> Some e | None \<Rightarrow> sr_last_error r)\<rparr>"
  shows "fst (finalize_run h l st run failure stderr_failed exit (w, r)) =
      (case rc_leased_binding (sr_runs r run) of Some b \<Rightarrow> release_binding b (rc_lease_token (sr_runs r run)) w | None \<Rightarrow> w)"
    and "snd (finalize_run h l st run failure stderr_failed exit (w, r)) = r1 \<or>
      (\<exists>ev. snd (finalize_run h l st run failure stderr_failed exit (w, r)) = snd (publish l st (Some run) Daemon ev r1))"
proof -
  have run: "finalize_run h l st run failure stderr_failed exit (w, r) =
      (case rc_leased_binding (sr_runs r run) of Some b \<Rightarrow> release_binding b (rc_lease_token (sr_runs r run)) w | None \<Rightarrow> w,
       snd (finalize_run h l st run failure stderr_failed exit (w, r)))"
    by (simp add: finalize_run_def Let_def assms(1,2))
  then show "fst (finalize_run h l st run failure stderr_failed exit (w, r)) =
      (case rc_leased_binding (sr_runs r run) of Some b \<Rightarrow> release_binding b (rc_lease_token (sr_runs r run)) w | None \<Rightarrow> w)"
    by (metis fst_conv)
  have "\<exists>ev. snd (finalize_run h l st run failure stderr_failed exit (w, r)) =
      (if s = Incompatible then r1 else snd (publish l st (Some run) Daemon ev r1))"
    unfolding finalize_run_def Let_def prod.case assms(1,2) c'_def [symmetric] r1_def [symmetric]
    by (cases s) (simp_all only: assms(1) if_False snd_conv session_state.case session_state.distinct if_True simp_thms, blast+)
  then show "snd (finalize_run h l st run failure stderr_failed exit (w, r)) = r1 \<or>
      (\<exists>ev. snd (finalize_run h l st run failure stderr_failed exit (w, r)) = snd (publish l st (Some run) Daemon ev r1))"
    by (metis (full_types))
qed

lemma finalize_inv:
  assumes "session_inv l r"
  shows "session_inv l (snd (finalize_run h l st run failure stderr_failed exit (w, r)))"
proof (cases "rc_finalized (sr_runs r run)")
  case True
  then show ?thesis using assms by (simp add: finalize_run_def Let_def)
next
  case False
  obtain s x e where c: "classify_completion (st_cid st) (rc_stop_requested (sr_runs r run)) failure stderr_failed exit = (s, x, e)"
    by (metis surj_pair)
  have "pending_inv (clear_active (rc_pending (sr_runs r run)))"
    using tracker_inv(10) session_inv_pending [OF assms, of run] by (simp add: run_pending_def)
  then have "session_inv l (r\<lparr>sr_runs := (sr_runs r)(run := (sr_runs r run)\<lparr>rc_finalized := True,
      rc_raw_capture := map_option (\<lambda>p. p\<lparr>rp_complete := True\<rparr>) (rc_raw_capture (sr_runs r run)),
      rc_pending := clear_active (rc_pending (sr_runs r run)), rc_leased_binding := None\<rparr>),
      sr_active_run := (if sr_active_run r = Some run then None else sr_active_run r),
      sr_state := s, sr_last_exit := x, sr_last_error := (case e of Some e \<Rightarrow> Some e | None \<Rightarrow> sr_last_error r)\<rparr>)"
    using assms by (auto simp: session_inv_def)
  then show ?thesis using finalize_shape(2) [OF False c, of h l w] publish_inv by metis
qed

lemma supervise_inv:
  assumes "session_inv l r"
  shows "session_inv l (snd (supervise_run h l st fail fin run stdout stderr exit (w, r)))"
proof -
  obtain x w1 r1 where rd: "read_stdout h l st run stdout (w, r) = (x, w1, r1)" by (metis surj_pair)
  then have "session_inv l r1"
    using read_stdout_inv [of l "(w, r)" h st 0 run _ stdout] assms unfolding read_stdout_def by (metis snd_conv)
  then have "session_inv l (case x of Inl f \<Rightarrow> record_protocol_failure h l fail run f r1 | Inr _ \<Rightarrow> r1)"
    by (auto simp: record_protocol_failure_inv split: sum.split)
  then show ?thesis
    using read_stderr_inv [of l] finalize_inv [of l]
    by (cases x) (simp_all add: supervise_run_def rd split_beta Let_def)
qed

lemma starting_record_inv: "session_inv l r \<Longrightarrow> session_inv l (starting_record q r)"
  using set_state_inv [of l Starting r]
  unfolding starting_record_def session_inv_def by (simp add: bounded_bytes_default_def)

lemma commit_run_inv: "session_inv l r \<Longrightarrow> session_inv l (commit_run l token run pid q r)"
  unfolding session_inv_def commit_run_def run_control_new_def
  by (auto simp: pending_new_inv raw_capture_new_def)

lemma launch_failed_inv: "session_inv l r \<Longrightarrow> session_inv l (snd (launch_failed h l st e operation r))"
  unfolding launch_failed_def record_launch_failure_def snd_conv by (intro publish_inv) simp

lemma launch_reserved_inv:
  assumes "session_inv l r"
  shows "session_inv l (snd (launch_reserved h l st token run spawn q r))"
  using starting_record_inv [OF assms, of q]
  by (auto simp: launch_reserved_def Let_def launch_failed_inv commit_run_inv split: sum.split)

lemma launch_inv [invariant_intros]:
  assumes "session_inv l r"
  shows "session_inv l (snd (snd (launch h l st token run spawn q (w, r))))"
proof -
  obtain x r1 where lr: "launch_reserved h l st token run spawn q (r\<lparr>sr_launching := True\<rparr>) = (x, r1)" by (metis surj_pair)
  have "session_inv l r1"
    using launch_reserved_inv [of l "r\<lparr>sr_launching := True\<rparr>" h st token run spawn q] assms lr by simp
  then show ?thesis
    using assms lr publish_inv [of l "r1\<lparr>sr_launching := False\<rparr>" st "Some run" Daemon]
    by (auto simp: launch_def drop_guard_def split: sum.split prod.split) (metis snd_conv)+
qed

end
