(* ===== verification/Session_Properties.thy ===== *)
theory Session_Properties
  imports Fake_Session
begin

text \<open>
  What the session supervisor guarantees: bounds on everything it keeps, exclusive writers, no leak on
  a failed launch, the end of a run, single delivery of answers, and the states a session can be in.
\<close>

section \<open>The supervisor keeps its invariant\<close>

definition supervisor_inv :: "supervisor \<Rightarrow> bool" where
  "supervisor_inv v \<longleftrightarrow>
     finite (dom (sv_sessions v)) \<and> card (dom (sv_sessions v)) \<le> fl_maximum_sessions (sv_limits v) \<and>
     (\<forall>s r. sv_sessions v s = Some r \<longrightarrow> session_inv (sv_limits v) r)"

lemma session_record_new_inv: "session_inv l (session_record_new s)"
  by (simp add: session_inv_def session_record_new_def event_log_inv_def event_log_new_def numbered_def
      bounded_bytes_default_def no_run_def pending_new_inv)

lemma gui_action_inv:
  assumes "session_inv l r"
  shows "session_inv l (snd (gui_action h l st wr run i action payload r))"
proof -
  obtain x r1 where reg: "register_pending l st run i PendGuiAction r = (x, r1)" by (metis surj_pair)
  then have inv1: "session_inv l r1" using register_pending_inv [OF assms, of l st run i PendGuiAction] by simp
  obtain y r2 where pub: "publish l st (Some run) Gui (normalized_event_user ''gui_action''
      (Object [(''action_id'', String i), (''action'', String action)])) r1 = (y, r2)" by (metis surj_pair)
  then have inv2: "session_inv l r2"
    using publish_inv [OF inv1, of st "Some run" Gui] by (metis snd_conv)
  obtain z r3 where wrt: "write_json h l (st_cid st) wr run
      (Object [(''action_id'', String i), (''action'', String action), (''payload'', payload)]) r2 = (z, r3)" by (metis surj_pair)
  then have inv3: "session_inv l r3"
    using write_json_inv [OF inv2, of h l "st_cid st" wr run] by (metis snd_conv)
  show ?thesis
    using reg pub wrt inv1 inv2 inv3 tracker_inv(7) [OF session_inv_pending [OF inv3]]
    by (cases x; cases y; cases z) (simp_all add: gui_action_def set_pending_inv)
qed

lemma stop_run_inv:
  assumes "session_inv l r"
  shows "session_inv l (snd (stop_run h l st trm run r))"
proof -
  let ?r1 = "set_state Interrupting (update_run run (\<lambda>c. c\<lparr>rc_stop_requested := True\<rparr>) r)"
  have inv1: "session_inv l ?r1" using assms by (simp, intro update_run_inv) (auto simp: session_inv_def)
  obtain y r2 where pub: "publish l st (Some run) Gui (normalized_event_user ''gui_stop_requested''
      (Object [(''run_id'', run_json h run)])) ?r1 = (y, r2)" by (metis surj_pair)
  then have "session_inv l r2" using publish_inv [OF inv1, of st "Some run" Gui] by (metis snd_conv)
  then show ?thesis using assms pub by (cases y; cases trm) (simp_all add: stop_run_def)
qed

lemma supervisor_store_inv:
  assumes "supervisor_inv v" "session_inv (sv_limits v) r" "sv_sessions v s \<noteq> None"
  shows "supervisor_inv (v\<lparr>sv_sessions := (sv_sessions v)(s \<mapsto> r)\<rparr>)"
    and "supervisor_inv (v\<lparr>sv_writers := w, sv_sessions := (sv_sessions v)(s \<mapsto> r)\<rparr>)"
  using assms by (auto simp: supervisor_inv_def insert_absorb domI)

lemma on_active_run_inv:
  assumes "supervisor_inv v" "\<And>r. session_inv (sv_limits v) r \<Longrightarrow> session_inv (sv_limits v) (snd (f r))"
  shows "supervisor_inv (snd (on_active_run h cid s run f v))"
proof (cases "active_run h cid s run v")
  case (Inl e)
  then show ?thesis using assms(1) by (simp add: on_active_run_def)
next
  case (Inr r)
  then have r: "sv_sessions v s = Some r"
    by (cases "sv_sessions v s") (auto simp: active_run_def sv_session_def ok_or_def split: if_splits)
  then have "session_inv (sv_limits v) (snd (f r))" using assms by (auto simp: supervisor_inv_def)
  then show ?thesis
    using Inr r supervisor_store_inv(1) [OF assms(1)] by (cases "f r") (simp add: on_active_run_def)
qed

lemma start_inv:
  assumes "supervisor_inv v"
  shows "supervisor_inv (snd (start_with_volume_and_raw_capture h st s token run spawn q v))"
proof (cases "card (dom (sv_sessions v)) \<ge> fl_maximum_sessions (sv_limits v)")
  case True
  then show ?thesis using assms by (simp add: start_with_volume_and_raw_capture_def)
next
  case False
  obtain x w r where l: "launch h (sv_limits v) st token run spawn q (sv_writers v, session_record_new s) = (x, w, r)"
    by (metis surj_pair)
  have fin: "finite (dom (sv_sessions v))" using assms by (simp add: supervisor_inv_def)
  have room: "card (insert s (dom (sv_sessions v))) \<le> fl_maximum_sessions (sv_limits v)"
    using False card_insert_le_m1 [of "fl_maximum_sessions (sv_limits v)" "dom (sv_sessions v)" s] by simp
  have less: "card (dom (sv_sessions v) - {s}) \<le> fl_maximum_sessions (sv_limits v)"
    using False card_mono [OF fin, of "dom (sv_sessions v) - {s}"] by auto
  have "session_inv (sv_limits v) r"
    using launch_inv [OF session_record_new_inv [of "sv_limits v" s], of h st token run spawn q "sv_writers v"] l by simp
  then show ?thesis
    using False l assms fin room less
    by (cases x) (auto simp: start_with_volume_and_raw_capture_def supervisor_inv_def)
qed

lemma resume_inv:
  assumes "supervisor_inv v"
  shows "supervisor_inv (snd (resume_with_raw_capture h st s token run spawn q v))"
proof (cases "sv_session h (st_cid st) s v")
  case (Inl e)
  then show ?thesis using assms by (simp add: resume_with_raw_capture_def)
next
  case (Inr r)
  then have r: "sv_sessions v s = Some r" by (cases "sv_sessions v s") (auto simp: sv_session_def ok_or_def)
  then have inv: "session_inv (sv_limits v) r" using assms by (simp add: supervisor_inv_def)
  have "supervisor_inv (v\<lparr>sv_writers := w, sv_sessions := (sv_sessions v)(s \<mapsto> r')\<rparr>)"
    if "launch h (sv_limits v) st token run spawn q' (sv_writers v, r) = (x, w, r')" for x w r' q'
    using launch_inv [OF inv, of h st token run spawn q' "sv_writers v"] that r
    by (intro supervisor_store_inv(2) assms) simp_all
  then show ?thesis using Inr assms by (simp add: resume_with_raw_capture_def Let_def split: prod.split)
qed


definition sample_host :: host where
  "sample_host = \<lparr>h_uuid_text = (\<lambda>u. ''id''), h_to_vec = (\<lambda>v. Inr [123, 125]), h_from_slice = (\<lambda>b. Inr Null)\<rparr>"

definition sample_stamp :: stamp where
  "sample_stamp = \<lparr>st_cid = 5, st_event_id = EventId 6, st_now = 7, st_instant = 8\<rparr>"

definition sample_launch :: launch_request where
  "sample_launch = \<lparr>lr_executable = ''agent'', lr_scenario = ''structured/basic'', lr_cwd = ''/w'',
     lr_binding = Some ''b1'', lr_volume = None, lr_capture = False\<rparr>"

definition empty_supervisor :: supervisor where
  "empty_supervisor = \<lparr>sv_limits = fake_session_limits_default, sv_sessions = Map.empty, sv_writers = Map.empty\<rparr>"


section \<open>Writers\<close>

text \<open>A vendor binding has one writer: from a successful claim until its token is released, every
  claim of the binding is refused and leaves the table alone, whatever other claims and releases
  happen in between, and stale or foreign tokens release nothing.
\<close>

theorem binding_has_one_writer:
  assumes "claim_binding h cid b token session w = (Inr (), w')"
    and "Release b token \<notin> set ops"
  defines "w'' \<equiv> fold (lease_exec (\<lambda>b a w. claim_binding h cid b (fst a) (snd a) w) release_binding) ops w'"
  shows "map_option bw_token (w'' b) = Some token \<and>
    (\<forall>token' session'. \<exists>e. claim_binding h cid b token' session' w'' = (Inl e, w''))"
proof -
  have "(map_option bw_token \<circ> w') b = Some token"
    using session_leases.claim_owner [of h cid b "(token, session)" w] assms(1) by simp
  note excl = session_leases.lease_exclusive [OF this assms(2), of h cid, folded w''_def]
  show ?thesis
  proof (intro conjI allI)
    show "map_option bw_token (w'' b) = Some token" using excl by simp
    fix token' session'
    show "\<exists>e. claim_binding h cid b token' session' w'' = (Inl e, w'')"
      using excl [of "(token', session')"] by simp
  qed
qed

lemma binding_has_one_writer_witness:
  "\<exists>e. claim_binding sample_host 0 ''b'' 9 (SessionId 2)
     (fold (lease_exec (\<lambda>b a w. claim_binding sample_host 0 b (fst a) (snd a) w) release_binding) [Release ''b'' 8]
        (snd (claim_binding sample_host 0 ''b'' 7 (SessionId 1) Map.empty))) =
     (Inl e, fold (lease_exec (\<lambda>b a w. claim_binding sample_host 0 b (fst a) (snd a) w) release_binding) [Release ''b'' 8]
        (snd (claim_binding sample_host 0 ''b'' 7 (SessionId 1) Map.empty)))"
proof -
  have c: "claim_binding sample_host 0 ''b'' 7 (SessionId 1) Map.empty =
      (Inr (), snd (claim_binding sample_host 0 ''b'' 7 (SessionId 1) Map.empty))"
    by (simp add: claim_binding_free valid_identifier_def MAX_LAUNCH_TEXT_BYTES_def)
  have "Release ''b'' (7 :: uuid) \<notin> set [Release ''b'' 8 :: (uuid \<times> session_id, uuid) lease_op]" by simp
  from binding_has_one_writer [OF c this] show ?thesis by blast
qed

lemma claim_binding_Inl: "claim_binding h cid b token session w = (Inl e, w1) \<Longrightarrow> w1 = w"
  by (cases "valid_identifier b \<and> w b = None")
    (use claim_binding_free claim_binding_refused [of b w h cid token session] in fastforce)+

lemma claim_binding_Inr:
  "claim_binding h cid b token session w = (Inr u, w1) \<Longrightarrow>
   w b = None \<and> w1 = w(b \<mapsto> \<lparr>bw_token = token, bw_session_id = session\<rparr>)"
  by (cases "valid_identifier b \<and> w b = None")
    (use claim_binding_free [of b w h cid token session] claim_binding_refused [of b w h cid token session] in fastforce)+

section \<open>Launching\<close>

lemma set_state_frame [simp]:
  "sr_runs (set_state s r) = sr_runs r" "sr_active_run (set_state s r) = sr_active_run r"
  "sr_launching (set_state s r) = sr_launching r" "sr_events (set_state s r) = sr_events r"
  "sr_session_id (set_state s r) = sr_session_id r" "sr_stderr (set_state s r) = sr_stderr r"
  "sr_binding (set_state s r) = sr_binding r" "sr_sent (set_state s r) = sr_sent r"
  by (simp_all add: set_state_def)

lemma starting_record_frame [simp]:
  "sr_runs (starting_record q r) = sr_runs r" "sr_active_run (starting_record q r) = sr_active_run r"
  "sr_launching (starting_record q r) = sr_launching r" "sr_events (starting_record q r) = sr_events r"
  by (simp_all add: starting_record_def)

lemma launch_reserved_Inl:
  "launch_reserved h l st token run spawn q r = (Inl e, r1) \<Longrightarrow>
   sr_runs r1 = sr_runs r \<and> sr_active_run r1 = sr_active_run r"
  by (auto simp: launch_reserved_def Let_def launch_failed_def record_launch_failure_def split: sum.splits if_splits)

lemma launch_reserved_Inr:
  "launch_reserved h l st token run spawn q r = (Inr pid, r1) \<Longrightarrow>
   sr_active_run r = None \<and> r1 = commit_run l token run pid q (starting_record q r)"
  by (auto simp: launch_reserved_def Let_def launch_failed_def split: sum.splits if_splits)

lemma publish_ok:
  "unat (el_latest_sequence (sr_events r)) + 1 < 2 ^ 64 \<Longrightarrow> \<exists>x r'. publish l st run src ev r = (Inr x, r')"
  by (auto simp: publish_def publish_log_def checked_add_def Let_def split: prod.split)

lemma publish_same:
  assumes "publish l st run src ev r = (x, r')"
  shows "sr_runs r' = sr_runs r" "sr_active_run r' = sr_active_run r" "sr_launching r' = sr_launching r"
    "sr_state r' = sr_state r" "sr_stderr r' = sr_stderr r" "sr_session_id r' = sr_session_id r"
  using publish_frame [of l st run src ev r] unfolding assms by simp_all

text \<open>
  C11. A launch either commits or leaves nothing behind: when it fails, for whatever reason, the table
  of writers, the runs and the active run are as before and the session is not left launching (short
  of an exhausted event counter, which is checked after the commit); when it succeeds there was no
  active run, the new run is active and holds the requested binding.
\<close>

theorem launch_commits_or_undoes:
  assumes "launch h l st token run spawn q (w, r) = (result, w', r')"
    and "\<not> sr_launching r" "unat (el_latest_sequence (sr_events r)) + 1 < 2 ^ 64"
  shows "case result of
      Inl _ \<Rightarrow> w' = w \<and> sr_runs r' = sr_runs r \<and> sr_active_run r' = sr_active_run r \<and> \<not> sr_launching r'
    | Inr handle \<Rightarrow>
        sr_active_run r = None \<and> sr_active_run r' = Some run \<and> fh_run_id handle = run \<and> \<not> sr_launching r' \<and>
        \<not> rc_finalized (sr_runs r' run) \<and> rc_leased_binding (sr_runs r' run) = lr_binding q \<and>
        (\<forall>b. lr_binding q = Some b \<longrightarrow> w b = None \<and> w' = w(b \<mapsto> \<lparr>bw_token = token, bw_session_id = sr_session_id r\<rparr>))"
proof -
  let ?r0 = "r\<lparr>sr_launching := True\<rparr>"
  let ?claim = "case lr_binding q of Some b \<Rightarrow> claim_binding h (st_cid st) b token (sr_session_id r) w | None \<Rightarrow> (Inr (), w)"
  obtain c w1 where c: "?claim = (c, w1)" by (metis surj_pair)
  obtain x r1 where lr: "launch_reserved h l st token run spawn q ?r0 = (x, r1)" by (metis surj_pair)
  show ?thesis
  proof (cases "validate_launch (st_cid st) (lr_executable q) (lr_scenario q) (lr_cwd q) (lr_binding q)")
    case (Inl e)
    then show ?thesis using assms(1,2) by (auto simp: launch_def)
  next
    case val: (Inr u)
    show ?thesis
    proof (cases c)
      case (Inl e)
      have "w1 = w" using c Inl by (cases "lr_binding q") (auto dest: claim_binding_Inl)
      then show ?thesis using assms(1,2) val c Inl by (auto simp: launch_def)
    next
      case ok: (Inr u')
      have w1: "w1 = (case lr_binding q of Some b \<Rightarrow> w(b \<mapsto> \<lparr>bw_token = token, bw_session_id = sr_session_id r\<rparr>) | None \<Rightarrow> w)"
        and free: "\<And>b. lr_binding q = Some b \<Longrightarrow> w b = None"
        using c ok by (cases "lr_binding q"; auto dest: claim_binding_Inr)+
      show ?thesis
      proof (cases x)
        case (Inl e)
        have "(w', r') = drop_guard token (lr_binding q) False (w1, r1)" "result = Inl e"
          using assms(1,2) val c ok lr Inl by (auto simp: launch_def)
        then show ?thesis
          using launch_reserved_Inl [of h l st token run spawn q ?r0 e r1] lr Inl w1 free
          by (cases "lr_binding q") (auto simp: drop_guard_def release_binding_def fun_upd_idem)
      next
        case (Inr pid)
        from launch_reserved_Inr [of h l st token run spawn q ?r0 pid r1] lr Inr
        have r1: "sr_active_run r = None" "r1 = commit_run l token run pid q (starting_record q ?r0)" by auto
        let ?r2 = "r1\<lparr>sr_launching := False\<rparr>"
        let ?ev = "normalized_event_user ''run_started'' (Object [(''run_id'', run_json h run),
          (''process_id'', nat_json (unat pid)), (''scenario'', String (lr_scenario q))])"
        have "unat (el_latest_sequence (sr_events ?r2)) + 1 < 2 ^ 64" using assms(3) r1 by (simp add: commit_run_def)
        then obtain y r3 where p: "publish l st (Some run) Daemon ?ev ?r2 = (Inr y, r3)"
          using publish_ok by blast
        have res: "w' = w1" "r' = r3"
            "result = Inr \<lparr>fh_session_id = sr_session_id r, fh_run_id = run, fh_process_id = pid\<rparr>"
          using assms(1,2) val c ok lr Inr p by (auto simp: launch_def drop_guard_def)
        have "sr_active_run r3 = Some run" "\<not> sr_launching r3" "sr_runs r3 run = run_control_new l token run pid q"
          using publish_same [OF p] r1(2) by (simp_all add: commit_run_def)
        then show ?thesis using res r1(1) w1 free by (auto simp: run_control_new_def)
      qed
    qed
  qed
qed

lemma launch_commits_or_undoes_witness:
  "sr_active_run (session_record_new (SessionId 1)) = None \<and>
   fst (snd (launch sample_host fake_session_limits_default sample_stamp 2 (RunId 3) (Inl MissingProcessId) sample_launch
     (Map.empty, session_record_new (SessionId 1)))) = Map.empty"
proof -
  obtain result w' r' where l: "launch sample_host fake_session_limits_default sample_stamp 2 (RunId 3) (Inl MissingProcessId)
      sample_launch (Map.empty, session_record_new (SessionId 1)) = (result, w', r')" by (metis surj_pair)
  have "w' = Map.empty"
  proof (cases result)
    case (Inl e)
    with launch_commits_or_undoes [OF l] show ?thesis by (simp add: session_record_new_def event_log_new_def)
  next
    case (Inr handle)
    from l have False unfolding Inr
      by (auto simp: launch_def launch_reserved_def launch_failed_def Let_def split: sum.splits if_splits prod.splits)
    then show ?thesis ..
  qed
  then show ?thesis using l by (simp add: session_record_new_def)
qed

section \<open>The end of a run\<close>

lemma classify_completion_state:
  "classify_completion cid stop failure stderr_failed exit = (s, x, e) \<Longrightarrow>
   s \<in> {Completed, Stopped, Failed, Incompatible} \<and>
   (s = Stopped \<longleftrightarrow> stop) \<and>
   (s = Completed \<longleftrightarrow> \<not> stop \<and> failure = None \<and> \<not> stderr_failed \<and> exit = Inr (Exited 0)) \<and>
   (s = Incompatible \<longleftrightarrow> \<not> stop \<and> (\<exists>f. failure = Some f \<and> pf_incompatible f)) \<and>
   (s = Failed \<longrightarrow> e \<noteq> None) \<and> (s \<in> {Completed, Stopped} \<longrightarrow> e = None)"
  by (cases exit; cases failure)
    (auto simp: classify_completion_def Let_def split: if_splits option.splits exit_cause.splits)

lemma release_binding_owner:
  "release_binding b t w b = None \<or> (\<exists>o'. release_binding b t w b = Some o' \<and> bw_token o' \<noteq> t)"
  by (auto simp: release_binding_def split: option.splits)


definition running_record :: session_record where
  "running_record = (session_record_new (SessionId 1))\<lparr>sr_state := Running, sr_active_run := Some (RunId 3),
     sr_runs := no_run(RunId 3 := run_control_new fake_session_limits_default 2 (RunId 3) 44 sample_launch)\<rparr>"


section \<open>Delivery of answers\<close>

lemma set_pending_frame [simp]:
  "run_pending (set_pending run t r) run = t" "rc_stdin (sr_runs (set_pending run t r) x) = rc_stdin (sr_runs r x)"
  "sr_state (set_pending run t r) = sr_state r" "set_pending run (run_pending r run) r = r"
  by (simp_all add: set_pending_def run_pending_def update_run_def)

lemma update_waiting_frame [simp]:
  "sr_runs (update_waiting_state run r) = sr_runs r" "run_pending (update_waiting_state run' r) run = run_pending r run"
  by (simp_all add: update_waiting_state_def run_pending_def)

lemma write_json_bytes_frame:
  assumes "write_json_bytes cid wr run bytes r = (x, r')"
  shows "run_pending r' run = run_pending r run" "sr_state r' = sr_state r"
    "x = Inr u \<Longrightarrow> rc_stdin (sr_runs r' run) = rc_stdin (sr_runs r run) @ [bytes]"
    "x = Inl f \<Longrightarrow> r' = r"
  using assms by (auto simp: write_json_bytes_def update_run_def run_pending_def split: if_splits sum.splits process_error.splits)

lemma claim_pending_Inr:
  assumes "claim_pending st run i k r = (Inr u, r1)"
  obtains p where "pt_active (run_pending r run) i = Some p" "pr_kind p = k" "st_instant st < pr_deadline p"
    "r1 = set_pending run ((run_pending r run)\<lparr>pt_active := (pt_active (run_pending r run))(i := None),
       pt_in_flight := (pt_in_flight (run_pending r run))(i \<mapsto> p)\<rparr>) r"
  using assms by (auto simp: claim_pending_def claim_active_def split: prod.splits option.splits if_splits)

lemma pending_capacity_pos:
  assumes "pending_inv t" "pt_active t i = Some p"
  shows "0 < pt_capacity t"
proof -
  have "finite (dom (pt_active t))" "card (dom (pt_active t)) \<le> pt_capacity t"
    using assms(1) by (simp_all add: pending_inv_def)
  moreover have "i \<in> dom (pt_active t)" using assms(2) by blast
  ultimately show ?thesis by (metis card_gt_0_iff empty_iff order_less_le_trans)
qed

lemma remember_resolved_mem:
  assumes "pending_inv t" "(i, k) \<notin> pt_resolved t \<union> pt_delivery_uncertain t" "0 < pt_capacity t"
  shows "(i, k) \<in> pt_resolved (remember_resolved i k t)"
proof -
  have o: "distinct (pt_resolved_order t)" "set (pt_resolved_order t) = pt_resolved t \<union> pt_delivery_uncertain t"
    using assms(1) by (auto simp: pending_inv_def)
  have "Suc (length (pt_resolved_order t)) - pt_capacity t \<le> length (pt_resolved_order t)" using assms(3) by simp
  then show ?thesis
    using o assms(2) by (simp add: remember_resolved_def Let_def forget_expired_facts)
qed

text \<open>
  C13. An answer that is reported as delivered was asked for, with this kind and before its deadline,
  and was written to the child exactly once; the request is then gone, and delivering an answer to it
  again is refused without writing anything.
\<close>

theorem delivered_answer_single_use:
  assumes "session_inv l r"
    and "deliver_pending_response h l st wr st' wr' run i k response audit r = (Inr (), r')"
  shows "\<exists>bytes p. encode_json h l (st_cid st) response = Inr bytes \<and>
    rc_stdin (sr_runs r' run) = rc_stdin (sr_runs r run) @ [bytes] \<and>
    pt_active (run_pending r run) i = Some p \<and> pr_kind p = k \<and> st_instant st < pr_deadline p \<and>
    \<not> has_pending (run_pending r' run) i k \<and> (i, k) \<in> pt_resolved (run_pending r' run) \<and>
    (\<forall>st2 wr2 st3 wr3 k2 response2 audit2. \<exists>e.
       deliver_pending_response h l st2 wr2 st3 wr3 run i k2 response2 audit2 r' = (Inl e, r'))"
proof -
  let ?t = "run_pending r run"
  have inv: "pending_inv ?t" using assms(1) by (rule session_inv_pending)
  obtain x r1 where c: "claim_pending st run i k r = (x, r1)" by (metis surj_pair)
  have "\<exists>u. x = Inr u"
    using assms(2) c by (cases x) (auto simp: deliver_pending_response_def)
  then obtain p where p: "pt_active ?t i = Some p" "pr_kind p = k" "st_instant st < pr_deadline p"
      and r1: "r1 = set_pending run (?t\<lparr>pt_active := (pt_active ?t)(i := None), pt_in_flight := (pt_in_flight ?t)(i \<mapsto> p)\<rparr>) r"
    using c by (auto elim: claim_pending_Inr)
  let ?t1 = "?t\<lparr>pt_active := (pt_active ?t)(i := None), pt_in_flight := (pt_in_flight ?t)(i \<mapsto> p)\<rparr>"
  have fresh: "(i, k) \<notin> pt_resolved ?t" using pending_exclusive(1) [OF inv, of i k] p by (simp add: has_kind_def)
  obtain bytes where enc: "encode_json h l (st_cid st) response = Inr bytes"
    using assms(2) c \<open>\<exists>u. x = Inr u\<close> by (cases "encode_json h l (st_cid st) response") (auto simp: deliver_pending_response_def)
  obtain y r2 where w: "write_json_bytes (st_cid st) wr run bytes r1 = (y, r2)" by (metis surj_pair)
  have pend2: "run_pending r2 run = ?t1" using write_json_bytes_frame(1) [OF w] r1 by simp
  have kind1: "has_kind (pt_in_flight ?t1) i k" using p by (simp add: has_kind_def)
  obtain r5 where mark: "mark_pending_delivery_uncertain run i k r2 = (False, r5)"
    using fresh kind1 by (auto simp: mark_pending_delivery_uncertain_def pend2 mark_delivery_uncertain_def)
  obtain u where y: "y = Inr u"
    using assms(2) c \<open>\<exists>u. x = Inr u\<close> enc w mark
    by (cases y) (auto simp: deliver_pending_response_def split: structured_write_error.splits)
  let ?t3 = "remember_resolved i k (?t1\<lparr>pt_in_flight := (pt_in_flight ?t1)(i := None)\<rparr>)"
  have compl: "complete_pending st run i k r2 = (Inr (), set_pending run ?t3 r2)"
    using fresh p by (simp add: complete_pending_def pend2 resolve_in_flight_def has_kind_def)
  obtain z r4 where pub: "publish l st (Some run) Gui audit (update_waiting_state run (set_pending run ?t3 r2)) = (z, r4)"
    by (metis surj_pair)
  have r': "r' = r4"
    using assms(2) c \<open>\<exists>u. x = Inr u\<close> enc w y compl pub by (cases z) (auto simp: deliver_pending_response_def)
  have runs: "sr_runs r' = sr_runs (set_pending run ?t3 r2)" using publish_same(1) [OF pub] r' by simp
  have pend: "run_pending r' run = ?t3"
    using runs unfolding run_pending_def by (metis run_pending_def set_pending_frame(1))
  have stdin: "rc_stdin (sr_runs r' run) = rc_stdin (sr_runs r run) @ [bytes]"
    using runs write_json_bytes_frame(3) [OF w y] r1 by simp
  have none: "pt_active ?t3 i = None" by simp
  have inv1: "pending_inv ?t1" using move_inv(1) [OF inv p(1)] .
  have "(i, k) \<in> pt_resolved ?t3"
    using remember_resolved_mem [OF remove_active_inv(2) [OF inv1, of i], of i k] pending_capacity_pos [OF inv p(1)]
      pending_exclusive(2) [OF inv1 kind1] by simp
  moreover have "\<not> has_pending ?t3 i k" by (simp add: has_pending_def has_kind_def)
  moreover have "deliver_pending_response h l st2 wr2 st3 wr3 run i k2 response2 audit2 r' =
      (Inl (invalid_request (st_cid st2) ''the structured request is unknown or already used''), r')" for st2 wr2 st3 wr3 k2 response2 audit2
    using none pend set_pending_frame(4) [of run r']
    by (simp add: deliver_pending_response_def claim_pending_def claim_active_def)
  ultimately show ?thesis using enc stdin p pend by auto
qed

definition asking_record :: session_record where
  "asking_record = set_pending (RunId 3) ((pending_tracker_new 4)\<lparr>pt_active :=
     [''q'' \<mapsto> \<lparr>pr_kind = PendPermission, pr_deadline = 20\<rparr>]\<rparr>) running_record"

lemma asking_record_inv: "session_inv fake_session_limits_default asking_record"
proof -
  have "session_inv fake_session_limits_default running_record"
    using session_record_new_inv [of fake_session_limits_default "SessionId 1"]
    by (auto simp: session_inv_def running_record_def run_control_new_def pending_new_inv sample_launch_def no_run_def)
  moreover have "pending_inv ((pending_tracker_new 4)\<lparr>pt_active := [''q'' \<mapsto> \<lparr>pr_kind = PendPermission, pr_deadline = 20\<rparr>]\<rparr>)"
    by (simp add: pending_inv_def pending_tracker_new_def)
  ultimately show ?thesis unfolding asking_record_def by (rule set_pending_inv)
qed

lemma deliver_succeeds:
  assumes "session_inv l r" "pt_active (run_pending r run) i = Some p" "pr_kind p = k" "st_instant st < pr_deadline p"
    and "encode_json h l (st_cid st) response = Inr bytes"
    and "\<not> rc_finalized (sr_runs r run)" "\<not> rc_stop_requested (sr_runs r run)"
    and "unat (el_latest_sequence (sr_events r)) + 1 < 2 ^ 64"
  shows "\<exists>r'. deliver_pending_response h l st (Inr ()) st' wr' run i k response audit r = (Inr (), r')"
proof -
  let ?t = "run_pending r run"
  let ?t1 = "?t\<lparr>pt_active := (pt_active ?t)(i := None), pt_in_flight := (pt_in_flight ?t)(i \<mapsto> p)\<rparr>"
  let ?r1 = "set_pending run ?t1 r"
  let ?r2 = "update_run run (\<lambda>c. c\<lparr>rc_stdin := rc_stdin c @ [bytes]\<rparr>) ?r1"
  let ?t3 = "remember_resolved i k (?t1\<lparr>pt_in_flight := (pt_in_flight ?t1)(i := None)\<rparr>)"
  have fresh: "(i, k) \<notin> pt_resolved ?t"
    using pending_exclusive(1) [OF session_inv_pending [OF assms(1)], of run i k] assms(2,3) by (simp add: has_kind_def)
  have c: "claim_pending st run i k r = (Inr (), ?r1)"
    using assms(2-4) by (simp add: claim_pending_def claim_active_def)
  have w: "write_json_bytes (st_cid st) (Inr ()) run bytes ?r1 = (Inr (), ?r2)"
    using assms(6,7) by (simp add: write_json_bytes_def set_pending_def update_run_def)
  have "run_pending ?r2 run = ?t1" by (simp add: run_pending_def update_run_def set_pending_def)
  then have f: "complete_pending st run i k ?r2 = (Inr (), set_pending run ?t3 ?r2)"
    using fresh assms(3) by (simp add: complete_pending_def resolve_in_flight_def has_kind_def)
  have "sr_events (update_waiting_state run (set_pending run ?t3 ?r2)) = sr_events r"
    by (simp add: update_waiting_state_def set_pending_def update_run_def)
  with assms(8) publish_ok [of "update_waiting_state run (set_pending run ?t3 ?r2)" l st "Some run" Gui audit]
  obtain x r4 where "publish l st (Some run) Gui audit (update_waiting_state run (set_pending run ?t3 ?r2)) = (Inr x, r4)"
    by auto
  then show ?thesis using c assms(5) w f by (simp add: deliver_pending_response_def)
qed

lemma delivered_answer_single_use_witness:
  "\<exists>r'. deliver_pending_response sample_host fake_session_limits_default sample_stamp (Inr ()) sample_stamp (Inr ()) (RunId 3)
     ''q'' PendPermission Null (normalized_event_user ''a'' Null) asking_record = (Inr (), r') \<and>
     rc_stdin (sr_runs r' (RunId 3)) = [[123, 125, 10]]"
proof -
  have enc: "encode_json sample_host fake_session_limits_default (st_cid sample_stamp) Null = Inr [123, 125, 10]"
    by (simp add: encode_json_def sample_host_def fake_session_limits_default_def newline_def)
  have "\<exists>r'. deliver_pending_response sample_host fake_session_limits_default sample_stamp (Inr ()) sample_stamp (Inr ())
      (RunId 3) ''q'' PendPermission Null (normalized_event_user ''a'' Null) asking_record = (Inr (), r')"
    by (rule deliver_succeeds [OF asking_record_inv, where p = "\<lparr>pr_kind = PendPermission, pr_deadline = 20\<rparr>"])
      (simp_all add: enc, simp_all add: asking_record_def sample_stamp_def running_record_def run_control_new_def
         set_pending_def update_run_def run_pending_def session_record_new_def event_log_new_def)
  then obtain r' where d: "deliver_pending_response sample_host fake_session_limits_default sample_stamp (Inr ()) sample_stamp
      (Inr ()) (RunId 3) ''q'' PendPermission Null (normalized_event_user ''a'' Null) asking_record = (Inr (), r')" ..
  have "rc_stdin (sr_runs asking_record (RunId 3)) = []"
    by (simp add: asking_record_def running_record_def run_control_new_def)
  then show ?thesis using d delivered_answer_single_use [OF asking_record_inv d] enc by auto
qed

section \<open>The state a session shows\<close>

lemma set_state_terminal:
  "is_terminal (sr_state r) \<Longrightarrow> target \<noteq> Starting \<Longrightarrow> set_state target r = r"
  using terminal_no_successor [of "sr_state r"]
  by (auto simp: set_state_def bridged_transition_def transition_to_def)

lemma update_waiting_terminal: "is_terminal (sr_state r) \<Longrightarrow> update_waiting_state run r = r"
  unfolding update_waiting_state_def
  by (rule set_state_terminal) (auto simp: waiting_state_def split: if_splits option.split)

lemma pending_step_state:
  "sr_state (snd (register_pending l st run i k r)) = sr_state r"
  "sr_state (snd (claim_pending st run i k r)) = sr_state r"
  "sr_state (snd (complete_pending st run i k r)) = sr_state r"
  "sr_state (snd (restore_pending run i k r)) = sr_state r"
  "sr_state (snd (mark_pending_delivery_uncertain run i k r)) = sr_state r"
  "sr_state (snd (write_json_bytes cid wr run bytes r)) = sr_state r"
  "sr_state (snd (write_json h l cid wr run v r)) = sr_state r"
  by (simp_all add: register_pending_def claim_pending_def complete_pending_def restore_pending_def
      mark_pending_delivery_uncertain_def write_json_bytes_def write_json_def update_run_def
      split: sum.split prod.split process_error.split)

lemma pending_step_state':
  "register_pending l st run i k r = (x, r') \<Longrightarrow> sr_state r' = sr_state r"
  "claim_pending st run i k r = (x, r') \<Longrightarrow> sr_state r' = sr_state r"
  "complete_pending st run i k r = (x, r') \<Longrightarrow> sr_state r' = sr_state r"
  "restore_pending run i k r = (b, r') \<Longrightarrow> sr_state r' = sr_state r"
  "mark_pending_delivery_uncertain run i k r = (b, r') \<Longrightarrow> sr_state r' = sr_state r"
  "write_json_bytes cid wr run bytes r = (y, r') \<Longrightarrow> sr_state r' = sr_state r"
  "write_json h l cid wr run v r = (x, r') \<Longrightarrow> sr_state r' = sr_state r"
  using pending_step_state by (metis snd_conv)+

lemmas publish_state' = publish_same(4)

lemma expire_terminal:
  assumes "is_terminal (sr_state r)"
  shows "sr_state (expire_request h l st wr run i k r) = sr_state r"
proof -
  have "sr_state (update_waiting_state run r') = sr_state r" if "sr_state r' = sr_state r" for r'
    using update_waiting_terminal [of r'] assms that by simp
  then show ?thesis
    by (auto simp: expire_request_def Let_def pending_step_state split: prod.split option.split)
qed

lemma undelivered_terminal:
  "is_terminal (sr_state r) \<Longrightarrow> sr_state (undelivered h l st wr run i k r) = sr_state r"
  using expire_terminal pending_step_state'(4)
  by (auto simp: undelivered_def split: prod.split bool.split)

lemma deliver_terminal:
  assumes "is_terminal (sr_state r)"
  shows "sr_state (snd (deliver_pending_response h l st wr st' wr' run i k response audit r)) = sr_state r"
  using assms
  by (auto simp: deliver_pending_response_def Let_def undelivered_terminal update_waiting_terminal
      dest!: pending_step_state' publish_state' split: prod.split sum.split structured_write_error.split bool.split)

lemma dispatch_terminal:
  assumes "is_terminal (sr_state (snd wr))"
  shows "sr_state (snd (snd (dispatch_frame h l st run kind obj wr))) = sr_state (snd wr)"
proof -
  have "sr_state (snd (handle_request l st run obj k c t (snd wr))) = sr_state (snd wr)" if "t \<noteq> Starting" for k c t
    using assms set_state_terminal that
    by (auto simp: handle_request_def dest!: pending_step_state' split: sum.split prod.split)
  moreover have "sr_state (snd (handle_result run obj k c (snd wr))) = sr_state (snd wr)" for k c
    using assms by (auto simp: handle_result_def update_waiting_terminal split: sum.split prod.split bool.split)
  moreover have "sr_state (snd (handle_action_ack st run obj (snd wr))) = sr_state (snd wr)"
    by (auto simp: handle_action_ack_def split: sum.split prod.split option.split)
  moreover have "sr_state (snd (snd (handle_binding h st run obj wr))) = sr_state (snd wr)"
    by (auto simp: handle_binding_def update_run_def split: sum.split prod.split option.split)
  ultimately show ?thesis by (simp add: dispatch_frame_def Let_def split_beta)
qed

lemma frame_terminal:
  assumes "is_terminal (sr_state (snd wr))"
  shows "sr_state (snd (snd (handle_frame h l st run v wr))) = sr_state (snd wr)"
proof (cases rule: handle_frame_cases [of h l st run v wr])
  case (failed kind obj f wr')
  then show ?thesis using dispatch_terminal [OF assms, of h l st run kind obj] by simp
next
  case (full kind obj w' r' e r2)
  then show ?thesis using dispatch_terminal [OF assms, of h l st run kind obj] publish_state' by simp
next
  case (handled kind obj w' r' x r2)
  then show ?thesis using dispatch_terminal [OF assms, of h l st run kind obj] publish_state' assms by auto
qed simp

lemma gui_action_state: "sr_state (snd (gui_action h l st wr run i action payload r)) = sr_state r"
  by (auto simp: gui_action_def dest!: pending_step_state' publish_state' split: prod.split sum.split)

lemma stop_terminal:
  assumes "is_terminal (sr_state r)"
  shows "sr_state (snd (stop_run h l st trm run r)) = sr_state r"
proof -
  have "sr_state (set_state Interrupting (update_run run f r)) = sr_state r" for f
    using set_state_terminal [of "update_run run f r" Interrupting] assms by (simp add: update_run_def)
  then show ?thesis
    by (auto simp: stop_run_def Let_def dest!: publish_state' split: prod.split sum.split)
qed

text \<open>Late work does not revive a session: once it is completed, stopped or incompatible, frames that
  are still in the pipe, expiring requests, answers, actions and another stop leave its state alone;
  only a new launch changes it.
\<close>

theorem terminal_session_stays_terminal:
  assumes "is_terminal (sr_state r)"
  shows "sr_state (snd (snd (handle_frame h l st run v (w, r)))) = sr_state r \<and>
    sr_state (expire_request h l st wr run i k r) = sr_state r \<and>
    sr_state (snd (deliver_pending_response h l st wr st' wr' run i k response audit r)) = sr_state r \<and>
    sr_state (snd (gui_action h l st wr run i action payload r)) = sr_state r \<and>
    sr_state (snd (stop_run h l st trm run r)) = sr_state r"
  using frame_terminal [of "(w, r)"] assms
  by (simp del: is_terminal.simps add: expire_terminal deliver_terminal gui_action_state stop_terminal)

lemma terminal_session_stays_terminal_witness:
  "sr_state (snd (stop_run sample_host fake_session_limits_default sample_stamp (Inr (Exited 0)) (RunId 3)
     (running_record\<lparr>sr_state := Completed\<rparr>))) = Completed"
proof -
  have "is_terminal (sr_state (running_record\<lparr>sr_state := Completed\<rparr>))" by simp
  from terminal_session_stays_terminal [OF this] show ?thesis by simp
qed

text \<open>The state shown for a request. A frame that asks for a permission or an input registers the
  request; a session that is starting, running or in the background then shows that it waits, in every
  other state the state stays what it was. In particular a session that is \<^const>\<open>Ready\<close> keeps
  showing \<^const>\<open>Ready\<close> although the request is pending and \<^const>\<open>waiting_state\<close> says otherwise.
\<close>

theorem request_frame_effect:
  assumes "handle_request l st run obj k c target r = (Inr (), r')"
    and "target \<in> {AwaitingPermission, AwaitingUserInput}"
  shows "(\<exists>i. map_of obj ''request_id'' = Some (String i) \<and> has_kind (pt_active (run_pending r' run)) i k) \<and>
    sr_state r' = (if sr_state r \<in> {Starting, Running, Background} then target else sr_state r) \<and>
    (k \<in> {PendPermission, PendUserInput} \<longrightarrow> waiting_state (run_pending r' run) \<noteq> None)"
proof -
  obtain i where i: "required_string (map_of obj ''request_id'') ''request_id'' = Inr i"
    using assms(1) by (cases "required_string (map_of obj ''request_id'') ''request_id''") (auto simp: handle_request_def)
  then have key: "map_of obj ''request_id'' = Some (String i)"
    by (auto simp: required_string_def split: option.splits list.splits json.splits bind_splits elim!: as_str.elims)
  obtain r1 where reg: "register_pending l st run i k r = (Inr (), r1)" and r': "r' = set_state target r1"
    using assms(1) i by (cases "register_pending l st run i k r") (auto simp: handle_request_def frame_failure_def split: sum.splits)
  have kind: "has_kind (pt_active (run_pending r1 run)) i k"
    using reg by (auto simp: register_pending_def pending_register_def has_kind_def split: sum.splits prod.splits if_splits)
  then have "waits_for k (run_pending r1 run)" by (auto simp: waits_for_def has_kind_Some intro: ranI)
  moreover have same: "run_pending r' run = run_pending r1 run" by (simp add: r' run_pending_def)
  moreover have "sr_state r' = (if sr_state r \<in> {Starting, Running, Background} then target else sr_state r)"
    using pending_step_state'(1) [OF reg] assms(2) unfolding r'
    by (cases "sr_state r") (auto simp: set_state_def bridged_transition_def transition_to_def)
  ultimately show ?thesis using key kind by (auto simp: waiting_state_def)
qed

lemma request_frame_effect_witness:
  "\<exists>r'. handle_request fake_session_limits_default sample_stamp (RunId 3) [(''request_id'', String ''q'')] PendPermission ''x''
     AwaitingPermission (running_record\<lparr>sr_state := Ready\<rparr>) = (Inr (), r') \<and> sr_state r' = Ready \<and>
     waiting_state (run_pending r' (RunId 3)) \<noteq> None"
proof -
  have "pending_tracker_new 128 = rc_pending (run_control_new fake_session_limits_default 2 (RunId 3) 44 sample_launch)"
    by (simp add: run_control_new_def fake_session_limits_default_def)
  then have "\<exists>r'. handle_request fake_session_limits_default sample_stamp (RunId 3) [(''request_id'', String ''q'')] PendPermission ''x''
      AwaitingPermission (running_record\<lparr>sr_state := Ready\<rparr>) = (Inr (), r')"
    by (simp add: handle_request_def required_string_def register_pending_def validate_identifier_def MAX_LAUNCH_TEXT_BYTES_def
        run_pending_def running_record_def pending_register_def pending_tracker_new_def run_control_new_def
        fake_session_limits_default_def)
  then obtain r' where d: "handle_request fake_session_limits_default sample_stamp (RunId 3) [(''request_id'', String ''q'')]
      PendPermission ''x'' AwaitingPermission (running_record\<lparr>sr_state := Ready\<rparr>) = (Inr (), r')" ..
  from request_frame_effect [OF d] show ?thesis using d by simp
qed

end
