(* ===== verification/Terminal_Output.thy ===== *)
theory Terminal_Output
  imports Domain_Types Replay_Log
begin

text \<open>
  The output side of a terminal, from \<^verbatim>\<open>crates/maestrod/src/terminal.rs\<close>: the bounded in-memory
  buffer a reader task fills and clients poll (\<^verbatim>\<open>OutputBuffer\<close>), and the writer task that collects
  chunks into persisted segments (\<^verbatim>\<open>spawn_persistence_writer\<close>). The buffer is an instance of the
  replay-log contract: a poll is answered from the complete history of the stream.
\<close>

section \<open>The output buffer\<close>

definition MIN_TERMINAL_POLL_BYTES :: u32 where "MIN_TERMINAL_POLL_BYTES = 4 * 1024"
definition MAX_TERMINAL_POLL_BYTES :: u32 where "MAX_TERMINAL_POLL_BYTES = 256 * 1024"
definition TERMINAL_READ_CHUNK_BYTES :: nat where "TERMINAL_READ_CHUNK_BYTES = unat MIN_TERMINAL_POLL_BYTES"
definition MAX_BUFFERED_TERMINAL_BYTES :: nat where "MAX_BUFFERED_TERMINAL_BYTES = 1024 * 1024"

record terminal_output_chunk =
  tc_sequence :: u64
  tc_data :: bytes

record output_buffer =
  ob_chunks :: "terminal_output_chunk list"
  ob_buffered_bytes :: nat
  ob_latest_sequence :: u64
  ob_dropped_through_sequence :: u64

definition output_buffer_default :: output_buffer where
  "output_buffer_default =
     \<lparr>ob_chunks = [], ob_buffered_bytes = 0, ob_latest_sequence = 0, ob_dropped_through_sequence = 0\<rparr>"

text \<open>The loop that drops the oldest chunks while too many bytes are buffered.\<close>

fun ob_trim ::
  "nat \<Rightarrow> terminal_output_chunk list \<Rightarrow> nat \<Rightarrow> u64 \<Rightarrow> terminal_output_chunk list \<times> nat \<times> u64" where
  "ob_trim limit [] buffered dropped = ([], buffered, dropped)"
| "ob_trim limit (c # cs) buffered dropped =
     (if buffered > limit then ob_trim limit cs (buffered - length (tc_data c)) (tc_sequence c)
      else (c # cs, buffered, dropped))"

definition ob_push :: "bytes \<Rightarrow> output_buffer \<Rightarrow> u64 option \<times> output_buffer" where
  "ob_push data b =
     (if data = [] then (None, b)
      else let sequence = saturating_add (ob_latest_sequence b) 1
           in case ob_trim MAX_BUFFERED_TERMINAL_BYTES
                (ob_chunks b @ [\<lparr>tc_sequence = sequence, tc_data = data\<rparr>])
                (ob_buffered_bytes b + length data) (ob_dropped_through_sequence b) of
                (chunks, buffered, dropped) \<Rightarrow>
                  (Some sequence, \<lparr>ob_chunks = chunks, ob_buffered_bytes = buffered,
                     ob_latest_sequence = sequence, ob_dropped_through_sequence = dropped\<rparr>))"

record poll_result =
  po_chunks :: "terminal_output_chunk list"
  po_next_sequence :: u64
  po_latest_sequence :: u64
  po_overflowed :: bool
  po_dropped_through_sequence :: "u64 option"

text \<open>The loop that takes chunks as long as they fit into the reply.\<close>

fun poll_take :: "nat \<Rightarrow> nat \<Rightarrow> terminal_output_chunk list \<Rightarrow> terminal_output_chunk list" where
  "poll_take maximum bytes [] = []"
| "poll_take maximum bytes (c # cs) =
     (if bytes + length (tc_data c) > maximum then []
      else c # poll_take maximum (bytes + length (tc_data c)) cs)"

definition ob_poll :: "uuid \<Rightarrow> u64 \<Rightarrow> nat \<Rightarrow> output_buffer \<Rightarrow> maestro_error + poll_result" where
  "ob_poll cid after_sequence maximum_bytes b =
     (if after_sequence > ob_latest_sequence b
      then Inl (maestro_error_new cid InvalidRequest ''terminal cursor is newer than the available output'')
      else let overflowed = after_sequence < ob_dropped_through_sequence b;
               cursor = max after_sequence (ob_dropped_through_sequence b);
               chunks = poll_take maximum_bytes 0 (filter (\<lambda>c. tc_sequence c > cursor) (ob_chunks b))
           in Inr \<lparr>po_chunks = chunks,
                   po_next_sequence = (if chunks = [] then cursor else tc_sequence (last chunks)),
                   po_latest_sequence = ob_latest_sequence b, po_overflowed = overflowed,
                   po_dropped_through_sequence =
                     (if overflowed then Some (ob_dropped_through_sequence b) else None)\<rparr>)"

text \<open>The buffer after the chunks of a stream.\<close>

definition ob_stream :: "bytes list \<Rightarrow> output_buffer" where
  "ob_stream chunks = fold (\<lambda>data b. snd (ob_push data b)) chunks output_buffer_default"

section \<open>The buffer as a replay log\<close>

definition chunk_bytes :: "terminal_output_chunk list \<Rightarrow> nat" where
  "chunk_bytes cs = sum_list (map (\<lambda>c. length (tc_data c)) cs)"

lemma chunk_bytes_simps [simp]:
  "chunk_bytes [] = 0" "chunk_bytes (c # cs) = length (tc_data c) + chunk_bytes cs"
  "chunk_bytes (cs @ ds) = chunk_bytes cs + chunk_bytes ds"
  by (simp_all add: chunk_bytes_def)

definition output_inv :: "output_buffer \<Rightarrow> bool" where
  "output_inv b \<longleftrightarrow>
     numbered tc_sequence (ob_chunks b) (ob_dropped_through_sequence b) (ob_latest_sequence b) \<and>
     ob_buffered_bytes b = chunk_bytes (ob_chunks b) \<and> ob_buffered_bytes b \<le> MAX_BUFFERED_TERMINAL_BYTES"

definition ob_append :: "bytes \<Rightarrow> output_buffer \<Rightarrow> output_buffer option" where
  "ob_append data b = (case ob_push data b of (None, _) \<Rightarrow> None | (Some _, b') \<Rightarrow> Some b')"

lemma ob_trim_facts:
  "numbered tc_sequence cs dropped latest \<Longrightarrow> buffered = chunk_bytes cs \<Longrightarrow>
   ob_trim limit cs buffered dropped = (cs', buffered', dropped') \<Longrightarrow>
   numbered tc_sequence cs' dropped' latest \<and> unat dropped \<le> unat dropped' \<and>
   cs' = drop (unat dropped' - unat dropped) cs \<and> buffered' = chunk_bytes cs' \<and> buffered' \<le> limit"
proof (induction limit cs buffered dropped rule: ob_trim.induct)
  case (1 limit buffered dropped)
  then show ?case by simp
next
  case (2 limit c cs buffered dropped)
  show ?case
  proof (cases "buffered > limit")
    case True
    have c: "unat (tc_sequence c) = Suc (unat dropped)" using numbered_nth [OF "2.prems"(1), of 0] by simp
    have "ob_trim limit cs (buffered - length (tc_data c)) (tc_sequence c) = (cs', buffered', dropped')"
      using True "2.prems"(3) by simp
    from "2.IH" [OF True numbered_pop [OF "2.prems"(1)] _ this] "2.prems"(2) c show ?thesis
      by (auto simp: drop_Cons' Suc_diff_le)
  next
    case False
    with "2.prems" show ?thesis by auto
  qed
qed

lemma ob_append_facts:
  assumes "output_inv b" "unat (ob_latest_sequence b) + 1 < 2 ^ 64" "ob_append data b = Some b'"
  shows "output_inv b' \<and> ob_latest_sequence b' = ob_latest_sequence b + 1 \<and>
    unat (ob_dropped_through_sequence b) \<le> unat (ob_dropped_through_sequence b') \<and>
    (\<exists>c. tc_data c = data \<and>
       ob_chunks b' = drop (unat (ob_dropped_through_sequence b') - unat (ob_dropped_through_sequence b)) (ob_chunks b @ [c]))"
proof -
  let ?c = "\<lparr>tc_sequence = ob_latest_sequence b + 1, tc_data = data\<rparr>"
  have seq: "saturating_add (ob_latest_sequence b) 1 = ob_latest_sequence b + 1"
    using assms(2) by (simp add: saturating_add_def)
  obtain cs n d where t: "ob_trim MAX_BUFFERED_TERMINAL_BYTES (ob_chunks b @ [?c])
      (ob_buffered_bytes b + length data) (ob_dropped_through_sequence b) = (cs, n, d)" by (metis surj_pair)
  have b': "b' = \<lparr>ob_chunks = cs, ob_buffered_bytes = n, ob_latest_sequence = ob_latest_sequence b + 1,
      ob_dropped_through_sequence = d\<rparr>"
    using assms(3) t seq by (auto simp: ob_append_def ob_push_def Let_def split: if_splits)
  have "unat (ob_latest_sequence b + 1) = unat (ob_latest_sequence b) + 1"
    using assms(2) by (simp add: unat_word_ariths)
  then have "numbered tc_sequence (ob_chunks b @ [?c]) (ob_dropped_through_sequence b) (ob_latest_sequence b + 1)"
    using assms(1,2) by (intro numbered_snoc) (auto simp: output_inv_def)
  from ob_trim_facts [OF this _ t] assms(1) show ?thesis
    by (auto simp: output_inv_def b' intro!: exI [of _ ?c])
qed

interpretation terminal_log: replay_log output_inv ob_chunks tc_sequence tc_data
  ob_latest_sequence ob_dropped_through_sequence ob_append "\<lambda>data. data" output_buffer_default
proof (unfold_locales, goal_cases)
  case 1
  then show ?case by (simp add: output_inv_def output_buffer_default_def numbered_def)
next
  case (5 s)
  then show ?case by (simp add: output_inv_def)
next
  case (6 s a s')
  then show ?case using ob_append_facts by blast
next
  case (7 s a s')
  then show ?case using ob_append_facts by blast
qed (simp_all add: output_buffer_default_def)

lemma ob_append_all:
  "\<forall>data \<in> set chunks. data \<noteq> [] \<Longrightarrow>
   append_all ob_append b chunks = Some (fold (\<lambda>data b. snd (ob_push data b)) chunks b)"
proof (induction chunks arbitrary: b)
  case (Cons data chunks)
  then have "ob_append data b = Some (snd (ob_push data b))"
    by (simp add: ob_append_def ob_push_def Let_def split: prod.split)
  with Cons show ?case by simp
qed simp

lemma ob_stream_append_all:
  "\<forall>data \<in> set chunks. data \<noteq> [] \<Longrightarrow> append_all ob_append output_buffer_default chunks = Some (ob_stream chunks)"
  unfolding ob_stream_def by (rule ob_append_all)

lemma poll_take_prefix: "\<exists>n. poll_take maximum bytes cs = take n cs"
proof (induction cs arbitrary: bytes)
  case (Cons c cs)
  show ?case
  proof (cases "bytes + length (tc_data c) > maximum")
    case True
    then have "poll_take maximum bytes (c # cs) = take 0 (c # cs)" by simp
    then show ?thesis ..
  next
    case False
    obtain n where "poll_take maximum (bytes + length (tc_data c)) cs = take n cs" using Cons.IH by blast
    then have "poll_take maximum bytes (c # cs) = take (Suc n) (c # cs)" using False by simp
    then show ?thesis ..
  qed
qed simp

lemma poll_take_bytes: "bytes \<le> maximum \<Longrightarrow> bytes + chunk_bytes (poll_take maximum bytes cs) \<le> maximum"
proof (induction cs arbitrary: bytes)
  case (Cons c cs)
  show ?case
  proof (cases "bytes + length (tc_data c) > maximum")
    case False
    then have "bytes + length (tc_data c) \<le> maximum" by simp
    from Cons.IH [OF this] False show ?thesis by (simp del: poll_take.simps(1))
  qed (use Cons.prems in simp)
qed simp

section \<open>Persisted segments\<close>

definition PERSISTED_SEGMENT_BYTES :: nat where "PERSISTED_SEGMENT_BYTES = 64 * 1024"

record persistence_buffer =
  pb_sequence_start :: "u64 option"
  pb_sequence_end :: u64
  pb_buffer :: bytes

definition persistence_new :: persistence_buffer where
  "persistence_new = \<lparr>pb_sequence_start = None, pb_sequence_end = 0, pb_buffer = []\<rparr>"

definition append_persisted_chunk :: "terminal_output_chunk \<Rightarrow> persistence_buffer \<Rightarrow> persistence_buffer" where
  "append_persisted_chunk c p =
     \<lparr>pb_sequence_start = (case pb_sequence_start p of None \<Rightarrow> Some (tc_sequence c) | Some s \<Rightarrow> Some s),
      pb_sequence_end = tc_sequence c, pb_buffer = pb_buffer p @ tc_data c\<rparr>"

record terminal_segment =
  sg_start :: u64
  sg_end :: u64
  sg_data :: bytes

text \<open>
  \<^verbatim>\<open>persist_buffer\<close>: the segment handed to the storage, and the emptied buffer; a storage failure
  is logged and changes nothing here.
\<close>

definition persist_buffer :: "persistence_buffer \<Rightarrow> terminal_segment \<times> persistence_buffer" where
  "persist_buffer p =
     (\<lparr>sg_start = (case pb_sequence_start p of Some s \<Rightarrow> s | None \<Rightarrow> pb_sequence_end p),
       sg_end = pb_sequence_end p, sg_data = pb_buffer p\<rparr>,
      p\<lparr>pb_sequence_start := None, pb_buffer := []\<rparr>)"

text \<open>
  What wakes the writer: a chunk, or the flush delay; with an empty buffer it only waits for a chunk,
  so a tick does nothing then. At the end of the channel the rest is flushed.
\<close>

datatype persistence_event = Received terminal_output_chunk | FlushDelay

fun persistence_loop :: "persistence_event list \<Rightarrow> persistence_buffer \<Rightarrow> terminal_segment list" where
  "persistence_loop [] p = (if pb_buffer p \<noteq> [] then [fst (persist_buffer p)] else [])"
| "persistence_loop (Received c # es) p =
     (let q = append_persisted_chunk c p in
      if pb_buffer p = [] then persistence_loop es q
      else if length (pb_buffer q) \<ge> PERSISTED_SEGMENT_BYTES
      then fst (persist_buffer q) # persistence_loop es (snd (persist_buffer q))
      else persistence_loop es q)"
| "persistence_loop (FlushDelay # es) p =
     (if pb_buffer p = [] then persistence_loop es p
      else fst (persist_buffer p) # persistence_loop es (snd (persist_buffer p)))"

definition received :: "persistence_event list \<Rightarrow> terminal_output_chunk list" where
  "received es = concat (map (\<lambda>e. case e of Received c \<Rightarrow> [c] | FlushDelay \<Rightarrow> []) es)"

lemma received_simps [simp]:
  "received [] = []" "received (Received c # es) = c # received es" "received (FlushDelay # es) = received es"
  by (simp_all add: received_def)

text \<open>The segment of a group of consecutive chunks.\<close>

definition group_segment :: "terminal_output_chunk list \<Rightarrow> terminal_segment" where
  "group_segment g = \<lparr>sg_start = tc_sequence (hd g), sg_end = tc_sequence (last g), sg_data = concat (map tc_data g)\<rparr>"

definition holds_group :: "terminal_output_chunk list \<Rightarrow> persistence_buffer \<Rightarrow> bool" where
  "holds_group g p \<longleftrightarrow> pb_buffer p = concat (map tc_data g) \<and>
     pb_sequence_start p = (if g = [] then None else Some (tc_sequence (hd g))) \<and>
     (g \<noteq> [] \<longrightarrow> pb_sequence_end p = tc_sequence (last g))"

lemma holds_append: "holds_group g p \<Longrightarrow> holds_group (g @ [c]) (append_persisted_chunk c p)"
  by (auto simp: holds_group_def append_persisted_chunk_def)

lemma holds_persist:
  "holds_group g p \<Longrightarrow> g \<noteq> [] \<Longrightarrow> fst (persist_buffer p) = group_segment g \<and> holds_group [] (snd (persist_buffer p))"
  by (auto simp: holds_group_def persist_buffer_def group_segment_def)

lemma holds_empty: "holds_group g p \<Longrightarrow> \<forall>c \<in> set g. tc_data c \<noteq> [] \<Longrightarrow> pb_buffer p = [] \<longleftrightarrow> g = []"
  by (cases g) (auto simp: holds_group_def)

definition group_bounded :: "terminal_output_chunk list \<Rightarrow> bool" where
  "group_bounded g \<longleftrightarrow> g \<noteq> [] \<and> length (concat (map tc_data g)) < PERSISTED_SEGMENT_BYTES + TERMINAL_READ_CHUNK_BYTES"

lemma persistence_groups:
  assumes "holds_group g p" "\<forall>c \<in> set (g @ received es). tc_data c \<noteq> [] \<and> length (tc_data c) \<le> TERMINAL_READ_CHUNK_BYTES"
    and "length (pb_buffer p) < PERSISTED_SEGMENT_BYTES"
  shows "\<exists>groups. g @ received es = concat groups \<and> persistence_loop es p = map group_segment groups \<and>
    (\<forall>h \<in> set groups. group_bounded h)"
  using assms
proof (induction es arbitrary: g p)
  case Nil
  show ?case
  proof (cases "g = []")
    case True
    then show ?thesis using Nil holds_empty [of g p] by (intro exI [of _ "[]"]) auto
  next
    case False
    have "group_bounded g" using Nil False by (auto simp: group_bounded_def holds_group_def)
    then show ?thesis
      using Nil False holds_empty [of g p] holds_persist [of g p] by (intro exI [of _ "[g]"]) auto
  qed
next
  case (Cons e es)
  have empty: "pb_buffer p = [] \<longleftrightarrow> g = []" using Cons.prems holds_empty [of g p] by auto
  have flush: ?case
    if "holds_group g' q" "g' \<noteq> []" "g' @ received es = g @ received (e # es)" "group_bounded g'"
      "persistence_loop (e # es) p = fst (persist_buffer q) # persistence_loop es (snd (persist_buffer q))" for g' q
  proof -
    note hp = holds_persist [OF that(1,2)]
    have "\<exists>groups. [] @ received es = concat groups \<and> persistence_loop es (snd (persist_buffer q)) = map group_segment groups \<and>
        (\<forall>h \<in> set groups. group_bounded h)"
    proof (rule Cons.IH)
      have "set (received es) \<subseteq> set (g @ received (e # es))" by (metis Un_upper2 set_append that(3))
      with Cons.prems(2) show "\<forall>c \<in> set ([] @ received es). tc_data c \<noteq> [] \<and> length (tc_data c) \<le> TERMINAL_READ_CHUNK_BYTES"
        by auto
    qed (use hp in \<open>auto simp: holds_group_def PERSISTED_SEGMENT_BYTES_def\<close>)
    then obtain groups where "received es = concat groups" "persistence_loop es (snd (persist_buffer q)) = map group_segment groups"
        "\<forall>h \<in> set groups. group_bounded h" by auto
    then show ?thesis using that hp by (intro exI [of _ "g' # groups"]) auto
  qed
  show ?case
  proof (cases e)
    case FlushDelay
    show ?thesis
    proof (cases "g = []")
      case True
      then show ?thesis using FlushDelay Cons.IH [of "[]" p] Cons.prems empty by simp
    next
      case False
      then have "group_bounded g" using Cons.prems by (auto simp: group_bounded_def holds_group_def)
      then show ?thesis using flush [of g p] FlushDelay Cons.prems False empty by auto
    qed
  next
    case (Received c)
    let ?q = "append_persisted_chunk c p"
    note hq = holds_append [OF Cons.prems(1), of c]
    have c: "tc_data c \<noteq> []" "length (tc_data c) \<le> TERMINAL_READ_CHUNK_BYTES" using Cons.prems(2) Received by auto
    have len: "length (pb_buffer ?q) = length (pb_buffer p) + length (tc_data c)"
      by (simp add: append_persisted_chunk_def)
    show ?thesis
    proof (cases "pb_buffer p \<noteq> [] \<and> length (pb_buffer ?q) \<ge> PERSISTED_SEGMENT_BYTES")
      case True
      have "group_bounded (g @ [c])"
        using hq len c Cons.prems(3) by (auto simp: group_bounded_def holds_group_def)
      then show ?thesis using flush [OF hq] Received True by (auto simp: Let_def)
    next
      case False
      have "length (pb_buffer ?q) < PERSISTED_SEGMENT_BYTES"
        using False len c(2)
        by (auto simp: PERSISTED_SEGMENT_BYTES_def TERMINAL_READ_CHUNK_BYTES_def MIN_TERMINAL_POLL_BYTES_def)
      with Cons.IH [OF hq] Cons.prems(2) Received False show ?thesis by (auto simp: Let_def)
    qed
  qed
qed

section \<open>Properties\<close>

text \<open>
  C14. Polling follows the stream. However much output a terminal produced, its buffer stays within its
  bound, and a poll with a cursor that is not ahead of the stream returns a contiguous piece of the
  output right after the later of the cursor and what was dropped, numbered consecutively, within the
  requested size, with the cursor for the next poll; it reports an overflow exactly when the cursor
  points into what was dropped. As the reader task reads at most what a poll must accept, a poll
  returns nothing only when the reader has caught up.
\<close>

theorem terminal_poll_follows_stream:
  fixes c :: u64
  assumes chunks: "\<forall>data \<in> set stream. data \<noteq> [] \<and> length data \<le> TERMINAL_READ_CHUNK_BYTES"
    and len: "length stream < 2 ^ 64" and max: "unat MIN_TERMINAL_POLL_BYTES \<le> maximum"
  defines "b \<equiv> ob_stream stream"
  defines "c' \<equiv> unat (max c (ob_dropped_through_sequence b))"
  shows "ob_buffered_bytes b \<le> MAX_BUFFERED_TERMINAL_BYTES \<and>
    (case ob_poll cid c maximum b of
       Inl _ \<Rightarrow> length stream < unat c
     | Inr p \<Rightarrow>
         unat c \<le> length stream \<and>
         map tc_data (po_chunks p) = take (length (po_chunks p)) (drop c' stream) \<and>
         map (\<lambda>x. unat (tc_sequence x)) (po_chunks p) = [Suc c'..<Suc c' + length (po_chunks p)] \<and>
         unat (po_next_sequence p) = c' + length (po_chunks p) \<and>
         chunk_bytes (po_chunks p) \<le> maximum \<and>
         (po_overflowed p \<longleftrightarrow> unat c < unat (ob_dropped_through_sequence b)) \<and>
         (po_chunks p = [] \<longrightarrow> c' = length stream))"
proof -
  have app: "append_all ob_append output_buffer_default stream = Some b"
    unfolding b_def using chunks by (intro ob_stream_append_all) auto
  from terminal_log.history [OF app len]
  have inv: "output_inv b" and lat: "unat (ob_latest_sequence b) = length stream" by auto
  let ?sel = "filter (\<lambda>x. tc_sequence x > max c (ob_dropped_through_sequence b)) (ob_chunks b)"
  have sel: "map tc_data ?sel = drop c' stream" "map (\<lambda>x. unat (tc_sequence x)) ?sel = [Suc c'..<Suc (length stream)]"
    using terminal_log.reader [OF app len, of c] by (simp_all add: after_cursor_def c'_def)
  have dl: "unat (ob_dropped_through_sequence b) \<le> length stream" using inv lat by (simp add: output_inv_def numbered_def)
  obtain n where n: "poll_take maximum 0 ?sel = take n ?sel" using poll_take_prefix by blast
  define cs where "cs = poll_take maximum 0 ?sel"
  have cs: "cs = take (length cs) ?sel" unfolding cs_def n by (cases "n \<le> length ?sel") simp_all
  have data: "map tc_data cs = take (length cs) (drop c' stream)" using cs sel(1) by (metis take_map)
  have lsel: "length ?sel = length stream - c'" using sel(1) by (metis length_drop length_map)
  have lcs: "length cs \<le> length stream - c'" using arg_cong [OF cs, of length] lsel by simp
  have nums: "map (\<lambda>x. unat (tc_sequence x)) cs = [Suc c'..<Suc c' + length cs]"
  proof -
    have "map (\<lambda>x. unat (tc_sequence x)) cs = take (length cs) [Suc c'..<Suc (length stream)]" using cs sel(2) by (metis take_map)
    then show ?thesis using lcs by (cases "length cs = 0") (simp_all add: take_upt del: upt_Suc)
  qed
  have bytes: "chunk_bytes cs \<le> maximum" using poll_take_bytes [of 0 maximum ?sel] by (simp add: cs_def)
  have last: "unat (if cs = [] then max c (ob_dropped_through_sequence b) else tc_sequence (last cs)) = c' + length cs"
  proof (cases "cs = []")
    case False
    then have "unat (tc_sequence (last cs)) = last (map (\<lambda>x. unat (tc_sequence x)) cs)" by (simp add: last_map)
    then show ?thesis using nums False by (cases "length cs") (simp_all del: upt_Suc add: upt_Suc_append)
  qed (simp add: c'_def)
  have caught: "c' = length stream" if "cs = []" "unat c \<le> length stream"
  proof (rule ccontr)
    assume "c' \<noteq> length stream"
    moreover have "c' \<le> length stream" using that(2) dl by (simp add: c'_def max_def)
    ultimately have ne: "?sel \<noteq> []" using lsel by (metis diff_is_0_eq le_antisym list.size(3))
    then obtain x xs where x: "?sel = x # xs" by (meson neq_Nil_conv)
    have "tc_data x \<in> set stream" using sel(1) x by (metis in_set_dropD list.set_intros(1) list.simps(9))
    then have "length (tc_data x) \<le> maximum" using chunks max by (auto simp: TERMINAL_READ_CHUNK_BYTES_def)
    then show False using that(1) x by (simp add: cs_def)
  qed
  have poll: "ob_poll cid c maximum b = (if c > ob_latest_sequence b
      then Inl (maestro_error_new cid InvalidRequest ''terminal cursor is newer than the available output'')
      else Inr \<lparr>po_chunks = cs,
             po_next_sequence = (if cs = [] then max c (ob_dropped_through_sequence b) else tc_sequence (last cs)),
             po_latest_sequence = ob_latest_sequence b, po_overflowed = c < ob_dropped_through_sequence b,
             po_dropped_through_sequence =
               (if c < ob_dropped_through_sequence b then Some (ob_dropped_through_sequence b) else None)\<rparr>)"
    by (simp add: ob_poll_def Let_def cs_def)
  have buf: "ob_buffered_bytes b \<le> MAX_BUFFERED_TERMINAL_BYTES" using inv by (simp add: output_inv_def)
  show ?thesis
  proof (cases "c > ob_latest_sequence b")
    case True
    then show ?thesis using buf lat by (simp add: poll word_less_nat_alt)
  next
    case False
    then have "unat c \<le> length stream" using lat by (simp add: word_less_nat_alt not_less)
    then show ?thesis
      using False buf data nums bytes last caught by (simp add: poll word_less_nat_alt del: upt_Suc)
  qed
qed

lemma terminal_poll_follows_stream_witness:
  "\<exists>p. ob_poll 0 1 4096 (ob_stream [[104], [105]]) = Inr p \<and> chunk_bytes (po_chunks p) \<le> 4096"
proof -
  have "\<forall>data \<in> set [[104], [105 :: u8]]. data \<noteq> [] \<and> length data \<le> TERMINAL_READ_CHUNK_BYTES"
    by (simp add: TERMINAL_READ_CHUNK_BYTES_def MIN_TERMINAL_POLL_BYTES_def)
  from terminal_poll_follows_stream [OF this, of 4096, where cid = 0 and c = 1] show ?thesis
    by (cases "ob_poll 0 1 4096 (ob_stream [[104], [105 :: u8]])") (simp_all add: MIN_TERMINAL_POLL_BYTES_def)
qed

text \<open>
  C15. Persistence loses and reorders nothing. Whenever chunks arrive and timers fire, the segments
  handed to the storage are the received chunks cut into consecutive groups: each segment carries the
  bytes of its group and the first and last sequence number of it, and stays within a segment and a
  read of each other.
\<close>

theorem persisted_segments_partition_stream:
  assumes "\<forall>c \<in> set (received es). tc_data c \<noteq> [] \<and> length (tc_data c) \<le> TERMINAL_READ_CHUNK_BYTES"
  shows "\<exists>groups. received es = concat groups \<and> persistence_loop es persistence_new = map group_segment groups \<and>
    (\<forall>g \<in> set groups. g \<noteq> [] \<and> length (sg_data (group_segment g)) < PERSISTED_SEGMENT_BYTES + TERMINAL_READ_CHUNK_BYTES)"
proof -
  have "holds_group [] persistence_new" by (simp add: holds_group_def persistence_new_def)
  from persistence_groups [OF this, of es] assms show ?thesis
    by (simp add: persistence_new_def PERSISTED_SEGMENT_BYTES_def group_bounded_def group_segment_def)
qed

lemma persisted_segments_partition_stream_witness:
  "\<exists>groups. [\<lparr>tc_sequence = 1, tc_data = [104]\<rparr>, \<lparr>tc_sequence = 2, tc_data = [105]\<rparr>] = concat groups \<and>
     persistence_loop [Received \<lparr>tc_sequence = 1, tc_data = [104]\<rparr>, FlushDelay, Received \<lparr>tc_sequence = 2, tc_data = [105]\<rparr>]
       persistence_new = map group_segment groups"
proof -
  let ?es = "[Received \<lparr>tc_sequence = 1, tc_data = [104]\<rparr>, FlushDelay, Received \<lparr>tc_sequence = 2, tc_data = [105]\<rparr>]"
  have "\<forall>c \<in> set (received ?es). tc_data c \<noteq> [] \<and> length (tc_data c) \<le> TERMINAL_READ_CHUNK_BYTES"
    by (simp add: TERMINAL_READ_CHUNK_BYTES_def MIN_TERMINAL_POLL_BYTES_def)
  from persisted_segments_partition_stream [OF this] show ?thesis by auto
qed

end
