(* ===== verification/Terminal.thy ===== *)
theory Terminal
  imports Terminal_Output Process
begin

text \<open>
  The terminal manager of \<^verbatim>\<open>crates/maestrod/src/terminal.rs\<close>. Sessions are shared objects: the
  table of terminals, the reader task and a pending close hold references to the same
  \<^verbatim>\<open>TerminalSession\<close>. The model keeps every session object ever created in \<open>tg_sessions\<close> and the
  table of terminals as the set \<open>tg_terminals\<close> of identifiers it holds. The semaphore of slots is its
  number of available permits; \<open>tg_dropped_leases\<close> records the adapter leases that were dropped, in order.
  What a system call answers (path resolution, spawn, write, termination, storage) is an argument.
\<close>

section \<open>State\<close>

definition MAX_TERMINAL_INPUT_BYTES :: nat where "MAX_TERMINAL_INPUT_BYTES = 64 * 1024"
definition MAX_TERMINAL_READ_WAIT_MILLISECONDS :: u32 where "MAX_TERMINAL_READ_WAIT_MILLISECONDS = 30000"
definition MAX_TERMINAL_PATH_BYTES :: nat where "MAX_TERMINAL_PATH_BYTES = 4 * 1024"
definition MAX_TERMINAL_DIMENSION :: u16 where "MAX_TERMINAL_DIMENSION = 1000"
definition MAX_TERMINAL_INDEX_ENTRIES :: nat where "MAX_TERMINAL_INDEX_ENTRIES = 64"

datatype terminal_state = TermRunning | TermClosing | TermExited | TermFailed | TermClosed

record terminal_exit =
  tx_code :: "i32 option"
  tx_signal :: "i32 option"

record terminal_opened =
  to_terminal_id :: terminal_id
  to_run_id :: run_id
  to_process_id :: u32
  to_canonical_cwd :: string
  to_state :: terminal_state

record terminal_index_entry =
  ti_project_id :: project_id
  ti_terminal :: terminal_opened
  ti_kind :: string
  ti_title :: string
  ti_exit :: "terminal_exit option"

record terminal_read_result =
  tr_terminal_id :: terminal_id
  tr_chunks :: "terminal_output_chunk list"
  tr_next_sequence :: u64
  tr_latest_sequence :: u64
  tr_overflowed :: bool
  tr_dropped_through_sequence :: "u64 option"
  tr_state :: terminal_state
  tr_exit :: "terminal_exit option"

record terminal_status =
  tu_terminal_id :: terminal_id
  tu_state :: terminal_state
  tu_exit :: "terminal_exit option"

record terminal_metadata =
  tm_project_id :: project_id
  tm_kind :: string
  tm_title :: string

text \<open>
  The session object with its runtime. \<open>ts_permit\<close> tells whether it still holds its slot;
  \<open>ts_input\<close> and \<open>ts_size\<close> are what was written to the process and its last window size.
\<close>

record terminal_session =
  ts_run_id :: run_id
  ts_process_id :: u32
  ts_writer_lease :: "uuid option"
  ts_canonical_cwd :: string
  ts_output :: output_buffer
  ts_state :: terminal_state
  ts_exit :: "terminal_exit option"
  ts_close_requested :: bool
  ts_permit :: bool
  ts_retained :: bool
  ts_metadata :: "terminal_metadata option"
  ts_input :: "bytes list"
  ts_size :: "u16 \<times> u16"

record terminal_manager =
  tg_sessions :: "terminal_id \<rightharpoonup> terminal_session"
  tg_terminals :: "terminal_id set"
  tg_completed :: "terminal_id list"
  tg_available_permits :: nat
  tg_limit :: nat
  tg_storage :: bool
  tg_dropped_leases :: "uuid list"

definition terminal_manager_new :: "nat \<Rightarrow> terminal_manager" where
  "terminal_manager_new limit =
     \<lparr>tg_sessions = Map.empty, tg_terminals = {}, tg_completed = [], tg_available_permits = limit,
      tg_limit = limit, tg_storage = False, tg_dropped_leases = []\<rparr>"

definition terminal_manager_with_storage :: "nat \<Rightarrow> terminal_manager" where
  "terminal_manager_with_storage limit = (terminal_manager_new limit)\<lparr>tg_storage := True\<rparr>"

definition terminal_session_new ::
  "run_id \<Rightarrow> u32 \<Rightarrow> uuid option \<Rightarrow> string \<Rightarrow> terminal_metadata option \<Rightarrow> u16 \<times> u16 \<Rightarrow> terminal_session" where
  "terminal_session_new run pid lease cwd metadata dims =
     \<lparr>ts_run_id = run, ts_process_id = pid, ts_writer_lease = lease, ts_canonical_cwd = cwd,
      ts_output = output_buffer_default, ts_state = TermRunning, ts_exit = None, ts_close_requested = False,
      ts_permit = True, ts_retained = True, ts_metadata = metadata, ts_input = [], ts_size = dims\<rparr>"

text \<open>Replacing a session object, dropping a lease, giving back a slot.\<close>

definition put_session :: "terminal_id \<Rightarrow> terminal_session \<Rightarrow> terminal_manager \<Rightarrow> terminal_manager" where
  "put_session t s m = m\<lparr>tg_sessions := (tg_sessions m)(t \<mapsto> s)\<rparr>"

definition drop_lease :: "uuid option \<Rightarrow> terminal_manager \<Rightarrow> terminal_manager" where
  "drop_lease lease m = m\<lparr>tg_dropped_leases := tg_dropped_leases m @ (case lease of Some l \<Rightarrow> [l] | None \<Rightarrow> [])\<rparr>"

definition release_slot :: "terminal_manager \<Rightarrow> terminal_manager" where
  "release_slot m = m\<lparr>tg_available_permits := tg_available_permits m + 1\<rparr>"

section \<open>Errors and validation\<close>

definition invalid_path_error :: "uuid \<Rightarrow> maestro_error" where
  "invalid_path_error cid =
     maestro_error_new cid InvalidPath ''terminal working directory must be an existing absolute directory''"

definition terminal_limit_error :: "uuid \<Rightarrow> nat \<Rightarrow> maestro_error" where
  "terminal_limit_error cid limit =
     (maestro_error_new cid TerminalLimitReached ''terminal limit has been reached'')
       \<lparr>err_details := Some (Object [(''limit'', nat_json limit)])\<rparr>"

fun terminal_json :: "(uuid \<Rightarrow> string) \<Rightarrow> terminal_id \<Rightarrow> json" where
  "terminal_json id_text (TerminalId u) = String (id_text u)"

definition terminal_not_found :: "(uuid \<Rightarrow> string) \<Rightarrow> uuid \<Rightarrow> terminal_id \<Rightarrow> maestro_error" where
  "terminal_not_found id_text cid t =
     (maestro_error_new cid TerminalNotFound ''terminal does not exist'')
       \<lparr>err_details := Some (Object [(''terminal_id'', terminal_json id_text t)])\<rparr>"

definition terminal_storage_error :: "uuid \<Rightarrow> maestro_error" where
  "terminal_storage_error cid = maestro_error_new cid DatabaseUnavailable ''encrypted terminal history is unavailable''"

fun terminal_error_category :: "process_error \<Rightarrow> string" where
  "terminal_error_category (Capacity _) = ''capacity''"
| "terminal_error_category (ProcessIo _) = ''io''"
| "terminal_error_category (ProcessPty _) = ''pty''"
| "terminal_error_category _ = ''lifecycle''"

definition terminal_process_error :: "uuid \<Rightarrow> process_error \<Rightarrow> maestro_error" where
  "terminal_process_error cid e =
     (maestro_error_new cid ProcessCrashed ''terminal process operation failed'')
       \<lparr>err_retryable := False,
        err_details := Some (Object [(''category'', String (terminal_error_category e))])\<rparr>"

definition validate_dimensions :: "uuid \<Rightarrow> u16 \<Rightarrow> u16 \<Rightarrow> maestro_error + unit" where
  "validate_dimensions cid columns rows =
     (if columns = 0 \<or> rows = 0 \<or> columns > MAX_TERMINAL_DIMENSION \<or> rows > MAX_TERMINAL_DIMENSION
      then Inl (maestro_error_new cid InvalidRequest ''terminal dimensions are outside the supported range'')
      else Inr ())"

fun exit_from_cause :: "exit_cause \<Rightarrow> terminal_exit" where
  "exit_from_cause (Exited code) = \<lparr>tx_code = Some code, tx_signal = None\<rparr>"
| "exit_from_cause (Signaled signal) = \<lparr>tx_code = None, tx_signal = Some signal\<rparr>"
| "exit_from_cause ExitUnknown = \<lparr>tx_code = None, tx_signal = None\<rparr>"

fun terminal_state_name :: "terminal_state \<Rightarrow> string" where
  "terminal_state_name TermRunning = ''running''"
| "terminal_state_name TermExited = ''exited''"
| "terminal_state_name TermClosing = ''closing''"
| "terminal_state_name TermClosed = ''closed''"
| "terminal_state_name TermFailed = ''failed''"

section \<open>The shell\<close>

record shell_invocation =
  sh_executable :: path
  sh_arguments :: "string list"

definition shell_arguments :: "path \<Rightarrow> string list" where
  "shell_arguments shell =
     (if path_file_name shell = Some ''zsh'' then [''-f'']
      else if path_file_name shell = Some ''bash'' then [''--noprofile'', ''--norc'']
      else if path_file_name shell = Some ''fish'' then [''--no-config'']
      else [])"

text \<open>\<open>parse\<close> splits a path into its components, \<open>is_file\<close> asks the file system.\<close>

definition resolve_shell :: "(string \<Rightarrow> path) \<Rightarrow> (path \<Rightarrow> bool) \<Rightarrow> controlled_environment \<Rightarrow> shell_invocation" where
  "resolve_shell parse is_file environment =
     (case map_option parse (environment ''SHELL'') of
        Some shell \<Rightarrow>
          if path_starts_with shell [''/''] \<and> is_file shell
          then \<lparr>sh_executable = shell, sh_arguments = shell_arguments shell\<rparr>
          else \<lparr>sh_executable = [''/'', ''bin'', ''sh''], sh_arguments = []\<rparr>
      | None \<Rightarrow> \<lparr>sh_executable = [''/'', ''bin'', ''sh''], sh_arguments = []\<rparr>)"

definition terminal_environment :: "(string \<times> string) list \<Rightarrow> controlled_environment" where
  "terminal_environment current =
     environment_evaluate
       (policy_override_value ''COLORTERM'' ''truecolor''
          (policy_override_value ''TERM'' ''xterm-256color'' environment_policy_default)) current"

section \<open>Opening a terminal\<close>

text \<open>Dropping the oldest completed terminals until there is room in the table.\<close>

fun prune_completed ::
  "nat \<Rightarrow> terminal_id list \<Rightarrow> terminal_id set \<Rightarrow> (terminal_id \<rightharpoonup> terminal_session) \<Rightarrow>
   terminal_id list \<times> terminal_id set \<times> (terminal_id \<rightharpoonup> terminal_session)" where
  "prune_completed limit [] terminals sessions = ([], terminals, sessions)"
| "prune_completed limit (t # ts) terminals sessions =
     (if card terminals \<ge> limit
      then prune_completed limit ts (terminals - {t})
             (if t \<in> terminals then sessions(t := map_option (\<lambda>s. s\<lparr>ts_retained := False\<rparr>) (sessions t)) else sessions)
      else (t # ts, terminals, sessions))"

definition prune_completed_for_insert :: "terminal_manager \<Rightarrow> terminal_manager" where
  "prune_completed_for_insert m =
     (case prune_completed (tg_limit m) (tg_completed m) (tg_terminals m) (tg_sessions m) of
        (completed, terminals, sessions) \<Rightarrow>
          m\<lparr>tg_completed := completed, tg_terminals := terminals, tg_sessions := sessions\<rparr>)"

text \<open>
  What resolving the working directory answers: whether it could be canonicalized, whether the result
  is a directory if its metadata could be read, and its text if it is valid UTF-8.
\<close>

record directory_probe =
  dp_canonicalized :: bool
  dp_is_dir :: "bool option"
  dp_text :: "string option"

definition prepare_launch ::
  "uuid \<Rightarrow> string \<Rightarrow> u16 \<Rightarrow> u16 \<Rightarrow> directory_probe \<Rightarrow> terminal_manager \<Rightarrow>
   (maestro_error + string) \<times> terminal_manager" where
  "prepare_launch cid cwd columns rows probe m =
     (case validate_dimensions cid columns rows of
        Inl e \<Rightarrow> (Inl e, m)
      | Inr _ \<Rightarrow>
          if cwd = [] \<or> length cwd > MAX_TERMINAL_PATH_BYTES \<or> \<not> starts_with cwd ''/'' \<or> \<not> dp_canonicalized probe
             \<or> dp_is_dir probe \<noteq> Some True
          then (Inl (invalid_path_error cid), m)
          else (case dp_text probe of
                  None \<Rightarrow> (Inl (invalid_path_error cid), m)
                | Some canonical_cwd \<Rightarrow>
                    if tg_available_permits m = 0 then (Inl (terminal_limit_error cid (tg_limit m)), m)
                    else (Inr canonical_cwd,
                          prune_completed_for_insert (m\<lparr>tg_available_permits := tg_available_permits m - 1\<rparr>))))"

record terminal_launch_ownership =
  lo_run_id :: run_id
  lo_writer_lease :: "uuid option"
  lo_persistence :: "terminal_metadata option"

text \<open>
  \<open>spawn\<close>, \<open>registered\<close> and \<open>terminated\<close> are the outcomes of spawning the process, of registering the
  terminal in the storage and of terminating the process when that failed. A lease whose process could
  not be terminated stays with a background task until the process is gone (\<open>lease_task_done\<close>).
\<close>

definition spawn_inner ::
  "uuid \<Rightarrow> terminal_id \<Rightarrow> process_error + u32 \<Rightarrow> bool \<Rightarrow> bool \<Rightarrow> string \<Rightarrow> u16 \<Rightarrow> u16 \<Rightarrow> terminal_launch_ownership \<Rightarrow>
   terminal_manager \<Rightarrow> (maestro_error + terminal_opened) \<times> terminal_manager" where
  "spawn_inner cid t spawn registered terminated canonical_cwd columns rows ownership m =
     (case spawn of
        Inl e \<Rightarrow> (Inl (terminal_process_error cid e), release_slot (drop_lease (lo_writer_lease ownership) m))
      | Inr pid \<Rightarrow>
          if tg_storage m \<and> lo_persistence ownership \<noteq> None \<and> \<not> registered
          then (Inl (terminal_storage_error cid),
                release_slot (if terminated then drop_lease (lo_writer_lease ownership) m else m))
          else (Inr \<lparr>to_terminal_id = t, to_run_id = lo_run_id ownership, to_process_id = pid,
                     to_canonical_cwd = canonical_cwd, to_state = TermRunning\<rparr>,
                put_session t (terminal_session_new (lo_run_id ownership) pid (lo_writer_lease ownership) canonical_cwd
                    (lo_persistence ownership) (columns, rows))
                  (m\<lparr>tg_terminals := insert t (tg_terminals m)\<rparr>)))"

definition lease_task_done :: "uuid \<Rightarrow> terminal_manager \<Rightarrow> terminal_manager" where
  "lease_task_done lease m = drop_lease (Some lease) m"

definition open_for_project ::
  "uuid \<Rightarrow> terminal_id \<Rightarrow> run_id \<Rightarrow> process_error + u32 \<Rightarrow> bool \<Rightarrow> bool \<Rightarrow> directory_probe \<Rightarrow> project_id \<Rightarrow> string \<Rightarrow>
   u16 \<Rightarrow> u16 \<Rightarrow> terminal_manager \<Rightarrow> (maestro_error + terminal_opened) \<times> terminal_manager" where
  "open_for_project cid t run spawn registered terminated probe project cwd columns rows m =
     (case prepare_launch cid cwd columns rows probe m of
        (Inl e, m1) \<Rightarrow> (Inl e, m1)
      | (Inr canonical_cwd, m1) \<Rightarrow>
          spawn_inner cid t spawn registered terminated canonical_cwd columns rows
            \<lparr>lo_run_id = run, lo_writer_lease = None,
             lo_persistence = Some \<lparr>tm_project_id = project, tm_kind = ''shell'', tm_title = ''Shell terminal''\<rparr>\<rparr> m1)"

text \<open>What a launch plan of an adapter says of the process, and the lease it carries.\<close>

record tui_launch_plan =
  tp_transport_pty :: bool
  tp_working_directory :: "string option"
  tp_writer_lease :: "uuid option"

definition open_tui_plan_for_project ::
  "uuid \<Rightarrow> terminal_id \<Rightarrow> process_error + u32 \<Rightarrow> bool \<Rightarrow> bool \<Rightarrow> directory_probe \<Rightarrow> project_id \<Rightarrow> run_id \<Rightarrow>
   tui_launch_plan \<Rightarrow> u16 \<Rightarrow> u16 \<Rightarrow> string \<Rightarrow> terminal_manager \<Rightarrow> (maestro_error + terminal_opened) \<times> terminal_manager" where
  "open_tui_plan_for_project cid t spawn registered terminated probe project run plan columns rows title m =
     (if \<not> tp_transport_pty plan
      then (Inl (maestro_error_new cid InvalidRequest ''the adapter terminal launch plan must use PTY transport''),
            drop_lease (tp_writer_lease plan) m)
      else (case tp_working_directory plan of
              None \<Rightarrow> (Inl (invalid_path_error cid), drop_lease (tp_writer_lease plan) m)
            | Some cwd \<Rightarrow>
                (case prepare_launch cid cwd columns rows probe m of
                   (Inl e, m1) \<Rightarrow> (Inl e, drop_lease (tp_writer_lease plan) m1)
                 | (Inr canonical_cwd, m1) \<Rightarrow>
                     spawn_inner cid t spawn registered terminated canonical_cwd columns rows
                       \<lparr>lo_run_id = run, lo_writer_lease = tp_writer_lease plan,
                        lo_persistence = Some \<lparr>tm_project_id = project, tm_kind = ''agent_tui'', tm_title = title\<rparr>\<rparr> m1)))"

section \<open>Using a terminal\<close>

definition terminal_session_of ::
  "(uuid \<Rightarrow> string) \<Rightarrow> uuid \<Rightarrow> terminal_id \<Rightarrow> terminal_manager \<Rightarrow> maestro_error + terminal_session" where
  "terminal_session_of id_text cid t m =
     ok_or (terminal_not_found id_text cid t) (if t \<in> tg_terminals m then tg_sessions m t else None)"

definition session_opened :: "terminal_id \<Rightarrow> terminal_session \<Rightarrow> terminal_opened" where
  "session_opened t s =
     \<lparr>to_terminal_id = t, to_run_id = ts_run_id s, to_process_id = ts_process_id s,
      to_canonical_cwd = ts_canonical_cwd s, to_state = ts_state s\<rparr>"

definition session_status :: "terminal_id \<Rightarrow> terminal_session \<Rightarrow> terminal_status" where
  "session_status t s = \<lparr>tu_terminal_id = t, tu_state = ts_state s, tu_exit = ts_exit s\<rparr>"

definition require_running :: "uuid \<Rightarrow> terminal_session \<Rightarrow> maestro_error + unit" where
  "require_running cid s =
     (if ts_state s = TermRunning then Inr ()
      else Inl (maestro_error_new cid TerminalNotRunning ''terminal is not running''))"

text \<open>The index of a project; \<open>order\<close> is the order in which the hash table yields its identifiers.\<close>

definition index_entry :: "project_id \<Rightarrow> terminal_id \<times> terminal_session \<Rightarrow> terminal_index_entry list" where
  "index_entry project x =
     (case ts_metadata (snd x) of
        Some metadata \<Rightarrow>
          [\<lparr>ti_project_id = project, ti_terminal = session_opened (fst x) (snd x), ti_kind = tm_kind metadata,
            ti_title = tm_title metadata, ti_exit = ts_exit (snd x)\<rparr>]
      | None \<Rightarrow> [])"

definition project_shell :: "project_id \<Rightarrow> terminal_session \<Rightarrow> bool" where
  "project_shell project s \<longleftrightarrow>
     (case ts_metadata s of
        Some metadata \<Rightarrow> tm_project_id metadata = project \<and> tm_kind metadata = ''shell'' | None \<Rightarrow> False)"

fun terminal_text :: "(uuid \<Rightarrow> string) \<Rightarrow> terminal_id \<Rightarrow> string" where
  "terminal_text id_text (TerminalId u) = id_text u"

definition list_for_project ::
  "(uuid \<Rightarrow> string) \<Rightarrow> uuid \<Rightarrow> terminal_id list \<Rightarrow> project_id \<Rightarrow> nat \<Rightarrow> terminal_manager \<Rightarrow>
   maestro_error + terminal_index_entry list" where
  "list_for_project id_text cid order project maximum_terminals m =
     (if maximum_terminals = 0 \<or> maximum_terminals > MAX_TERMINAL_INDEX_ENTRIES
      then Inl (maestro_error_new cid InvalidRequest ''terminal index limit is outside the supported range'')
      else let matching = filter (\<lambda>x. project_shell project (snd x))
                 (concat (map (\<lambda>t. case tg_sessions m t of Some s \<Rightarrow> [(t, s)] | None \<Rightarrow> []) order))
           in Inr (concat (map (index_entry project)
                 (take maximum_terminals (sort_key (\<lambda>x. terminal_text id_text (fst x)) matching)))))"

definition attach_for_project_kind ::
  "(uuid \<Rightarrow> string) \<Rightarrow> uuid \<Rightarrow> project_id \<Rightarrow> terminal_id \<Rightarrow> string \<Rightarrow> terminal_manager \<Rightarrow> maestro_error + terminal_opened" where
  "attach_for_project_kind id_text cid project t expected_kind m =
     and_then (terminal_session_of id_text cid t m) (\<lambda>s.
       if (case ts_metadata s of
             None \<Rightarrow> True
           | Some metadata \<Rightarrow> tm_project_id metadata \<noteq> project \<or> tm_kind metadata \<noteq> expected_kind)
       then Inl (maestro_error_new cid PermissionDenied
              ''terminal does not belong to the requested project or integration mode'')
       else Inr (session_opened t s))"

definition attach_shell_for_project ::
  "(uuid \<Rightarrow> string) \<Rightarrow> uuid \<Rightarrow> project_id \<Rightarrow> terminal_id \<Rightarrow> terminal_manager \<Rightarrow> maestro_error + terminal_opened" where
  "attach_shell_for_project id_text cid project t m = attach_for_project_kind id_text cid project t ''shell'' m"

definition attach_tui_for_project ::
  "(uuid \<Rightarrow> string) \<Rightarrow> uuid \<Rightarrow> project_id \<Rightarrow> terminal_id \<Rightarrow> terminal_manager \<Rightarrow> maestro_error + terminal_opened" where
  "attach_tui_for_project id_text cid project t m = attach_for_project_kind id_text cid project t ''agent_tui'' m"

text \<open>\<open>wr\<close> is the outcome of the write to the pseudo-terminal.\<close>

definition terminal_write ::
  "(uuid \<Rightarrow> string) \<Rightarrow> uuid \<Rightarrow> process_error + unit \<Rightarrow> terminal_id \<Rightarrow> bytes \<Rightarrow> terminal_manager \<Rightarrow>
   (maestro_error + unit) \<times> terminal_manager" where
  "terminal_write id_text cid wr t data m =
     (if length data > MAX_TERMINAL_INPUT_BYTES
      then (Inl ((maestro_error_new cid InputTooLarge ''terminal input exceeds the maximum request size'')
              \<lparr>err_details := Some (Object [(''actual_bytes'', nat_json (length data)),
                 (''maximum_bytes'', nat_json MAX_TERMINAL_INPUT_BYTES)])\<rparr>), m)
      else (case terminal_session_of id_text cid t m of
              Inl e \<Rightarrow> (Inl e, m)
            | Inr s \<Rightarrow>
                (case require_running cid s of
                   Inl e \<Rightarrow> (Inl e, m)
                 | Inr _ \<Rightarrow>
                     (case wr of
                        Inl e \<Rightarrow> (Inl (terminal_process_error cid e), m)
                      | Inr _ \<Rightarrow> (Inr (), put_session t (s\<lparr>ts_input := ts_input s @ [data]\<rparr>) m)))))"

definition terminal_resize ::
  "(uuid \<Rightarrow> string) \<Rightarrow> uuid \<Rightarrow> process_error + unit \<Rightarrow> terminal_id \<Rightarrow> u16 \<Rightarrow> u16 \<Rightarrow> terminal_manager \<Rightarrow>
   (maestro_error + unit) \<times> terminal_manager" where
  "terminal_resize id_text cid wr t columns rows m =
     (case validate_dimensions cid columns rows of
        Inl e \<Rightarrow> (Inl e, m)
      | Inr _ \<Rightarrow>
          (case terminal_session_of id_text cid t m of
             Inl e \<Rightarrow> (Inl e, m)
           | Inr s \<Rightarrow>
               (case require_running cid s of
                  Inl e \<Rightarrow> (Inl e, m)
                | Inr _ \<Rightarrow>
                    (case wr of
                       Inl e \<Rightarrow> (Inl (terminal_process_error cid e), m)
                     | Inr _ \<Rightarrow> (Inr (), put_session t (s\<lparr>ts_size := (columns, rows)\<rparr>) m)))))"

definition terminal_read_snapshot ::
  "uuid \<Rightarrow> terminal_id \<Rightarrow> u64 \<Rightarrow> nat \<Rightarrow> terminal_session \<Rightarrow> maestro_error + terminal_read_result" where
  "terminal_read_snapshot cid t after_sequence maximum_bytes s =
     and_then (ob_poll cid after_sequence maximum_bytes (ts_output s)) (\<lambda>p. Inr
       \<lparr>tr_terminal_id = t, tr_chunks = po_chunks p, tr_next_sequence = po_next_sequence p,
        tr_latest_sequence = po_latest_sequence p, tr_overflowed = po_overflowed p,
        tr_dropped_through_sequence = po_dropped_through_sequence p, tr_state = ts_state s, tr_exit = ts_exit s\<rparr>)"

text \<open>\<open>later\<close> is the session when the wait for output is over, by a change or by the timeout.\<close>

definition terminal_read ::
  "(uuid \<Rightarrow> string) \<Rightarrow> uuid \<Rightarrow> terminal_id \<Rightarrow> u64 \<Rightarrow> u32 \<Rightarrow> u32 \<Rightarrow> terminal_session \<Rightarrow> terminal_manager \<Rightarrow>
   maestro_error + terminal_read_result" where
  "terminal_read id_text cid t after_sequence maximum_bytes wait_milliseconds later m =
     (if maximum_bytes < MIN_TERMINAL_POLL_BYTES \<or> maximum_bytes > MAX_TERMINAL_POLL_BYTES
      then Inl ((maestro_error_new cid InvalidRequest ''terminal poll size is outside the supported range'')
             \<lparr>err_details := Some (Object [(''minimum_bytes'', nat_json (unat MIN_TERMINAL_POLL_BYTES)),
                (''maximum_bytes'', nat_json (unat MAX_TERMINAL_POLL_BYTES))])\<rparr>)
      else if wait_milliseconds > MAX_TERMINAL_READ_WAIT_MILLISECONDS
      then Inl ((maestro_error_new cid InvalidRequest ''terminal read wait exceeds the supported maximum'')
             \<lparr>err_details := Some (Object [(''maximum_wait_milliseconds'',
                nat_json (unat MAX_TERMINAL_READ_WAIT_MILLISECONDS))])\<rparr>)
      else and_then (terminal_session_of id_text cid t m) (\<lambda>s.
        and_then (terminal_read_snapshot cid t after_sequence (unat maximum_bytes) s) (\<lambda>initial.
          if wait_milliseconds = 0 \<or> tr_chunks initial \<noteq> [] \<or> tr_overflowed initial \<or> tr_state initial \<noteq> TermRunning
          then Inr initial
          else terminal_read_snapshot cid t after_sequence (unat maximum_bytes) later)))"

definition terminal_status_of ::
  "(uuid \<Rightarrow> string) \<Rightarrow> uuid \<Rightarrow> terminal_id \<Rightarrow> terminal_manager \<Rightarrow> maestro_error + terminal_status" where
  "terminal_status_of id_text cid t m = and_then (terminal_session_of id_text cid t m) (\<lambda>s. Inr (session_status t s))"

text \<open>Waiting for the end of a terminal: the states it shows at each wake-up; \<^term>\<open>None\<close> while it still waits.\<close>

fun wait_for_completion :: "terminal_id \<Rightarrow> terminal_session list \<Rightarrow> terminal_status option" where
  "wait_for_completion t [] = None"
| "wait_for_completion t (s # rest) =
     (if ts_state s \<in> {TermRunning, TermClosing} then wait_for_completion t rest else Some (session_status t s))"

definition terminal_count :: "terminal_manager \<Rightarrow> nat" where
  "terminal_count m = tg_limit m - tg_available_permits m"

section \<open>The end of a terminal\<close>

definition finalize_reaped ::
  "terminal_id \<Rightarrow> unit + terminal_exit \<Rightarrow> terminal_session \<Rightarrow> terminal_manager \<Rightarrow> terminal_manager" where
  "finalize_reaped t completion s m =
     (let s1 = s\<lparr>ts_writer_lease := None\<rparr>;
          s2 = (case completion of
                  Inr exit \<Rightarrow> s1\<lparr>ts_exit := Some exit,
                     ts_state := (if ts_close_requested s1 then TermClosed else TermExited)\<rparr>
                | Inl _ \<Rightarrow> s1\<lparr>ts_state := TermFailed, ts_exit := None\<rparr>);
          m1 = put_session t (s2\<lparr>ts_permit := False\<rparr>) (drop_lease (ts_writer_lease s) m)
      in if ts_permit s
         then release_slot (m1\<lparr>tg_completed := tg_completed m1 @ (if ts_retained s then [t] else [])\<rparr>)
         else m1)"

text \<open>A termination that failed; the result tells whether the session still holds its slot.\<close>

definition note_termination_failure :: "terminal_session \<Rightarrow> bool \<times> terminal_session" where
  "note_termination_failure s =
     (if \<not> ts_permit s then (False, s) else (True, s\<lparr>ts_state := TermFailed, ts_exit := None\<rparr>))"

definition mark_removed :: "terminal_id \<Rightarrow> terminal_session \<Rightarrow> terminal_manager \<Rightarrow> terminal_manager" where
  "mark_removed t s m =
     (put_session t (s\<lparr>ts_retained := False\<rparr>) m)\<lparr>tg_completed := filter (\<lambda>c. c \<noteq> t) (tg_completed m)\<rparr>"

definition finish_close :: "terminal_id \<Rightarrow> terminal_session \<Rightarrow> terminal_manager \<Rightarrow> terminal_status \<times> terminal_manager" where
  "finish_close t s m =
     (let s1 = s\<lparr>ts_state := TermClosed\<rparr>;
          m1 = mark_removed t s1 m
      in (session_status t s1, m1\<lparr>tg_terminals := tg_terminals m1 - {t}\<rparr>))"

text \<open>The session once its close is requested.\<close>

definition close_requested_session :: "terminal_session \<Rightarrow> terminal_session" where
  "close_requested_session s = s\<lparr>ts_close_requested := True,
     ts_state := (if ts_state s \<in> {TermExited, TermClosed} then ts_state s else TermClosing)\<rparr>"

text \<open>\<open>terminated\<close> is the outcome of terminating the process.\<close>

definition terminal_close ::
  "(uuid \<Rightarrow> string) \<Rightarrow> uuid \<Rightarrow> process_error + exit_cause \<Rightarrow> terminal_id \<Rightarrow> terminal_manager \<Rightarrow>
   (maestro_error + terminal_status) \<times> terminal_manager" where
  "terminal_close id_text cid terminated t m =
     (case terminal_session_of id_text cid t m of
        Inl e \<Rightarrow> (Inl e, m)
      | Inr s \<Rightarrow>
          let s1 = close_requested_session s;
              m1 = put_session t s1 m
          in if \<not> ts_permit s1
             then (case finish_close t s1 m1 of (status, m2) \<Rightarrow> (Inr status, m2))
             else (case terminated of
                     Inr cause \<Rightarrow>
                       let m2 = finalize_reaped t (Inr (exit_from_cause cause)) s1 m1
                       in (case tg_sessions m2 t of
                             Some s2 \<Rightarrow> (case finish_close t s2 m2 of (status, m3) \<Rightarrow> (Inr status, m3))
                           | None \<Rightarrow> (Inl (terminal_not_found id_text cid t), m2))
                   | Inl e \<Rightarrow>
                       (case note_termination_failure s1 of
                          (True, s2) \<Rightarrow> (Inl (terminal_process_error cid e), put_session t s2 m1)
                        | (False, s2) \<Rightarrow> (case finish_close t s2 m1 of (status, m3) \<Rightarrow> (Inr status, m3)))))"

text \<open>Closing everything, the terminals in some order with the outcome of each termination.\<close>

fun close_all ::
  "(uuid \<Rightarrow> string) \<Rightarrow> uuid \<Rightarrow> (terminal_id \<Rightarrow> process_error + exit_cause) \<Rightarrow> terminal_id list \<Rightarrow> terminal_manager \<Rightarrow>
   nat \<times> terminal_manager" where
  "close_all id_text cid outcome [] m = (0, m)"
| "close_all id_text cid outcome (t # ts) m =
     (case terminal_close id_text cid (outcome t) t m of
        (result, m1) \<Rightarrow> (case close_all id_text cid outcome ts m1 of
           (failures, m2) \<Rightarrow> ((if is_ok result then 0 else 1) + failures, m2)))"

text \<open>
  The reader task of a session: a chunk of output, and its end, with what waiting for (or, after a
  failed read, terminating) the process returned. The task keeps its session when the table drops it.
\<close>

definition reader_data :: "terminal_id \<Rightarrow> bytes \<Rightarrow> terminal_manager \<Rightarrow> terminal_manager" where
  "reader_data t data m =
     (case tg_sessions m t of
        Some s \<Rightarrow> put_session t (s\<lparr>ts_output := snd (ob_push data (ts_output s))\<rparr>) m
      | None \<Rightarrow> m)"

definition reader_end :: "terminal_id \<Rightarrow> process_error + exit_cause \<Rightarrow> terminal_manager \<Rightarrow> terminal_manager" where
  "reader_end t completion m =
     (case tg_sessions m t of
        Some s \<Rightarrow>
          finalize_reaped t (case completion of Inr cause \<Rightarrow> Inr (exit_from_cause cause) | Inl _ \<Rightarrow> Inl ()) s m
      | None \<Rightarrow> m)"

section \<open>Steps and reachable states\<close>

text \<open>Every operation that changes the manager, in any order; an opened terminal draws a fresh identifier.\<close>

inductive terminal_step :: "terminal_manager \<Rightarrow> terminal_manager \<Rightarrow> bool" where
  step_open: "tg_sessions m t = None \<Longrightarrow>
    terminal_step m (snd (open_for_project cid t run spawn registered terminated probe project cwd columns rows m))"
| step_open_tui: "tg_sessions m t = None \<Longrightarrow>
    terminal_step m (snd (open_tui_plan_for_project cid t spawn registered terminated probe project run plan columns rows title m))"
| step_write: "terminal_step m (snd (terminal_write id_text cid wr t data m))"
| step_resize: "terminal_step m (snd (terminal_resize id_text cid wr t columns rows m))"
| step_close: "terminal_step m (snd (terminal_close id_text cid terminated' t m))"
| step_data: "terminal_step m (reader_data t data m)"
| step_end: "terminal_step m (reader_end t completion m)"
| step_lease: "terminal_step m (lease_task_done lease m)"

inductive terminal_reachable :: "nat \<Rightarrow> terminal_manager \<Rightarrow> bool" for limit where
  reach_new: "terminal_reachable limit (terminal_manager_new limit)"
| reach_storage: "terminal_reachable limit (terminal_manager_with_storage limit)"
| reach_step: "terminal_reachable limit m \<Longrightarrow> terminal_step m m' \<Longrightarrow> terminal_reachable limit m'"

section \<open>Invariant\<close>

definition slot_holders :: "terminal_manager \<Rightarrow> terminal_id set" where
  "slot_holders m = {t. \<exists>s. tg_sessions m t = Some s \<and> ts_permit s}"

definition output_bounded :: "output_buffer \<Rightarrow> bool" where
  "output_bounded b \<longleftrightarrow> ob_buffered_bytes b = chunk_bytes (ob_chunks b) \<and> ob_buffered_bytes b \<le> MAX_BUFFERED_TERMINAL_BYTES"

definition session_ok :: "bool \<Rightarrow> terminal_session \<Rightarrow> bool" where
  "session_ok listed s \<longleftrightarrow>
     (ts_retained s \<longleftrightarrow> listed) \<and> (ts_permit s \<longrightarrow> listed) \<and> (\<not> ts_permit s \<longrightarrow> ts_writer_lease s = None) \<and>
     (ts_state s \<in> {TermExited, TermClosed} \<longrightarrow> \<not> ts_permit s) \<and>
     (ts_state s \<in> {TermRunning, TermClosing} \<longrightarrow> ts_permit s) \<and> output_bounded (ts_output s)"

text \<open>\<open>k\<close> slots are in the hands of launches that have not stored their session yet.\<close>

definition manager_inv :: "nat \<Rightarrow> terminal_manager \<Rightarrow> bool" where
  "manager_inv k m \<longleftrightarrow>
     finite (dom (tg_sessions m)) \<and> tg_terminals m \<subseteq> dom (tg_sessions m) \<and>
     tg_available_permits m + card (slot_holders m) + k = tg_limit m \<and> card (tg_terminals m) \<le> tg_limit m \<and>
     distinct (tg_completed m) \<and> set (tg_completed m) = tg_terminals m - slot_holders m \<and>
     (\<forall>t s. tg_sessions m t = Some s \<longrightarrow> session_ok (t \<in> tg_terminals m) s)"

lemma slot_holders_put: "slot_holders (put_session t s m) = (if ts_permit s then insert t (slot_holders m) else slot_holders m - {t})"
  by (auto simp: slot_holders_def put_session_def)

lemma put_session_frame [simp]:
  "tg_terminals (put_session t s m) = tg_terminals m" "tg_completed (put_session t s m) = tg_completed m"
  "tg_available_permits (put_session t s m) = tg_available_permits m" "tg_limit (put_session t s m) = tg_limit m"
  "tg_sessions (put_session t s m) = (tg_sessions m)(t \<mapsto> s)" "put_session t s (put_session t s' m) = put_session t s m"
  by (simp_all add: put_session_def)

lemma drop_lease_frame [simp]:
  "tg_terminals (drop_lease l m) = tg_terminals m" "tg_completed (drop_lease l m) = tg_completed m"
  "tg_available_permits (drop_lease l m) = tg_available_permits m" "tg_limit (drop_lease l m) = tg_limit m"
  "tg_sessions (drop_lease l m) = tg_sessions m" "slot_holders (drop_lease l m) = slot_holders m"
  "manager_inv k (drop_lease l m) \<longleftrightarrow> manager_inv k m"
  by (simp_all add: drop_lease_def slot_holders_def manager_inv_def)

lemma release_slot_inv: "manager_inv (Suc k) m \<Longrightarrow> manager_inv k (release_slot m)"
  by (simp add: manager_inv_def release_slot_def slot_holders_def)

lemma put_session_inv:
  assumes "manager_inv k m" "tg_sessions m t = Some s0" "ts_permit s = ts_permit s0" "session_ok (t \<in> tg_terminals m) s"
  shows "manager_inv k (put_session t s m)"
proof -
  have "slot_holders (put_session t s m) = slot_holders m"
    using assms(2,3) unfolding slot_holders_put by (auto simp: slot_holders_def)
  then show ?thesis using assms by (auto simp: manager_inv_def insert_absorb domI)
qed

lemma holders_finite: "manager_inv k m \<Longrightarrow> finite (slot_holders m)"
  by (rule finite_subset [of _ "dom (tg_sessions m)"]) (auto simp: manager_inv_def slot_holders_def)

lemma holders_listed: "manager_inv k m \<Longrightarrow> slot_holders m \<subseteq> tg_terminals m"
  by (auto simp: manager_inv_def slot_holders_def session_ok_def)

lemma terminals_finite: "manager_inv k m \<Longrightarrow> finite (tg_terminals m)"
  unfolding manager_inv_def by (meson finite_subset)

lemma ob_trim_bounded:
  "buffered = chunk_bytes cs \<Longrightarrow> ob_trim limit cs buffered dropped = (cs', buffered', dropped') \<Longrightarrow>
   buffered' = chunk_bytes cs' \<and> buffered' \<le> limit"
  by (induction limit cs buffered dropped rule: ob_trim.induct) (auto split: if_splits)

lemma ob_push_bounded:
  assumes "output_bounded b"
  shows "output_bounded (snd (ob_push data b))"
proof -
  let ?c = "\<lparr>tc_sequence = saturating_add (ob_latest_sequence b) 1, tc_data = data\<rparr>"
  obtain cs n d where t: "ob_trim MAX_BUFFERED_TERMINAL_BYTES (ob_chunks b @ [?c]) (ob_buffered_bytes b + length data)
      (ob_dropped_through_sequence b) = (cs, n, d)" by (metis surj_pair)
  have "n = chunk_bytes cs \<and> n \<le> MAX_BUFFERED_TERMINAL_BYTES"
    by (rule ob_trim_bounded [OF _ t]) (use assms in \<open>simp add: output_bounded_def\<close>)
  then show ?thesis using assms t by (simp add: ob_push_def output_bounded_def Let_def)
qed

lemma finalize_reaped_inv:
  assumes inv: "manager_inv k m" and s0: "tg_sessions m t = Some s0"
    and same: "ts_permit s = ts_permit s0" "ts_retained s = ts_retained s0" "ts_output s = ts_output s0"
      "ts_writer_lease s = ts_writer_lease s0"
  shows "manager_inv k (finalize_reaped t completion s m)"
proof -
  have ok0: "session_ok (t \<in> tg_terminals m) s0" using inv s0 by (simp add: manager_inv_def)
  define s2 where "s2 = (case completion of
      Inr exit \<Rightarrow> s\<lparr>ts_writer_lease := None, ts_exit := Some exit, ts_state := (if ts_close_requested s then TermClosed else TermExited)\<rparr>
    | Inl _ \<Rightarrow> s\<lparr>ts_writer_lease := None, ts_state := TermFailed, ts_exit := None\<rparr>)\<lparr>ts_permit := False\<rparr>"
  let ?m1 = "put_session t s2 (drop_lease (ts_writer_lease s) m)"
  have fin: "finalize_reaped t completion s m =
      (if ts_permit s then release_slot (?m1\<lparr>tg_completed := tg_completed m @ (if ts_retained s then [t] else [])\<rparr>) else ?m1)"
    by (cases completion) (simp_all add: finalize_reaped_def s2_def)
  have s2: "session_ok (t \<in> tg_terminals m) s2" "\<not> ts_permit s2"
    using ok0 same by (auto simp: session_ok_def s2_def split: sum.split)
  show ?thesis
  proof (cases "ts_permit s")
    case False
    then show ?thesis using fin put_session_inv [of k "drop_lease (ts_writer_lease s) m" t s0 s2] inv s0 s2 same by simp
  next
    case True
    then have ret: "ts_retained s" "t \<in> tg_terminals m" using ok0 same by (auto simp: session_ok_def)
    have t: "t \<in> slot_holders m" using True same s0 by (auto simp: slot_holders_def)
    have fresh: "t \<notin> set (tg_completed m)" using inv t by (auto simp: manager_inv_def)
    let ?m2 = "?m1\<lparr>tg_completed := tg_completed m @ [t]\<rparr>"
    have h: "slot_holders ?m2 = slot_holders m - {t}"
      using slot_holders_put [of t s2 "drop_lease (ts_writer_lease s) m"] s2(2) by (simp add: slot_holders_def)
    have card: "card (slot_holders m) = Suc (card (slot_holders m - {t}))"
      by (rule card.remove [OF holders_finite [OF inv] t])
    have "manager_inv (Suc k) ?m2"
      unfolding manager_inv_def h
    proof (intro conjI allI impI)
      show "tg_available_permits ?m2 + card (slot_holders m - {t}) + Suc k = tg_limit ?m2"
        using inv card by (simp add: manager_inv_def)
      show "set (tg_completed ?m2) = tg_terminals ?m2 - (slot_holders m - {t})"
        using inv ret by (auto simp: manager_inv_def)
      fix u s' assume "tg_sessions ?m2 u = Some s'"
      then show "session_ok (u \<in> tg_terminals ?m2) s'"
        using inv s2(1) by (cases "u = t") (auto simp: manager_inv_def)
    qed (use inv fresh in \<open>auto simp: manager_inv_def\<close>)
    then show ?thesis using fin True ret by (simp add: release_slot_inv)
  qed
qed

lemma finish_close_inv:
  assumes inv: "manager_inv k m" and s0: "tg_sessions m t = Some s0" "\<not> ts_permit s0" and t: "t \<in> tg_terminals m"
    and s: "\<not> ts_permit s" "ts_writer_lease s = None" "output_bounded (ts_output s)"
  shows "manager_inv k (snd (finish_close t s m))"
proof -
  let ?s = "s\<lparr>ts_state := TermClosed, ts_retained := False\<rparr>"
  let ?m = "(put_session t ?s m)\<lparr>tg_completed := filter (\<lambda>c. c \<noteq> t) (tg_completed m), tg_terminals := tg_terminals m - {t}\<rparr>"
  have eq: "snd (finish_close t s m) = ?m" by (simp add: finish_close_def mark_removed_def Let_def)
  have h: "slot_holders ?m = slot_holders m"
    using s0 s(1) by (auto simp: slot_holders_def put_session_def)
  have "card (tg_terminals m - {t}) \<le> card (tg_terminals m)"
    by (rule card_mono [OF terminals_finite [OF inv]]) auto
  moreover have "session_ok False ?s" using s by (simp add: session_ok_def)
  ultimately show ?thesis unfolding eq using inv h s0 by (auto simp: manager_inv_def)
qed

lemma manager_session: "manager_inv k m \<Longrightarrow> tg_sessions m t = Some s \<Longrightarrow> session_ok (t \<in> tg_terminals m) s"
  by (simp add: manager_inv_def)

lemma prune_step_inv:
  assumes inv: "manager_inv k m" and c: "tg_completed m = t # ts"
  shows "manager_inv k (m\<lparr>tg_completed := ts, tg_terminals := tg_terminals m - {t},
    tg_sessions := (tg_sessions m)(t := map_option (\<lambda>s. s\<lparr>ts_retained := False\<rparr>) (tg_sessions m t))\<rparr>)"
    (is "manager_inv k ?m")
proof -
  have t: "t \<in> tg_terminals m" "t \<notin> slot_holders m" "t \<notin> set ts" using inv c by (auto simp: manager_inv_def)
  then obtain s where s: "tg_sessions m t = Some s" "\<not> ts_permit s"
    using inv by (auto simp: manager_inv_def slot_holders_def)
  have h: "slot_holders ?m = slot_holders m" using s by (auto simp: slot_holders_def)
  have card: "card (tg_terminals m - {t}) \<le> card (tg_terminals m)" by (rule card_mono [OF terminals_finite [OF inv]]) auto
  have "session_ok True s" using manager_session [OF inv s(1)] t(1) by simp
  then have "session_ok False (s\<lparr>ts_retained := False\<rparr>)" using s(2) by (simp add: session_ok_def)
  then show ?thesis
    unfolding manager_inv_def h using inv c s t card by (auto simp: manager_inv_def)
qed

lemma prune_inv:
  assumes "manager_inv k m"
  shows "manager_inv k (prune_completed_for_insert m)"
    and "card (tg_terminals (prune_completed_for_insert m)) < tg_limit m \<or> tg_completed (prune_completed_for_insert m) = []"
    and "tg_sessions m t = None \<Longrightarrow> tg_sessions (prune_completed_for_insert m) t = None"
    and "tg_limit (prune_completed_for_insert m) = tg_limit m" "tg_storage (prune_completed_for_insert m) = tg_storage m"
proof -
  have "manager_inv k (prune_completed_for_insert m) \<and>
    (card (tg_terminals (prune_completed_for_insert m)) < tg_limit m \<or> tg_completed (prune_completed_for_insert m) = []) \<and>
    (tg_sessions m t = None \<longrightarrow> tg_sessions (prune_completed_for_insert m) t = None)"
    using assms
  proof (induction "tg_completed m" arbitrary: m)
    case Nil
    then have "prune_completed_for_insert m = m" by (cases m) (simp add: prune_completed_for_insert_def)
    then show ?case using Nil by simp
  next
    case (Cons c cs)
    note cm = Cons.hyps(2) [symmetric]
    show ?case
    proof (cases "card (tg_terminals m) \<ge> tg_limit m")
      case False
      then have "prune_completed_for_insert m = m" using cm by (cases m) (simp add: prune_completed_for_insert_def)
      then show ?thesis using Cons.prems False by simp
    next
      case True
      let ?m = "m\<lparr>tg_completed := cs, tg_terminals := tg_terminals m - {c},
        tg_sessions := (tg_sessions m)(c := map_option (\<lambda>s. s\<lparr>ts_retained := False\<rparr>) (tg_sessions m c))\<rparr>"
      have c: "c \<in> tg_terminals m" using Cons.prems cm by (auto simp: manager_inv_def)
      have eq: "prune_completed_for_insert m = prune_completed_for_insert ?m"
        using True c by (simp add: prune_completed_for_insert_def cm split: prod.split)
      have "tg_sessions m t = None \<longrightarrow> tg_sessions ?m t = None" by simp
      with Cons.hyps(1) [of ?m] prune_step_inv [OF Cons.prems cm] show ?thesis unfolding eq by simp
    qed
  qed
  then show "manager_inv k (prune_completed_for_insert m)"
    "card (tg_terminals (prune_completed_for_insert m)) < tg_limit m \<or> tg_completed (prune_completed_for_insert m) = []"
    "tg_sessions m t = None \<Longrightarrow> tg_sessions (prune_completed_for_insert m) t = None" by blast+
qed (simp_all add: prune_completed_for_insert_def split: prod.split)

lemma prepare_launch_Inl: "prepare_launch cid cwd columns rows probe m = (Inl e, m') \<Longrightarrow> m' = m"
  by (auto simp: prepare_launch_def split: sum.splits option.splits if_splits)

lemma prepare_launch_Inr:
  assumes "prepare_launch cid cwd columns rows probe m = (Inr c, m')" "manager_inv 0 m"
  shows "manager_inv 1 m'" "card (tg_terminals m') < tg_limit m'" "tg_sessions m t = None \<Longrightarrow> tg_sessions m' t = None"
proof -
  let ?m = "m\<lparr>tg_available_permits := tg_available_permits m - 1\<rparr>"
  have m': "m' = prune_completed_for_insert ?m" and pos: "tg_available_permits m \<noteq> 0"
    using assms(1) by (auto simp: prepare_launch_def split: sum.splits option.splits if_splits)
  have inv: "manager_inv 1 ?m" using assms(2) pos by (simp add: manager_inv_def slot_holders_def)
  show inv1: "manager_inv 1 m'" and "tg_sessions m t = None \<Longrightarrow> tg_sessions m' t = None"
    unfolding m' using prune_inv(1,3) [OF inv] by simp_all
  show "card (tg_terminals m') < tg_limit m'"
  proof (cases "tg_completed m' = []")
    case False
    then show ?thesis using prune_inv(2,4) [OF inv] unfolding m' by simp
  next
    case True
    then have "tg_terminals m' = slot_holders m'" using inv1 holders_listed [OF inv1] by (auto simp: manager_inv_def)
    then show ?thesis using inv1 by (simp add: manager_inv_def)
  qed
qed

lemma spawn_inner_inv:
  assumes inv: "manager_inv 1 m" and room: "card (tg_terminals m) < tg_limit m" and fresh: "tg_sessions m t = None"
  shows "manager_inv 0 (snd (spawn_inner cid t spawn registered terminated cwd columns rows ownership m))"
proof (cases "\<exists>pid. spawn = Inr pid \<and> \<not> (tg_storage m \<and> lo_persistence ownership \<noteq> None \<and> \<not> registered)")
  case False
  have "manager_inv (Suc 0) m" using inv by simp
  then show ?thesis
    using False by (cases spawn) (auto simp: spawn_inner_def release_slot_inv)
next
  case True
  then obtain pid where pid: "spawn = Inr pid" "\<not> (tg_storage m \<and> lo_persistence ownership \<noteq> None \<and> \<not> registered)" by blast
  define s where "s = terminal_session_new (lo_run_id ownership) pid (lo_writer_lease ownership) cwd (lo_persistence ownership) (columns, rows)"
  let ?m = "put_session t s (m\<lparr>tg_terminals := insert t (tg_terminals m)\<rparr>)"
  have eq: "snd (spawn_inner cid t spawn registered terminated cwd columns rows ownership m) = ?m"
    using pid by (auto simp: spawn_inner_def s_def)
  have s: "session_ok True s" "ts_permit s"
    by (simp_all add: s_def terminal_session_new_def session_ok_def output_bounded_def output_buffer_default_def)
  have nt: "t \<notin> tg_terminals m" "t \<notin> slot_holders m" using inv fresh by (auto simp: manager_inv_def slot_holders_def)
  have h: "slot_holders ?m = insert t (slot_holders m)" using s(2) by (simp add: slot_holders_put) (simp add: slot_holders_def)
  have "card (insert t (slot_holders m)) = Suc (card (slot_holders m))" using holders_finite [OF inv] nt by simp
  moreover have "card (insert t (tg_terminals m)) \<le> tg_limit m" using terminals_finite [OF inv] nt room by simp
  ultimately show ?thesis
    unfolding eq manager_inv_def h using inv s(1) nt by (auto simp: manager_inv_def)
qed

lemma open_inv:
  assumes "manager_inv 0 m" "tg_sessions m t = None"
  shows "manager_inv 0 (snd (open_for_project cid t run spawn registered terminated probe project cwd columns rows m))"
    and "manager_inv 0 (snd (open_tui_plan_for_project cid t spawn registered terminated probe project run plan columns rows title m))"
proof -
  have launched: "manager_inv 0 (snd (spawn_inner cid t spawn registered terminated c columns rows ownership m1))"
    if "prepare_launch cid cwd' columns rows probe m = (Inr c, m1)" for c m1 ownership cwd'
    by (intro spawn_inner_inv prepare_launch_Inr [OF that assms(1)]) (rule assms(2))
  show "manager_inv 0 (snd (open_for_project cid t run spawn registered terminated probe project cwd columns rows m))"
    using assms(1) launched
    by (auto simp: open_for_project_def dest!: prepare_launch_Inl split: prod.split sum.split)
  show "manager_inv 0 (snd (open_tui_plan_for_project cid t spawn registered terminated probe project run plan columns rows title m))"
    using assms(1) launched
    by (auto simp: open_tui_plan_for_project_def dest!: prepare_launch_Inl split: prod.split sum.split option.split)
qed

lemma terminal_session_of_Inr:
  "terminal_session_of id_text cid t m = Inr s \<longleftrightarrow> t \<in> tg_terminals m \<and> tg_sessions m t = Some s"
  by (auto simp: terminal_session_of_def ok_or_def split: option.splits if_splits)

lemma finish_close_put [simp]: "finish_close t s (put_session t s' m) = finish_close t s m"
  by (simp add: finish_close_def mark_removed_def put_session_def Let_def)

lemma finalize_reaped_put [simp]: "finalize_reaped t c s (put_session t s' m) = finalize_reaped t c s m"
  by (simp add: finalize_reaped_def put_session_def drop_lease_def release_slot_def Let_def split: sum.split)

lemma finalize_reaped_session:
  "\<exists>s'. tg_sessions (finalize_reaped t c s m) t = Some s' \<and> \<not> ts_permit s' \<and> ts_writer_lease s' = None \<and>
     ts_output s' = ts_output s"
  by (cases c) (simp_all add: finalize_reaped_def release_slot_def Let_def)

lemma finalize_reaped_frame [simp]:
  "tg_terminals (finalize_reaped t c s m) = tg_terminals m"
  "tg_dropped_leases (finalize_reaped t c s m) = tg_dropped_leases m @ (case ts_writer_lease s of Some l \<Rightarrow> [l] | None \<Rightarrow> [])"
  by (simp_all add: finalize_reaped_def release_slot_def Let_def put_session_def drop_lease_def)

lemma close_requested_frame [simp]:
  "ts_permit (close_requested_session s) = ts_permit s" "ts_retained (close_requested_session s) = ts_retained s" "ts_output (close_requested_session s) = ts_output s"
  "ts_writer_lease (close_requested_session s) = ts_writer_lease s"
  by (simp_all add: close_requested_session_def)

text \<open>The three ways a close of a listed terminal goes.\<close>

lemma terminal_close_cases:
  assumes "t \<in> tg_terminals m" "tg_sessions m t = Some s"
  obtains (finalized) "\<not> ts_permit s" "terminal_close id_text cid terminated t m =
        (Inr (fst (finish_close t (close_requested_session s) m)), snd (finish_close t (close_requested_session s) m))"
    | (reaped) cause s2 where "ts_permit s" "terminated = Inr cause"
        "tg_sessions (finalize_reaped t (Inr (exit_from_cause cause)) (close_requested_session s) m) t = Some s2"
        "\<not> ts_permit s2" "ts_writer_lease s2 = None" "ts_output s2 = ts_output s"
        "terminal_close id_text cid terminated t m =
          (Inr (fst (finish_close t s2 (finalize_reaped t (Inr (exit_from_cause cause)) (close_requested_session s) m))),
           snd (finish_close t s2 (finalize_reaped t (Inr (exit_from_cause cause)) (close_requested_session s) m)))"
    | (failed) e where "ts_permit s" "terminated = Inl e"
        "terminal_close id_text cid terminated t m = (Inl (terminal_process_error cid e),
           put_session t ((close_requested_session s)\<lparr>ts_state := TermFailed, ts_exit := None\<rparr>) m)"
proof -
  have s: "terminal_session_of id_text cid t m = Inr s" using assms by (simp add: terminal_session_of_Inr)
  show ?thesis
  proof (cases "ts_permit s")
    case False
    then show ?thesis using s by (intro finalized) (simp_all add: terminal_close_def split_beta Let_def)
  next
    case p: True
    show ?thesis
    proof (cases terminated)
      case (Inl e)
      then show ?thesis
        using s p by (intro failed) (simp_all add: terminal_close_def note_termination_failure_def Let_def)
    next
      case (Inr cause)
      let ?m2 = "finalize_reaped t (Inr (exit_from_cause cause)) (close_requested_session s) m"
      obtain s2 where s2: "tg_sessions ?m2 t = Some s2" "\<not> ts_permit s2" "ts_writer_lease s2 = None" "ts_output s2 = ts_output s"
        using finalize_reaped_session [of t "Inr (exit_from_cause cause)" "close_requested_session s" m] by auto
      have "terminal_close id_text cid terminated t m = (Inr (fst (finish_close t s2 ?m2)), snd (finish_close t s2 ?m2))"
        using s p Inr s2(1) by (simp add: terminal_close_def split_beta Let_def)
      with p Inr s2 show ?thesis by (intro reaped)
    qed
  qed
qed

lemma terminal_close_inv:
  assumes "manager_inv 0 m"
  shows "manager_inv 0 (snd (terminal_close id_text cid terminated t m))"
proof (cases "\<exists>s. t \<in> tg_terminals m \<and> tg_sessions m t = Some s")
  case False
  then have "\<exists>e. terminal_session_of id_text cid t m = Inl e"
    by (cases "terminal_session_of id_text cid t m") (auto simp: terminal_session_of_Inr)
  then show ?thesis using assms by (auto simp: terminal_close_def)
next
  case True
  then obtain s where t: "t \<in> tg_terminals m" and s: "tg_sessions m t = Some s" by blast
  have ok: "session_ok True s" using manager_session [OF assms s] t by simp
  from t s show ?thesis
  proof (cases rule: terminal_close_cases [where id_text = id_text and cid = cid and terminated = terminated])
    case finalized
    then show ?thesis using finish_close_inv [OF assms s _ t, of "close_requested_session s"] ok by (simp add: session_ok_def)
  next
    case (reaped cause s2)
    have "manager_inv 0 (finalize_reaped t (Inr (exit_from_cause cause)) (close_requested_session s) m)"
      by (rule finalize_reaped_inv [OF assms s]) simp_all
    from finish_close_inv [OF this reaped(3,4), of s2] reaped ok t show ?thesis by (simp add: session_ok_def)
  next
    case (failed e)
    then show ?thesis
      using put_session_inv [OF assms s, of "(close_requested_session s)\<lparr>ts_state := TermFailed, ts_exit := None\<rparr>"] ok t
      by (simp add: session_ok_def)
  qed
qed

lemma put_harmless_inv:
  assumes "manager_inv 0 m" "tg_sessions m t = Some s0" "ts_permit s = ts_permit s0" "ts_retained s = ts_retained s0"
    and "ts_writer_lease s = ts_writer_lease s0" "ts_state s = ts_state s0" "output_bounded (ts_output s0) \<Longrightarrow> output_bounded (ts_output s)"
  shows "manager_inv 0 (put_session t s m)"
  using put_session_inv [OF assms(1-3)] manager_session [OF assms(1,2)] assms(3-7) by (simp add: session_ok_def)

lemma terminal_step_inv:
  assumes "terminal_step m m'" "manager_inv 0 m"
  shows "manager_inv 0 m'"
  using assms
proof (induction rule: terminal_step.induct)
  case (step_open m t cid run spawn registered terminated probe project cwd columns rows)
  then show ?case by (intro open_inv)
next
  case (step_open_tui m t cid spawn registered terminated probe project run plan columns rows title)
  then show ?case by (intro open_inv)
next
  case (step_write m id_text cid wr t data)
  show ?case
  proof (cases "terminal_session_of id_text cid t m")
    case (Inr s)
    then have "manager_inv 0 (put_session t (s\<lparr>ts_input := ts_input s @ [data]\<rparr>) m)"
      using put_harmless_inv [OF step_write] by (simp add: terminal_session_of_Inr)
    then show ?thesis using step_write Inr by (simp add: terminal_write_def split: sum.split)
  qed (use step_write in \<open>simp add: terminal_write_def\<close>)
next
  case (step_resize m id_text cid wr t columns rows)
  show ?case
  proof (cases "terminal_session_of id_text cid t m")
    case (Inr s)
    then have "manager_inv 0 (put_session t (s\<lparr>ts_size := (columns, rows)\<rparr>) m)"
      using put_harmless_inv [OF step_resize] by (simp add: terminal_session_of_Inr)
    then show ?thesis using step_resize Inr by (simp add: terminal_resize_def split: sum.split)
  qed (use step_resize in \<open>simp add: terminal_resize_def split: sum.split\<close>)
next
  case (step_close m id_text cid terminated' t)
  then show ?case by (rule terminal_close_inv)
next
  case (step_data m t data)
  then show ?case using put_harmless_inv [OF step_data] by (simp add: reader_data_def ob_push_bounded split: option.split)
next
  case (step_end m t completion)
  show ?case
  proof (cases "tg_sessions m t")
    case (Some s)
    from finalize_reaped_inv [OF step_end Some refl refl refl refl] Some show ?thesis by (simp add: reader_end_def)
  qed (use step_end in \<open>simp add: reader_end_def\<close>)
next
  case (step_lease m lease)
  then show ?case by (simp add: lease_task_done_def)
qed

lemma prepare_launch_limit: "tg_limit (snd (prepare_launch cid cwd columns rows probe m)) = tg_limit m"
  by (auto simp: prepare_launch_def prune_completed_for_insert_def split: sum.split option.split prod.split)

lemma spawn_inner_limit:
  "tg_limit (snd (spawn_inner cid t spawn registered terminated cwd columns rows ownership m)) = tg_limit m"
  by (simp add: spawn_inner_def release_slot_def split: sum.split)

lemma finalize_reaped_limit [simp]: "tg_limit (finalize_reaped t c s m) = tg_limit m"
  by (simp add: finalize_reaped_def release_slot_def Let_def)

lemma finish_close_limit [simp]: "tg_limit (snd (finish_close t s m)) = tg_limit m"
  by (simp add: finish_close_def mark_removed_def Let_def)

lemma terminal_close_limit [simp]: "tg_limit (snd (terminal_close id_text cid terminated t m)) = tg_limit m"
  by (simp add: terminal_close_def Let_def split_beta split: sum.split option.split bool.split)

lemma terminal_step_limit: "terminal_step m m' \<Longrightarrow> tg_limit m' = tg_limit m"
proof (induction rule: terminal_step.induct)
  case (step_open m t cid run spawn registered terminated probe project cwd columns rows)
  obtain x m1 where "prepare_launch cid cwd columns rows probe m = (x, m1)" by (metis surj_pair)
  then show ?case
    using prepare_launch_limit [of cid cwd columns rows probe m]
    by (cases x) (simp_all add: open_for_project_def spawn_inner_limit)
next
  case (step_open_tui m t cid spawn registered terminated probe project run plan columns rows title)
  have "tg_limit m1 = tg_limit m" if "prepare_launch cid cwd columns rows probe m = (x, m1)" for x m1 cwd
    using prepare_launch_limit [of cid cwd columns rows probe m] that by simp
  then show ?case
    by (auto simp: open_tui_plan_for_project_def spawn_inner_limit split: option.split prod.split sum.split)
qed (simp_all add: terminal_write_def terminal_resize_def reader_data_def reader_end_def lease_task_done_def
    split: sum.split option.split)

lemma reachable_inv: "terminal_reachable limit m \<Longrightarrow> manager_inv 0 m \<and> tg_limit m = limit"
proof (induction rule: terminal_reachable.induct)
  case reach_new
  then show ?case by (simp add: terminal_manager_new_def manager_inv_def slot_holders_def)
next
  case reach_storage
  then show ?case by (simp add: terminal_manager_with_storage_def terminal_manager_new_def manager_inv_def slot_holders_def)
next
  case (reach_step m m')
  have "tg_limit m' = tg_limit m" by (rule terminal_step_limit [OF reach_step.hyps(2)])
  with reach_step terminal_step_inv show ?case by blast
qed

section \<open>Properties\<close>


definition sample_probe :: directory_probe where
  "sample_probe = \<lparr>dp_canonicalized = True, dp_is_dir = Some True, dp_text = Some ''/w''\<rparr>"

definition sample_open :: "terminal_manager" where
  "sample_open = snd (open_for_project 0 (TerminalId 1) (RunId 2) (Inr 44) True True sample_probe (ProjectId 3) ''/w'' 80 24
     (terminal_manager_new 1))"

lemma sample_open_reachable: "terminal_reachable 1 sample_open"
  unfolding sample_open_def
  by (rule reach_step [OF reach_new], rule step_open) (simp add: terminal_manager_new_def)

lemma sample_open_session: "\<exists>s. tg_sessions sample_open (TerminalId 1) = Some s \<and> ts_state s = TermRunning"
  by (simp add: sample_open_def open_for_project_def prepare_launch_def validate_dimensions_def MAX_TERMINAL_DIMENSION_def
      MAX_TERMINAL_PATH_BYTES_def starts_with_def sample_probe_def terminal_manager_new_def prune_completed_for_insert_def
      spawn_inner_def terminal_session_new_def)


text \<open>
  C17. Closing is all or nothing. A close that succeeds reports the terminal as closed, removes it from
  the table, and leaves neither a slot nor an adapter lease with it; a close that fails either did not
  find the terminal and changes nothing, or could not terminate the process: then the terminal stays
  listed, shows as failed, keeps its slot, and no lease is dropped.
\<close>

theorem terminal_close_all_or_nothing:
  assumes "terminal_reachable limit m" "terminal_close id_text cid terminated t m = (result, m')"
  shows "case result of
      Inr status \<Rightarrow>
        t \<in> tg_terminals m \<and> tu_state status = TermClosed \<and> t \<notin> tg_terminals m' \<and> t \<notin> slot_holders m' \<and>
        t \<notin> set (tg_completed m') \<and> map_option ts_writer_lease (tg_sessions m' t) = Some None
    | Inl e \<Rightarrow>
        (t \<notin> tg_terminals m \<and> m' = m \<and> err_code e = TerminalNotFound) \<or>
        (t \<in> tg_terminals m' \<and> t \<in> slot_holders m' \<and> map_option ts_state (tg_sessions m' t) = Some TermFailed \<and>
         tg_dropped_leases m' = tg_dropped_leases m \<and> err_code e = ProcessCrashed)"
proof (cases "t \<in> tg_terminals m")
  case False
  then show ?thesis
    using assms(2) by (auto simp: terminal_close_def terminal_session_of_def terminal_not_found_def)
next
  case t: True
  have inv: "manager_inv 0 m" using reachable_inv [OF assms(1)] by simp
  then obtain s where s: "tg_sessions m t = Some s" using t by (auto simp: manager_inv_def)
  have ok: "session_ok True s" using manager_session [OF inv s] t by simp
  have closed: "tu_state (fst (finish_close t s2 m2)) = TermClosed \<and> t \<notin> tg_terminals (snd (finish_close t s2 m2)) \<and>
      t \<notin> slot_holders (snd (finish_close t s2 m2)) \<and> t \<notin> set (tg_completed (snd (finish_close t s2 m2))) \<and>
      map_option ts_writer_lease (tg_sessions (snd (finish_close t s2 m2)) t) = Some None"
    if "\<not> ts_permit s2" "ts_writer_lease s2 = None" for s2 m2
    using that by (simp add: finish_close_def mark_removed_def session_status_def slot_holders_def Let_def)
  from t s show ?thesis
  proof (cases rule: terminal_close_cases [where id_text = id_text and cid = cid and terminated = terminated])
    case finalized
    then show ?thesis using assms(2) closed [of "close_requested_session s" m] ok t by (auto simp: session_ok_def)
  next
    case (reaped cause s2)
    then show ?thesis using assms(2) closed [of s2] t by auto
  next
    case (failed e)
    then show ?thesis
      using assms(2) t by (auto simp: slot_holders_def terminal_process_error_def put_session_def)
  qed
qed

lemma terminal_close_all_or_nothing_witness:
  "TerminalId 1 \<notin> tg_terminals (snd (terminal_close (\<lambda>u. []) 0 (Inr (Exited 0)) (TerminalId 1) sample_open)) \<and>
   tg_terminals sample_open = {TerminalId 1}"
proof -
  have l: "tg_terminals sample_open = {TerminalId 1}"
    by (simp add: sample_open_def open_for_project_def prepare_launch_def validate_dimensions_def MAX_TERMINAL_DIMENSION_def
        MAX_TERMINAL_PATH_BYTES_def starts_with_def sample_probe_def terminal_manager_new_def prune_completed_for_insert_def
        spawn_inner_def terminal_session_new_def)
  obtain result m' where c: "terminal_close (\<lambda>u. []) 0 (Inr (Exited 0)) (TerminalId 1) sample_open = (result, m')" by (metis surj_pair)
  obtain s where s: "tg_sessions sample_open (TerminalId 1) = Some s" using sample_open_session by blast
  have "TerminalId 1 \<in> tg_terminals sample_open" using l by simp
  from this s have "\<exists>status. result = Inr status"
    by (cases rule: terminal_close_cases [where id_text = "\<lambda>u. []" and cid = 0 and terminated = "Inr (Exited 0)"]) (use c in auto)
  with terminal_close_all_or_nothing [OF sample_open_reachable c] c l show ?thesis by auto
qed

text \<open>
  Input reaches the process of a terminal only while it is running, within the size limit, and
  attaching never crosses projects or kinds.
\<close>

lemma terminal_write_only_running:
  assumes "terminal_write id_text cid wr t data m = (Inr (), m')"
  shows "\<exists>s. t \<in> tg_terminals m \<and> tg_sessions m t = Some s \<and> ts_state s = TermRunning \<and>
    length data \<le> MAX_TERMINAL_INPUT_BYTES \<and> m' = put_session t (s\<lparr>ts_input := ts_input s @ [data]\<rparr>) m"
  using assms
  by (auto simp: terminal_write_def terminal_session_of_Inr require_running_def split: if_splits sum.splits)

lemma attach_iff:
  "attach_for_project_kind id_text cid project t kind m = Inr opened \<longleftrightarrow>
   (\<exists>s d. t \<in> tg_terminals m \<and> tg_sessions m t = Some s \<and> ts_metadata s = Some d \<and> tm_project_id d = project \<and>
      tm_kind d = kind \<and> opened = session_opened t s)"
  by (auto simp: attach_for_project_kind_def and_then_Inr_iff terminal_session_of_Inr split: if_splits option.splits)

lemma length_index_entries: "length (concat (map (index_entry project) xs)) \<le> length xs"
  by (induction xs) (auto simp: index_entry_def split: option.split)

lemma list_for_project_entries:
  assumes "list_for_project id_text cid order project n m = Inr entries" "set order = tg_terminals m"
  shows "length entries \<le> n \<and> n \<le> MAX_TERMINAL_INDEX_ENTRIES \<and>
    (\<forall>e \<in> set entries. \<exists>t s. t \<in> tg_terminals m \<and> tg_sessions m t = Some s \<and> project_shell project s \<and>
       ti_terminal e = session_opened t s)"
proof -
  let ?all = "concat (map (\<lambda>t. case tg_sessions m t of Some s \<Rightarrow> [(t, s)] | None \<Rightarrow> []) order)"
  let ?sel = "take n (sort_key (\<lambda>x. terminal_text id_text (fst x)) (filter (\<lambda>x. project_shell project (snd x)) ?all))"
  have e: "entries = concat (map (index_entry project) ?sel)" "n \<le> MAX_TERMINAL_INDEX_ENTRIES"
    using assms(1) by (auto simp: list_for_project_def split: if_splits)
  show ?thesis
  proof (intro conjI ballI)
    show "length entries \<le> n" using length_index_entries [of project ?sel] by (simp add: e(1))
    show "n \<le> MAX_TERMINAL_INDEX_ENTRIES" by (rule e(2))
    fix x assume "x \<in> set entries"
    then obtain y where y: "y \<in> set ?sel" "x \<in> set (index_entry project y)" unfolding e(1) by auto
    have "y \<in> set (filter (\<lambda>x. project_shell project (snd x)) ?all)" using in_set_takeD [OF y(1)] unfolding set_sort .
    then have all: "y \<in> set ?all" and shell: "project_shell project (snd y)" by simp_all
    have opened: "ti_terminal x = session_opened (fst y) (snd y)" using y(2) by (auto simp: index_entry_def split: option.splits)
    have listed: "fst y \<in> tg_terminals m" "tg_sessions m (fst y) = Some (snd y)"
      using all assms(2) by (simp_all split: option.splits) (metis fst_conv option.inject snd_conv)+
    show "\<exists>t s. t \<in> tg_terminals m \<and> tg_sessions m t = Some s \<and> project_shell project s \<and> ti_terminal x = session_opened t s"
      by (intro exI [of _ "fst y"] exI [of _ "snd y"] conjI) (fact listed shell opened)+
  qed
qed

text \<open>Terminals do not cross projects. A client attaches exactly to a listed terminal of its own
  project and of the expected kind, and the index of a project holds at most the requested number of
  entries, each a listed shell of that project.
\<close>

theorem terminal_access_by_project:
  assumes "list_for_project id_text cid order project n m = Inr entries" "set order = tg_terminals m"
  shows "(attach_for_project_kind id_text cid project t kind m = Inr opened \<longleftrightarrow>
     (\<exists>s d. t \<in> tg_terminals m \<and> tg_sessions m t = Some s \<and> ts_metadata s = Some d \<and> tm_project_id d = project \<and>
        tm_kind d = kind \<and> opened = session_opened t s)) \<and>
    length entries \<le> n \<and> n \<le> MAX_TERMINAL_INDEX_ENTRIES \<and>
    (\<forall>e \<in> set entries. \<exists>t s. t \<in> tg_terminals m \<and> tg_sessions m t = Some s \<and> project_shell project s \<and>
       ti_terminal e = session_opened t s)"
  using list_for_project_entries [OF assms] attach_iff [of id_text cid project t kind m opened] by blast

lemma terminal_access_by_project_witness:
  "\<exists>entries. list_for_project (\<lambda>u. []) 0 [] (ProjectId 3) 5 (terminal_manager_new 1) = Inr entries \<and> length entries \<le> 5"
proof -
  have l: "list_for_project (\<lambda>u. []) 0 [] (ProjectId 3) 5 (terminal_manager_new 1) = Inr []"
    by (simp add: list_for_project_def MAX_TERMINAL_INDEX_ENTRIES_def)
  have o: "set [] = tg_terminals (terminal_manager_new 1)" by (simp add: terminal_manager_new_def)
  show ?thesis using terminal_access_by_project [OF l o] l by blast
qed

end
