(* ===== verification/Retention.thy ===== *)
theory Retention
  imports Maestro_Prelude "HOL-Library.List_Lexorder" "HOL-Library.Char_ord" "HOL-Library.Product_Lexorder"
begin

text \<open>
  Retention of stored segments, \<^verbatim>\<open>crates/maestro-storage/src/retention.rs\<close>: planning which terminal,
  raw-protocol and debug segments to delete, and executing a plan in bounded transactions. A storage
  path is its text; times are milliseconds. The database is what the statements of the module touch:
  the identifiers in the three segment tables and the raw-segment references of the events, with the
  documented behaviour of a transaction (all statements take effect at the commit, or none does).
\<close>

section \<open>Records and policies\<close>

definition MAX_RETENTION_BATCH :: nat where "MAX_RETENTION_BATCH = 256"
definition DEFAULT_TERMINAL_BYTES :: u64 where "DEFAULT_TERMINAL_BYTES = 10 * 1024 * 1024"
definition DEFAULT_RAW_BYTES :: u64 where "DEFAULT_RAW_BYTES = 10 * 1024 * 1024"
definition DEFAULT_DEBUG_BYTES :: u64 where "DEFAULT_DEBUG_BYTES = 50 * 1024 * 1024"

datatype retention_category = TerminalSegments | RawProtocol | DebugLog

text \<open>The derived order of the categories.\<close>

instantiation retention_category :: linorder
begin

fun category_rank :: "retention_category \<Rightarrow> nat" where
  "category_rank TerminalSegments = 0"
| "category_rank RawProtocol = 1"
| "category_rank DebugLog = 2"

definition less_eq_retention_category :: "retention_category \<Rightarrow> retention_category \<Rightarrow> bool" where
  "less_eq_retention_category a b \<longleftrightarrow> category_rank a \<le> category_rank b"

definition less_retention_category :: "retention_category \<Rightarrow> retention_category \<Rightarrow> bool" where
  "less_retention_category a b \<longleftrightarrow> category_rank a < category_rank b"

instance
proof
  fix a b :: retention_category
  show "a \<le> b \<Longrightarrow> b \<le> a \<Longrightarrow> a = b" by (cases a; cases b) (simp_all add: less_eq_retention_category_def)
qed (auto simp: less_eq_retention_category_def less_retention_category_def)

end

record retention_policy =
  rp_enabled :: bool
  rp_max_bytes_per_owner :: "u64 option"
  rp_max_age :: "int option"

record retention_policies =
  pol_terminal :: retention_policy
  pol_raw_protocol :: retention_policy
  pol_debug_log :: retention_policy

definition day_milliseconds :: int where "day_milliseconds = 24 * 60 * 60 * 1000"

definition retention_policies_default :: retention_policies where
  "retention_policies_default =
     \<lparr>pol_terminal = \<lparr>rp_enabled = True, rp_max_bytes_per_owner = Some DEFAULT_TERMINAL_BYTES, rp_max_age = None\<rparr>,
      pol_raw_protocol = \<lparr>rp_enabled = False, rp_max_bytes_per_owner = Some DEFAULT_RAW_BYTES,
                          rp_max_age = Some (7 * day_milliseconds)\<rparr>,
      pol_debug_log = \<lparr>rp_enabled = True, rp_max_bytes_per_owner = Some DEFAULT_DEBUG_BYTES,
                       rp_max_age = Some (14 * day_milliseconds)\<rparr>\<rparr>"

fun policy_of :: "retention_policies \<Rightarrow> retention_category \<Rightarrow> retention_policy" where
  "policy_of p TerminalSegments = pol_terminal p"
| "policy_of p RawProtocol = pol_raw_protocol p"
| "policy_of p DebugLog = pol_debug_log p"

record retention_record =
  rr_id :: string
  rr_category :: retention_category
  rr_owner_id :: string
  rr_created_at :: date_time
  rr_byte_count :: u64
  rr_storage_path :: string

section \<open>Planning\<close>

definition record_key :: "retention_record \<Rightarrow> retention_category \<times> string" where
  "record_key r = (rr_category r, rr_id r)"

text \<open>\<^verbatim>\<open>dedup_by\<close> drops an element that agrees with the one kept before it.\<close>

fun dedup_records :: "retention_record list \<Rightarrow> retention_record list" where
  "dedup_records [] = []"
| "dedup_records [r] = [r]"
| "dedup_records (r # s # rest) =
     (if record_key s = record_key r then dedup_records (r # rest) else r # dedup_records (s # rest))"

definition aged :: "retention_policy \<Rightarrow> date_time \<Rightarrow> retention_record \<Rightarrow> bool" where
  "aged policy now r \<longleftrightarrow> (case rp_max_age policy of Some age \<Rightarrow> rr_created_at r < now - age | None \<Rightarrow> False)"

definition age_key :: "retention_record \<Rightarrow> date_time \<times> string" where
  "age_key r = (rr_created_at r, rr_id r)"

text \<open>The oldest records of one owner until the rest fits.\<close>

fun over_limit :: "u64 \<Rightarrow> u64 \<Rightarrow> retention_record list \<Rightarrow> retention_record list" where
  "over_limit maximum tot [] = []"
| "over_limit maximum tot (r # rs) =
     (if tot \<le> maximum then [] else r # over_limit maximum (saturating_sub tot (rr_byte_count r)) rs)"

definition owner_total :: "retention_record list \<Rightarrow> u64" where
  "owner_total rs = fold (\<lambda>r sum. saturating_add sum (rr_byte_count r)) rs 0"

definition owner_selection :: "u64 \<Rightarrow> retention_record list \<Rightarrow> retention_record list" where
  "owner_selection maximum rs = (let oldest_first = sort_key age_key rs in over_limit maximum (owner_total oldest_first) oldest_first)"

text \<open>
  The selection of one category. The owners are visited in the order of their first record here; the
  source visits them in the order of a hash table, which the final sort makes irrelevant.
\<close>

definition category_selection ::
  "retention_policy \<Rightarrow> date_time \<Rightarrow> retention_record list \<Rightarrow> retention_record list" where
  "category_selection policy now rs =
     (if \<not> rp_enabled policy then rs
      else let retained = filter (\<lambda>r. \<not> aged policy now r) rs
           in filter (aged policy now) rs @
              (case rp_max_bytes_per_owner policy of
                 None \<Rightarrow> []
               | Some maximum \<Rightarrow>
                   concat (map (\<lambda>owner. owner_selection maximum (filter (\<lambda>r. rr_owner_id r = owner) retained))
                     (remdups (map rr_owner_id retained)))))"

definition plan_key :: "retention_record \<Rightarrow> retention_category \<times> date_time \<times> string" where
  "plan_key r = (rr_category r, rr_created_at r, rr_id r)"

definition from_records ::
  "retention_record list \<Rightarrow> retention_policies \<Rightarrow> date_time \<Rightarrow> retention_record list" where
  "from_records records policies now =
     (let records = dedup_records (sort_key record_key records);
          selected = concat (map (\<lambda>category. category_selection (policy_of policies category) now
              (filter (\<lambda>r. rr_category r = category) records)) [TerminalSegments, RawProtocol, DebugLog])
      in dedup_records (sort_key plan_key selected))"

section \<open>Executing a plan\<close>

record retention_database =
  db_terminal_segments :: "string set"
  db_raw_segments :: "string set"
  db_debug_logs :: "string set"
  db_event_references :: "string option list"

record retention_batch =
  rb_metadata_rows_deleted :: nat
  rb_released_storage_paths :: "string list"
  rb_remaining_candidates :: nat

datatype retention_error = NegativeByteCount string int | InvalidTimestamp string | ZeroBatchSize | RetentionSql

text \<open>One candidate inside the transaction: the rows affected and the database as the transaction sees it.\<close>

definition delete_candidate :: "retention_record \<Rightarrow> retention_database \<Rightarrow> nat \<times> retention_database" where
  "delete_candidate r db =
     (case rr_category r of
        TerminalSegments \<Rightarrow>
          (if rr_id r \<in> db_terminal_segments db then 1 else 0,
           db\<lparr>db_terminal_segments := db_terminal_segments db - {rr_id r}\<rparr>)
      | RawProtocol \<Rightarrow>
          if rr_id r \<in> db_raw_segments db
          then (1, db\<lparr>db_raw_segments := db_raw_segments db - {rr_id r},
                     db_event_references := map (\<lambda>x. if x = Some (rr_storage_path r) then None else x)
                       (db_event_references db)\<rparr>)
          else (0, db)
      | DebugLog \<Rightarrow>
          (if rr_id r \<in> db_debug_logs db then 1 else 0,
           db\<lparr>db_debug_logs := db_debug_logs db - {rr_id r}\<rparr>))"

fun delete_batch ::
  "retention_record list \<Rightarrow> nat \<Rightarrow> string list \<Rightarrow> retention_database \<Rightarrow> nat \<times> string list \<times> retention_database" where
  "delete_batch [] deleted released db = (deleted, released, db)"
| "delete_batch (r # rs) deleted released db =
     (case delete_candidate r db of
        (affected, db') \<Rightarrow>
          delete_batch rs (deleted + affected) (if affected > 0 then released @ [rr_storage_path r] else released) db')"

text \<open>\<open>commits\<close>: whether every statement and the commit succeed; otherwise the transaction rolls back.\<close>

definition execute_retention_batch ::
  "bool \<Rightarrow> nat \<Rightarrow> retention_record list \<times> retention_database \<Rightarrow>
   (retention_error + retention_batch) \<times> retention_record list \<times> retention_database" where
  "execute_retention_batch commits requested_limit pd =
     (case pd of (plan, db) \<Rightarrow>
      if requested_limit = 0 then (Inl ZeroBatchSize, plan, db)
      else let batch_size = min (min requested_limit MAX_RETENTION_BATCH) (length plan) in
           if batch_size = 0
           then (Inr \<lparr>rb_metadata_rows_deleted = 0, rb_released_storage_paths = [], rb_remaining_candidates = 0\<rparr>, plan, db)
           else if \<not> commits then (Inl RetentionSql, plan, db)
           else (case delete_batch (take batch_size plan) 0 [] db of
                   (deleted, released, db') \<Rightarrow>
                     (Inr \<lparr>rb_metadata_rows_deleted = deleted, rb_released_storage_paths = released,
                           rb_remaining_candidates = length (drop batch_size plan)\<rparr>, drop batch_size plan, db')))"

section \<open>Loading records\<close>

text \<open>One row of a segment table; \<open>parse\<close> reads an RFC 3339 time stamp.\<close>

record segment_row =
  row_id :: string
  row_owner_id :: string
  row_timestamp :: string
  row_byte_count :: int
  row_storage_path :: string

fun load_records ::
  "(string \<Rightarrow> date_time option) \<Rightarrow> retention_category \<Rightarrow> segment_row list \<Rightarrow> retention_record list \<Rightarrow>
   retention_error + retention_record list" where
  "load_records parse category [] output = Inr output"
| "load_records parse category (row # rows) output =
     (if row_byte_count row < 0 then Inl (NegativeByteCount (row_id row) (row_byte_count row))
      else case parse (row_timestamp row) of
             None \<Rightarrow> Inl (InvalidTimestamp (row_timestamp row))
           | Some created_at \<Rightarrow>
               load_records parse category rows (output @
                 [\<lparr>rr_id = row_id row, rr_category = category, rr_owner_id = row_owner_id row,
                   rr_created_at = created_at, rr_byte_count = of_int (row_byte_count row),
                   rr_storage_path = row_storage_path row\<rparr>]))"

text \<open>\<open>debug\<close> is \<^term>\<open>None\<close> as long as the table of debug logs does not exist.\<close>

definition plan_retention ::
  "(string \<Rightarrow> date_time option) \<Rightarrow> segment_row list \<Rightarrow> segment_row list \<Rightarrow> segment_row list option \<Rightarrow>
   retention_policies \<Rightarrow> date_time \<Rightarrow> retention_error + retention_record list" where
  "plan_retention parse terminal raw debug policies now =
     and_then (load_records parse TerminalSegments terminal []) (\<lambda>rs1.
       and_then (load_records parse RawProtocol raw rs1) (\<lambda>rs2.
         and_then (case debug of Some rows \<Rightarrow> load_records parse DebugLog rows rs2 | None \<Rightarrow> Inr rs2) (\<lambda>rs3.
           Inr (from_records rs3 policies now))))"

section \<open>What a plan selects\<close>

definition byte_total :: "retention_record set \<Rightarrow> nat" where
  "byte_total R = (\<Sum>r \<in> R. unat (rr_byte_count r))"

lemma byte_total_mono: "finite S \<Longrightarrow> R \<subseteq> S \<Longrightarrow> byte_total R \<le> byte_total S"
  unfolding byte_total_def by (rule sum_mono2) auto

lemma byte_total_list: "distinct rs \<Longrightarrow> byte_total (set rs) = sum_list (map (\<lambda>r. unat (rr_byte_count r)) rs)"
  unfolding byte_total_def by (rule sum.distinct_set_conv_list)

lemma owner_total_eq:
  assumes "distinct rs" "byte_total (set rs) < 2 ^ 64"
  shows "unat (owner_total rs) = byte_total (set rs)"
proof -
  have "unat (fold (\<lambda>r sum. saturating_add sum (rr_byte_count r)) xs t) = unat t + sum_list (map (\<lambda>r. unat (rr_byte_count r)) xs)"
    if "unat t + sum_list (map (\<lambda>r. unat (rr_byte_count r)) xs) < 2 ^ 64" for xs and t :: u64
    using that by (induction xs arbitrary: t) (simp_all add: unat_saturating_add)
  from this [of 0 rs] assms show ?thesis by (simp add: owner_total_def byte_total_list)
qed

text \<open>A record goes when it and the newer records of its group exceed the maximum.\<close>

lemma over_limit_iff:
  assumes "sorted_wrt (\<lambda>a b. age_key a < age_key b) rs" "unat tot = byte_total (set rs)"
  shows "r \<in> set (over_limit maximum tot rs) \<longleftrightarrow>
    r \<in> set rs \<and> unat maximum < byte_total {s \<in> set rs. age_key r \<le> age_key s}"
  using assms
proof (induction rs arbitrary: tot)
  case (Cons x rs)
  have new: "x \<notin> set rs" using Cons.prems(1) by auto
  show ?case
  proof (cases "tot \<le> maximum")
    case True
    have "byte_total {s \<in> set (x # rs). age_key r \<le> age_key s} \<le> byte_total (set (x # rs))"
      by (rule byte_total_mono) auto
    also have "\<dots> \<le> unat maximum" using True Cons.prems(2) by (simp add: word_le_nat_alt)
    finally show ?thesis using True by simp
  next
    case False
    have rest: "unat (saturating_sub tot (rr_byte_count x)) = byte_total (set rs)"
      using Cons.prems(2) new by (simp add: unat_saturating_sub byte_total_def)
    have IH: "r \<in> set (over_limit maximum (saturating_sub tot (rr_byte_count x)) rs) \<longleftrightarrow>
        r \<in> set rs \<and> unat maximum < byte_total {s \<in> set rs. age_key r \<le> age_key s}"
      using Cons.prems(1) by (intro Cons.IH [OF _ rest]) simp
    have first: "{s \<in> set (x # rs). age_key x \<le> age_key s} = set (x # rs)" using Cons.prems(1) by auto
    have later: "{s \<in> set (x # rs). age_key r \<le> age_key s} = {s \<in> set rs. age_key r \<le> age_key s}" if "r \<in> set rs"
      using Cons.prems(1) that by (auto simp: not_le [symmetric])
    show ?thesis
    proof (cases "r = x")
      case True
      then show ?thesis using False Cons.prems(2) unfolding True first by (simp add: word_le_nat_alt)
    next
      case ne: False
      then show ?thesis using False IH later by auto
    qed
  qed
qed simp

lemma strict_sort:
  assumes "distinct (map f xs)"
  shows "sorted_wrt (\<lambda>a b. f a < f b) (sort_key f xs)"
proof -
  have "sorted (map f (sort_key f xs))" by simp
  moreover have "distinct (map f (sort_key f xs))"
    using assms by (metis distinct_map distinct_sort set_sort)
  ultimately show ?thesis by (metis sorted_wrt_map strict_sorted_iff)
qed

lemma owner_selection_iff:
  assumes "distinct (map rr_id rs)" "byte_total (set rs) < 2 ^ 64"
  shows "r \<in> set (owner_selection maximum rs) \<longleftrightarrow>
    r \<in> set rs \<and> unat maximum < byte_total {s \<in> set rs. age_key r \<le> age_key s}"
proof -
  have inj: "distinct (map age_key rs)" using assms(1) by (auto simp: distinct_map inj_on_def age_key_def)
  have "distinct (sort_key age_key rs)" using assms(1) by (simp add: distinct_map)
  then show ?thesis
    unfolding owner_selection_def Let_def
    using over_limit_iff [OF strict_sort [OF inj], of "owner_total (sort_key age_key rs)" r maximum] owner_total_eq assms(2) by simp
qed

text \<open>The records of a category a policy gives up.\<close>

definition doomed :: "retention_policy \<Rightarrow> date_time \<Rightarrow> retention_record set \<Rightarrow> retention_record \<Rightarrow> bool" where
  "doomed policy now R r \<longleftrightarrow>
     \<not> rp_enabled policy \<or> aged policy now r \<or>
     (\<exists>maximum. rp_max_bytes_per_owner policy = Some maximum \<and>
        unat maximum < byte_total {s \<in> R. rr_category s = rr_category r \<and> rr_owner_id s = rr_owner_id r \<and>
          \<not> aged policy now s \<and> age_key r \<le> age_key s})"

lemma category_selection_iff:
  assumes "distinct (map rr_id rs)" "byte_total (set rs) < 2 ^ 64" "\<forall>r \<in> set rs. rr_category r = c"
  shows "r \<in> set (category_selection policy now rs) \<longleftrightarrow> r \<in> set rs \<and> doomed policy now (set rs) r"
proof (cases "rp_enabled policy")
  case False
  then show ?thesis by (simp add: category_selection_def doomed_def)
next
  case True
  let ?ret = "filter (\<lambda>r. \<not> aged policy now r) rs"
  have owner: "x \<in> set (owner_selection maximum (filter (\<lambda>r. rr_owner_id r = owner) ?ret)) \<longleftrightarrow>
      x \<in> set rs \<and> \<not> aged policy now x \<and> rr_owner_id x = owner \<and>
      unat maximum < byte_total {s \<in> set rs. rr_owner_id s = owner \<and> \<not> aged policy now s \<and> age_key x \<le> age_key s}"
    for x owner maximum
  proof -
    have "byte_total (set (filter (\<lambda>r. rr_owner_id r = owner) ?ret)) \<le> byte_total (set rs)" by (rule byte_total_mono) auto
    then have "byte_total (set (filter (\<lambda>r. rr_owner_id r = owner) ?ret)) < 2 ^ 64" using assms(2) by simp
    moreover have "distinct (map rr_id (filter (\<lambda>r. rr_owner_id r = owner) ?ret))" using assms(1) by (simp add: distinct_map_filter)
    moreover have "{s \<in> set (filter (\<lambda>r. rr_owner_id r = owner) ?ret). age_key x \<le> age_key s} =
        {s \<in> set rs. rr_owner_id s = owner \<and> \<not> aged policy now s \<and> age_key x \<le> age_key s}" by auto
    ultimately show ?thesis using owner_selection_iff by auto
  qed
  have cat: "{s \<in> set rs. rr_category s = rr_category r \<and> rr_owner_id s = rr_owner_id r \<and> \<not> aged policy now s \<and> age_key r \<le> age_key s} =
      {s \<in> set rs. rr_owner_id s = rr_owner_id r \<and> \<not> aged policy now s \<and> age_key r \<le> age_key s}" if "r \<in> set rs"
    using assms(3) that by auto
  show ?thesis
  proof (cases "rp_max_bytes_per_owner policy")
    case None
    then show ?thesis using True by (auto simp: category_selection_def doomed_def)
  next
    case (Some maximum)
    have "r \<in> set (category_selection policy now rs) \<longleftrightarrow> r \<in> set rs \<and> (aged policy now r \<or> \<not> aged policy now r \<and>
        unat maximum < byte_total {s \<in> set rs. rr_owner_id s = rr_owner_id r \<and> \<not> aged policy now s \<and> age_key r \<le> age_key s})"
      using True Some by (auto simp: category_selection_def owner [unfolded filter_filter])
    then show ?thesis using True Some cat by (auto simp: doomed_def)
  qed
qed

lemma dedup_hd: "xs \<noteq> [] \<Longrightarrow> dedup_records xs \<noteq> [] \<and> hd (dedup_records xs) = hd xs"
  by (induction xs rule: dedup_records.induct) auto

lemma dedup_set: "inj_on record_key (set xs) \<Longrightarrow> set (dedup_records xs) = set xs"
proof (induction xs rule: dedup_records.induct)
  case (3 r s rest)
  show ?case
  proof (cases "record_key s = record_key r")
    case True
    then have "s = r" using inj_onD [OF "3.prems", of s r] by simp
    moreover have "set (dedup_records (r # rest)) = set (r # rest)"
      using "3.IH"(1) [OF True inj_on_subset [OF "3.prems"]] by (simp add: subset_insertI2 insert_mono)
    ultimately show ?thesis by simp
  next
    case False
    then have "set (dedup_records (s # rest)) = set (s # rest)"
      using "3.IH"(2) [OF False inj_on_subset [OF "3.prems"]] by (simp add: subset_insertI)
    then show ?thesis using False by simp
  qed
qed simp_all

lemma dedup_distinct: "distinct (map record_key xs) \<Longrightarrow> dedup_records xs = xs"
  by (induction xs rule: dedup_records.induct) auto

lemma dedup_strict:
  "sorted (map plan_key xs) \<Longrightarrow> sorted_wrt (\<lambda>a b. plan_key a < plan_key b) (dedup_records xs)"
proof (induction xs rule: dedup_records.induct)
  case (3 r s rest)
  show ?case
  proof (cases "record_key s = record_key r")
    case True
    then show ?thesis using "3.IH"(1) "3.prems" by simp
  next
    case False
    have IH: "sorted_wrt (\<lambda>a b. plan_key a < plan_key b) (dedup_records (s # rest))"
      using "3.IH"(2) [OF False] "3.prems" by simp
    obtain ys where ys: "dedup_records (s # rest) = s # ys"
      using dedup_hd [of "s # rest"] by (cases "dedup_records (s # rest)") auto
    have "plan_key r \<le> plan_key s" using "3.prems" by simp
    moreover have "plan_key r \<noteq> plan_key s" using False by (auto simp: plan_key_def record_key_def)
    ultimately have lt: "plan_key r < plan_key s" by simp
    then have "\<forall>y \<in> set ys. plan_key r < plan_key y" using IH ys by auto
    then show ?thesis using False IH ys lt by simp
  qed
qed auto

lemma category_members:
  assumes keys: "distinct (map record_key records)" and total: "byte_total (set records) < 2 ^ 64"
    and perm: "set xs = set records" "distinct xs"
  shows "r \<in> set (category_selection (policy_of policies c) now (filter (\<lambda>r. rr_category r = c) xs)) \<longleftrightarrow>
    r \<in> set records \<and> rr_category r = c \<and> doomed (policy_of policies c) now (set records) r"
proof -
  let ?xs = "filter (\<lambda>r. rr_category r = c) xs"
  have "inj_on rr_id (set ?xs)"
  proof (rule inj_onI)
    fix x y assume "x \<in> set ?xs" "y \<in> set ?xs" "rr_id x = rr_id y"
    then show "x = y" using keys inj_onD [of record_key "set records" x y] perm by (simp add: record_key_def distinct_map)
  qed
  then have ids: "distinct (map rr_id ?xs)" using perm by (simp add: distinct_map)
  have "byte_total (set ?xs) \<le> byte_total (set records)" using perm by (intro byte_total_mono) auto
  then have tot: "byte_total (set ?xs) < 2 ^ 64" using total by simp
  have same: "doomed (policy_of policies c) now (set ?xs) r = doomed (policy_of policies c) now (set records) r"
    if "rr_category r = c"
  proof -
    have "{s \<in> set ?xs. rr_category s = rr_category r \<and> rr_owner_id s = rr_owner_id r \<and> \<not> aged (policy_of policies c) now s \<and> age_key r \<le> age_key s} =
      {s \<in> set records. rr_category s = rr_category r \<and> rr_owner_id s = rr_owner_id r \<and> \<not> aged (policy_of policies c) now s \<and> age_key r \<le> age_key s}"
      using that perm by auto
    then show ?thesis unfolding doomed_def by (simp only:)
  qed
  have "r \<in> set (category_selection (policy_of policies c) now ?xs) \<longleftrightarrow> r \<in> set ?xs \<and> doomed (policy_of policies c) now (set ?xs) r"
    by (rule category_selection_iff [OF ids tot, of c]) simp
  then show ?thesis using same perm by auto
qed

lemma from_records_set:
  assumes keys: "distinct (map record_key records)" and total: "byte_total (set records) < 2 ^ 64"
  shows "set (from_records records policies now) =
    {r \<in> set records. doomed (policy_of policies (rr_category r)) now (set records) r}"
proof -
  define xs where "xs = sort_key record_key records"
  define sel where "sel c = category_selection (policy_of policies c) now (filter (\<lambda>r. rr_category r = c) xs)" for c
  have xs: "set xs = set records" "distinct xs" "distinct (map record_key xs)"
    using keys by (simp_all add: xs_def distinct_map)
  have eq: "from_records records policies now = dedup_records (sort_key plan_key (concat (map sel [TerminalSegments, RawProtocol, DebugLog])))"
    unfolding from_records_def Let_def xs_def [symmetric] dedup_distinct [OF xs(3)] sel_def ..
  have sel: "set (sel c) = {r \<in> set records. rr_category r = c \<and> doomed (policy_of policies c) now (set records) r}" for c
    unfolding sel_def using category_members [OF keys total xs(1,2)] by blast
  have all: "set (concat (map sel [TerminalSegments, RawProtocol, DebugLog])) =
      {r \<in> set records. doomed (policy_of policies (rr_category r)) now (set records) r}"
  proof (rule set_eqI)
    fix r :: retention_record
    have "rr_category r \<in> {TerminalSegments, RawProtocol, DebugLog}" by (cases "rr_category r") simp_all
    then show "r \<in> set (concat (map sel [TerminalSegments, RawProtocol, DebugLog])) \<longleftrightarrow>
        r \<in> {r \<in> set records. doomed (policy_of policies (rr_category r)) now (set records) r}"
      using sel by auto
  qed
  have inj: "inj_on record_key {r \<in> set records. doomed (policy_of policies (rr_category r)) now (set records) r}"
    by (rule inj_on_subset [of record_key "set records"]) (use keys in \<open>auto simp: distinct_map\<close>)
  have "set (dedup_records (sort_key plan_key (concat (map sel [TerminalSegments, RawProtocol, DebugLog])))) =
      set (sort_key plan_key (concat (map sel [TerminalSegments, RawProtocol, DebugLog])))"
    by (rule dedup_set) (simp only: set_sort all inj)
  then show ?thesis unfolding eq by (simp only: set_sort all)
qed

lemma kept_bytes_bounded:
  assumes "finite R" "rp_enabled policy" "rp_max_bytes_per_owner policy = Some maximum"
  shows "byte_total {r \<in> R. rr_category r = c \<and> rr_owner_id r = owner \<and> \<not> doomed policy now R r} \<le> unat maximum"
proof (cases "{r \<in> R. rr_category r = c \<and> rr_owner_id r = owner \<and> \<not> doomed policy now R r} = {}")
  case True
  show ?thesis unfolding True by (simp add: byte_total_def)
next
  case False
  let ?K = "{r \<in> R. rr_category r = c \<and> rr_owner_id r = owner \<and> \<not> doomed policy now R r}"
  have fin: "finite (age_key ` ?K)" using assms(1) by simp
  obtain r where r: "r \<in> ?K" "age_key r = Min (age_key ` ?K)"
    using Min_in [OF fin] False by (metis (no_types, lifting) imageE image_is_empty)
  have least: "age_key r \<le> age_key s" if "s \<in> ?K" for s using r(2) Min_le [OF fin] that by simp
  have "?K \<subseteq> {s \<in> R. rr_category s = rr_category r \<and> rr_owner_id s = rr_owner_id r \<and> \<not> aged policy now s \<and> age_key r \<le> age_key s}"
    using r(1) least by (auto simp: doomed_def)
  then have "byte_total ?K \<le> byte_total {s \<in> R. rr_category s = rr_category r \<and> rr_owner_id s = rr_owner_id r \<and> \<not> aged policy now s \<and> age_key r \<le> age_key s}"
    using assms(1) by (intro byte_total_mono) auto
  also have "\<dots> \<le> unat maximum" using r(1) assms(2,3) by (auto simp: doomed_def not_less)
  finally show ?thesis .
qed

section \<open>Properties\<close>

text \<open>
  C18. A retention plan is exact. For records with distinct identifiers whose sizes fit the counter,
  the plan holds exactly the records of disabled categories, the records past the age of their
  category, and the records that, together with the newer records of their owner, exceed the size
  of their category; it holds each once, ordered by category, time and identifier; and what it leaves
  of an owner in an enabled category is within the limit.
\<close>

theorem retention_plan_exact:
  fixes policies :: retention_policies and now :: date_time
  assumes keys: "distinct (map record_key records)" and total: "byte_total (set records) < 2 ^ 64"
  defines "plan \<equiv> from_records records policies now"
  shows "set plan = {r \<in> set records. doomed (policy_of policies (rr_category r)) now (set records) r} \<and>
    sorted_wrt (\<lambda>a b. plan_key a < plan_key b) plan \<and>
    (\<forall>c owner maximum. rp_enabled (policy_of policies c) \<and> rp_max_bytes_per_owner (policy_of policies c) = Some maximum \<longrightarrow>
       byte_total {r \<in> set records. rr_category r = c \<and> rr_owner_id r = owner \<and> r \<notin> set plan} \<le> unat maximum)"
proof (intro conjI allI impI)
  show set: "set plan = {r \<in> set records. doomed (policy_of policies (rr_category r)) now (set records) r}"
    unfolding plan_def by (rule from_records_set [OF keys total])
  show "sorted_wrt (\<lambda>a b. plan_key a < plan_key b) plan"
    unfolding plan_def from_records_def Let_def by (intro dedup_strict) simp
  fix c owner maximum
  assume c: "rp_enabled (policy_of policies c) \<and> rp_max_bytes_per_owner (policy_of policies c) = Some maximum"
  have "{r \<in> set records. rr_category r = c \<and> rr_owner_id r = owner \<and> r \<notin> set plan} =
      {r \<in> set records. rr_category r = c \<and> rr_owner_id r = owner \<and> \<not> doomed (policy_of policies c) now (set records) r}"
    unfolding set by auto
  then show "byte_total {r \<in> set records. rr_category r = c \<and> rr_owner_id r = owner \<and> r \<notin> set plan} \<le> unat maximum"
    using kept_bytes_bounded [of "set records" "policy_of policies c" maximum c owner now] c by simp
qed

definition sample_segment :: "string \<Rightarrow> date_time \<Rightarrow> retention_record" where
  "sample_segment i t = \<lparr>rr_id = i, rr_category = RawProtocol, rr_owner_id = ''o'', rr_created_at = t,
     rr_byte_count = 5, rr_storage_path = ''/s''\<rparr>"

lemma retention_plan_exact_witness:
  "set (from_records [sample_segment ''a'' 1, sample_segment ''b'' 2] retention_policies_default 9) =
   {sample_segment ''a'' 1, sample_segment ''b'' 2}"
proof -
  let ?rs = "[sample_segment ''a'' 1, sample_segment ''b'' 2]"
  have k: "distinct (map record_key ?rs)" by (simp add: record_key_def sample_segment_def)
  have ne: "sample_segment ''a'' 1 \<noteq> sample_segment ''b'' 2" by (simp add: sample_segment_def)
  have t: "byte_total (set ?rs) < 2 ^ 64" using ne by (simp add: byte_total_def) (simp add: sample_segment_def)
  have "doomed (policy_of retention_policies_default RawProtocol) 9 R r" for R r
    by (simp add: doomed_def retention_policies_default_def)
  then show ?thesis using retention_plan_exact [OF k t, of retention_policies_default 9] by (auto simp: sample_segment_def)
qed

end
