(* ===== verification/Storage_Maintenance.thy ===== *)
theory Storage_Maintenance
  imports Retention
begin

text \<open>
  The maintenance pass of \<^verbatim>\<open>crates/maestrod/src/storage_runtime.rs\<close>: validating the paths of a
  retention plan, executing the plan batch by batch and removing the released files. The file system
  is what the pass asks of it: what a path is, and where a directory really is. Creating the daily
  snapshot and the private directories is not part of the model; the roots are an argument.
\<close>

section \<open>Paths and files\<close>

datatype file_kind = RegularFile | Symlink | OtherFile

datatype stat = FileNotFound | StatFailed | Present file_kind

text \<open>
  \<open>dk_components\<close> splits a path into its components, \<open>dk_canonical\<close> resolves a directory, and
  \<open>dk_removable\<close> tells whether removing the file of a path succeeds.
\<close>

record disk =
  dk_components :: "string \<Rightarrow> path"
  dk_canonical :: "path \<Rightarrow> path option"
  dk_stat :: "string \<Rightarrow> stat"
  dk_removable :: "string \<Rightarrow> bool"

datatype storage_runtime_error = UnsafeRetentionPath string | StorageIo string | StorageRetention retention_error

definition validate_released_path ::
  "disk \<Rightarrow> path list \<Rightarrow> string \<Rightarrow> storage_runtime_error + unit" where
  "validate_released_path d allowed_roots file =
     (let p = dk_components d file in
      if \<not> path_starts_with p [''/''] \<or> path_file_name p = None then Inl (UnsafeRetentionPath file)
      else (case path_parent p of
              None \<Rightarrow> Inl (UnsafeRetentionPath file)
            | Some parent \<Rightarrow>
                (case dk_canonical d parent of
                   None \<Rightarrow> Inl (UnsafeRetentionPath file)
                 | Some canonical_parent \<Rightarrow>
                     if canonical_parent \<notin> set allowed_roots then Inl (UnsafeRetentionPath file) else Inr ())))"

fun validate_retention_candidates ::
  "disk \<Rightarrow> path list \<Rightarrow> retention_record list \<Rightarrow> storage_runtime_error + unit" where
  "validate_retention_candidates d allowed_roots [] = Inr ()"
| "validate_retention_candidates d allowed_roots (r # rs) =
     and_then (validate_released_path d allowed_roots (rr_storage_path r)) (\<lambda>_.
       validate_retention_candidates d allowed_roots rs)"

fun remove_released_files ::
  "path list \<Rightarrow> string list \<Rightarrow> disk \<Rightarrow> (storage_runtime_error + unit) \<times> disk" where
  "remove_released_files allowed_roots [] d = (Inr (), d)"
| "remove_released_files allowed_roots (file # files) d =
     (case validate_released_path d allowed_roots file of
        Inl e \<Rightarrow> (Inl e, d)
      | Inr _ \<Rightarrow>
          (case dk_stat d file of
             Present kind \<Rightarrow>
               if kind = RegularFile \<or> kind = Symlink
               then (if dk_removable d file
                     then remove_released_files allowed_roots files (d\<lparr>dk_stat := (dk_stat d)(file := FileNotFound)\<rparr>)
                     else (Inl (StorageIo file), d))
               else (Inl (UnsafeRetentionPath file), d)
           | FileNotFound \<Rightarrow> remove_released_files allowed_roots files d
           | StatFailed \<Rightarrow> (Inl (StorageIo file), d)))"

section \<open>The pass\<close>

lemma delete_batch_length:
  "execute_retention_batch commits limit (plan, db) = (Inr b, plan', db') \<Longrightarrow> plan \<noteq> [] \<Longrightarrow> length plan' < length plan"
  by (cases plan) (auto simp: execute_retention_batch_def Let_def MAX_RETENTION_BATCH_def min_def split: if_splits prod.splits)

text \<open>\<open>commits n\<close> tells whether the \<open>n\<close>-th transaction commits.\<close>

function maintain_loop ::
  "(nat \<Rightarrow> bool) \<Rightarrow> path list \<Rightarrow> nat \<Rightarrow> retention_record list \<Rightarrow> retention_database \<Rightarrow> disk \<Rightarrow>
   (storage_runtime_error + unit) \<times> retention_record list \<times> retention_database \<times> disk" where
  "maintain_loop commits roots n plan db d =
     (if plan = [] then (Inr (), plan, db, d)
      else (case execute_retention_batch (commits n) MAX_RETENTION_BATCH (plan, db) of
              (Inl e, plan', db') \<Rightarrow> (Inl (StorageRetention e), plan', db', d)
            | (Inr batch, plan', db') \<Rightarrow>
                (case remove_released_files roots (rb_released_storage_paths batch) d of
                   (Inl e, d') \<Rightarrow> (Inl e, plan', db', d')
                 | (Inr _, d') \<Rightarrow> maintain_loop commits roots (Suc n) plan' db' d')))"
  by pat_completeness auto
termination
  by (relation "measure (\<lambda>(commits, roots, n, plan, db, d). length plan)") (auto dest: delete_batch_length [OF sym])

declare maintain_loop.simps [simp del]

definition maintain ::
  "(nat \<Rightarrow> bool) \<Rightarrow> path list \<Rightarrow> retention_error + retention_record list \<Rightarrow> retention_database \<Rightarrow> disk \<Rightarrow>
   (storage_runtime_error + unit) \<times> retention_database \<times> disk" where
  "maintain commits roots planned db d =
     (case planned of
        Inl e \<Rightarrow> (Inl (StorageRetention e), db, d)
      | Inr plan \<Rightarrow>
          (case validate_retention_candidates d roots plan of
             Inl e \<Rightarrow> (Inl e, db, d)
           | Inr _ \<Rightarrow>
               (case maintain_loop commits roots 0 plan db d of (result, _, db', d') \<Rightarrow> (result, db', d'))))"

text \<open>The policies of the pass: captures that exist are kept within their bounds.\<close>

definition maintenance_policies :: retention_policies where
  "maintenance_policies = retention_policies_default
     \<lparr>pol_raw_protocol := (pol_raw_protocol retention_policies_default)\<lparr>rp_enabled := True\<rparr>\<rparr>"

section \<open>What the pass changes\<close>

fun db_rows :: "retention_database \<Rightarrow> retention_category \<Rightarrow> string set" where
  "db_rows db TerminalSegments = db_terminal_segments db"
| "db_rows db RawProtocol = db_raw_segments db"
| "db_rows db DebugLog = db_debug_logs db"

definition planned_ids :: "retention_record list \<Rightarrow> retention_category \<Rightarrow> string set" where
  "planned_ids rs c = {rr_id r |r. r \<in> set rs \<and> rr_category r = c}"

lemma planned_ids_simps [simp]:
  "planned_ids [] c = {}"
  "planned_ids (r # rs) c = (if rr_category r = c then insert (rr_id r) (planned_ids rs c) else planned_ids rs c)"
  "planned_ids (rs @ rs') c = planned_ids rs c \<union> planned_ids rs' c"
  by (auto simp: planned_ids_def)

text \<open>Clearing the references to some paths.\<close>

definition clear_references :: "string set \<Rightarrow> string option list \<Rightarrow> string option list" where
  "clear_references S refs = map (\<lambda>x. if x \<in> Some ` S then None else x) refs"

lemma clear_references_simps [simp]: "clear_references {} refs = refs"
  by (simp add: clear_references_def map_idI)

lemma clear_references_Un: "clear_references T (clear_references S refs) = clear_references (S \<union> T) refs"
  by (auto simp: clear_references_def)

definition raw_paths :: "retention_record list \<Rightarrow> string set" where
  "raw_paths rs = {rr_storage_path r |r. r \<in> set rs \<and> rr_category r = RawProtocol}"

lemma raw_paths_append: "raw_paths (rs @ rs') = raw_paths rs \<union> raw_paths rs'"
  by (auto simp: raw_paths_def)

lemma delete_candidate_facts:
  assumes "delete_candidate r db = (n, db')"
  shows "db_rows db' c = db_rows db c - planned_ids [r] c"
    and "0 < n \<longleftrightarrow> rr_id r \<in> db_rows db (rr_category r)"
    and "\<exists>S \<subseteq> raw_paths [r]. db_event_references db' = clear_references S (db_event_references db)"
proof -
  show "db_rows db' c = db_rows db c - planned_ids [r] c" "0 < n \<longleftrightarrow> rr_id r \<in> db_rows db (rr_category r)"
    using assms by (cases "rr_category r"; cases c; auto simp: delete_candidate_def split: if_splits)+
  show "\<exists>S \<subseteq> raw_paths [r]. db_event_references db' = clear_references S (db_event_references db)"
  proof (cases "rr_category r = RawProtocol \<and> rr_id r \<in> db_raw_segments db")
    case True
    then have "db_event_references db' = clear_references {rr_storage_path r} (db_event_references db)"
      using assms by (auto simp: delete_candidate_def clear_references_def)
    then show ?thesis using True by (intro exI [of _ "{rr_storage_path r}"]) (simp add: raw_paths_def)
  next
    case False
    then have "db_event_references db' = db_event_references db"
      using assms by (auto simp: delete_candidate_def split: retention_category.splits)
    then show ?thesis by (intro exI [of _ "{}"]) simp
  qed
qed

lemma delete_batch_facts:
  assumes "delete_batch rs n rel db = (n', rel', db')"
  shows "(\<forall>c. db_rows db' c = db_rows db c - planned_ids rs c) \<and>
    (\<exists>S \<subseteq> raw_paths rs. db_event_references db' = clear_references S (db_event_references db)) \<and>
    set rel \<subseteq> set rel' \<and> set rel' \<subseteq> set rel \<union> rr_storage_path ` set rs \<and>
    (distinct (map record_key rs) \<longrightarrow> (\<forall>r \<in> set rs. rr_id r \<in> db_rows db (rr_category r) \<longrightarrow> rr_storage_path r \<in> set rel'))"
  using assms
proof (induction rs n rel db rule: delete_batch.induct)
  case (1 deleted released db)
  then show ?case by (simp add: raw_paths_def)
next
  case (2 r rs deleted released db)
  obtain k db1 where d: "delete_candidate r db = (k, db1)" by (metis surj_pair)
  note f = delete_candidate_facts [OF d]
  let ?rel = "if 0 < k then released @ [rr_storage_path r] else released"
  have run: "delete_batch rs (deleted + k) ?rel db1 = (n', rel', db')" using "2.prems" d by simp
  note IH = "2.IH" [OF d [symmetric] run]
  note IH_rows = spec [OF conjunct1 [OF IH]] and IH_refs = conjunct1 [OF conjunct2 [OF IH]]
  note IH_rel = conjunct1 [OF conjunct2 [OF conjunct2 [OF IH]]] conjunct1 [OF conjunct2 [OF conjunct2 [OF conjunct2 [OF IH]]]]
  note IH_gone = conjunct2 [OF conjunct2 [OF conjunct2 [OF conjunct2 [OF IH]]]]
  obtain S where S: "S \<subseteq> raw_paths [r]" "db_event_references db1 = clear_references S (db_event_references db)" using f(3) by blast
  obtain T where T: "T \<subseteq> raw_paths rs" "db_event_references db' = clear_references T (db_event_references db1)" using IH_refs by blast
  show ?case
  proof (intro conjI allI impI ballI)
    show "db_rows db' c = db_rows db c - planned_ids (r # rs) c" for c
      unfolding IH_rows f(1) by auto
    show "\<exists>U \<subseteq> raw_paths (r # rs). db_event_references db' = clear_references U (db_event_references db)"
      using S T raw_paths_append [of "[r]" rs] by (intro exI [of _ "S \<union> T"]) (simp add: clear_references_Un le_supI1 le_supI2)
    show "set released \<subseteq> set rel'" "set rel' \<subseteq> set released \<union> rr_storage_path ` set (r # rs)"
      using IH_rel by (auto split: if_splits)
    fix x assume dist: "distinct (map record_key (r # rs))"
      and x: "x \<in> set (r # rs)" "rr_id x \<in> db_rows db (rr_category x)"
    show "rr_storage_path x \<in> set rel'"
    proof (cases "x = r")
      case True
      then have "rr_storage_path x \<in> set ?rel" using f(2) x(2) by simp
      then show ?thesis using IH_rel(1) by blast
    next
      case False
      then have mem: "x \<in> set rs" using x(1) by simp
      then have "record_key x \<noteq> record_key r" using dist by (metis distinct.simps(2) image_eqI list.set_map list.simps(9))
      then have "rr_id x \<in> db_rows db1 (rr_category x)"
        using x(2) f(1) [of "rr_category x"] by (auto simp: record_key_def)
      with IH_gone dist mem show ?thesis by simp
    qed
  qed
qed

lemma execute_batch_cases:
  assumes "plan \<noteq> []"
  obtains (failed) "execute_retention_batch ok MAX_RETENTION_BATCH (plan, db) = (Inl RetentionSql, plan, db)" "\<not> ok"
    | (committed) first rest b db' n where "ok" "plan = first @ rest" "first \<noteq> []"
        "delete_batch first 0 [] db = (n, rb_released_storage_paths b, db')"
        "execute_retention_batch ok MAX_RETENTION_BATCH (plan, db) = (Inr b, rest, db')"
proof (cases ok)
  case False
  then show ?thesis using assms by (intro failed) (simp_all add: execute_retention_batch_def MAX_RETENTION_BATCH_def Let_def)
next
  case True
  let ?k = "min MAX_RETENTION_BATCH (length plan)"
  obtain n rel db' where d: "delete_batch (take ?k plan) 0 [] db = (n, rel, db')" by (metis surj_pair)
  have k: "0 < ?k" using assms by (simp add: MAX_RETENTION_BATCH_def)
  then have "execute_retention_batch ok MAX_RETENTION_BATCH (plan, db) =
      (Inr \<lparr>rb_metadata_rows_deleted = n, rb_released_storage_paths = rel, rb_remaining_candidates = length (drop ?k plan)\<rparr>,
       drop ?k plan, db')"
    using True d by (simp add: execute_retention_batch_def Let_def)
  moreover have "take ?k plan \<noteq> []" using k assms by simp
  ultimately show ?thesis using True d by (intro committed [of "take ?k plan" "drop ?k plan"]) simp_all
qed

text \<open>The disk of a pass: what it may differ in from the disk before.\<close>

definition removed_only :: "path list \<Rightarrow> string set \<Rightarrow> disk \<Rightarrow> disk \<Rightarrow> bool" where
  "removed_only roots files d d' \<longleftrightarrow>
     dk_components d' = dk_components d \<and> dk_canonical d' = dk_canonical d \<and> dk_removable d' = dk_removable d \<and>
     (\<forall>f. dk_stat d' f \<noteq> dk_stat d f \<longrightarrow>
        dk_stat d' f = FileNotFound \<and> f \<in> files \<and> validate_released_path d roots f = Inr () \<and>
        dk_stat d f \<in> {Present RegularFile, Present Symlink})"

lemma removed_only_refl: "removed_only roots files d d"
  by (simp add: removed_only_def)

lemma validate_same:
  "dk_components d' = dk_components d \<Longrightarrow> dk_canonical d' = dk_canonical d \<Longrightarrow>
   validate_released_path d' roots f = validate_released_path d roots f"
  by (simp add: validate_released_path_def Let_def cong: option.case_cong)

lemma removed_onlyD:
  "removed_only roots F d d' \<Longrightarrow> dk_stat d' f \<noteq> dk_stat d f \<Longrightarrow>
   dk_stat d' f = FileNotFound \<and> f \<in> F \<and> validate_released_path d roots f = Inr () \<and>
   dk_stat d f \<in> {Present RegularFile, Present Symlink}"
  unfolding removed_only_def by blast

lemma removed_only_frame:
  assumes "removed_only roots F d d'"
  shows "validate_released_path d' roots f = validate_released_path d roots f" "dk_removable d' = dk_removable d"
  using assms validate_same [of d' d roots f] unfolding removed_only_def by blast+

lemma removed_only_trans:
  assumes "removed_only roots F d d'" "removed_only roots G d' d''"
  shows "removed_only roots (F \<union> G) d d''"
  unfolding removed_only_def
proof (intro conjI allI impI)
  fix f assume diff: "dk_stat d'' f \<noteq> dk_stat d f"
  have "dk_stat d'' f = FileNotFound \<and> f \<in> F \<union> G \<and> validate_released_path d roots f = Inr () \<and>
      dk_stat d f \<in> {Present RegularFile, Present Symlink}"
  proof (cases "dk_stat d' f = dk_stat d f")
    case True
    then show ?thesis using removed_onlyD [OF assms(2), of f] removed_only_frame(1) [OF assms(1), of f] diff by simp
  next
    case False
    note first = removed_onlyD [OF assms(1) False]
    have "dk_stat d'' f = dk_stat d' f" using removed_onlyD [OF assms(2), of f] first by auto
    then show ?thesis using first by auto
  qed
  then show "dk_stat d'' f = FileNotFound" "f \<in> F \<union> G" "validate_released_path d roots f = Inr ()"
    "dk_stat d f \<in> {Present RegularFile, Present Symlink}" by blast+
qed (use assms in \<open>simp_all add: removed_only_def\<close>)

lemma removed_only_mono: "removed_only roots F d d' \<Longrightarrow> F \<subseteq> G \<Longrightarrow> removed_only roots G d d'"
  unfolding removed_only_def by (simp add: subset_iff)

text \<open>A file that can be released: its place is allowed and it is gone or a file that can be removed.\<close>

definition releasable :: "path list \<Rightarrow> disk \<Rightarrow> string \<Rightarrow> bool" where
  "releasable roots d f \<longleftrightarrow> validate_released_path d roots f = Inr () \<and>
     (dk_stat d f = FileNotFound \<or> dk_stat d f \<in> {Present RegularFile, Present Symlink} \<and> dk_removable d f)"

lemma releasable_kept: "removed_only roots F d d' \<Longrightarrow> releasable roots d f \<Longrightarrow> releasable roots d' f"
  using removed_only_frame(1) [of roots F d d' f] removed_only_frame(2) [of roots F d d'] removed_onlyD [of roots F d d' f] unfolding releasable_def
  by (cases "dk_stat d' f = dk_stat d f") auto

lemma remove_files_facts:
  assumes "remove_released_files roots files d = (x, d')"
  shows "removed_only roots (set files) d d'"
    and "\<forall>f \<in> set files. releasable roots d f \<Longrightarrow> x = Inr ()"
    and "x = Inr () \<Longrightarrow> f \<in> set files \<Longrightarrow> dk_stat d' f = FileNotFound"
    and "dk_stat d f = FileNotFound \<Longrightarrow> dk_stat d' f = FileNotFound"
proof -
  have "removed_only roots (set files) d d' \<and> ((\<forall>f \<in> set files. releasable roots d f) \<longrightarrow> x = Inr ()) \<and>
      (x = Inr () \<longrightarrow> (\<forall>f \<in> set files. dk_stat d' f = FileNotFound))"
    using assms
  proof (induction roots files d rule: remove_released_files.induct)
    case (1 roots d)
    then show ?case by (simp add: removed_only_refl)
  next
    case (2 roots p files d)
    consider (bad) "\<exists>e. remove_released_files roots (p # files) d = (Inl e, d)" "\<not> releasable roots d p"
      | (absent) "validate_released_path d roots p = Inr ()" "dk_stat d p = FileNotFound"
      | (there) kind where "validate_released_path d roots p = Inr ()" "dk_stat d p = Present kind"
          "kind = RegularFile \<or> kind = Symlink" "dk_removable d p"
    proof (cases "releasable roots d p")
      case True
      then show ?thesis using absent there by (auto simp: releasable_def)
    next
      case False
      then have "\<exists>e. remove_released_files roots (p # files) d = (Inl e, d)"
        by (cases "validate_released_path d roots p"; cases "dk_stat d p") (auto simp: releasable_def)
      then show ?thesis using bad False by blast
    qed
    then show ?case
    proof cases
      case bad
      then show ?thesis using "2.prems" by (auto simp: removed_only_refl)
    next
      case absent
      have run: "remove_released_files roots files d = (x, d')" using "2.prems" absent by simp
      note IH = "2.IH"(1) [OF absent run]
      have "removed_only roots (set (p # files)) d d'"
        by (rule removed_only_mono [OF conjunct1 [OF IH]]) auto
      moreover have "dk_stat d' p = FileNotFound"
        using removed_onlyD [OF conjunct1 [OF IH], of p] absent(2) by (cases "dk_stat d' p = dk_stat d p") auto
      ultimately show ?thesis using IH by simp
    next
      case there
      let ?d = "d\<lparr>dk_stat := (dk_stat d)(p := FileNotFound)\<rparr>"
      have run: "remove_released_files roots files ?d = (x, d')" using "2.prems" there by auto
      note IH = "2.IH"(2) [OF there run]
      have step: "removed_only roots {p} d ?d" using there by (auto simp: removed_only_def)
      have "removed_only roots (set (p # files)) d d'"
        using removed_only_trans [OF step conjunct1 [OF IH]] by simp
      moreover have "dk_stat d' p = FileNotFound"
        using removed_onlyD [OF conjunct1 [OF IH], of p] by (cases "dk_stat d' p = dk_stat ?d p") auto
      moreover have "(\<forall>f \<in> set files. releasable roots d f) \<longrightarrow> (\<forall>f \<in> set files. releasable roots ?d f)"
        using releasable_kept [OF step] by blast
      ultimately show ?thesis using IH by simp
    qed
  qed
  then show "removed_only roots (set files) d d'" "\<forall>f \<in> set files. releasable roots d f \<Longrightarrow> x = Inr ()"
    "x = Inr () \<Longrightarrow> f \<in> set files \<Longrightarrow> dk_stat d' f = FileNotFound"
    "dk_stat d f = FileNotFound \<Longrightarrow> dk_stat d' f = FileNotFound"
    using removed_onlyD [of roots "set files" d d' f] by (blast, blast, blast, metis)
qed

text \<open>What the loop did when it stops, with the part \<open>first\<close> of the plan it committed.\<close>

definition pass_effect ::
  "path list \<Rightarrow> retention_record list \<Rightarrow> retention_database \<Rightarrow> disk \<Rightarrow> retention_database \<Rightarrow> disk \<Rightarrow> bool" where
  "pass_effect roots first db d db' d' \<longleftrightarrow>
     (\<forall>c. db_rows db' c = db_rows db c - planned_ids first c) \<and>
     (\<exists>S \<subseteq> raw_paths first. db_event_references db' = clear_references S (db_event_references db)) \<and>
     removed_only roots (rr_storage_path ` set first) d d'"

lemma pass_effect_refl: "pass_effect roots [] db d db d"
  by (simp add: pass_effect_def removed_only_refl raw_paths_def)

lemma pass_effect_batch:
  assumes "delete_batch first 0 [] db = (n, rel, db')" "remove_released_files roots rel d = (x, d')"
  shows "pass_effect roots first db d db' d'"
  using delete_batch_facts [OF assms(1)] removed_only_mono [OF remove_files_facts(1) [OF assms(2)], of "rr_storage_path ` set first"]
  by (simp add: pass_effect_def)

lemma pass_effect_trans:
  assumes "pass_effect roots first db d db' d'" "pass_effect roots rest db' d' db'' d''"
  shows "pass_effect roots (first @ rest) db d db'' d''"
proof -
  obtain S T where "S \<subseteq> raw_paths first" "db_event_references db' = clear_references S (db_event_references db)"
      "T \<subseteq> raw_paths rest" "db_event_references db'' = clear_references T (db_event_references db')"
    using assms unfolding pass_effect_def by blast
  then have "\<exists>U \<subseteq> raw_paths (first @ rest). db_event_references db'' = clear_references U (db_event_references db)"
    by (intro exI [of _ "S \<union> T"]) (simp add: raw_paths_append clear_references_Un le_supI1 le_supI2)
  moreover have "removed_only roots (rr_storage_path ` set (first @ rest)) d d''"
    using removed_only_trans [of roots _ d d' _ d''] assms unfolding pass_effect_def by (simp add: image_Un)
  moreover have "db_rows db'' c = db_rows db c - planned_ids (first @ rest) c" for c
    using assms unfolding pass_effect_def by auto
  ultimately show ?thesis unfolding pass_effect_def by blast
qed

lemma maintain_loop_effect:
  "maintain_loop commits roots n plan db d = (x, plan', db', d') \<Longrightarrow>
   (\<exists>first. plan = first @ plan' \<and> pass_effect roots first db d db' d') \<and> (x = Inr () \<longrightarrow> plan' = [])"
proof (induction commits roots n plan db d rule: maintain_loop.induct)
  case (1 commits roots n plan db d)
  show ?case
  proof (cases "plan = []")
    case True
    then show ?thesis using "1.prems" pass_effect_refl by (auto simp: maintain_loop.simps)
  next
    case False
    then show ?thesis
    proof (cases rule: execute_batch_cases [where ok = "commits n" and db = db])
      case failed
      then show ?thesis using "1.prems" False pass_effect_refl by (auto simp: maintain_loop.simps)
    next
      case (committed first rest b db1 k)
      obtain y d1 where rm: "remove_released_files roots (rb_released_storage_paths b) d = (y, d1)" by (metis surj_pair)
      note step = pass_effect_batch [OF committed(4) rm]
      show ?thesis
      proof (cases y)
        case (Inl e)
        then have "plan' = rest" "db' = db1" "d' = d1" "x = Inl e"
          using "1.prems" False committed(5) rm by (simp_all add: maintain_loop.simps)
        then show ?thesis using committed(2) step by blast
      next
        case (Inr u)
        have run: "maintain_loop commits roots (Suc n) rest db1 d1 = (x, plan', db', d')"
          using "1.prems" False committed(5) rm Inr by (simp add: maintain_loop.simps)
        from "1.IH" [OF False committed(5) [symmetric] refl refl _ _ run] rm Inr
        obtain first' where "rest = first' @ plan'" "pass_effect roots first' db1 d1 db' d'" "x = Inr () \<longrightarrow> plan' = []"
          by auto
        then show ?thesis using committed(2) pass_effect_trans [OF step] by (auto intro: exI [of _ "first @ first'"])
      qed
    qed
  qed
qed

lemma maintain_loop_success:
  "maintain_loop commits roots n plan db d = (x, plan', db', d') \<Longrightarrow>
   ((\<forall>k. commits k) \<and> (\<forall>r \<in> set plan. releasable roots d (rr_storage_path r)) \<longrightarrow> x = Inr ()) \<and>
   (x = Inr () \<and> distinct (map record_key plan) \<longrightarrow>
     (\<forall>r \<in> set plan. rr_id r \<in> db_rows db (rr_category r) \<longrightarrow> dk_stat d' (rr_storage_path r) = FileNotFound))"
proof (induction commits roots n plan db d rule: maintain_loop.induct)
  case (1 commits roots n plan db d)
  show ?case
  proof (cases "plan = []")
    case True
    then show ?thesis using "1.prems" by (simp add: maintain_loop.simps)
  next
    case False
    then show ?thesis
    proof (cases rule: execute_batch_cases [where ok = "commits n" and db = db])
      case failed
      then show ?thesis using "1.prems" False by (auto simp: maintain_loop.simps)
    next
      case (committed first rest b db1 k)
      obtain y d1 where rm: "remove_released_files roots (rb_released_storage_paths b) d = (y, d1)" by (metis surj_pair)
      note batch = delete_batch_facts [OF committed(4)] and rf = remove_files_facts [OF rm]
      have sub: "set (rb_released_storage_paths b) \<subseteq> rr_storage_path ` set first" using batch by simp
      have rows: "db_rows db1 c = db_rows db c - planned_ids first c" for c using batch by simp
      have rel: "rr_storage_path r \<in> set (rb_released_storage_paths b)"
        if "distinct (map record_key first)" "r \<in> set first" "rr_id r \<in> db_rows db (rr_category r)" for r
        using batch that by simp
      have ok: "y = Inr ()" if "\<forall>r \<in> set plan. releasable roots d (rr_storage_path r)"
      proof (rule rf(2), rule ballI)
        fix f assume "f \<in> set (rb_released_storage_paths b)"
        then obtain r where "f = rr_storage_path r" "r \<in> set first" using sub by blast
        then show "releasable roots d f" using that committed(2) by simp
      qed
      show ?thesis
      proof (cases y)
        case (Inl e)
        then have "x = Inl e" using "1.prems" False committed(5) rm by (simp add: maintain_loop.simps)
        then show ?thesis using ok Inl by auto
      next
        case y: (Inr u)
        have run: "maintain_loop commits roots (Suc n) rest db1 d1 = (x, plan', db', d')"
          using "1.prems" False committed(5) rm y by (simp add: maintain_loop.simps)
        have "y = Inr ()" using y by simp
        note IH = "1.IH" [OF False committed(5) [symmetric] refl refl rm [symmetric] y run]
        note kept = releasable_kept [OF rf(1)]
        have eff: "removed_only roots (rr_storage_path ` set rest) d1 d'"
        proof -
          obtain first' where "rest = first' @ plan'" "pass_effect roots first' db1 d1 db' d'"
            using maintain_loop_effect [OF run] by blast
          then show ?thesis using removed_only_mono [of roots "rr_storage_path ` set first'" d1 d'] by (simp add: pass_effect_def image_Un)
        qed
        have stays: "dk_stat d' f = FileNotFound" if "dk_stat d1 f = FileNotFound" for f
          using removed_onlyD [OF eff, of f] that by auto
        have files: "dk_stat d' (rr_storage_path r) = FileNotFound"
          if x: "x = Inr ()" and dist: "distinct (map record_key plan)" and r: "r \<in> set plan" "rr_id r \<in> db_rows db (rr_category r)" for r
        proof (cases "r \<in> set first")
          case True
          have "distinct (map record_key first)" using dist committed(2) by simp
          from rel [OF this True r(2)] show ?thesis using rf(3) [OF \<open>y = Inr ()\<close>] stays by blast
        next
          case out: False
          then have "r \<in> set rest" using r(1) committed(2) by auto
          moreover have "record_key r \<notin> record_key ` set first" using dist out \<open>r \<in> set rest\<close> committed(2) by auto
          then have "rr_id r \<notin> planned_ids first (rr_category r)" by (auto simp: planned_ids_def record_key_def image_iff)
          then have "rr_id r \<in> db_rows db1 (rr_category r)" using rows r(2) by simp
          moreover have "distinct (map record_key rest)" using dist committed(2) by simp
          ultimately show ?thesis using conjunct2 [OF IH] x by blast
        qed
        have "x = Inr ()" if c: "\<forall>k. commits k" and rs: "\<forall>r \<in> set plan. releasable roots d (rr_storage_path r)"
        proof -
          have "\<forall>r \<in> set rest. releasable roots d1 (rr_storage_path r)" using rs kept committed(2) by simp
          then show ?thesis using conjunct1 [OF IH] c by blast
        qed
        then show ?thesis using files by blast
      qed
    qed
  qed
qed

lemma validate_candidates_iff:
  "validate_retention_candidates d roots rs = Inr () \<longleftrightarrow> (\<forall>r \<in> set rs. validate_released_path d roots (rr_storage_path r) = Inr ())"
  by (induction rs) (auto simp: and_then_Inr_iff)

section \<open>Properties\<close>

text \<open>
  C19. A maintenance pass touches only what was planned, whatever the database and the file system
  answer and wherever it stops: the rows it deletes and the references it clears belong to a first part
  of the plan, and every file it removes is the file of a record of that part, was a file or a link,
  and lies directly in one of the allowed directories.
\<close>

theorem maintenance_touches_only_planned:
  assumes "maintain commits roots planned db d = (result, db', d')"
  shows "\<exists>first. (case planned of Inl _ \<Rightarrow> first = [] | Inr plan \<Rightarrow> take (length first) plan = first) \<and>
    (\<forall>c. db_rows db' c = db_rows db c - planned_ids first c) \<and>
    (\<exists>S \<subseteq> raw_paths first. db_event_references db' = clear_references S (db_event_references db)) \<and>
    (\<forall>f. dk_stat d' f \<noteq> dk_stat d f \<longrightarrow>
       dk_stat d' f = FileNotFound \<and> dk_stat d f \<in> {Present RegularFile, Present Symlink} \<and>
       f \<in> rr_storage_path ` set first \<and>
       (\<exists>parent root. path_parent (dk_components d f) = Some parent \<and> dk_canonical d parent = Some root \<and> root \<in> set roots))"
proof -
  have place: "\<exists>parent root. path_parent (dk_components d f) = Some parent \<and> dk_canonical d parent = Some root \<and> root \<in> set roots"
    if "validate_released_path d roots f = Inr ()" for f
    using that by (auto simp: validate_released_path_def Let_def split: if_splits option.splits)
  have done': ?thesis if first: "pass_effect roots first db d db' d'" 
      "case planned of Inl _ \<Rightarrow> first = [] | Inr plan \<Rightarrow> take (length first) plan = first" for first
  proof -
    have rem: "removed_only roots (rr_storage_path ` set first) d d'" using first(1) by (simp add: pass_effect_def)
    show ?thesis
    proof (rule exI [of _ first], intro conjI allI impI)
      show "db_rows db' c = db_rows db c - planned_ids first c" for c using first(1) by (simp add: pass_effect_def)
      show "\<exists>S \<subseteq> raw_paths first. db_event_references db' = clear_references S (db_event_references db)"
        using first(1) by (simp add: pass_effect_def)
    qed (use first(2) removed_onlyD [OF rem] place in \<open>blast+\<close>)
  qed
  show ?thesis
  proof (cases planned)
    case (Inl e)
    then show ?thesis using done' [of "[]"] assms pass_effect_refl by (simp add: maintain_def)
  next
    case (Inr p)
    show ?thesis
    proof (cases "validate_retention_candidates d roots p")
      case (Inl e)
      then show ?thesis using done' [of "[]"] assms Inr pass_effect_refl by (simp add: maintain_def)
    next
      case v: (Inr u)
      obtain x plan' where l: "maintain_loop commits roots 0 p db d = (x, plan', db', d')"
        using assms Inr v by (cases "maintain_loop commits roots 0 p db d") (auto simp: maintain_def)
      from maintain_loop_effect [OF l] obtain first where f: "p = first @ plan'" "pass_effect roots first db d db' d'" by blast
      show ?thesis by (rule done' [OF f(2)]) (use Inr f(1) in simp)
    qed
  qed
qed

definition sample_disk :: disk where
  "sample_disk = \<lparr>dk_components = (\<lambda>f. [''/'', ''s'', f]), dk_canonical = Some, dk_stat = (\<lambda>f. Present RegularFile),
     dk_removable = (\<lambda>f. True)\<rparr>"

definition sample_database :: retention_database where
  "sample_database = \<lparr>db_terminal_segments = {}, db_raw_segments = {''a'', ''b''}, db_debug_logs = {}, db_event_references = []\<rparr>"

lemma maintenance_touches_only_planned_witness:
  "\<exists>first. take (length first) [sample_segment ''a'' 1] = first \<and>
     db_rows (fst (snd (maintain (\<lambda>k. True) [] (Inr [sample_segment ''a'' 1]) sample_database sample_disk))) RawProtocol =
       {''a'', ''b''} - planned_ids first RawProtocol"
proof -
  obtain result db' d' where m: "maintain (\<lambda>k. True) [] (Inr [sample_segment ''a'' 1]) sample_database sample_disk = (result, db', d')"
    by (metis surj_pair)
  from maintenance_touches_only_planned [OF m] obtain first where
    f: "take (length first) [sample_segment ''a'' 1] = first" "\<forall>c. db_rows db' c = db_rows sample_database c - planned_ids first c" by auto
  have "db_raw_segments sample_database = {''a'', ''b''}" by (simp add: sample_database_def)
  then show ?thesis using f(1) spec [OF f(2), of RawProtocol] by (intro exI [of _ first]) (simp add: m)
qed

text \<open>
  C20. A maintenance pass completes. It always stops; when every transaction commits and every planned
  file lies in an allowed directory and is gone or can be removed, it succeeds, and then no planned row
  is left, all other rows are, and the files of the rows it deleted are gone.
\<close>

theorem maintenance_completes:
  assumes "\<forall>k. commits k" "\<forall>r \<in> set plan. releasable roots d (rr_storage_path r)" "distinct (map record_key plan)"
  shows "\<exists>db' d'. maintain commits roots (Inr plan) db d = (Inr (), db', d') \<and>
    (\<forall>c. db_rows db' c = db_rows db c - planned_ids plan c) \<and>
    (\<forall>r \<in> set plan. rr_id r \<in> db_rows db (rr_category r) \<longrightarrow> dk_stat d' (rr_storage_path r) = FileNotFound)"
proof -
  obtain x plan' db' d' where l: "maintain_loop commits roots 0 plan db d = (x, plan', db', d')" by (metis surj_pair)
  note suc = maintain_loop_success [OF l] and eff = maintain_loop_effect [OF l]
  have x: "x = Inr ()" using suc assms(1,2) by blast
  then obtain first where first: "plan = first @ plan'" "plan' = []" "pass_effect roots first db d db' d'" using eff by blast
  have "validate_retention_candidates d roots plan = Inr ()"
    using assms(2) by (simp add: validate_candidates_iff releasable_def)
  then have "maintain commits roots (Inr plan) db d = (Inr (), db', d')" using l x by (simp add: maintain_def)
  moreover have "\<forall>c. db_rows db' c = db_rows db c - planned_ids plan c" using first by (simp add: pass_effect_def)
  moreover have "\<forall>r \<in> set plan. rr_id r \<in> db_rows db (rr_category r) \<longrightarrow> dk_stat d' (rr_storage_path r) = FileNotFound"
    using suc x assms(3) by blast
  ultimately show ?thesis by blast
qed

lemma maintenance_completes_witness:
  "\<exists>db' d'. maintain (\<lambda>k. True) [[''/'', ''s'']] (Inr [sample_segment ''a'' 1]) sample_database sample_disk = (Inr (), db', d') \<and>
     db_raw_segments db' = {''b''} \<and> dk_stat d' ''/s'' = FileNotFound"
proof -
  have r: "\<forall>r \<in> set [sample_segment ''a'' 1]. releasable [[''/'', ''s'']] sample_disk (rr_storage_path r)"
    by (simp add: releasable_def validate_released_path_def sample_disk_def path_starts_with_def path_file_name_def
        path_parent_def sample_segment_def Let_def)
  have k: "distinct (map record_key [sample_segment ''a'' 1])" by simp
  have c: "\<forall>k. (\<lambda>k :: nat. True) k" by simp
  from maintenance_completes [OF c r k, of sample_database] obtain db' d' where
    "maintain (\<lambda>k. True) [[''/'', ''s'']] (Inr [sample_segment ''a'' 1]) sample_database sample_disk = (Inr (), db', d')"
    and rows: "\<forall>c. db_rows db' c = db_rows sample_database c - planned_ids [sample_segment ''a'' 1] c"
    and files: "\<forall>r \<in> set [sample_segment ''a'' 1]. rr_id r \<in> db_rows sample_database (rr_category r) \<longrightarrow>
      dk_stat d' (rr_storage_path r) = FileNotFound" by blast
  moreover have "db_raw_segments db' = {''b''}"
    using spec [OF rows, of RawProtocol] by (simp add: sample_database_def sample_segment_def)
  moreover have "dk_stat d' ''/s'' = FileNotFound" using files by (simp add: sample_database_def sample_segment_def)
  ultimately show ?thesis by blast
qed

end
