(* ===== verification/Adapter_Contract.thy ===== *)
theory Adapter_Contract
  imports Session_State Session_Buffers
begin

text \<open>
  The contract between the daemon and an agent adapter, \<^verbatim>\<open>crates/maestro-adapter/src/contract.rs\<close>:
  the data that crosses the boundary, the validation of a capability catalogue, and the redacting
  constructors of errors, results and configurations. Debug renderings are not modelled; zeroizing
  storage holds the bytes it is given. A path is its text.
\<close>

section \<open>Identity and probing\<close>

definition ADAPTER_CONTRACT_VERSION :: u32 where "ADAPTER_CONTRACT_VERSION = 1"

record adapter_identity =
  ai_adapter_id :: string
  ai_display_name :: string
  ai_agent_kind :: agent_kind
  ai_executable_names :: "string list"
  ai_contract_version :: u32

datatype installation_state = Installed | NotInstalled

datatype authentication_state = Authenticated | Unauthenticated | NotRequired | AuthUnknown

datatype version_compatibility = Tested | Untested | Unsupported

record probe_request =
  pq_executable :: string
  pq_working_directory :: string

record adapter_probe =
  ap_installation :: installation_state
  ap_cli_version :: "string option"
  ap_authentication :: authentication_state
  ap_compatibility :: version_compatibility
  ap_preferred_mode :: integration_mode
  ap_warnings :: "string list"

section \<open>Capability catalogues\<close>

datatype capability_scope = ApplicationScope | ProjectScope | SessionScope

record adapter_capability =
  ac_descriptor :: capability_descriptor
  ac_scopes :: "capability_scope list"
  ac_operation :: string
  ac_input_schema :: "json option"
  ac_required_executables :: "string list"

record capability_catalog =
  cc_adapter_id :: string
  cc_cli_version :: string
  cc_capabilities :: "adapter_capability list"

datatype capability_catalog_error =
    EmptyAdapterId | EmptyCliVersion | EmptyCapabilityId | DuplicateCapability string
  | MissingTestedVersionRange string | MissingUnavailableReason string | MissingFallback string
  | MissingScope string | MissingOperation string | InvalidOperationScope string
  | MissingInputSchema string | InvalidExecutable string

text \<open>The checks of one capability, in the order of the loop; \<open>seen\<close> holds the identifiers before it.\<close>

definition validate_capability :: "string set \<Rightarrow> adapter_capability \<Rightarrow> capability_catalog_error + unit" where
  "validate_capability seen c =
     (let d = ac_descriptor c; i = cap_id d; op = ac_operation c in
      if blank i then Inl EmptyCapabilityId
      else if i \<in> seen then Inl (DuplicateCapability i)
      else if cap_tested_version_range d = None then Inl (MissingTestedVersionRange i)
      else if \<not> is_available d \<and> cap_unavailable_reason d = None then Inl (MissingUnavailableReason i)
      else if requires_explicit_warning d \<and> cap_fallback d = None then Inl (MissingFallback i)
      else if ac_scopes c = [] then Inl (MissingScope i)
      else if blank op then Inl (MissingOperation i)
      else if op = ''invoke_feature'' \<and> SessionScope \<notin> set (ac_scopes c)
        \<or> op = ''invoke_global_feature'' \<and> SessionScope \<in> set (ac_scopes c)
      then Inl (InvalidOperationScope i)
      else if (op = ''invoke_feature'' \<or> op = ''invoke_global_feature'') \<and> ac_input_schema c = None
      then Inl (MissingInputSchema i)
      else if list_ex blank (ac_required_executables c) then Inl (InvalidExecutable i)
      else Inr ())"

fun validate_capabilities :: "string set \<Rightarrow> adapter_capability list \<Rightarrow> capability_catalog_error + unit" where
  "validate_capabilities seen [] = Inr ()"
| "validate_capabilities seen (c # cs) =
     and_then (validate_capability seen c) (\<lambda>_. validate_capabilities (insert (cap_id (ac_descriptor c)) seen) cs)"

definition catalog_validate :: "capability_catalog \<Rightarrow> capability_catalog_error + unit" where
  "catalog_validate cat =
     (if blank (cc_adapter_id cat) then Inl EmptyAdapterId
      else if blank (cc_cli_version cat) then Inl EmptyCliVersion
      else validate_capabilities {} (cc_capabilities cat))"

definition adapter_capability_of :: "string \<Rightarrow> capability_catalog \<Rightarrow> adapter_capability option" where
  "adapter_capability_of i cat = List.find (\<lambda>c. cap_id (ac_descriptor c) = i) (cc_capabilities cat)"

definition capability_of :: "string \<Rightarrow> capability_catalog \<Rightarrow> capability_descriptor option" where
  "capability_of i cat = map_option ac_descriptor (adapter_capability_of i cat)"

text \<open>What a capability of an exposed catalogue satisfies.\<close>

definition capability_ok :: "adapter_capability \<Rightarrow> bool" where
  "capability_ok c \<longleftrightarrow>
     (let d = ac_descriptor c; op = ac_operation c in
      \<not> blank (cap_id d) \<and> cap_tested_version_range d \<noteq> None \<and>
      (is_available d \<or> cap_unavailable_reason d \<noteq> None) \<and>
      (requires_explicit_warning d \<longrightarrow> cap_fallback d \<noteq> None) \<and>
      ac_scopes c \<noteq> [] \<and> \<not> blank op \<and>
      (op = ''invoke_feature'' \<longrightarrow> SessionScope \<in> set (ac_scopes c) \<and> ac_input_schema c \<noteq> None) \<and>
      (op = ''invoke_global_feature'' \<longrightarrow> SessionScope \<notin> set (ac_scopes c) \<and> ac_input_schema c \<noteq> None) \<and>
      (\<forall>e \<in> set (ac_required_executables c). \<not> blank e))"

lemma validate_capability_iff:
  "validate_capability seen c = Inr () \<longleftrightarrow> capability_ok c \<and> cap_id (ac_descriptor c) \<notin> seen"
  unfolding validate_capability_def capability_ok_def Let_def list_ex_iff by auto

lemma validate_capabilities_iff:
  "validate_capabilities seen cs = Inr () \<longleftrightarrow>
   (\<forall>c \<in> set cs. capability_ok c) \<and> distinct (map (\<lambda>c. cap_id (ac_descriptor c)) cs) \<and>
   seen \<inter> (\<lambda>c. cap_id (ac_descriptor c)) ` set cs = {}"
  by (induction cs arbitrary: seen) (auto simp: and_then_Inr_iff validate_capability_iff)

section \<open>Launches\<close>

datatype process_transport = StructuredJsonLines | OneShot | PtyTransport

record process_launch_spec =
  pl_executable :: string
  pl_arguments :: "string list"
  pl_working_directory :: string
  pl_transport :: process_transport
  pl_requested_environment_variables :: "string list"

text \<open>A writer lease is what dropping it releases.\<close>

record 'lease tui_plan =
  tpl_process :: process_launch_spec
  tpl_writer_lease :: "'lease option"

definition tui_plan_new :: "process_launch_spec \<Rightarrow> 'lease option \<Rightarrow> 'lease tui_plan" where
  "tui_plan_new process lease = \<lparr>tpl_process = process, tpl_writer_lease = lease\<rparr>"

definition tui_plan_into_parts :: "'lease tui_plan \<Rightarrow> process_launch_spec \<times> 'lease option" where
  "tui_plan_into_parts plan = (tpl_process plan, tpl_writer_lease plan)"

datatype approval_policy = ApprovalVendorDefault | ApprovalAsk | AutomaticWithinExplicitRules | DangerousBypass

datatype sandbox_policy = SandboxVendorDefault | SandboxReadOnly | WorkspaceWrite | FullAccess

record session_options =
  so_model :: "string option"
  so_reasoning_effort :: "string option"
  so_approval_policy :: approval_policy
  so_sandbox_policy :: sandbox_policy
  so_collaboration_mode :: "string option"
  so_personality :: "string option"
  so_vendor_options :: "bytes option"

definition session_options_default :: session_options where
  "session_options_default =
     \<lparr>so_model = None, so_reasoning_effort = None, so_approval_policy = ApprovalAsk,
      so_sandbox_policy = SandboxVendorDefault, so_collaboration_mode = None, so_personality = None,
      so_vendor_options = None\<rparr>"

record start_session_request =
  ss_session_id :: session_id
  ss_run_id :: run_id
  ss_project_id :: project_id
  ss_executable :: string
  ss_working_directory :: string
  ss_integration_mode :: integration_mode
  ss_options :: session_options
  ss_capture_raw_protocol :: bool

record vendor_binding =
  vb_agent_kind :: agent_kind
  vb_vendor_session_id :: string

record resume_session_request =
  rs_start :: start_session_request
  rs_binding :: vendor_binding

record tui_launch_request =
  tl_start :: start_session_request
  tl_binding :: "vendor_binding option"

section \<open>Turns, requests and results\<close>

datatype input_item = TextItem string | FileReference string | ImageReference string

datatype steering_mode = SteerActiveTurn | QueueFollowUp

datatype adapter_permission_decision =
    AllowOnce | AllowForSession | DenyOnce | CancelRequest | VendorSpecific string "bytes option"

record vendor_request_context =
  vr_session_id :: session_id
  vr_run_id :: run_id
  vr_turn_id :: "turn_id option"
  vr_item_id :: "string option"
  vr_vendor_request_id :: string
  vr_expires_at_milliseconds :: "int option"

record permission_resolution =
  px_context :: vendor_request_context
  px_decision :: adapter_permission_decision

record user_input_answer =
  ua_question_id :: string
  ua_values :: "string list"

record user_input_response =
  ur_context :: vendor_request_context
  ur_answers :: "user_input_answer list"

record feature_invocation =
  fi_operation_id :: request_id
  fi_feature_id :: string
  fi_arguments :: bytes

text \<open>\<open>to_vec\<close> is the JSON serializer.\<close>

definition feature_invocation_new ::
  "(json \<Rightarrow> string + bytes) \<Rightarrow> request_id \<Rightarrow> string \<Rightarrow> json \<Rightarrow> string + feature_invocation" where
  "feature_invocation_new to_vec operation_id feature_id arguments =
     and_then (to_vec arguments) (\<lambda>bytes.
       Inr \<lparr>fi_operation_id = operation_id, fi_feature_id = feature_id, fi_arguments = bytes\<rparr>)"

record feature_result =
  fr_operation_id :: request_id
  fr_feature_id :: string
  fr_value :: json

definition feature_result_redacted :: "request_id \<Rightarrow> string \<Rightarrow> json \<Rightarrow> feature_result" where
  "feature_result_redacted operation_id feature_id v =
     \<lparr>fr_operation_id = operation_id, fr_feature_id = feature_id, fr_value = redact_payload v\<rparr>"

record adapter_operation =
  aop_operation_id :: request_id

record console_annotation =
  ca_operation_id :: request_id
  ca_action :: string
  ca_summary :: string

datatype adapter_lifecycle_signal =
  SignalReady | SignalRunning | SignalInterrupted | SignalCompleted | SignalStopped | SignalFailed

datatype adapter_event_payload =
    Normalized normalized_event
  | Console console_annotation
  | Lifecycle adapter_lifecycle_signal string

record adapter_event =
  ae_operation_id :: "request_id option"
  ae_payload :: adapter_event_payload

record adapter_session_snapshot =
  as_session_id :: session_id
  as_run_id :: run_id
  as_binding :: vendor_binding

record adapter_health =
  ah_healthy :: bool
  ah_summary :: string
  ah_fallback_mode :: "integration_mode option"

record adapter_model =
  am_id :: string
  am_label :: string
  am_description :: "string option"
  am_is_default :: bool
  am_supported_reasoning_efforts :: "string list"
  am_default_reasoning_effort :: "string option"

record adapter_configuration =
  acf_value :: json
  acf_read_only :: bool

definition adapter_configuration_redacted :: "json \<Rightarrow> bool \<Rightarrow> adapter_configuration" where
  "adapter_configuration_redacted v read_only = \<lparr>acf_value = redact_payload v, acf_read_only = read_only\<rparr>"

record configuration_change =
  cch_path :: string
  cch_value :: bytes

definition configuration_change_new :: "(json \<Rightarrow> string + bytes) \<Rightarrow> string \<Rightarrow> json \<Rightarrow> string + configuration_change" where
  "configuration_change_new to_vec p v = and_then (to_vec v) (\<lambda>bytes. Inr \<lparr>cch_path = p, cch_value = bytes\<rparr>)"

section \<open>Errors\<close>

datatype adapter_error_kind =
    KindInvalidRequest | BindingInUse | RequestNotActive | KindCliNotInstalled | KindAuthenticationRequired
  | UnsupportedVersion | KindUnsupportedCapability | Protocol | KindProcess | Closed | KindInternal

datatype adapter_retry_safety = RetryNotApplicable | RetrySafe | UnsafeDeliveryUncertain

record adapter_error =
  aer_kind :: adapter_error_kind
  aer_message :: string
  aer_retry_safety :: adapter_retry_safety
  aer_fallback_mode :: "integration_mode option"

definition redacted_message :: "string \<Rightarrow> string" where
  "redacted_message m = (case redact_text m of Some (Borrowed s) \<Rightarrow> s | Some (Owned s) \<Rightarrow> s | None \<Rightarrow> REDACTED)"

definition adapter_error_new :: "adapter_error_kind \<Rightarrow> string \<Rightarrow> adapter_error" where
  "adapter_error_new kind message =
     \<lparr>aer_kind = kind, aer_message = redacted_message message, aer_retry_safety = RetryNotApplicable,
      aer_fallback_mode = None\<rparr>"

definition with_retry_safety :: "adapter_error \<Rightarrow> adapter_retry_safety \<Rightarrow> adapter_error" where
  "with_retry_safety e safety = e\<lparr>aer_retry_safety := safety\<rparr>"

definition with_fallback :: "adapter_error \<Rightarrow> integration_mode \<Rightarrow> adapter_error" where
  "with_fallback e mode = e\<lparr>aer_fallback_mode := Some mode\<rparr>"

datatype run_stop_reason = UserRequested | ApplicationQuit | SwitchIntegrationMode | DaemonShutdown

end
