(* ===== verification/Fake_Adapter.thy ===== *)
theory Fake_Adapter
  imports Adapter_Contract Writer_Lease
begin

text \<open>
  The deterministic adapter of \<^verbatim>\<open>crates/maestro-adapter/src/fake.rs\<close>, which implements the adapter
  contract. The adapter keeps an audit log of operation names and the table of claimed vendor
  bindings; its sessions share both, so the operations of a session act on the pair of the adapter
  and the session's own state. Dropping a session or a terminal lease is an operation. Operation
  identifiers that the code draws are arguments; \<open>id_text\<close> renders an identifier.
\<close>

section \<open>State\<close>

definition FAKE_VERSION :: string where "FAKE_VERSION = ''1.0.0''"
definition FAKE_EXECUTABLE :: string where "FAKE_EXECUTABLE = ''maestro-fake-agent''"
definition PERMISSION_REQUEST_ID :: string where "PERMISSION_REQUEST_ID = ''permission-1''"
definition USER_INPUT_REQUEST_ID :: string where "USER_INPUT_REQUEST_ID = ''input-1''"
definition FAKE_CLOCK_MILLISECONDS :: int where "FAKE_CLOCK_MILLISECONDS = 0"
definition FAKE_REQUEST_EXPIRY_MILLISECONDS :: int where "FAKE_REQUEST_EXPIRY_MILLISECONDS = 1000"

type_synonym claims = "string \<rightharpoonup> run_id"

record fake_adapter =
  fa_operation_log :: "string list"
  fa_binding_claims :: claims

definition fake_adapter_new :: fake_adapter where
  "fake_adapter_new = \<lparr>fa_operation_log = [], fa_binding_claims = Map.empty\<rparr>"

definition fa_record :: "string \<Rightarrow> fake_adapter \<Rightarrow> fake_adapter" where
  "fa_record operation a = a\<lparr>fa_operation_log := fa_operation_log a @ [operation]\<rparr>"

datatype delivery_state = DeliveryActive | InFlight | Resolved

record pending_delivery =
  pd_context :: vendor_request_context
  pd_state :: delivery_state

record fake_session_state =
  fs_session_id :: session_id
  fs_run_id :: run_id
  fs_binding :: vendor_binding
  fs_binding_key :: string
  fs_events :: "adapter_event list"
  fs_invokable_session_features :: "string set"
  fs_permission_requests :: "string \<rightharpoonup> pending_delivery"
  fs_user_input_requests :: "string \<rightharpoonup> pending_delivery"
  fs_expected_user_input_questions :: "string set"
  fs_current_time_milliseconds :: int
  fs_stopped :: bool

record fake_binding_lease =
  bl_binding_key :: string
  bl_run_id :: run_id

section \<open>The catalogue\<close>

definition capability ::
  "string \<Rightarrow> capability_support \<Rightarrow> security_class \<Rightarrow> capability_scope \<Rightarrow> string \<Rightarrow> json option \<Rightarrow> adapter_capability" where
  "capability i support security scope operation input_schema =
     \<lparr>ac_descriptor =
        \<lparr>cap_id = i, cap_label = map (\<lambda>c. if c = CHR ''.'' \<or> c = CHR ''_'' then CHR '' '' else c) i,
         cap_description = ''Deterministic adapter-contract fixture'', cap_support = support,
         cap_maturity = Stable, cap_security_class = security,
         cap_tested_version_range = Some (''='' @ FAKE_VERSION), cap_requires_authentication = False,
         cap_fallback = (if support = PtyOnly then Some ''Exact TUI mode'' else None),
         cap_unavailable_reason = None\<rparr>,
      ac_scopes = [scope], ac_operation = operation, ac_input_schema = input_schema,
      ac_required_executables = [FAKE_EXECUTABLE]\<rparr>"

definition typed_capability :: "string \<Rightarrow> security_class \<Rightarrow> capability_scope \<Rightarrow> string \<Rightarrow> adapter_capability" where
  "typed_capability i security scope operation = capability i Structured security scope operation None"

definition generic_capability :: "string \<Rightarrow> security_class \<Rightarrow> capability_scope \<Rightarrow> string \<Rightarrow> adapter_capability" where
  "generic_capability i security scope operation =
     capability i Structured security scope operation
       (Some (Object [(''type'', String ''object''), (''additionalProperties'', Bool True)]))"

definition fake_catalog :: capability_catalog where
  "fake_catalog =
     \<lparr>cc_adapter_id = ''maestro.fake'', cc_cli_version = FAKE_VERSION,
      cc_capabilities =
        [typed_capability ''session.start'' Mutating ProjectScope ''start_session'',
         typed_capability ''session.resume'' Mutating SessionScope ''resume_session'',
         typed_capability ''turn.send'' Mutating SessionScope ''send_turn'',
         typed_capability ''turn.steer_or_follow_up'' Mutating SessionScope ''steer_or_follow_up'',
         typed_capability ''turn.interrupt'' Mutating SessionScope ''interrupt'',
         typed_capability ''permission.resolve'' Sensitive SessionScope ''resolve_permission'',
         typed_capability ''user_input.respond'' Sensitive SessionScope ''respond_user_input'',
         generic_capability ''feature.invoke'' Mutating SessionScope ''invoke_feature'',
         typed_capability ''model.list'' ReadOnly ApplicationScope ''list_models'',
         typed_capability ''configuration.read'' ReadOnly ApplicationScope ''read_configuration'',
         typed_capability ''configuration.update'' Sensitive ApplicationScope ''update_configuration'',
         generic_capability ''management.invoke'' Mutating ApplicationScope ''invoke_global_feature'',
         typed_capability ''health.read'' ReadOnly ApplicationScope ''health_check'',
         capability ''tui.launch'' PtyOnly Mutating SessionScope ''launch_tui'' None]\<rparr>"

section \<open>Binding claims\<close>

definition fa_claim_binding :: "string \<Rightarrow> run_id \<Rightarrow> fake_adapter \<Rightarrow> (adapter_error + unit) \<times> fake_adapter" where
  "fa_claim_binding key run a =
     (if fa_binding_claims a key \<noteq> None
      then (Inl (with_retry_safety (adapter_error_new BindingInUse ''the vendor binding already has an active writer'') RetrySafe), a)
      else (Inr (), a\<lparr>fa_binding_claims := (fa_binding_claims a)(key \<mapsto> run)\<rparr>))"

definition release_binding_claim :: "string \<Rightarrow> run_id \<Rightarrow> fake_adapter \<Rightarrow> fake_adapter" where
  "release_binding_claim key run a =
     (if fa_binding_claims a key = Some run then a\<lparr>fa_binding_claims := (fa_binding_claims a)(key := None)\<rparr> else a)"

definition drop_binding_lease :: "fake_binding_lease \<Rightarrow> fake_adapter \<Rightarrow> fake_adapter" where
  "drop_binding_lease l a = release_binding_claim (bl_binding_key l) (bl_run_id l) a"

section \<open>Opening sessions\<close>

definition request_context :: "session_id \<Rightarrow> run_id \<Rightarrow> string \<Rightarrow> vendor_request_context" where
  "request_context session run vendor_request_id =
     \<lparr>vr_session_id = session, vr_run_id = run, vr_turn_id = None, vr_item_id = None,
      vr_vendor_request_id = vendor_request_id,
      vr_expires_at_milliseconds = Some FAKE_REQUEST_EXPIRY_MILLISECONDS\<rparr>"

definition pending_delivery_new :: "vendor_request_context \<Rightarrow> pending_delivery" where
  "pending_delivery_new context = \<lparr>pd_context = context, pd_state = DeliveryActive\<rparr>"

definition fs_push :: "request_id option \<Rightarrow> adapter_event_payload \<Rightarrow> fake_session_state \<Rightarrow> fake_session_state" where
  "fs_push operation_id payload s =
     s\<lparr>fs_events := fs_events s @ [\<lparr>ae_operation_id = operation_id, ae_payload = payload\<rparr>]\<rparr>"

definition fa_session ::
  "start_session_request \<Rightarrow> vendor_binding \<Rightarrow> bool \<Rightarrow> fake_adapter \<Rightarrow> (adapter_error + fake_session_state) \<times> fake_adapter" where
  "fa_session request binding resumed a =
     (if ss_integration_mode request \<noteq> StructuredMode
      then (Inl (with_fallback (adapter_error_new KindInvalidRequest
              ''the fake structured adapter requires structured integration mode'') PtyTui), a)
      else if vb_agent_kind binding \<noteq> Fake \<or> blank (vb_vendor_session_id binding)
      then (Inl (adapter_error_new KindInvalidRequest ''the fake adapter requires a non-empty fake vendor binding''), a)
      else (case fa_claim_binding (vb_vendor_session_id binding) (ss_run_id request) a of
              (Inl e, a') \<Rightarrow> (Inl e, a')
            | (Inr _, a') \<Rightarrow>
                (Inr (fs_push None (Lifecycle SignalReady (if resumed then ''fake session resumed'' else ''fake session started''))
                   \<lparr>fs_session_id = ss_session_id request, fs_run_id = ss_run_id request, fs_binding = binding,
                    fs_binding_key = vb_vendor_session_id binding, fs_events = [],
                    fs_invokable_session_features =
                      set (map (\<lambda>c. cap_id (ac_descriptor c))
                        (filter (\<lambda>c. ac_operation c = ''invoke_feature'' \<and> SessionScope \<in> set (ac_scopes c))
                          (cc_capabilities fake_catalog))),
                    fs_permission_requests = [PERMISSION_REQUEST_ID \<mapsto> pending_delivery_new
                      (request_context (ss_session_id request) (ss_run_id request) PERMISSION_REQUEST_ID)],
                    fs_user_input_requests = [USER_INPUT_REQUEST_ID \<mapsto> pending_delivery_new
                      (request_context (ss_session_id request) (ss_run_id request) USER_INPUT_REQUEST_ID)],
                    fs_expected_user_input_questions = {''choice''},
                    fs_current_time_milliseconds = FAKE_CLOCK_MILLISECONDS, fs_stopped = False\<rparr>), a')))"

fun session_text :: "(uuid \<Rightarrow> string) \<Rightarrow> session_id \<Rightarrow> string" where
  "session_text id_text (SessionId u) = id_text u"

definition start_session ::
  "(uuid \<Rightarrow> string) \<Rightarrow> start_session_request \<Rightarrow> fake_adapter \<Rightarrow> (adapter_error + fake_session_state) \<times> fake_adapter" where
  "start_session id_text request a =
     fa_session request
       \<lparr>vb_agent_kind = Fake, vb_vendor_session_id = ''fake-'' @ session_text id_text (ss_session_id request)\<rparr> False
       (fa_record ''start_session'' a)"

definition resume_session ::
  "resume_session_request \<Rightarrow> fake_adapter \<Rightarrow> (adapter_error + fake_session_state) \<times> fake_adapter" where
  "resume_session request a = fa_session (rs_start request) (rs_binding request) True (fa_record ''resume_session'' a)"

definition fake_tui_spec :: "start_session_request \<Rightarrow> string list \<Rightarrow> process_launch_spec" where
  "fake_tui_spec start arguments =
     \<lparr>pl_executable = ss_executable start, pl_arguments = arguments, pl_working_directory = ss_working_directory start,
      pl_transport = PtyTransport, pl_requested_environment_variables = []\<rparr>"

definition launch_tui ::
  "tui_launch_request \<Rightarrow> fake_adapter \<Rightarrow> (adapter_error + fake_binding_lease tui_plan) \<times> fake_adapter" where
  "launch_tui request a0 =
     (let a = fa_record ''launch_tui'' a0; start = tl_start request; arguments = [''--scenario'', ''tui/vt-baseline''] in
      if ss_integration_mode start \<noteq> PtyTui
      then (Inl (adapter_error_new KindInvalidRequest ''the exact fake TUI requires PTY/TUI integration mode''), a)
      else (case tl_binding request of
              None \<Rightarrow> (Inr (tui_plan_new (fake_tui_spec start arguments) None), a)
            | Some binding \<Rightarrow>
                if vb_agent_kind binding \<noteq> Fake \<or> blank (vb_vendor_session_id binding)
                then (Inl (adapter_error_new KindInvalidRequest ''the exact fake TUI cannot use this vendor binding''), a)
                else (case fa_claim_binding (vb_vendor_session_id binding) (ss_run_id start) a of
                        (Inl e, a') \<Rightarrow> (Inl e, a')
                      | (Inr _, a') \<Rightarrow>
                          (Inr (tui_plan_new (fake_tui_spec start (arguments @ [''--binding'', vb_vendor_session_id binding]))
                             (Some \<lparr>bl_binding_key = vb_vendor_session_id binding, bl_run_id = ss_run_id start\<rparr>)), a'))))"

section \<open>The other operations of the adapter\<close>

definition fake_identity :: adapter_identity where
  "fake_identity =
     \<lparr>ai_adapter_id = ''maestro.fake'', ai_display_name = ''Maestro deterministic fake agent'', ai_agent_kind = Fake,
      ai_executable_names = [FAKE_EXECUTABLE], ai_contract_version = ADAPTER_CONTRACT_VERSION\<rparr>"

definition fake_probe :: "fake_adapter \<Rightarrow> adapter_probe \<times> fake_adapter" where
  "fake_probe a =
     (\<lparr>ap_installation = Installed, ap_cli_version = Some FAKE_VERSION, ap_authentication = NotRequired,
       ap_compatibility = Tested, ap_preferred_mode = StructuredMode, ap_warnings = []\<rparr>, fa_record ''probe'' a)"

text \<open>\<open>show_error\<close> renders a catalogue error.\<close>

definition discover_capabilities ::
  "(capability_catalog_error \<Rightarrow> string) \<Rightarrow> adapter_probe \<Rightarrow> fake_adapter \<Rightarrow>
   (adapter_error + capability_catalog) \<times> fake_adapter" where
  "discover_capabilities show_error probe a =
     (if ap_compatibility probe \<noteq> Tested \<or> ap_cli_version probe \<noteq> Some FAKE_VERSION
      then Inl (with_fallback (adapter_error_new UnsupportedVersion
             ''the deterministic fake adapter only supports version 1.0.0'') PtyTui)
      else (case catalog_validate fake_catalog of
              Inl e \<Rightarrow> Inl (adapter_error_new KindInternal (show_error e))
            | Inr _ \<Rightarrow> Inr fake_catalog),
      fa_record ''discover_capabilities'' a)"

definition list_models :: "fake_adapter \<Rightarrow> adapter_model list \<times> fake_adapter" where
  "list_models a =
     ([\<lparr>am_id = ''fixture-model'', am_label = ''Fixture model'', am_description = Some ''Deterministic model fixture'',
        am_is_default = True, am_supported_reasoning_efforts = [''medium''],
        am_default_reasoning_effort = Some ''medium''\<rparr>], fa_record ''list_models'' a)"

definition read_configuration :: "fake_adapter \<Rightarrow> adapter_configuration \<times> fake_adapter" where
  "read_configuration a =
     (adapter_configuration_redacted (Object [(''fixture'', Bool True)]) False, fa_record ''read_configuration'' a)"

definition update_configuration :: "configuration_change \<Rightarrow> fake_adapter \<Rightarrow> adapter_configuration \<times> fake_adapter" where
  "update_configuration change a =
     (adapter_configuration_redacted (Object [(''fixture'', Bool True), (''updated'', Bool True)]) False,
      fa_record ''update_configuration'' a)"

definition invoke_global_feature :: "feature_invocation \<Rightarrow> fake_adapter \<Rightarrow> (adapter_error + feature_result) \<times> fake_adapter" where
  "invoke_global_feature invocation a =
     (if (case adapter_capability_of (fi_feature_id invocation) fake_catalog of
            Some c \<Rightarrow> ac_operation c = ''invoke_global_feature'' \<and> ApplicationScope \<in> set (ac_scopes c) \<and>
                      is_available (ac_descriptor c)
          | None \<Rightarrow> False)
      then Inr (feature_result_redacted (fi_operation_id invocation) (fi_feature_id invocation)
             (Object [(''status'', String ''ok'')]))
      else Inl (adapter_error_new KindUnsupportedCapability
             ''the requested feature is not an invokable global fake capability''),
      fa_record ''invoke_global_feature'' a)"

definition health_check :: "fake_adapter \<Rightarrow> adapter_health \<times> fake_adapter" where
  "health_check a =
     (\<lparr>ah_healthy = True, ah_summary = ''deterministic fake adapter is healthy'', ah_fallback_mode = Some PtyTui\<rparr>,
      fa_record ''health_check'' a)"

section \<open>Operations of a session\<close>

definition ensure_open :: "fake_session_state \<Rightarrow> adapter_error + unit" where
  "ensure_open s = (if fs_stopped s then Inl (adapter_error_new Closed ''the adapter process run is stopped'') else Inr ())"

definition operation_with_id ::
  "request_id \<Rightarrow> string \<Rightarrow> string \<Rightarrow> fake_session_state \<Rightarrow> adapter_operation \<times> fake_session_state" where
  "operation_with_id operation_id action summary s =
     (\<lparr>aop_operation_id = operation_id\<rparr>,
      fs_push (Some operation_id)
        (Console \<lparr>ca_operation_id = operation_id, ca_action = action, ca_summary = summary\<rparr>) s)"

text \<open>\<^verbatim>\<open>PendingDelivery::claim\<close>; an expired request is resolved on the way.\<close>

definition pd_claim ::
  "vendor_request_context \<Rightarrow> int \<Rightarrow> pending_delivery \<Rightarrow> (adapter_error + unit) \<times> pending_delivery" where
  "pd_claim context now p =
     (if pd_context p \<noteq> context
      then (Inl (with_retry_safety (adapter_error_new RequestNotActive
              ''the single-use vendor request is not active for this session and run'') RetrySafe), p)
      else if (case vr_expires_at_milliseconds (pd_context p) of Some expiry \<Rightarrow> expiry \<le> now | None \<Rightarrow> False)
      then (Inl (adapter_error_new RequestNotActive ''the single-use vendor request has expired''), p\<lparr>pd_state := Resolved\<rparr>)
      else (case pd_state p of
              DeliveryActive \<Rightarrow> (Inr (), p\<lparr>pd_state := InFlight\<rparr>)
            | InFlight \<Rightarrow>
                (Inl (with_retry_safety (adapter_error_new RequestNotActive
                   ''delivery of the single-use vendor request is still uncertain'') UnsafeDeliveryUncertain), p)
            | Resolved \<Rightarrow>
                (Inl (adapter_error_new RequestNotActive ''the single-use vendor request is already resolved''), p)))"

definition confirm_delivery :: "pending_delivery \<Rightarrow> pending_delivery" where
  "confirm_delivery p = p\<lparr>pd_state := Resolved\<rparr>"

text \<open>Claiming a request of one of the two tables and confirming its delivery.\<close>

definition claim_and_confirm ::
  "string \<Rightarrow> vendor_request_context \<Rightarrow> int \<Rightarrow> (string \<rightharpoonup> pending_delivery) \<Rightarrow>
   (adapter_error + unit) \<times> (string \<rightharpoonup> pending_delivery)" where
  "claim_and_confirm message context now requests =
     (case requests (vr_vendor_request_id context) of
        None \<Rightarrow> (Inl (adapter_error_new RequestNotActive message), requests)
      | Some p \<Rightarrow>
          (case pd_claim context now p of
             (Inl e, p') \<Rightarrow> (Inl e, requests(vr_vendor_request_id context \<mapsto> p'))
           | (Inr _, p') \<Rightarrow> (Inr (), requests(vr_vendor_request_id context \<mapsto> confirm_delivery p'))))"

type_synonym adapter_and_session = "fake_adapter \<times> fake_session_state"

definition fa_snapshot :: "fake_session_state \<Rightarrow> adapter_session_snapshot" where
  "fa_snapshot s = \<lparr>as_session_id = fs_session_id s, as_run_id = fs_run_id s, as_binding = fs_binding s\<rparr>"

definition send_turn ::
  "request_id \<Rightarrow> input_item list \<Rightarrow> adapter_and_session \<Rightarrow> (adapter_error + adapter_operation) \<times> adapter_and_session" where
  "send_turn operation_id input as =
     (case as of (a, s) \<Rightarrow>
      case ensure_open s of
        Inl e \<Rightarrow> (Inl e, fa_record ''send_turn'' a, s)
      | Inr _ \<Rightarrow>
          (case operation_with_id operation_id ''turn.send(...)'' ''GUI requested a fake turn'' s of
             (operation, s1) \<Rightarrow>
               (Inr operation, fa_record ''send_turn'' a,
                fs_push (Some operation_id) (Normalized (normalized_event_user ''turn.accepted''
                  (Object [(''status'', String ''accepted'')]))) s1)))"

fun steering_action :: "steering_mode \<Rightarrow> string" where
  "steering_action SteerActiveTurn = ''turn.steer(...)''"
| "steering_action QueueFollowUp = ''turn.follow_up(...)''"

definition steer_or_follow_up ::
  "request_id \<Rightarrow> steering_mode \<Rightarrow> input_item list \<Rightarrow> adapter_and_session \<Rightarrow>
   (adapter_error + adapter_operation) \<times> adapter_and_session" where
  "steer_or_follow_up operation_id mode input as =
     (case as of (a, s) \<Rightarrow>
      case ensure_open s of
        Inl e \<Rightarrow> (Inl e, fa_record ''steer_or_follow_up'' a, s)
      | Inr _ \<Rightarrow>
          (case operation_with_id operation_id (steering_action mode) ''GUI supplied additional fake input'' s of
             (operation, s1) \<Rightarrow> (Inr operation, fa_record ''steer_or_follow_up'' a, s1)))"

definition fa_interrupt ::
  "request_id \<Rightarrow> adapter_and_session \<Rightarrow> (adapter_error + adapter_operation) \<times> adapter_and_session" where
  "fa_interrupt operation_id as =
     (case as of (a, s) \<Rightarrow>
      case ensure_open s of
        Inl e \<Rightarrow> (Inl e, fa_record ''interrupt'' a, s)
      | Inr _ \<Rightarrow>
          (case operation_with_id operation_id ''turn.interrupt(...)'' ''GUI interrupted the fake turn'' s of
             (operation, s1) \<Rightarrow> (Inr operation, fa_record ''interrupt'' a, s1)))"

fun permission_decision_summary :: "adapter_permission_decision \<Rightarrow> string" where
  "permission_decision_summary AllowOnce = ''GUI allowed one fake permission request''"
| "permission_decision_summary AllowForSession = ''GUI allowed a fake permission for this session''"
| "permission_decision_summary DenyOnce = ''GUI denied one fake permission request''"
| "permission_decision_summary CancelRequest = ''GUI cancelled one fake permission request''"
| "permission_decision_summary (VendorSpecific _ _) = ''GUI returned a vendor-specific fake permission decision''"

definition resolve_permission ::
  "request_id \<Rightarrow> permission_resolution \<Rightarrow> adapter_and_session \<Rightarrow> (adapter_error + adapter_operation) \<times> adapter_and_session" where
  "resolve_permission operation_id resolution as =
     (case as of (a0, s) \<Rightarrow>
      let a = fa_record ''resolve_permission'' a0 in
      case ensure_open s of
        Inl e \<Rightarrow> (Inl e, a, s)
      | Inr _ \<Rightarrow>
          (case claim_and_confirm ''the permission request is not active'' (px_context resolution)
                  (fs_current_time_milliseconds s) (fs_permission_requests s) of
             (Inl e, requests) \<Rightarrow> (Inl e, a, s\<lparr>fs_permission_requests := requests\<rparr>)
           | (Inr _, requests) \<Rightarrow>
               (case operation_with_id operation_id ''permission.resolve(...)''
                       (permission_decision_summary (px_decision resolution)) (s\<lparr>fs_permission_requests := requests\<rparr>) of
                  (operation, s1) \<Rightarrow> (Inr operation, a, s1))))"

text \<open>The scan of the answers stops at the first that is blank, unexpected or repeated.\<close>

fun answers_invalid :: "string set \<Rightarrow> string set \<Rightarrow> user_input_answer list \<Rightarrow> bool" where
  "answers_invalid expected seen [] = False"
| "answers_invalid expected seen (x # xs) =
     (blank (ua_question_id x) \<or> ua_question_id x \<notin> expected \<or> ua_question_id x \<in> seen \<or>
      answers_invalid expected (insert (ua_question_id x) seen) xs)"

definition fa_respond_user_input ::
  "request_id \<Rightarrow> user_input_response \<Rightarrow> adapter_and_session \<Rightarrow> (adapter_error + adapter_operation) \<times> adapter_and_session" where
  "fa_respond_user_input operation_id response as =
     (case as of (a0, s) \<Rightarrow>
      let a = fa_record ''respond_user_input'' a0 in
      case ensure_open s of
        Inl e \<Rightarrow> (Inl e, a, s)
      | Inr _ \<Rightarrow>
          if answers_invalid (fs_expected_user_input_questions s) {} (ur_answers response)
          then (Inl (with_retry_safety (adapter_error_new KindInvalidRequest
                  ''user-input answers must use unique expected question identifiers'') RetrySafe), a, s)
          else (case claim_and_confirm ''the user-input request is not active'' (ur_context response)
                       (fs_current_time_milliseconds s) (fs_user_input_requests s) of
                  (Inl e, requests) \<Rightarrow> (Inl e, a, s\<lparr>fs_user_input_requests := requests\<rparr>)
                | (Inr _, requests) \<Rightarrow>
                    (case operation_with_id operation_id ''user_input.respond(...)''
                            ''GUI returned redacted keyed fake answers'' (s\<lparr>fs_user_input_requests := requests\<rparr>) of
                       (operation, s1) \<Rightarrow> (Inr operation, a, s1))))"

definition invoke_feature ::
  "feature_invocation \<Rightarrow> adapter_and_session \<Rightarrow> (adapter_error + feature_result) \<times> adapter_and_session" where
  "invoke_feature invocation as =
     (case as of (a0, s) \<Rightarrow>
      let a = fa_record ''invoke_feature'' a0 in
      case ensure_open s of
        Inl e \<Rightarrow> (Inl e, a, s)
      | Inr _ \<Rightarrow>
          if fi_feature_id invocation \<notin> fs_invokable_session_features s
          then (Inl (adapter_error_new KindUnsupportedCapability
                  ''the requested feature is not an invokable session fake capability''), a, s)
          else (case operation_with_id (fi_operation_id invocation) ''feature.invoke(...)''
                       ''GUI invoked a fake adapter feature'' s of
                  (_, s1) \<Rightarrow>
                    (Inr (feature_result_redacted (fi_operation_id invocation) (fi_feature_id invocation)
                       (Object [(''status'', String ''ok'')])), a, s1)))"

definition next_event :: "adapter_and_session \<Rightarrow> adapter_event option \<times> adapter_and_session" where
  "next_event as =
     (case as of (a, s) \<Rightarrow>
      (case fs_events s of
         [] \<Rightarrow> (None, fa_record ''next_event'' a, s)
       | e # es \<Rightarrow> (Some e, fa_record ''next_event'' a, s\<lparr>fs_events := es\<rparr>)))"

definition fa_stop_run :: "run_stop_reason \<Rightarrow> adapter_and_session \<Rightarrow> adapter_and_session" where
  "fa_stop_run reason as =
     (case as of (a, s) \<Rightarrow>
      (release_binding_claim (fs_binding_key s) (fs_run_id s) (fa_record ''stop_run'' a),
       if fs_stopped s then s
       else fs_push None (Lifecycle SignalStopped ''fake adapter process run stopped'') (s\<lparr>fs_stopped := True\<rparr>)))"

definition drop_session :: "adapter_and_session \<Rightarrow> fake_adapter" where
  "drop_session as = (case as of (a, s) \<Rightarrow> release_binding_claim (fs_binding_key s) (fs_run_id s) a)"

section \<open>Sequences of operations\<close>

text \<open>
  What the clients of one adapter do, in any order: opening sessions and terminals, the operations of
  their sessions, stopping and dropping them.
\<close>

datatype session_op =
    OpSendTurn request_id "input_item list"
  | OpSteer request_id steering_mode "input_item list"
  | OpInterrupt request_id
  | OpResolvePermission request_id permission_resolution
  | OpRespondUserInput request_id user_input_response
  | OpInvokeFeature feature_invocation
  | OpNextEvent
  | OpStopRun run_stop_reason

fun session_exec :: "session_op \<Rightarrow> adapter_and_session \<Rightarrow> adapter_and_session" where
  "session_exec (OpSendTurn i input) as = snd (send_turn i input as)"
| "session_exec (OpSteer i mode input) as = snd (steer_or_follow_up i mode input as)"
| "session_exec (OpInterrupt i) as = snd (fa_interrupt i as)"
| "session_exec (OpResolvePermission i resolution) as = snd (resolve_permission i resolution as)"
| "session_exec (OpRespondUserInput i response) as = snd (fa_respond_user_input i response as)"
| "session_exec (OpInvokeFeature invocation) as = snd (invoke_feature invocation as)"
| "session_exec OpNextEvent as = snd (next_event as)"
| "session_exec (OpStopRun reason) as = fa_stop_run reason as"

datatype adapter_op =
    OpStart start_session_request
  | OpResume resume_session_request
  | OpLaunchTui tui_launch_request
  | OpSession session_op fake_session_state
  | OpDropSession fake_session_state
  | OpDropLease fake_binding_lease

fun adapter_exec :: "(uuid \<Rightarrow> string) \<Rightarrow> adapter_op \<Rightarrow> fake_adapter \<Rightarrow> fake_adapter" where
  "adapter_exec id_text (OpStart request) a = snd (start_session id_text request a)"
| "adapter_exec id_text (OpResume request) a = snd (resume_session request a)"
| "adapter_exec id_text (OpLaunchTui request) a = snd (launch_tui request a)"
| "adapter_exec id_text (OpSession op s) a = fst (session_exec op (a, s))"
| "adapter_exec id_text (OpDropSession s) a = drop_session (a, s)"
| "adapter_exec id_text (OpDropLease l) a = drop_binding_lease l a"

text \<open>The claim an operation gives up, if it gives one up.\<close>

fun gives_up :: "adapter_op \<Rightarrow> (string \<times> run_id) option" where
  "gives_up (OpSession (OpStopRun _) s) = Some (fs_binding_key s, fs_run_id s)"
| "gives_up (OpDropSession s) = Some (fs_binding_key s, fs_run_id s)"
| "gives_up (OpDropLease l) = Some (bl_binding_key l, bl_run_id l)"
| "gives_up _ = None"

interpretation adapter_claims:
  writer_table fa_binding_claims "\<lambda>_. True" id fa_claim_binding release_binding_claim
  by unfold_locales (auto simp: fa_claim_binding_def release_binding_claim_def)

section \<open>One writer per binding\<close>

lemma claims_fa_record [simp]: "fa_binding_claims (fa_record x a) = fa_binding_claims a"
  by (simp add: fa_record_def)

text \<open>Every operation is, for the table of claims, a claim, a release, or nothing.\<close>

lemma fa_session_claims:
  "fa_binding_claims (snd (fa_session request binding resumed a)) \<in>
   {fa_binding_claims a,
    fa_binding_claims (lease_exec fa_claim_binding release_binding_claim
      (Claim (vb_vendor_session_id binding) (ss_run_id request)) a)}"
  by (auto simp: fa_session_def split: sum.splits prod.splits)

lemma launch_tui_claims:
  "fa_binding_claims (snd (launch_tui request a)) \<in>
   insert (fa_binding_claims a)
     {fa_binding_claims (lease_exec fa_claim_binding release_binding_claim
        (Claim (vb_vendor_session_id binding) (ss_run_id (tl_start request))) (fa_record ''launch_tui'' a)) |binding.
      tl_binding request = Some binding}"
  by (auto simp: launch_tui_def Let_def split: option.splits sum.splits prod.splits)

lemma session_exec_claims:
  "fa_binding_claims (fst (session_exec op (a, s))) =
   (case op of OpStopRun _ \<Rightarrow> fa_binding_claims (release_binding_claim (fs_binding_key s) (fs_run_id s) a)
    | _ \<Rightarrow> fa_binding_claims a)"
  by (cases op)
    (auto simp: send_turn_def steer_or_follow_up_def fa_interrupt_def resolve_permission_def
      fa_respond_user_input_def invoke_feature_def next_event_def fa_stop_run_def Let_def
      adapter_claims.release_owner split: sum.splits prod.splits list.splits)

lemma adapter_exec_keeps_claim:
  assumes "fa_binding_claims a key = Some run" "gives_up op \<noteq> Some (key, run)"
  shows "fa_binding_claims (adapter_exec id_text op a) key = Some run"
proof -
  have claim: "fa_binding_claims (lease_exec fa_claim_binding release_binding_claim (Claim k r) b) key = Some run"
    if "fa_binding_claims b = fa_binding_claims a" for k r b
    using adapter_claims.exec_keeps_owner [of b key run "Claim k r"] that assms(1) by simp
  have kept: "fa_binding_claims (snd (fa_session request binding resumed (fa_record x a))) key = Some run"
    for request binding resumed x
    using fa_session_claims [of request binding resumed "fa_record x a"] claim [of "fa_record x a"] assms(1)
    by (metis claims_fa_record insertE singletonD)
  have tui: "fa_binding_claims (snd (launch_tui request a)) key = Some run" for request
    using launch_tui_claims [of request a] claim [of "fa_record ''launch_tui'' a"] assms(1) by auto
  show ?thesis
    using assms by (cases op)
      (auto simp: start_session_def resume_session_def kept tui session_exec_claims drop_session_def
        drop_binding_lease_def adapter_claims.release_owner split: session_op.splits)
qed

lemma adapter_run_keeps_claim:
  "fa_binding_claims a key = Some run \<Longrightarrow> \<forall>op \<in> set ops. gives_up op \<noteq> Some (key, run) \<Longrightarrow>
   fa_binding_claims (fold (adapter_exec id_text) ops a) key = Some run"
  by (induction ops arbitrary: a) (auto simp: adapter_exec_keeps_claim)

text \<open>What an opened session holds.\<close>

lemma fa_session_ok:
  assumes "fa_session request binding resumed a = (Inr s, a')"
  shows "fa_binding_claims a' (vb_vendor_session_id binding) = Some (ss_run_id request)"
    and "fs_binding_key s = vb_vendor_session_id binding" "fs_run_id s = ss_run_id request"
    and "vb_agent_kind binding = Fake" "\<not> blank (vb_vendor_session_id binding)"
  using assms by (auto simp: fa_session_def fs_push_def fa_claim_binding_def split: if_splits sum.splits prod.splits)

definition binding_in_use :: adapter_error where
  "binding_in_use =
     with_retry_safety (adapter_error_new BindingInUse ''the vendor binding already has an active writer'') RetrySafe"

lemma fa_session_refused:
  assumes "ss_integration_mode request = StructuredMode" "vb_agent_kind binding = Fake"
    "\<not> blank (vb_vendor_session_id binding)"
  shows "fa_binding_claims a (vb_vendor_session_id binding) \<noteq> None \<Longrightarrow>
      fa_session request binding resumed a = (Inl binding_in_use, a)"
    and "fa_binding_claims a (vb_vendor_session_id binding) = None \<Longrightarrow>
      \<exists>s a'. fa_session request binding resumed a = (Inr s, a')"
  using assms by (auto simp: fa_session_def fa_claim_binding_def binding_in_use_def)

lemma launch_tui_refused:
  assumes "ss_integration_mode (tl_start request) = PtyTui" "tl_binding request = Some binding"
    "vb_agent_kind binding = Fake" "\<not> blank (vb_vendor_session_id binding)"
    "fa_binding_claims a (vb_vendor_session_id binding) \<noteq> None"
  shows "launch_tui request a = (Inl binding_in_use, fa_record ''launch_tui'' a)"
  using assms by (auto simp: launch_tui_def fa_claim_binding_def binding_in_use_def Let_def)

text \<open>
  C21. One writer per vendor binding. When a session was resumed on a binding, then until its own run
  gives the claim up, whatever sessions and terminals are opened, used, stopped or dropped, every
  further attempt to resume the binding in structured mode or to open it in an exact terminal is
  refused with a retry-safe \<open>BindingInUse\<close> and claims nothing; once the session is stopped, the
  binding can be resumed again.
\<close>

theorem adapter_binding_single_writer:
  assumes opened: "resume_session request a = (Inr s, a1)"
    and kept: "\<forall>op \<in> set ops. gives_up op \<noteq> Some (vb_vendor_session_id (rs_binding request), ss_run_id (rs_start request))"
    and structured: "ss_integration_mode (rs_start again) = StructuredMode" "rs_binding again = rs_binding request"
    and tui: "ss_integration_mode (tl_start terminal) = PtyTui" "tl_binding terminal = Some (rs_binding request)"
    and after: "b = fold (adapter_exec id_text) ops a1"
  shows "resume_session again b = (Inl binding_in_use, fa_record ''resume_session'' b) \<and>
         launch_tui terminal b = (Inl binding_in_use, fa_record ''launch_tui'' b) \<and>
         (\<exists>s' a2. resume_session again (fst (fa_stop_run reason (b, s))) = (Inr s', a2))"
proof -
  note ok = fa_session_ok [OF opened [unfolded resume_session_def]]
  have held: "fa_binding_claims b (vb_vendor_session_id (rs_binding request)) = Some (ss_run_id (rs_start request))"
    unfolding after by (rule adapter_run_keeps_claim [OF ok(1) kept])
  have resumed: "resume_session again b = (Inl binding_in_use, fa_record ''resume_session'' b)"
    unfolding resume_session_def using held structured ok(4,5) by (simp add: fa_session_refused)
  have launched: "launch_tui terminal b = (Inl binding_in_use, fa_record ''launch_tui'' b)"
    using launch_tui_refused [OF tui ok(4,5)] held by simp
  have "fa_binding_claims (fst (fa_stop_run reason (b, s))) (vb_vendor_session_id (rs_binding request)) = None"
    using held ok(2,3) session_exec_claims [of "OpStopRun reason" b s] by (simp add: adapter_claims.release_owner)
  then have "\<exists>s' a2. resume_session again (fst (fa_stop_run reason (b, s))) = (Inr s', a2)"
    unfolding resume_session_def structured(2)
    by (intro fa_session_refused(2)) (use structured ok(4,5) in simp_all)
  with resumed launched show ?thesis by simp
qed

text \<open>Two runs of one session, a terminal on its binding, and a turn, a read and a foreign stop in between.\<close>

definition sample_start :: "integration_mode \<Rightarrow> uuid \<Rightarrow> start_session_request" where
  "sample_start mode run =
     \<lparr>ss_session_id = SessionId 1, ss_run_id = RunId run, ss_project_id = ProjectId 1,
      ss_executable = ''/bin/fake'', ss_working_directory = ''/work'', ss_integration_mode = mode,
      ss_options = session_options_default, ss_capture_raw_protocol = False\<rparr>"

definition sample_binding :: vendor_binding where
  "sample_binding = \<lparr>vb_agent_kind = Fake, vb_vendor_session_id = ''fake-1''\<rparr>"

definition sample_resume :: "uuid \<Rightarrow> resume_session_request" where
  "sample_resume run = \<lparr>rs_start = sample_start StructuredMode run, rs_binding = sample_binding\<rparr>"

definition sample_tui :: tui_launch_request where
  "sample_tui = \<lparr>tl_start = sample_start PtyTui 3, tl_binding = Some sample_binding\<rparr>"

definition sample_opened :: "(adapter_error + fake_session_state) \<times> fake_adapter" where
  "sample_opened = resume_session (sample_resume 1) fake_adapter_new"

lemmas sample_defs =
  sample_start_def sample_binding_def sample_resume_def sample_tui_def sample_opened_def
  resume_session_def fa_session_def fa_claim_binding_def fake_adapter_new_def fa_record_def blank_def is_trim_whitespace_def

definition sample_ops :: "adapter_op list" where
  "sample_ops =
     [OpSession (OpSendTurn (RequestId 1) [TextItem ''hi'']) (projr (fst sample_opened)),
      OpSession OpNextEvent (projr (fst sample_opened)),
      OpDropLease \<lparr>bl_binding_key = ''fake-1'', bl_run_id = RunId 2\<rparr>]"

theorem adapter_binding_single_writer_witness:
  "let b = fold (adapter_exec (\<lambda>_. ''1'')) sample_ops (snd sample_opened) in
   resume_session (sample_resume 2) b = (Inl binding_in_use, fa_record ''resume_session'' b) \<and>
   launch_tui sample_tui b = (Inl binding_in_use, fa_record ''launch_tui'' b) \<and>
   (\<exists>s' a2. resume_session (sample_resume 2) (fst (fa_stop_run UserRequested (b, projr (fst sample_opened)))) = (Inr s', a2))"
proof -
  have opened: "resume_session (sample_resume 1) fake_adapter_new = (Inr (projr (fst sample_opened)), snd sample_opened)"
    by (simp add: sample_defs)
  show ?thesis
    unfolding Let_def
    by (rule adapter_binding_single_writer [OF opened _ _ _ _ _ refl]) (simp_all add: sample_defs sample_ops_def)
qed

section \<open>Single use of requests\<close>

text \<open>A request of a table that was answered or has expired.\<close>

definition request_resolved :: "(string \<rightharpoonup> pending_delivery) \<Rightarrow> string \<Rightarrow> bool" where
  "request_resolved requests k \<longleftrightarrow> (case requests k of Some p \<Rightarrow> pd_state p = Resolved | None \<Rightarrow> False)"

lemma claim_and_confirm_ok:
  "claim_and_confirm message context now requests = (Inr u, requests') \<Longrightarrow>
   request_resolved requests' (vr_vendor_request_id context)"
  by (auto simp: claim_and_confirm_def request_resolved_def confirm_delivery_def split: option.splits sum.splits prod.splits)

lemma claim_and_confirm_keeps:
  "claim_and_confirm message context now requests = (r, requests') \<Longrightarrow> request_resolved requests k \<Longrightarrow>
   request_resolved requests' k"
  by (auto simp: claim_and_confirm_def request_resolved_def confirm_delivery_def pd_claim_def
      split: option.splits sum.splits prod.splits if_splits delivery_state.splits)

lemma claim_and_confirm_refused:
  "request_resolved requests (vr_vendor_request_id context) \<Longrightarrow>
   \<exists>e requests'. claim_and_confirm message context now requests = (Inl e, requests') \<and> aer_kind e = RequestNotActive"
  by (auto simp: claim_and_confirm_def request_resolved_def pd_claim_def with_retry_safety_def adapter_error_new_def
      split: option.splits sum.splits prod.splits if_splits delivery_state.splits)

lemmas session_op_defs =
  send_turn_def steer_or_follow_up_def fa_interrupt_def resolve_permission_def fa_respond_user_input_def
  invoke_feature_def next_event_def fa_stop_run_def operation_with_id_def fs_push_def Let_def

lemma session_exec_keeps_resolved:
  assumes "session_exec op (a, s) = (a', s')"
  shows "request_resolved (fs_permission_requests s) k \<Longrightarrow> request_resolved (fs_permission_requests s') k"
    and "request_resolved (fs_user_input_requests s) k \<Longrightarrow> request_resolved (fs_user_input_requests s') k"
  using assms
  by (cases op; auto simp: session_op_defs dest: claim_and_confirm_keeps
      split: sum.splits prod.splits list.splits if_splits)+

lemma session_run_keeps_resolved:
  "fold session_exec ops (a, s) = (a', s') \<Longrightarrow>
   (request_resolved (fs_permission_requests s) k \<longrightarrow> request_resolved (fs_permission_requests s') k) \<and>
   (request_resolved (fs_user_input_requests s) k \<longrightarrow> request_resolved (fs_user_input_requests s') k)"
proof (induction ops arbitrary: a s)
  case (Cons op ops)
  obtain a1 s1 where step: "session_exec op (a, s) = (a1, s1)" by (cases "session_exec op (a, s)")
  with Cons.prems have "fold session_exec ops (a1, s1) = (a', s')" by simp
  from Cons.IH [OF this] session_exec_keeps_resolved [OF step, of k] show ?case by blast
qed simp

lemma resolve_permission_refused:
  assumes "request_resolved (fs_permission_requests s) (vr_vendor_request_id (px_context resolution))"
  shows "\<exists>e b t. resolve_permission i resolution (a, s) = (Inl e, b, t) \<and>
    aer_kind e = (if fs_stopped s then Closed else RequestNotActive) \<and> fs_events t = fs_events s"
proof -
  obtain e requests where "claim_and_confirm ''the permission request is not active'' (px_context resolution)
      (fs_current_time_milliseconds s) (fs_permission_requests s) = (Inl e, requests)" "aer_kind e = RequestNotActive"
    using claim_and_confirm_refused [OF assms] by blast
  then show ?thesis by (simp add: resolve_permission_def ensure_open_def adapter_error_new_def)
qed

lemma respond_user_input_refused:
  assumes "request_resolved (fs_user_input_requests s) (vr_vendor_request_id (ur_context response))"
  shows "\<exists>e b t. fa_respond_user_input i response (a, s) = (Inl e, b, t) \<and>
    aer_kind e = (if fs_stopped s then Closed
      else if answers_invalid (fs_expected_user_input_questions s) {} (ur_answers response) then KindInvalidRequest
      else RequestNotActive) \<and> fs_events t = fs_events s"
proof -
  obtain e requests where "claim_and_confirm ''the user-input request is not active'' (ur_context response)
      (fs_current_time_milliseconds s) (fs_user_input_requests s) = (Inl e, requests)" "aer_kind e = RequestNotActive"
    using claim_and_confirm_refused [OF assms] by blast
  then show ?thesis
    by (simp add: fa_respond_user_input_def ensure_open_def adapter_error_new_def with_retry_safety_def)
qed

text \<open>Requests are single use. After a permission was resolved, or a user input answered, for a
  request of the vendor, no sequence of operations on the session makes the request answerable
  again: a further answer, with any decision and any context that names it, is refused as not
  active, as closed when the session was stopped, or for its malformed answers, and the session
  reports no further event for it.
\<close>

theorem adapter_request_single_use:
  assumes run: "(a2, s2) = fold session_exec ops (a1, s1)"
  shows "(resolve_permission i resolution (a, s) = (Inr operation, a1, s1) \<and>
          vr_vendor_request_id (px_context resolution') = vr_vendor_request_id (px_context resolution) \<longrightarrow>
          (\<exists>e b t. resolve_permission i' resolution' (a2, s2) = (Inl e, b, t) \<and>
             aer_kind e = (if fs_stopped s2 then Closed else RequestNotActive) \<and> fs_events t = fs_events s2)) \<and>
         (fa_respond_user_input i response (a, s) = (Inr operation, a1, s1) \<and>
          vr_vendor_request_id (ur_context response') = vr_vendor_request_id (ur_context response) \<longrightarrow>
          (\<exists>e b t. fa_respond_user_input i' response' (a2, s2) = (Inl e, b, t) \<and>
             aer_kind e = (if fs_stopped s2 then Closed
               else if answers_invalid (fs_expected_user_input_questions s2) {} (ur_answers response') then KindInvalidRequest
               else RequestNotActive) \<and> fs_events t = fs_events s2))"
proof (intro conjI impI; elim conjE)
  assume "resolve_permission i resolution (a, s) = (Inr operation, a1, s1)"
    and again: "vr_vendor_request_id (px_context resolution') = vr_vendor_request_id (px_context resolution)"
  then have "request_resolved (fs_permission_requests s1) (vr_vendor_request_id (px_context resolution))"
    by (auto simp: resolve_permission_def operation_with_id_def fs_push_def Let_def
        dest: claim_and_confirm_ok split: sum.splits prod.splits)
  with session_run_keeps_resolved [OF run [symmetric]] again
  have "request_resolved (fs_permission_requests s2) (vr_vendor_request_id (px_context resolution'))" by metis
  from resolve_permission_refused [OF this]
  show "\<exists>e b t. resolve_permission i' resolution' (a2, s2) = (Inl e, b, t) \<and>
      aer_kind e = (if fs_stopped s2 then Closed else RequestNotActive) \<and> fs_events t = fs_events s2" .
next
  assume "fa_respond_user_input i response (a, s) = (Inr operation, a1, s1)"
    and again: "vr_vendor_request_id (ur_context response') = vr_vendor_request_id (ur_context response)"
  then have "request_resolved (fs_user_input_requests s1) (vr_vendor_request_id (ur_context response))"
    by (auto simp: fa_respond_user_input_def operation_with_id_def fs_push_def Let_def
        dest: claim_and_confirm_ok split: sum.splits prod.splits if_splits)
  with session_run_keeps_resolved [OF run [symmetric]] again
  have "request_resolved (fs_user_input_requests s2) (vr_vendor_request_id (ur_context response'))" by metis
  from respond_user_input_refused [OF this]
  show "\<exists>e b t. fa_respond_user_input i' response' (a2, s2) = (Inl e, b, t) \<and>
      aer_kind e = (if fs_stopped s2 then Closed
        else if answers_invalid (fs_expected_user_input_questions s2) {} (ur_answers response') then KindInvalidRequest
        else RequestNotActive) \<and> fs_events t = fs_events s2" .
qed

definition sample_session :: adapter_and_session where
  "sample_session = (snd sample_opened, projr (fst sample_opened))"

definition sample_resolution :: permission_resolution where
  "sample_resolution =
     \<lparr>px_context = request_context (SessionId 1) (RunId 1) PERMISSION_REQUEST_ID, px_decision = AllowOnce\<rparr>"

definition sample_response :: user_input_response where
  "sample_response =
     \<lparr>ur_context = request_context (SessionId 1) (RunId 1) USER_INPUT_REQUEST_ID,
      ur_answers = [\<lparr>ua_question_id = ''choice'', ua_values = [''yes'']\<rparr>]\<rparr>"

lemmas sample_request_defs =
  sample_session_def sample_resolution_def sample_response_def sample_defs ensure_open_def claim_and_confirm_def
  pd_claim_def confirm_delivery_def pending_delivery_new_def request_context_def PERMISSION_REQUEST_ID_def USER_INPUT_REQUEST_ID_def
  FAKE_CLOCK_MILLISECONDS_def FAKE_REQUEST_EXPIRY_MILLISECONDS_def session_op_defs

text \<open>The permission is resolved, a turn is sent, the input is answered, and both are tried again.\<close>

theorem adapter_request_single_use_witness:
  "(\<exists>e t. resolve_permission (RequestId 4) sample_resolution
      (fold session_exec [OpSendTurn (RequestId 2) [], OpResolvePermission (RequestId 3) sample_resolution]
        (snd (resolve_permission (RequestId 1) sample_resolution sample_session))) = (Inl e, t) \<and>
      aer_kind e = RequestNotActive) \<and>
   (\<exists>e t. fa_respond_user_input (RequestId 4) sample_response
      (fold session_exec [OpStopRun UserRequested]
        (snd (fa_respond_user_input (RequestId 1) sample_response sample_session))) = (Inl e, t) \<and>
      aer_kind e = Closed)"
    (is "(\<exists>e t. resolve_permission _ _ ?p = _ \<and> _) \<and> (\<exists>e t. fa_respond_user_input _ _ ?u = _ \<and> _)")
proof -
  let ?P = "snd (resolve_permission (RequestId 1) sample_resolution sample_session)"
  let ?U = "snd (fa_respond_user_input (RequestId 1) sample_response sample_session)"
  have run: "(fst ?p, snd ?p) = fold session_exec
      [OpSendTurn (RequestId 2) [], OpResolvePermission (RequestId 3) sample_resolution] (fst ?P, snd ?P)"
    "(fst ?u, snd ?u) = fold session_exec [OpStopRun UserRequested] (fst ?U, snd ?U)" by simp_all
  have "resolve_permission (RequestId 1) sample_resolution (fst sample_session, snd sample_session) =
      (Inr \<lparr>aop_operation_id = RequestId 1\<rparr>, fst ?P, snd ?P)" "\<not> fs_stopped (snd ?p)"
    by (simp_all add: sample_request_defs)
  moreover have "fa_respond_user_input (RequestId 1) sample_response (fst sample_session, snd sample_session) =
      (Inr \<lparr>aop_operation_id = RequestId 1\<rparr>, fst ?U, snd ?U)" "fs_stopped (snd ?u)"
    by (simp_all add: sample_request_defs)
  ultimately show ?thesis
    using adapter_request_single_use [OF run(1), of "RequestId 1" sample_resolution "fst sample_session"
        "snd sample_session" "\<lparr>aop_operation_id = RequestId 1\<rparr>" sample_resolution "RequestId 4" sample_response sample_response]
      adapter_request_single_use [OF run(2), of "RequestId 1" sample_resolution "fst sample_session"
        "snd sample_session" "\<lparr>aop_operation_id = RequestId 1\<rparr>" sample_resolution "RequestId 4" sample_response sample_response]
    by auto
qed

end
