(* ===== verification/File_System.thy ===== *)
theory File_System
  imports Maestro_Prelude
begin

text \<open>
  The Unix file system as the project services see it. Nodes are numbered; a directory maps names to
  nodes, so a file can have several names and an open descriptor stays with its node when the name
  moves. Every system call is a step of the world: before the call, other processes may have changed
  the file system (\<open>k_env\<close>), and the call may fail for a reason of its own (\<open>k_fault\<close>). Both are
  functions of the number of calls made so far, hence arbitrary.
\<close>

section \<open>Nodes\<close>

type_synonym inode = nat

datatype node = Dir u32 "string \<rightharpoonup> inode" | Reg u32 int bytes | Link path | Special

type_synonym file_system = "inode \<rightharpoonup> node"

text \<open>The directory \<open>''/''\<close>.\<close>

definition root_inode :: inode where "root_inode = 0"

datatype errno = ELOOP | ENOTDIR | ENOENT | EEXIST | OtherErrno nat

definition child :: "file_system \<Rightarrow> inode \<Rightarrow> string \<Rightarrow> errno + inode" where
  "child fs d name =
     (case fs d of
        Some (Dir _ entries) \<Rightarrow> (case entries name of Some i \<Rightarrow> Inr i | None \<Rightarrow> Inl ENOENT)
      | _ \<Rightarrow> Inl ENOTDIR)"

text \<open>Walking down names from a node, without following links.\<close>

fun descend :: "file_system \<Rightarrow> inode \<Rightarrow> string list \<Rightarrow> errno + inode" where
  "descend fs d [] = Inr d"
| "descend fs d (name # names) = and_then (child fs d name) (\<lambda>i. descend fs i names)"

lemma descend_append: "descend fs d (xs @ ys) = and_then (descend fs d xs) (\<lambda>i. descend fs i ys)"
proof (induction xs arbitrary: d)
  case (Cons x xs)
  then show ?case by (cases "child fs d x") auto
qed simp

text \<open>
  \<^verbatim>\<open>realpath\<close>: the names of the resolved path below the root. At most \<open>fuel\<close> links are followed;
  the kernel gives up after 40.
\<close>

definition MAX_LINKS :: nat where "MAX_LINKS = 40"

function resolve :: "nat \<Rightarrow> file_system \<Rightarrow> string list \<Rightarrow> path \<Rightarrow> errno + string list" where
  "resolve fuel fs here [] = Inr here"
| "resolve fuel fs here (c # cs) =
     (if c = ''/'' then resolve fuel fs [] cs
      else if c = ''.'' then resolve fuel fs here cs
      else if c = ''..'' then resolve fuel fs (butlast here) cs
      else (case descend fs root_inode (here @ [c]) of
              Inl e \<Rightarrow> Inl e
            | Inr i \<Rightarrow>
                (case fs i of
                   None \<Rightarrow> Inl ENOENT
                 | Some (Link target) \<Rightarrow>
                     (case fuel of 0 \<Rightarrow> Inl ELOOP | Suc n \<Rightarrow> resolve n fs here (target @ cs))
                 | _ \<Rightarrow> resolve fuel fs (here @ [c]) cs)))"
  by pat_completeness auto
termination
  by (relation "measures [\<lambda>(fuel, fs, here, cs). fuel, \<lambda>(fuel, fs, here, cs). length cs]") auto

section \<open>Metadata\<close>

datatype node_kind = IsDir | IsFile | IsSymlink | IsOther

record metadata =
  md_ino :: inode
  md_kind :: node_kind
  md_mode :: u32
  md_len :: nat
  md_mtime :: int

fun node_kind_of :: "node \<Rightarrow> node_kind" where
  "node_kind_of (Dir _ _) = IsDir"
| "node_kind_of (Reg _ _ _) = IsFile"
| "node_kind_of (Link _) = IsSymlink"
| "node_kind_of Special = IsOther"

fun metadata_of :: "inode \<Rightarrow> node \<Rightarrow> metadata" where
  "metadata_of i (Reg mode mtime content) =
     \<lparr>md_ino = i, md_kind = IsFile, md_mode = mode, md_len = length content, md_mtime = mtime\<rparr>"
| "metadata_of i (Dir mode entries) = \<lparr>md_ino = i, md_kind = IsDir, md_mode = mode, md_len = 0, md_mtime = 0\<rparr>"
| "metadata_of i n = \<lparr>md_ino = i, md_kind = node_kind_of n, md_mode = 511, md_len = 0, md_mtime = 0\<rparr>"

section \<open>System calls\<close>

record world =
  w_fs :: file_system
  w_calls :: nat

record kernel =
  k_env :: "nat \<Rightarrow> file_system \<Rightarrow> file_system"
  k_fault :: "nat \<Rightarrow> errno option"
  k_link_errno :: errno
  k_chunk :: "nat \<Rightarrow> nat"
  k_fresh :: "file_system \<Rightarrow> inode"
  k_now :: "nat \<Rightarrow> int"

text \<open>
  One call: other processes act, then the call fails or does \<open>f\<close> to the file system. A call that
  fails by a fault has no effect.
\<close>

definition syscall :: "kernel \<Rightarrow> (file_system \<Rightarrow> (errno + 'a) \<times> file_system) \<Rightarrow> world \<Rightarrow> (errno + 'a) \<times> world" where
  "syscall k f w =
     (let fs = k_env k (w_calls w) (w_fs w) in
      case k_fault k (w_calls w) of
        Some e \<Rightarrow> (Inl e, \<lparr>w_fs = fs, w_calls = Suc (w_calls w)\<rparr>)
      | None \<Rightarrow> (case f fs of (r, fs') \<Rightarrow> (r, \<lparr>w_fs = fs', w_calls = Suc (w_calls w)\<rparr>)))"

definition query :: "(file_system \<Rightarrow> errno + 'a) \<Rightarrow> file_system \<Rightarrow> (errno + 'a) \<times> file_system" where
  "query f fs = (f fs, fs)"

text \<open>Sequencing: the first error ends a computation.\<close>

definition io_bind :: "('w \<Rightarrow> ('e + 'a) \<times> 'w) \<Rightarrow> ('a \<Rightarrow> 'w \<Rightarrow> ('e + 'b) \<times> 'w) \<Rightarrow> 'w \<Rightarrow> ('e + 'b) \<times> 'w" where
  "io_bind m f w = (case m w of (Inl e, w') \<Rightarrow> (Inl e, w') | (Inr x, w') \<Rightarrow> f x w')"

definition io_return :: "'e + 'a \<Rightarrow> 'w \<Rightarrow> ('e + 'a) \<times> 'w" where
  "io_return r w = (r, w)"

definition io_map_err :: "('e \<Rightarrow> 'f) \<Rightarrow> ('w \<Rightarrow> ('e + 'a) \<times> 'w) \<Rightarrow> 'w \<Rightarrow> ('f + 'a) \<times> 'w" where
  "io_map_err f m w = (case m w of (r, w') \<Rightarrow> (map_err f r, w'))"

text \<open>
  \<^verbatim>\<open>openat\<close> with \<^verbatim>\<open>O_DIRECTORY | O_NOFOLLOW\<close>. For a link the kernel answers \<^verbatim>\<open>ELOOP\<close> or \<^verbatim>\<open>ENOTDIR\<close>,
  depending on the platform.
\<close>

definition open_dir_at :: "kernel \<Rightarrow> inode \<Rightarrow> string \<Rightarrow> world \<Rightarrow> (errno + inode) \<times> world" where
  "open_dir_at k d name =
     syscall k (query (\<lambda>fs.
       and_then (if name = ''.'' then Inr d else child fs d name) (\<lambda>i.
         case fs i of
           Some (Dir _ _) \<Rightarrow> Inr i
         | Some (Link _) \<Rightarrow> Inl (k_link_errno k)
         | Some _ \<Rightarrow> Inl ENOTDIR
         | None \<Rightarrow> Inl ENOENT)))"

text \<open>\<^verbatim>\<open>openat\<close> for reading with \<^verbatim>\<open>O_NOFOLLOW\<close>.\<close>

definition open_at :: "kernel \<Rightarrow> inode \<Rightarrow> string \<Rightarrow> world \<Rightarrow> (errno + inode) \<times> world" where
  "open_at k d name =
     syscall k (query (\<lambda>fs.
       and_then (child fs d name) (\<lambda>i.
         case fs i of
           Some (Link _) \<Rightarrow> Inl ELOOP
         | Some _ \<Rightarrow> Inr i
         | None \<Rightarrow> Inl ENOENT)))"

definition fstat :: "kernel \<Rightarrow> inode \<Rightarrow> world \<Rightarrow> (errno + metadata) \<times> world" where
  "fstat k i = syscall k (query (\<lambda>fs. case fs i of Some n \<Rightarrow> Inr (metadata_of i n) | None \<Rightarrow> Inl ENOENT))"

text \<open>One \<^verbatim>\<open>read\<close> of at most \<open>n\<close> bytes at an offset; the kernel may return fewer, but at least one if there is one.\<close>

definition read_at :: "kernel \<Rightarrow> inode \<Rightarrow> nat \<Rightarrow> nat \<Rightarrow> world \<Rightarrow> (errno + bytes) \<times> world" where
  "read_at k i off n w =
     syscall k (query (\<lambda>fs.
       case fs i of
         Some (Reg _ _ content) \<Rightarrow> Inr (take (min n (max 1 (k_chunk k (w_calls w)))) (drop off content))
       | _ \<Rightarrow> Inl ENOENT)) w"

text \<open>\<^verbatim>\<open>realpath\<close> of a path, and opening or examining the node of a path that has no links.\<close>

definition canonicalize :: "kernel \<Rightarrow> path \<Rightarrow> world \<Rightarrow> (errno + path) \<times> world" where
  "canonicalize k p =
     syscall k (query (\<lambda>fs. and_then (resolve MAX_LINKS fs [] p) (\<lambda>names. Inr (''/'' # names))))"

definition node_at :: "file_system \<Rightarrow> path \<Rightarrow> errno + inode" where
  "node_at fs p = and_then (resolve MAX_LINKS fs [] p) (descend fs root_inode)"

definition stat_path :: "kernel \<Rightarrow> path \<Rightarrow> world \<Rightarrow> (errno + metadata) \<times> world" where
  "stat_path k p =
     syscall k (query (\<lambda>fs. and_then (node_at fs p) (\<lambda>i. case fs i of Some n \<Rightarrow> Inr (metadata_of i n) | None \<Rightarrow> Inl ENOENT)))"

definition open_path :: "kernel \<Rightarrow> path \<Rightarrow> world \<Rightarrow> (errno + inode) \<times> world" where
  "open_path k p = syscall k (query (\<lambda>fs. node_at fs p))"

section \<open>Facts\<close>

lemma io_bind_Inr:
  "io_bind m f w = (Inr y, w') \<longleftrightarrow> (\<exists>x w1. m w = (Inr x, w1) \<and> f x w1 = (Inr y, w'))"
  by (auto simp: io_bind_def split: prod.splits sum.splits)

lemma io_map_err_Inr: "io_map_err f m w = (Inr y, w') \<longleftrightarrow> m w = (Inr y, w')"
  by (auto simp: io_map_err_def split: prod.splits)

lemma io_return_eq [simp]: "io_return r w = (r, w)"
  by (simp add: io_return_def)

lemma syscall_query_Inr:
  "syscall k (query f) w = (Inr x, w') \<Longrightarrow>
   w_fs w' = k_env k (w_calls w) (w_fs w) \<and> w_calls w' = Suc (w_calls w) \<and> f (w_fs w') = Inr x"
  by (auto simp: syscall_def query_def Let_def split: option.splits)

lemma resolve_has_no_links:
  "resolve fuel fs here cs = Inr names \<Longrightarrow> (\<exists>i. descend fs root_inode here = Inr i) \<Longrightarrow>
   \<exists>i. descend fs root_inode names = Inr i"
proof (induction fuel fs here cs rule: resolve.induct)
  case (2 fuel fs here c cs)
  have up: "\<exists>i. descend fs root_inode (butlast here) = Inr i"
    using "2.prems"(2) by (cases here rule: rev_cases) (auto simp: descend_append and_then_Inr_iff)
  show ?case
    using "2.prems" "2.IH" up by (auto split: if_splits sum.splits option.splits node.splits nat.splits)
qed simp

end
