(* ===== verification/Workspace_Roots.thy ===== *)
theory Workspace_Roots
  imports File_System "HOL-Library.List_Lexorder" "HOL-Library.Char_ord"
begin

text \<open>
  The authorization of project paths, \<^verbatim>\<open>crates/maestro-project/src/auth.rs\<close>: canonical,
  non-overlapping workspace roots held as open directories, lexical normalisation of a requested
  path, and opening a path below a root one component at a time without following links. The error
  kind of an I/O failure is the \<^typ>\<open>errno\<close> it is derived from.
\<close>

unbundle bit_operations_syntax

datatype project_error =
    EmptyRoots | RootNotAbsolute nat | RootUnavailable nat | RootNotDirectory nat | RootUnreadable nat
  | DuplicateRoot nat nat | NestedRoots nat nat | UnauthorizedPath | UnsafePath | NotDirectory
  | NotRegularFile | BinaryFile | InvalidUtf8 | FileTooLarge nat nat | FileChangedDuringRead | SaveConflict
  | InvalidLimit | InvalidRegex | GitUnavailable | NotGitRepository | GitFailed | GitOutputTooLarge
  | MalformedGitOutput | ProjectIo string errno

record root_capability =
  rc_requested :: path
  rc_canonical :: path
  rc_directory :: inode
  rc_input_index :: nat

type_synonym workspace_roots = "root_capability list"

section \<open>Normalisation\<close>

definition is_absolute :: "path \<Rightarrow> bool" where
  "is_absolute p \<longleftrightarrow> path_starts_with p [''/'']"

text \<open>
  \<^verbatim>\<open>PathBuf::push\<close> of an absolute path replaces; \<^verbatim>\<open>PathBuf::pop\<close> fails on the root and on the empty path.
\<close>

fun normalize_from :: "path \<Rightarrow> path \<Rightarrow> project_error + path" where
  "normalize_from normalized [] = (if is_absolute normalized then Inr normalized else Inl UnauthorizedPath)"
| "normalize_from normalized (c # cs) =
     (if c = ''/'' then normalize_from [''/''] cs
      else if c = ''.'' then normalize_from normalized cs
      else if c = ''..'' then
        (case path_parent normalized of
           None \<Rightarrow> Inl UnauthorizedPath
         | Some parent \<Rightarrow> normalize_from parent cs)
      else normalize_from (normalized @ [c]) cs)"

definition normalize_absolute :: "path \<Rightarrow> project_error + path" where
  "normalize_absolute p = normalize_from [] p"

section \<open>Roots\<close>

definition root_has_access :: "metadata \<Rightarrow> bool" where
  "root_has_access m \<longleftrightarrow> md_mode m AND 365 \<noteq> 0"

text \<open>\<^verbatim>\<open>read_dir\<close>: only whether it succeeds is used.\<close>

definition read_dir :: "kernel \<Rightarrow> path \<Rightarrow> world \<Rightarrow> (errno + unit) \<times> world" where
  "read_dir k p =
     syscall k (query (\<lambda>fs. and_then (node_at fs p) (\<lambda>i.
       case fs i of Some (Dir _ _) \<Rightarrow> Inr () | _ \<Rightarrow> Inl ENOTDIR)))"

definition open_root :: "kernel \<Rightarrow> nat \<Rightarrow> path \<Rightarrow> world \<Rightarrow> (project_error + root_capability) \<times> world" where
  "open_root k index p =
     (if \<not> is_absolute p then io_return (Inl (RootNotAbsolute index))
      else io_bind (io_return (normalize_absolute p)) (\<lambda>requested.
        io_bind (io_map_err (\<lambda>_. RootUnavailable index) (canonicalize k p)) (\<lambda>canonical.
          io_bind (io_map_err (\<lambda>_. RootUnavailable index) (stat_path k canonical)) (\<lambda>m.
            if md_kind m \<noteq> IsDir then io_return (Inl (RootNotDirectory index))
            else if \<not> root_has_access m then io_return (Inl (RootUnreadable index))
            else io_bind (io_map_err (\<lambda>_. RootUnreadable index) (read_dir k canonical)) (\<lambda>_.
              io_bind (io_map_err (ProjectIo ''opening workspace root'') (open_path k canonical)) (\<lambda>directory.
                io_return (Inr \<lparr>rc_requested = requested, rc_canonical = canonical,
                  rc_directory = directory, rc_input_index = index\<rparr>)))))))"

fun open_roots :: "kernel \<Rightarrow> nat \<Rightarrow> path list \<Rightarrow> world \<Rightarrow> (project_error + workspace_roots) \<times> world" where
  "open_roots k index [] = io_return (Inr [])"
| "open_roots k index (p # ps) =
     io_bind (open_root k index p) (\<lambda>r. io_bind (open_roots k (Suc index) ps) (\<lambda>rs. io_return (Inr (r # rs))))"

text \<open>The check of one root against the ones sorted after it.\<close>

fun check_against :: "root_capability \<Rightarrow> workspace_roots \<Rightarrow> project_error + unit" where
  "check_against left [] = Inr ()"
| "check_against left (right # rest) =
     (if rc_canonical left = rc_canonical right
      then Inl (DuplicateRoot (min (rc_input_index left) (rc_input_index right))
                              (max (rc_input_index left) (rc_input_index right)))
      else if path_starts_with (rc_canonical right) (rc_canonical left)
      then Inl (NestedRoots (rc_input_index left) (rc_input_index right))
      else check_against left rest)"

fun check_roots :: "workspace_roots \<Rightarrow> project_error + unit" where
  "check_roots [] = Inr ()"
| "check_roots (r # rs) = and_then (check_against r rs) (\<lambda>_. check_roots rs)"

definition workspace_roots_new :: "kernel \<Rightarrow> path list \<Rightarrow> world \<Rightarrow> (project_error + workspace_roots) \<times> world" where
  "workspace_roots_new k requested =
     (if requested = [] then io_return (Inl EmptyRoots)
      else io_bind (open_roots k 0 requested) (\<lambda>opened.
        let capabilities = sort_key rc_canonical opened
        in io_return (and_then (check_roots capabilities) (\<lambda>_. Inr capabilities))))"

definition canonical_roots :: "workspace_roots \<Rightarrow> path list" where
  "canonical_roots roots = map rc_canonical roots"

section \<open>Authorization\<close>

record authorized_path =
  az_root :: root_capability
  az_canonical :: path
  az_components :: "string list"

type_synonym prefix_match = "(root_capability \<times> path \<times> nat) option"

definition match_prefix :: "path \<Rightarrow> root_capability \<Rightarrow> path \<Rightarrow> prefix_match \<Rightarrow> prefix_match" where
  "match_prefix normalized root prefix best =
     (if path_starts_with normalized prefix \<and>
         (case best of None \<Rightarrow> True | Some (_, _, depth) \<Rightarrow> depth < length prefix)
      then Some (root, prefix, length prefix) else best)"

fun best_prefix :: "path \<Rightarrow> workspace_roots \<Rightarrow> prefix_match \<Rightarrow> prefix_match" where
  "best_prefix normalized [] best = best"
| "best_prefix normalized (root # roots) best =
     best_prefix normalized roots
       (match_prefix normalized root (rc_requested root) (match_prefix normalized root (rc_canonical root) best))"

definition normal_component :: "string \<Rightarrow> bool" where
  "normal_component c \<longleftrightarrow> c \<notin> {''/'', ''.'', ''..''}"

definition authorize :: "workspace_roots \<Rightarrow> path \<Rightarrow> project_error + authorized_path" where
  "authorize roots requested =
     (if \<not> is_absolute requested then Inl UnauthorizedPath
      else and_then (normalize_absolute requested) (\<lambda>normalized.
        case best_prefix normalized roots None of
          None \<Rightarrow> Inl UnauthorizedPath
        | Some (root, matched_prefix, _) \<Rightarrow>
            let relative = drop (length matched_prefix) normalized in
            if \<not> list_all normal_component relative then Inl UnsafePath
            else Inr \<lparr>az_root = root, az_canonical = rc_canonical root @ relative, az_components = relative\<rparr>))"

section \<open>Opening authorized paths\<close>

record authorized_directory =
  ad_canonical :: path
  ad_file :: inode

definition map_open_error :: "string \<Rightarrow> errno \<Rightarrow> project_error" where
  "map_open_error operation e =
     (if e = ELOOP then UnsafePath else if e = ENOTDIR then NotDirectory else ProjectIo operation e)"

fun open_components :: "kernel \<Rightarrow> string \<Rightarrow> inode \<Rightarrow> string list \<Rightarrow> world \<Rightarrow> (project_error + inode) \<times> world" where
  "open_components k operation d [] = io_return (Inr d)"
| "open_components k operation d (c # cs) =
     io_bind (io_map_err (map_open_error operation) (open_dir_at k d c)) (\<lambda>i. open_components k operation i cs)"

definition open_directory :: "kernel \<Rightarrow> workspace_roots \<Rightarrow> path \<Rightarrow> world \<Rightarrow> (project_error + authorized_directory) \<times> world" where
  "open_directory k roots requested =
     io_bind (io_return (authorize roots requested)) (\<lambda>authorized.
       io_bind (open_components k ''opening authorized directory'' (rc_directory (az_root authorized))
                  (''.'' # az_components authorized)) (\<lambda>d.
         io_bind (io_map_err (ProjectIo ''reading directory metadata'') (fstat k d)) (\<lambda>m.
           if md_kind m \<noteq> IsDir then io_return (Inl NotDirectory)
           else io_return (Inr \<lparr>ad_canonical = az_canonical authorized, ad_file = d\<rparr>))))"

definition canonical_directory :: "kernel \<Rightarrow> workspace_roots \<Rightarrow> path \<Rightarrow> world \<Rightarrow> (project_error + path) \<times> world" where
  "canonical_directory k roots requested =
     io_bind (open_directory k roots requested) (\<lambda>d. io_return (Inr (ad_canonical d)))"

definition open_parent ::
  "kernel \<Rightarrow> workspace_roots \<Rightarrow> path \<Rightarrow> world \<Rightarrow> (project_error + authorized_directory \<times> string) \<times> world" where
  "open_parent k roots requested =
     io_bind (io_return (authorize roots requested)) (\<lambda>authorized.
       if az_components authorized = [] then io_return (Inl NotRegularFile)
       else io_bind (open_components k ''opening authorized parent'' (rc_directory (az_root authorized))
                       (''.'' # butlast (az_components authorized))) (\<lambda>d.
              case path_parent (az_canonical authorized) of
                None \<Rightarrow> io_return (Inl UnauthorizedPath)
              | Some parent_path \<Rightarrow>
                  io_return (Inr (\<lparr>ad_canonical = parent_path, ad_file = d\<rparr>, last (az_components authorized)))))"

definition path_name :: "path \<Rightarrow> string" where
  "path_name p = (case path_file_name p of Some name \<Rightarrow> name | None \<Rightarrow> [])"

section \<open>Normalised paths and disjoint roots\<close>

lemma normalize_from_normal:
  "normalize_from normalized cs = Inr q \<Longrightarrow>
   (normalized = [] \<or> (\<exists>names. normalized = ''/'' # names \<and> list_all normal_component names)) \<Longrightarrow>
   (normalized = [] \<longrightarrow> path_starts_with cs [''/'']) \<Longrightarrow>
   \<exists>names. q = ''/'' # names \<and> list_all normal_component names"
proof (induction normalized cs rule: normalize_from.induct)
  case (2 normalized c cs)
  have up: "parent = [] \<or> (\<exists>names. parent = ''/'' # names \<and> list_all normal_component names)" "parent \<noteq> []"
    if parent: "path_parent normalized = Some parent" "normalized \<noteq> []" for parent
  proof -
    obtain names where n: "normalized = ''/'' # names" "list_all normal_component names"
      using "2.prems"(2) parent(2) by blast
    with parent have "names \<noteq> []" "parent = ''/'' # butlast names" by (auto simp: path_parent_def split: if_splits)
    with n show "parent = [] \<or> (\<exists>names. parent = ''/'' # names \<and> list_all normal_component names)" "parent \<noteq> []"
      by (auto simp: list_all_iff dest: in_set_butlastD)
  qed
  show ?case
  proof (cases "c = ''/''")
    case True
    then show ?thesis using "2.prems"(1) "2.IH"(1) by simp
  next
    case False
    then have ne: "normalized \<noteq> []" using "2.prems"(3) by (auto simp: path_starts_with_def)
    have "normal_component c" if "c \<noteq> ''.''" "c \<noteq> ''..''"
      using False that by (simp add: normal_component_def)
    then show ?thesis
      using "2.prems" "2.IH"(2-4) False ne up by (auto split: if_splits option.splits)
  qed
qed (auto simp: is_absolute_def path_starts_with_def split: if_splits)

lemma normalize_absolute_normal:
  assumes "normalize_absolute p = Inr q" "is_absolute p"
  obtains names where "q = ''/'' # names" "list_all normal_component names"
  using normalize_from_normal [OF assms(1) [unfolded normalize_absolute_def]] assms(2)
  by (auto simp: is_absolute_def)

text \<open>Roots that were opened have absolute prefixes; the others are refused.\<close>

definition root_ok :: "root_capability \<Rightarrow> bool" where
  "root_ok r \<longleftrightarrow> is_absolute (rc_requested r) \<and> is_absolute (rc_canonical r)"

lemma open_root_ok:
  assumes "open_root k index p w = (Inr r, w')"
  shows "root_ok r" "rc_input_index r = index"
proof -
  have "is_absolute p" using assms by (auto simp: open_root_def split: if_splits)
  with assms obtain q where q: "normalize_absolute p = Inr q" "rc_requested r = q" "rc_input_index r = index"
    and c: "is_absolute (rc_canonical r)"
    by (auto simp: open_root_def io_bind_Inr io_map_err_Inr canonicalize_def is_absolute_def path_starts_with_def
        and_then_Inr_iff dest!: syscall_query_Inr split: if_splits)
  obtain names where "q = ''/'' # names" by (rule normalize_absolute_normal [OF q(1) \<open>is_absolute p\<close>])
  with q c show "root_ok r" "rc_input_index r = index"
    by (simp_all add: root_ok_def is_absolute_def path_starts_with_def)
qed

lemma open_roots_ok:
  "open_roots k index ps w = (Inr rs, w') \<Longrightarrow> list_all root_ok rs \<and> length rs = length ps"
  by (induction ps arbitrary: index w rs w') (auto simp: io_bind_Inr dest: open_root_ok)

lemma check_against_iff:
  "check_against l rs = Inr () \<longleftrightarrow> (\<forall>r \<in> set rs. \<not> path_starts_with (rc_canonical r) (rc_canonical l))"
  by (induction rs) (auto simp: path_starts_with_def)

text \<open>A proper prefix of a path sorts before it, so the one-sided check suffices on sorted roots.\<close>

lemma prefix_sorts_first: "path_starts_with p q \<Longrightarrow> q \<le> p"
proof (unfold path_starts_with_iff, elim exE)
  show "q \<le> p" if "p = q @ rest" for rest
    unfolding that by (induction q) auto
qed

definition disjoint_roots :: "workspace_roots \<Rightarrow> bool" where
  "disjoint_roots rs \<longleftrightarrow>
     (\<forall>i < length rs. \<forall>j < length rs. i \<noteq> j \<longrightarrow> \<not> path_starts_with (rc_canonical (rs ! i)) (rc_canonical (rs ! j)))"

lemma check_roots_disjoint:
  "check_roots rs = Inr () \<Longrightarrow> sorted (map rc_canonical rs) \<Longrightarrow> disjoint_roots rs"
proof (induction rs)
  case (Cons r rs)
  then have apart: "\<forall>s \<in> set rs. \<not> path_starts_with (rc_canonical s) (rc_canonical r)" and rest: "disjoint_roots rs"
    by (auto simp: and_then_Inr_iff check_against_iff)
  have other: "\<not> path_starts_with (rc_canonical r) (rc_canonical s)" if "s \<in> set rs" for s
  proof
    assume p: "path_starts_with (rc_canonical r) (rc_canonical s)"
    then have "rc_canonical s \<le> rc_canonical r" by (rule prefix_sorts_first)
    with Cons.prems(2) that have "rc_canonical s = rc_canonical r" by fastforce
    with apart that show False by (auto simp: path_starts_with_def)
  qed
  show ?case
    unfolding disjoint_roots_def
  proof (intro allI impI)
    fix i j assume "i < length (r # rs)" "j < length (r # rs)" "i \<noteq> j"
    then show "\<not> path_starts_with (rc_canonical ((r # rs) ! i)) (rc_canonical ((r # rs) ! j))"
      using apart other rest by (cases i; cases j) (auto simp: disjoint_roots_def)
  qed
qed (simp add: disjoint_roots_def)

lemma workspace_roots_new_ok:
  assumes "workspace_roots_new k ps w = (Inr roots, w')"
  shows "list_all root_ok roots" "disjoint_roots roots" "roots \<noteq> []"
proof -
  obtain opened w1 where o: "open_roots k 0 ps w = (Inr opened, w1)" "roots = sort_key rc_canonical opened"
    and c: "check_roots roots = Inr ()" and ne: "ps \<noteq> []"
    using assms by (auto simp: workspace_roots_new_def io_bind_Inr Let_def and_then_Inr_iff split: if_splits)
  from open_roots_ok [OF o(1)] o(2) ne show "list_all root_ok roots" "roots \<noteq> []"
    by (auto simp: list_all_iff simp flip: length_greater_0_conv)
  show "disjoint_roots roots"
    by (rule check_roots_disjoint [OF c]) (simp add: o(2))
qed

section \<open>Confinement\<close>

lemma best_prefix_from:
  "best_prefix normalized roots best = Some (root, prefix, depth) \<Longrightarrow>
   best = Some (root, prefix, depth) \<or>
   root \<in> set roots \<and> prefix \<in> {rc_canonical root, rc_requested root} \<and> path_starts_with normalized prefix"
proof (induction normalized roots best rule: best_prefix.induct)
  case (2 normalized root' roots best)
  then show ?case by (auto simp: match_prefix_def split: if_splits option.splits)
qed simp

lemma authorize_confined:
  assumes "authorize roots requested = Inr az"
  shows "az_root az \<in> set roots" "az_canonical az = rc_canonical (az_root az) @ az_components az"
    and "list_all normal_component (az_components az)"
proof -
  obtain normalized where "(case best_prefix normalized roots None of None \<Rightarrow> Inl UnauthorizedPath
      | Some (root, matched_prefix, _) \<Rightarrow>
          let relative = drop (length matched_prefix) normalized in
          if \<not> list_all normal_component relative then Inl UnsafePath
          else Inr \<lparr>az_root = root, az_canonical = rc_canonical root @ relative, az_components = relative\<rparr>) = Inr az"
    using assms by (auto simp: authorize_def and_then_Inr_iff split: if_splits)
  then obtain root prefix depth where b: "best_prefix normalized roots None = Some (root, prefix, depth)"
    and "list_all normal_component (drop (length prefix) normalized)"
    and "az = \<lparr>az_root = root, az_canonical = rc_canonical root @ drop (length prefix) normalized,
           az_components = drop (length prefix) normalized\<rparr>"
    by (auto simp: Let_def split: option.splits if_splits)
  with best_prefix_from [OF b] show "az_root az \<in> set roots"
    "az_canonical az = rc_canonical (az_root az) @ az_components az" "list_all normal_component (az_components az)"
    by auto
qed

text \<open>The check of the remaining components never fires: normalisation leaves only names below the root.\<close>

lemma authorize_error:
  assumes "list_all root_ok roots" "authorize roots requested = Inl e"
  shows "e = UnauthorizedPath"
proof (rule ccontr)
  assume ne: "e \<noteq> UnauthorizedPath"
  have norm: "normalize_absolute requested \<noteq> Inl e"
  proof -
    have "normalize_from n cs = Inl e \<Longrightarrow> e = UnauthorizedPath" for n cs
      by (induction n cs rule: normalize_from.induct) (auto split: if_splits option.splits)
    with ne show ?thesis by (auto simp: normalize_absolute_def)
  qed
  obtain normalized root prefix depth where n: "is_absolute requested" "normalize_absolute requested = Inr normalized"
    and b: "best_prefix normalized roots None = Some (root, prefix, depth)"
    and bad: "\<not> list_all normal_component (drop (length prefix) normalized)"
    using assms(2) ne norm
    by (cases "normalize_absolute requested") (auto simp: authorize_def Let_def split: if_splits option.splits)
  from best_prefix_from [OF b] assms(1) have "is_absolute prefix"
    by (auto simp: root_ok_def list_all_iff)
  then obtain rest where "prefix = ''/'' # rest" by (cases prefix) (auto simp: is_absolute_def path_starts_with_def)
  moreover obtain names where "normalized = ''/'' # names" "list_all normal_component names"
    by (rule normalize_absolute_normal [OF n(2,1)])
  ultimately show False using bad by (auto simp: list_all_iff dest: in_set_dropD)
qed

text \<open>
  \<open>link_free k n fs d names i\<close>: when calls are numbered from \<open>n\<close> on and the file system was \<open>fs\<close>, each
  of the names was at the time of its call an entry of the directory reached so far and itself a
  directory, and they lead from \<open>d\<close> to \<open>i\<close>.
\<close>

fun link_free :: "kernel \<Rightarrow> nat \<Rightarrow> file_system \<Rightarrow> inode \<Rightarrow> string list \<Rightarrow> inode \<Rightarrow> bool" where
  "link_free k n fs d [] i \<longleftrightarrow> d = i"
| "link_free k n fs d (c # cs) i \<longleftrightarrow>
     (let fs' = k_env k n fs in
      case child fs' d c of
        Inl _ \<Rightarrow> False
      | Inr j \<Rightarrow> (case fs' j of Some (Dir _ _) \<Rightarrow> link_free k (Suc n) fs' j cs i | _ \<Rightarrow> False))"

lemma directory_only:
  "(case n of Some (Dir _ _) \<Rightarrow> Inr i | Some (Link _) \<Rightarrow> Inl e | Some _ \<Rightarrow> Inl e' | None \<Rightarrow> Inl e'') = Inr j \<longleftrightarrow>
   i = j \<and> (\<exists>m es. n = Some (Dir m es))"
  by (auto split: option.splits node.splits)

lemma open_dir_at_Inr:
  assumes "open_dir_at k d c w = (Inr i, w')"
  shows "w_fs w' = k_env k (w_calls w) (w_fs w)" "w_calls w' = Suc (w_calls w)"
    and "\<exists>m es. w_fs w' i = Some (Dir m es)" "if c = ''.'' then i = d else child (w_fs w') d c = Inr i"
  using syscall_query_Inr [OF assms [unfolded open_dir_at_def]]
  by (auto simp: and_then_Inr_iff directory_only split: if_splits)

lemma open_components_link_free:
  "open_components k operation d cs w = (Inr i, w') \<Longrightarrow> list_all normal_component cs \<Longrightarrow>
   link_free k (w_calls w) (w_fs w) d cs i"
proof (induction k operation d cs arbitrary: w rule: open_components.induct)
  case (2 k operation d c cs)
  then obtain j w1 where step: "open_dir_at k d c w = (Inr j, w1)" and rest: "open_components k operation j cs w1 = (Inr i, w')"
    by (auto simp: io_bind_Inr io_map_err_Inr)
  have "link_free k (w_calls w1) (w_fs w1) j cs i" using "2.IH" [OF rest] "2.prems"(2) by simp
  moreover have "c \<noteq> ''.''" using "2.prems"(2) by (simp add: normal_component_def)
  ultimately show ?case using open_dir_at_Inr [OF step] by (auto simp: Let_def)
qed simp

text \<open>What opening below a root guarantees: the root's own directory is opened first, then each name.\<close>

definition opened_below :: "kernel \<Rightarrow> world \<Rightarrow> root_capability \<Rightarrow> string list \<Rightarrow> inode \<Rightarrow> bool" where
  "opened_below k w root names i \<longleftrightarrow>
     link_free k (Suc (w_calls w)) (k_env k (w_calls w) (w_fs w)) (rc_directory root) names i"

lemma open_components_below:
  assumes "open_components k operation (rc_directory root) (''.'' # names) w = (Inr i, w')" "list_all normal_component names"
  shows "opened_below k w root names i"
proof -
  obtain j w1 where dot: "open_dir_at k (rc_directory root) ''.'' w = (Inr j, w1)"
    and rest: "open_components k operation j names w1 = (Inr i, w')"
    using assms(1) by (auto simp: io_bind_Inr io_map_err_Inr)
  show ?thesis
    using open_components_link_free [OF rest assms(2)] open_dir_at_Inr [OF dot] by (simp add: opened_below_def)
qed

text \<open>While nothing else changes the file system, the names lead from the root's directory to the node.\<close>

lemma opened_below_descends:
  assumes "\<And>n fs. k_env k n fs = fs" "opened_below k w root names i"
  shows "descend (w_fs w) (rc_directory root) names = Inr i"
proof -
  have "link_free k n fs d names i \<Longrightarrow> descend fs d names = Inr i" for n fs d
    using assms(1)
    by (induction names arbitrary: n d) (auto simp: Let_def split: sum.splits option.splits node.splits)
  with assms show ?thesis by (simp add: opened_below_def)
qed

text \<open>
  C22. Confinement of project paths. The roots of a workspace are pairwise disjoint. A directory that
  is opened for a client lies below one of them: its canonical path is the root's path and names
  without dots, and it was reached from the descriptor of that root by opening each name as a real
  directory in the directory before, whatever other processes did to the file system in between; no
  link is followed. The same holds of the directory in which a file is opened, and the file's name is
  a plain name in it.
\<close>

theorem project_paths_confined:
  assumes "workspace_roots_new k0 ps w0 = (Inr roots, w1)"
  shows "disjoint_roots roots \<and>
    (open_directory k roots requested w = (Inr d, w') \<longrightarrow>
       (\<exists>root \<in> set roots. \<exists>names. list_all normal_component names \<and>
          ad_canonical d = rc_canonical root @ names \<and> opened_below k w root names (ad_file d))) \<and>
    (open_parent k roots requested w = (Inr (d, name), w') \<longrightarrow>
       (\<exists>root \<in> set roots. \<exists>names. list_all normal_component (names @ [name]) \<and>
          ad_canonical d = rc_canonical root @ names \<and> opened_below k w root names (ad_file d)))"
proof (intro conjI impI)
  show "disjoint_roots roots" by (rule workspace_roots_new_ok(2) [OF assms])
next
  assume "open_directory k roots requested w = (Inr d, w')"
  then obtain az w2 where az: "authorize roots requested = Inr az" and d: "ad_canonical d = az_canonical az"
    and o: "open_components k ''opening authorized directory'' (rc_directory (az_root az)) (''.'' # az_components az) w = (Inr (ad_file d), w2)"
    by (auto simp: open_directory_def io_bind_Inr io_map_err_Inr simp del: open_components.simps split: if_splits)
  from authorize_confined [OF az] open_components_below [OF o] d
  show "\<exists>root \<in> set roots. \<exists>names. list_all normal_component names \<and>
      ad_canonical d = rc_canonical root @ names \<and> opened_below k w root names (ad_file d)" by auto
next
  assume "open_parent k roots requested w = (Inr (d, name), w')"
  then obtain az w2 where az: "authorize roots requested = Inr az" and d: "path_parent (az_canonical az) = Some (ad_canonical d)"
    and name: "az_components az \<noteq> []" "name = last (az_components az)"
    and o: "open_components k ''opening authorized parent'' (rc_directory (az_root az)) (''.'' # butlast (az_components az)) w = (Inr (ad_file d), w2)"
    by (auto simp: open_parent_def io_bind_Inr io_map_err_Inr simp del: open_components.simps split: if_splits option.splits)
  note c = authorize_confined [OF az]
  have names: "az_components az = butlast (az_components az) @ [name]" using name by simp
  have "list_all normal_component (butlast (az_components az) @ [name])" using c(3) names by simp
  moreover have "ad_canonical d = rc_canonical (az_root az) @ butlast (az_components az)"
    using d c(2) name(1) by (auto simp: path_parent_def butlast_append split: if_splits)
  ultimately show "\<exists>root \<in> set roots. \<exists>names. list_all normal_component (names @ [name]) \<and>
      ad_canonical d = rc_canonical root @ names \<and> opened_below k w root names (ad_file d)"
    using open_components_below [OF o] c(1) by auto
qed

text \<open>A workspace with one root, a directory below it, and a link out of it.\<close>

definition sample_fs :: file_system where
  "sample_fs =
     [0 \<mapsto> Dir 493 [''w'' \<mapsto> 1, ''etc'' \<mapsto> 4], 1 \<mapsto> Dir 493 [''src'' \<mapsto> 2, ''out'' \<mapsto> 3],
      2 \<mapsto> Dir 493 Map.empty, 3 \<mapsto> Link [''/'', ''etc''], 4 \<mapsto> Dir 493 Map.empty]"

definition quiet_kernel :: kernel where
  "quiet_kernel = \<lparr>k_env = (\<lambda>_ fs. fs), k_fault = (\<lambda>_. None), k_link_errno = ELOOP, k_chunk = (\<lambda>_. 4096),
     k_fresh = (\<lambda>_. 100), k_now = int\<rparr>"

definition sample_world :: world where
  "sample_world = \<lparr>w_fs = sample_fs, w_calls = 0\<rparr>"

definition sample_root :: root_capability where
  "sample_root = \<lparr>rc_requested = [''/'', ''w''], rc_canonical = [''/'', ''w''], rc_directory = 1, rc_input_index = 0\<rparr>"

lemmas kernel_defs =
  syscall_def query_def io_bind_def io_return_def io_map_err_def canonicalize_def stat_path_def node_at_def
  read_dir_def open_path_def open_dir_at_def fstat_def child_def root_inode_def MAX_LINKS_def quiet_kernel_def
  sample_world_def sample_fs_def Let_def

lemma sample_roots_opened:
  "workspace_roots_new quiet_kernel [[''/'', ''w'']] sample_world = (Inr [sample_root], sample_world\<lparr>w_calls := 4\<rparr>)"
  by (simp add: workspace_roots_new_def open_root_def is_absolute_def path_starts_with_def normalize_absolute_def
      root_has_access_def sample_root_def kernel_defs)

lemma sample_directory_opened:
  "open_directory quiet_kernel [sample_root] [''/'', ''w'', ''src'', ''..'', ''src''] sample_world =
   (Inr \<lparr>ad_canonical = [''/'', ''w'', ''src''], ad_file = 2\<rparr>, sample_world\<lparr>w_calls := 3\<rparr>)"
  by (simp add: open_directory_def authorize_def is_absolute_def path_starts_with_def path_parent_def match_prefix_def
      normalize_absolute_def normal_component_def sample_root_def kernel_defs)

lemma sample_escape_refused:
  "fst (open_directory quiet_kernel [sample_root] [''/'', ''w'', ''..'', ''etc''] sample_world) = Inl UnauthorizedPath"
  "fst (open_directory quiet_kernel [sample_root] [''/'', ''w'', ''out''] sample_world) = Inl UnsafePath"
  by (simp_all add: open_directory_def authorize_def is_absolute_def path_starts_with_def path_parent_def match_prefix_def
      normalize_absolute_def normal_component_def map_open_error_def sample_root_def kernel_defs)

theorem project_paths_confined_witness:
  "disjoint_roots [sample_root] \<and>
   (\<exists>names. [''/'', ''w'', ''src''] = rc_canonical sample_root @ names \<and>
      opened_below quiet_kernel sample_world sample_root names 2)"
  using project_paths_confined [OF sample_roots_opened, of quiet_kernel, where w = sample_world]
    sample_directory_opened by fastforce

end
