(* ===== verification/Text_Files.thy ===== *)
theory Text_Files
  imports Workspace_Roots
begin

text \<open>
  Reading and saving project files, \<^verbatim>\<open>crates/maestro-project/src/file.rs\<close>. The SHA-256 digest is the
  parameter \<open>sha256\<close>; the name of the temporary file is an argument. A text is the string of its UTF-8
  bytes. Descriptors are nodes, so closing one has no effect.
\<close>

section \<open>Types and limits\<close>

definition DEFAULT_MAXIMUM_TEXT_BYTES :: nat where "DEFAULT_MAXIMUM_TEXT_BYTES = 4 * 1024 * 1024"
definition MAXIMUM_TEXT_BYTES :: nat where "MAXIMUM_TEXT_BYTES = 64 * 1024 * 1024"

type_synonym file_fingerprint = bytes

record text_file =
  tf_path :: path
  tf_text :: string
  tf_fingerprint :: file_fingerprint
  tf_bytes :: nat

record save_result =
  svr_fingerprint :: file_fingerprint
  svr_bytes :: nat

record file_service =
  fsv_roots :: workspace_roots
  fsv_maximum_text_bytes :: nat

definition file_service_new :: "workspace_roots \<Rightarrow> file_service" where
  "file_service_new roots = \<lparr>fsv_roots = roots, fsv_maximum_text_bytes = DEFAULT_MAXIMUM_TEXT_BYTES\<rparr>"

definition with_maximum_text_bytes :: "workspace_roots \<Rightarrow> nat \<Rightarrow> project_error + file_service" where
  "with_maximum_text_bytes roots maximum =
     (if maximum = 0 \<or> maximum > MAXIMUM_TEXT_BYTES then Inl InvalidLimit
      else Inr \<lparr>fsv_roots = roots, fsv_maximum_text_bytes = maximum\<rparr>)"

section \<open>Text\<close>

definition text_bytes :: "string \<Rightarrow> bytes" where
  "text_bytes s = map of_char s"

definition bytes_text :: "bytes \<Rightarrow> string" where
  "bytes_text bs = map (\<lambda>b. char_of (unat b)) bs"

lemma text_bytes_bytes_text [simp]: "text_bytes (bytes_text bs) = bs"
proof -
  have "(of_char (char_of (unat b) :: char) :: u8) = b" for b
  proof -
    have "unat b < 256" using unsigned_less [of b] by simp
    then have "(of_char (char_of (unat b) :: char) :: nat) = unat b" by simp
    then have "(of_nat (of_char (char_of (unat b) :: char)) :: u8) = b" by simp
    then show ?thesis by (simp only: of_nat_of_char)
  qed
  then show ?thesis by (simp add: text_bytes_def bytes_text_def comp_def)
qed

lemma length_text_bytes [simp]: "length (text_bytes s) = length s" "length (bytes_text bs) = length bs"
  by (simp_all add: text_bytes_def bytes_text_def)

text \<open>\<^verbatim>\<open>str::from_utf8\<close>: the length of the first scalar value, or 0 when there is none.\<close>

definition continuation :: "u8 \<Rightarrow> bool" where
  "continuation b \<longleftrightarrow> 0x80 \<le> b \<and> b \<le> 0xBF"

definition utf8_head :: "bytes \<Rightarrow> nat" where
  "utf8_head bs =
     (let in_range = (\<lambda>j lo hi. j < length bs \<and> lo \<le> bs ! j \<and> bs ! j \<le> (hi :: u8));
          cont = (\<lambda>j. j < length bs \<and> continuation (bs ! j))
      in if in_range 0 0 0x7F then 1
         else if in_range 0 0xC2 0xDF \<and> cont 1 then 2
         else if in_range 0 0xE0 0xE0 \<and> in_range 1 0xA0 0xBF \<and> cont 2 then 3
         else if (in_range 0 0xE1 0xEC \<or> in_range 0 0xEE 0xEF) \<and> cont 1 \<and> cont 2 then 3
         else if in_range 0 0xED 0xED \<and> in_range 1 0x80 0x9F \<and> cont 2 then 3
         else if in_range 0 0xF0 0xF0 \<and> in_range 1 0x90 0xBF \<and> cont 2 \<and> cont 3 then 4
         else if in_range 0 0xF1 0xF3 \<and> cont 1 \<and> cont 2 \<and> cont 3 then 4
         else if in_range 0 0xF4 0xF4 \<and> in_range 1 0x80 0x8F \<and> cont 2 \<and> cont 3 then 4
         else 0)"

function valid_utf8 :: "bytes \<Rightarrow> bool" where
  "valid_utf8 bs \<longleftrightarrow>
     (if bs = [] then True else if utf8_head bs = 0 then False else valid_utf8 (drop (utf8_head bs) bs))"
  by pat_completeness auto
termination
  by (relation "measure length") auto

declare valid_utf8.simps [simp del]

definition looks_binary :: "bytes \<Rightarrow> bool" where
  "looks_binary bs \<longleftrightarrow>
     0 \<in> set bs \<or>
     bs \<noteq> [] \<and> length (filter (\<lambda>b. b < 0x20 \<and> b \<notin> {0x0A, 0x0D, 0x09, 0x0C}) bs) * 10 > length bs * 3"

section \<open>Reading\<close>

definition same_file :: "metadata \<Rightarrow> metadata \<Rightarrow> bool" where
  "same_file a b \<longleftrightarrow> md_ino a = md_ino b"

definition metadata_changed :: "metadata \<Rightarrow> metadata \<Rightarrow> bool" where
  "metadata_changed a b \<longleftrightarrow> \<not> same_file a b \<or> md_len a \<noteq> md_len b \<or> md_mtime a \<noteq> md_mtime b"

definition open_regular :: "kernel \<Rightarrow> authorized_directory \<Rightarrow> string \<Rightarrow> string \<Rightarrow> world \<Rightarrow> (project_error + inode) \<times> world" where
  "open_regular k parent name operation =
     io_bind (io_map_err (\<lambda>e. if e = ELOOP then UnsafePath else ProjectIo operation e)
                (open_at k (ad_file parent) name)) (\<lambda>i.
       io_bind (io_map_err (ProjectIo ''reading file metadata'') (fstat k i)) (\<lambda>m.
         if md_kind m \<noteq> IsFile then io_return (Inl NotRegularFile) else io_return (Inr i)))"

text \<open>\<^verbatim>\<open>take(n).read_to_end\<close>: reads until the end of the file or until \<open>n\<close> bytes are read.\<close>

function read_to_end :: "kernel \<Rightarrow> inode \<Rightarrow> bytes \<Rightarrow> nat \<Rightarrow> world \<Rightarrow> (errno + bytes) \<times> world" where
  "read_to_end k i acc n w =
     (if n = 0 then (Inr acc, w)
      else case read_at k i (length acc) n w of
             (Inl e, w') \<Rightarrow> (Inl e, w')
           | (Inr chunk, w') \<Rightarrow>
               if chunk = [] then (Inr acc, w')
               else read_to_end k i (acc @ chunk) (n - length chunk) w')"
  by pat_completeness auto
termination
  by (relation "measure (\<lambda>(k, i, acc, n, w). n)") auto

declare read_to_end.simps [simp del]

definition read_from_parent ::
  "kernel \<Rightarrow> authorized_directory \<Rightarrow> string \<Rightarrow> nat \<Rightarrow> string \<Rightarrow> world \<Rightarrow> (project_error + bytes \<times> metadata) \<times> world" where
  "read_from_parent k parent name maximum operation =
     io_bind (open_regular k parent name operation) (\<lambda>i.
       io_bind (io_map_err (ProjectIo ''reading file metadata'') (fstat k i)) (\<lambda>before.
         if md_len before > maximum then io_return (Inl (FileTooLarge (md_len before) maximum))
         else io_bind (io_map_err (ProjectIo operation) (read_to_end k i [] (maximum + 1))) (\<lambda>bs.
           if length bs > maximum then io_return (Inl (FileTooLarge (length bs) maximum))
           else io_bind (io_map_err (ProjectIo ''rechecking file metadata'') (fstat k i)) (\<lambda>after.
             if metadata_changed before after then io_return (Inl FileChangedDuringRead)
             else io_return (Inr (bs, after))))))"

definition read_verified_bytes ::
  "kernel \<Rightarrow> file_service \<Rightarrow> path \<Rightarrow> nat \<Rightarrow> world \<Rightarrow> (project_error + bytes \<times> metadata) \<times> world" where
  "read_verified_bytes k service p maximum =
     (if maximum = 0 \<or> maximum > MAXIMUM_TEXT_BYTES then io_return (Inl InvalidLimit)
      else io_bind (open_parent k (fsv_roots service) p) (\<lambda>(parent, name).
        io_bind (read_from_parent k parent name maximum ''reading authorized file'') (\<lambda>(bs, initial).
          io_bind (open_regular k parent name ''reopening authorized file'') (\<lambda>reopened.
            io_bind (io_map_err (ProjectIo ''reading reopened file metadata'') (fstat k reopened)) (\<lambda>m.
              if \<not> same_file initial m \<or> metadata_changed initial m then io_return (Inl FileChangedDuringRead)
              else io_return (Inr (bs, initial)))))))"

definition read_text ::
  "kernel \<Rightarrow> (bytes \<Rightarrow> file_fingerprint) \<Rightarrow> file_service \<Rightarrow> path \<Rightarrow> world \<Rightarrow> (project_error + text_file) \<times> world" where
  "read_text k sha256 service p =
     io_bind (read_verified_bytes k service p (fsv_maximum_text_bytes service)) (\<lambda>(bs, _).
       if looks_binary bs then io_return (Inl BinaryFile)
       else if \<not> valid_utf8 bs then io_return (Inl InvalidUtf8)
       else io_bind (io_return (authorize (fsv_roots service) p)) (\<lambda>az.
         io_return (Inr \<lparr>tf_path = az_canonical az, tf_text = bytes_text bs, tf_fingerprint = sha256 bs,
                         tf_bytes = length bs\<rparr>)))"

definition read_search_bytes :: "kernel \<Rightarrow> file_service \<Rightarrow> path \<Rightarrow> nat \<Rightarrow> world \<Rightarrow> (project_error + bytes) \<times> world" where
  "read_search_bytes k service p maximum =
     io_bind (read_verified_bytes k service p maximum) (\<lambda>(bs, _).
       if looks_binary bs then io_return (Inl BinaryFile) else io_return (Inr bs))"

section \<open>Saving\<close>

definition create_exclusive :: "kernel \<Rightarrow> inode \<Rightarrow> string \<Rightarrow> world \<Rightarrow> (errno + inode) \<times> world" where
  "create_exclusive k d name w =
     syscall k (\<lambda>fs.
       case fs d of
         Some (Dir mode entries) \<Rightarrow>
           if entries name \<noteq> None then (Inl EEXIST, fs)
           else let i = k_fresh k fs in
                (Inr i, fs(i \<mapsto> Reg 384 (k_now k (w_calls w)) [], d \<mapsto> Dir mode (entries(name \<mapsto> i))))
       | _ \<Rightarrow> (Inl ENOTDIR, fs)) w"

definition set_permissions :: "kernel \<Rightarrow> inode \<Rightarrow> u32 \<Rightarrow> world \<Rightarrow> (errno + unit) \<times> world" where
  "set_permissions k i mode =
     syscall k (\<lambda>fs.
       case fs i of
         Some (Reg _ mtime content) \<Rightarrow> (Inr (), fs(i \<mapsto> Reg mode mtime content))
       | _ \<Rightarrow> (Inl ENOENT, fs))"

text \<open>One \<^verbatim>\<open>write\<close> appends at most what the kernel takes; \<^verbatim>\<open>write_all\<close> repeats it.\<close>

definition append_to :: "kernel \<Rightarrow> inode \<Rightarrow> bytes \<Rightarrow> world \<Rightarrow> (errno + nat) \<times> world" where
  "append_to k i bs w =
     (let n = min (length bs) (max 1 (k_chunk k (w_calls w))) in
      syscall k (\<lambda>fs.
        case fs i of
          Some (Reg mode _ content) \<Rightarrow> (Inr n, fs(i \<mapsto> Reg mode (k_now k (w_calls w)) (content @ take n bs)))
        | _ \<Rightarrow> (Inl ENOENT, fs)) w)"

lemma append_to_progress: "append_to k i bs w = (Inr n, w') \<Longrightarrow> bs \<noteq> [] \<Longrightarrow> n \<noteq> 0"
  by (auto simp: append_to_def syscall_def Let_def split: option.splits node.splits prod.splits)

function write_all :: "kernel \<Rightarrow> inode \<Rightarrow> bytes \<Rightarrow> world \<Rightarrow> (errno + unit) \<times> world" where
  "write_all k i bs w =
     (if bs = [] then (Inr (), w)
      else case append_to k i bs w of
             (Inl e, w') \<Rightarrow> (Inl e, w')
           | (Inr n, w') \<Rightarrow> write_all k i (drop n bs) w')"
  by pat_completeness auto
termination
  by (relation "measure (\<lambda>(k, i, bs, w). length bs)") (auto dest: append_to_progress [OF sym])

declare write_all.simps [simp del]

definition sync_node :: "kernel \<Rightarrow> inode \<Rightarrow> world \<Rightarrow> (errno + unit) \<times> world" where
  "sync_node k i = syscall k (\<lambda>fs. (Inr (), fs))"

definition rename_at :: "kernel \<Rightarrow> inode \<Rightarrow> string \<Rightarrow> string \<Rightarrow> world \<Rightarrow> (errno + unit) \<times> world" where
  "rename_at k d old new =
     syscall k (\<lambda>fs.
       case fs d of
         Some (Dir mode entries) \<Rightarrow>
           (case entries old of
              None \<Rightarrow> (Inl ENOENT, fs)
            | Some i \<Rightarrow>
                (case entries new of
                   Some j \<Rightarrow>
                     if i = j then (Inr (), fs)
                     else (case fs j of
                             Some (Dir _ _) \<Rightarrow> (Inl (OtherErrno 21), fs)
                           | _ \<Rightarrow> (Inr (), fs(d \<mapsto> Dir mode (entries(old := None, new \<mapsto> i)))))
                 | None \<Rightarrow> (Inr (), fs(d \<mapsto> Dir mode (entries(old := None, new \<mapsto> i))))))
       | _ \<Rightarrow> (Inl ENOTDIR, fs))"

definition unlink_at :: "kernel \<Rightarrow> inode \<Rightarrow> string \<Rightarrow> world \<Rightarrow> (errno + unit) \<times> world" where
  "unlink_at k d name =
     syscall k (\<lambda>fs.
       case fs d of
         Some (Dir mode entries) \<Rightarrow>
           (case entries name of None \<Rightarrow> (Inl ENOENT, fs) | Some _ \<Rightarrow> (Inr (), fs(d \<mapsto> Dir mode (entries(name := None)))))
       | _ \<Rightarrow> (Inl ENOTDIR, fs))"

text \<open>The work between creating the temporary file and publishing it.\<close>

definition publish_text ::
  "kernel \<Rightarrow> (bytes \<Rightarrow> file_fingerprint) \<Rightarrow> authorized_directory \<Rightarrow> string \<Rightarrow> nat \<Rightarrow> string \<Rightarrow> file_fingerprint \<Rightarrow>
   string \<Rightarrow> inode \<Rightarrow> metadata \<Rightarrow> world \<Rightarrow> (project_error + save_result) \<times> world" where
  "publish_text k sha256 parent name maximum content expected temporary_name temporary current_metadata =
     io_bind (io_map_err (ProjectIo ''preserving file permissions'')
                (set_permissions k temporary (md_mode current_metadata))) (\<lambda>_.
     io_bind (io_map_err (ProjectIo ''writing atomic save file'') (write_all k temporary (text_bytes content))) (\<lambda>_.
     io_bind (io_map_err (ProjectIo ''syncing atomic save file'') (sync_node k temporary)) (\<lambda>_.
     io_bind (read_from_parent k parent name maximum ''rechecking file before save'') (\<lambda>(latest, _).
       if sha256 latest \<noteq> expected then io_return (Inl SaveConflict)
       else
     io_bind (io_map_err (ProjectIo ''publishing atomic save'') (rename_at k (ad_file parent) temporary_name name)) (\<lambda>_.
     io_bind (io_map_err (ProjectIo ''syncing save directory'') (sync_node k (ad_file parent))) (\<lambda>_.
       io_return (Inr \<lparr>svr_fingerprint = sha256 (text_bytes content), svr_bytes = length content\<rparr>)))))))"

definition save_text ::
  "kernel \<Rightarrow> (bytes \<Rightarrow> file_fingerprint) \<Rightarrow> file_service \<Rightarrow> string \<Rightarrow> path \<Rightarrow> string \<Rightarrow> file_fingerprint \<Rightarrow>
   world \<Rightarrow> (project_error + save_result) \<times> world" where
  "save_text k sha256 service temporary_name p content expected =
     (if length content > fsv_maximum_text_bytes service
      then io_return (Inl (FileTooLarge (length content) (fsv_maximum_text_bytes service)))
      else io_bind (open_parent k (fsv_roots service) p) (\<lambda>(parent, name).
        io_bind (read_from_parent k parent name (fsv_maximum_text_bytes service) ''reading file before save'')
          (\<lambda>(current, current_metadata).
            if sha256 current \<noteq> expected then io_return (Inl SaveConflict)
            else io_bind (io_map_err (ProjectIo ''creating atomic save file'')
                            (create_exclusive k (ad_file parent) temporary_name)) (\<lambda>temporary w.
              case publish_text k sha256 parent name (fsv_maximum_text_bytes service) content expected
                     temporary_name temporary current_metadata w of
                (Inl e, w') \<Rightarrow> (Inl e, snd (unlink_at k (ad_file parent) temporary_name w'))
              | (Inr r, w') \<Rightarrow> (Inr r, w')))))"

section \<open>Reading is consistent\<close>

text \<open>
  What other processes may do: they change a file only together with its modification time, which
  never goes back. Nodes are not reused while the model runs.
\<close>

definition honest_clock :: "kernel \<Rightarrow> bool" where
  "honest_clock k \<longleftrightarrow>
     (\<forall>n fs i mode t c. fs i = Some (Reg mode t c) \<longrightarrow>
        (\<exists>mode' t' c'. k_env k n fs i = Some (Reg mode' t' c') \<and> t \<le> t' \<and> (c' \<noteq> c \<longrightarrow> t < t')))"

definition older :: "inode \<Rightarrow> world \<Rightarrow> world \<Rightarrow> bool" where
  "older i w w' \<longleftrightarrow>
     (\<forall>mode t c. w_fs w i = Some (Reg mode t c) \<longrightarrow>
        (\<exists>mode' t' c'. w_fs w' i = Some (Reg mode' t' c') \<and> t \<le> t' \<and> (c' \<noteq> c \<longrightarrow> t < t')))"

lemma older_refl [simp]: "older i w w"
  by (simp add: older_def)

lemma older_trans:
  assumes "older i w w1" "older i w1 w2"
  shows "older i w w2"
  unfolding older_def
proof (intro allI impI)
  fix mode t c assume "w_fs w i = Some (Reg mode t c)"
  then obtain mode1 t1 c1 where 1: "w_fs w1 i = Some (Reg mode1 t1 c1)" "t \<le> t1" "c1 \<noteq> c \<longrightarrow> t < t1"
    using assms(1) unfolding older_def by blast
  then obtain mode2 t2 c2 where "w_fs w2 i = Some (Reg mode2 t2 c2)" "t1 \<le> t2" "c2 \<noteq> c1 \<longrightarrow> t1 < t2"
    using assms(2) unfolding older_def by blast
  with 1 show "\<exists>mode' t' c'. w_fs w2 i = Some (Reg mode' t' c') \<and> t \<le> t' \<and> (c' \<noteq> c \<longrightarrow> t < t')"
    by (metis order_le_less_trans order_less_le_trans order_trans)
qed

lemma older_same:
  assumes "older i w w'" "w_fs w i = Some (Reg mode t c)" "w_fs w' i = Some (Reg mode' t c')"
  shows "c' = c"
  using assms by (force simp: older_def)

lemma older_query:
  assumes "honest_clock k" "syscall k (query f) w = (r, w')"
  shows "older i w w'"
proof -
  have "w_fs w' = k_env k (w_calls w) (w_fs w)"
    using assms(2) by (auto simp: syscall_def query_def Let_def split: option.splits)
  with assms(1) show ?thesis unfolding older_def honest_clock_def by metis
qed

lemma older_calls:
  assumes "honest_clock k"
  shows "open_dir_at k d name w = (r, w') \<Longrightarrow> older i w w'"
    and "open_at k d name w = (r1, w') \<Longrightarrow> older i w w'"
    and "fstat k j w = (r2, w') \<Longrightarrow> older i w w'"
    and "read_at k j off n w = (r3, w') \<Longrightarrow> older i w w'"
  unfolding open_dir_at_def open_at_def fstat_def read_at_def by (erule older_query [OF assms])+

lemma read_to_end_older:
  "honest_clock k \<Longrightarrow> older i w (snd (read_to_end k j acc n w))"
proof (induction k j acc n w rule: read_to_end.induct)
  case (1 k j acc n w)
  obtain r w' where r: "read_at k j (length acc) n w = (r, w')" by (cases "read_at k j (length acc) n w")
  then have first: "older i w w'" by (rule older_calls(4) [OF "1.prems"])
  show ?case
  proof (cases "n = 0 \<or> (\<exists>e. r = Inl e) \<or> r = Inr []")
    case True
    then show ?thesis using r first by (auto simp: read_to_end.simps [of k j acc n w])
  next
    case False
    then obtain chunk where "r = Inr chunk" "n \<noteq> 0" "chunk \<noteq> []" by (cases r) auto
    with "1.IH" [OF _ r [symmetric], of chunk] "1.prems" first r show ?thesis
      by (auto simp: read_to_end.simps [of k j acc n w] intro: older_trans)
  qed
qed

lemma read_at_Inr:
  assumes "read_at k i off n w = (Inr chunk, w')"
  obtains mode t c m where "w_fs w' i = Some (Reg mode t c)" "chunk = take m (drop off c)" "m \<le> n" "0 < n \<Longrightarrow> 0 < m"
proof -
  let ?m = "min n (max 1 (k_chunk k (w_calls w)))"
  have "(case w_fs w' i of Some (Reg _ _ c) \<Rightarrow> Inr (take ?m (drop off c)) | _ \<Rightarrow> Inl ENOENT) = Inr chunk"
    using syscall_query_Inr [OF assms [unfolded read_at_def]] by blast
  then obtain mode t c where "w_fs w' i = Some (Reg mode t c)" "chunk = take ?m (drop off c)"
    by (auto split: option.splits node.splits)
  then show ?thesis using that [of mode t c ?m] by simp
qed

text \<open>A read during which the modification time stays put returns the content, up to the limit.\<close>

lemma read_to_end_content:
  "honest_clock k \<Longrightarrow> read_to_end k i acc n w = (Inr bs, w') \<Longrightarrow> w_fs w i = Some (Reg mode t c) \<Longrightarrow>
   w_fs w' i = Some (Reg mode' t c') \<Longrightarrow> bs = acc @ take n (drop (length acc) c)"
proof (induction k i acc n w arbitrary: mode rule: read_to_end.induct)
  case (1 k i acc n w)
  obtain r w1 where r: "read_at k i (length acc) n w = (r, w1)" by (cases "read_at k i (length acc) n w")
  note unfold = read_to_end.simps [of k i acc n w]
  show ?case
  proof (cases "n = 0")
    case True
    then show ?thesis using "1.prems"(2) [unfolded unfold] by simp
  next
    case False
    then obtain chunk where chunk: "r = Inr chunk"
      using "1.prems"(2) r by (cases r) (auto simp: unfold)
    obtain mode1 t1 c1 m where w1: "w_fs w1 i = Some (Reg mode1 t1 c1)" "chunk = take m (drop (length acc) c1)"
      and m: "m \<le> n" "0 < m" using read_at_Inr r chunk False by (metis not_gr0)
    have first: "older i w w1" by (rule older_calls(4) [OF "1.prems"(1) r])
    have final: "older i w1 w'"
      using read_to_end_older [OF "1.prems"(1), of i w1 i "acc @ chunk" "n - length chunk"] "1.prems"(2) False r chunk
      by (auto simp: unfold split: if_splits)
    have "t \<le> t1" "t1 \<le> t" using first final "1.prems"(3,4) w1(1) by (fastforce simp: older_def)+
    then have same: "t1 = t" by simp
    then have c1: "c1 = c" using older_same [OF first "1.prems"(3)] w1(1) by simp
    show ?thesis
    proof (cases "chunk = []")
      case True
      then have "length c \<le> length acc" using w1(2) c1 m(2) by simp
      then show ?thesis using "1.prems"(2) False r chunk True by (simp add: unfold)
    next
      case ne: False
      have rest: "read_to_end k i (acc @ chunk) (n - length chunk) w1 = (Inr bs, w')"
        using "1.prems"(2) False r chunk ne by (simp add: unfold)
      have bs: "bs = (acc @ chunk) @ take (n - length chunk) (drop (length (acc @ chunk)) c)"
        using "1.IH" [OF False r [symmetric] chunk ne "1.prems"(1) rest _ "1.prems"(4)] w1(1) same c1 by simp
      have "chunk @ take (n - length chunk) (drop (length chunk) (drop (length acc) c)) = take n (drop (length acc) c)"
      proof -
        have "chunk = take (length chunk) (drop (length acc) c)" "length chunk \<le> n"
          using w1(2) c1 m(1) by (auto simp: min_def)
        then show ?thesis by (metis le_add_diff_inverse take_add)
      qed
      with bs show ?thesis by (simp add: add.commute)
    qed
  qed
qed

lemma fstat_Inr:
  assumes "fstat k i w = (Inr m, w')"
  shows "\<exists>n. w_fs w' i = Some n \<and> m = metadata_of i n" "w_fs w' = k_env k (w_calls w) (w_fs w)" "w_calls w' = Suc (w_calls w)"
proof -
  note q = syscall_query_Inr [OF assms [unfolded fstat_def]]
  from q show "w_fs w' = k_env k (w_calls w) (w_fs w)" "w_calls w' = Suc (w_calls w)" by blast+
  from q have "(case w_fs w' i of Some n \<Rightarrow> Inr (metadata_of i n) | None \<Rightarrow> Inl ENOENT) = Inr m" by blast
  then show "\<exists>n. w_fs w' i = Some n \<and> m = metadata_of i n" by (auto split: option.splits)
qed

lemma metadata_of_file: "md_kind (metadata_of i n) = IsFile \<Longrightarrow> \<exists>mode t c. n = Reg mode t c"
  by (cases n) auto

lemma metadata_of_ino [simp]: "md_ino (metadata_of i n) = i"
  by (cases n) auto

lemma open_at_Inr:
  assumes "open_at k d name w = (Inr i, w')"
  shows "child (w_fs w') d name = Inr i" "w_calls w' = Suc (w_calls w)"
proof -
  note q = syscall_query_Inr [OF assms [unfolded open_at_def]]
  then show "w_calls w' = Suc (w_calls w)" by blast
  have open_ok: "(case n of Some (Link _) \<Rightarrow> Inl e | Some _ \<Rightarrow> Inr j | None \<Rightarrow> Inl e') = Inr i \<Longrightarrow> j = i" for n j and e e' :: errno
    by (auto split: option.splits node.splits)
  from q obtain j where "child (w_fs w') d name = Inr j"
    "(case w_fs w' j of Some (Link _) \<Rightarrow> Inl ELOOP | Some _ \<Rightarrow> Inr j | None \<Rightarrow> Inl ENOENT) = Inr i"
    unfolding and_then_Inr_iff by blast
  with open_ok show "child (w_fs w') d name = Inr i" by blast
qed

text \<open>An opened file: the name led to the node, which was a regular file at the next call.\<close>

lemma open_regular_Inr:
  assumes "open_regular k parent name operation w = (Inr i, w')"
  obtains w1 :: world and mode t c where "child (w_fs w1) (ad_file parent) name = Inr i" "w_fs w' = k_env k (w_calls w1) (w_fs w1)"
    "w_calls w' = Suc (w_calls w1)" "w_fs w' i = Some (Reg mode t c)"
proof -
  obtain w1 m where o: "open_at k (ad_file parent) name w = (Inr i, w1)" and m: "fstat k i w1 = (Inr m, w')" "md_kind m = IsFile"
    using assms by (auto simp: open_regular_def io_bind_Inr io_map_err_Inr split: if_splits)
  then obtain mode t c where n: "w_fs w' i = Some (Reg mode t c)"
    using fstat_Inr(1) [OF m(1)] metadata_of_file by blast
  show thesis by (rule that [OF open_at_Inr(1) [OF o] fstat_Inr(2,3) [OF m(1)] n])
qed

lemma read_from_parent_content:
  assumes honest: "honest_clock k" and read: "read_from_parent k parent name maximum operation w = (Inr (bs, m), w')"
  obtains i mode t v where "w_fs w' i = Some (Reg mode t bs)" "m = metadata_of i (Reg mode t bs)" "length bs \<le> maximum"
    "open_at k (ad_file parent) name w = (Inr i, v)"
proof -
  obtain i w2 w3 w4 before where o: "open_regular k parent name operation w = (Inr i, w2)"
    and b: "fstat k i w2 = (Inr before, w3)" "md_len before \<le> maximum"
    and r: "read_to_end k i [] (maximum + 1) w3 = (Inr bs, w4)" "length bs \<le> maximum"
    and a: "fstat k i w4 = (Inr m, w')" "\<not> metadata_changed before m"
    using read by (auto simp: read_from_parent_def io_bind_Inr io_map_err_Inr not_less split: if_splits)
  obtain mode2 t2 c2 where n2: "w_fs w2 i = Some (Reg mode2 t2 c2)" by (rule open_regular_Inr [OF o])
  have o23: "older i w2 w3" by (rule older_calls(3) [OF honest b(1)])
  have o34: "older i w3 w4" using read_to_end_older [OF honest, of i w3 i "[]" "maximum + 1"] r(1) by simp
  have o4: "older i w4 w'" by (rule older_calls(3) [OF honest a(1)])
  obtain mode3 t3 c3 where n3: "w_fs w3 i = Some (Reg mode3 t3 c3)" using o23 n2 unfolding older_def by blast
  obtain mode4 t4 c4 where n4: "w_fs w4 i = Some (Reg mode4 t4 c4)" "t3 \<le> t4" using o34 n3 unfolding older_def by blast
  obtain mode5 t5 c5 where n5: "w_fs w' i = Some (Reg mode5 t5 c5)" "t4 \<le> t5" using o4 n4 unfolding older_def by blast
  have before: "before = metadata_of i (Reg mode3 t3 c3)" and after: "m = metadata_of i (Reg mode5 t5 c5)"
    using fstat_Inr(1) [OF b(1)] n3 fstat_Inr(1) [OF a(1)] n5(1) by auto
  with a(2) have t: "t5 = t3" by (simp add: metadata_changed_def)
  with n4(2) n5(2) have t4: "t4 = t3" by simp
  have "bs = take (maximum + 1) c3" using read_to_end_content [OF honest r(1) n3] n4(1) t4 by simp
  with r(2) have "bs = c3" by (metis Suc_eq_plus1 length_take min.absorb4 not_less not_less_eq order_le_less take_all)
  moreover have "c5 = c3" using older_same [OF older_trans [OF o34 o4] n3] n5(1) t by simp
  moreover obtain v where "open_at k (ad_file parent) name w = (Inr i, v)"
    using o by (auto simp: open_regular_def io_bind_Inr io_map_err_Inr split: if_splits)
  ultimately show ?thesis using that n5(1) after r(2) by blast
qed

lemma open_parent_path:
  assumes "open_parent k roots p w = (Inr (parent, name), w')"
  obtains az where "authorize roots p = Inr az" "az_canonical az = ad_canonical parent @ [name]"
proof -
  obtain az where az: "authorize roots p = Inr az" and d: "path_parent (az_canonical az) = Some (ad_canonical parent)"
    and name: "az_components az \<noteq> []" "name = last (az_components az)"
    using assms by (auto simp: open_parent_def io_bind_Inr io_map_err_Inr simp del: open_components.simps split: if_splits option.splits)
  have "az_canonical az = rc_canonical (az_root az) @ az_components az" by (rule authorize_confined(2) [OF az])
  moreover have "az_canonical az \<noteq> []" "ad_canonical parent = butlast (az_canonical az)"
    using d by (auto simp: path_parent_def split: if_splits)
  ultimately have "az_canonical az = ad_canonical parent @ [name]"
    using name by (simp add: last_append butlast_append)
  with az that show thesis by blast
qed

lemma read_verified_bytes_content:
  assumes honest: "honest_clock k" and read: "read_verified_bytes k service p maximum w = (Inr (bs, m), w')"
  shows "\<exists>parent name v (w1 :: world) i mode t.
    open_parent k (fsv_roots service) p w = (Inr (parent, name), v) \<and>
    child (w_fs w1) (ad_file parent) name = Inr i \<and> w_calls w' = w_calls w1 + 2 \<and>
    w_fs w' i = Some (Reg mode t bs) \<and> length bs \<le> maximum"
proof -
  obtain parent name w1 w2 w3 i m' where o: "open_parent k (fsv_roots service) p w = (Inr (parent, name), w1)"
    and r: "read_from_parent k parent name maximum ''reading authorized file'' w1 = (Inr (bs, m), w2)"
    and again: "open_regular k parent name ''reopening authorized file'' w2 = (Inr i, w3)"
    and f: "fstat k i w3 = (Inr m', w')" and same: "same_file m m'" "\<not> metadata_changed m m'"
    using read by (auto simp: read_verified_bytes_def io_bind_Inr io_map_err_Inr split: if_splits)
  obtain j mode t where n2: "w_fs w2 j = Some (Reg mode t bs)" "m = metadata_of j (Reg mode t bs)" and len: "length bs \<le> maximum"
    by (rule read_from_parent_content [OF honest r])
  obtain v :: world where v: "child (w_fs v) (ad_file parent) name = Inr i" "w_calls w3 = Suc (w_calls v)"
    using open_regular_Inr [OF again] by metis
  have "older j w2 w3"
    using again by (auto simp: open_regular_def io_bind_Inr io_map_err_Inr intro: older_trans older_calls [OF honest] split: if_splits)
  then have later: "older j w2 w'" by (rule older_trans) (rule older_calls(3) [OF honest f])
  then obtain mode' t' c' where n': "w_fs w' j = Some (Reg mode' t' c')" using n2(1) unfolding older_def by blast
  have ij: "i = j" using same(1) n2(2) fstat_Inr(1) [OF f] by (auto simp: same_file_def)
  then have "m' = metadata_of j (Reg mode' t' c')" using fstat_Inr(1) [OF f] n' by auto
  with same(2) n2(2) have "t' = t" by (simp add: metadata_changed_def)
  then have "c' = bs" using older_same [OF later n2(1)] n' by simp
  with o v ij n' len fstat_Inr(3) [OF f] show ?thesis by fastforce
qed


section \<open>Saving is atomic\<close>

text \<open>While no other process acts, a call that only asks leaves the file system alone.\<close>

definition quiet :: "kernel \<Rightarrow> bool" where
  "quiet k \<longleftrightarrow> (\<forall>n fs. k_env k n fs = fs)"

definition leaves_fs :: "(world \<Rightarrow> 'r \<times> world) \<Rightarrow> bool" where
  "leaves_fs m \<longleftrightarrow> (\<forall>w. w_fs (snd (m w)) = w_fs w)"

named_theorems asking \<open>computations that leave the file system alone\<close>

lemma asking_syscall [asking]: "quiet k \<Longrightarrow> leaves_fs (syscall k (query f))"
  by (auto simp: leaves_fs_def quiet_def syscall_def query_def Let_def split: option.splits)

lemma asking_return [asking]: "leaves_fs (io_return r)"
  by (simp add: leaves_fs_def)

lemma asking_bind [asking]: "leaves_fs m \<Longrightarrow> (\<And>x. leaves_fs (f x)) \<Longrightarrow> leaves_fs (io_bind m f)"
  unfolding leaves_fs_def io_bind_def by (metis (mono_tags, lifting) prod.collapse snd_conv split_conv sum.case_eq_if)

lemma asking_map_err [asking]: "leaves_fs m \<Longrightarrow> leaves_fs (io_map_err f m)"
  unfolding leaves_fs_def io_map_err_def by (metis (no_types, lifting) case_prod_unfold snd_conv)

lemma asking_if [asking]: "(b \<Longrightarrow> leaves_fs m) \<Longrightarrow> (\<not> b \<Longrightarrow> leaves_fs m') \<Longrightarrow> leaves_fs (if b then m else m')"
  by simp

lemma asking_option [asking]:
  "leaves_fs m \<Longrightarrow> (\<And>x. leaves_fs (f x)) \<Longrightarrow> leaves_fs (case y of None \<Rightarrow> m | Some x \<Rightarrow> f x)"
  by (cases y) auto

lemma asking_pair [asking]: "(\<And>a b. leaves_fs (f a b)) \<Longrightarrow> leaves_fs (case p of (a, b) \<Rightarrow> f a b)"
  by (cases p) auto

lemma asking_calls [asking]:
  assumes "quiet k"
  shows "leaves_fs (open_dir_at k d name)" "leaves_fs (open_at k d name)" "leaves_fs (fstat k i)"
  unfolding open_dir_at_def open_at_def fstat_def by (intro asking assms)+

lemma asking_open_components [asking]: "quiet k \<Longrightarrow> leaves_fs (open_components k operation d cs)"
  by (induction cs arbitrary: d) (auto intro!: asking)

lemma asking_open_parent [asking]: "quiet k \<Longrightarrow> leaves_fs (open_parent k roots p)"
  unfolding open_parent_def by (intro asking)

lemma asking_open_regular [asking]: "quiet k \<Longrightarrow> leaves_fs (open_regular k parent name operation)"
  unfolding open_regular_def by (intro asking)

lemma read_to_end_leaves: "quiet k \<Longrightarrow> w_fs (snd (read_to_end k i acc n w)) = w_fs w"
proof (induction k i acc n w rule: read_to_end.induct)
  case (1 k i acc n w)
  obtain r w' where r: "read_at k i (length acc) n w = (r, w')" by (cases "read_at k i (length acc) n w")
  then have fs: "w_fs w' = w_fs w"
    using "1.prems" by (auto simp: read_at_def syscall_def query_def quiet_def Let_def split: option.splits)
  show ?case
  proof (cases "n = 0 \<or> (\<exists>e. r = Inl e) \<or> r = Inr []")
    case True
    then show ?thesis using r fs by (auto simp: read_to_end.simps [of k i acc n w])
  next
    case False
    then obtain chunk where "r = Inr chunk" "n \<noteq> 0" "chunk \<noteq> []" by (cases r) auto
    with "1.IH" [OF _ r [symmetric], of chunk] "1.prems" fs r show ?thesis
      by (simp add: read_to_end.simps [of k i acc n w])
  qed
qed

lemma asking_read_to_end [asking]: "quiet k \<Longrightarrow> leaves_fs (read_to_end k i acc n)"
  by (simp add: leaves_fs_def read_to_end_leaves)

lemma asking_read_from_parent [asking]: "quiet k \<Longrightarrow> leaves_fs (read_from_parent k parent name maximum operation)"
  unfolding read_from_parent_def by (intro asking)

lemma quiet_honest: "quiet k \<Longrightarrow> honest_clock k"
  by (auto simp: quiet_def honest_clock_def)

lemma quiet_world: "leaves_fs m \<Longrightarrow> m w = (r, w') \<Longrightarrow> w_fs w' = w_fs w"
  unfolding leaves_fs_def by (metis snd_conv)

lemma syscall_quiet:
  assumes "quiet k" "syscall k f w = (r, w')"
  shows "(\<exists>e. r = Inl e \<and> w_fs w' = w_fs w) \<or> f (w_fs w) = (r, w_fs w')"
  using assms by (auto simp: quiet_def syscall_def Let_def split: option.splits prod.splits)

text \<open>
  The states of a save, over the file system \<open>fs\<close> before it: the temporary file is \<open>tmp\<close>, with
  content \<open>n\<close>, under its own name, or it has replaced the file.
\<close>

definition staged :: "file_system \<Rightarrow> inode \<Rightarrow> u32 \<Rightarrow> (string \<rightharpoonup> inode) \<Rightarrow> string \<Rightarrow> inode \<Rightarrow> node \<Rightarrow> file_system" where
  "staged fs d m es name tmp n = fs(tmp \<mapsto> n, d \<mapsto> Dir m (es(name \<mapsto> tmp)))"

lemma staged_lookup [simp]:
  "tmp \<noteq> d \<Longrightarrow> staged fs d m es name tmp n tmp = Some n"
  "staged fs d m es name tmp n d = Some (Dir m (es(name \<mapsto> tmp)))"
  by (auto simp: staged_def)

lemma staged_upd [simp]: "tmp \<noteq> d \<Longrightarrow> (staged fs d m es name tmp n)(tmp \<mapsto> n') = staged fs d m es name tmp n'"
  by (auto simp: staged_def fun_upd_twist)

lemma set_permissions_staged:
  assumes "quiet k" "tmp \<noteq> d" "w_fs w = staged fs d m es t tmp (Reg mode mtime c)" "set_permissions k tmp mode' w = (r, w')"
  shows "\<exists>mode''. w_fs w' = staged fs d m es t tmp (Reg mode'' mtime c) \<and> (r = Inr () \<longrightarrow> mode'' = mode')"
  using syscall_quiet [OF assms(1) assms(4) [unfolded set_permissions_def]] assms(2,3) by auto

lemma write_all_staged:
  "quiet k \<Longrightarrow> tmp \<noteq> d \<Longrightarrow> w_fs w = staged fs d m es t tmp (Reg mode mtime c) \<Longrightarrow> write_all k tmp bs w = (r, w') \<Longrightarrow>
   \<exists>mtime' c'. w_fs w' = staged fs d m es t tmp (Reg mode mtime' c') \<and> (r = Inr () \<longrightarrow> c' = c @ bs)"
proof (induction k tmp bs w arbitrary: mtime c rule: write_all.induct)
  case (1 k tmp bs w)
  note unfold = write_all.simps [of k tmp bs w]
  obtain r1 w1 where a: "append_to k tmp bs w = (r1, w1)" by (cases "append_to k tmp bs w")
  show ?case
  proof (cases "bs = []")
    case True
    then show ?thesis using "1.prems"(3,4) unfolding unfold by auto
  next
    case False
    show ?thesis
    proof (cases r1)
      case (Inl e)
      then have "w_fs w1 = w_fs w"
        using syscall_quiet [OF "1.prems"(1) a [unfolded append_to_def Let_def]] "1.prems"(2,3) by auto
      with Inl a False "1.prems"(3,4) show ?thesis unfolding unfold by auto
    next
      case (Inr n)
      then have "\<exists>mtime'. w_fs w1 = staged fs d m es t tmp (Reg mode mtime' (c @ take n bs))"
        using syscall_quiet [OF "1.prems"(1) a [unfolded append_to_def Let_def]] "1.prems"(2,3)
        by (auto intro!: exI [of _ "k_now k (w_calls w)"])
      then obtain mtime' where w1: "w_fs w1 = staged fs d m es t tmp (Reg mode mtime' (c @ take n bs))" by blast
      have "write_all k tmp (drop n bs) w1 = (r, w')" using "1.prems"(4) a Inr False unfolding unfold by simp
      from "1.IH" [OF False a [symmetric] Inr "1.prems"(1,2) w1 this] show ?thesis by simp
    qed
  qed
qed

lemma sync_node_quiet: "quiet k \<Longrightarrow> sync_node k i w = (r, w') \<Longrightarrow> w_fs w' = w_fs w"
  using syscall_quiet [of k "\<lambda>fs. (Inr (), fs)" w] by (auto simp: sync_node_def)

lemma asking_sync_node [asking]: "quiet k \<Longrightarrow> leaves_fs (sync_node k i)"
  unfolding leaves_fs_def using sync_node_quiet by (metis prod.collapse)

text \<open>The published state.\<close>

lemma rename_at_staged:
  assumes "quiet k" "tmp \<noteq> d" "es t = None" "es name = Some j" "j \<noteq> tmp" "j \<noteq> d" "fs j = Some (Reg jmode jt jc)"
    and "w_fs w = staged fs d m es t tmp n" "rename_at k d t name w = (r, w')"
  shows "(\<exists>e. r = Inl e \<and> w_fs w' = w_fs w) \<or> r = Inr () \<and> w_fs w' = staged fs d m es name tmp n"
proof -
  have "t \<noteq> name" using assms(3,4) by auto
  then have es: "(es(t \<mapsto> tmp))(t := None, name \<mapsto> tmp) = es(name \<mapsto> tmp)" using assms(3) by (auto simp: fun_eq_iff)
  have "(staged fs d m es t tmp n)(d \<mapsto> Dir m (es(name \<mapsto> tmp))) = staged fs d m es name tmp n"
    by (simp add: staged_def)
  moreover have "staged fs d m es t tmp n j = Some (Reg jmode jt jc)" using assms by (simp add: staged_def)
  ultimately show ?thesis
    using syscall_quiet [OF assms(1) assms(9) [unfolded rename_at_def]] assms(2-5,8) es \<open>t \<noteq> name\<close> by auto
qed

lemma unlink_at_staged:
  assumes "quiet k" "tmp \<noteq> d" "es t = None" "w_fs w = staged fs d m es t tmp n" "unlink_at k d t w = (r, w')" "fs d = Some (Dir m es)"
  shows "w_fs w' = w_fs w \<or> w_fs w' = fs(tmp \<mapsto> n)"
proof -
  have "(es(t \<mapsto> tmp))(t := None) = es" using assms(3) by auto
  moreover have "(staged fs d m es t tmp n)(d \<mapsto> Dir m es) = fs(tmp \<mapsto> n)"
    using assms(2,6) by (auto simp: staged_def fun_eq_iff)
  ultimately show ?thesis
    using syscall_quiet [OF assms(1) assms(5) [unfolded unlink_at_def]] assms(2,4) by auto
qed

lemma unlink_at_published:
  assumes "quiet k" "es t = None" "t \<noteq> name" "w_fs w = staged fs d m es name tmp n" "unlink_at k d t w = (r, w')"
  shows "w_fs w' = w_fs w"
  using syscall_quiet [OF assms(1) assms(5) [unfolded unlink_at_def]] assms(2-4) by auto


text \<open>Triples: what holds after success and after an error.\<close>

definition hoare ::
  "('w \<Rightarrow> bool) \<Rightarrow> ('w \<Rightarrow> ('e + 'a) \<times> 'w) \<Rightarrow> ('a \<Rightarrow> 'w \<Rightarrow> bool) \<Rightarrow> ('e \<Rightarrow> 'w \<Rightarrow> bool) \<Rightarrow> bool" where
  "hoare P m Q E \<longleftrightarrow> (\<forall>w r w'. P w \<longrightarrow> m w = (r, w') \<longrightarrow> (case r of Inl e \<Rightarrow> E e w' | Inr x \<Rightarrow> Q x w'))"

lemma hoare_bind: "hoare P m R E \<Longrightarrow> (\<And>x. hoare (R x) (f x) Q E) \<Longrightarrow> hoare P (io_bind m f) Q E"
  unfolding hoare_def io_bind_def by (fastforce split: sum.splits prod.splits)

lemma hoare_map_err:
  assumes "hoare P m Q (\<lambda>e. E (f e))"
  shows "hoare P (io_map_err f m) Q E"
  unfolding hoare_def
proof (intro allI impI)
  fix w r w' assume "P w" "io_map_err f m w = (r, w')"
  then obtain r0 where "m w = (r0, w')" "r = map_err f r0" by (auto simp: io_map_err_def split: prod.splits)
  with assms \<open>P w\<close> show "case r of Inl e \<Rightarrow> E e w' | Inr x \<Rightarrow> Q x w'"
    by (cases r0) (force simp: hoare_def)+
qed

lemma hoare_return: "hoare (\<lambda>w. case r of Inl e \<Rightarrow> E e w | Inr x \<Rightarrow> Q x w) (io_return r) Q E"
  by (auto simp: hoare_def)

lemma hoare_weaken:
  "hoare P m Q E \<Longrightarrow> (\<And>w. P' w \<Longrightarrow> P w) \<Longrightarrow> (\<And>x w. Q x w \<Longrightarrow> Q' x w) \<Longrightarrow> (\<And>e w. E e w \<Longrightarrow> E' e w) \<Longrightarrow> hoare P' m Q' E'"
  unfolding hoare_def by (fastforce split: sum.splits)

lemma hoare_call:
  assumes "hoare P m (\<lambda>_. R) E'" "\<And>e w. E' e w \<Longrightarrow> E (f e) w" "\<And>x. hoare R (g x) Q E"
  shows "hoare P (io_bind (io_map_err f m) g) Q E"
proof -
  have "hoare P m (\<lambda>_. R) (\<lambda>e. E (f e))" by (rule hoare_weaken [OF assms(1)]) (auto intro: assms(2))
  then have "hoare P (io_map_err f m) (\<lambda>_. R) E" by (rule hoare_map_err)
  from hoare_bind [OF this assms(3)] show ?thesis .
qed

lemma hoare_leaves:
  assumes "leaves_fs m" "\<And>w w'. w_fs w = w_fs w' \<Longrightarrow> P w = P w'" "\<And>e w. P w \<Longrightarrow> E e w"
  shows "hoare P m (\<lambda>_. P) E"
  unfolding hoare_def
proof (intro allI impI)
  fix w r w' assume "P w" "m w = (r, w')"
  then have "P w'" using quiet_world [OF assms(1)] assms(2) by metis
  with assms(3) show "case r of Inl e \<Rightarrow> E e w' | Inr x \<Rightarrow> P w'" by (cases r) auto
qed

text \<open>
  What publishing leaves: an error before the rename leaves the temporary file; once the rename took
  effect, the name holds the complete text with the permissions of the old file.
\<close>

lemma publish_text_outcome:
  assumes quiet: "quiet k" and tmp: "tmp \<noteq> ad_file parent" "j \<noteq> tmp" "j \<noteq> ad_file parent"
    and es: "es t = None" "es name = Some j" "fs j = Some (Reg jmode jt jc)"
    and start: "w_fs w = staged fs (ad_file parent) m es t tmp (Reg mode mtime [])"
    and run: "publish_text k sha256 parent name maximum content expected t tmp meta w = (r, w')"
  shows "(\<exists>e n. r = Inl e \<and> w_fs w' = staged fs (ad_file parent) m es t tmp n) \<or>
    (\<exists>mtime'. w_fs w' = staged fs (ad_file parent) m es name tmp (Reg (md_mode meta) mtime' (text_bytes content)) \<and>
       (r = Inr \<lparr>svr_fingerprint = sha256 (text_bytes content), svr_bytes = length content\<rparr> \<or>
        (\<exists>e. r = Inl (ProjectIo ''syncing save directory'' e))))"
proof -
  let ?d = "ad_file parent"
  let ?staged = "\<lambda>n w. w_fs w = staged fs ?d m es t tmp n"
  let ?done = "\<lambda>w. \<exists>mtime'. w_fs w = staged fs ?d m es name tmp (Reg (md_mode meta) mtime' (text_bytes content))"
  let ?E = "\<lambda>e w. (\<exists>n. ?staged n w) \<or> ?done w \<and> (\<exists>e'. e = ProjectIo ''syncing save directory'' e')"
  let ?written = "\<lambda>w. \<exists>mtime'. ?staged (Reg (md_mode meta) mtime' (text_bytes content)) w"
  have permissions: "hoare (?staged (Reg mode mtime [])) (set_permissions k tmp (md_mode meta))
      (\<lambda>_. ?staged (Reg (md_mode meta) mtime [])) (\<lambda>e w. \<exists>n. ?staged n w)"
    unfolding hoare_def using set_permissions_staged [OF quiet tmp(1)] by (fastforce split: sum.split)
  have "write": "hoare (?staged (Reg (md_mode meta) mtime [])) (write_all k tmp (text_bytes content))
      (\<lambda>_. ?written) (\<lambda>e w. \<exists>n. ?staged n w)"
    unfolding hoare_def using write_all_staged [OF quiet tmp(1)] by (fastforce split: sum.split)
  have recheck: "hoare ?written (read_from_parent k parent name maximum ''rechecking file before save'') (\<lambda>_. ?written)
      (\<lambda>e w. \<exists>n. ?staged n w)"
    by (rule hoare_leaves [OF asking_read_from_parent [OF quiet]]) auto
  have "rename": "hoare ?written (rename_at k ?d t name) (\<lambda>_. ?done) (\<lambda>e w. \<exists>n. ?staged n w)"
    unfolding hoare_def
  proof (intro allI impI)
    fix w r w' assume "?written w" and run: "rename_at k ?d t name w = (r, w')"
    then obtain n where n: "?staged n w" "\<exists>mtime'. n = Reg (md_mode meta) mtime' (text_bytes content)" by blast
    show "case r of Inl e \<Rightarrow> \<exists>n. ?staged n w' | Inr _ \<Rightarrow> ?done w'"
      using rename_at_staged [OF quiet tmp(1) es(1,2) tmp(2,3) es(3) n(1) run] n by (cases r) auto
  qed
  let ?Q = "\<lambda>r w. r = \<lparr>svr_fingerprint = sha256 (text_bytes content), svr_bytes = length content\<rparr> \<and> ?done w"
  have finish: "hoare ?done (io_bind (io_map_err (ProjectIo ''syncing save directory'') (sync_node k ?d)) (\<lambda>_.
      io_return (Inr \<lparr>svr_fingerprint = sha256 (text_bytes content), svr_bytes = length content\<rparr>))) ?Q ?E"
  proof (rule hoare_bind)
    show "hoare ?done (io_map_err (ProjectIo ''syncing save directory'') (sync_node k ?d)) (\<lambda>_. ?done) ?E"
      by (rule hoare_map_err, rule hoare_leaves [OF asking_sync_node [OF quiet]]) auto
    show "hoare ?done (io_return (Inr \<lparr>svr_fingerprint = sha256 (text_bytes content), svr_bytes = length content\<rparr>)) ?Q ?E"
      by (simp add: hoare_def)
  qed
  have publish: "hoare ?written (if sha256 latest \<noteq> expected then io_return (Inl SaveConflict)
       else io_bind (io_map_err (ProjectIo ''publishing atomic save'') (rename_at k ?d t name)) (\<lambda>_.
         io_bind (io_map_err (ProjectIo ''syncing save directory'') (sync_node k ?d)) (\<lambda>_.
           io_return (Inr \<lparr>svr_fingerprint = sha256 (text_bytes content), svr_bytes = length content\<rparr>)))) ?Q ?E" for latest
  proof (cases "sha256 latest = expected")
    case True
    then show ?thesis using hoare_call [OF "rename" _ finish] by simp
  qed (auto simp: hoare_def)
  have sync: "hoare ?written (sync_node k tmp) (\<lambda>_. ?written) (\<lambda>e w. \<exists>n. ?staged n w)"
    by (rule hoare_leaves [OF asking_sync_node [OF quiet]]) auto
  have checked: "hoare ?written (io_bind (read_from_parent k parent name maximum ''rechecking file before save'')
      (\<lambda>(latest, _). if sha256 latest \<noteq> expected then io_return (Inl SaveConflict)
       else io_bind (io_map_err (ProjectIo ''publishing atomic save'') (rename_at k ?d t name)) (\<lambda>_.
         io_bind (io_map_err (ProjectIo ''syncing save directory'') (sync_node k ?d)) (\<lambda>_.
           io_return (Inr \<lparr>svr_fingerprint = sha256 (text_bytes content), svr_bytes = length content\<rparr>))))) ?Q ?E"
  proof (rule hoare_bind)
    show "hoare ?written (read_from_parent k parent name maximum ''rechecking file before save'') (\<lambda>_. ?written) ?E"
      by (rule hoare_weaken [OF recheck]) auto
  qed (auto simp only: split_def intro: publish)
  have "hoare (?staged (Reg mode mtime [])) (publish_text k sha256 parent name maximum content expected t tmp meta) ?Q ?E"
    unfolding publish_text_def
    by (rule hoare_call [OF permissions _ hoare_call [OF "write" _ hoare_call [OF sync _ checked]]]; blast)
  with start run have "case r of Inl e \<Rightarrow> ?E e w' | Inr x \<Rightarrow> ?Q x w'" unfolding hoare_def by blast
  then show ?thesis by (cases r) auto
qed


lemma read_from_parent_quiet:
  assumes "quiet k" "read_from_parent k parent name maximum operation w = (Inr (bs, m), w')"
  obtains i mode t where "child (w_fs w) (ad_file parent) name = Inr i" "w_fs w i = Some (Reg mode t bs)" "md_mode m = mode"
proof -
  obtain i mode t v where i: "w_fs w' i = Some (Reg mode t bs)" "m = metadata_of i (Reg mode t bs)"
    and v: "open_at k (ad_file parent) name w = (Inr i, v)"
    by (rule read_from_parent_content [OF quiet_honest [OF assms(1)] assms(2)])
  have "w_fs w' = w_fs w" "w_fs v = w_fs w"
    using quiet_world [OF asking_read_from_parent [OF assms(1)] assms(2)] quiet_world [OF asking_calls(2) [OF assms(1)] v] by auto
  with i open_at_Inr(1) [OF v] that show thesis by simp
qed

lemma create_exclusive_quiet:
  assumes "quiet k" "w_fs w (k_fresh k (w_fs w)) = None" "create_exclusive k d t w = (r, w')" "w_fs w d = Some (Dir m es)"
  shows "(\<exists>e. r = Inl e \<and> w_fs w' = w_fs w) \<or>
    (\<exists>tmp mtime. r = Inr tmp \<and> w_fs w tmp = None \<and> es t = None \<and> w_fs w' = staged (w_fs w) d m es t tmp (Reg 384 mtime []))"
  using syscall_quiet [OF assms(1) assms(3) [unfolded create_exclusive_def]]
proof (elim disjE)
  assume "\<exists>e. r = Inl e \<and> w_fs w' = w_fs w"
  then show ?thesis ..
next
  let ?i = "k_fresh k (w_fs w)"
  assume "(case w_fs w d of
      Some (Dir mode entries) \<Rightarrow>
        if entries t \<noteq> None then (Inl EEXIST, w_fs w)
        else let i = k_fresh k (w_fs w) in
             (Inr i, (w_fs w)(i \<mapsto> Reg 384 (k_now k (w_calls w)) [], d \<mapsto> Dir mode (entries(t \<mapsto> i))))
    | _ \<Rightarrow> (Inl ENOTDIR, w_fs w)) = (r, w_fs w')"
  then have "r = Inl EEXIST \<and> w_fs w' = w_fs w \<or>
      r = Inr ?i \<and> es t = None \<and> w_fs w' = staged (w_fs w) d m es t ?i (Reg 384 (k_now k (w_calls w)) [])"
    using assms(4) by (auto simp: staged_def Let_def split: if_splits)
  then show ?thesis using assms(2) by blast
qed

text \<open>
  C24. Saving a file is atomic. While no other process acts, whatever system call fails, a save ends
  in one of three ways. It fails before creating anything, and the file system is as before. It fails
  later, and the file system is as before except for the temporary file. Or the name holds a new file
  with exactly the saved text and the old permissions, every other entry and every other file being
  untouched; then the save reports success, or only that it could not flush the directory. In the
  last two cases the old content had the fingerprint the client expected.
\<close>

theorem save_text_atomic:
  assumes quiet: "quiet k" and fresh: "w_fs w (k_fresh k (w_fs w)) = None"
    and opened: "open_parent k (fsv_roots service) p w = (Inr (parent, name), w1)"
    and run: "save_text k sha256 service t p content expected w = (r, w')"
  shows "(\<exists>e. r = Inl e \<and> w_fs w' = w_fs w) \<or>
    (\<exists>m es j mode mtime old tmp. w_fs w (ad_file parent) = Some (Dir m es) \<and> es name = Some j \<and>
       w_fs w j = Some (Reg mode mtime old) \<and> sha256 old = expected \<and> w_fs w tmp = None \<and>
       ((\<exists>e n. r = Inl e \<and>
           (w_fs w' = (w_fs w)(tmp \<mapsto> n) \<or> w_fs w' = (w_fs w)(tmp \<mapsto> n, ad_file parent \<mapsto> Dir m (es(t \<mapsto> tmp))))) \<or>
        (\<exists>mtime'. w_fs w' = (w_fs w)(tmp \<mapsto> Reg mode mtime' (text_bytes content), ad_file parent \<mapsto> Dir m (es(name \<mapsto> tmp))) \<and>
           (r = Inr \<lparr>svr_fingerprint = sha256 (text_bytes content), svr_bytes = length content\<rparr> \<or>
            (\<exists>e. r = Inl (ProjectIo ''syncing save directory'' e))))))"
proof (cases "length content > fsv_maximum_text_bytes service")
  case True
  then show ?thesis using run by (auto simp: save_text_def)
next
  case small: False
  let ?d = "ad_file parent" and ?max = "fsv_maximum_text_bytes service"
  have w1: "w_fs w1 = w_fs w" by (rule quiet_world [OF asking_open_parent [OF quiet] opened])
  obtain r2 w2 where r2: "read_from_parent k parent name ?max ''reading file before save'' w1 = (r2, w2)"
    by (cases "read_from_parent k parent name ?max ''reading file before save'' w1")
  have w2: "w_fs w2 = w_fs w" using quiet_world [OF asking_read_from_parent [OF quiet] r2] w1 by simp
  show ?thesis
  proof (cases "\<exists>current meta. r2 = Inr (current, meta) \<and> sha256 current = expected")
    case False
    then show ?thesis using run opened r2 w2 small
      by (cases r2) (auto simp: save_text_def io_bind_def split: if_splits)
  next
    case True
    then obtain old meta where old: "r2 = Inr (old, meta)" "sha256 old = expected" by blast
    obtain j mode mtime where j: "child (w_fs w) ?d name = Inr j" "w_fs w j = Some (Reg mode mtime old)" "md_mode meta = mode"
      using read_from_parent_quiet [OF quiet r2 [unfolded old(1)]] w1 by metis
    then obtain m es where d: "w_fs w ?d = Some (Dir m es)" "es name = Some j"
      by (auto simp: child_def split: option.splits node.splits)
    obtain r3 w3 where r3: "create_exclusive k ?d t w2 = (r3, w3)" by (cases "create_exclusive k ?d t w2")
    show ?thesis
    proof (cases r3)
      case (Inl e)
      then have "w_fs w3 = w_fs w" using create_exclusive_quiet [OF quiet _ r3] fresh d w2 by auto
      with Inl show ?thesis using run opened r2 r3 old small
        by (auto simp: save_text_def io_bind_def io_map_err_def)
    next
      case (Inr tmp)
      then obtain mtime0 where tmp: "w_fs w tmp = None" "es t = None"
        and staged: "w_fs w3 = staged (w_fs w) ?d m es t tmp (Reg 384 mtime0 [])"
        using create_exclusive_quiet [OF quiet _ r3] fresh d w2 by auto
      have ne: "tmp \<noteq> ?d" "j \<noteq> tmp" "j \<noteq> ?d" "t \<noteq> name" using tmp d j(2) by auto
      obtain r4 w4 where r4: "publish_text k sha256 parent name ?max content expected t tmp meta w3 = (r4, w4)"
        by (cases "publish_text k sha256 parent name ?max content expected t tmp meta w3")
      obtain r5 w5 where r5: "unlink_at k ?d t w4 = (r5, w5)" by (cases "unlink_at k ?d t w4")
      have rw: "r = r4" "w' = (case r4 of Inl e \<Rightarrow> w5 | Inr x \<Rightarrow> w4)"
        using run opened r2 r3 r4 r5 old small Inr
        by (auto simp: save_text_def io_bind_def io_map_err_def split: sum.splits)
      note out = publish_text_outcome [OF quiet ne(1-3) tmp(2) d(2) j(2) staged r4]
      have kept: "w_fs w5 = w_fs w4 \<or> w_fs w5 = (w_fs w)(tmp \<mapsto> n)" if "w_fs w4 = staged (w_fs w) ?d m es t tmp n" for n
        using unlink_at_staged [OF quiet ne(1) tmp(2) that r5 d(1)] .
      have published: "w_fs w5 = w_fs w4" if "w_fs w4 = staged (w_fs w) ?d m es name tmp n" for n
        using unlink_at_published [OF quiet tmp(2) ne(4) that r5] .
      from out show ?thesis
      proof (elim disjE exE conjE)
        fix e n assume "r4 = Inl e" "w_fs w4 = staged (w_fs w) ?d m es t tmp n"
        then have "r = Inl e \<and> (w_fs w' = (w_fs w)(tmp \<mapsto> n) \<or> w_fs w' = (w_fs w)(tmp \<mapsto> n, ?d \<mapsto> Dir m (es(t \<mapsto> tmp))))"
          using kept [of n] rw by (auto simp: staged_def)
        then show ?thesis using d j(2) old(2) tmp(1) by blast
      next
        fix mtime' assume "w_fs w4 = staged (w_fs w) ?d m es name tmp (Reg (md_mode meta) mtime' (text_bytes content))"
          and r4: "r4 = Inr \<lparr>svr_fingerprint = sha256 (text_bytes content), svr_bytes = length content\<rparr>"
        then have "w_fs w' = (w_fs w)(tmp \<mapsto> Reg mode mtime' (text_bytes content), ?d \<mapsto> Dir m (es(name \<mapsto> tmp)))"
          using rw j(3) by (simp add: staged_def)
        then show ?thesis using d j(2) old(2) tmp(1) rw(1) r4 by blast
      next
        fix mtime' e assume w4: "w_fs w4 = staged (w_fs w) ?d m es name tmp (Reg (md_mode meta) mtime' (text_bytes content))"
          and r4: "r4 = Inl (ProjectIo ''syncing save directory'' e)"
        then have "w_fs w' = (w_fs w)(tmp \<mapsto> Reg mode mtime' (text_bytes content), ?d \<mapsto> Dir m (es(name \<mapsto> tmp)))"
          using rw published [OF w4] j(3) by (simp add: staged_def)
        then show ?thesis using d j(2) old(2) tmp(1) rw(1) r4 by blast
      qed
    qed
  qed
qed


text \<open>A workspace with a file of two bytes, read and saved.\<close>

definition sample_file_world :: world where
  "sample_file_world =
     \<lparr>w_fs = sample_fs(2 \<mapsto> Dir 493 [''a.txt'' \<mapsto> 5], 5 \<mapsto> Reg 420 7 [104, 105]), w_calls = 0\<rparr>"

definition sample_files :: file_service where
  "sample_files = \<lparr>fsv_roots = [sample_root], fsv_maximum_text_bytes = 10\<rparr>"

definition sample_path :: path where
  "sample_path = [''/'', ''w'', ''src'', ''a.txt'']"

definition sample_sha256 :: "bytes \<Rightarrow> file_fingerprint" where
  "sample_sha256 bs = [of_nat (length bs), sum_list bs]"

lemma sample_parent_opened:
  "open_parent quiet_kernel (fsv_roots sample_files) sample_path sample_file_world =
   (Inr (\<lparr>ad_canonical = [''/'', ''w'', ''src''], ad_file = 2\<rparr>, ''a.txt''), sample_file_world\<lparr>w_calls := 2\<rparr>)"
  by (simp add: open_parent_def authorize_def is_absolute_def path_starts_with_def path_parent_def match_prefix_def
      normalize_absolute_def normal_component_def sample_root_def sample_files_def sample_path_def sample_file_world_def
      kernel_defs)

lemma sample_reads:
  "read_from_parent quiet_kernel \<lparr>ad_canonical = p, ad_file = 2\<rparr> ''a.txt'' 10 operation (sample_file_world\<lparr>w_calls := n\<rparr>) =
   (Inr ([104, 105], metadata_of 5 (Reg 420 7 [104, 105])), sample_file_world\<lparr>w_calls := n + 6\<rparr>)"
  "open_regular quiet_kernel \<lparr>ad_canonical = p, ad_file = 2\<rparr> ''a.txt'' operation (sample_file_world\<lparr>w_calls := n\<rparr>) =
   (Inr 5, sample_file_world\<lparr>w_calls := n + 2\<rparr>)"
  by (simp_all add: read_from_parent_def open_regular_def open_at_def read_to_end.simps read_at_def metadata_changed_def
      same_file_def sample_file_world_def kernel_defs)


lemma sample_text_read:
  "read_text quiet_kernel sample_sha256 sample_files sample_path sample_file_world =
   (Inr \<lparr>tf_path = sample_path, tf_text = ''hi'', tf_fingerprint = sample_sha256 [104, 105], tf_bytes = 2\<rparr>,
    sample_file_world\<lparr>w_calls := 11\<rparr>)"
proof -
  have stat: "fstat quiet_kernel 5 (sample_file_world\<lparr>w_calls := n\<rparr>) =
      (Inr (metadata_of 5 (Reg 420 7 [104, 105])), sample_file_world\<lparr>w_calls := Suc n\<rparr>)" for n
    by (simp add: sample_file_world_def kernel_defs)
  have "authorize (fsv_roots sample_files) sample_path =
      Inr \<lparr>az_root = sample_root, az_canonical = sample_path, az_components = [''src'', ''a.txt'']\<rparr>"
    by (simp add: authorize_def is_absolute_def path_starts_with_def path_parent_def match_prefix_def Let_def
        normalize_absolute_def normal_component_def sample_root_def sample_files_def sample_path_def)
  moreover have "valid_utf8 [104, 105]" "\<not> looks_binary [104, 105]"
    by (simp_all add: valid_utf8.simps utf8_head_def Let_def looks_binary_def)
  moreover have "bytes_text [104, 105] = ''hi''" by code_simp
  moreover have "fsv_maximum_text_bytes sample_files = 10" by (simp add: sample_files_def)
  ultimately show ?thesis
    by (simp add: read_text_def read_verified_bytes_def io_bind_def io_map_err_def sample_parent_opened sample_reads stat
        MAXIMUM_TEXT_BYTES_def same_file_def metadata_changed_def)
qed


text \<open>Saving three bytes over the file.\<close>

lemma sample_text_saved:
  "fst (save_text quiet_kernel sample_sha256 sample_files ''tmp'' sample_path ''new'' (sample_sha256 [104, 105]) sample_file_world) =
   Inr \<lparr>svr_fingerprint = sample_sha256 (text_bytes ''new''), svr_bytes = 3\<rparr>"
  by (simp add: open_parent_def authorize_def is_absolute_def path_starts_with_def path_parent_def match_prefix_def
      normalize_absolute_def normal_component_def sample_root_def sample_path_def sample_sha256_def save_text_def publish_text_def create_exclusive_def set_permissions_def write_all.simps append_to_def
      sync_node_def rename_at_def read_from_parent_def open_regular_def open_at_def read_to_end.simps read_at_def
      metadata_changed_def same_file_def sample_files_def text_bytes_def sample_file_world_def kernel_defs)

theorem save_text_atomic_witness:
  "\<exists>w' tmp mode mtime. snd (save_text quiet_kernel sample_sha256 sample_files ''tmp'' sample_path ''new'' (sample_sha256 [104, 105])
       sample_file_world) = w' \<and>
     child (w_fs w') 2 ''a.txt'' = Inr tmp \<and> w_fs w' tmp = Some (Reg mode mtime (text_bytes ''new''))"
proof -
  have quiet: "quiet quiet_kernel" by (simp add: quiet_def quiet_kernel_def)
  have fresh: "w_fs sample_file_world (k_fresh quiet_kernel (w_fs sample_file_world)) = None"
    by (simp add: sample_file_world_def sample_fs_def quiet_kernel_def)
  obtain w' where run: "save_text quiet_kernel sample_sha256 sample_files ''tmp'' sample_path ''new'' (sample_sha256 [104, 105])
      sample_file_world = (Inr \<lparr>svr_fingerprint = sample_sha256 (text_bytes ''new''), svr_bytes = 3\<rparr>, w')"
    using sample_text_saved by (metis prod.collapse)
  show ?thesis
    using save_text_atomic [OF quiet fresh sample_parent_opened run] run by (auto simp: child_def)
qed

end
