(* ===== verification/Git_Output.thy ===== *)
theory Git_Output
  imports Text_Files
begin

text \<open>
  The Git service, \<^verbatim>\<open>crates/maestro-project/src/git.rs\<close>: running the Git executable in an authorized
  directory with bounded output, and the parsers of \<^verbatim>\<open>git status --porcelain=v2 -z\<close> and of
  \<^verbatim>\<open>git worktree list --porcelain -z\<close>. Git itself is not part of the repository: what a run writes and
  how it ends is the parameter \<open>exec\<close>. A \<^verbatim>\<open>PathBuf\<close> made of raw bytes is that list of bytes.
\<close>

section \<open>Text from bytes\<close>

text \<open>
  \<^verbatim>\<open>String::from_utf8_lossy\<close>: every maximal piece of an ill-formed sequence becomes U+FFFD. The length
  of such a piece is that of the longest proper beginning of a well-formed sequence, at least 1.
\<close>

definition REPLACEMENT :: string where
  "REPLACEMENT = [char_of (0xEF :: nat), char_of (0xBF :: nat), char_of (0xBD :: nat)]"

definition second_in_range :: "u8 \<Rightarrow> u8 \<Rightarrow> bool" where
  "second_in_range a b \<longleftrightarrow>
     (if a = 0xE0 then 0xA0 \<le> b \<and> b \<le> 0xBF
      else if a = 0xED then 0x80 \<le> b \<and> b \<le> 0x9F
      else if a = 0xF0 then 0x90 \<le> b \<and> b \<le> 0xBF
      else if a = 0xF4 then 0x80 \<le> b \<and> b \<le> 0x8F
      else continuation b)"

definition invalid_length :: "bytes \<Rightarrow> nat" where
  "invalid_length bs =
     (if 2 \<le> length bs \<and> 0xE0 \<le> bs ! 0 \<and> bs ! 0 \<le> 0xF4 \<and> second_in_range (bs ! 0) (bs ! 1)
      then (if 3 \<le> length bs \<and> 0xF0 \<le> bs ! 0 \<and> continuation (bs ! 2) then 3 else 2)
      else 1)"

function from_utf8_lossy :: "bytes \<Rightarrow> string" where
  "from_utf8_lossy bs =
     (if bs = [] then []
      else if utf8_head bs = 0 then REPLACEMENT @ from_utf8_lossy (drop (invalid_length bs) bs)
      else bytes_text (take (utf8_head bs) bs) @ from_utf8_lossy (drop (utf8_head bs) bs))"
  by pat_completeness auto
termination
  by (relation "measure length") (auto simp: invalid_length_def)

declare from_utf8_lossy.simps [simp del]

lemma from_utf8_lossy_Nil [simp]: "from_utf8_lossy [] = []"
  by (simp add: from_utf8_lossy.simps)

lemma from_utf8_lossy_valid: "valid_utf8 bs \<Longrightarrow> from_utf8_lossy bs = bytes_text bs"
proof (induction bs rule: from_utf8_lossy.induct)
  case (1 bs)
  show ?case
  proof (cases "bs = []")
    case True
    then show ?thesis by (simp add: bytes_text_def)
  next
    case False
    then have h: "utf8_head bs \<noteq> 0" "valid_utf8 (drop (utf8_head bs) bs)"
      using "1.prems" valid_utf8.simps [of bs] by (auto split: if_splits)
    have "from_utf8_lossy bs = bytes_text (take (utf8_head bs) bs) @ from_utf8_lossy (drop (utf8_head bs) bs)"
      by (subst from_utf8_lossy.simps) (simp add: False h(1))
    also have "\<dots> = bytes_text (take (utf8_head bs) bs) @ bytes_text (drop (utf8_head bs) bs)"
      using "1.IH"(2) [OF False h(1) h(2)] by simp
    finally show ?thesis by (simp add: bytes_text_def flip: map_append)
  qed
qed

text \<open>\<^verbatim>\<open>str::trim\<close>: the characters with the Unicode property \<open>White_Space\<close>, in UTF-8.\<close>

definition WHITE_SPACE :: "bytes list" where
  "WHITE_SPACE = [[9], [10], [11], [12], [13], [32], [0xC2, 0x85], [0xC2, 0xA0], [0xE1, 0x9A, 0x80],
     [0xE2, 0x80, 0x80], [0xE2, 0x80, 0x81], [0xE2, 0x80, 0x82], [0xE2, 0x80, 0x83], [0xE2, 0x80, 0x84],
     [0xE2, 0x80, 0x85], [0xE2, 0x80, 0x86], [0xE2, 0x80, 0x87], [0xE2, 0x80, 0x88], [0xE2, 0x80, 0x89],
     [0xE2, 0x80, 0x8A], [0xE2, 0x80, 0xA8], [0xE2, 0x80, 0xA9], [0xE2, 0x80, 0xAF], [0xE2, 0x81, 0x9F],
     [0xE3, 0x80, 0x80]]"

fun trim_front :: "nat \<Rightarrow> bytes list \<Rightarrow> bytes \<Rightarrow> bytes" where
  "trim_front 0 spaces bs = bs"
| "trim_front (Suc n) spaces bs =
     (case find (starts_with bs) spaces of
        Some s \<Rightarrow> trim_front n spaces (drop (length s) bs)
      | None \<Rightarrow> bs)"

definition str_trim :: "bytes \<Rightarrow> bytes" where
  "str_trim bs =
     (let front = trim_front (length bs) WHITE_SPACE bs
      in rev (trim_front (length front) (map rev WHITE_SPACE) (rev front)))"

definition trimmed_lossy :: "bytes \<Rightarrow> string" where
  "trimmed_lossy bs = bytes_text (str_trim (text_bytes (from_utf8_lossy bs)))"

section \<open>Splitting\<close>

text \<open>\<^verbatim>\<open>slice::split\<close> and \<^verbatim>\<open>slice::splitn\<close> at the occurrences of one element.\<close>

fun split_all :: "'a \<Rightarrow> 'a list \<Rightarrow> 'a list list" where
  "split_all d [] = [[]]"
| "split_all d (x # xs) =
     (if x = d then [] # split_all d xs
      else (case split_all d xs of [] \<Rightarrow> [[x]] | w # ws \<Rightarrow> (x # w) # ws))"

fun splitn :: "nat \<Rightarrow> 'a \<Rightarrow> 'a list \<Rightarrow> 'a list list" where
  "splitn 0 d xs = []"
| "splitn (Suc 0) d xs = [xs]"
| "splitn (Suc (Suc n)) d xs =
     (case dropWhile (\<lambda>x. x \<noteq> d) xs of
        [] \<Rightarrow> [xs]
      | _ # rest \<Rightarrow> takeWhile (\<lambda>x. x \<noteq> d) xs # splitn (Suc n) d rest)"

lemma split_all_field [simp]: "d \<notin> set w \<Longrightarrow> split_all d (w @ d # rest) = w # split_all d rest"
  by (induction w) auto

text \<open>Fields that each end with the separator, and a last one that may contain it.\<close>

definition join_fields :: "'a \<Rightarrow> 'a list list \<Rightarrow> 'a list \<Rightarrow> 'a list" where
  "join_fields d ws p = concat (map (\<lambda>w. w @ [d]) ws) @ p"

lemma join_fields_simps [simp]:
  "join_fields d [] p = p" "join_fields d (w # ws) p = w @ d # join_fields d ws p"
  by (simp_all add: join_fields_def)

lemma set_join_fields: "set (join_fields d ws p) \<subseteq> insert d (\<Union> (set ` set ws) \<union> set p)"
  by (induction ws) auto

lemma splitn_join_fields:
  "(\<And>w. w \<in> set ws \<Longrightarrow> d \<notin> set w) \<Longrightarrow> splitn (Suc (length ws)) d (join_fields d ws p) = ws @ [p]"
proof (induction ws)
  case (Cons w ws)
  have w: "d \<notin> set w" using Cons.prems by simp
  have "dropWhile (\<lambda>x. x \<noteq> d) (w @ d # join_fields d ws p) = d # join_fields d ws p"
    "takeWhile (\<lambda>x. x \<noteq> d) (w @ d # join_fields d ws p) = w"
    using w by (auto simp: dropWhile_append takeWhile_append)
  then show ?case using Cons by simp
qed simp

section \<open>Data\<close>

definition MAXIMUM_GIT_METADATA_BYTES :: nat where "MAXIMUM_GIT_METADATA_BYTES = 16 * 1024 * 1024"
definition MAXIMUM_GIT_STDERR_BYTES :: nat where "MAXIMUM_GIT_STDERR_BYTES = 64 * 1024"
definition MAXIMUM_DIFF_BYTES :: nat where "MAXIMUM_DIFF_BYTES = 32 * 1024 * 1024"

record git_path =
  gp_bytes :: bytes
  gp_display :: string

definition git_path_from_bytes :: "bytes \<Rightarrow> git_path" where
  "git_path_from_bytes bs = \<lparr>gp_bytes = bs, gp_display = from_utf8_lossy bs\<rparr>"

datatype git_status_kind = Ordinary | RenamedOrCopied | Unmerged | Untracked | Ignored

record git_status_entry =
  gs_path :: git_path
  gs_original_path :: "git_path option"
  gs_index_status :: char
  gs_worktree_status :: char
  gs_kind :: git_status_kind

type_synonym git_status = "git_status_entry list"

definition is_clean :: "git_status \<Rightarrow> bool" where
  "is_clean status \<longleftrightarrow> status = []"

datatype branch_state = Branch string | Unborn string | Detached string

datatype diff_scope = WorkingTree | Staged

record git_diff =
  gd_text :: string
  gd_truncated :: bool
  gd_contains_binary_changes :: bool

record worktree_info =
  wt_path :: bytes
  wt_head :: "string option"
  wt_branch :: "string option"
  wt_detached :: bool
  wt_bare :: bool
  wt_locked_reason :: "string option"
  wt_prunable_reason :: "string option"

record git_service =
  gsv_roots :: workspace_roots
  gsv_executable :: string

definition git_service_new :: "workspace_roots \<Rightarrow> git_service" where
  "git_service_new roots = \<lparr>gsv_roots = roots, gsv_executable = ''git''\<rparr>"

definition with_executable :: "workspace_roots \<Rightarrow> string \<Rightarrow> git_service" where
  "with_executable roots executable = \<lparr>gsv_roots = roots, gsv_executable = executable\<rparr>"

record git_command_output =
  go_success :: bool
  go_stdout :: bytes
  go_stderr :: bytes
  go_truncated :: bool

section \<open>Running Git\<close>

text \<open>
  A run of the executable in a directory with arguments: it cannot be started, or it writes two streams
  and ends; the exit depends on whether it was killed.
\<close>

record git_execution =
  gx_stdout :: "errno + bytes"
  gx_stderr :: "errno + bytes"
  gx_wait :: "bool \<Rightarrow> errno + bool"

type_synonym git_exec = "string \<Rightarrow> path \<Rightarrow> string list \<Rightarrow> git_execution option"

definition read_bounded :: "errno + bytes \<Rightarrow> nat \<Rightarrow> project_error + bytes \<times> bool" where
  "read_bounded reader maximum =
     (case reader of
        Inl e \<Rightarrow> Inl (ProjectIo ''reading Git output'' e)
      | Inr stream \<Rightarrow>
          (let read = take (maximum + 1) stream; truncated = maximum < length read
           in Inr (if truncated then take maximum read else read, truncated)))"

definition git_run ::
  "git_exec \<Rightarrow> git_service \<Rightarrow> path \<Rightarrow> string list \<Rightarrow> nat \<Rightarrow> project_error + git_command_output" where
  "git_run exec service repository arguments maximum_stdout =
     and_then (ok_or GitUnavailable (exec (gsv_executable service) repository arguments)) (\<lambda>child.
     and_then (read_bounded (gx_stdout child) maximum_stdout) (\<lambda>(out, truncated).
     and_then (map_err (ProjectIo ''waiting for Git'') (gx_wait child truncated)) (\<lambda>success.
     and_then (read_bounded (gx_stderr child) MAXIMUM_GIT_STDERR_BYTES) (\<lambda>(err, _).
       Inr \<lparr>go_success = success, go_stdout = out, go_stderr = err, go_truncated = truncated\<rparr>))))"

definition ascii_lowercase :: "string \<Rightarrow> string" where
  "ascii_lowercase s = map (\<lambda>c. if CHR ''A'' \<le> c \<and> c \<le> CHR ''Z'' then char_of (of_char c + 32 :: nat) else c) s"

definition is_not_repository :: "bytes \<Rightarrow> bool" where
  "is_not_repository stderr \<longleftrightarrow>
     contains_sub (ascii_lowercase (from_utf8_lossy stderr)) ''not a git repository''"

definition require_success :: "git_command_output \<Rightarrow> project_error + unit" where
  "require_success out =
     (if go_success out then Inr ()
      else if is_not_repository (go_stderr out) then Inl NotGitRepository
      else Inl GitFailed)"

section \<open>The parser of status output\<close>

definition status_entry ::
  "bytes \<Rightarrow> bytes \<Rightarrow> git_path option \<Rightarrow> git_status_kind \<Rightarrow> project_error + git_status_entry" where
  "status_entry status p original kind =
     (if length status \<noteq> 2 \<or> p = [] then Inl MalformedGitOutput
      else Inr \<lparr>gs_path = git_path_from_bytes p, gs_original_path = original,
                gs_index_status = char_of (unat (status ! 0)), gs_worktree_status = char_of (unat (status ! 1)),
                gs_kind = kind\<rparr>)"

text \<open>The byte for a space.\<close>

definition SPACE :: u8 where "SPACE = 32"

definition parse_ordinary :: "bytes \<Rightarrow> project_error + git_status_entry" where
  "parse_ordinary record =
     (let parts = splitn 9 SPACE record in
      if length parts \<noteq> 9 then Inl MalformedGitOutput
      else status_entry (parts ! 1) (parts ! 8) None Ordinary)"

definition parse_rename :: "bytes \<Rightarrow> bytes \<Rightarrow> project_error + git_status_entry" where
  "parse_rename record original =
     (let parts = splitn 10 SPACE record in
      if length parts \<noteq> 10 \<or> original = [] then Inl MalformedGitOutput
      else status_entry (parts ! 1) (parts ! 9) (Some (git_path_from_bytes original)) RenamedOrCopied)"

definition parse_unmerged :: "bytes \<Rightarrow> project_error + git_status_entry" where
  "parse_unmerged record =
     (let parts = splitn 11 SPACE record in
      if length parts \<noteq> 11 then Inl MalformedGitOutput
      else status_entry (parts ! 1) (parts ! 10) None Unmerged)"

definition parse_simple :: "bytes \<Rightarrow> git_status_kind \<Rightarrow> char \<Rightarrow> project_error + git_status_entry" where
  "parse_simple record kind status =
     (if length record \<le> 2 then Inl MalformedGitOutput
      else Inr \<lparr>gs_path = git_path_from_bytes (drop 2 record), gs_original_path = None, gs_index_status = status,
                gs_worktree_status = status, gs_kind = kind\<rparr>)"

fun parse_records :: "bytes list \<Rightarrow> git_status \<Rightarrow> project_error + git_status" where
  "parse_records [] entries = Inr entries"
| "parse_records (record # records) entries =
     (if record = [] \<or> starts_with record [35, 32] then parse_records records entries
      else if hd record = 49 then
        and_then (parse_ordinary record) (\<lambda>e. parse_records records (entries @ [e]))
      else if hd record = 50 then
        (case records of
           [] \<Rightarrow> Inl MalformedGitOutput
         | original # records' \<Rightarrow>
             and_then (parse_rename record original) (\<lambda>e. parse_records records' (entries @ [e])))
      else if hd record = 117 then
        and_then (parse_unmerged record) (\<lambda>e. parse_records records (entries @ [e]))
      else if hd record = 63 then
        and_then (parse_simple record Untracked (CHR ''?'')) (\<lambda>e. parse_records records (entries @ [e]))
      else if hd record = 33 then
        and_then (parse_simple record Ignored (CHR ''!'')) (\<lambda>e. parse_records records (entries @ [e]))
      else Inl MalformedGitOutput)"

definition parse_status :: "bytes \<Rightarrow> project_error + git_status" where
  "parse_status bs = parse_records (split_all 0 bs) []"

section \<open>The parser of worktree output\<close>

definition strip_prefix :: "'a list \<Rightarrow> 'a list \<Rightarrow> 'a list option" where
  "strip_prefix prefix xs = (if starts_with xs prefix then Some (drop (length prefix) xs) else None)"

definition nonempty_reason :: "bytes \<Rightarrow> string option" where
  "nonempty_reason reason =
     (let reason = (case strip_prefix [SPACE] reason of Some r \<Rightarrow> r | None \<Rightarrow> reason)
      in if reason = [] then None else Some (from_utf8_lossy reason))"

definition new_worktree :: "bytes \<Rightarrow> worktree_info" where
  "new_worktree p = \<lparr>wt_path = p, wt_head = None, wt_branch = None, wt_detached = False, wt_bare = False,
     wt_locked_reason = None, wt_prunable_reason = None\<rparr>"

definition worktree_attribute :: "bytes \<Rightarrow> worktree_info \<Rightarrow> project_error + worktree_info" where
  "worktree_attribute field t =
     (case strip_prefix (text_bytes ''HEAD '') field of
        Some head \<Rightarrow> Inr (t\<lparr>wt_head := Some (from_utf8_lossy head)\<rparr>)
      | None \<Rightarrow>
     (case strip_prefix (text_bytes ''branch '') field of
        Some branch \<Rightarrow>
          Inr (t\<lparr>wt_branch := Some (from_utf8_lossy
            (case strip_prefix (text_bytes ''refs/heads/'') branch of Some b \<Rightarrow> b | None \<Rightarrow> branch))\<rparr>)
      | None \<Rightarrow>
        if field = text_bytes ''detached'' then Inr (t\<lparr>wt_detached := True\<rparr>)
        else if field = text_bytes ''bare'' then Inr (t\<lparr>wt_bare := True\<rparr>)
        else
     (case strip_prefix (text_bytes ''locked'') field of
        Some reason \<Rightarrow> Inr (t\<lparr>wt_locked_reason := nonempty_reason reason\<rparr>)
      | None \<Rightarrow>
     (case strip_prefix (text_bytes ''prunable'') field of
        Some reason \<Rightarrow> Inr (t\<lparr>wt_prunable_reason := nonempty_reason reason\<rparr>)
      | None \<Rightarrow> Inl MalformedGitOutput))))"

definition take_worktree :: "worktree_info option \<Rightarrow> worktree_info list" where
  "take_worktree current = (case current of Some t \<Rightarrow> [t] | None \<Rightarrow> [])"

fun parse_fields ::
  "bytes list \<Rightarrow> worktree_info list \<Rightarrow> worktree_info option \<Rightarrow> project_error + worktree_info list" where
  "parse_fields [] worktrees current =
     (let worktrees = worktrees @ take_worktree current
      in if worktrees = [] then Inl MalformedGitOutput else Inr worktrees)"
| "parse_fields (line # lines) worktrees current =
     (if line = [] then parse_fields lines (worktrees @ take_worktree current) None
      else
        (case strip_prefix (text_bytes ''worktree '') line of
           Some p \<Rightarrow> parse_fields lines (worktrees @ take_worktree current) (Some (new_worktree p))
         | None \<Rightarrow>
             (case current of
                None \<Rightarrow> Inl MalformedGitOutput
              | Some t \<Rightarrow> and_then (worktree_attribute line t) (\<lambda>t. parse_fields lines worktrees (Some t)))))"

definition parse_worktrees :: "bytes \<Rightarrow> project_error + worktree_info list" where
  "parse_worktrees bs = parse_fields (split_all 0 bs) [] None"

section \<open>The service\<close>

definition authorized_repository :: "kernel \<Rightarrow> git_service \<Rightarrow> path \<Rightarrow> world \<Rightarrow> (project_error + path) \<times> world" where
  "authorized_repository k service repository =
     io_bind (open_directory k (gsv_roots service) repository) (\<lambda>d. io_return (Inr (ad_canonical d)))"

definition read_status ::
  "kernel \<Rightarrow> git_exec \<Rightarrow> git_service \<Rightarrow> path \<Rightarrow> world \<Rightarrow> (project_error + git_status) \<times> world" where
  "read_status k exec service repository =
     io_bind (authorized_repository k service repository) (\<lambda>repository. io_return
       (and_then (git_run exec service repository
          [''-c'', ''core.quotepath=false'', ''status'', ''--porcelain=v2'', ''-z'', ''--ignored=matching'',
           ''--untracked-files=all'', ''--''] MAXIMUM_GIT_METADATA_BYTES) (\<lambda>out.
        and_then (require_success out) (\<lambda>_.
          if go_truncated out then Inl GitOutputTooLarge else parse_status (go_stdout out)))))"

definition current_branch ::
  "kernel \<Rightarrow> git_exec \<Rightarrow> git_service \<Rightarrow> path \<Rightarrow> world \<Rightarrow> (project_error + branch_state) \<times> world" where
  "current_branch k exec service repository =
     io_bind (authorized_repository k service repository) (\<lambda>repository. io_return
       (and_then (git_run exec service repository [''symbolic-ref'', ''--quiet'', ''--short'', ''HEAD'']
          MAXIMUM_GIT_STDERR_BYTES) (\<lambda>symbolic.
        if go_success symbolic then
          (let branch = trimmed_lossy (go_stdout symbolic) in
           and_then (git_run exec service repository [''rev-parse'', ''--verify'', ''HEAD''] MAXIMUM_GIT_STDERR_BYTES)
             (\<lambda>verified. Inr (if go_success verified then Branch branch else Unborn branch)))
        else if is_not_repository (go_stderr symbolic) then Inl NotGitRepository
        else
          and_then (git_run exec service repository [''rev-parse'', ''--short=12'', ''HEAD''] MAXIMUM_GIT_STDERR_BYTES)
            (\<lambda>detached. and_then (require_success detached) (\<lambda>_.
               Inr (Detached (trimmed_lossy (go_stdout detached))))))))"

definition read_diff ::
  "kernel \<Rightarrow> git_exec \<Rightarrow> git_service \<Rightarrow> path \<Rightarrow> diff_scope \<Rightarrow> nat \<Rightarrow> world \<Rightarrow> (project_error + git_diff) \<times> world" where
  "read_diff k exec service repository scope maximum_bytes =
     (if maximum_bytes = 0 \<or> maximum_bytes > MAXIMUM_DIFF_BYTES then io_return (Inl InvalidLimit)
      else io_bind (authorized_repository k service repository) (\<lambda>repository. io_return
        (and_then (git_run exec service repository
           ([''-c'', ''core.quotepath=false'', ''diff'', ''--no-ext-diff'', ''--no-color'', ''--find-renames''] @
            (if scope = Staged then [''--cached''] else []) @ [''--'']) maximum_bytes) (\<lambda>out.
         and_then (if \<not> go_success out \<and> \<not> go_truncated out then require_success out else Inr ()) (\<lambda>_.
           let diff = from_utf8_lossy (go_stdout out) in
           Inr \<lparr>gd_text = diff, gd_truncated = go_truncated out,
                gd_contains_binary_changes =
                  contains_sub diff ''Binary files '' \<or> contains_sub diff ''GIT binary patch''\<rparr>)))))"

definition worktrees ::
  "kernel \<Rightarrow> git_exec \<Rightarrow> git_service \<Rightarrow> path \<Rightarrow> world \<Rightarrow> (project_error + worktree_info list) \<times> world" where
  "worktrees k exec service repository =
     io_bind (authorized_repository k service repository) (\<lambda>repository. io_return
       (and_then (git_run exec service repository [''worktree'', ''list'', ''--porcelain'', ''-z'']
          MAXIMUM_GIT_METADATA_BYTES) (\<lambda>out.
        and_then (require_success out) (\<lambda>_.
          if go_truncated out then Inl GitOutputTooLarge else parse_worktrees (go_stdout out)))))"

section \<open>What the parsers read back\<close>

text \<open>
  The records of \<^verbatim>\<open>git status --porcelain=v2 -z\<close> as Git documents them: a tag, the two status letters,
  a fixed number of further fields (modes, object names, scores) and a path, each ended by a zero byte;
  the record of a rename is followed by the original path. The fields contain no space, paths may.
\<close>

datatype porcelain_record =
    PorcOrdinary u8 u8 "bytes list" bytes
  | PorcRename u8 u8 "bytes list" bytes bytes
  | PorcUnmerged u8 u8 "bytes list" bytes
  | PorcUntracked bytes
  | PorcIgnored bytes
  | PorcHeader bytes

fun porcelain_text :: "porcelain_record \<Rightarrow> bytes" where
  "porcelain_text (PorcOrdinary x y ws p) = join_fields SPACE ([49] # [x, y] # ws) p @ [0]"
| "porcelain_text (PorcRename x y ws p q) = join_fields SPACE ([50] # [x, y] # ws) p @ [0] @ q @ [0]"
| "porcelain_text (PorcUnmerged x y ws p) = join_fields SPACE ([117] # [x, y] # ws) p @ [0]"
| "porcelain_text (PorcUntracked p) = [63, SPACE] @ p @ [0]"
| "porcelain_text (PorcIgnored p) = [33, SPACE] @ p @ [0]"
| "porcelain_text (PorcHeader h) = [35, SPACE] @ h @ [0]"

definition path_bytes_ok :: "bytes \<Rightarrow> bool" where
  "path_bytes_ok p \<longleftrightarrow> p \<noteq> [] \<and> 0 \<notin> set p"

definition fields_ok :: "u8 \<Rightarrow> u8 \<Rightarrow> bytes list \<Rightarrow> bool" where
  "fields_ok x y ws \<longleftrightarrow> (\<forall>w \<in> set ([x, y] # ws). SPACE \<notin> set w \<and> 0 \<notin> set w)"

fun porcelain_ok :: "porcelain_record \<Rightarrow> bool" where
  "porcelain_ok (PorcOrdinary x y ws p) \<longleftrightarrow> fields_ok x y ws \<and> length ws = 6 \<and> path_bytes_ok p"
| "porcelain_ok (PorcRename x y ws p q) \<longleftrightarrow> fields_ok x y ws \<and> length ws = 7 \<and> path_bytes_ok p \<and> path_bytes_ok q"
| "porcelain_ok (PorcUnmerged x y ws p) \<longleftrightarrow> fields_ok x y ws \<and> length ws = 8 \<and> path_bytes_ok p"
| "porcelain_ok (PorcUntracked p) \<longleftrightarrow> path_bytes_ok p"
| "porcelain_ok (PorcIgnored p) \<longleftrightarrow> path_bytes_ok p"
| "porcelain_ok (PorcHeader h) \<longleftrightarrow> 0 \<notin> set h"

definition status_of :: "bytes \<Rightarrow> git_path option \<Rightarrow> char \<Rightarrow> char \<Rightarrow> git_status_kind \<Rightarrow> git_status_entry" where
  "status_of p original x y kind = \<lparr>gs_path = git_path_from_bytes p, gs_original_path = original, gs_index_status = x,
     gs_worktree_status = y, gs_kind = kind\<rparr>"

fun porcelain_entries :: "porcelain_record \<Rightarrow> git_status" where
  "porcelain_entries (PorcOrdinary x y ws p) = [status_of p None (char_of (unat x)) (char_of (unat y)) Ordinary]"
| "porcelain_entries (PorcRename x y ws p q) =
     [status_of p (Some (git_path_from_bytes q)) (char_of (unat x)) (char_of (unat y)) RenamedOrCopied]"
| "porcelain_entries (PorcUnmerged x y ws p) = [status_of p None (char_of (unat x)) (char_of (unat y)) Unmerged]"
| "porcelain_entries (PorcUntracked p) = [status_of p None (CHR ''?'') (CHR ''?'') Untracked]"
| "porcelain_entries (PorcIgnored p) = [status_of p None (CHR ''!'') (CHR ''!'') Ignored]"
| "porcelain_entries (PorcHeader h) = []"

lemma join_fields_no_zero:
  "fields_ok x y ws \<Longrightarrow> 0 \<notin> set p \<Longrightarrow> 0 \<notin> set (join_fields SPACE ws p)"
  using set_join_fields [of SPACE ws p] by (auto simp: fields_ok_def SPACE_def)

lemma status_fields_split:
  assumes "fields_ok x y ws" "SPACE \<noteq> t"
  shows "splitn (3 + length ws) SPACE (t # SPACE # x # y # SPACE # join_fields SPACE ws p) = [t] # [x, y] # ws @ [p]"
proof -
  have "splitn (Suc (length ([t] # [x, y] # ws))) SPACE (join_fields SPACE ([t] # [x, y] # ws) p) = ([t] # [x, y] # ws) @ [p]"
    by (rule splitn_join_fields) (use assms in \<open>auto simp: fields_ok_def\<close>)
  then show ?thesis by (simp add: eval_nat_numeral)
qed

lemma parse_records_porcelain:
  assumes "porcelain_ok r"
  shows "parse_records (split_all 0 (porcelain_text r @ rest)) entries =
    parse_records (split_all 0 rest) (entries @ porcelain_entries r)"
proof (cases r)
  case (PorcOrdinary x y ws p)
  with assms have f: "fields_ok x y ws" "length ws = 6" "p \<noteq> []" "0 \<notin> set p" by (auto simp: path_bytes_ok_def)
  have s: "splitn 9 SPACE (49 # SPACE # x # y # SPACE # join_fields SPACE ws p) = [49] # [x, y] # ws @ [p]"
    using status_fields_split [OF f(1), of 49 p] f(2) by (simp add: SPACE_def)
  have z: "0 \<notin> set (49 # SPACE # x # y # SPACE # join_fields SPACE ws p)"
    using join_fields_no_zero [OF f(1) f(4)] f(1) by (auto simp: fields_ok_def SPACE_def)
  from f s split_all_field [OF z, of rest] show ?thesis unfolding PorcOrdinary
    by (simp add: parse_ordinary_def status_entry_def status_of_def starts_with_def SPACE_def nth_append)
next
  case (PorcRename x y ws p q)
  with assms have f: "fields_ok x y ws" "length ws = 7" "p \<noteq> []" "0 \<notin> set p" "q \<noteq> []" "0 \<notin> set q"
    by (auto simp: path_bytes_ok_def)
  have s: "splitn 10 SPACE (50 # SPACE # x # y # SPACE # join_fields SPACE ws p) = [50] # [x, y] # ws @ [p]"
    using status_fields_split [OF f(1), of 50 p] f(2) by (simp add: SPACE_def)
  have z: "0 \<notin> set (50 # SPACE # x # y # SPACE # join_fields SPACE ws p)"
    using join_fields_no_zero [OF f(1) f(4)] f(1) by (auto simp: fields_ok_def SPACE_def)
  from f s split_all_field [OF z, of "q @ 0 # rest"] show ?thesis unfolding PorcRename
    by (simp add: parse_rename_def status_entry_def status_of_def starts_with_def SPACE_def nth_append)
next
  case (PorcUnmerged x y ws p)
  with assms have f: "fields_ok x y ws" "length ws = 8" "p \<noteq> []" "0 \<notin> set p" by (auto simp: path_bytes_ok_def)
  have s: "splitn 11 SPACE (117 # SPACE # x # y # SPACE # join_fields SPACE ws p) = [117] # [x, y] # ws @ [p]"
    using status_fields_split [OF f(1), of 117 p] f(2) by (simp add: SPACE_def)
  have z: "0 \<notin> set (117 # SPACE # x # y # SPACE # join_fields SPACE ws p)"
    using join_fields_no_zero [OF f(1) f(4)] f(1) by (auto simp: fields_ok_def SPACE_def)
  from f s split_all_field [OF z, of rest] show ?thesis unfolding PorcUnmerged
    by (simp add: parse_unmerged_def status_entry_def status_of_def starts_with_def SPACE_def nth_append)
qed (use assms split_all_field [of 0 "_ # SPACE # _" rest] in
     \<open>auto simp: path_bytes_ok_def parse_simple_def status_of_def starts_with_def SPACE_def Suc_le_eq\<close>)

lemma status_read_back:
  assumes "list_all porcelain_ok rs"
  shows "parse_status (concat (map porcelain_text rs)) = Inr (concat (map porcelain_entries rs))"
proof -
  have "parse_records (split_all 0 (concat (map porcelain_text rs))) entries =
      Inr (entries @ concat (map porcelain_entries rs))" for entries
    using assms by (induction rs arbitrary: entries) (simp_all add: parse_records_porcelain)
  then show ?thesis by (simp add: parse_status_def)
qed

text \<open>
  The blocks of \<^verbatim>\<open>git worktree list --porcelain -z\<close>: the path, attribute lines, an empty line. A lock or
  prune line may or may not carry a reason.
\<close>

datatype worktree_line =
    HeadLine bytes | BranchLine bytes | RefLine bytes | DetachedLine | BareLine | LockedLine bytes | PrunableLine bytes

definition reason_text :: "bytes \<Rightarrow> bytes" where
  "reason_text reason = (if reason = [] then [] else SPACE # reason)"

fun line_text :: "worktree_line \<Rightarrow> bytes" where
  "line_text (HeadLine h) = text_bytes ''HEAD '' @ h"
| "line_text (BranchLine b) = text_bytes ''branch '' @ text_bytes ''refs/heads/'' @ b"
| "line_text (RefLine b) = text_bytes ''branch '' @ b"
| "line_text DetachedLine = text_bytes ''detached''"
| "line_text BareLine = text_bytes ''bare''"
| "line_text (LockedLine r) = text_bytes ''locked'' @ reason_text r"
| "line_text (PrunableLine r) = text_bytes ''prunable'' @ reason_text r"

fun line_ok :: "worktree_line \<Rightarrow> bool" where
  "line_ok (RefLine b) \<longleftrightarrow> 0 \<notin> set b \<and> \<not> starts_with b (text_bytes ''refs/heads/'')"
| "line_ok l \<longleftrightarrow> 0 \<notin> set (line_text l)"

definition reason_of :: "bytes \<Rightarrow> string option" where
  "reason_of reason = (if reason = [] then None else Some (from_utf8_lossy reason))"

fun line_effect :: "worktree_line \<Rightarrow> worktree_info \<Rightarrow> worktree_info" where
  "line_effect (HeadLine h) t = t\<lparr>wt_head := Some (from_utf8_lossy h)\<rparr>"
| "line_effect (BranchLine b) t = t\<lparr>wt_branch := Some (from_utf8_lossy b)\<rparr>"
| "line_effect (RefLine b) t = t\<lparr>wt_branch := Some (from_utf8_lossy b)\<rparr>"
| "line_effect DetachedLine t = t\<lparr>wt_detached := True\<rparr>"
| "line_effect BareLine t = t\<lparr>wt_bare := True\<rparr>"
| "line_effect (LockedLine r) t = t\<lparr>wt_locked_reason := reason_of r\<rparr>"
| "line_effect (PrunableLine r) t = t\<lparr>wt_prunable_reason := reason_of r\<rparr>"

fun block_text :: "bytes \<times> worktree_line list \<Rightarrow> bytes" where
  "block_text (p, ls) = text_bytes ''worktree '' @ p @ [0] @ concat (map (\<lambda>l. line_text l @ [0]) ls) @ [0]"

definition block_ok :: "bytes \<times> worktree_line list \<Rightarrow> bool" where
  "block_ok b \<longleftrightarrow> 0 \<notin> set (fst b) \<and> list_all line_ok (snd b)"

definition block_info :: "bytes \<times> worktree_line list \<Rightarrow> worktree_info" where
  "block_info b = fold line_effect (snd b) (new_worktree (fst b))"

lemma worktree_attribute_line:
  "line_ok l \<Longrightarrow> worktree_attribute (line_text l) t = Inr (line_effect l t)"
  by (cases l) (auto simp: worktree_attribute_def strip_prefix_def starts_with_def text_bytes_def nonempty_reason_def
      reason_text_def reason_of_def SPACE_def)

lemma line_text_shape:
  assumes "line_ok l"
  shows "0 \<notin> set (line_text l)" "line_text l \<noteq> []" "strip_prefix (text_bytes ''worktree '') (line_text l) = None"
  using assms by (cases l; auto simp: strip_prefix_def starts_with_def text_bytes_def)+

lemma parse_fields_lines:
  assumes "list_all line_ok ls"
  shows "parse_fields (split_all 0 (concat (map (\<lambda>l. line_text l @ [0]) ls) @ rest)) ts (Some t) =
    parse_fields (split_all 0 rest) ts (Some (fold line_effect ls t))"
  using assms
proof (induction ls arbitrary: t)
  case (Cons l ls)
  then show ?case using line_text_shape [of l] by (simp add: worktree_attribute_line)
qed simp

lemma parse_fields_block:
  assumes "block_ok b"
  shows "parse_fields (split_all 0 (block_text b @ rest)) ts None = parse_fields (split_all 0 rest) (ts @ [block_info b]) None"
proof -
  obtain p ls where b: "b = (p, ls)" by fastforce
  have z: "0 \<notin> set (text_bytes ''worktree '' @ p)" using assms by (auto simp: b block_ok_def text_bytes_def)
  have s: "strip_prefix (text_bytes ''worktree '') (text_bytes ''worktree '' @ p) = Some p"
    by (simp add: strip_prefix_def starts_with_def)
  have n: "text_bytes ''worktree '' \<noteq> []" by (simp add: text_bytes_def)
  have "parse_fields (split_all 0 (block_text b @ rest)) ts None =
      parse_fields (split_all 0 (concat (map (\<lambda>l. line_text l @ [0]) ls) @ 0 # rest)) ts (Some (new_worktree p))"
    using split_all_field [OF z, of "concat (map (\<lambda>l. line_text l @ [0]) ls) @ 0 # rest"] n s
    by (simp add: b take_worktree_def)
  also have "\<dots> = parse_fields (split_all 0 rest) (ts @ [block_info b]) None"
    using assms by (subst parse_fields_lines) (simp_all add: b block_ok_def take_worktree_def block_info_def)
  finally show ?thesis .
qed

lemma worktrees_read_back:
  assumes "list_all block_ok bs" "bs \<noteq> []"
  shows "parse_worktrees (concat (map block_text bs)) = Inr (map block_info bs)"
proof -
  have "bs \<noteq> [] \<or> ts \<noteq> [] \<Longrightarrow>
      parse_fields (split_all 0 (concat (map block_text bs))) ts None = Inr (ts @ map block_info bs)" for ts
    using assms(1)
  proof (induction bs arbitrary: ts)
    case (Cons b bs)
    then show ?case using parse_fields_block [of b "concat (map block_text bs)" ts] by simp
  qed (simp add: take_worktree_def)
  then show ?thesis using assms(2) by (simp add: parse_worktrees_def)
qed


definition sample_records :: "porcelain_record list" where
  "sample_records = [PorcHeader [104], PorcRename 82 46 [[78], [49], [49], [49], [97], [98], [82]] [98, 32, 99] [97],
     PorcUntracked [195, 40]]"

definition sample_blocks :: "(bytes \<times> worktree_line list) list" where
  "sample_blocks = [([47, 119], [HeadLine [97], BranchLine [109], LockedLine []]), ([47, 120], [DetachedLine])]"


text \<open>
  A lock without a reason leaves no trace: the worktree is returned as if it were not locked.
\<close>

lemma lock_without_reason_is_lost:
  assumes "0 \<notin> set p"
  shows "parse_worktrees (block_text (p, [LockedLine []])) = parse_worktrees (block_text (p, []))"
  using worktrees_read_back [of "[(p, [LockedLine []])]"] worktrees_read_back [of "[(p, [])]"] assms
  by (simp add: block_ok_def block_info_def reason_of_def reason_text_def text_bytes_def new_worktree_def)

text \<open>
  Git runs only in a directory opened below a root of the workspace, and what is read of its standard
  output is bounded by the limit of the operation.
\<close>

lemma read_bounded_Inr:
  "read_bounded r maximum = Inr x \<Longrightarrow> length (fst x) \<le> maximum"
  by (auto simp: read_bounded_def Let_def split: sum.splits if_splits)

lemma git_run_bounded:
  assumes "git_run exec service repository arguments maximum = Inr out"
  shows "length (go_stdout out) \<le> maximum"
  using assms by (auto simp: git_run_def and_then_Inr_iff dest!: read_bounded_Inr)

lemma git_diff_bounded:
  assumes "read_diff k exec service repository scope maximum w = (Inr d, w')"
  shows "\<exists>dir out. open_directory k (gsv_roots service) repository w = (Inr dir, w') \<and>
    gd_text d = from_utf8_lossy out \<and> length out \<le> maximum"
proof -
  have "\<exists>dir. open_directory k (gsv_roots service) repository w = (Inr dir, w')"
    using assms by (auto simp: read_diff_def authorized_repository_def io_bind_Inr io_return_def split: if_splits)
  moreover have "\<exists>out. gd_text d = from_utf8_lossy out \<and> length out \<le> maximum"
    using assms by (auto simp: read_diff_def io_bind_Inr io_return_def and_then_Inr_iff Let_def
        dest!: git_run_bounded split: if_splits)
  ultimately show ?thesis by blast
qed

end
