(* ===== verification/Project_Listing.thy ===== *)
theory Project_Listing
  imports Text_Files
begin

text \<open>
  Directory pages and repository search, \<^verbatim>\<open>crates/maestro-project/src/listing.rs\<close> and
  \<^verbatim>\<open>crates/maestro-project/src/search.rs\<close>. The directory walker (crate \<^verbatim>\<open>ignore\<close>) and the regular
  expressions (crate \<^verbatim>\<open>regex\<close>) are not part of the repository: what a walk yields and what a compiled
  expression finds in a line are parameters. A cancellation by another thread is seen at the n-th test
  of the flag, for an arbitrary function of n.
\<close>

section \<open>The walker\<close>

text \<open>The options the builder is given, with the filter of entries, and an entry that is yielded.\<close>

record walk_entry =
  we_path :: path
  we_depth :: nat
  we_kind :: "node_kind option"

record walk_options =
  wo_max_depth :: "nat option"
  wo_follow_links :: bool
  wo_hidden :: bool
  wo_git_ignore :: bool
  wo_git_exclude :: bool
  wo_git_global :: bool
  wo_parents :: bool
  wo_ignore :: bool
  wo_filter :: "walk_entry \<Rightarrow> bool"

type_synonym walk_item = "errno option + walk_entry"
type_synonym walker = "walk_options \<Rightarrow> path \<Rightarrow> walk_item list"

definition not_git_directory :: "walk_entry \<Rightarrow> bool" where
  "not_git_directory e \<longleftrightarrow> we_depth e = 0 \<or> path_name (we_path e) \<noteq> ''.git''"

definition walk_options_for :: "nat option \<Rightarrow> bool \<Rightarrow> walk_options" where
  "walk_options_for depth include_hidden =
     \<lparr>wo_max_depth = depth, wo_follow_links = False, wo_hidden = \<not> include_hidden, wo_git_ignore = True,
      wo_git_exclude = True, wo_git_global = False, wo_parents = True, wo_ignore = True, wo_filter = not_git_directory\<rparr>"

section \<open>Directory pages\<close>

definition DEFAULT_DIRECTORY_PAGE_SIZE :: nat where "DEFAULT_DIRECTORY_PAGE_SIZE = 200"
definition MAXIMUM_DIRECTORY_PAGE_SIZE :: nat where "MAXIMUM_DIRECTORY_PAGE_SIZE = 1000"

datatype directory_entry_kind = EntryDirectory | EntryFile | EntrySymlink | EntryOther

record directory_entry =
  de_path :: path
  de_display_name :: string
  de_kind :: directory_entry_kind
  de_bytes :: "nat option"

record listing_options =
  lo_maximum_entries :: nat
  lo_include_hidden :: bool

definition listing_options_default :: listing_options where
  "listing_options_default = \<lparr>lo_maximum_entries = DEFAULT_DIRECTORY_PAGE_SIZE, lo_include_hidden = False\<rparr>"

record directory_page =
  dg_directory :: path
  dg_entries :: "directory_entry list"
  dg_next_cursor :: "u64 option"

text \<open>\<^verbatim>\<open>symlink_metadata\<close> of a path.\<close>

definition lstat_path :: "kernel \<Rightarrow> path \<Rightarrow> world \<Rightarrow> (errno + metadata) \<times> world" where
  "lstat_path k p =
     syscall k (query (\<lambda>fs.
       and_then (case path_parent p of
                   None \<Rightarrow> node_at fs p
                 | Some parent \<Rightarrow> and_then (node_at fs parent) (\<lambda>d. child fs d (last p))) (\<lambda>i.
         case fs i of Some n \<Rightarrow> Inr (metadata_of i n) | None \<Rightarrow> Inl ENOENT)))"

definition entry_kind :: "walk_entry \<Rightarrow> directory_entry_kind" where
  "entry_kind e =
     (case we_kind e of
        Some IsDir \<Rightarrow> EntryDirectory
      | Some IsFile \<Rightarrow> EntryFile
      | Some IsSymlink \<Rightarrow> EntrySymlink
      | _ \<Rightarrow> EntryOther)"

definition make_directory_entry :: "kernel \<Rightarrow> walk_entry \<Rightarrow> world \<Rightarrow> (project_error + directory_entry) \<times> world" where
  "make_directory_entry k e =
     (let kind = entry_kind e in
      io_bind
        (if kind = EntryFile then
           io_bind (io_map_err (ProjectIo ''reading directory entry metadata'') (lstat_path k (we_path e)))
             (\<lambda>m. io_return (Inr (Some (md_len m))))
         else io_return (Inr None)) (\<lambda>bs.
      io_return (Inr \<lparr>de_path = we_path e, de_display_name = path_name (we_path e), de_kind = kind, de_bytes = bs\<rparr>)))"

definition same_directory :: "metadata \<Rightarrow> metadata \<Rightarrow> bool" where
  "same_directory a b \<longleftrightarrow> md_ino a = md_ino b"

text \<open>An error of the walker without an I/O error counts as \<^verbatim>\<open>ErrorKind::Other\<close>.\<close>

definition walk_errno :: "errno option \<Rightarrow> errno" where
  "walk_errno e = (case e of Some e \<Rightarrow> e | None \<Rightarrow> OtherErrno 0)"

fun page_loop ::
  "kernel \<Rightarrow> nat \<Rightarrow> nat \<Rightarrow> walk_item list \<Rightarrow> nat \<Rightarrow> directory_entry list \<Rightarrow> world \<Rightarrow>
   (project_error + directory_entry list \<times> bool) \<times> world" where
  "page_loop k offset maximum [] seen entries w = (Inr (entries, False), w)"
| "page_loop k offset maximum (Inl e # items) seen entries w = (Inl (ProjectIo ''listing directory'' (walk_errno e)), w)"
| "page_loop k offset maximum (Inr e # items) seen entries w =
     (if we_depth e = 0 then page_loop k offset maximum items seen entries w
      else if seen < offset then page_loop k offset maximum items (Suc seen) entries w
      else if length entries = maximum then (Inr (entries, True), w)
      else io_bind (make_directory_entry k e)
             (\<lambda>d. page_loop k offset maximum items (Suc seen) (entries @ [d])) w)"

definition directory_list ::
  "kernel \<Rightarrow> walker \<Rightarrow> workspace_roots \<Rightarrow> path \<Rightarrow> u64 \<Rightarrow> listing_options \<Rightarrow> world \<Rightarrow>
   (project_error + directory_page) \<times> world" where
  "directory_list k walk roots directory cursor options =
     (if lo_maximum_entries options = 0 \<or> lo_maximum_entries options > MAXIMUM_DIRECTORY_PAGE_SIZE
      then io_return (Inl InvalidLimit)
      else io_bind (open_directory k roots directory) (\<lambda>authorized.
        io_bind (io_map_err (ProjectIo ''reading directory metadata'') (fstat k (ad_file authorized))) (\<lambda>before.
        io_bind (page_loop k (unat cursor) (lo_maximum_entries options)
            (walk (walk_options_for (Some 1) (lo_include_hidden options)) (ad_canonical authorized)) 0 []) (\<lambda>(entries, has_more).
        io_bind (io_map_err (ProjectIo ''rechecking directory metadata'') (fstat k (ad_file authorized))) (\<lambda>after.
          if \<not> same_directory before after then io_return (Inl FileChangedDuringRead)
          else io_return (Inr \<lparr>dg_directory = ad_canonical authorized, dg_entries = entries,
            dg_next_cursor =
              (if has_more then Some (saturating_add cursor (word_of_nat (length entries))) else None)\<rparr>))))))"

text \<open>A client that follows the cursors, for at most \<open>fuel\<close> pages.\<close>

fun read_pages ::
  "nat \<Rightarrow> (u64 \<Rightarrow> world \<Rightarrow> (project_error + directory_page) \<times> world) \<Rightarrow> u64 \<Rightarrow> world \<Rightarrow>
   (project_error + directory_entry list option) \<times> world" where
  "read_pages 0 page cursor w = (Inr None, w)"
| "read_pages (Suc n) page cursor w =
     io_bind (page cursor) (\<lambda>p.
       case dg_next_cursor p of
         None \<Rightarrow> io_return (Inr (Some (dg_entries p)))
       | Some next \<Rightarrow>
           io_bind (read_pages n page next) (\<lambda>rest. io_return (Inr (map_option (\<lambda>es. dg_entries p @ es) rest)))) w"

section \<open>Search\<close>

definition DEFAULT_MAXIMUM_SEARCH_RESULTS :: nat where "DEFAULT_MAXIMUM_SEARCH_RESULTS = 1000"
definition MAXIMUM_SEARCH_RESULTS :: nat where "MAXIMUM_SEARCH_RESULTS = 10000"
definition DEFAULT_MAXIMUM_SEARCH_FILE_BYTES :: nat where "DEFAULT_MAXIMUM_SEARCH_FILE_BYTES = 4 * 1024 * 1024"
definition MAXIMUM_PATTERN_BYTES :: nat where "MAXIMUM_PATTERN_BYTES = 4 * 1024"
definition MAXIMUM_EXCERPT_BYTES :: nat where "MAXIMUM_EXCERPT_BYTES = 4 * 1024"

datatype search_mode = SearchLiteral | SearchRegex

record search_options =
  so_pattern :: string
  so_mode :: search_mode
  so_case_sensitive :: bool
  so_include_hidden :: bool
  so_maximum_results :: nat
  so_maximum_file_bytes :: nat

definition search_options_default :: search_options where
  "search_options_default =
     \<lparr>so_pattern = [], so_mode = SearchLiteral, so_case_sensitive = True, so_include_hidden = False,
      so_maximum_results = DEFAULT_MAXIMUM_SEARCH_RESULTS, so_maximum_file_bytes = DEFAULT_MAXIMUM_SEARCH_FILE_BYTES\<rparr>"

record search_match =
  sm_path :: path
  sm_line :: u64
  sm_byte_column :: nat
  sm_byte_length :: nat
  sm_excerpt :: string

record search_summary =
  su_scanned_files :: u64
  su_skipped_files :: u64
  su_matches :: nat
  su_limit_reached :: bool
  su_cancelled :: bool
  su_consumer_stopped :: bool

definition search_summary_default :: search_summary where
  "search_summary_default = \<lparr>su_scanned_files = 0, su_skipped_files = 0, su_matches = 0, su_limit_reached = False,
     su_cancelled = False, su_consumer_stopped = False\<rparr>"

text \<open>
  What the search has done so far: the summary, the matches given to the consumer, and how often the
  cancellation flag was tested. The consumer decides from what it received.
\<close>

record search_state =
  sc_summary :: search_summary
  sc_emitted :: "search_match list"
  sc_tests :: nat

type_synonym cancellation = "nat \<Rightarrow> bool"
type_synonym consumer = "search_match list \<Rightarrow> search_match \<Rightarrow> bool"

text \<open>A compiled expression finds the byte ranges of its matches in a line: start and length.\<close>

type_synonym expression = "string \<Rightarrow> (nat \<times> nat) list"

record search_engine =
  rx_escape :: "string \<Rightarrow> string"
  rx_build :: "string \<Rightarrow> bool \<Rightarrow> expression option"

definition is_cancelled :: "cancellation \<Rightarrow> search_state \<Rightarrow> bool \<times> search_state" where
  "is_cancelled cancel s = (cancel (sc_tests s), s\<lparr>sc_tests := Suc (sc_tests s)\<rparr>)"

definition upd_summary :: "(search_summary \<Rightarrow> search_summary) \<Rightarrow> search_state \<Rightarrow> search_state" where
  "upd_summary f s = s\<lparr>sc_summary := f (sc_summary s)\<rparr>"

definition validate_options :: "search_options \<Rightarrow> project_error + unit" where
  "validate_options options =
     (if so_pattern options = [] \<or> length (so_pattern options) > MAXIMUM_PATTERN_BYTES
         \<or> so_maximum_results options = 0 \<or> so_maximum_results options > MAXIMUM_SEARCH_RESULTS
         \<or> so_maximum_file_bytes options = 0 \<or> so_maximum_file_bytes options > MAXIMUM_TEXT_BYTES
      then Inl InvalidLimit else Inr ())"

definition compile_expression :: "search_engine \<Rightarrow> search_options \<Rightarrow> project_error + expression" where
  "compile_expression engine options =
     (let pattern = (case so_mode options of
                       SearchLiteral \<Rightarrow> rx_escape engine (so_pattern options)
                     | SearchRegex \<Rightarrow> so_pattern options)
      in ok_or InvalidRegex (rx_build engine pattern (\<not> so_case_sensitive options)))"

text \<open>\<^verbatim>\<open>str::split_inclusive\<close>; the character boundaries of UTF-8 text.\<close>

fun split_inclusive :: "'a \<Rightarrow> 'a list \<Rightarrow> 'a list list" where
  "split_inclusive d [] = []"
| "split_inclusive d (x # xs) =
     (if x = d then [x] # split_inclusive d xs
      else (case split_inclusive d xs of [] \<Rightarrow> [[x]] | w # ws \<Rightarrow> (x # w) # ws))"

definition is_char_boundary :: "string \<Rightarrow> nat \<Rightarrow> bool" where
  "is_char_boundary s i \<longleftrightarrow> i = 0 \<or> i = length s \<or> i < length s \<and> \<not> continuation (of_char (s ! i))"

fun boundary_below :: "string \<Rightarrow> nat \<Rightarrow> nat" where
  "boundary_below s 0 = 0"
| "boundary_below s (Suc n) = (if is_char_boundary s (Suc n) then Suc n else boundary_below s n)"

definition trim_line_end :: "string \<Rightarrow> string" where
  "trim_line_end line = rev (dropWhile (\<lambda>c. c = CHR 0x0D \<or> c = CHR 0x0A) (rev line))"

definition ELLIPSIS :: string where
  "ELLIPSIS = [char_of (0xE2 :: nat), char_of (0x80 :: nat), char_of (0xA6 :: nat)]"

definition bounded_excerpt :: "string \<Rightarrow> string" where
  "bounded_excerpt line =
     (let line = trim_line_end line in
      if length line \<le> MAXIMUM_EXCERPT_BYTES then line
      else take (boundary_below line MAXIMUM_EXCERPT_BYTES) line @ ELLIPSIS)"

definition search_match_at :: "path \<Rightarrow> nat \<Rightarrow> string \<Rightarrow> nat \<times> nat \<Rightarrow> search_match" where
  "search_match_at p index line found =
     \<lparr>sm_path = p, sm_line = (if index + 1 < 2 ^ 64 then word_of_nat (index + 1) else -1), sm_byte_column = fst found,
      sm_byte_length = snd found, sm_excerpt = bounded_excerpt line\<rparr>"

text \<open>The result tells whether the search goes on.\<close>

fun search_matches ::
  "cancellation \<Rightarrow> consumer \<Rightarrow> nat \<Rightarrow> path \<Rightarrow> nat \<Rightarrow> string \<Rightarrow> (nat \<times> nat) list \<Rightarrow> search_state \<Rightarrow> bool \<times> search_state" where
  "search_matches cancel consume maximum p index line [] s = (True, s)"
| "search_matches cancel consume maximum p index line (found # rest) s =
     (if su_matches (sc_summary s) = maximum then (False, upd_summary (\<lambda>u. u\<lparr>su_limit_reached := True\<rparr>) s)
      else
        (let result = search_match_at p index line found;
             t = upd_summary (\<lambda>u. u\<lparr>su_matches := su_matches u + 1\<rparr>) s\<lparr>sc_emitted := sc_emitted s @ [result]\<rparr>
         in if \<not> consume (sc_emitted s) result then (False, upd_summary (\<lambda>u. u\<lparr>su_consumer_stopped := True\<rparr>) t)
            else (case is_cancelled cancel t of
                    (True, t) \<Rightarrow> (False, upd_summary (\<lambda>u. u\<lparr>su_cancelled := True\<rparr>) t)
                  | (False, t) \<Rightarrow> search_matches cancel consume maximum p index line rest t)))"

fun search_lines ::
  "cancellation \<Rightarrow> consumer \<Rightarrow> nat \<Rightarrow> expression \<Rightarrow> path \<Rightarrow> nat \<Rightarrow> string list \<Rightarrow> search_state \<Rightarrow> bool \<times> search_state" where
  "search_lines cancel consume maximum expression p index [] s = (True, s)"
| "search_lines cancel consume maximum expression p index (line # lines) s =
     (case is_cancelled cancel s of
        (True, s) \<Rightarrow> (False, upd_summary (\<lambda>u. u\<lparr>su_cancelled := True\<rparr>) s)
      | (False, s) \<Rightarrow>
          (case search_matches cancel consume maximum p index line (expression line) s of
             (False, s) \<Rightarrow> (False, s)
           | (True, s) \<Rightarrow> search_lines cancel consume maximum expression p (Suc index) lines s))"

definition search_file ::
  "cancellation \<Rightarrow> consumer \<Rightarrow> nat \<Rightarrow> expression \<Rightarrow> path \<Rightarrow> string \<Rightarrow> search_state \<Rightarrow> bool \<times> search_state" where
  "search_file cancel consume maximum expression p content s =
     search_lines cancel consume maximum expression p 0 (split_inclusive (CHR 0x0A) content) s"

fun skippable :: "project_error \<Rightarrow> bool" where
  "skippable BinaryFile = True"
| "skippable InvalidUtf8 = True"
| "skippable (FileTooLarge _ _) = True"
| "skippable NotRegularFile = True"
| "skippable FileChangedDuringRead = True"
| "skippable (ProjectIo _ _) = True"
| "skippable _ = False"

definition skip_file :: "search_state \<Rightarrow> search_state" where
  "skip_file s = upd_summary (\<lambda>u. u\<lparr>su_skipped_files := saturating_add (su_skipped_files u) 1\<rparr>) s"

definition scan_file :: "search_state \<Rightarrow> search_state" where
  "scan_file s = upd_summary (\<lambda>u. u\<lparr>su_scanned_files := saturating_add (su_scanned_files u) 1\<rparr>) s"

text \<open>What a file contributes: a hard error, nothing, or its text.\<close>

definition search_text :: "project_error + bytes \<Rightarrow> project_error + string option" where
  "search_text r =
     (case r of
        Inl e \<Rightarrow> if skippable e then Inr None else Inl e
      | Inr bs \<Rightarrow> if 0 \<in> set bs \<or> \<not> valid_utf8 bs then Inr None else Inr (Some (bytes_text bs)))"

fun search_items ::
  "kernel \<Rightarrow> file_service \<Rightarrow> cancellation \<Rightarrow> consumer \<Rightarrow> search_options \<Rightarrow> expression \<Rightarrow> walk_item list \<Rightarrow>
   search_state \<Rightarrow> world \<Rightarrow> (project_error + bool \<times> search_state) \<times> world" where
  "search_items k files cancel consume options expression [] s w = (Inr (True, s), w)"
| "search_items k files cancel consume options expression (item # items) s w =
     (case is_cancelled cancel s of
        (True, s) \<Rightarrow> (Inr (False, upd_summary (\<lambda>u. u\<lparr>su_cancelled := True\<rparr>) s), w)
      | (False, s) \<Rightarrow>
          (case item of
             Inl _ \<Rightarrow> search_items k files cancel consume options expression items (skip_file s) w
           | Inr e \<Rightarrow>
               if we_kind e \<noteq> Some IsFile then search_items k files cancel consume options expression items s w
               else
                 (case read_search_bytes k files (we_path e) (so_maximum_file_bytes options) w of
                    (r, w) \<Rightarrow>
                      (case search_text r of
                         Inl error \<Rightarrow> (Inl error, w)
                       | Inr None \<Rightarrow>
                           search_items k files cancel consume options expression items (skip_file (scan_file s)) w
                       | Inr (Some content) \<Rightarrow>
                           (case search_file cancel consume (so_maximum_results options) expression (we_path e) content
                               (scan_file s) of
                              (False, s) \<Rightarrow> (Inr (False, s), w)
                            | (True, s) \<Rightarrow> search_items k files cancel consume options expression items s w)))))"

fun search_roots ::
  "kernel \<Rightarrow> walker \<Rightarrow> file_service \<Rightarrow> cancellation \<Rightarrow> consumer \<Rightarrow> search_options \<Rightarrow> expression \<Rightarrow> path list \<Rightarrow>
   search_state \<Rightarrow> world \<Rightarrow> (project_error + search_state) \<times> world" where
  "search_roots k walk files cancel consume options expression [] s w = (Inr s, w)"
| "search_roots k walk files cancel consume options expression (root # roots) s w =
     io_bind (search_items k files cancel consume options expression
         (walk (walk_options_for None (so_include_hidden options)) root) s)
       (\<lambda>(continue, s). if continue then search_roots k walk files cancel consume options expression roots s
                        else io_return (Inr s)) w"

definition search_run ::
  "kernel \<Rightarrow> walker \<Rightarrow> search_engine \<Rightarrow> workspace_roots \<Rightarrow> search_options \<Rightarrow> cancellation \<Rightarrow> consumer \<Rightarrow> world \<Rightarrow>
   (project_error + search_state) \<times> world" where
  "search_run k walk engine roots options cancel consume =
     io_bind (io_return (validate_options options)) (\<lambda>_.
     io_bind (io_return (compile_expression engine options)) (\<lambda>expression.
       search_roots k walk (file_service_new roots) cancel consume options expression (canonical_roots roots)
         \<lparr>sc_summary = search_summary_default, sc_emitted = [], sc_tests = 0\<rparr>))"

section \<open>Pages cover the directory\<close>

abbreviation below_root :: "walk_entry list \<Rightarrow> walk_entry list" where
  "below_root es \<equiv> filter (\<lambda>e. we_depth e \<noteq> 0) es"

lemma directory_entry_Inr: "make_directory_entry k e w = (Inr d, w') \<Longrightarrow> de_path d = we_path e"
  by (auto simp: make_directory_entry_def Let_def io_bind_Inr split: if_splits)

lemma page_loop_exact:
  assumes "page_loop k offset maximum (map Inr es) seen entries w = (Inr (out, has_more), w')" "length entries \<le> maximum"
  shows "map de_path out = map de_path entries @
      take (maximum - length entries) (drop (offset - seen) (map we_path (below_root es))) \<and>
    (has_more \<longleftrightarrow> maximum - length entries < length (below_root es) - (offset - seen))"
  using assms
proof (induction es arbitrary: seen entries w)
  case (Cons e es)
  consider (root) "we_depth e = 0" | (skip) "we_depth e \<noteq> 0" "seen < offset"
    | (full) "we_depth e \<noteq> 0" "\<not> seen < offset" "length entries = maximum"
    | (take) "we_depth e \<noteq> 0" "\<not> seen < offset" "length entries < maximum"
    using Cons.prems(2) by linarith
  then show ?case
  proof cases
    case take
    then obtain d w1 where d: "de_path d = we_path e"
      and rest: "page_loop k offset maximum (map Inr es) (Suc seen) (entries @ [d]) w1 = (Inr (out, has_more), w')"
      using Cons.prems(1) by (auto simp: io_bind_Inr dest: directory_entry_Inr)
    have "maximum - length entries = Suc (maximum - Suc (length entries))" using take(3) by simp
    then show ?thesis using Cons.IH [OF rest] take d by simp
  next
    case skip
    then have "offset - seen = Suc (offset - Suc seen)" by simp
    moreover have "page_loop k offset maximum (map Inr es) (Suc seen) entries w = (Inr (out, has_more), w')"
      using Cons.prems(1) skip by simp
    note Cons.IH [OF this Cons.prems(2)]
    moreover have "map we_path (below_root (e # es)) = we_path e # map we_path (below_root es)"
      "length (below_root (e # es)) = Suc (length (below_root es))" using skip by simp_all
    ultimately show ?thesis by (simp only: drop_Suc_Cons diff_Suc_Suc)
  qed (use Cons in simp_all)
qed simp

text \<open>A directory is opened under the canonical path that the authorization computes.\<close>

lemma open_directory_path:
  assumes "open_directory k roots directory w = (Inr d, w')" "authorize roots directory = Inr az"
  shows "ad_canonical d = az_canonical az"
  using assms by (auto simp: open_directory_def io_bind_Inr split: if_splits)

lemma unat_add_word_of_nat:
  "unat c + m < 2 ^ 64 \<Longrightarrow> unat (c + word_of_nat m :: u64) = unat c + m"
  by (simp add: unat_word_ariths unat_of_nat mod_add_right_eq)

lemma saturating_add_word_of_nat:
  "unat c + m < 2 ^ 64 \<Longrightarrow> saturating_add c (word_of_nat m :: u64) = c + word_of_nat m"
  by (simp add: word_unat_eq_iff unat_add_word_of_nat unat_saturating_add unat_of_nat)

definition page_of :: "nat \<Rightarrow> path list \<Rightarrow> u64 \<Rightarrow> directory_page \<Rightarrow> bool" where
  "page_of m names c page \<longleftrightarrow>
     map de_path (dg_entries page) = take m (drop (unat c) names) \<and>
     dg_next_cursor page = (if m < length names - unat c then Some (c + word_of_nat m) else None)"

lemma directory_list_page:
  assumes "authorize roots directory = Inr az"
    and walk: "walk (walk_options_for (Some 1) (lo_include_hidden options)) (az_canonical az) = map Inr es"
    and small: "length es < 2 ^ 64"
    and run: "directory_list k walk roots directory c options w = (Inr page, w')"
  shows "page_of (lo_maximum_entries options) (map we_path (below_root es)) c page \<and> 0 < lo_maximum_entries options"
proof -
  let ?m = "lo_maximum_entries options" and ?names = "map we_path (below_root es)"
  obtain d out has_more w1 w2 where m: "0 < ?m"
    and d: "fst (open_directory k roots directory w) = Inr d"
    and loop: "page_loop k (unat c) ?m (walk (walk_options_for (Some 1) (lo_include_hidden options)) (ad_canonical d)) 0 [] w1 =
      (Inr (out, has_more), w2)"
    and page: "dg_entries page = out"
      "dg_next_cursor page = (if has_more then Some (saturating_add c (word_of_nat (length out))) else None)"
    using run by (auto simp: directory_list_def io_bind_Inr split: if_splits)
  have "ad_canonical d = az_canonical az" using open_directory_path [of k roots directory w d] d assms(1)
    by (metis prod.collapse)
  then have loop': "page_loop k (unat c) ?m (map Inr es) 0 [] w1 = (Inr (out, has_more), w2)" using loop walk by simp
  have out: "map de_path out = take ?m (drop (unat c) ?names)" and more: "has_more \<longleftrightarrow> ?m < length ?names - unat c"
    using page_loop_exact [OF loop'] by simp_all
  have "saturating_add c (word_of_nat (length out)) = c + word_of_nat ?m" if has_more
  proof -
    have "length out = ?m" using more that arg_cong [OF out, of length] by simp
    moreover have "unat c + ?m < 2 ^ 64" using more that le_less_trans [OF length_filter_le small, of "\<lambda>e. 0 < we_depth e"] by simp
    ultimately show ?thesis by (simp add: saturating_add_word_of_nat)
  qed
  then show ?thesis using out more page m by (simp add: page_of_def)
qed

lemma read_pages_complete:
  assumes page: "\<And>c p w w'. page c w = (Inr p, w') \<Longrightarrow> page_of m names c p"
    and "0 < m" "length names < 2 ^ 64" "length names - unat c < n"
    and "read_pages n page c w = (Inr r, w')"
  shows "\<exists>ds. r = Some ds \<and> map de_path ds = drop (unat c) names"
  using assms(4,5)
proof (induction n arbitrary: c w r w')
  case (Suc n)
  obtain p w1 where p: "page c w = (Inr p, w1)" using Suc.prems(2) by (auto simp: io_bind_Inr)
  note of = page [OF p, unfolded page_of_def]
  show ?case
  proof (cases "m < length names - unat c")
    case True
    let ?c = "c + word_of_nat m"
    have c: "unat ?c = unat c + m" using True assms(3) by (intro unat_add_word_of_nat) simp
    obtain rest where rest: "read_pages n page ?c w1 = (Inr rest, w')" and r: "r = map_option (\<lambda>es. dg_entries p @ es) rest"
      using Suc.prems(2) p of True by (auto simp: io_bind_Inr)
    have "length names - unat ?c < n" using c Suc.prems(1) \<open>0 < m\<close> True by simp
    from Suc.IH [OF this rest] obtain ds where "rest = Some ds" "map de_path ds = drop (unat ?c) names" by blast
    then show ?thesis using r of c by (simp add: add.commute flip: drop_drop)
  next
    case False
    then show ?thesis using Suc.prems(2) p of by (auto simp: io_bind_Inr)
  qed
qed simp

text \<open>
  C29. Pages cover a directory. As long as the walker yields the same entries, a page holds exactly the
  entries that follow its cursor, at most the requested number, and has a next cursor exactly when more
  entries follow; and a client that follows the cursors from the start gets every entry of the directory
  once, in the walker's order, after finitely many pages.
\<close>

theorem directory_pages_cover:
  assumes "authorize roots directory = Inr az"
    and "walk (walk_options_for (Some 1) (lo_include_hidden options)) (az_canonical az) = map Inr es"
    and "length es < 2 ^ 64"
  shows "(directory_list k walk roots directory c options w = (Inr page, w') \<longrightarrow>
      page_of (lo_maximum_entries options) (map we_path (below_root es)) c page) \<and>
    (read_pages (Suc (length es)) (\<lambda>c. directory_list k walk roots directory c options) 0 w = (Inr r, w'') \<longrightarrow>
      (\<exists>ds. r = Some ds \<and> map de_path ds = map we_path (below_root es)))"
proof (intro conjI impI)
  assume "directory_list k walk roots directory c options w = (Inr page, w')"
  then show "page_of (lo_maximum_entries options) (map we_path (below_root es)) c page"
    using directory_list_page [where walk = walk and roots = roots, OF assms] by blast
next
  assume run: "read_pages (Suc (length es)) (\<lambda>c. directory_list k walk roots directory c options) 0 w = (Inr r, w'')"
  then obtain p w1 where "directory_list k walk roots directory 0 options w = (Inr p, w1)" by (auto simp: io_bind_Inr)
  then have m: "0 < lo_maximum_entries options" using directory_list_page [where walk = walk and roots = roots, OF assms] by blast
  have "length (map we_path (below_root es)) < 2 ^ 64" "length (map we_path (below_root es)) - unat (0 :: u64) < Suc (length es)"
    using le_less_trans [OF length_filter_le assms(3)] by (simp_all add: le_imp_less_Suc)
  from read_pages_complete [OF _ m this run] directory_list_page [where walk = walk and roots = roots, OF assms]
  show "\<exists>ds. r = Some ds \<and> map de_path ds = map we_path (below_root es)" by fastforce
qed

section \<open>Search streams a prefix of all matches\<close>

text \<open>
  The reference: read every file of the walk, in order, and list every match of every line. The reads
  are the same system calls the search makes, so they see the same world.
\<close>

definition text_matches :: "expression \<Rightarrow> path \<times> string \<Rightarrow> search_match list" where
  "text_matches expression f =
     concat (map (\<lambda>(i, line). map (search_match_at (fst f) i line) (expression line))
       (enumerate 0 (split_inclusive (CHR 0x0A) (snd f))))"

fun visible_items ::
  "kernel \<Rightarrow> file_service \<Rightarrow> nat \<Rightarrow> walk_item list \<Rightarrow> world \<Rightarrow> (path \<times> string) list \<times> (project_error + unit) \<times> world" where
  "visible_items k files maximum [] w = ([], Inr (), w)"
| "visible_items k files maximum (Inl _ # items) w = visible_items k files maximum items w"
| "visible_items k files maximum (Inr e # items) w =
     (if we_kind e \<noteq> Some IsFile then visible_items k files maximum items w
      else
        (case read_search_bytes k files (we_path e) maximum w of
           (r, w) \<Rightarrow>
             (case search_text r of
                Inl error \<Rightarrow> ([], Inl error, w)
              | Inr None \<Rightarrow> visible_items k files maximum items w
              | Inr (Some content) \<Rightarrow>
                  (case visible_items k files maximum items w of (fs, r) \<Rightarrow> ((we_path e, content) # fs, r)))))"

fun visible_roots ::
  "kernel \<Rightarrow> walker \<Rightarrow> file_service \<Rightarrow> search_options \<Rightarrow> path list \<Rightarrow> world \<Rightarrow> (path \<times> string) list" where
  "visible_roots k walk files options [] w = []"
| "visible_roots k walk files options (root # roots) w =
     (case visible_items k files (so_maximum_file_bytes options)
             (walk (walk_options_for None (so_include_hidden options)) root) w of
        (fs, Inr _, w) \<Rightarrow> fs @ visible_roots k walk files options roots w
      | (fs, Inl _, w) \<Rightarrow> fs)"

definition all_matches :: "expression \<Rightarrow> (path \<times> string) list \<Rightarrow> search_match list" where
  "all_matches expression fs = concat (map (text_matches expression) fs)"

text \<open>How a piece of the search goes on from a state, given the matches \<open>M\<close> it comes across.\<close>

definition running :: "nat \<Rightarrow> search_state \<Rightarrow> bool" where
  "running maximum s \<longleftrightarrow>
     su_matches (sc_summary s) = length (sc_emitted s) \<and> length (sc_emitted s) \<le> maximum \<and>
     \<not> su_limit_reached (sc_summary s) \<and> \<not> su_cancelled (sc_summary s) \<and> \<not> su_consumer_stopped (sc_summary s)"

definition ever :: "cancellation \<Rightarrow> bool" where
  "ever cancel \<longleftrightarrow> (\<exists>n. cancel n)"

lemma everI: "cancel n \<Longrightarrow> ever cancel"
  by (auto simp: ever_def)

definition stopped :: "cancellation \<Rightarrow> consumer \<Rightarrow> nat \<Rightarrow> bool \<Rightarrow> search_state \<Rightarrow> bool" where
  "stopped cancel consume maximum missed s \<longleftrightarrow>
     su_matches (sc_summary s) = length (sc_emitted s) \<and> length (sc_emitted s) \<le> maximum \<and>
     (su_limit_reached (sc_summary s) \<and> missed \<and> length (sc_emitted s) = maximum \<or>
      su_cancelled (sc_summary s) \<and> ever cancel \<and> \<not> su_limit_reached (sc_summary s) \<or>
      su_consumer_stopped (sc_summary s) \<and> (\<exists>ms m. sc_emitted s = ms @ [m] \<and> \<not> consume ms m) \<and>
        \<not> su_limit_reached (sc_summary s))"

definition searched ::
  "cancellation \<Rightarrow> consumer \<Rightarrow> nat \<Rightarrow> search_match list \<Rightarrow> search_state \<Rightarrow> bool \<times> search_state \<Rightarrow> bool" where
  "searched cancel consume maximum M s r \<longleftrightarrow>
     (case r of
        (True, t) \<Rightarrow> running maximum t \<and> sc_emitted t = sc_emitted s @ M
      | (False, t) \<Rightarrow> \<exists>n \<le> length M. sc_emitted t = sc_emitted s @ take n M \<and> stopped cancel consume maximum (n < length M) t)"

lemma searched_stop:
  assumes "searched cancel consume maximum M s (False, t)"
  shows "searched cancel consume maximum (M @ N) s (False, t)"
proof -
  obtain n where "n \<le> length M" "sc_emitted t = sc_emitted s @ take n M" "stopped cancel consume maximum (n < length M) t"
    using assms by (auto simp: searched_def)
  then show ?thesis unfolding searched_def by (auto intro!: exI [of _ n] simp: stopped_def)
qed

lemma searched_seq:
  assumes "searched cancel consume maximum M s (True, t)" "searched cancel consume maximum N t r"
  shows "searched cancel consume maximum (M @ N) s r"
proof -
  obtain go u where r: "r = (go, u)" by fastforce
  show ?thesis
  proof (cases go)
    case True
    then show ?thesis using assms by (simp add: searched_def r)
  next
    case False
    then obtain n where "n \<le> length N" "sc_emitted u = sc_emitted t @ take n N" "stopped cancel consume maximum (n < length N) u"
      using assms(2) by (auto simp: searched_def r)
    then show ?thesis using assms(1) False
      by (auto simp: searched_def r intro!: exI [of _ "length M + n"])
  qed
qed

lemma searched_refl: "running maximum s \<Longrightarrow> searched cancel consume maximum [] s (True, s)"
  by (simp add: searched_def)

lemma running_irrelevant [simp]:
  "running maximum (skip_file s) = running maximum s" "running maximum (scan_file s) = running maximum s"
  "running maximum (s\<lparr>sc_tests := n\<rparr>) = running maximum s"
  "sc_emitted (skip_file s) = sc_emitted s" "sc_emitted (scan_file s) = sc_emitted s"
  by (simp_all add: running_def skip_file_def scan_file_def upd_summary_def)

lemma searched_start:
  "sc_emitted s = sc_emitted s' \<Longrightarrow> searched cancel consume maximum M s r = searched cancel consume maximum M s' r"
  by (cases r; cases "fst r") (auto simp: searched_def)

lemma searched_cancelled:
  "running maximum s \<Longrightarrow> cancel n \<Longrightarrow> sc_emitted s = sc_emitted s0 \<Longrightarrow>
   searched cancel consume maximum M s0 (False, upd_summary (\<lambda>u. u\<lparr>su_cancelled := True\<rparr>) s)"
  by (auto simp: searched_def stopped_def running_def upd_summary_def everI intro!: exI [of _ 0])

lemma search_matches_searched:
  "running maximum s \<Longrightarrow>
   searched cancel consume maximum (map (search_match_at p i line) found) s
     (search_matches cancel consume maximum p i line found s)"
proof (induction found arbitrary: s)
  case Nil
  then show ?case by (simp add: searched_refl)
next
  case (Cons f found)
  let ?m = "search_match_at p i line f"
  let ?t = "upd_summary (\<lambda>u. u\<lparr>su_matches := su_matches u + 1\<rparr>) s\<lparr>sc_emitted := sc_emitted s @ [?m]\<rparr>"
  show ?case
  proof (cases "su_matches (sc_summary s) = maximum")
    case True
    then show ?thesis using Cons.prems
      by (auto simp: searched_def stopped_def running_def upd_summary_def intro!: exI [of _ 0])
  next
    case False
    then have t: "running maximum ?t" using Cons.prems by (auto simp: running_def upd_summary_def)
    have one: "searched cancel consume maximum [?m] s (True, ?t\<lparr>sc_tests := Suc (sc_tests ?t)\<rparr>)"
      using t by (simp add: searched_def)
    show ?thesis
    proof (cases "consume (sc_emitted s) ?m")
      case ok: True
      show ?thesis
      proof (cases "cancel (sc_tests ?t)")
        case True
        have "searched cancel consume maximum [?m] s
            (False, upd_summary (\<lambda>u. u\<lparr>su_cancelled := True\<rparr>) (?t\<lparr>sc_tests := Suc (sc_tests ?t)\<rparr>))"
          using t True by (auto simp: searched_def stopped_def running_def upd_summary_def everI intro!: exI [of _ 1])
        from searched_stop [OF this] show ?thesis using False ok True by (simp add: Let_def is_cancelled_def)
      next
        case nc: False
        from searched_seq [OF one Cons.IH] t show ?thesis using False ok nc by (simp add: Let_def is_cancelled_def)
      qed
    next
      case stop: False
      have "searched cancel consume maximum [?m] s (False, upd_summary (\<lambda>u. u\<lparr>su_consumer_stopped := True\<rparr>) ?t)"
        using t stop by (auto simp: searched_def stopped_def running_def upd_summary_def intro!: exI [of _ 1])
      from searched_stop [OF this] show ?thesis using False stop by (simp add: Let_def)
    qed
  qed
qed

lemma search_lines_searched:
  "running maximum s \<Longrightarrow>
   searched cancel consume maximum
     (concat (map (\<lambda>(i, line). map (search_match_at p i line) (expression line)) (enumerate i lines))) s
     (search_lines cancel consume maximum expression p i lines s)"
proof (induction lines arbitrary: i s)
  case Nil
  then show ?case by (simp add: searched_refl)
next
  case (Cons line lines)
  let ?s = "s\<lparr>sc_tests := Suc (sc_tests s)\<rparr>"
  show ?case
  proof (cases "cancel (sc_tests s)")
    case True
    then show ?thesis using Cons.prems searched_cancelled [of maximum ?s cancel "sc_tests s" s] by (simp add: is_cancelled_def)
  next
    case False
    obtain go t where m: "search_matches cancel consume maximum p i line (expression line) ?s = (go, t)" by fastforce
    have one: "searched cancel consume maximum (map (search_match_at p i line) (expression line)) s (go, t)"
      using search_matches_searched [of maximum ?s cancel consume p i line "expression line"] Cons.prems m
        searched_start [of s ?s] by simp
    show ?thesis
    proof (cases go)
      case True
      then have go: "searched cancel consume maximum (map (search_match_at p i line) (expression line)) s (True, t)"
        using one by simp
      then have "running maximum t" by (simp add: searched_def)
      from searched_seq [OF go Cons.IH [OF this]] show ?thesis
        using False m True by (simp add: is_cancelled_def)
    next
      case stop: False
      then have "searched cancel consume maximum (map (search_match_at p i line) (expression line)) s (False, t)"
        using one by simp
      from searched_stop [OF this] show ?thesis
        using False m stop by (simp add: is_cancelled_def)
    qed
  qed
qed

lemma search_file_searched:
  "running maximum s \<Longrightarrow>
   searched cancel consume maximum (text_matches expression (p, content)) s
     (search_file cancel consume maximum expression p content s)"
  using search_lines_searched [of maximum s cancel consume p expression 0] by (simp add: search_file_def text_matches_def)

lemma all_matches_simps [simp]:
  "all_matches expression [] = []"
  "all_matches expression (f # fs) = text_matches expression f @ all_matches expression fs"
  "all_matches expression (fs @ gs) = all_matches expression fs @ all_matches expression gs"
  by (simp_all add: all_matches_def)

lemma search_items_searched:
  assumes "running (so_maximum_results options) s"
    and "search_items k files cancel consume options expression items s w = (Inr (go, t), w')"
    and "visible_items k files (so_maximum_file_bytes options) items w = (fs, r, v)"
  shows "searched cancel consume (so_maximum_results options) (all_matches expression fs) s (go, t) \<and>
    (go \<longrightarrow> r = Inr () \<and> v = w')"
  using assms
proof (induction items arbitrary: s w fs)
  case Nil
  then show ?case by (simp add: searched_refl)
next
  case (Cons item items)
  let ?max = "so_maximum_results options" and ?s = "s\<lparr>sc_tests := Suc (sc_tests s)\<rparr>"
  have skip: ?case
    if "running ?max s'" "sc_emitted s' = sc_emitted s"
      "search_items k files cancel consume options expression items s' w1 = (Inr (go, t), w')"
      "visible_items k files (so_maximum_file_bytes options) items w1 = (fs, r, v)" for s' w1
    using Cons.IH [OF that(1,3,4)] searched_start [OF that(2)] by simp
  show ?case
  proof (cases "cancel (sc_tests s)")
    case True
    then show ?thesis using Cons.prems searched_cancelled [of ?max ?s cancel "sc_tests s" s]
      by (auto simp: is_cancelled_def)
  next
    case False
    note step = Cons.prems(2,3) [simplified, unfolded is_cancelled_def, simplified, simplified False, simplified]
    show ?thesis
    proof (cases item)
      case (Inl e)
      then show ?thesis using step Cons.prems(1) by (intro skip [of "skip_file ?s" w]) simp_all
    next
      case (Inr e)
      show ?thesis
      proof (cases "we_kind e = Some IsFile")
        case nofile: False
        then show ?thesis using step Cons.prems(1) Inr by (intro skip [of ?s w]) simp_all
      next
        case True
        obtain x w1 where read: "read_search_bytes k files (we_path e) (so_maximum_file_bytes options) w = (x, w1)"
          by fastforce
        consider (error) err where "search_text x = Inl err" | (nothing) "search_text x = Inr None"
          | (content) c where "search_text x = Inr (Some c)"
          by (cases "search_text x") (auto simp: option.exhaust_sel)
        then show ?thesis
        proof cases
          case error
          then show ?thesis using step Inr True read by simp
        next
          case nothing
          then show ?thesis using step Inr True read Cons.prems(1)
            by (intro skip [of "skip_file (scan_file ?s)" w1]) simp_all
        next
          case (content c)
          obtain gs where gs: "visible_items k files (so_maximum_file_bytes options) items w1 = (gs, r, v)"
            and fs: "fs = (we_path e, c) # gs"
            using step Inr True read content by (auto split: prod.splits)
          obtain go1 t1 where f: "search_file cancel consume ?max expression (we_path e) c (scan_file ?s) = (go1, t1)"
            by fastforce
          have one: "searched cancel consume ?max (text_matches expression (we_path e, c)) s (go1, t1)"
            using search_file_searched [of ?max "scan_file ?s" cancel consume expression "we_path e" c] f Cons.prems(1)
              searched_start [of s "scan_file ?s"] by simp
          show ?thesis
          proof (cases go1)
            case True
            then have run: "running ?max t1" and one': "searched cancel consume ?max (text_matches expression (we_path e, c)) s (True, t1)"
              using one by (simp_all add: searched_def)
            have "search_items k files cancel consume options expression items t1 w1 = (Inr (go, t), w')"
              using step Inr \<open>we_kind e = Some IsFile\<close> read content f True by simp
            from Cons.IH [OF run this gs] searched_seq [OF one'] show ?thesis by (simp add: fs)
          next
            case False
            then have "go = False" "t = t1" and one': "searched cancel consume ?max (text_matches expression (we_path e, c)) s (False, t1)"
              using step Inr \<open>we_kind e = Some IsFile\<close> read content f one by simp_all
            then show ?thesis using searched_stop [OF one'] by (simp add: fs)
          qed
        qed
      qed
    qed
  qed
qed

lemma search_roots_searched:
  assumes "running (so_maximum_results options) s"
    and "search_roots k walk files cancel consume options expression roots s w = (Inr t, w')"
  shows "\<exists>go. searched cancel consume (so_maximum_results options)
    (all_matches expression (visible_roots k walk files options roots w)) s (go, t)"
  using assms
proof (induction roots arbitrary: s w)
  case Nil
  then show ?case by (auto intro: searched_refl)
next
  case (Cons root roots)
  let ?max = "so_maximum_results options"
  let ?items = "walk (walk_options_for None (so_include_hidden options)) root"
  obtain go s1 w1 where i: "search_items k files cancel consume options expression ?items s w = (Inr (go, s1), w1)"
    and rest: "(if go then search_roots k walk files cancel consume options expression roots s1 else io_return (Inr s1)) w1 = (Inr t, w')"
    using Cons.prems(2) by (auto simp: io_bind_Inr)
  obtain fs r v where vis: "visible_items k files (so_maximum_file_bytes options) ?items w = (fs, r, v)"
    by (metis prod_cases3)
  note one = search_items_searched [OF Cons.prems(1) i vis]
  show ?case
  proof (cases go)
    case True
    then have "running ?max s1" and first: "searched cancel consume ?max (all_matches expression fs) s (True, s1)"
      and r: "r = Inr ()" "v = w1"
      using one by (simp_all add: searched_def)
    moreover have "search_roots k walk files cancel consume options expression roots s1 w1 = (Inr t, w')"
      using rest True by simp
    ultimately obtain go2 where
      "searched cancel consume ?max (all_matches expression (visible_roots k walk files options roots w1)) s1 (go2, t)"
      using Cons.IH by blast
    moreover have "visible_roots k walk files options (root # roots) w = fs @ visible_roots k walk files options roots w1"
      using vis r by simp
    ultimately show ?thesis using searched_seq [OF first] by (intro exI [of _ go2]) simp
  next
    case False
    then have "searched cancel consume ?max (all_matches expression fs) s (False, t)" using one rest by simp
    moreover obtain gs where "visible_roots k walk files options (root # roots) w = fs @ gs"
      using vis by (cases r) simp_all
    ultimately show ?thesis using searched_stop by (intro exI [of _ False]) simp
  qed
qed

lemma searched_outcome:
  assumes s: "searched cancel consume limit M s0 (go, s)" and "sc_emitted s0 = []"
  shows "(\<exists>n \<le> length M. sc_emitted s = take n M \<and> (su_limit_reached (sc_summary s) \<longrightarrow> n = limit \<and> limit < length M)) \<and>
     su_matches (sc_summary s) = length (sc_emitted s) \<and> length (sc_emitted s) \<le> limit \<and>
     (sc_emitted s = M \<or> su_limit_reached (sc_summary s) \<or> su_cancelled (sc_summary s) \<and> (\<exists>n. cancel n) \<or>
       su_consumer_stopped (sc_summary s) \<and> (\<exists>ms m. sc_emitted s = ms @ [m] \<and> \<not> consume ms m)) \<and>
     ((\<forall>n. \<not> cancel n) \<and> (\<forall>ms m. consume ms m) \<longrightarrow>
       sc_emitted s = take limit M \<and> (su_limit_reached (sc_summary s) \<longleftrightarrow> limit < length M))"
proof -
  let ?u = "sc_summary s"
  consider (all) "running limit s" "sc_emitted s = M"
    | (cut) n where "n \<le> length M" "sc_emitted s = take n M" "stopped cancel consume limit (n < length M) s"
    using assms by (cases go) (auto simp: searched_def)
  then show ?thesis
  proof cases
    case all
    then have "(\<exists>n \<le> length M. M = take n M)" by (intro exI [of _ "length M"]) simp
    with all show ?thesis by (simp add: running_def)
  next
    case (cut n)
    have len: "length (sc_emitted s) = n" using cut(1,2) by simp
    have a: "\<exists>n \<le> length M. sc_emitted s = take n M \<and> (su_limit_reached ?u \<longrightarrow> n = limit \<and> limit < length M)"
      using cut len by (intro exI [of _ n]) (auto simp: stopped_def)
    have b: "su_matches ?u = length (sc_emitted s)" "length (sc_emitted s) \<le> limit"
      using cut(3) by (simp_all add: stopped_def)
    have c: "su_limit_reached ?u \<or> su_cancelled ?u \<and> (\<exists>n. cancel n) \<or>
        su_consumer_stopped ?u \<and> (\<exists>ms m. sc_emitted s = ms @ [m] \<and> \<not> consume ms m)"
      using cut(3) unfolding stopped_def ever_def by blast
    have d: "sc_emitted s = take limit M \<and> (su_limit_reached ?u \<longleftrightarrow> limit < length M)"
      if "(\<forall>n. \<not> cancel n) \<and> (\<forall>ms m. consume ms m)"
    proof -
      have "su_limit_reached ?u \<and> n < length M \<and> length (sc_emitted s) = limit"
        using cut(3) that unfolding stopped_def ever_def by blast
      then show ?thesis using cut(2) len by simp
    qed
    show ?thesis
      by (rule conjI, rule a, rule conjI, rule b(1), rule conjI, rule b(2), rule conjI, rule disjI2, rule c, rule impI,
          rule d, assumption)
  qed
qed

text \<open>
  C30. A search streams a prefix of all matches. What the consumer received is a beginning of the list
  of all matches of all readable files, in order, no longer than the requested number, and the summary
  counts it. It is the whole list unless the summary says why not: the limit was reached and there is
  another match, the search was cancelled, or the consumer declined the last match. Without
  cancellation and with a consumer that takes everything, it is exactly the first matches up to the
  limit, and the limit is reported exactly when there are more.
\<close>

theorem search_streams_prefix:
  assumes "search_run k walk engine roots options cancel consume w = (Inr s, w')"
  shows "\<exists>expression. compile_expression engine options = Inr expression \<and>
    (let M = all_matches expression (visible_roots k walk (file_service_new roots) options (canonical_roots roots) w);
         u = sc_summary s; limit = so_maximum_results options in
     (\<exists>n \<le> length M. sc_emitted s = take n M \<and> (su_limit_reached u \<longrightarrow> n = limit \<and> limit < length M)) \<and>
     su_matches u = length (sc_emitted s) \<and> length (sc_emitted s) \<le> limit \<and>
     (sc_emitted s = M \<or> su_limit_reached u \<or> su_cancelled u \<and> (\<exists>n. cancel n) \<or>
       su_consumer_stopped u \<and> (\<exists>ms m. sc_emitted s = ms @ [m] \<and> \<not> consume ms m)) \<and>
     ((\<forall>n. \<not> cancel n) \<and> (\<forall>ms m. consume ms m) \<longrightarrow>
       sc_emitted s = take limit M \<and> (su_limit_reached u \<longleftrightarrow> limit < length M)))"
proof -
  let ?s0 = "\<lparr>sc_summary = search_summary_default, sc_emitted = [], sc_tests = 0\<rparr>"
  obtain expression where ex: "compile_expression engine options = Inr expression"
    and run: "search_roots k walk (file_service_new roots) cancel consume options expression (canonical_roots roots) ?s0 w = (Inr s, w')"
    using assms by (auto simp: search_run_def io_bind_Inr)
  define M where "M = all_matches expression (visible_roots k walk (file_service_new roots) options (canonical_roots roots) w)"
  have "running (so_maximum_results options) ?s0" by (simp add: running_def search_summary_default_def)
  from search_roots_searched [OF this run] obtain go where
    s: "searched cancel consume (so_maximum_results options) M ?s0 (go, s)" by (auto simp: M_def)
  note * = searched_outcome [OF s]
  show ?thesis by (rule exI [of _ expression], rule conjI, rule ex, unfold Let_def, fold M_def, rule *, simp)
qed

text \<open>A file with two matches: with a limit of one match the search says that there are more.\<close>

definition sample_engine :: search_engine where
  "sample_engine = \<lparr>rx_escape = (\<lambda>p. p), rx_build = (\<lambda>_ _. Some (\<lambda>line. [(0, 1), (1, 1)]))\<rparr>"

definition sample_options :: search_options where
  "sample_options = search_options_default\<lparr>so_pattern := ''h'', so_maximum_results := 1, so_maximum_file_bytes := 10\<rparr>"

definition sample_walk :: walker where
  "sample_walk options dir =
     [Inr \<lparr>we_path = dir, we_depth = 0, we_kind = Some IsDir\<rparr>,
      Inr \<lparr>we_path = sample_path, we_depth = 2, we_kind = Some IsFile\<rparr>]"

lemma sample_bytes_read:
  "read_search_bytes quiet_kernel (file_service_new [sample_root]) sample_path 10 (sample_file_world\<lparr>w_calls := 0\<rparr>) =
   (Inr [104, 105], sample_file_world\<lparr>w_calls := 11\<rparr>)"
proof -
  have stat: "fstat quiet_kernel 5 (sample_file_world\<lparr>w_calls := n\<rparr>) =
      (Inr (metadata_of 5 (Reg 420 7 [104, 105])), sample_file_world\<lparr>w_calls := Suc n\<rparr>)" for n
    by (simp add: sample_file_world_def kernel_defs)
  have parent: "open_parent quiet_kernel [sample_root] sample_path (sample_file_world\<lparr>w_calls := 0\<rparr>) =
      (Inr (\<lparr>ad_canonical = [''/'', ''w'', ''src''], ad_file = 2\<rparr>, ''a.txt''), sample_file_world\<lparr>w_calls := 2\<rparr>)"
    using sample_parent_opened by (simp add: sample_files_def sample_file_world_def)
  have "\<not> looks_binary [104, 105]" by (simp add: looks_binary_def)
  then show ?thesis
    by (simp add: read_search_bytes_def read_verified_bytes_def io_bind_def io_map_err_def parent sample_reads stat
        file_service_new_def MAXIMUM_TEXT_BYTES_def same_file_def metadata_changed_def)
qed

lemma sample_search:
  "search_run quiet_kernel sample_walk sample_engine [sample_root] sample_options (\<lambda>_. False) (\<lambda>_ _. True)
      (sample_file_world\<lparr>w_calls := 0\<rparr>) =
   (Inr \<lparr>sc_summary = search_summary_default\<lparr>su_scanned_files := 1, su_matches := 1, su_limit_reached := True\<rparr>,
         sc_emitted = [search_match_at sample_path 0 ''hi'' (0, 1)], sc_tests = 4\<rparr>,
    sample_file_world\<lparr>w_calls := 11\<rparr>)"
proof -
  have "search_text (Inr [104, 105]) = Inr (Some ''hi'')"
    by (simp add: search_text_def valid_utf8.simps utf8_head_def Let_def) code_simp
  then show ?thesis
    by (simp add: search_run_def sample_options_def search_options_default_def validate_options_def compile_expression_def
        sample_engine_def io_bind_def MAXIMUM_PATTERN_BYTES_def MAXIMUM_SEARCH_RESULTS_def MAXIMUM_TEXT_BYTES_def
        canonical_roots_def sample_walk_def is_cancelled_def sample_bytes_read search_file_def scan_file_def
        upd_summary_def search_summary_default_def saturating_add_def)
qed

theorem search_streams_prefix_witness:
  "1 < length (all_matches (\<lambda>line. [(0, 1), (1, 1)]) (visible_roots quiet_kernel sample_walk (file_service_new [sample_root])
     sample_options (canonical_roots [sample_root]) (sample_file_world\<lparr>w_calls := 0\<rparr>)))"
proof -
  have "compile_expression sample_engine sample_options = Inr (\<lambda>line. [(0, 1), (1, 1)])"
    by (simp add: compile_expression_def sample_engine_def)
  then show ?thesis
    using search_streams_prefix [OF sample_search] by (auto simp: Let_def sample_options_def)
qed

definition sample_directory_walk :: walker where
  "sample_directory_walk options dir =
     [Inr \<lparr>we_path = dir, we_depth = 0, we_kind = Some IsDir\<rparr>,
      Inr \<lparr>we_path = dir @ [''out''], we_depth = 1, we_kind = Some IsSymlink\<rparr>,
      Inr \<lparr>we_path = dir @ [''src''], we_depth = 1, we_kind = Some IsDir\<rparr>]"

lemma sample_root_authorized:
  "authorize [sample_root] [''/'', ''w''] =
   Inr \<lparr>az_root = sample_root, az_canonical = [''/'', ''w''], az_components = []\<rparr>"
  by (simp add: authorize_def is_absolute_def path_starts_with_def path_parent_def match_prefix_def Let_def
      normalize_absolute_def normal_component_def sample_root_def)

lemma sample_root_opened:
  "open_directory quiet_kernel [sample_root] [''/'', ''w''] (sample_world\<lparr>w_calls := n\<rparr>) =
   (Inr \<lparr>ad_canonical = [''/'', ''w''], ad_file = 1\<rparr>, sample_world\<lparr>w_calls := n + 2\<rparr>)"
  by (simp add: open_directory_def sample_root_authorized) (simp add: sample_root_def kernel_defs)

lemma sample_page:
  "directory_list quiet_kernel sample_directory_walk [sample_root] [''/'', ''w''] c
     \<lparr>lo_maximum_entries = 1, lo_include_hidden = False\<rparr> (sample_world\<lparr>w_calls := n\<rparr>) =
   (Inr (let entry = (\<lambda>name kind. \<lparr>de_path = [''/'', ''w'', name], de_display_name = name, de_kind = kind, de_bytes = None\<rparr>) in
      \<lparr>dg_directory = [''/'', ''w''],
       dg_entries = (if c = 0 then [entry ''out'' EntrySymlink] else if c = 1 then [entry ''src'' EntryDirectory] else []),
       dg_next_cursor = (if c = 0 then Some 1 else None)\<rparr>),
    sample_world\<lparr>w_calls := n + 4\<rparr>)"
proof -
  have stat: "fstat quiet_kernel 1 (sample_world\<lparr>w_calls := m\<rparr>) =
      (Inr \<lparr>md_ino = 1, md_kind = IsDir, md_mode = 493, md_len = 0, md_mtime = 0\<rparr>, sample_world\<lparr>w_calls := Suc m\<rparr>)" for m
    by (simp add: kernel_defs)
  have entry: "make_directory_entry quiet_kernel \<lparr>we_path = p, we_depth = d, we_kind = Some kind\<rparr> w =
      (Inr \<lparr>de_path = p, de_display_name = path_name p, de_kind = entry_kind \<lparr>we_path = p, we_depth = d, we_kind = Some kind\<rparr>,
            de_bytes = None\<rparr>, w)" if "kind = IsDir \<or> kind = IsSymlink" for p d kind w
    using that by (auto simp: make_directory_entry_def entry_kind_def io_bind_def)
  have name: "path_name [''/'', ''w'', ''out''] = ''out''" "path_name [''/'', ''w'', ''src''] = ''src''"
    by (simp_all add: path_name_def path_file_name_def)
  consider "c = 0" | "c = 1" | "c \<noteq> 0" "c \<noteq> 1" by blast
  then show ?thesis
  proof cases
    case 3
    then have "Suc 0 < unat c" using unat_gt_0 [of c] by (metis One_nat_def Suc_lessI unat_1 word_unat_eq_iff)
    then show ?thesis using 3
      by (simp add: directory_list_def io_bind_def sample_root_opened stat [simplified] io_map_err_def MAXIMUM_DIRECTORY_PAGE_SIZE_def
          sample_directory_walk_def same_directory_def Let_def)
  qed (simp_all add: directory_list_def io_bind_def sample_root_opened stat [simplified] io_map_err_def MAXIMUM_DIRECTORY_PAGE_SIZE_def
      sample_directory_walk_def same_directory_def entry entry_kind_def name saturating_add_def)
qed

lemma sample_pages_read:
  "\<exists>ds w'. read_pages (Suc 3) (\<lambda>c. directory_list quiet_kernel sample_directory_walk [sample_root] [''/'', ''w''] c
       \<lparr>lo_maximum_entries = 1, lo_include_hidden = False\<rparr>) 0 (sample_world\<lparr>w_calls := 0\<rparr>) = (Inr (Some ds), w')"
proof -
  have "Suc 3 = Suc (Suc (Suc (Suc 0)))" by simp
  then show ?thesis by (simp only: read_pages.simps io_bind_def sample_page) (simp add: Let_def io_bind_def sample_page [simplified])
qed

theorem directory_pages_cover_witness:
  "\<exists>ds w'. read_pages 4 (\<lambda>c. directory_list quiet_kernel sample_directory_walk [sample_root] [''/'', ''w''] c
       \<lparr>lo_maximum_entries = 1, lo_include_hidden = False\<rparr>) 0 (sample_world\<lparr>w_calls := 0\<rparr>) = (Inr (Some ds), w') \<and>
     map de_path ds = [[''/'', ''w'', ''out''], [''/'', ''w'', ''src'']]"
proof -
  let ?es = "map projr (sample_directory_walk (walk_options_for (Some 1) False) [''/'', ''w''])"
  have walk: "sample_directory_walk (walk_options_for (Some 1) (lo_include_hidden \<lparr>lo_maximum_entries = 1, lo_include_hidden = False\<rparr>))
      (az_canonical \<lparr>az_root = sample_root, az_canonical = [''/'', ''w''], az_components = []\<rparr>) = map Inr ?es"
    by (simp add: sample_directory_walk_def)
  have len: "length ?es < 2 ^ 64" "length ?es = 3" by (simp_all add: sample_directory_walk_def)
  obtain ds w' where run: "read_pages (Suc 3) (\<lambda>c. directory_list quiet_kernel sample_directory_walk [sample_root] [''/'', ''w''] c
       \<lparr>lo_maximum_entries = 1, lo_include_hidden = False\<rparr>) 0 (sample_world\<lparr>w_calls := 0\<rparr>) = (Inr (Some ds), w')"
    using sample_pages_read by blast
  have "map de_path ds = map we_path (below_root ?es)"
    using directory_pages_cover [where walk = sample_directory_walk and options = "\<lparr>lo_maximum_entries = 1, lo_include_hidden = False\<rparr>",
      OF sample_root_authorized walk len(1), THEN conjunct2] run len(2) by fastforce
  then show ?thesis using run by (auto simp: sample_directory_walk_def)
qed

end
