(* ===== verification/Database.thy ===== *)
theory Database
  imports Session_State Adapter_Contract "HOL-Library.Product_Lexorder" "HOL-Library.Multiset"
begin

text \<open>
  The encrypted database, \<^verbatim>\<open>crates/maestro-storage/src/database.rs\<close> with the tables of
  \<^verbatim>\<open>crates/maestro-storage/migrations\<close>. A table is the list of its rows. An identifier and its text are
  identified, as are a JSON value and its text and a time and its RFC 3339 text, which sorts like the
  time. What SQLite does with a statement is modelled as far as the code relies on it: keys, unique
  and foreign-key constraints, selection, order and limit. The engine may also fail on its own: \<open>sql\<close>
  says that it does not. A failed statement or transaction changes nothing. Rows that the ORDER BY of
  a query does not tell apart come in table order.
\<close>

section \<open>Tables\<close>

record project_row =
  pj_id :: project_id
  pj_display_name :: string
  pj_created_at :: date_time
  pj_updated_at :: date_time
  pj_favorite :: bool
  pj_last_opened_at :: "date_time option"

record root_row =
  wr_project :: project_id
  wr_path :: string
  wr_order :: nat

record session_row =
  se_id :: session_id
  se_project :: project_id
  se_agent_kind :: agent_kind
  se_integration_mode :: integration_mode
  se_state :: session_state
  se_title :: "string option"
  se_created_at :: date_time
  se_updated_at :: date_time

record run_row =
  pr_id :: run_id
  pr_session :: session_id
  pr_pid :: u32
  pr_invocation :: json
  pr_channel :: string
  pr_state :: string
  pr_started_at :: date_time
  pr_exited_at :: "date_time option"
  pr_exit_code :: "int option"
  pr_recovery :: "json option"

record raw_row =
  rw_run :: run_id
  rw_session :: session_id
  rw_started_at :: date_time
  rw_ended_at :: "date_time option"
  rw_byte_count :: nat
  rw_storage_path :: string
  rw_content :: bytes
  rw_observed_byte_count :: u64
  rw_truncated :: bool
  rw_completed :: bool

record tab_row =
  tt_id :: terminal_id
  tt_project :: project_id
  tt_kind :: string
  tt_title :: string
  tt_state :: string
  tt_created_at :: date_time

record terminal_segment_row =
  sg_id :: uuid
  sg_terminal :: terminal_id
  sg_sequence_start :: u64
  sg_sequence_end :: u64
  sg_byte_count :: nat
  sg_storage_path :: string
  sg_created_at :: date_time

record layout_row =
  ly_project :: project_id
  ly_window_key :: string
  ly_layout_json :: string
  ly_updated_at :: date_time

record setting_row =
  st_scope :: string
  st_reference :: string
  st_key :: string
  st_value_json :: string
  st_updated_at :: date_time

record database =
  db_versions :: "int list"
  db_projects :: "project_row list"
  db_roots :: "root_row list"
  db_sessions :: "session_row list"
  db_runs :: "run_row list"
  db_events :: "event_envelope list"
  db_raw :: "raw_row list"
  db_tabs :: "tab_row list"
  db_segments :: "terminal_segment_row list"
  db_layouts :: "layout_row list"
  db_settings :: "setting_row list"

datatype storage_error =
    EncryptionUnavailable | DatabaseIo | UnsupportedSchemaVersion int int | UncheckpointedWal path
  | StorageInvalidLimit | ProjectNotFound | StorageJson | StorageSql

record recovery_summary =
  ry_interrupted_runs :: nat
  ry_interrupted_sessions :: nat

record persisted_project =
  pp_id :: project_id
  pp_display_name :: string
  pp_canonical_roots :: "string list"
  pp_favorite :: bool
  pp_last_opened_at :: date_time

text \<open>\<^verbatim>\<open>i64::try_from\<close> succeeds on a natural number.\<close>

definition fits_i64 :: "nat \<Rightarrow> bool" where
  "fits_i64 n \<longleftrightarrow> n < 2 ^ 63"

text \<open>UPDATE: the rows that satisfy a condition are replaced; INSERT \<dots> ON CONFLICT updates the row of the key instead.\<close>

definition update_where :: "('r \<Rightarrow> bool) \<Rightarrow> ('r \<Rightarrow> 'r) \<Rightarrow> 'r list \<Rightarrow> 'r list" where
  "update_where P f rows = map (\<lambda>r. if P r then f r else r) rows"

definition changed_rows :: "('r \<Rightarrow> bool) \<Rightarrow> 'r list \<Rightarrow> nat" where
  "changed_rows P rows = length (filter P rows)"

definition upsert :: "('r \<Rightarrow> bool) \<Rightarrow> ('r \<Rightarrow> 'r) \<Rightarrow> 'r \<Rightarrow> 'r list \<Rightarrow> 'r list" where
  "upsert P f row rows = (if list_ex P rows then update_where P f rows else rows @ [row])"

definition project_exists :: "database \<Rightarrow> project_id \<Rightarrow> bool" where
  "project_exists db p \<longleftrightarrow> p \<in> pj_id ` set (db_projects db)"

definition session_exists :: "database \<Rightarrow> session_id \<Rightarrow> bool" where
  "session_exists db s \<longleftrightarrow> s \<in> se_id ` set (db_sessions db)"

definition run_exists :: "database \<Rightarrow> run_id \<Rightarrow> bool" where
  "run_exists db r \<longleftrightarrow> r \<in> pr_id ` set (db_runs db)"

definition terminal_exists :: "database \<Rightarrow> terminal_id \<Rightarrow> bool" where
  "terminal_exists db t \<longleftrightarrow> t \<in> tt_id ` set (db_tabs db)"

section \<open>Migrations\<close>

definition CURRENT_SCHEMA_VERSION :: int where "CURRENT_SCHEMA_VERSION = 3"

definition latest_version :: "int list \<Rightarrow> int option" where
  "latest_version versions = (if versions = [] then None else Some (Max (set versions)))"

definition reject_future_schema :: "int option \<Rightarrow> storage_error + unit" where
  "reject_future_schema latest =
     (case latest of
        Some found \<Rightarrow>
          if found > CURRENT_SCHEMA_VERSION then Inl (UnsupportedSchemaVersion found CURRENT_SCHEMA_VERSION) else Inr ()
      | None \<Rightarrow> Inr ())"

text \<open>One migration: a transaction that runs its script and records its version; \<open>commits v\<close> tells whether it succeeds.\<close>

definition apply_migration :: "(int \<Rightarrow> bool) \<Rightarrow> int \<Rightarrow> int list \<Rightarrow> (storage_error + unit) \<times> int list" where
  "apply_migration commits v versions =
     (if v \<in> set versions then (Inr (), versions)
      else if commits v then (Inr (), versions @ [v])
      else (Inl StorageSql, versions))"

definition migrate :: "(int \<Rightarrow> bool) \<Rightarrow> int list \<Rightarrow> (storage_error + unit) \<times> int list" where
  "migrate commits versions =
     (case reject_future_schema (latest_version versions) of
        Inl e \<Rightarrow> (Inl e, versions)
      | Inr _ \<Rightarrow>
          (case apply_migration commits 1 versions of
             (Inl e, vs) \<Rightarrow> (Inl e, vs)
           | (Inr _, vs) \<Rightarrow>
               (case apply_migration commits 2 vs of
                  (Inl e, vs) \<Rightarrow> (Inl e, vs)
                | (Inr _, vs) \<Rightarrow> apply_migration commits 3 vs)))"

definition schema_version :: "bool \<Rightarrow> database \<Rightarrow> storage_error + int" where
  "schema_version sql db =
     (if \<not> sql then Inl StorageSql
      else (case latest_version (db_versions db) of Some v \<Rightarrow> Inr v | None \<Rightarrow> Inl StorageSql))"

text \<open>
  Opening an existing file: the read-only probe looks at the write-ahead log beside it (\<open>wal\<close>: its
  length, or that it cannot be examined) and at the schema before anything is written.
\<close>

definition probe_schema_compatibility ::
  "path \<Rightarrow> bool + nat option \<Rightarrow> bool \<Rightarrow> bool \<Rightarrow> int list option \<Rightarrow> storage_error + unit" where
  "probe_schema_compatibility wal_path wal opens sqlcipher versions =
     (case wal of
        Inl _ \<Rightarrow> Inl DatabaseIo
      | Inr wal_size \<Rightarrow>
          if (case wal_size of Some n \<Rightarrow> 0 < n | None \<Rightarrow> False) then Inl (UncheckpointedWal wal_path)
          else if \<not> opens then Inl StorageSql
          else if \<not> sqlcipher then Inl EncryptionUnavailable
          else (case versions of None \<Rightarrow> Inr () | Some vs \<Rightarrow> reject_future_schema (latest_version vs)))"

text \<open>The URI of the probe's read-only connection.\<close>

definition uri_plain :: "u8 \<Rightarrow> bool" where
  "uri_plain b \<longleftrightarrow> (48 \<le> b \<and> b \<le> 57) \<or> (65 \<le> b \<and> b \<le> 90) \<or> (97 \<le> b \<and> b \<le> 122) \<or> b \<in> {47, 45, 46, 95, 126}"

definition hex_digit :: "nat \<Rightarrow> char" where
  "hex_digit n = ''0123456789ABCDEF'' ! n"

definition uri_byte :: "u8 \<Rightarrow> string" where
  "uri_byte b =
     (if uri_plain b then [char_of (unat b)]
      else [CHR ''%'', hex_digit (unat b div 16), hex_digit (unat b mod 16)])"

definition encode_immutable_uri :: "bytes \<Rightarrow> string" where
  "encode_immutable_uri p = ''file:'' @ concat (map uri_byte p) @ ''?immutable=1''"

section \<open>Projects\<close>

definition roots_of :: "database \<Rightarrow> project_id \<Rightarrow> string list" where
  "roots_of db p = map wr_path (sort_key wr_order (filter (\<lambda>r. wr_project r = p) (db_roots db)))"

text \<open>The body of the transaction; it fails on two equal roots by the unique constraint.\<close>

definition upsert_project_in_transaction ::
  "date_time \<Rightarrow> project_id \<Rightarrow> string \<Rightarrow> string list \<Rightarrow> database \<Rightarrow> storage_error + database" where
  "upsert_project_in_transaction now p display_name roots db =
     (let row = \<lparr>pj_id = p, pj_display_name = display_name, pj_created_at = now, pj_updated_at = now,
                 pj_favorite = False, pj_last_opened_at = Some now\<rparr>;
          projects = upsert (\<lambda>r. pj_id r = p)
            (\<lambda>r. r\<lparr>pj_display_name := display_name, pj_updated_at := now, pj_last_opened_at := Some now\<rparr>) row
            (db_projects db);
          kept = filter (\<lambda>r. wr_project r \<noteq> p) (db_roots db);
          new = map (\<lambda>(i, root). \<lparr>wr_project = p, wr_path = root, wr_order = i\<rparr>) (enumerate 0 roots)
      in if \<not> distinct roots then Inl StorageSql
         else Inr (db\<lparr>db_projects := projects, db_roots := kept @ new\<rparr>))"

definition upsert_project ::
  "bool \<Rightarrow> date_time \<Rightarrow> project_id \<Rightarrow> string \<Rightarrow> string list \<Rightarrow> database \<Rightarrow> (storage_error + unit) \<times> database" where
  "upsert_project sql now p display_name roots db =
     (if \<not> sql then (Inl StorageSql, db)
      else (case upsert_project_in_transaction now p display_name roots db of
              Inl e \<Rightarrow> (Inl e, db)
            | Inr db' \<Rightarrow> (Inr (), db')))"

text \<open>
  The candidates: projects whose first root and number of roots agree, the proposed one first, then the
  ones opened last.
\<close>

fun project_uuid :: "project_id \<Rightarrow> uuid" where
  "project_uuid (ProjectId u) = u"

definition candidate_key :: "project_id \<Rightarrow> project_row \<Rightarrow> bool \<times> bool \<times> int \<times> uuid" where
  "candidate_key proposed r =
     (pj_id r \<noteq> proposed, pj_last_opened_at r = None,
      (case pj_last_opened_at r of Some t \<Rightarrow> - t | None \<Rightarrow> 0), project_uuid (pj_id r))"

definition candidates :: "project_id \<Rightarrow> string list \<Rightarrow> database \<Rightarrow> project_id list" where
  "candidates proposed roots db =
     (case roots of
        [] \<Rightarrow> []
      | first # _ \<Rightarrow>
          map pj_id (sort_key (candidate_key proposed)
            (filter (\<lambda>r. (\<exists>w \<in> set (db_roots db). wr_project w = pj_id r \<and> wr_order w = 0 \<and> wr_path w = first) \<and>
                         length (filter (\<lambda>w. wr_project w = pj_id r) (db_roots db)) = length roots)
               (db_projects db))))"

definition upsert_project_registration ::
  "bool \<Rightarrow> date_time \<Rightarrow> project_id \<Rightarrow> string \<Rightarrow> string list \<Rightarrow> database \<Rightarrow> (storage_error + project_id) \<times> database" where
  "upsert_project_registration sql now proposed display_name roots db =
     (if \<not> fits_i64 (length roots) then (Inl StorageInvalidLimit, db)
      else if \<not> sql then (Inl StorageSql, db)
      else
        (let resolved = (case find (\<lambda>c. roots_of db c = roots) (candidates proposed roots db) of
                           Some c \<Rightarrow> c
                         | None \<Rightarrow> proposed)
         in case upsert_project_in_transaction now resolved display_name roots db of
              Inl e \<Rightarrow> (Inl e, db)
            | Inr db' \<Rightarrow> (Inr resolved, db')))"

definition set_project_favorite ::
  "bool \<Rightarrow> date_time \<Rightarrow> project_id \<Rightarrow> bool \<Rightarrow> database \<Rightarrow> (storage_error + unit) \<times> database" where
  "set_project_favorite sql now p favorite db =
     (if \<not> sql then (Inl StorageSql, db)
      else
        (let P = (\<lambda>r. pj_id r = p);
             db' = db\<lparr>db_projects := update_where P (\<lambda>r. r\<lparr>pj_favorite := favorite, pj_updated_at := now\<rparr>) (db_projects db)\<rparr>
         in if changed_rows P (db_projects db) = 0 then (Inl ProjectNotFound, db') else (Inr (), db')))"

definition recent_key :: "project_row \<Rightarrow> bool \<times> int" where
  "recent_key r = (\<not> pj_favorite r, - the (pj_last_opened_at r))"

definition recent_projects :: "bool \<Rightarrow> nat \<Rightarrow> database \<Rightarrow> storage_error + persisted_project list" where
  "recent_projects sql limit db =
     (if limit = 0 \<or> limit > 100 then Inl StorageInvalidLimit
      else if \<not> sql then Inl StorageSql
      else Inr (map (\<lambda>r. \<lparr>pp_id = pj_id r, pp_display_name = pj_display_name r, pp_canonical_roots = roots_of db (pj_id r),
                           pp_favorite = pj_favorite r, pp_last_opened_at = the (pj_last_opened_at r)\<rparr>)
             (take limit (sort_key recent_key (filter (\<lambda>r. pj_last_opened_at r \<noteq> None) (db_projects db))))))"

section \<open>Layouts and settings\<close>

text \<open>\<open>valid_json\<close> stands for the JSON parser of \<^verbatim>\<open>serde_json\<close>: whether a text is a JSON document.\<close>

definition save_window_layout ::
  "(string \<Rightarrow> bool) \<Rightarrow> bool \<Rightarrow> date_time \<Rightarrow> project_id \<Rightarrow> string \<Rightarrow> string \<Rightarrow> database \<Rightarrow>
   (storage_error + unit) \<times> database" where
  "save_window_layout valid_json sql now p window_key layout_json db =
     (if \<not> valid_json layout_json then (Inl StorageJson, db)
      else if \<not> sql \<or> \<not> project_exists db p then (Inl StorageSql, db)
      else (Inr (), db\<lparr>db_layouts := upsert (\<lambda>r. ly_project r = p \<and> ly_window_key r = window_key)
                (\<lambda>r. r\<lparr>ly_layout_json := layout_json, ly_updated_at := now\<rparr>)
                \<lparr>ly_project = p, ly_window_key = window_key, ly_layout_json = layout_json, ly_updated_at = now\<rparr>
                (db_layouts db)\<rparr>))"

definition window_layout :: "bool \<Rightarrow> project_id \<Rightarrow> string \<Rightarrow> database \<Rightarrow> storage_error + string option" where
  "window_layout sql p window_key db =
     (if \<not> sql then Inl StorageSql
      else Inr (map_option ly_layout_json (find (\<lambda>r. ly_project r = p \<and> ly_window_key r = window_key) (db_layouts db))))"

definition setting_is :: "string \<Rightarrow> string \<Rightarrow> string \<Rightarrow> setting_row \<Rightarrow> bool" where
  "setting_is scope reference key r \<longleftrightarrow> st_scope r = scope \<and> st_reference r = reference \<and> st_key r = key"

definition setting :: "bool \<Rightarrow> string \<Rightarrow> string \<Rightarrow> string \<Rightarrow> database \<Rightarrow> storage_error + string option" where
  "setting sql scope reference key db =
     (if \<not> sql then Inl StorageSql
      else Inr (map_option st_value_json (find (setting_is scope reference key) (db_settings db))))"

definition save_setting ::
  "bool \<Rightarrow> date_time \<Rightarrow> string \<Rightarrow> string \<Rightarrow> string \<Rightarrow> string \<Rightarrow> database \<Rightarrow> (storage_error + unit) \<times> database" where
  "save_setting sql now scope reference key value_json db =
     (if \<not> sql then (Inl StorageSql, db)
      else (Inr (), db\<lparr>db_settings := upsert (setting_is scope reference key)
                (\<lambda>r. r\<lparr>st_value_json := value_json, st_updated_at := now\<rparr>)
                \<lparr>st_scope = scope, st_reference = reference, st_key = key, st_value_json = value_json, st_updated_at = now\<rparr>
                (db_settings db)\<rparr>))"

section \<open>Terminals\<close>

definition register_terminal_tab ::
  "bool \<Rightarrow> date_time \<Rightarrow> terminal_id \<Rightarrow> project_id \<Rightarrow> string \<Rightarrow> string \<Rightarrow> string \<Rightarrow> database \<Rightarrow>
   (storage_error + unit) \<times> database" where
  "register_terminal_tab sql now t p kind title state db =
     (if \<not> sql \<or> \<not> terminal_exists db t \<and> \<not> project_exists db p then (Inl StorageSql, db)
      else (Inr (), db\<lparr>db_tabs := upsert (\<lambda>r. tt_id r = t) (\<lambda>r. r\<lparr>tt_title := title, tt_state := state\<rparr>)
                \<lparr>tt_id = t, tt_project = p, tt_kind = kind, tt_title = title, tt_state = state, tt_created_at = now\<rparr>
                (db_tabs db)\<rparr>))"

definition append_terminal_segment ::
  "bool \<Rightarrow> date_time \<Rightarrow> uuid \<Rightarrow> terminal_id \<Rightarrow> u64 \<Rightarrow> u64 \<Rightarrow> nat \<Rightarrow> string \<Rightarrow> database \<Rightarrow>
   (storage_error + unit) \<times> database" where
  "append_terminal_segment sql now segment t sequence_start sequence_end byte_count storage_path db =
     (if \<not> (fits_i64 (unat sequence_start) \<and> fits_i64 (unat sequence_end) \<and> fits_i64 byte_count)
      then (Inl StorageInvalidLimit, db)
      else if \<not> sql \<or> segment \<in> sg_id ` set (db_segments db) \<or> \<not> terminal_exists db t then (Inl StorageSql, db)
      else (Inr (), db\<lparr>db_segments := db_segments db @
              [\<lparr>sg_id = segment, sg_terminal = t, sg_sequence_start = sequence_start, sg_sequence_end = sequence_end,
                sg_byte_count = byte_count, sg_storage_path = storage_path, sg_created_at = now\<rparr>]\<rparr>))"

text \<open>Newest first.\<close>

definition segment_key :: "terminal_segment_row \<Rightarrow> date_time \<times> u64 \<times> uuid" where
  "segment_key r = (sg_created_at r, sg_sequence_end r, sg_id r)"

definition newest_first :: "terminal_id \<Rightarrow> database \<Rightarrow> terminal_segment_row list" where
  "newest_first t db = rev (sort_key segment_key (filter (\<lambda>r. sg_terminal r = t) (db_segments db)))"

fun expired_segments :: "u64 \<Rightarrow> u64 \<Rightarrow> terminal_segment_row list \<Rightarrow> terminal_segment_row list" where
  "expired_segments maximum retained [] = []"
| "expired_segments maximum retained (r # rs) =
     (if saturating_add retained (word_of_nat (sg_byte_count r)) \<le> maximum
      then expired_segments maximum (saturating_add retained (word_of_nat (sg_byte_count r))) rs
      else r # expired_segments maximum retained rs)"

definition prune_terminal_segments ::
  "bool \<Rightarrow> terminal_id \<Rightarrow> u64 \<Rightarrow> database \<Rightarrow> (storage_error + string list) \<times> database" where
  "prune_terminal_segments sql t maximum_bytes db =
     (if \<not> sql then (Inl StorageSql, db)
      else
        (let expired = expired_segments maximum_bytes 0 (newest_first t db)
         in if expired = [] then (Inr [], db)
            else (Inr (map sg_storage_path expired),
                  db\<lparr>db_segments := filter (\<lambda>r. sg_id r \<notin> sg_id ` set expired) (db_segments db)\<rparr>)))"

definition update_terminal_state ::
  "bool \<Rightarrow> terminal_id \<Rightarrow> string \<Rightarrow> database \<Rightarrow> (storage_error + unit) \<times> database" where
  "update_terminal_state sql t state db =
     (if \<not> sql then (Inl StorageSql, db)
      else (Inr (), db\<lparr>db_tabs := update_where (\<lambda>r. tt_id r = t) (\<lambda>r. r\<lparr>tt_state := state\<rparr>) (db_tabs db)\<rparr>))"

section \<open>Recovery\<close>

definition INTERRUPTED_STATES :: "string list" where
  "INTERRUPTED_STATES = [''created'', ''starting'', ''ready'', ''running'', ''awaiting_permission'',
     ''awaiting_user_input'', ''background'', ''interrupting'']"

text \<open>The text of a state, as \<^verbatim>\<open>serde\<close> and \<^verbatim>\<open>session_state_name\<close> write it.\<close>

fun session_state_name :: "session_state \<Rightarrow> string" where
  "session_state_name Created = ''created''"
| "session_state_name Starting = ''starting''"
| "session_state_name Ready = ''ready''"
| "session_state_name Running = ''running''"
| "session_state_name AwaitingPermission = ''awaiting_permission''"
| "session_state_name AwaitingUserInput = ''awaiting_user_input''"
| "session_state_name Background = ''background''"
| "session_state_name Interrupting = ''interrupting''"
| "session_state_name Completed = ''completed''"
| "session_state_name Stopped = ''stopped''"
| "session_state_name Failed = ''failed''"
| "session_state_name Interrupted = ''interrupted''"
| "session_state_name Recoverable = ''recoverable''"
| "session_state_name Incompatible = ''incompatible''"

definition interruptible_run :: "run_row \<Rightarrow> bool" where
  "interruptible_run r \<longleftrightarrow> pr_state r \<in> set INTERRUPTED_STATES"

definition interruptible_session :: "session_row \<Rightarrow> bool" where
  "interruptible_session r \<longleftrightarrow> session_state_name (se_state r) \<in> set INTERRUPTED_STATES"

definition recover_interrupted_work :: "bool \<Rightarrow> date_time \<Rightarrow> database \<Rightarrow> (storage_error + recovery_summary) \<times> database" where
  "recover_interrupted_work sql now db =
     (if \<not> sql then (Inl StorageSql, db)
      else (Inr \<lparr>ry_interrupted_runs = changed_rows interruptible_run (db_runs db),
                 ry_interrupted_sessions = changed_rows interruptible_session (db_sessions db)\<rparr>,
        db\<lparr>db_runs := update_where interruptible_run (\<lambda>r. r\<lparr>pr_state := ''interrupted'',
               pr_exited_at := (case pr_exited_at r of Some t \<Rightarrow> Some t | None \<Rightarrow> Some now),
               pr_recovery := Some (Object [(''reason'', String ''daemon_restart'')])\<rparr>) (db_runs db),
           db_sessions := update_where interruptible_session
               (\<lambda>r. r\<lparr>se_state := Interrupted, se_updated_at := now\<rparr>) (db_sessions db),
           db_tabs := update_where (\<lambda>r. tt_state r \<in> {''running'', ''starting''})
               (\<lambda>r. r\<lparr>tt_state := ''interrupted''\<rparr>) (db_tabs db)\<rparr>))"

section \<open>Well-formed databases\<close>

text \<open>
  The keys and foreign keys of the tables, and that no two projects have the same non-empty list of
  roots, which the registration is meant to ensure.
\<close>

definition projects_ok :: "database \<Rightarrow> bool" where
  "projects_ok db \<longleftrightarrow>
     distinct (map pj_id (db_projects db)) \<and>
     (\<forall>w \<in> set (db_roots db). project_exists db (wr_project w)) \<and>
     (\<forall>p. map wr_order (sort_key wr_order (filter (\<lambda>w. wr_project w = p) (db_roots db))) =
        [0..<length (roots_of db p)]) \<and>
     (\<forall>p q. roots_of db p = roots_of db q \<longrightarrow> roots_of db p \<noteq> [] \<longrightarrow> p = q)"

lemma upsert_keys:
  assumes "\<And>r. P r \<Longrightarrow> key (f r) = key r" "\<And>r. P r \<longleftrightarrow> key r = k" "key row = k"
  shows "distinct (map key rows) \<Longrightarrow> distinct (map key (upsert P f row rows))" "key ` set (upsert P f row rows) = insert k (key ` set rows)"
proof -
  have same: "map key (update_where P f rows) = map key rows"
    using assms(1) by (auto simp: update_where_def)
  then have set_same: "key ` set (update_where P f rows) = key ` set rows" by (metis set_map)
  show "distinct (map key (upsert P f row rows))" if "distinct (map key rows)"
    using that assms(2,3) same by (auto simp: upsert_def list_ex_iff)
  show "key ` set (upsert P f row rows) = insert k (key ` set rows)"
  proof (cases "list_ex P rows")
    case True
    then have "k \<in> key ` set rows" using assms(2) by (auto simp: list_ex_iff)
    then show ?thesis using True set_same by (simp add: upsert_def insert_absorb)
  qed (simp add: upsert_def assms(3))
qed

definition new_roots :: "project_id \<Rightarrow> string list \<Rightarrow> root_row list" where
  "new_roots p roots = map (\<lambda>(i, root). \<lparr>wr_project = p, wr_path = root, wr_order = i\<rparr>) (enumerate 0 roots)"

lemma new_roots_facts [simp]:
  "map wr_order (new_roots p roots) = [0..<length roots]" "map wr_path (new_roots p roots) = roots"
  "filter (\<lambda>w. wr_project w = p) (new_roots p roots) = new_roots p roots"
  "q \<noteq> p \<Longrightarrow> filter (\<lambda>w. wr_project w = q) (new_roots p roots) = []"
  "w \<in> set (new_roots p roots) \<Longrightarrow> wr_project w = p"
proof -
  show o: "map wr_order (new_roots p roots) = [0..<length roots]"
    by (rule nth_equalityI) (simp_all add: new_roots_def nth_enumerate_eq)
  show "map wr_path (new_roots p roots) = roots"
    by (rule nth_equalityI) (simp_all add: new_roots_def nth_enumerate_eq)
  show w: "wr_project w = p" if "w \<in> set (new_roots p roots)" for w using that by (auto simp: new_roots_def)
  show "filter (\<lambda>w. wr_project w = p) (new_roots p roots) = new_roots p roots" using w by simp
  show "filter (\<lambda>w. wr_project w = q) (new_roots p roots) = []" if "q \<noteq> p" using w that by (auto simp: filter_empty_conv)
qed

lemma sort_new_roots [simp]: "sort_key wr_order (new_roots p roots) = new_roots p roots"
proof -
  have "sorted (map wr_order (new_roots p roots))" by simp
  then show ?thesis by (rule sort_key_id_if_sorted)
qed

lemma upsert_project_facts:
  assumes "upsert_project_in_transaction now p name roots db = Inr db'"
  shows "distinct roots" "roots_of db' p = roots" "q \<noteq> p \<Longrightarrow> roots_of db' q = roots_of db q"
    "pj_id ` set (db_projects db') = insert p (pj_id ` set (db_projects db))"
    "distinct (map pj_id (db_projects db)) \<Longrightarrow> distinct (map pj_id (db_projects db'))"
    "q \<noteq> p \<Longrightarrow> filter (\<lambda>w. wr_project w = q) (db_roots db') = filter (\<lambda>w. wr_project w = q) (db_roots db)"
    "filter (\<lambda>w. wr_project w = p) (db_roots db') = new_roots p roots"
    "db_sessions db' = db_sessions db" "db_runs db' = db_runs db" "db_events db' = db_events db"
    "db_raw db' = db_raw db" "db_tabs db' = db_tabs db" "db_segments db' = db_segments db"
proof -
  note d = assms[unfolded upsert_project_in_transaction_def Let_def, folded new_roots_def]
  show "distinct roots" "db_sessions db' = db_sessions db" "db_runs db' = db_runs db" "db_events db' = db_events db"
    "db_raw db' = db_raw db" "db_tabs db' = db_tabs db" "db_segments db' = db_segments db"
    using d by (auto split: if_splits)
  have r: "db_roots db' = filter (\<lambda>w. wr_project w \<noteq> p) (db_roots db) @ new_roots p roots"
    using d by (auto split: if_splits)
  show own: "filter (\<lambda>w. wr_project w = p) (db_roots db') = new_roots p roots" by (simp add: r)
  show other: "filter (\<lambda>w. wr_project w = q) (db_roots db') = filter (\<lambda>w. wr_project w = q) (db_roots db)" if "q \<noteq> p" for q
    using that by (simp add: r) (metis (mono_tags, lifting) filter_cong)
  show "roots_of db' p = roots" by (simp add: roots_of_def own)
  show "roots_of db' q = roots_of db q" if "q \<noteq> p" by (simp add: roots_of_def other [OF that])
  let ?P = "\<lambda>r. pj_id r = p"
  let ?f = "\<lambda>r. r\<lparr>pj_display_name := name, pj_updated_at := now, pj_last_opened_at := Some now\<rparr>"
  let ?row = "\<lparr>pj_id = p, pj_display_name = name, pj_created_at = now, pj_updated_at = now,
                 pj_favorite = False, pj_last_opened_at = Some now\<rparr>"
  have projects: "db_projects db' = upsert ?P ?f ?row (db_projects db)"
    using d by (auto split: if_splits)
  show "distinct (map pj_id (db_projects db'))" if "distinct (map pj_id (db_projects db))"
    unfolding projects by (rule upsert_keys(1) [where k = p]) (use that in simp_all)
  show "pj_id ` set (db_projects db') = insert p (pj_id ` set (db_projects db))"
    unfolding projects by (rule upsert_keys(2) [where k = p]) simp_all
qed

lemma roots_of_exists:
  assumes "projects_ok db" "roots_of db q \<noteq> []"
  shows "q \<in> pj_id ` set (db_projects db)"
proof -
  have "filter (\<lambda>w. wr_project w = q) (db_roots db) \<noteq> []" using assms(2) by (auto simp: roots_of_def)
  then obtain w where "w \<in> set (db_roots db)" "wr_project w = q" by (auto simp: filter_empty_conv)
  then show ?thesis using assms(1) by (auto simp: projects_ok_def project_exists_def)
qed

lemma owner_is_candidate:
  assumes "projects_ok db" "roots_of db q = roots" "roots \<noteq> []"
  shows "q \<in> set (candidates proposed roots db)"
proof -
  let ?ws = "sort_key wr_order (filter (\<lambda>w. wr_project w = q) (db_roots db))"
  obtain first rest where roots: "roots = first # rest" using assms(3) by (cases roots) auto
  have paths: "map wr_path ?ws = roots" using assms(2) by (simp add: roots_of_def)
  have orders: "map wr_order ?ws = [0..<length roots]" using assms(1,2) by (auto simp: projects_ok_def)
  obtain w ws where ws: "?ws = w # ws" using paths roots by (cases ?ws) auto
  have w: "wr_path w = first" "wr_order w = 0" using paths orders roots ws by (simp_all add: upt_conv_Cons del: upt_Suc)
  have "w \<in> set ?ws" using ws by simp
  then have "w \<in> set (db_roots db)" "wr_project w = q" by simp_all
  moreover have "length (filter (\<lambda>w. wr_project w = q) (db_roots db)) = length roots"
    using arg_cong [OF paths, of length] by simp
  ultimately show ?thesis
    using roots_of_exists [OF assms(1), of q] assms(2,3) w by (auto simp: candidates_def roots)
qed

lemma owner_is_found:
  assumes "projects_ok db" "roots_of db q = roots" "roots \<noteq> []"
  shows "find (\<lambda>c. roots_of db c = roots) (candidates proposed roots db) = Some q"
proof -
  obtain c where c: "find (\<lambda>c. roots_of db c = roots) (candidates proposed roots db) = Some c"
    using owner_is_candidate [OF assms] assms(2) by (cases "find (\<lambda>c. roots_of db c = roots) (candidates proposed roots db)")
      (auto simp: find_None_iff)
  then have "roots_of db c = roots" by (auto simp: find_Some_iff)
  then have "c = q" using assms unfolding projects_ok_def by metis
  with c show ?thesis by simp
qed

lemma upsert_project_ok:
  assumes ok: "projects_ok db" and up: "upsert_project_in_transaction now p name roots db = Inr db'"
    and free: "\<And>q. roots_of db q = roots \<Longrightarrow> roots \<noteq> [] \<Longrightarrow> q = p"
  shows "projects_ok db'"
proof -
  note f = upsert_project_facts [OF up]
  have ids: "distinct (map pj_id (db_projects db'))" using ok f(5) by (simp add: projects_ok_def)
  have fk: "project_exists db' (wr_project w)" if "w \<in> set (db_roots db')" for w
  proof (cases "wr_project w = p")
    case True
    then show ?thesis using f(4) by (simp add: project_exists_def)
  next
    case False
    have "w \<in> set (filter (\<lambda>v. wr_project v = wr_project w) (db_roots db'))" using that by simp
    then have "w \<in> set (db_roots db)" using f(6) [OF False] by simp
    then show ?thesis using ok f(4) by (auto simp: projects_ok_def project_exists_def)
  qed
  have orders: "map wr_order (sort_key wr_order (filter (\<lambda>w. wr_project w = q) (db_roots db'))) = [0..<length (roots_of db' q)]" for q
  proof (cases "q = p")
    case True
    then show ?thesis using f(2,7) by simp
  next
    case False
    then show ?thesis using ok f(3,6) [OF False] unfolding projects_ok_def by simp
  qed
  have unique: "q = r" if "roots_of db' q = roots_of db' r" "roots_of db' q \<noteq> []" for q r
  proof (cases "q = p \<or> r = p")
    case True
    then show ?thesis using that f(2,3) free by metis
  next
    case False
    then show ?thesis using that f(3) ok unfolding projects_ok_def by metis
  qed
  show ?thesis unfolding projects_ok_def using ids fk orders unique by blast
qed

text \<open>
  C25. A registration and its retry publish one identity. A registration gives the project it returns
  exactly the registered roots and leaves the roots of every other project alone; it returns the
  proposed project unless another one already owns this list of roots. Afterwards no two projects own
  the same list, and registering the same list again, under whatever proposed identity and name,
  returns the same project.
\<close>

theorem registration_reuses_identity:
  assumes ok: "projects_ok db" and "roots \<noteq> []"
    and run: "upsert_project_registration sql now proposed name roots db = (Inr p, db')"
  shows "projects_ok db' \<and> roots_of db' p = roots \<and> (\<forall>q. q \<noteq> p \<longrightarrow> roots_of db' q = roots_of db q) \<and>
    (p = proposed \<or> roots_of db p = roots) \<and>
    (\<exists>db''. upsert_project_registration True now' proposed' name' roots db' = (Inr p, db''))"
proof -
  let ?found = "find (\<lambda>c. roots_of db c = roots) (candidates proposed roots db)"
  have len: "fits_i64 (length roots)" using run by (auto simp: upsert_project_registration_def split: if_splits)
  have p: "p = (case ?found of Some c \<Rightarrow> c | None \<Rightarrow> proposed)"
    and up: "upsert_project_in_transaction now p name roots db = Inr db'"
    using run by (auto simp: upsert_project_registration_def Let_def split: if_splits sum.splits)
  have owner: "p = proposed \<or> roots_of db p = roots"
    using p by (auto simp: find_Some_iff split: option.splits)
  have free: "q = p" if "roots_of db q = roots" "roots \<noteq> []" for q
    using owner_is_found [OF ok that] p by simp
  have ok': "projects_ok db'" by (rule upsert_project_ok [OF ok up free])
  note f = upsert_project_facts [OF up]
  have "find (\<lambda>c. roots_of db' c = roots) (candidates proposed' roots db') = Some p"
    by (rule owner_is_found [OF ok' f(2) assms(2)])
  then have "\<exists>db''. upsert_project_registration True now' proposed' name' roots db' = (Inr p, db'')"
    using len f(1) by (simp add: upsert_project_registration_def upsert_project_in_transaction_def Let_def)
  then show ?thesis using ok' f(2,3) owner by blast
qed

definition empty_database :: database where
  "empty_database = \<lparr>db_versions = [1, 2, 3], db_projects = [], db_roots = [], db_sessions = [], db_runs = [], db_events = [],
     db_raw = [], db_tabs = [], db_segments = [], db_layouts = [], db_settings = []\<rparr>"

lemma empty_projects_ok: "projects_ok empty_database"
  by (simp add: projects_ok_def empty_database_def roots_of_def)

theorem registration_reuses_identity_witness:
  "\<exists>db' db''. upsert_project_registration True 5 (ProjectId 1) ''App'' [''/w'', ''/v''] empty_database = (Inr (ProjectId 1), db') \<and>
     upsert_project_registration True 6 (ProjectId 2) ''Again'' [''/w'', ''/v''] db' = (Inr (ProjectId 1), db'')"
proof -
  obtain db' where run: "upsert_project_registration True 5 (ProjectId 1) ''App'' [''/w'', ''/v''] empty_database =
      (Inr (ProjectId 1), db')"
    by (simp add: upsert_project_registration_def upsert_project_in_transaction_def candidates_def empty_database_def
        fits_i64_def Let_def)
  then show ?thesis using registration_reuses_identity [OF empty_projects_ok _ run] by blast
qed

section \<open>Migrations, recovery and pruning\<close>

text \<open>
  Migrating brings an empty or older database to the current version, one committed step after the
  other; a failure keeps the steps that committed, and a newer database is refused untouched.
\<close>

lemma migrate_outcome:
  assumes "versions = [1..int n]" "n \<le> 3" "migrate commits versions = (r, versions')"
  shows "(\<exists>m \<le> 3. n \<le> m \<and> versions' = [1..int m] \<and> (r = Inr () \<longleftrightarrow> m = 3))"
proof -
  have small: "[1..1] = [1 :: int]" "[1..2] = [1, 2 :: int]" "[1..3] = [1, 2, 3 :: int]" "[1..0] = ([] :: int list)" by code_simp+
  consider "n = 0" | "n = 1" | "n = 2" | "n = 3" using assms(2) by linarith
  then show ?thesis
  proof cases
    case 1
    then show ?thesis using assms small
      by (auto simp: migrate_def reject_future_schema_def latest_version_def apply_migration_def split: if_splits
          intro: exI [of _ 0] exI [of _ 1] exI [of _ 2] exI [of _ 3])
  next
    case 2
    then show ?thesis using assms small
      by (auto simp: migrate_def reject_future_schema_def latest_version_def apply_migration_def CURRENT_SCHEMA_VERSION_def
          split: if_splits intro: exI [of _ 1] exI [of _ 2] exI [of _ 3])
  next
    case 3
    then show ?thesis using assms small
      by (auto simp: migrate_def reject_future_schema_def latest_version_def apply_migration_def CURRENT_SCHEMA_VERSION_def
          split: if_splits intro: exI [of _ 2] exI [of _ 3])
  next
    case 4
    then show ?thesis using assms small
      by (auto simp: migrate_def reject_future_schema_def latest_version_def apply_migration_def CURRENT_SCHEMA_VERSION_def
          split: if_splits intro: exI [of _ 3])
  qed
qed

lemma future_schema_refused:
  assumes "v \<in> set versions" "3 < v"
  shows "migrate commits versions = (Inl (UnsupportedSchemaVersion (Max (set versions)) 3), versions)"
proof -
  have "3 < Max (set versions)" using assms by (meson List.finite_set Max_ge less_le_trans)
  then show ?thesis using assms by (auto simp: migrate_def reject_future_schema_def latest_version_def CURRENT_SCHEMA_VERSION_def)
qed

text \<open>After a recovery nothing claims to be at work, finished work is untouched, and recovering again changes nothing.\<close>

lemma interrupted_name: "session_state_name s \<in> set INTERRUPTED_STATES \<longleftrightarrow>
    s \<in> {Created, Starting, Ready, Running, AwaitingPermission, AwaitingUserInput, Background, Interrupting}"
  by (cases s) (simp_all add: INTERRUPTED_STATES_def)

lemma update_where_clears:
  assumes "\<And>r. \<not> P (f r)"
  shows "list_all (\<lambda>r. \<not> P r) (update_where P f rows)" "list_all2 (\<lambda>r r'. \<not> P r \<longrightarrow> r' = r) rows (update_where P f rows)"
  using assms by (auto simp: update_where_def list_all_iff list_all2_conv_all_nth)

lemma recovery_interrupts:
  assumes "recover_interrupted_work True now db = (r, db')"
  shows "list_all (\<lambda>s. \<not> interruptible_session s) (db_sessions db')"
    "list_all (\<lambda>s. \<not> interruptible_run s) (db_runs db')"
    "map se_id (db_sessions db') = map se_id (db_sessions db)"
    "list_all2 (\<lambda>s s'. \<not> interruptible_session s \<longrightarrow> s' = s) (db_sessions db) (db_sessions db')"
    "db_events db' = db_events db"
proof -
  have other: "''interrupted'' \<notin> set INTERRUPTED_STATES" by (simp add: INTERRUPTED_STATES_def)
  then have s: "\<not> interruptible_session (x\<lparr>se_state := Interrupted, se_updated_at := now\<rparr>)"
    and r: "\<not> interruptible_run (y\<lparr>pr_state := ''interrupted'', pr_exited_at := t, pr_recovery := q\<rparr>)" for x y t q
    by (simp_all add: interruptible_session_def interruptible_run_def)
  have db': "db' = snd (recover_interrupted_work True now db)" using assms by simp
  note db' = db' [unfolded recover_interrupted_work_def not_True_eq_False if_False snd_conv]
  show "list_all (\<lambda>s. \<not> interruptible_session s) (db_sessions db')"
    "list_all2 (\<lambda>s s'. \<not> interruptible_session s \<longrightarrow> s' = s) (db_sessions db) (db_sessions db')"
    using update_where_clears [of interruptible_session, OF s] by (simp_all add: db')
  show "list_all (\<lambda>s. \<not> interruptible_run s) (db_runs db')"
    using update_where_clears(1) [of interruptible_run, OF r] by (simp add: db')
  show "map se_id (db_sessions db') = map se_id (db_sessions db)" "db_events db' = db_events db"
    by (simp_all add: db' update_where_def)
qed

text \<open>
  Pruning a terminal's segments brings it within its budget and touches no other terminal. It does not
  keep the newest history: a recent large segment is dropped while older small ones stay.
\<close>

definition segment_bytes :: "terminal_segment_row list \<Rightarrow> nat" where
  "segment_bytes rs = sum_list (map sg_byte_count rs)"

lemma expired_segments_subset: "set (expired_segments maximum retained rs) \<subseteq> set rs"
  by (induction maximum retained rs rule: expired_segments.induct) auto

lemma expired_segments_budget:
  assumes "list_all (\<lambda>r. fits_i64 (sg_byte_count r)) rs" "distinct (map sg_id rs)" "unat maximum < 2 ^ 64 - 1"
    "unat retained \<le> unat maximum"
  shows "unat retained + segment_bytes (filter (\<lambda>r. sg_id r \<notin> sg_id ` set (expired_segments maximum retained rs)) rs)
    \<le> unat maximum"
  using assms
proof (induction maximum retained rs rule: expired_segments.induct)
  case (2 maximum retained r rs)
  let ?sum = "saturating_add retained (word_of_nat (sg_byte_count r))"
  have size: "unat (word_of_nat (sg_byte_count r) :: u64) = sg_byte_count r"
    using "2.prems"(1) by (simp add: fits_i64_def unat_of_nat)
  have fresh: "sg_id r \<notin> sg_id ` set (expired_segments m n rs)" for m n
    using "2.prems"(2) expired_segments_subset [of m n rs] by auto
  have other: "filter (\<lambda>x. sg_id x \<notin> insert (sg_id r) A) rs = filter (\<lambda>x. sg_id x \<notin> A) rs" for A
    using "2.prems"(2) by (intro filter_cong) (force simp: image_iff)+
  show ?case
  proof (cases "?sum \<le> maximum")
    case True
    then have "unat ?sum \<le> unat maximum" by (simp add: word_le_nat_alt)
    then have sum: "unat ?sum = unat retained + sg_byte_count r"
      using "2.prems"(3) size by (auto simp: unat_saturating_add min_def split: if_splits)
    show ?thesis using "2.IH"(1) [OF True] "2.prems" True sum fresh by (simp add: segment_bytes_def word_le_nat_alt)
  next
    case False
    then show ?thesis using "2.IH"(2) [OF False] "2.prems" other by (simp add: segment_bytes_def)
  qed
qed (simp add: segment_bytes_def)

lemma prune_within_budget:
  assumes "prune_terminal_segments sql t maximum db = (Inr released, db')"
    and "distinct (map sg_id (db_segments db))" "list_all (\<lambda>r. fits_i64 (sg_byte_count r)) (db_segments db)"
    and "unat maximum < 2 ^ 64 - 1"
  shows "segment_bytes (filter (\<lambda>r. sg_terminal r = t) (db_segments db')) \<le> unat maximum"
    "filter (\<lambda>r. sg_terminal r \<noteq> t) (db_segments db') = filter (\<lambda>r. sg_terminal r \<noteq> t) (db_segments db)"
proof -
  let ?own = "filter (\<lambda>r. sg_terminal r = t) (db_segments db)" and ?expired = "expired_segments maximum 0 (newest_first t db)"
  let ?keep = "\<lambda>r. sg_id r \<notin> sg_id ` set ?expired"
  have db': "db_segments db' = filter ?keep (db_segments db)"
    using assms(1) by (auto simp: prune_terminal_segments_def Let_def split: if_splits)
  have perm: "mset (newest_first t db) = mset ?own" by (simp add: newest_first_def)
  then have same: "set (newest_first t db) = set ?own" by (metis set_mset_mset)
  have "distinct (map sg_id (newest_first t db))"
    using assms(2) perm by (metis distinct_map_filter mset_eq_imp_distinct_iff mset_map)
  moreover have "list_all (\<lambda>r. fits_i64 (sg_byte_count r)) (newest_first t db)"
    using assms(3) same by (auto simp: list_all_iff)
  ultimately have budget: "segment_bytes (filter ?keep (newest_first t db)) \<le> unat maximum"
    using expired_segments_budget [of "newest_first t db" maximum 0] assms(4) by simp
  have "mset (map sg_byte_count (filter ?keep (newest_first t db))) = mset (map sg_byte_count (filter ?keep ?own))"
    unfolding mset_map mset_filter perm by simp
  then have "segment_bytes (filter ?keep ?own) = segment_bytes (filter ?keep (newest_first t db))"
    unfolding segment_bytes_def by (metis sum_mset_sum_list)
  moreover have "filter (\<lambda>r. sg_terminal r = t) (db_segments db') = filter ?keep ?own"
    by (auto simp: db' intro: filter_cong)
  ultimately show "segment_bytes (filter (\<lambda>r. sg_terminal r = t) (db_segments db')) \<le> unat maximum" using budget by simp
  have "?keep r" if "r \<in> set (db_segments db)" "sg_terminal r \<noteq> t" for r
  proof
    assume "sg_id r \<in> sg_id ` set ?expired"
    then obtain x where x: "x \<in> set ?own" "sg_id x = sg_id r" using expired_segments_subset same by fastforce
    then have "x = r" using assms(2) that(1) by (auto simp: distinct_map dest: inj_onD)
    then show False using x(1) that(2) by simp
  qed
  then show "filter (\<lambda>r. sg_terminal r \<noteq> t) (db_segments db') = filter (\<lambda>r. sg_terminal r \<noteq> t) (db_segments db)"
    by (auto simp: db' intro!: filter_cong)
qed

definition sample_segment :: "uuid \<Rightarrow> date_time \<Rightarrow> nat \<Rightarrow> terminal_segment_row" where
  "sample_segment i t n = \<lparr>sg_id = i, sg_terminal = TerminalId 1, sg_sequence_start = 1, sg_sequence_end = 1, sg_byte_count = n,
     sg_storage_path = [], sg_created_at = t\<rparr>"

lemma prune_drops_newer_keeps_older:
  "map sg_id (db_segments (snd (prune_terminal_segments True (TerminalId 1) 10
     (empty_database\<lparr>db_segments := [sample_segment 1 1 3, sample_segment 2 2 8, sample_segment 3 3 5]\<rparr>)))) = [1, 3]"
  by (simp add: prune_terminal_segments_def newest_first_def segment_key_def sample_segment_def saturating_add_def Let_def
      empty_database_def)

end
