(* ===== verification/Session_Store.thy ===== *)
theory Session_Store
  imports Database Session_Buffers
begin

text \<open>
  The repository of sessions, process runs, events and raw captures,
  \<^verbatim>\<open>crates/maestro-storage/src/session.rs\<close>, over the tables of the database. Payloads are redacted
  again before they are stored; the stored JSON is parsed back to the value it was made from.
\<close>

datatype persisted_run_exit = RunExited int | RunSignaled int | RunUnknown

record persisted_session_metadata =
  sd_project_id :: project_id
  sd_agent_kind :: agent_kind
  sd_integration_mode :: integration_mode
  sd_state :: session_state
  sd_active_run_id :: "run_id option"
  sd_latest_sequence :: u64

record persisted_session_summary =
  su_session_id :: session_id
  su_project_id :: project_id
  su_agent_kind :: agent_kind
  su_integration_mode :: integration_mode
  su_state :: session_state
  su_title :: "string option"
  su_active_run_id :: "run_id option"
  su_latest_sequence :: u64
  su_updated_at :: date_time

record persisted_raw_capture =
  prc_session_id :: session_id
  prc_run_id :: run_id
  prc_bytes :: bytes
  prc_observed_byte_count :: u64
  prc_truncated :: bool
  prc_completed :: bool

datatype session_store_error =
    StoreInvalidLimit | StoreInvalidEnum | InvalidRawCapture | StoreSessionNotFound session_id | RunNotFound run_id
  | StoreIdentifier | StoreTimestamp | StoreInteger | StoreJson | StoreSql

section \<open>Writing\<close>

definition upsert_session ::
  "bool \<Rightarrow> date_time \<Rightarrow> session_id \<Rightarrow> project_id \<Rightarrow> agent_kind \<Rightarrow> integration_mode \<Rightarrow> session_state \<Rightarrow> string option \<Rightarrow>
   database \<Rightarrow> (session_store_error + unit) \<times> database" where
  "upsert_session sql now session project kind mode state title db =
     (if \<not> sql \<or> \<not> session_exists db session \<and> \<not> project_exists db project then (Inl StoreSql, db)
      else (Inr (), db\<lparr>db_sessions := upsert (\<lambda>r. se_id r = session)
              (\<lambda>r. r\<lparr>se_state := state, se_title := (if title \<noteq> None then title else se_title r), se_updated_at := now\<rparr>)
              \<lparr>se_id = session, se_project = project, se_agent_kind = kind, se_integration_mode = mode, se_state = state,
               se_title = title, se_created_at = now, se_updated_at = now\<rparr>
              (db_sessions db)\<rparr>))"

definition update_session_state ::
  "bool \<Rightarrow> date_time \<Rightarrow> session_id \<Rightarrow> session_state \<Rightarrow> database \<Rightarrow> (session_store_error + unit) \<times> database" where
  "update_session_state sql now session state db =
     (if \<not> sql then (Inl StoreSql, db)
      else
        (let P = (\<lambda>r. se_id r = session);
             db' = db\<lparr>db_sessions := update_where P (\<lambda>r. r\<lparr>se_state := state, se_updated_at := now\<rparr>) (db_sessions db)\<rparr>
         in if changed_rows P (db_sessions db) = 0 then (Inl (StoreSessionNotFound session), db') else (Inr (), db')))"

definition start_run ::
  "bool \<Rightarrow> date_time \<Rightarrow> run_id \<Rightarrow> session_id \<Rightarrow> u32 \<Rightarrow> json \<Rightarrow> string \<Rightarrow> database \<Rightarrow>
   (session_store_error + unit) \<times> database" where
  "start_run sql now run session pid invocation channel db =
     (if \<not> sql \<or> run_exists db run \<or> \<not> session_exists db session then (Inl StoreSql, db)
      else (Inr (), db\<lparr>db_runs := db_runs db @
              [\<lparr>pr_id = run, pr_session = session, pr_pid = pid, pr_invocation = redact_payload invocation,
                pr_channel = channel, pr_state = ''running'', pr_started_at = now, pr_exited_at = None,
                pr_exit_code = None, pr_recovery = None\<rparr>]\<rparr>))"

fun exit_columns :: "persisted_run_exit \<Rightarrow> int option \<times> json option" where
  "exit_columns (RunExited code) = (Some code, None)"
| "exit_columns (RunSignaled signal) = (None, Some (Object [(''signal'', int_json signal)]))"
| "exit_columns RunUnknown = (None, Some (Object [(''cause'', String ''unknown'')]))"

fun merged_recovery :: "json option \<Rightarrow> json option \<Rightarrow> json option" where
  "merged_recovery (Some v) (Some e) = Some (Object [(''details'', redact_payload v), (''exit'', e)])"
| "merged_recovery (Some v) None = Some (redact_payload v)"
| "merged_recovery None e = e"

definition finish_run ::
  "bool \<Rightarrow> date_time \<Rightarrow> run_id \<Rightarrow> string \<Rightarrow> persisted_run_exit \<Rightarrow> json option \<Rightarrow> database \<Rightarrow>
   (session_store_error + unit) \<times> database" where
  "finish_run sql now run state exit_info recovery db =
     (if \<not> sql then (Inl StoreSql, db)
      else
        (let P = (\<lambda>r. pr_id r = run); (code, recovery_exit) = exit_columns exit_info;
             db' = db\<lparr>db_runs := update_where P (\<lambda>r. r\<lparr>pr_state := state, pr_exited_at := Some now, pr_exit_code := code,
                        pr_recovery := merged_recovery recovery recovery_exit\<rparr>) (db_runs db)\<rparr>
         in if changed_rows P (db_runs db) = 0 then (Inl (RunNotFound run), db') else (Inr (), db')))"

definition redacted_envelope :: "event_envelope \<Rightarrow> event_envelope" where
  "redacted_envelope e = e\<lparr>env_event := (env_event e)\<lparr>ev_payload := redact_payload (ev_payload (env_event e))\<rparr>\<rparr>"

text \<open>Keys and foreign keys of the events table: the identifier, the pair of session and number, the session, the run.\<close>

definition event_admitted :: "database \<Rightarrow> event_envelope \<Rightarrow> bool" where
  "event_admitted db e \<longleftrightarrow>
     env_event_id e \<notin> env_event_id ` set (db_events db) \<and>
     (env_session_id e, env_sequence e) \<notin> (\<lambda>x. (env_session_id x, env_sequence x)) ` set (db_events db) \<and>
     session_exists db (env_session_id e) \<and>
     (case env_run_id e of Some run \<Rightarrow> run_exists db run | None \<Rightarrow> True)"

definition append_event :: "bool \<Rightarrow> event_envelope \<Rightarrow> database \<Rightarrow> (session_store_error + unit) \<times> database" where
  "append_event sql e db =
     (if \<not> fits_i64 (unat (env_sequence e)) then (Inl StoreInteger, db)
      else if \<not> sql \<or> \<not> event_admitted db e then (Inl StoreSql, db)
      else (Inr (), db\<lparr>db_events := db_events db @ [redacted_envelope e]\<rparr>))"

text \<open>The row of a run keeps the session, the path and the start of its first capture.\<close>

definition upsert_raw_protocol_capture ::
  "bool \<Rightarrow> date_time \<Rightarrow> session_id \<Rightarrow> run_id \<Rightarrow> bytes \<Rightarrow> u64 \<Rightarrow> bool \<Rightarrow> bool \<Rightarrow> string \<Rightarrow> database \<Rightarrow>
   (session_store_error + unit) \<times> database" where
  "upsert_raw_protocol_capture sql now session run bs observed truncated completed storage_path db =
     (if unat observed < length bs then (Inl InvalidRawCapture, db)
      else if \<not> fits_i64 (length bs) \<or> \<not> fits_i64 (unat observed) then (Inl StoreInteger, db)
      else if \<not> sql \<or> run \<notin> rw_run ` set (db_raw db) \<and> \<not> (session_exists db session \<and> run_exists db run)
      then (Inl StoreSql, db)
      else
        (let ended = (if completed then Some now else None)
         in (Inr (), db\<lparr>db_raw := upsert (\<lambda>r. rw_run r = run)
               (\<lambda>r. r\<lparr>rw_ended_at := ended, rw_byte_count := length bs, rw_content := bs, rw_observed_byte_count := observed,
                      rw_truncated := truncated, rw_completed := completed\<rparr>)
               \<lparr>rw_run = run, rw_session = session, rw_started_at = now, rw_ended_at = ended, rw_byte_count = length bs,
                rw_storage_path = storage_path, rw_content = bs, rw_observed_byte_count = observed,
                rw_truncated = truncated, rw_completed = completed\<rparr>
               (db_raw db)\<rparr>)))"

section \<open>Reading\<close>

definition raw_protocol_capture ::
  "bool \<Rightarrow> session_id \<Rightarrow> run_id \<Rightarrow> database \<Rightarrow> session_store_error + persisted_raw_capture option" where
  "raw_protocol_capture sql session run db =
     (if \<not> sql then Inl StoreSql
      else (case find (\<lambda>r. rw_session r = session \<and> rw_run r = run) (db_raw db) of
              None \<Rightarrow> Inr None
            | Some r \<Rightarrow>
                if unat (rw_observed_byte_count r) < length (rw_content r) then Inl InvalidRawCapture
                else Inr (Some \<lparr>prc_session_id = rw_session r, prc_run_id = rw_run r, prc_bytes = rw_content r,
                                prc_observed_byte_count = rw_observed_byte_count r, prc_truncated = rw_truncated r,
                                prc_completed = rw_completed r\<rparr>)))"

definition stored_session_state :: "bool \<Rightarrow> session_id \<Rightarrow> database \<Rightarrow> session_store_error + session_state option" where
  "stored_session_state sql session db =
     (if \<not> sql then Inl StoreSql else Inr (map_option se_state (find (\<lambda>r. se_id r = session) (db_sessions db))))"

definition load_events ::
  "bool \<Rightarrow> session_id \<Rightarrow> u64 \<Rightarrow> nat \<Rightarrow> database \<Rightarrow> session_store_error + event_envelope list" where
  "load_events sql session after_sequence limit db =
     (if limit = 0 \<or> limit > 4096 then Inl StoreInvalidLimit
      else and_then (stored_session_state sql session db) (\<lambda>state.
        if state = None then Inl (StoreSessionNotFound session)
        else if \<not> fits_i64 (unat after_sequence) then Inl StoreInteger
        else Inr (take limit (sort_key env_sequence
          (filter (\<lambda>e. env_session_id e = session \<and> after_sequence < env_sequence e) (db_events db))))))"

definition latest_sequence_of :: "database \<Rightarrow> session_id \<Rightarrow> u64" where
  "latest_sequence_of db session =
     fold max (map env_sequence (filter (\<lambda>e. env_session_id e = session) (db_events db))) 0"

text \<open>The running run of a session that started last.\<close>

definition active_run_of :: "database \<Rightarrow> session_id \<Rightarrow> run_id option" where
  "active_run_of db session =
     (case sort_key (\<lambda>r. - pr_started_at r) (filter (\<lambda>r. pr_session r = session \<and> pr_state r = ''running'') (db_runs db)) of
        [] \<Rightarrow> None
      | r # _ \<Rightarrow> Some (pr_id r))"

definition session_metadata ::
  "bool \<Rightarrow> session_id \<Rightarrow> database \<Rightarrow> session_store_error + persisted_session_metadata option" where
  "session_metadata sql session db =
     (if \<not> sql then Inl StoreSql
      else Inr (map_option (\<lambda>r.
        \<lparr>sd_project_id = se_project r, sd_agent_kind = se_agent_kind r, sd_integration_mode = se_integration_mode r,
         sd_state = se_state r, sd_active_run_id = active_run_of db session,
         sd_latest_sequence = latest_sequence_of db session\<rparr>)
        (find (\<lambda>r. se_id r = session) (db_sessions db))))"

fun session_uuid :: "session_id \<Rightarrow> uuid" where
  "session_uuid (SessionId u) = u"

definition summary_key :: "session_row \<Rightarrow> int \<times> uuid" where
  "summary_key r = (- se_updated_at r, session_uuid (se_id r))"

definition session_summary :: "database \<Rightarrow> session_row \<Rightarrow> persisted_session_summary" where
  "session_summary db r =
     \<lparr>su_session_id = se_id r, su_project_id = se_project r, su_agent_kind = se_agent_kind r,
      su_integration_mode = se_integration_mode r, su_state = se_state r, su_title = se_title r,
      su_active_run_id = active_run_of db (se_id r), su_latest_sequence = latest_sequence_of db (se_id r),
      su_updated_at = se_updated_at r\<rparr>"

definition list_sessions ::
  "bool \<Rightarrow> project_id \<Rightarrow> nat \<Rightarrow> database \<Rightarrow> session_store_error + persisted_session_summary list" where
  "list_sessions sql project limit db =
     (if limit = 0 \<or> limit > 256 then Inl StoreInvalidLimit
      else if \<not> sql then Inl StoreSql
      else Inr (map (session_summary db)
        (take limit (sort_key summary_key (filter (\<lambda>r. se_project r = project) (db_sessions db))))))"

section \<open>The invariant of the tables\<close>

definition events_ok :: "database \<Rightarrow> bool" where
  "events_ok db \<longleftrightarrow>
     distinct (map env_event_id (db_events db)) \<and>
     distinct (map (\<lambda>e. (env_session_id e, env_sequence e)) (db_events db)) \<and>
     (\<forall>e \<in> set (db_events db). session_exists db (env_session_id e) \<and> fits_i64 (unat (env_sequence e)) \<and>
        (\<forall>run. env_run_id e = Some run \<longrightarrow> run_exists db run))"

definition store_ok :: "database \<Rightarrow> bool" where
  "store_ok db \<longleftrightarrow>
     distinct (map se_id (db_sessions db)) \<and> distinct (map pr_id (db_runs db)) \<and> distinct (map rw_run (db_raw db)) \<and>
     (\<forall>s \<in> set (db_sessions db). project_exists db (se_project s)) \<and>
     (\<forall>r \<in> set (db_runs db). session_exists db (pr_session r)) \<and>
     (\<forall>r \<in> set (db_raw db). session_exists db (rw_session r) \<and> run_exists db (rw_run r) \<and>
        length (rw_content r) \<le> unat (rw_observed_byte_count r)) \<and>
     events_ok db"

lemma update_where_keys:
  assumes "\<And>r. key (f r) = key r"
  shows "map key (update_where P f rows) = map key rows"
  using assms by (auto simp: update_where_def)

lemma update_where_key_set:
  "(\<And>r. key (f r) = key r) \<Longrightarrow> key ` set (update_where P f rows) = key ` set rows"
  using update_where_keys [of key f P rows] by (metis set_map)

text \<open>The writing operations, as requests with their draws.\<close>

datatype store_op =
    OpUpsertSession bool date_time session_id project_id agent_kind integration_mode session_state "string option"
  | OpUpdateState bool date_time session_id session_state
  | OpStartRun bool date_time run_id session_id u32 json string
  | OpFinishRun bool date_time run_id string persisted_run_exit "json option"
  | OpAppendEvent bool event_envelope
  | OpRawCapture bool date_time session_id run_id bytes u64 bool bool string
  | OpRecover bool date_time

fun store_exec :: "store_op \<Rightarrow> database \<Rightarrow> database" where
  "store_exec (OpUpsertSession sql now s p k m st t) db = snd (upsert_session sql now s p k m st t db)"
| "store_exec (OpUpdateState sql now s st) db = snd (update_session_state sql now s st db)"
| "store_exec (OpStartRun sql now r s pid i c) db = snd (start_run sql now r s pid i c db)"
| "store_exec (OpFinishRun sql now r st e rec) db = snd (finish_run sql now r st e rec db)"
| "store_exec (OpAppendEvent sql e) db = snd (append_event sql e db)"
| "store_exec (OpRawCapture sql now s r bs ob tr co path) db = snd (upsert_raw_protocol_capture sql now s r bs ob tr co path db)"
| "store_exec (OpRecover sql now) db = snd (recover_interrupted_work sql now db)"

text \<open>Every operation keeps what exists, and changes each table in one of few ways.\<close>

lemma exec_exists:
  "project_exists (store_exec op db) p \<longleftrightarrow> project_exists db p"
  "session_exists db s \<Longrightarrow> session_exists (store_exec op db) s"
  "run_exists db r \<Longrightarrow> run_exists (store_exec op db) r"
proof -
  show "project_exists (store_exec op db) p \<longleftrightarrow> project_exists db p"
    by (cases op) (auto simp: project_exists_def upsert_session_def update_session_state_def start_run_def finish_run_def
        append_event_def upsert_raw_protocol_capture_def recover_interrupted_work_def Let_def split: prod.splits)
  have ids: "se_id ` set (upsert (\<lambda>r. se_id r = k) f row rows) = insert k (se_id ` set rows)"
    if "\<And>r. se_id (f r) = se_id r" "se_id row = k" for k f row rows
    by (rule upsert_keys(2)) (use that in auto)
  show "session_exists (store_exec op db) s" if "session_exists db s"
    using that by (cases op) (auto simp: session_exists_def upsert_session_def update_session_state_def start_run_def
        finish_run_def append_event_def upsert_raw_protocol_capture_def recover_interrupted_work_def ids
        update_where_key_set Let_def split: prod.splits)
  show "run_exists (store_exec op db) r" if "run_exists db r"
    using that by (cases op) (auto simp: run_exists_def upsert_session_def update_session_state_def start_run_def
        finish_run_def append_event_def upsert_raw_protocol_capture_def recover_interrupted_work_def
        update_where_key_set Let_def split: prod.splits)
qed

lemma exec_events:
  "db_events (store_exec op db) = db_events db \<or>
   (\<exists>sql e. op = OpAppendEvent sql e \<and> fits_i64 (unat (env_sequence e)) \<and> event_admitted db e \<and>
      db_events (store_exec op db) = db_events db @ [redacted_envelope e])"
  by (cases op) (auto simp: upsert_session_def update_session_state_def start_run_def finish_run_def
      append_event_def upsert_raw_protocol_capture_def recover_interrupted_work_def Let_def split: prod.splits)

lemma redacted_envelope_keys [simp]:
  "env_event_id (redacted_envelope e) = env_event_id e" "env_session_id (redacted_envelope e) = env_session_id e"
  "env_sequence (redacted_envelope e) = env_sequence e" "env_run_id (redacted_envelope e) = env_run_id e"
  by (simp_all add: redacted_envelope_def)

lemma exec_events_ok:
  assumes "events_ok db"
  shows "events_ok (store_exec op db)"
  using exec_events [of op db]
proof
  assume "db_events (store_exec op db) = db_events db"
  then show ?thesis using assms exec_exists(2,3) by (auto simp: events_ok_def)
next
  assume "\<exists>sql e. op = OpAppendEvent sql e \<and> fits_i64 (unat (env_sequence e)) \<and> event_admitted db e \<and>
      db_events (store_exec op db) = db_events db @ [redacted_envelope e]"
  then obtain e where "fits_i64 (unat (env_sequence e))" and e: "event_admitted db e"
    and ev: "db_events (store_exec op db) = db_events db @ [redacted_envelope e]" by blast
  moreover have "session_exists db (env_session_id e)" "\<And>run. env_run_id e = Some run \<Longrightarrow> run_exists db run"
    using e by (auto simp: event_admitted_def split: option.splits)
  ultimately show ?thesis using assms exec_exists(2,3) [where op = op]
    by (auto simp: events_ok_def event_admitted_def)
qed

lemma set_update_where: "r \<in> set (update_where P f rows) \<Longrightarrow> r \<in> set rows \<or> (\<exists>x \<in> set rows. r = f x)"
  by (auto simp: update_where_def)

lemma set_upsert: "r \<in> set (upsert P f row rows) \<Longrightarrow> r \<in> set rows \<or> (\<exists>x \<in> set rows. r = f x) \<or> r = row"
  by (auto simp: upsert_def update_where_def split: if_splits)

lemma exec_sessions_ok:
  assumes "distinct (map se_id (db_sessions db))" "\<forall>s \<in> set (db_sessions db). project_exists db (se_project s)"
  shows "distinct (map se_id (db_sessions (store_exec op db)))"
    "\<forall>s \<in> set (db_sessions (store_exec op db)). project_exists db (se_project s)"
proof -
  have up: "distinct (map se_id (upsert (\<lambda>r. se_id r = k) f row (db_sessions db)))"
    if "\<And>r. se_id (f r) = se_id r" "se_id row = k" for k f row
    by (rule upsert_keys(1)) (use that assms in auto)
  have same: "map se_id (update_where P f (db_sessions db)) = map se_id (db_sessions db)" if "\<And>r. se_id (f r) = se_id r" for P f
    by (rule update_where_keys) (rule that)
  show "distinct (map se_id (db_sessions (store_exec op db)))"
    using assms(1) by (cases op) (auto simp: upsert_session_def update_session_state_def start_run_def finish_run_def
        append_event_def upsert_raw_protocol_capture_def recover_interrupted_work_def up same Let_def split: prod.splits)
  show "\<forall>s \<in> set (db_sessions (store_exec op db)). project_exists db (se_project s)"
  proof (cases op)
    case (OpUpsertSession sql now s p k m st t)
    show ?thesis
    proof (cases "session_exists db s")
      case True
      then have "list_ex (\<lambda>r. se_id r = s) (db_sessions db)" by (auto simp: session_exists_def list_ex_iff)
      then show ?thesis using assms(2)
        by (auto simp: OpUpsertSession upsert_session_def upsert_def dest!: set_update_where)
    next
      case False
      then show ?thesis using assms(2) by (auto simp: OpUpsertSession upsert_session_def dest!: set_upsert)
    qed
  qed (use assms(2) in \<open>auto simp: update_session_state_def start_run_def finish_run_def append_event_def
        upsert_raw_protocol_capture_def recover_interrupted_work_def Let_def split: prod.splits dest!: set_update_where\<close>)
qed

lemma exec_runs_ok:
  assumes "distinct (map pr_id (db_runs db))" "\<forall>r \<in> set (db_runs db). session_exists db (pr_session r)"
  shows "distinct (map pr_id (db_runs (store_exec op db)))"
    "\<forall>r \<in> set (db_runs (store_exec op db)). session_exists db (pr_session r)"
proof -
  have same: "map pr_id (update_where P f (db_runs db)) = map pr_id (db_runs db)" if "\<And>r. pr_id (f r) = pr_id r" for P f
    by (rule update_where_keys) (rule that)
  show "distinct (map pr_id (db_runs (store_exec op db)))"
    using assms(1) by (cases op) (auto simp: upsert_session_def update_session_state_def start_run_def finish_run_def
        append_event_def upsert_raw_protocol_capture_def recover_interrupted_work_def same run_exists_def Let_def
        split: prod.splits)
  show "\<forall>r \<in> set (db_runs (store_exec op db)). session_exists db (pr_session r)"
    using assms(2) by (cases op) (auto simp: upsert_session_def update_session_state_def start_run_def finish_run_def
        append_event_def upsert_raw_protocol_capture_def recover_interrupted_work_def Let_def
        split: prod.splits dest!: set_update_where)
qed

definition raw_row_ok :: "database \<Rightarrow> raw_row \<Rightarrow> bool" where
  "raw_row_ok db r \<longleftrightarrow>
     session_exists db (rw_session r) \<and> run_exists db (rw_run r) \<and> length (rw_content r) \<le> unat (rw_observed_byte_count r)"

lemma exec_raw_ok:
  assumes "distinct (map rw_run (db_raw db))" "\<forall>r \<in> set (db_raw db). raw_row_ok db r"
  shows "distinct (map rw_run (db_raw (store_exec op db)))" "\<forall>r \<in> set (db_raw (store_exec op db)). raw_row_ok db r"
proof -
  have up: "distinct (map rw_run (upsert (\<lambda>r. rw_run r = k) f row (db_raw db)))"
    if "\<And>r. rw_run (f r) = rw_run r" "rw_run row = k" for k f row
    by (rule upsert_keys(1)) (use that assms in auto)
  show "distinct (map rw_run (db_raw (store_exec op db)))"
    using assms(1) by (cases op) (auto simp: upsert_session_def update_session_state_def start_run_def finish_run_def
        append_event_def upsert_raw_protocol_capture_def recover_interrupted_work_def up Let_def split: prod.splits)
  show "\<forall>r \<in> set (db_raw (store_exec op db)). raw_row_ok db r"
  proof (cases op)
    case (OpRawCapture sql now s run bs ob tr co path)
    show ?thesis
    proof (cases "run \<in> rw_run ` set (db_raw db)")
      case True
      then have "list_ex (\<lambda>r. rw_run r = run) (db_raw db)" by (auto simp: list_ex_iff)
      then show ?thesis using assms(2)
        by (auto simp: OpRawCapture upsert_raw_protocol_capture_def upsert_def raw_row_ok_def Let_def dest!: set_update_where)
    next
      case False
      then show ?thesis using assms(2)
        by (auto simp: OpRawCapture upsert_raw_protocol_capture_def raw_row_ok_def Let_def dest!: set_upsert)
    qed
  qed (use assms(2) in \<open>auto simp: upsert_session_def update_session_state_def start_run_def finish_run_def append_event_def
        recover_interrupted_work_def Let_def split: prod.splits\<close>)
qed

lemma store_exec_ok:
  assumes "store_ok db"
  shows "store_ok (store_exec op db)"
proof -
  note ok = assms[unfolded store_ok_def, folded raw_row_ok_def]
  have raw: "raw_row_ok db r \<Longrightarrow> raw_row_ok (store_exec op db) r" for r
    using exec_exists(2,3) by (auto simp: raw_row_ok_def)
  show ?thesis unfolding store_ok_def raw_row_ok_def [symmetric]
    using exec_sessions_ok [of db op] exec_runs_ok [of db op] exec_raw_ok [of db op] exec_events_ok [of db op] ok raw
      exec_exists(1,2) by blast
qed

lemma store_run_ok: "store_ok db \<Longrightarrow> store_ok (fold store_exec ops db)"
  by (induction ops arbitrary: db) (simp_all add: store_exec_ok)

section \<open>Properties\<close>

text \<open>
  C26. The tables stay consistent. Whatever writing operations happen, succeeding or failing, and also
  after a recovery, every session belongs to a known project, every run, event and capture to a known
  session, events have unique identifiers and unique numbers within their session, and a stored capture
  is not longer than what was observed.
\<close>

theorem session_store_consistent:
  assumes "store_ok db"
  shows "store_ok (fold store_exec ops db)"
  by (rule store_run_ok [OF assms])

definition sample_store :: database where
  "sample_store = empty_database\<lparr>db_projects := [\<lparr>pj_id = ProjectId 1, pj_display_name = ''App'', pj_created_at = 0,
     pj_updated_at = 0, pj_favorite = False, pj_last_opened_at = None\<rparr>]\<rparr>"

lemma sample_store_ok: "store_ok sample_store"
  by (simp add: store_ok_def events_ok_def sample_store_def empty_database_def)

definition sample_ops :: "store_op list" where
  "sample_ops = [OpUpsertSession True 1 (SessionId 2) (ProjectId 1) Fake StructuredMode Starting None,
     OpStartRun True 2 (RunId 3) (SessionId 2) 44 Null ''structured'', OpRecover True 3]"

theorem session_store_consistent_witness:
  "store_ok (fold store_exec sample_ops sample_store) \<and>
   map pr_state (db_runs (fold store_exec sample_ops sample_store)) = [''interrupted'']"
proof -
  have "map pr_state (db_runs (fold store_exec sample_ops sample_store)) = [''interrupted'']"
    by (simp add: sample_ops_def sample_store_def empty_database_def upsert_session_def upsert_def session_exists_def
        project_exists_def start_run_def run_exists_def recover_interrupted_work_def update_where_def interruptible_run_def
        INTERRUPTED_STATES_def)
  then show ?thesis using session_store_consistent [OF sample_store_ok] by blast
qed

lemma sort_key_first:
  assumes "x \<in> set xs" "\<And>y. y \<in> set xs \<Longrightarrow> key x \<le> key y" "\<And>y. y \<in> set xs \<Longrightarrow> key y = key x \<Longrightarrow> y = x"
  shows "\<exists>rest. sort_key key xs = x # rest"
proof -
  obtain a rest where s: "sort_key key xs = a # rest" using assms(1) set_sort [of key xs] by (cases "sort_key key xs") auto
  have "sorted (map key (a # rest))" using sorted_sort_key [of key xs] s by simp
  moreover have "x \<in> set (a # rest)" using assms(1) s by (metis set_sort)
  ultimately have "key a \<le> key x" by auto
  moreover have "a \<in> set xs" using s by (metis list.set_intros(1) set_sort)
  ultimately have "a = x" using assms(2,3) by (meson order_antisym)
  with s show ?thesis by blast
qed

lemma events_kept: "set (db_events db) \<subseteq> set (db_events (fold store_exec ops db))"
proof (induction ops arbitrary: db)
  case (Cons op ops)
  have "set (db_events db) \<subseteq> set (db_events (store_exec op db))" using exec_events [of op db] by auto
  then show ?case using Cons [of "store_exec op db"] by auto
qed simp

lemma sessions_kept: "session_exists db s \<Longrightarrow> session_exists (fold store_exec ops db) s"
  by (induction ops arbitrary: db) (simp_all add: exec_exists(2))

lemma redact_payload_clean: "wf_json v \<Longrightarrow> clean_json 0 (redact_payload v)"
  using redact_json_value_facts(1) [of v 0] by (auto simp: redact_payload_def redact_json_def redact_json_in_place_def)

lemma word_pred_less: "(0 :: u64) < c \<Longrightarrow> c - 1 < x \<longleftrightarrow> c \<le> x"
proof -
  assume "0 < c"
  then have "unat (c - 1) = unat c - 1" "0 < unat c" by (simp_all add: unat_minus_one word_gt_0 unat_gt_0)
  then show ?thesis by (auto simp: word_less_nat_alt word_le_nat_alt)
qed

lemma load_events_iff:
  "load_events sql s c n db = Inr es \<longleftrightarrow>
     0 < n \<and> n \<le> 4096 \<and> sql \<and> session_exists db s \<and> fits_i64 (unat c) \<and>
     es = take n (sort_key env_sequence (filter (\<lambda>e. env_session_id e = s \<and> c < env_sequence e) (db_events db)))"
  by (auto simp: load_events_def stored_session_state_def session_exists_def find_None_iff image_iff)


definition sample_stored_event :: event_envelope where
  "sample_stored_event = event_envelope_new (EventId 9) 7 (SessionId 2) None 1 Cli
     (normalized_event_user ''usage'' (Object [(''apiKey'', String ''x'')]))"


lemma find_update_where:
  assumes "\<And>r. se_id (f r) = se_id r"
  shows "find (\<lambda>r. se_id r = s) (update_where (\<lambda>r. se_id r = s) f rows) = map_option f (find (\<lambda>r. se_id r = s) rows)"
  using assms by (induction rows) (auto simp: update_where_def)

text \<open>A session stays with the project that created it, also when another project resumes it.\<close>

lemma upsert_keeps_project:
  assumes "upsert_session sql now session project kind mode state title db = (Inr (), db')"
    and "find (\<lambda>r. se_id r = session) (db_sessions db) = Some r"
  shows "\<exists>r'. find (\<lambda>r. se_id r = session) (db_sessions db') = Some r' \<and> se_project r' = se_project r"
proof -
  have "list_ex (\<lambda>r. se_id r = session) (db_sessions db)" using assms(2) by (auto simp: find_Some_iff list_ex_iff)
  then have db': "db_sessions db' = update_where (\<lambda>r. se_id r = session)
      (\<lambda>r. r\<lparr>se_state := state, se_title := (if title \<noteq> None then title else se_title r), se_updated_at := now\<rparr>) (db_sessions db)"
    using assms(1) by (auto simp: upsert_session_def upsert_def split: if_splits)
  show ?thesis unfolding db' by (subst find_update_where) (simp_all add: assms(2))
qed

end
