(* ===== verification/Protocol_Types.thy ===== *)
theory Protocol_Types
  imports Terminal Fake_Session Adapter_Contract
begin

text \<open>
  The messages between the desktop host and the daemon, \<^verbatim>\<open>crates/maestro-protocol/src/lib.rs\<close>: one
  constructor per variant of \<^verbatim>\<open>Request\<close> and \<^verbatim>\<open>Response\<close>, with the payload records. The records of
  terminals are those of the terminal manager. A \<^verbatim>\<open>SensitiveString\<close> is its text and \<^verbatim>\<open>SensitiveBytes\<close> are
  their bytes; a \<^verbatim>\<open>usize\<close> is a natural number.
\<close>

section \<open>Limits\<close>

definition MAX_SESSION_EVENTS_PER_READ :: nat where "MAX_SESSION_EVENTS_PER_READ = 1024"
definition MAX_SESSION_INDEX_ENTRIES :: nat where "MAX_SESSION_INDEX_ENTRIES = 256"
definition MAX_SESSION_EVENT_WAIT_MILLISECONDS :: u32 where "MAX_SESSION_EVENT_WAIT_MILLISECONDS = 30000"
definition MAX_SESSION_ACTION_BYTES :: nat where "MAX_SESSION_ACTION_BYTES = 256 * 1024"
definition MAX_SESSION_RAW_READ_BYTES :: u32 where "MAX_SESSION_RAW_READ_BYTES = 256 * 1024"
definition MAX_FAKE_EVENT_VOLUME :: nat where "MAX_FAKE_EVENT_VOLUME = 2048"
definition MAX_SETTING_SCOPE_BYTES :: nat where "MAX_SETTING_SCOPE_BYTES = 32"
definition MAX_SETTING_SCOPE_REFERENCE_BYTES :: nat where "MAX_SETTING_SCOPE_REFERENCE_BYTES = 256"
definition MAX_SETTING_KEY_BYTES :: nat where "MAX_SETTING_KEY_BYTES = 128"
definition MAX_SETTING_VALUE_BYTES :: nat where "MAX_SETTING_VALUE_BYTES = 64 * 1024"

section \<open>Greetings and status\<close>

record client_hello =
  ch_protocol_version :: u16
  ch_client_name :: string
  ch_client_version :: string
  ch_authentication_token :: string

record server_hello =
  sh_protocol_version :: u16
  sh_daemon_version :: string
  sh_connection_id :: uuid

datatype storage_unlock_mode = UnlockCreate | UnlockExisting

datatype storage_status = StatusReady | PassphraseRequired storage_unlock_mode | StatusUnavailable

definition is_locked :: "storage_status \<Rightarrow> bool" where
  "is_locked status \<longleftrightarrow> status \<noteq> StatusReady"

record system_snapshot =
  sy_daemon_version :: string
  sy_locked :: bool
  sy_storage :: storage_status
  sy_storage_schema_version :: "int option"
  sy_active_sessions :: u32
  sy_active_terminals :: u32
  sy_installed_agents :: "agent_kind list"

section \<open>Projects\<close>

record project_registered =
  pg_project_id :: project_id
  pg_display_name :: string
  pg_canonical_roots :: "string list"

record recent_project =
  rp_project_id :: project_id
  rp_display_name :: string
  rp_canonical_roots :: "string list"
  rp_favorite :: bool
  rp_last_opened_at :: date_time

record project_window_layout =
  pw_project_id :: project_id
  pw_window_key :: string
  pw_layout_json :: "string option"

datatype project_entry_kind = KindDirectory | KindFile | KindSymlink | KindOther

record project_directory_entry =
  pe_path :: string
  pe_display_name :: string
  pe_kind :: project_entry_kind
  pe_bytes :: "nat option"

record project_directory_page =
  pdp_directory :: string
  pdp_entries :: "project_directory_entry list"
  pdp_next_cursor :: "u64 option"

record project_text_file =
  ptf_path :: string
  ptf_text :: string
  ptf_fingerprint :: bytes
  ptf_bytes :: nat

record project_file_saved =
  pfs_fingerprint :: bytes
  pfs_bytes :: nat

datatype project_search_mode = ModeLiteral | ModeRegex

record project_search_options =
  pso_pattern :: string
  pso_mode :: project_search_mode
  pso_case_sensitive :: bool
  pso_include_hidden :: bool
  pso_maximum_results :: nat
  pso_maximum_file_bytes :: nat

record project_search_match =
  psm_path :: string
  psm_line :: u64
  psm_byte_column :: nat
  psm_byte_length :: nat
  psm_excerpt :: string

record project_search_summary =
  pss_scanned_files :: u64
  pss_skipped_files :: u64
  pss_matches :: nat
  pss_limit_reached :: bool
  pss_cancelled :: bool
  pss_consumer_stopped :: bool

record project_search_result =
  psr_matches :: "project_search_match list"
  psr_summary :: project_search_summary

record project_git_path =
  pgp_bytes :: bytes
  pgp_display :: string

datatype project_git_status_kind = GitOrdinary | GitRenamedOrCopied | GitUnmerged | GitUntracked | GitIgnored

record project_git_status_entry =
  pgs_path :: project_git_path
  pgs_original_path :: "project_git_path option"
  pgs_index_status :: char
  pgs_worktree_status :: char
  pgs_kind :: project_git_status_kind

datatype project_branch_state = OnBranch string | OnUnborn string | OnDetached string

datatype project_diff_scope = ScopeWorkingTree | ScopeStaged

record project_git_diff =
  pgd_text :: string
  pgd_truncated :: bool
  pgd_contains_binary_changes :: bool

record project_worktree =
  pwt_path :: string
  pwt_head :: "string option"
  pwt_branch :: "string option"
  pwt_detached :: bool
  pwt_bare :: bool
  pwt_locked_reason :: "string option"
  pwt_prunable_reason :: "string option"

section \<open>Sessions\<close>

datatype session_permission_decision = PermitAllow | PermitDeny | PermitCancel

datatype session_exit = SessionExited int | SessionSignaled int | SessionUnknown

record session_run_started =
  srs_session_id :: session_id
  srs_run_id :: run_id
  srs_process_id :: u32

record session_run_attached =
  sra_session_id :: session_id
  sra_run_id :: run_id
  sra_process_id :: u32

record session_terminal_started =
  sts_session_id :: session_id
  sts_terminal :: terminal_opened

record session_terminal_attached =
  sta_session_id :: session_id
  sta_terminal :: terminal_opened

record session_index_entry =
  si_session_id :: session_id
  si_project_id :: project_id
  si_agent_kind :: agent_kind
  si_integration_mode :: integration_mode
  si_state :: session_state
  si_title :: "string option"
  si_active_run_id :: "run_id option"
  si_latest_sequence :: u64
  si_updated_at :: date_time

record session_error_summary =
  ses_code :: error_code
  ses_message :: string
  ses_correlation_id :: uuid

record session_snapshot =
  snap_session_id :: session_id
  snap_active_run_id :: "run_id option"
  snap_state :: session_state
  snap_binding :: "string option"
  snap_latest_sequence :: u64
  snap_dropped_through_sequence :: u64
  snap_stderr :: string
  snap_stderr_truncated :: bool
  snap_last_exit :: "session_exit option"
  snap_last_error :: "session_error_summary option"

record session_event_batch =
  seb_session_id :: session_id
  seb_events :: "event_envelope list"
  seb_next_sequence :: u64
  seb_latest_sequence :: u64
  seb_replay_gap :: "replay_gap option"
  seb_state :: session_state

record session_raw_batch =
  srb_session_id :: session_id
  srb_run_id :: run_id
  srb_data :: bytes
  srb_next_offset :: u64
  srb_captured_bytes :: u64
  srb_observed_bytes :: u64
  srb_truncated :: bool
  srb_complete :: bool

section \<open>Requests and responses\<close>

datatype request =
    ReqPing
  | ReqSystemSnapshot
  | ReqStopAllWork
  | ReqStorageUnlock (rq_passphrase: string)
  | ReqProjectRegister project_id string "string list"
  | ReqProjectRecentList nat
  | ReqProjectSetFavorite project_id bool
  | ReqProjectWindowLayoutLoad project_id string
  | ReqProjectWindowLayoutSave project_id string string
  | ReqSettingLoad string string string
  | ReqSettingSave string string string string
  | ReqFakeSessionStart project_id string "string option" "nat option" bool
  | ReqFakeSessionResume session_id project_id string "string option" bool
  | ReqFakeTuiStart project_id string u16 u16
  | ReqSessionTerminalAttach session_id project_id
  | ReqSessionStructuredAttach session_id project_id
  | ReqSessionList project_id nat
  | ReqSessionSnapshot session_id
  | ReqSessionEventsRead session_id u64 nat u32
  | ReqSessionRawRead session_id run_id u64 u32
  | ReqSessionPermissionRespond session_id run_id string session_permission_decision
  | ReqSessionUserInputRespond session_id run_id string string
  | ReqSessionGuiAction session_id run_id string string
  | ReqProjectDirectoryList project_id string u64 nat bool
  | ReqProjectFileRead project_id string
  | ReqProjectFileSave project_id string string bytes
  | ReqProjectSearch project_id request_id project_search_options
  | ReqProjectSearchCancel request_id
  | ReqProjectGitStatus project_id string
  | ReqProjectGitBranch project_id string
  | ReqProjectGitDiff project_id string project_diff_scope nat
  | ReqProjectGitWorktrees project_id string
  | ReqSubscribeSession session_id u64
  | ReqUnsubscribeSession session_id
  | ReqStopSession session_id
  | ReqTerminalOpen project_id string u16 u16
  | ReqTerminalList project_id nat
  | ReqTerminalAttach project_id terminal_id
  | ReqTerminalWrite terminal_id bytes
  | ReqTerminalResize terminal_id u16 u16
  | ReqTerminalRead terminal_id u64 u32 u32
  | ReqTerminalState terminal_id
  | ReqTerminalClose terminal_id

record request_envelope =
  rqe_request_id :: request_id
  rqe_request :: request

datatype response =
    RespPong
  | RespSystemSnapshot system_snapshot
  | RespBackgroundWorkStopped u32 u32
  | RespStorageUnlocked
  | RespProjectRegistered project_registered
  | RespProjectRecentList "recent_project list"
  | RespProjectFavoriteUpdated project_id bool
  | RespProjectWindowLayout project_window_layout
  | RespProjectWindowLayoutSaved project_id string
  | RespSettingValue string string string "string option"
  | RespSettingSaved string string string
  | RespSessionRunStarted session_run_started
  | RespSessionRunAttached session_run_attached
  | RespSessionTerminalStarted session_terminal_started
  | RespSessionTerminalAttached session_terminal_attached
  | RespSessionList "session_index_entry list"
  | RespSessionSnapshot session_snapshot
  | RespSessionEvents session_event_batch
  | RespSessionRaw session_raw_batch
  | RespSessionPermissionAccepted session_id string
  | RespSessionUserInputAccepted session_id string
  | RespSessionGuiActionAccepted session_id string
  | RespProjectDirectoryPage project_directory_page
  | RespProjectTextFile project_text_file
  | RespProjectFileSaved project_file_saved
  | RespProjectSearchResult project_search_result
  | RespProjectSearchCancelled request_id
  | RespProjectGitStatus "project_git_status_entry list"
  | RespProjectGitBranch project_branch_state
  | RespProjectGitDiff project_git_diff
  | RespProjectGitWorktrees "project_worktree list"
  | RespSubscribed session_id
  | RespUnsubscribed session_id
  | RespSessionStopped session_id
  | RespTerminalOpened terminal_opened
  | RespTerminalList "terminal_index_entry list"
  | RespTerminalAttached terminal_opened
  | RespTerminalWriteAccepted terminal_id
  | RespTerminalResized terminal_id
  | RespTerminalRead terminal_read_result
  | RespTerminalState terminal_status
  | RespTerminalClosed terminal_status

record response_envelope =
  rse_request_id :: request_id
  rse_response :: "maestro_error + response"

datatype server_event = EventAgent event_envelope | EventSessionStateChanged session_id session_state

datatype client_frame = ClientFrameHello client_hello | ClientFrameRequest request_envelope

datatype server_frame =
    ServerFrameHello server_hello
  | ServerFrameResponse response_envelope
  | ServerFrameEvent server_event
  | ServerFrameFatal maestro_error

section \<open>Which response answers which request\<close>

text \<open>
  The protocol is a typed one: a successful answer to a request has one form. The judgement also says
  which identifiers of the request the answer repeats.
\<close>

inductive answers :: "request \<Rightarrow> response \<Rightarrow> bool" where
  "answers ReqPing RespPong"
| "answers ReqSystemSnapshot (RespSystemSnapshot s)"
| "answers ReqStopAllWork (RespBackgroundWorkStopped m n)"
| "answers (ReqStorageUnlock passphrase) RespStorageUnlocked"
| "answers (ReqProjectRegister p name roots) (RespProjectRegistered r)"
| "answers (ReqProjectRecentList n) (RespProjectRecentList ps)"
| "answers (ReqProjectSetFavorite p favorite) (RespProjectFavoriteUpdated p favorite)"
| "pw_project_id l = p \<Longrightarrow> pw_window_key l = key \<Longrightarrow> answers (ReqProjectWindowLayoutLoad p key) (RespProjectWindowLayout l)"
| "answers (ReqProjectWindowLayoutSave p key layout) (RespProjectWindowLayoutSaved p key)"
| "answers (ReqSettingLoad scope reference key) (RespSettingValue scope reference key v)"
| "answers (ReqSettingSave scope reference key v) (RespSettingSaved scope reference key)"
| "answers (ReqFakeSessionStart p scenario binding volume capture) (RespSessionRunStarted r)"
| "srs_session_id r = s \<Longrightarrow> answers (ReqFakeSessionResume s p scenario binding capture) (RespSessionRunStarted r)"
| "answers (ReqFakeTuiStart p scenario columns rows) (RespSessionTerminalStarted t)"
| "sta_session_id t = s \<Longrightarrow> answers (ReqSessionTerminalAttach s p) (RespSessionTerminalAttached t)"
| "sra_session_id r = s \<Longrightarrow> answers (ReqSessionStructuredAttach s p) (RespSessionRunAttached r)"
| "answers (ReqSessionList p n) (RespSessionList es)"
| "snap_session_id x = s \<Longrightarrow> answers (ReqSessionSnapshot s) (RespSessionSnapshot x)"
| "seb_session_id b = s \<Longrightarrow> answers (ReqSessionEventsRead s c n w) (RespSessionEvents b)"
| "srb_session_id b = s \<Longrightarrow> srb_run_id b = r \<Longrightarrow> answers (ReqSessionRawRead s r c n) (RespSessionRaw b)"
| "answers (ReqSessionPermissionRespond s r q d) (RespSessionPermissionAccepted s q)"
| "answers (ReqSessionUserInputRespond s r q v) (RespSessionUserInputAccepted s q)"
| "answers (ReqSessionGuiAction s r a v) (RespSessionGuiActionAccepted s i)"
| "answers (ReqProjectDirectoryList p d c n h) (RespProjectDirectoryPage page)"
| "answers (ReqProjectFileRead p path) (RespProjectTextFile f)"
| "answers (ReqProjectFileSave p path content fingerprint) (RespProjectFileSaved f)"
| "answers (ReqProjectSearch p i options) (RespProjectSearchResult result)"
| "answers (ReqProjectSearchCancel i) (RespProjectSearchCancelled i)"
| "answers (ReqProjectGitStatus p repository) (RespProjectGitStatus es)"
| "answers (ReqProjectGitBranch p repository) (RespProjectGitBranch b)"
| "answers (ReqProjectGitDiff p repository scope n) (RespProjectGitDiff d)"
| "answers (ReqProjectGitWorktrees p repository) (RespProjectGitWorktrees ws)"
| "answers (ReqSubscribeSession s c) (RespSubscribed s)"
| "answers (ReqUnsubscribeSession s) (RespUnsubscribed s)"
| "answers (ReqStopSession s) (RespSessionStopped s)"
| "answers (ReqTerminalOpen p cwd columns rows) (RespTerminalOpened t)"
| "answers (ReqTerminalList p n) (RespTerminalList es)"
| "to_terminal_id o' = t \<Longrightarrow> answers (ReqTerminalAttach p t) (RespTerminalAttached o')"
| "answers (ReqTerminalWrite t bs) (RespTerminalWriteAccepted t)"
| "answers (ReqTerminalResize t columns rows) (RespTerminalResized t)"
| "tr_terminal_id r = t \<Longrightarrow> answers (ReqTerminalRead t c n w) (RespTerminalRead r)"
| "tu_terminal_id u = t \<Longrightarrow> answers (ReqTerminalState t) (RespTerminalState u)"
| "tu_terminal_id u = t \<Longrightarrow> answers (ReqTerminalClose t) (RespTerminalClosed u)"

end
