(* ===== verification/Key_Store.thy ===== *)
theory Key_Store
  imports Protocol_Types
begin

text \<open>
  The database key and its passphrase-protected envelope, \<^verbatim>\<open>crates/maestro-storage/src/key.rs\<close>.
\<close>

type_synonym database_key = bytes

text \<open>The texts that the errors carry are not modelled.\<close>

datatype key_store_error =
    EmptyPassphrase | Encryption | KeyDerivation | IncorrectPassphraseOrCorruptEnvelope | EnvelopeTooLarge nat nat
  | FilesystemPathChanged | InvalidEnvelopeField string nat nat | InvalidKeyLength nat | InvalidEncoding | SecureStore
  | TemporaryFileExhausted | UnsafeFilesystemPath | UnsupportedEnvelopeVersion "8 word" | KeyIo | Serialization

end
