(* ===== verification/Storage_Runtime.thy ===== *)
theory Storage_Runtime
  imports Session_Store Storage_Maintenance Protocol_Types Key_Store
begin

text \<open>
  The daemon's handle on the encrypted storage, \<^verbatim>\<open>crates/maestrod/src/storage_runtime.rs\<close>:
  opening and unlocking it, and the operations that need it ready. The database file is the database
  it holds under its key; the system's answers (key stores, backups, SQLite, the file system) are
  arguments. The maintenance pass is in \<^verbatim>\<open>Storage_Maintenance\<close>.
\<close>

section \<open>State and errors\<close>

record ready_storage =
  rd_database :: database
  rd_key :: "database_key option"

datatype storage_state =
    StorageReady ready_storage
  | StoragePassphraseRequired storage_unlock_mode
  | StorageUnavailable

datatype storage_failure =
    RuntimeUnavailable | RuntimeKey key_store_error | RuntimeStorage storage_error | RuntimeSession session_store_error | RuntimeBackup
  | RuntimeMaintenance storage_runtime_error | SegmentEncryption

definition TERMINAL_SEGMENTS_DIRECTORY :: string where "TERMINAL_SEGMENTS_DIRECTORY = ''terminal-segments-v1''"
definition RAW_SEGMENTS_DIRECTORY :: string where "RAW_SEGMENTS_DIRECTORY = ''raw-segments-v1''"
definition DEBUG_LOGS_DIRECTORY :: string where "DEBUG_LOGS_DIRECTORY = ''debug-logs-v1''"
definition TERMINAL_SEGMENT_MAGIC :: string where "TERMINAL_SEGMENT_MAGIC = ''MTRMSEG1''"
definition TERMINAL_SEGMENT_AAD :: string where "TERMINAL_SEGMENT_AAD = ''com.maestroai.app/terminal-segment-v1''"
definition MAX_TERMINAL_SCROLLBACK_BYTES :: u64 where "MAX_TERMINAL_SCROLLBACK_BYTES = 10 * 1024 * 1024"

section \<open>Opening the database\<close>

text \<open>
  The file of the database, \<open>None\<close> when there is none, and what the system answers while it is opened:
  the write-ahead log beside it, whether the directory can be prepared, whether SQLite opens and keys
  the connections, whether SQLCipher is there, and whether each migration commits. A file opens only
  with the key it was written with.
\<close>

type_synonym database_file = "(database_key \<times> database) option"

record open_draws =
  od_wal :: "bool + nat option"
  od_probe_opens :: bool
  od_directory :: bool
  od_opens :: bool
  od_sqlcipher :: bool
  od_commits :: "int \<Rightarrow> bool"
  od_restricts :: bool

definition new_database :: database where
  "new_database = \<lparr>db_versions = [], db_projects = [], db_roots = [], db_sessions = [], db_runs = [], db_events = [],
     db_raw = [], db_tabs = [], db_segments = [], db_layouts = [], db_settings = []\<rparr>"

definition key_matches :: "database_key \<Rightarrow> database_file \<Rightarrow> bool" where
  "key_matches key f \<longleftrightarrow> (case f of Some (k, _) \<Rightarrow> k = key | None \<Rightarrow> True)"

definition file_database :: "database_file \<Rightarrow> database" where
  "file_database f = (case f of Some (_, db) \<Rightarrow> db | None \<Rightarrow> new_database)"

definition migrate_file :: "open_draws \<Rightarrow> database \<Rightarrow> (storage_error + unit) \<times> database" where
  "migrate_file d db =
     (case migrate (od_commits d) (db_versions db) of (r, versions) \<Rightarrow> (r, db\<lparr>db_versions := versions\<rparr>))"

definition database_open :: "path \<Rightarrow> open_draws \<Rightarrow> database_key \<Rightarrow> database_file \<Rightarrow> (storage_error + database) \<times> database_file" where
  "database_open wal_path d key f =
     (case (if f = None then Inr ()
            else probe_schema_compatibility wal_path (od_wal d) (od_probe_opens d \<and> key_matches key f) (od_sqlcipher d)
              (map_option (\<lambda>(_, db). db_versions db) f)) of
        Inl e \<Rightarrow> (Inl e, f)
      | Inr _ \<Rightarrow>
          if \<not> od_directory d then (Inl DatabaseIo, f)
          else if \<not> od_opens d \<or> \<not> key_matches key f then (Inl StorageSql, f)
          else if \<not> od_sqlcipher d then (Inl EncryptionUnavailable, f)
          else (case migrate_file d (file_database f) of
                  (Inl e, db) \<Rightarrow> (Inl e, Some (key, db))
                | (Inr _, db) \<Rightarrow> if \<not> od_restricts d then (Inl DatabaseIo, Some (key, db)) else (Inr db, Some (key, db))))"

definition database_open_in_memory :: "open_draws \<Rightarrow> storage_error + database" where
  "database_open_in_memory d =
     (if \<not> od_opens d then Inl StorageSql
      else if \<not> od_sqlcipher d then Inl EncryptionUnavailable
      else (case migrate_file d new_database of (Inl e, _) \<Rightarrow> Inl e | (Inr _, db) \<Rightarrow> Inr db))"

definition ready_database :: "bool \<Rightarrow> date_time \<Rightarrow> database \<Rightarrow> database_key option \<Rightarrow> storage_error + ready_storage" where
  "ready_database sql now db key =
     (case recover_interrupted_work sql now db of
        (Inl e, _) \<Rightarrow> Inl e
      | (Inr _, db') \<Rightarrow> Inr \<lparr>rd_database = db', rd_key = key\<rparr>)"

text \<open>
  The persistent database: a daily snapshot of an existing file first (\<open>backup\<close>: whether it succeeds),
  then open and recover. The file then holds what the runtime holds.
\<close>

record persistent_draws =
  pd_wal_path :: path
  pd_backup :: bool
  pd_open :: open_draws
  pd_recovers :: bool
  pd_now :: date_time

definition open_persistent_database ::
  "persistent_draws \<Rightarrow> database_key \<Rightarrow> database_file \<Rightarrow> (storage_failure + ready_storage) \<times> database_file" where
  "open_persistent_database d key f =
     (if f \<noteq> None \<and> \<not> pd_backup d then (Inl RuntimeBackup, f)
      else (case database_open (pd_wal_path d) (pd_open d) key f of
              (Inl e, f') \<Rightarrow> (Inl (RuntimeStorage e), f')
            | (Inr db, f') \<Rightarrow>
                (case ready_database (pd_recovers d) (pd_now d) db (Some key) of
                   Inl e \<Rightarrow> (Inl (RuntimeStorage e), f')
                 | Inr ready \<Rightarrow> (Inr ready, Some (key, rd_database ready)))))"

text \<open>The key envelope of a passphrase, the key store of the system (\<open>None\<close>: it fails), and the platform.\<close>

definition initialize_persistent ::
  "bool \<Rightarrow> database_key option \<Rightarrow> bool \<Rightarrow> persistent_draws \<Rightarrow> database_file \<Rightarrow> storage_state \<times> database_file" where
  "initialize_persistent envelope_exists os_key linux d f =
     (if envelope_exists then (StoragePassphraseRequired UnlockExisting, f)
      else (case os_key of
              Some key \<Rightarrow>
                (case open_persistent_database d key f of
                   (Inl _, f') \<Rightarrow> (StorageUnavailable, f')
                 | (Inr ready, f') \<Rightarrow> (StorageReady ready, f'))
            | None \<Rightarrow>
                if linux \<and> f = None then (StoragePassphraseRequired UnlockCreate, f) else (StorageUnavailable, f)))"

text \<open>The runtime: its state, the database file, and whether the daemon keeps nothing.\<close>

record storage_runtime =
  rt_ephemeral :: bool
  rt_state :: storage_state
  rt_file :: database_file

definition initialize_runtime ::
  "bool \<Rightarrow> bool \<Rightarrow> database_key option \<Rightarrow> bool \<Rightarrow> persistent_draws \<Rightarrow> database_file \<Rightarrow> storage_error + storage_runtime" where
  "initialize_runtime ephemeral envelope_exists os_key linux d f =
     (if ephemeral
      then and_then (database_open_in_memory (pd_open d)) (\<lambda>db.
        and_then (ready_database (pd_recovers d) (pd_now d) db None) (\<lambda>ready.
          Inr \<lparr>rt_ephemeral = True, rt_state = StorageReady ready, rt_file = f\<rparr>))
      else (case initialize_persistent envelope_exists os_key linux d f of
              (st, f') \<Rightarrow> Inr \<lparr>rt_ephemeral = False, rt_state = st, rt_file = f'\<rparr>))"

definition storage_snapshot :: "bool \<Rightarrow> storage_runtime \<Rightarrow> storage_status \<times> int option" where
  "storage_snapshot sql r =
     (case rt_state r of
        StorageReady ready \<Rightarrow>
          (StatusReady, case schema_version sql (rd_database ready) of Inr v \<Rightarrow> Some v | Inl _ \<Rightarrow> None)
      | StoragePassphraseRequired mode \<Rightarrow> (PassphraseRequired mode, None)
      | StorageUnavailable \<Rightarrow> (StatusUnavailable, None))"

text \<open>
  Unlocking with a passphrase. The key store refuses an empty passphrase and then loads the key of the
  envelope or creates both (\<open>loaded\<close>).
\<close>

definition unlock ::
  "string \<Rightarrow> key_store_error + database_key \<Rightarrow> persistent_draws \<Rightarrow> storage_runtime \<Rightarrow> (storage_failure + unit) \<times> storage_runtime" where
  "unlock passphrase loaded d r =
     (case rt_state r of
        StorageReady _ \<Rightarrow> (Inr (), r)
      | StorageUnavailable \<Rightarrow> (Inl RuntimeUnavailable, r)
      | StoragePassphraseRequired mode \<Rightarrow>
          if passphrase = [] then (Inl (RuntimeKey EmptyPassphrase), r)
          else (case loaded of
                  Inl e \<Rightarrow> (Inl (RuntimeKey e), r\<lparr>rt_state := StoragePassphraseRequired mode\<rparr>)
                | Inr key \<Rightarrow>
                    (case open_persistent_database d key (rt_file r) of
                       (Inl e, f') \<Rightarrow> (Inl e, r\<lparr>rt_state := StoragePassphraseRequired UnlockExisting, rt_file := f'\<rparr>)
                     | (Inr ready, f') \<Rightarrow> (Inr (), r\<lparr>rt_state := StorageReady ready, rt_file := f'\<rparr>))))"

section \<open>Operations on ready storage\<close>

text \<open>Every change of the database is a change of its file, which an in-memory database does not have.\<close>

definition put_database :: "ready_storage \<Rightarrow> database \<Rightarrow> storage_runtime \<Rightarrow> storage_runtime" where
  "put_database ready db r =
     r\<lparr>rt_state := StorageReady (ready\<lparr>rd_database := db\<rparr>),
       rt_file := (case rd_key ready of Some key \<Rightarrow> Some (key, db) | None \<Rightarrow> rt_file r)\<rparr>"

definition with_ready_database ::
  "(database \<Rightarrow> (storage_error + 'a) \<times> database) \<Rightarrow> storage_runtime \<Rightarrow> (storage_failure + 'a) \<times> storage_runtime" where
  "with_ready_database operation r =
     (case rt_state r of
        StorageReady ready \<Rightarrow>
          (case operation (rd_database ready) of (result, db) \<Rightarrow> (map_err RuntimeStorage result, put_database ready db r))
      | _ \<Rightarrow> (Inl RuntimeUnavailable, r))"

definition with_ready_session_store ::
  "(database \<Rightarrow> (session_store_error + 'a) \<times> database) \<Rightarrow> storage_runtime \<Rightarrow> (storage_failure + 'a) \<times> storage_runtime" where
  "with_ready_session_store operation r =
     (case rt_state r of
        StorageReady ready \<Rightarrow>
          (case operation (rd_database ready) of (result, db) \<Rightarrow> (map_err RuntimeSession result, put_database ready db r))
      | _ \<Rightarrow> (Inl RuntimeUnavailable, r))"

definition reading :: "(database \<Rightarrow> 'e + 'a) \<Rightarrow> database \<Rightarrow> ('e + 'a) \<times> database" where
  "reading f db = (f db, db)"

definition rt_upsert_project_registration ::
  "bool \<Rightarrow> date_time \<Rightarrow> project_id \<Rightarrow> string \<Rightarrow> string list \<Rightarrow> storage_runtime \<Rightarrow> (storage_failure + project_id) \<times> storage_runtime" where
  "rt_upsert_project_registration sql now p name roots =
     with_ready_database (upsert_project_registration sql now p name roots)"

definition rt_recent_projects :: "bool \<Rightarrow> nat \<Rightarrow> storage_runtime \<Rightarrow> (storage_failure + persisted_project list) \<times> storage_runtime" where
  "rt_recent_projects sql limit = with_ready_database (reading (recent_projects sql limit))"

definition rt_set_project_favorite :: "bool \<Rightarrow> date_time \<Rightarrow> project_id \<Rightarrow> bool \<Rightarrow> storage_runtime \<Rightarrow> (storage_failure + unit) \<times> storage_runtime" where
  "rt_set_project_favorite sql now p favorite = with_ready_database (set_project_favorite sql now p favorite)"

definition rt_save_window_layout ::
  "(string \<Rightarrow> bool) \<Rightarrow> bool \<Rightarrow> date_time \<Rightarrow> project_id \<Rightarrow> string \<Rightarrow> string \<Rightarrow> storage_runtime \<Rightarrow>
   (storage_failure + unit) \<times> storage_runtime" where
  "rt_save_window_layout valid_json sql now p window_key layout_json =
     with_ready_database (save_window_layout valid_json sql now p window_key layout_json)"

definition rt_window_layout :: "bool \<Rightarrow> project_id \<Rightarrow> string \<Rightarrow> storage_runtime \<Rightarrow> (storage_failure + string option) \<times> storage_runtime" where
  "rt_window_layout sql p window_key = with_ready_database (reading (window_layout sql p window_key))"

definition rt_setting :: "bool \<Rightarrow> string \<Rightarrow> string \<Rightarrow> string \<Rightarrow> storage_runtime \<Rightarrow> (storage_failure + string option) \<times> storage_runtime" where
  "rt_setting sql scope reference key = with_ready_database (reading (setting sql scope reference key))"

definition rt_save_setting ::
  "bool \<Rightarrow> date_time \<Rightarrow> string \<Rightarrow> string \<Rightarrow> string \<Rightarrow> string \<Rightarrow> storage_runtime \<Rightarrow> (storage_failure + unit) \<times> storage_runtime" where
  "rt_save_setting sql now scope reference key value_json =
     with_ready_database (save_setting sql now scope reference key value_json)"

definition rt_register_terminal ::
  "bool \<Rightarrow> date_time \<Rightarrow> project_id \<Rightarrow> terminal_id \<Rightarrow> string \<Rightarrow> string \<Rightarrow> storage_runtime \<Rightarrow> (storage_failure + unit) \<times> storage_runtime" where
  "rt_register_terminal sql now p t kind title =
     with_ready_database (register_terminal_tab sql now t p kind title ''running'')"

definition rt_update_terminal_state ::
  "bool \<Rightarrow> terminal_id \<Rightarrow> string \<Rightarrow> storage_runtime \<Rightarrow> (storage_failure + unit) \<times> storage_runtime" where
  "rt_update_terminal_state sql t st = with_ready_database (update_terminal_state sql t st)"

text \<open>Two statements, without a transaction around them: the session is stored although its run may not be.\<close>

definition start_session_run_with_mode ::
  "bool \<Rightarrow> bool \<Rightarrow> date_time \<Rightarrow> project_id \<Rightarrow> session_id \<Rightarrow> run_id \<Rightarrow> u32 \<Rightarrow> string \<Rightarrow> json \<Rightarrow> integration_mode \<Rightarrow> string \<Rightarrow>
   storage_runtime \<Rightarrow> (storage_failure + unit) \<times> storage_runtime" where
  "start_session_run_with_mode sql1 sql2 now project session run pid title invocation mode channel =
     with_ready_session_store (\<lambda>db.
       case upsert_session sql1 now session project Fake mode Starting (Some title) db of
         (Inl e, db) \<Rightarrow> (Inl e, db)
       | (Inr _, db) \<Rightarrow> start_run sql2 now run session pid invocation channel db)"

definition start_session_run ::
  "bool \<Rightarrow> bool \<Rightarrow> date_time \<Rightarrow> project_id \<Rightarrow> session_id \<Rightarrow> run_id \<Rightarrow> u32 \<Rightarrow> string \<Rightarrow> json \<Rightarrow>
   storage_runtime \<Rightarrow> (storage_failure + unit) \<times> storage_runtime" where
  "start_session_run sql1 sql2 now project session run pid title invocation =
     start_session_run_with_mode sql1 sql2 now project session run pid title invocation StructuredMode ''structured''"

definition start_tui_session_run ::
  "bool \<Rightarrow> bool \<Rightarrow> date_time \<Rightarrow> project_id \<Rightarrow> session_id \<Rightarrow> run_id \<Rightarrow> u32 \<Rightarrow> string \<Rightarrow> json \<Rightarrow>
   storage_runtime \<Rightarrow> (storage_failure + unit) \<times> storage_runtime" where
  "start_tui_session_run sql1 sql2 now project session run pid title invocation =
     start_session_run_with_mode sql1 sql2 now project session run pid title invocation PtyTui ''pty_tui''"

definition rt_persist_event :: "bool \<Rightarrow> event_envelope \<Rightarrow> storage_runtime \<Rightarrow> (storage_failure + unit) \<times> storage_runtime" where
  "rt_persist_event sql e = with_ready_session_store (append_event sql e)"

definition rt_update_session_state ::
  "bool \<Rightarrow> date_time \<Rightarrow> session_id \<Rightarrow> session_state \<Rightarrow> storage_runtime \<Rightarrow> (storage_failure + unit) \<times> storage_runtime" where
  "rt_update_session_state sql now session st = with_ready_session_store (update_session_state sql now session st)"

definition finish_session_run ::
  "bool \<Rightarrow> bool \<Rightarrow> date_time \<Rightarrow> session_id \<Rightarrow> run_id \<Rightarrow> session_state \<Rightarrow> persisted_run_exit \<Rightarrow> json option \<Rightarrow>
   storage_runtime \<Rightarrow> (storage_failure + unit) \<times> storage_runtime" where
  "finish_session_run sql1 sql2 now session run st exit_info recovery =
     with_ready_session_store (\<lambda>db.
       case update_session_state sql1 now session st db of
         (Inl e, db) \<Rightarrow> (Inl e, db)
       | (Inr _, db) \<Rightarrow> finish_run sql2 now run (session_state_name st) exit_info recovery db)"

definition persisted_events ::
  "bool \<Rightarrow> session_id \<Rightarrow> u64 \<Rightarrow> nat \<Rightarrow> storage_runtime \<Rightarrow> (storage_failure + event_envelope list) \<times> storage_runtime" where
  "persisted_events sql session after_sequence limit =
     with_ready_session_store (reading (load_events sql session after_sequence limit))"

definition rt_session_metadata ::
  "bool \<Rightarrow> session_id \<Rightarrow> storage_runtime \<Rightarrow> (storage_failure + persisted_session_metadata option) \<times> storage_runtime" where
  "rt_session_metadata sql session = with_ready_session_store (reading (session_metadata sql session))"

definition persisted_sessions ::
  "bool \<Rightarrow> project_id \<Rightarrow> nat \<Rightarrow> storage_runtime \<Rightarrow> (storage_failure + persisted_session_summary list) \<times> storage_runtime" where
  "persisted_sessions sql project limit = with_ready_session_store (reading (list_sessions sql project limit))"

section \<open>Segments and captures\<close>

text \<open>Making a directory private: what creating it, examining it, restricting it and resolving it give.\<close>

datatype create_outcome = DirectoryCreated | DirectoryExists | DirectoryRefused

definition prepare_private_directory ::
  "create_outcome \<Rightarrow> stat \<Rightarrow> bool \<Rightarrow> bool \<Rightarrow> string option \<Rightarrow> string \<Rightarrow> storage_runtime_error + string" where
  "prepare_private_directory created meta is_directory restricts canonical p =
     (if created = DirectoryRefused then Inl (StorageIo p)
      else (case meta of
              Present kind \<Rightarrow>
                if kind = Symlink \<or> \<not> is_directory then Inl (UnsafeRetentionPath p)
                else if \<not> restricts then Inl (StorageIo p)
                else (case canonical of Some c \<Rightarrow> Inr c | None \<Rightarrow> Inl (StorageIo p))
            | _ \<Rightarrow> Inl (StorageIo p)))"

definition prepare_retention_roots :: "(string \<Rightarrow> storage_runtime_error + string) \<Rightarrow> string \<Rightarrow> storage_runtime_error + string list" where
  "prepare_retention_roots prepare data_directory =
     collect_results (map (\<lambda>name. prepare (data_directory @ ''/'' @ name))
       [TERMINAL_SEGMENTS_DIRECTORY, RAW_SEGMENTS_DIRECTORY, DEBUG_LOGS_DIRECTORY])"

text \<open>
  The encrypted segment is written to a temporary file, which is renamed when it is complete.
  \<open>sealed\<close> holds the contents of segment files; \<open>ok n\<close> tells whether the \<open>n\<close>-th system call succeeds.
  The cipher is a parameter, the nonce and the temporary name are drawn.
\<close>

record segment_disk =
  sd_disk :: disk
  sd_sealed :: "string \<Rightarrow> bytes option"

definition string_bytes :: "string \<Rightarrow> bytes" where
  "string_bytes s = map of_char s"

definition terminal_segment_aad :: "(uuid \<Rightarrow> string) \<Rightarrow> terminal_id \<Rightarrow> u64 \<Rightarrow> u64 \<Rightarrow> bytes" where
  "terminal_segment_aad render t sequence_start sequence_end =
     (case t of TerminalId u \<Rightarrow>
        string_bytes (TERMINAL_SEGMENT_AAD @ [CHR 0x00] @ render u @ [CHR 0x00] @ decimal (unat sequence_start) @ [CHR 0x00]
          @ decimal (unat sequence_end)))"

definition put_file :: "string \<Rightarrow> bytes \<Rightarrow> segment_disk \<Rightarrow> segment_disk" where
  "put_file p bs s = s\<lparr>sd_disk := (sd_disk s)\<lparr>dk_stat := (dk_stat (sd_disk s))(p := Present RegularFile)\<rparr>,
     sd_sealed := (sd_sealed s)(p := Some bs)\<rparr>"

definition remove_file_quietly :: "string \<Rightarrow> segment_disk \<Rightarrow> segment_disk" where
  "remove_file_quietly p s =
     (if dk_removable (sd_disk s) p
      then s\<lparr>sd_disk := (sd_disk s)\<lparr>dk_stat := (dk_stat (sd_disk s))(p := FileNotFound)\<rparr>, sd_sealed := (sd_sealed s)(p := None)\<rparr>
      else s)"

definition rename_file :: "string \<Rightarrow> string \<Rightarrow> segment_disk \<Rightarrow> segment_disk" where
  "rename_file p q s = s\<lparr>sd_disk := (sd_disk s)\<lparr>dk_stat := (dk_stat (sd_disk s))(q := dk_stat (sd_disk s) p, p := FileNotFound)\<rparr>,
     sd_sealed := (sd_sealed s)(q := sd_sealed s p, p := None)\<rparr>"

definition segment_publication ::
  "(nat \<Rightarrow> bool) \<Rightarrow> string \<Rightarrow> string \<Rightarrow> bytes \<Rightarrow> bytes \<Rightarrow> segment_disk \<Rightarrow> (storage_runtime_error + unit) \<times> segment_disk" where
  "segment_publication ok temporary p nonce ciphertext s =
     (if \<not> ok 0 then (Inl (StorageIo temporary), s)
      else if \<not> ok 1 then (Inl (StorageIo temporary), put_file temporary [] s)
      else if \<not> ok 2 then (Inl (StorageIo temporary), put_file temporary [] s)
      else if \<not> ok 3 then (Inl (StorageIo temporary), put_file temporary (string_bytes TERMINAL_SEGMENT_MAGIC) s)
      else if \<not> ok 4 then (Inl (StorageIo temporary), put_file temporary (string_bytes TERMINAL_SEGMENT_MAGIC @ nonce) s)
      else
        (let s = put_file temporary (string_bytes TERMINAL_SEGMENT_MAGIC @ nonce @ ciphertext) s
         in if \<not> ok 5 then (Inl (StorageIo temporary), s)
            else if \<not> ok 6 then (Inl (StorageIo p), s)
            else if \<not> ok 7 then (Inl (StorageIo p), rename_file temporary p s)
            else (Inr (), rename_file temporary p s)))"

type_synonym segment_cipher = "database_key \<Rightarrow> bytes \<Rightarrow> bytes \<Rightarrow> bytes \<Rightarrow> bytes option"

definition write_encrypted_segment ::
  "segment_cipher \<Rightarrow> bytes \<Rightarrow> string \<Rightarrow> (nat \<Rightarrow> bool) \<Rightarrow> string \<Rightarrow> database_key \<Rightarrow> bytes \<Rightarrow> bytes \<Rightarrow> segment_disk \<Rightarrow>
   (storage_failure + unit) \<times> segment_disk" where
  "write_encrypted_segment cipher nonce temporary ok p key plaintext aad s =
     (case cipher key nonce plaintext aad of
        None \<Rightarrow> (Inl SegmentEncryption, s)
      | Some ciphertext \<Rightarrow>
          (case segment_publication ok temporary p nonce ciphertext s of
             (Inl e, s) \<Rightarrow> (Inl (RuntimeMaintenance e), remove_file_quietly temporary s)
           | (Inr _, s) \<Rightarrow> (Inr (), s)))"

text \<open>The draws of one segment.\<close>

record segment_draws =
  sw_directory :: "storage_runtime_error + string"
  sw_segment :: uuid
  sw_nonce :: bytes
  sw_temporary :: string
  sw_ok :: "nat \<Rightarrow> bool"
  sw_append :: bool
  sw_prune :: bool
  sw_now :: date_time

definition segment_path :: "(uuid \<Rightarrow> string) \<Rightarrow> string \<Rightarrow> uuid \<Rightarrow> string" where
  "segment_path render directory segment = directory @ ''/'' @ render segment @ ''.segment''"

definition forget_files :: "string list \<Rightarrow> segment_disk \<Rightarrow> segment_disk" where
  "forget_files ps s =
     s\<lparr>sd_sealed := (\<lambda>p. if p \<in> set ps \<and> dk_stat (sd_disk s) p = FileNotFound then None else sd_sealed s p)\<rparr>"

definition persist_terminal_segment ::
  "segment_cipher \<Rightarrow> (uuid \<Rightarrow> string) \<Rightarrow> segment_draws \<Rightarrow> terminal_id \<Rightarrow> u64 \<Rightarrow> u64 \<Rightarrow> bytes \<Rightarrow>
   storage_runtime \<Rightarrow> segment_disk \<Rightarrow> (storage_failure + unit) \<times> storage_runtime \<times> segment_disk" where
  "persist_terminal_segment cipher render d t sequence_start sequence_end bs r s =
     (if bs = [] then (Inr (), r, s)
      else (case sw_directory d of
        Inl e \<Rightarrow> (Inl (RuntimeMaintenance e), r, s)
      | Inr directory \<Rightarrow>
          (let p = segment_path render directory (sw_segment d)
           in case rt_state r of
             StorageReady ready \<Rightarrow>
               (case rd_key ready of
                  None \<Rightarrow> (Inr (), r, s)
                | Some key \<Rightarrow>
                    (case write_encrypted_segment cipher (sw_nonce d) (sw_temporary d) (sw_ok d) p key bs
                        (terminal_segment_aad render t sequence_start sequence_end) s of
                       (Inl e, s) \<Rightarrow> (Inl e, r, s)
                     | (Inr _, s) \<Rightarrow>
                         (case append_terminal_segment (sw_append d) (sw_now d) (sw_segment d) t sequence_start sequence_end
                             (length bs) p (rd_database ready) of
                            (Inl e, db) \<Rightarrow> (Inl (RuntimeStorage e), put_database ready db r, remove_file_quietly p s)
                          | (Inr _, db) \<Rightarrow>
                              (case prune_terminal_segments (sw_prune d) t MAX_TERMINAL_SCROLLBACK_BYTES db of
                                 (Inl e, db) \<Rightarrow> (Inl (RuntimeStorage e), put_database ready db r, s)
                               | (Inr released, db) \<Rightarrow>
                                   (case remove_released_files [dk_components (sd_disk s) directory] released (sd_disk s) of
                                      (result, dk) \<Rightarrow>
                                        (map_err RuntimeMaintenance result, put_database ready db r,
                                         forget_files released (s\<lparr>sd_disk := dk\<rparr>)))))))
           | _ \<Rightarrow> (Inl RuntimeUnavailable, r, s))))"

definition persist_raw_protocol_capture ::
  "(uuid \<Rightarrow> string) \<Rightarrow> storage_runtime_error + string \<Rightarrow> bool \<Rightarrow> date_time \<Rightarrow> session_id \<Rightarrow> run_id \<Rightarrow> bytes \<Rightarrow> u64 \<Rightarrow> bool \<Rightarrow> bool \<Rightarrow>
   storage_runtime \<Rightarrow> (storage_failure + unit) \<times> storage_runtime" where
  "persist_raw_protocol_capture render directory sql now session run bs observed truncated completed r =
     (case directory of
        Inl e \<Rightarrow> (Inl (RuntimeMaintenance e), r)
      | Inr p \<Rightarrow>
          with_ready_session_store (upsert_raw_protocol_capture sql now session run bs observed truncated completed
            (p @ ''/'' @ (case run of RunId u \<Rightarrow> render u) @ ''.capture'')) r)"

definition persisted_raw_protocol_capture ::
  "bool \<Rightarrow> session_id \<Rightarrow> run_id \<Rightarrow> storage_runtime \<Rightarrow> (storage_failure + persisted_raw_capture option) \<times> storage_runtime" where
  "persisted_raw_protocol_capture sql session run = with_ready_session_store (reading (raw_protocol_capture sql session run))"

section \<open>The storage as a state machine\<close>

text \<open>
  What no operation on a database breaks: the consistency of its tables, the stored events and the
  schema.
\<close>

definition db_grows :: "database \<Rightarrow> database \<Rightarrow> bool" where
  "db_grows db db' \<longleftrightarrow>
     (projects_ok db \<longrightarrow> projects_ok db') \<and> (store_ok db \<longrightarrow> store_ok db') \<and>
     set (db_events db) \<subseteq> set (db_events db') \<and> db_versions db' = db_versions db"

lemma db_grows_refl [simp, intro]: "db_grows db db"
  by (simp add: db_grows_def)

lemma db_grows_trans: "db_grows a b \<Longrightarrow> db_grows b c \<Longrightarrow> db_grows a c"
  by (auto simp: db_grows_def)

lemma projects_ok_cong:
  "db_projects db' = db_projects db \<Longrightarrow> db_roots db' = db_roots db \<Longrightarrow> projects_ok db' = projects_ok db"
  by (simp add: projects_ok_def project_exists_def roots_of_def)

lemma store_ok_projects_grow:
  assumes "store_ok db" "pj_id ` set (db_projects db) \<subseteq> pj_id ` set (db_projects db')"
    "db_sessions db' = db_sessions db" "db_runs db' = db_runs db" "db_events db' = db_events db" "db_raw db' = db_raw db"
  shows "store_ok db'"
  using assms by (auto simp: store_ok_def events_ok_def project_exists_def session_exists_def run_exists_def)

lemma db_grows_other_tables:
  assumes "db_projects db' = db_projects db" "db_roots db' = db_roots db" "db_sessions db' = db_sessions db"
    "db_runs db' = db_runs db" "db_events db' = db_events db" "db_raw db' = db_raw db" "db_versions db' = db_versions db"
  shows "db_grows db db'"
proof -
  have "store_ok db'" if "store_ok db" by (rule store_ok_projects_grow [OF that]) (simp_all add: assms)
  then show ?thesis using projects_ok_cong [OF assms(1,2)] assms(5,7) by (simp add: db_grows_def)
qed

lemma store_exec_grows: "db_grows db (store_exec op db)"
proof -
  have "db_projects (store_exec op db) = db_projects db \<and> db_roots (store_exec op db) = db_roots db \<and>
      db_versions (store_exec op db) = db_versions db"
    by (cases op) (simp_all add: upsert_session_def update_session_state_def start_run_def finish_run_def append_event_def
        upsert_raw_protocol_capture_def recover_interrupted_work_def Let_def split: prod.split)
  moreover from this have "projects_ok (store_exec op db) = projects_ok db" by (intro projects_ok_cong) simp_all
  moreover have "set (db_events db) \<subseteq> set (db_events (store_exec op db))" using exec_events [of op db] by auto
  ultimately show ?thesis by (simp add: db_grows_def store_exec_ok)
qed

lemma store_run_grows: "db_grows db (fold store_exec ops db)"
proof (induction ops arbitrary: db)
  case (Cons op ops)
  then show ?case using db_grows_trans [OF store_exec_grows Cons] by simp
qed simp

lemmas store_grows =
  store_exec_grows [of _ "OpUpsertSession sql now p k m st t x" for sql now p k m st t x, simplified]
  store_exec_grows [of _ "OpUpdateState sql now x st" for sql now x st, simplified]
  store_exec_grows [of _ "OpStartRun sql now x s pid i c" for sql now x s pid i c, simplified]
  store_exec_grows [of _ "OpFinishRun sql now x st e rec" for sql now x st e rec, simplified]
  store_exec_grows [of _ "OpAppendEvent sql e" for sql e, simplified]
  store_exec_grows [of _ "OpRawCapture sql now s x bs ob tr co path" for sql now s x bs ob tr co path, simplified]
  store_exec_grows [of _ "OpRecover sql now" for sql now, simplified]

lemma registration_grows: "db_grows db (snd (upsert_project_registration sql now p name roots db))"
proof (cases "fst (upsert_project_registration sql now p name roots db)")
  case (Inl e)
  then show ?thesis by (auto simp: upsert_project_registration_def Let_def split: if_splits sum.splits)
next
  case (Inr q)
  let ?found = "find (\<lambda>c. roots_of db c = roots) (candidates p roots db)"
  obtain db' where run: "upsert_project_registration sql now p name roots db = (Inr q, db')" using Inr by (metis prod.collapse)
  have q: "q = (case ?found of Some c \<Rightarrow> c | None \<Rightarrow> p)" and up: "upsert_project_in_transaction now q name roots db = Inr db'"
    using run by (auto simp: upsert_project_registration_def Let_def split: if_splits sum.splits)
  note f = upsert_project_facts [OF up]
  have "projects_ok db'" if ok: "projects_ok db"
    by (rule upsert_project_ok [OF ok up]) (use owner_is_found [OF ok] q in simp)
  moreover have "store_ok db'" if "store_ok db"
    by (rule store_ok_projects_grow [OF that]) (use f(4,8-11) in auto)
  moreover have "db_versions db' = db_versions db"
    using up by (auto simp: upsert_project_in_transaction_def Let_def split: if_splits)
  ultimately show ?thesis using run f(10) by (simp add: db_grows_def)
qed

lemma favorite_grows: "db_grows db (snd (set_project_favorite sql now p favorite db))"
proof -
  let ?db = "snd (set_project_favorite sql now p favorite db)"
  have ids: "map pj_id (db_projects ?db) = map pj_id (db_projects db)"
    by (auto simp: set_project_favorite_def Let_def update_where_keys)
  have rest: "db_roots ?db = db_roots db" "db_sessions ?db = db_sessions db" "db_runs ?db = db_runs db"
    "db_events ?db = db_events db" "db_raw ?db = db_raw db" "db_versions ?db = db_versions db"
    by (auto simp: set_project_favorite_def Let_def)
  have ids': "pj_id ` set (db_projects ?db) = pj_id ` set (db_projects db)" using ids by (metis set_map)
  have "projects_ok ?db = projects_ok db"
    using ids ids' rest by (simp add: projects_ok_def project_exists_def roots_of_def)
  then show ?thesis using store_ok_projects_grow [of db ?db] ids' rest by (simp add: db_grows_def)
qed

lemma table_grows:
  "db_grows db (snd (save_window_layout valid_json sql now p window_key layout_json db))"
  "db_grows db (snd (save_setting sql now scope reference key value_json db))"
  "db_grows db (snd (register_terminal_tab sql now t p kind title st db))"
  "db_grows db (snd (append_terminal_segment sql now segment t a b n path db))"
  "db_grows db (snd (prune_terminal_segments sql t m db))"
  "db_grows db (snd (update_terminal_state sql t st db))"
  by (rule db_grows_other_tables;
      simp add: save_window_layout_def save_setting_def register_terminal_tab_def append_terminal_segment_def
        prune_terminal_segments_def update_terminal_state_def Let_def)+

text \<open>Growing operations, alone and in sequence, on ready storage.\<close>

definition file_ok :: "database_file \<Rightarrow> bool" where
  "file_ok f \<longleftrightarrow> (case f of None \<Rightarrow> True | Some (_, db) \<Rightarrow> projects_ok db \<and> store_ok db \<and> (\<exists>n \<le> 3. db_versions db = [1..int n]))"

definition runtime_ok :: "storage_runtime \<Rightarrow> bool" where
  "runtime_ok r \<longleftrightarrow>
     file_ok (rt_file r) \<and>
     (case rt_state r of
        StorageReady ready \<Rightarrow>
          rd_key ready \<noteq> None \<and> rt_file r = Some (the (rd_key ready), rd_database ready) \<and> db_versions (rd_database ready) = [1, 2, 3]
      | _ \<Rightarrow> True)"

definition stored_events :: "database_file \<Rightarrow> event_envelope set" where
  "stored_events f = set (db_events (file_database f))"

text \<open>What is kept from one file to a later one: the events and the key.\<close>

definition file_kept :: "database_file \<Rightarrow> database_file \<Rightarrow> bool" where
  "file_kept f f' \<longleftrightarrow> stored_events f \<subseteq> stored_events f' \<and> (f \<noteq> None \<longrightarrow> f' \<noteq> None \<and> fst (the f') = fst (the f))"

lemma file_kept_refl [simp, intro]: "file_kept f f"
  by (simp add: file_kept_def)

lemma file_kept_trans: "file_kept f g \<Longrightarrow> file_kept g h \<Longrightarrow> file_kept f h"
  by (auto simp: file_kept_def)

definition keeps_runtime :: "storage_runtime \<Rightarrow> storage_runtime \<Rightarrow> bool" where
  "keeps_runtime r r' \<longleftrightarrow> (runtime_ok r \<longrightarrow> runtime_ok r' \<and> file_kept (rt_file r) (rt_file r'))"

lemma put_database_keeps:
  assumes "rt_state r = StorageReady ready" "db_grows (rd_database ready) db"
  shows "keeps_runtime r (put_database ready db r)"
proof -
  have small: "[1..3] = [1, 2, 3 :: int]" by code_simp
  show ?thesis using assms small
    by (auto simp: keeps_runtime_def runtime_ok_def put_database_def file_ok_def file_kept_def stored_events_def
        file_database_def db_grows_def intro!: exI [of _ 3])
qed

lemma keeps_runtime_refl [simp, intro]: "keeps_runtime r r"
  by (simp add: keeps_runtime_def)

lemma with_ready_database_keeps:
  assumes "\<And>db. db_grows db (snd (operation db))"
  shows "keeps_runtime r (snd (with_ready_database operation r))"
  using assms put_database_keeps [of r] by (auto simp: with_ready_database_def split: storage_state.splits prod.splits)
    (metis snd_conv)

lemma with_ready_session_store_keeps:
  assumes "\<And>db. db_grows db (snd (operation db))"
  shows "keeps_runtime r (snd (with_ready_session_store operation r))"
  using assms put_database_keeps [of r] by (auto simp: with_ready_session_store_def split: storage_state.splits prod.splits)
    (metis snd_conv)

lemma reading_grows [simp]: "db_grows db (snd (reading f db))"
  by (simp add: reading_def)

lemma then_grows:
  assumes "\<And>db. db_grows db (snd (f db))" "\<And>db. db_grows db (snd (g db))"
  shows "db_grows db (snd (case f db of (Inl e, db) \<Rightarrow> (Inl e, db) | (Inr _, db) \<Rightarrow> g db))"
proof -
  obtain r db' where f: "f db = (r, db')" by fastforce
  have "db_grows db db'" using assms(1) [of db] f by simp
  then show ?thesis using f assms(2) [of db'] by (cases r) (auto intro: db_grows_trans)
qed

lemma versions_simps: "[1..3] = [1, 2, 3 :: int]"
  by code_simp

lemma file_database_ok:
  assumes "file_ok f"
  obtains n where "n \<le> 3" "db_versions (file_database f) = [1..int n]" "projects_ok (file_database f)" "store_ok (file_database f)"
proof (cases f)
  case None
  then show ?thesis using that [of 0]
    by (simp add: file_database_def new_database_def projects_ok_def roots_of_def store_ok_def events_ok_def)
next
  case (Some x)
  then show ?thesis using assms that by (auto simp: file_ok_def file_database_def split: prod.splits)
qed

lemma migrate_file_keeps:
  assumes "file_ok f" "migrate_file d (file_database f) = (r, db)"
  shows "file_ok (Some (key, db))" "db = file_database f\<lparr>db_versions := db_versions db\<rparr>"
    "r = Inr () \<Longrightarrow> db_versions db = [1, 2, 3]"
proof -
  obtain n where n: "n \<le> 3" "db_versions (file_database f) = [1..int n]" and ok: "projects_ok (file_database f)" "store_ok (file_database f)"
    using file_database_ok [OF assms(1)] .
  obtain versions where m: "migrate (od_commits d) (db_versions (file_database f)) = (r, versions)"
    and db: "db = file_database f\<lparr>db_versions := versions\<rparr>"
    using assms(2) by (auto simp: migrate_file_def split: prod.splits)
  obtain k where k: "k \<le> 3" "versions = [1..int k]" "r = Inr () \<longleftrightarrow> k = 3" using migrate_outcome [OF n(2,1) m] by blast
  have "projects_ok db" using ok(1) projects_ok_cong [of db "file_database f"] by (simp add: db)
  moreover have "store_ok db" by (rule store_ok_projects_grow [OF ok(2)]) (simp_all add: db)
  moreover have "db_versions db = [1..int k]" by (simp add: db k)
  ultimately show "file_ok (Some (key, db))" using k(1) by (auto simp: file_ok_def)
  show "db = file_database f\<lparr>db_versions := db_versions db\<rparr>" by (simp add: db)
  show "r = Inr () \<Longrightarrow> db_versions db = [1, 2, 3]" using k by (simp add: db versions_simps)
qed

lemma database_open_keeps:
  assumes "file_ok f" "database_open wal_path d key f = (r, f')"
  shows "file_ok f' \<and> file_kept f f' \<and>
    (\<forall>db. r = Inr db \<longrightarrow> key_matches key f \<and> f' = Some (key, db) \<and> db = file_database f\<lparr>db_versions := [1, 2, 3]\<rparr>)"
proof (cases "f' = f \<and> (\<exists>e. r = Inl e)")
  case True
  then show ?thesis using assms(1) by auto
next
  case False
  then obtain r' db where key: "key_matches key f" and m: "migrate_file d (file_database f) = (r', db)" and f': "f' = Some (key, db)"
    and r: "r = Inr db' \<Longrightarrow> r' = Inr () \<and> db' = db" for db'
    using assms(2) by (auto simp: database_open_def split: if_splits sum.splits prod.splits)
  note keeps = migrate_file_keeps [OF assms(1) m]
  have "stored_events f \<subseteq> stored_events f'"
    unfolding stored_events_def f' by (subst (2) file_database_def, simp, subst keeps(2), simp)
  moreover have "fst (the f') = fst (the f)" if "f \<noteq> None" using that key by (auto simp: f' key_matches_def)
  moreover have "db' = file_database f\<lparr>db_versions := [1, 2, 3]\<rparr>" if "r = Inr db'" for db'
    using keeps(2) keeps(3) r [OF that] by simp
  ultimately show ?thesis using keeps(1) [of key] key r by (auto simp: f' file_kept_def)
qed

lemma open_persistent_keeps:
  assumes "file_ok f" "open_persistent_database d key f = (r, f')"
  shows "file_ok f' \<and> file_kept f f' \<and>
    (\<forall>ready. r = Inr ready \<longrightarrow> key_matches key f \<and> rd_key ready = Some key \<and> f' = Some (key, rd_database ready) \<and>
       rd_database ready = snd (recover_interrupted_work True (pd_now d) (file_database f\<lparr>db_versions := [1, 2, 3]\<rparr>)))"
proof (cases "f \<noteq> None \<and> \<not> pd_backup d")
  case True
  then show ?thesis using assms by (auto simp: open_persistent_database_def)
next
  case opened: False
  obtain q f1 where op: "database_open (pd_wal_path d) (pd_open d) key f = (q, f1)" by fastforce
  note o = database_open_keeps [OF assms(1) op]
  show ?thesis
  proof (cases q)
    case (Inl e)
    then have "f' = f1 \<and> r = Inl (RuntimeStorage e)" using assms(2) op opened by (auto simp: open_persistent_database_def)
    then show ?thesis using o by simp
  next
    case (Inr db)
    then have key: "key_matches key f" and f1: "f1 = Some (key, db)" and db: "db = file_database f\<lparr>db_versions := [1, 2, 3]\<rparr>"
      using o by auto
    define db' where "db' = snd (recover_interrupted_work True (pd_now d) db)"
    have result: "if pd_recovers d then f' = Some (key, db') \<and> r = Inr \<lparr>rd_database = db', rd_key = Some key\<rparr>
        else f' = f1 \<and> r = Inl (RuntimeStorage StorageSql)"
      using assms(2) op opened Inr
      by (auto simp: open_persistent_database_def ready_database_def recover_interrupted_work_def db'_def)
    show ?thesis
    proof (cases "pd_recovers d")
      case False
      then show ?thesis using result o by simp
    next
      case True
      then have f': "f' = Some (key, db')" and r: "r = Inr \<lparr>rd_database = db', rd_key = Some key\<rparr>" using result by auto
      have grows: "db_grows db db'" unfolding db'_def by (rule store_grows(7))
      have "file_kept f1 f'" using grows by (simp add: file_kept_def stored_events_def file_database_def f1 f' db_grows_def)
      then have "file_kept f f'" using o file_kept_trans by blast
      moreover have "file_ok f'" using o grows by (auto simp: file_ok_def f1 f' db_grows_def)
      ultimately show ?thesis using key by (simp add: r f' db'_def db)
    qed
  qed
qed

text \<open>
  The steps: one of the daemon's operations with any outcome, an attempt to unlock, or the end of the
  daemon at any moment and a new start on the file that it leaves.
\<close>

inductive runtime_step :: "storage_runtime \<Rightarrow> storage_runtime \<Rightarrow> bool" where
  step_register: "runtime_step r (snd (rt_upsert_project_registration sql now p name roots r))"
| step_recent: "runtime_step r (snd (rt_recent_projects sql limit r))"
| step_favorite: "runtime_step r (snd (rt_set_project_favorite sql now p favorite r))"
| step_layout: "runtime_step r (snd (rt_save_window_layout valid_json sql now p window_key layout_json r))"
| step_setting: "runtime_step r (snd (rt_save_setting sql now scope reference key value_json r))"
| step_terminal: "runtime_step r (snd (rt_register_terminal sql now p t kind title r))"
| step_terminal_state: "runtime_step r (snd (rt_update_terminal_state sql t st r))"
| step_segment: "runtime_step r (fst (snd (persist_terminal_segment cipher render sd t start_seq end_seq bs r s)))"
| step_start: "runtime_step r (snd (start_session_run sql sql' now p session run pid title invocation r))"
| step_start_tui: "runtime_step r (snd (start_tui_session_run sql sql' now p session run pid title invocation r))"
| step_event: "runtime_step r (snd (rt_persist_event sql e r))"
| step_state: "runtime_step r (snd (rt_update_session_state sql now session state r))"
| step_finish: "runtime_step r (snd (finish_session_run sql sql' now session run state exit_info recovery r))"
| step_capture: "runtime_step r (snd (persist_raw_protocol_capture render directory sql now session run bs observed tr co r))"
| step_unlock: "runtime_step r (snd (unlock passphrase loaded d r))"
| step_restart: "initialize_runtime False envelope os_key linux d (rt_file r) = Inr r' \<Longrightarrow> runtime_step r r'"

lemma with_ready_step_keeps:
  "keeps_runtime r (snd (rt_upsert_project_registration sql now p name roots r))"
  "keeps_runtime r (snd (rt_recent_projects sql limit r))"
  "keeps_runtime r (snd (rt_set_project_favorite sql now p favorite r))"
  "keeps_runtime r (snd (rt_save_window_layout valid_json sql now p window_key layout_json r))"
  "keeps_runtime r (snd (rt_save_setting sql now scope reference key value_json r))"
  "keeps_runtime r (snd (rt_register_terminal sql now p t kind title r))"
  "keeps_runtime r (snd (rt_update_terminal_state sql t st r))"
  "keeps_runtime r (snd (start_session_run sql sql' now p session run pid title invocation r))"
  "keeps_runtime r (snd (start_tui_session_run sql sql' now p session run pid title invocation r))"
  "keeps_runtime r (snd (rt_persist_event sql e r))"
  "keeps_runtime r (snd (rt_update_session_state sql now session state r))"
  "keeps_runtime r (snd (finish_session_run sql sql' now session run state exit_info recovery r))"
  unfolding rt_upsert_project_registration_def rt_recent_projects_def rt_set_project_favorite_def rt_save_window_layout_def
    rt_save_setting_def rt_register_terminal_def rt_update_terminal_state_def start_session_run_def start_tui_session_run_def
    start_session_run_with_mode_def rt_persist_event_def rt_update_session_state_def finish_session_run_def
  by ((rule with_ready_database_keeps with_ready_session_store_keeps),
      (rule registration_grows favorite_grows table_grows store_grows reading_grows then_grows store_grows)+)+

lemma capture_keeps:
  "keeps_runtime r (snd (persist_raw_protocol_capture render directory sql now session run bs observed tr co r))"
  by (cases directory)
    (auto simp: persist_raw_protocol_capture_def intro!: with_ready_session_store_keeps store_grows(6))

lemma segment_row_grows:
  "append_terminal_segment sql now segment t a b n path db = (res, db') \<Longrightarrow> db_grows db db'"
  "append_terminal_segment sql now segment t a b n path db = (res, db') \<Longrightarrow>
   prune_terminal_segments sql' t m db' = (res', db'') \<Longrightarrow> db_grows db db''"
  using table_grows(4) [of db sql now segment t a b n path] table_grows(5) [of db' sql' t m] by (auto intro: db_grows_trans)

lemma segment_keeps:
  "keeps_runtime r (fst (snd (persist_terminal_segment cipher render sd t start_seq end_seq bs r s)))"
  unfolding persist_terminal_segment_def Let_def
  by (auto split: sum.split storage_state.split option.split prod.split
      intro!: put_database_keeps intro: segment_row_grows)

lemma unlock_keeps: "keeps_runtime r (snd (unlock passphrase loaded d r))"
proof (cases "\<exists>mode key. rt_state r = StoragePassphraseRequired mode \<and> passphrase \<noteq> [] \<and> loaded = Inr key")
  case False
  then have "snd (unlock passphrase loaded d r) = r"
    by (auto simp: unlock_def split: storage_state.splits sum.splits)
  then show ?thesis by simp
next
  case True
  then obtain mode key where st: "rt_state r = StoragePassphraseRequired mode" and "passphrase \<noteq> []" "loaded = Inr key" by blast
  obtain res f' where op: "open_persistent_database d key (rt_file r) = (res, f')" by fastforce
  have "runtime_ok (snd (unlock passphrase loaded d r)) \<and> file_kept (rt_file r) (rt_file (snd (unlock passphrase loaded d r)))"
    if "runtime_ok r"
  proof -
    have "file_ok (rt_file r)" using that by (simp add: runtime_ok_def)
    note o = open_persistent_keeps [OF this op]
    show ?thesis
    proof (cases res)
      case (Inl e)
      then show ?thesis using o st op \<open>passphrase \<noteq> []\<close> \<open>loaded = Inr key\<close> by (simp add: unlock_def runtime_ok_def)
    next
      case (Inr ready)
      then have ok: "file_ok f'" "file_kept (rt_file r) f'" and f': "rd_key ready = Some key" "f' = Some (key, rd_database ready)"
        and "db_versions (rd_database ready) = [1, 2, 3]"
        using o by (auto simp: recover_interrupted_work_def)
      moreover have "snd (unlock passphrase loaded d r) = r\<lparr>rt_state := StorageReady ready, rt_file := f'\<rparr>"
        using Inr st op \<open>passphrase \<noteq> []\<close> \<open>loaded = Inr key\<close> by (simp add: unlock_def)
      ultimately show ?thesis by (simp add: runtime_ok_def)
    qed
  qed
  then show ?thesis by (simp add: keeps_runtime_def)
qed

lemma restart_keeps:
  assumes "initialize_runtime False envelope os_key linux d (rt_file r) = Inr r'"
  shows "keeps_runtime r r'"
proof (cases "envelope \<or> os_key = None")
  case True
  then show ?thesis using assms
    by (auto simp: initialize_runtime_def initialize_persistent_def keeps_runtime_def runtime_ok_def split: option.splits if_splits)
next
  case False
  then obtain key where key: "os_key = Some key" by auto
  obtain res f' where op: "open_persistent_database d key (rt_file r) = (res, f')" by fastforce
  have r': "r' = \<lparr>rt_ephemeral = False, rt_state = (case res of Inl _ \<Rightarrow> StorageUnavailable | Inr ready \<Rightarrow> StorageReady ready), rt_file = f'\<rparr>"
    using assms False op key by (auto simp: initialize_runtime_def initialize_persistent_def split: sum.splits)
  show ?thesis unfolding keeps_runtime_def
  proof
    assume "runtime_ok r"
    then have "file_ok (rt_file r)" by (simp add: runtime_ok_def)
    from open_persistent_keeps [OF this op] have "file_ok f'" "file_kept (rt_file r) f'"
      and "res = Inr ready \<Longrightarrow> rd_key ready = Some key \<and> f' = Some (key, rd_database ready) \<and> db_versions (rd_database ready) = [1, 2, 3]"
      for ready by (auto simp: recover_interrupted_work_def)
    then show "runtime_ok r' \<and> file_kept (rt_file r) (rt_file r')" by (cases res) (simp_all add: r' runtime_ok_def)
  qed
qed

lemma runtime_step_keeps: "runtime_step r r' \<Longrightarrow> keeps_runtime r r'"
  by (induction rule: runtime_step.induct) (rule with_ready_step_keeps capture_keeps segment_keeps unlock_keeps restart_keeps | assumption)+

lemma runtime_steps_keep:
  assumes "runtime_step\<^sup>*\<^sup>* r r'" "runtime_ok r"
  shows "runtime_ok r' \<and> file_kept (rt_file r) (rt_file r')"
  using assms(1)
proof induction
  case (step r' r'')
  then show ?case using runtime_step_keeps [OF step(2)] file_kept_trans by (auto simp: keeps_runtime_def)
qed (use assms(2) in simp)

section \<open>Properties\<close>


definition good_draws :: persistent_draws where
  "good_draws = \<lparr>pd_wal_path = [], pd_backup = True,
     pd_open = \<lparr>od_wal = Inr None, od_probe_opens = True, od_directory = True, od_opens = True, od_sqlcipher = True,
                od_commits = (\<lambda>_. True), od_restricts = True\<rparr>, pd_recovers = True, pd_now = 7\<rparr>"

definition locked_runtime :: "database_file \<Rightarrow> storage_runtime" where
  "locked_runtime f = \<lparr>rt_ephemeral = False, rt_state = StoragePassphraseRequired UnlockExisting, rt_file = f\<rparr>"

definition stored_file :: database_file where
  "stored_file = Some ([9], fold store_exec (butlast sample_ops) sample_store)"

lemma stored_file_ok: "runtime_ok (locked_runtime stored_file)"
proof -
  let ?db = "fold store_exec (butlast sample_ops) sample_store"
  have "projects_ok sample_store" by (simp add: projects_ok_def sample_store_def empty_database_def roots_of_def)
  moreover have "db_versions sample_store = [1..int 3]" by (simp add: sample_store_def empty_database_def versions_simps)
  ultimately have "projects_ok ?db" "store_ok ?db" "db_versions ?db = [1..int 3]"
    using store_run_grows [of sample_store "butlast sample_ops"] sample_store_ok by (auto simp: db_grows_def)
  then show ?thesis by (auto simp: runtime_ok_def locked_runtime_def file_ok_def stored_file_def)
qed


lemma locked_refuses:
  assumes "rt_state x = StoragePassphraseRequired m"
  shows "rt_persist_event sql e x = (Inl RuntimeUnavailable, x)"
    "rt_upsert_project_registration sql now p name roots x = (Inl RuntimeUnavailable, x)"
    "snd (persist_raw_protocol_capture render directory sql now session run_id bs observed tr co x) = x"
    "snd (persist_terminal_segment cipher render sd t start_seq end_seq bs x s) = (x, s)"
proof -
  show "rt_persist_event sql e x = (Inl RuntimeUnavailable, x)"
    by (simp add: rt_persist_event_def with_ready_session_store_def assms)
  show "rt_upsert_project_registration sql now p name roots x = (Inl RuntimeUnavailable, x)"
    by (simp add: rt_upsert_project_registration_def with_ready_database_def assms)
  show "snd (persist_raw_protocol_capture render directory sql now session run_id bs observed tr co x) = x"
    by (cases directory) (simp_all add: persist_raw_protocol_capture_def with_ready_session_store_def assms)
  show "snd (persist_terminal_segment cipher render sd t start_seq end_seq bs x s) = (x, s)"
    by (cases "sw_directory sd") (simp_all add: persist_terminal_segment_def Let_def assms)
qed

text \<open>
  C32. Unlocking. On locked storage, an attempt succeeds exactly when it makes the storage ready, which
  needs the key that the file was written with; then nothing is left marked as running that could not
  have survived, and every stored event is still there. A failed attempt leaves the storage locked, asks
  for the existing passphrase or as before, and keeps every stored event. The operations of a daemon
  whose storage is not ready are refused and change nothing, also a capture and a terminal segment.
\<close>

theorem unlock_outcome:
  assumes "runtime_ok r" "rt_state r = StoragePassphraseRequired mode" and run: "unlock passphrase loaded d r = (res, r')"
  shows "(res = Inr () \<longleftrightarrow> fst (storage_snapshot True r') = StatusReady) \<and> stored_events (rt_file r) \<subseteq> stored_events (rt_file r') \<and>
    (res = Inr () \<longrightarrow> (\<exists>key. loaded = Inr key \<and> key_matches key (rt_file r)) \<and>
       list_all (\<lambda>s. \<not> interruptible_session s) (db_sessions (file_database (rt_file r'))) \<and>
       list_all (\<lambda>s. \<not> interruptible_run s) (db_runs (file_database (rt_file r')))) \<and>
    (res \<noteq> Inr () \<longrightarrow> rt_state r' \<in> {StoragePassphraseRequired mode, StoragePassphraseRequired UnlockExisting} \<and>
       rt_persist_event sql e r' = (Inl RuntimeUnavailable, r') \<and>
       rt_upsert_project_registration sql now p name roots r' = (Inl RuntimeUnavailable, r') \<and>
       snd (persist_raw_protocol_capture render directory sql now session run_id bs observed tr co r') = r' \<and>
       snd (persist_terminal_segment cipher render sd t start_seq end_seq bs r' s) = (r', s))"
proof -
  have fok: "file_ok (rt_file r)" using assms(1) by (simp add: runtime_ok_def)
  show ?thesis
  proof (cases "passphrase \<noteq> [] \<and> is_ok loaded")
    case False
    then have res: "res \<noteq> Inr ()" "r' = r" using run assms(2) by (auto simp: unlock_def split: if_splits sum.splits)
    show ?thesis using locked_refuses [OF assms(2)] res(1) assms(2) by (simp add: res(2) storage_snapshot_def)
  next
    case True
    then obtain key where key: "loaded = Inr key" "passphrase \<noteq> []" by (cases loaded) auto
    obtain q f' where op: "open_persistent_database d key (rt_file r) = (q, f')" by fastforce
    note o = open_persistent_keeps [OF fok op]
    show ?thesis
    proof (cases q)
      case (Inl err)
      then have res: "res \<noteq> Inr ()" "rt_state r' = StoragePassphraseRequired UnlockExisting" "rt_file r' = f'"
        using run assms(2) key op by (auto simp: unlock_def)
      have "stored_events (rt_file r) \<subseteq> stored_events (rt_file r')" using o res(3) by (simp add: file_kept_def)
      then show ?thesis using locked_refuses [OF res(2)] res(1) by (simp add: storage_snapshot_def res(2))
    next
      case (Inr ready)
      then have matches: "key_matches key (rt_file r)" and f': "f' = Some (key, rd_database ready)"
        and db: "rd_database ready = snd (recover_interrupted_work True (pd_now d) (file_database (rt_file r)\<lparr>db_versions := [1, 2, 3]\<rparr>))"
        using o by blast+
      have res: "res = Inr ()" "rt_state r' = StorageReady ready" "rt_file r' = Some (key, rd_database ready)"
        using run assms(2) key op Inr f' by (auto simp: unlock_def)
      obtain s where "recover_interrupted_work True (pd_now d) (file_database (rt_file r)\<lparr>db_versions := [1, 2, 3]\<rparr>) = (s, rd_database ready)"
        using db by (metis prod.collapse)
      note recovered = recovery_interrupts(1,2) [OF this]
      have "stored_events (rt_file r) \<subseteq> stored_events (rt_file r')" using o by (simp add: file_kept_def f' res(3))
      then show ?thesis using res(1) recovered key(1) matches by (simp add: storage_snapshot_def res file_database_def)
    qed
  qed
qed

lemma stored_file_contents:
  "db_versions (file_database stored_file) = [1, 2, 3]" "map se_state (db_sessions (file_database stored_file)) = [Starting]"
  by (simp_all add: stored_file_def file_database_def sample_ops_def sample_store_def empty_database_def upsert_session_def
      upsert_def session_exists_def project_exists_def start_run_def run_exists_def)

lemma stored_file_opens:
  "database_open [] (pd_open good_draws) [9] stored_file =
     (Inr (file_database stored_file\<lparr>db_versions := [1, 2, 3]\<rparr>), Some ([9], file_database stored_file\<lparr>db_versions := [1, 2, 3]\<rparr>))"
  "database_open [] (pd_open good_draws) [8] stored_file = (Inl StorageSql, stored_file)"
proof -
  obtain db where f: "stored_file = Some ([9], db)" "file_database stored_file = db" by (simp add: stored_file_def file_database_def)
  then have v: "db_versions db = [1, 2, 3]" using stored_file_contents by simp
  show "database_open [] (pd_open good_draws) [9] stored_file =
     (Inr (file_database stored_file\<lparr>db_versions := [1, 2, 3]\<rparr>), Some ([9], file_database stored_file\<lparr>db_versions := [1, 2, 3]\<rparr>))"
    by (simp add: f database_open_def good_draws_def probe_schema_compatibility_def key_matches_def migrate_file_def v
        migrate_def reject_future_schema_def latest_version_def CURRENT_SCHEMA_VERSION_def apply_migration_def
        file_database_def)
  show "database_open [] (pd_open good_draws) [8] stored_file = (Inl StorageSql, stored_file)"
    by (simp add: f database_open_def good_draws_def probe_schema_compatibility_def key_matches_def)
qed

theorem unlock_outcome_witness:
  "fst (storage_snapshot True (snd (unlock ''p'' (Inr [9]) good_draws (locked_runtime stored_file)))) = StatusReady \<and>
   map se_state (db_sessions (file_database (rt_file (snd (unlock ''p'' (Inr [9]) good_draws (locked_runtime stored_file))))))
     = [Interrupted] \<and>
   fst (storage_snapshot True (snd (unlock ''p'' (Inr [8]) good_draws (locked_runtime stored_file)))) \<noteq> StatusReady"
proof -
  let ?u = "\<lambda>k. unlock ''p'' (Inr [k]) good_draws (locked_runtime stored_file)"
  obtain s where s: "se_state s = Starting" "db_sessions (file_database stored_file) = [s]"
    using stored_file_contents(2) by auto
  have good: "fst (?u 9) = Inr ()" "map se_state (db_sessions (file_database (rt_file (snd (?u 9))))) = [Interrupted]"
    using stored_file_opens(1) s
    by (simp_all add: unlock_def locked_runtime_def open_persistent_database_def good_draws_def ready_database_def
        recover_interrupted_work_def file_database_def update_where_def interruptible_session_def INTERRUPTED_STATES_def)
  have bad: "fst (?u 8) = Inl (RuntimeStorage StorageSql)"
    using stored_file_opens(2) by (simp add: unlock_def locked_runtime_def open_persistent_database_def good_draws_def)
  have st: "rt_state (locked_runtime stored_file) = StoragePassphraseRequired UnlockExisting" by (simp add: locked_runtime_def)
  have "fst (?u k) = Inr () \<longleftrightarrow> fst (storage_snapshot True (snd (?u k))) = StatusReady" for k
    using unlock_outcome [OF stored_file_ok st, of "''p''" "Inr [k]" good_draws "fst (?u k)" "snd (?u k)"] by simp
  then show ?thesis using good bad by (metis Inl_Inr_False)
qed

end
