(* ===== verification/Project_Manager.thy ===== *)
theory Project_Manager
  imports Project_Listing Git_Output Protocol_Types
begin

text \<open>
  The daemon's registered projects, \<^verbatim>\<open>crates/maestrod/src/project.rs\<close>: registration, and the requests
  on a project, which go to the directory, file, search and Git services of its roots and whose results
  become protocol messages. The services of a project differ only in their roots, so a project is its
  roots. The locks of the code are never poisoned in the sequential model.
\<close>

section \<open>Paths as text\<close>

text \<open>\<^verbatim>\<open>Path::new(s).components()\<close> and \<^verbatim>\<open>Path::to_string_lossy\<close>.\<close>

definition parse_path :: "string \<Rightarrow> path" where
  "parse_path s =
     (let parts = split_all (CHR ''/'') s; names = filter (\<lambda>c. c \<noteq> [] \<and> c \<noteq> ''.'') parts
      in case s of
           [] \<Rightarrow> []
         | c # _ \<Rightarrow> if c = CHR ''/'' then ''/'' # names else if hd parts = ''.'' then ''.'' # names else names)"

fun join_names :: "string list \<Rightarrow> string" where
  "join_names [] = []"
| "join_names [c] = c"
| "join_names (c # cs) = c @ ''/'' @ join_names cs"

definition render_path :: "path \<Rightarrow> string" where
  "render_path p = (case p of [] \<Rightarrow> [] | c # cs \<Rightarrow> if c = ''/'' then ''/'' @ join_names cs else join_names p)"

definition path_string :: "path \<Rightarrow> string" where
  "path_string p = from_utf8_lossy (text_bytes (render_path p))"

section \<open>Errors\<close>

text \<open>The message of a project error; \<open>kind\<close> renders the kind of an I/O error.\<close>

fun project_error_text :: "(errno \<Rightarrow> string) \<Rightarrow> project_error \<Rightarrow> string" where
  "project_error_text kind EmptyRoots = ''at least one workspace root is required''"
| "project_error_text kind (RootNotAbsolute i) = ''workspace root '' @ decimal i @ '' must be absolute''"
| "project_error_text kind (RootUnavailable i) = ''workspace root '' @ decimal i @ '' is unavailable''"
| "project_error_text kind (RootNotDirectory i) = ''workspace root '' @ decimal i @ '' is not a directory''"
| "project_error_text kind (RootUnreadable i) = ''workspace root '' @ decimal i @ '' is not readable and searchable''"
| "project_error_text kind (DuplicateRoot i j) =
     ''workspace roots '' @ decimal i @ '' and '' @ decimal j @ '' resolve to the same directory''"
| "project_error_text kind (NestedRoots i j) = ''workspace roots '' @ decimal i @ '' and '' @ decimal j @ '' are nested''"
| "project_error_text kind UnauthorizedPath = ''the requested path is outside the authorized workspace roots''"
| "project_error_text kind UnsafePath = ''the requested path traverses a symlink or unsafe component''"
| "project_error_text kind NotDirectory = ''the requested path is not a directory''"
| "project_error_text kind NotRegularFile = ''the requested path is not a regular file''"
| "project_error_text kind BinaryFile = ''the file is binary and cannot be opened as text''"
| "project_error_text kind InvalidUtf8 = ''the file is not valid UTF-8 text''"
| "project_error_text kind (FileTooLarge actual maximum) =
     ''the file has '' @ decimal actual @ '' bytes, exceeding the '' @ decimal maximum @ ''-byte limit''"
| "project_error_text kind FileChangedDuringRead = ''the file changed or was removed while it was being read''"
| "project_error_text kind SaveConflict = ''the file changed after it was opened; save was not performed''"
| "project_error_text kind InvalidLimit = ''the requested operation limit is outside the supported range''"
| "project_error_text kind InvalidRegex = ''the regular expression is invalid''"
| "project_error_text kind GitUnavailable = ''Git is not installed or cannot be launched''"
| "project_error_text kind NotGitRepository = ''the selected directory is not a Git repository''"
| "project_error_text kind GitFailed = ''the installed Git command failed''"
| "project_error_text kind GitOutputTooLarge = ''Git output exceeded the bounded parser limit''"
| "project_error_text kind MalformedGitOutput = ''Git returned malformed machine-readable output''"
| "project_error_text kind (ProjectIo operation e) = ''local '' @ operation @ '' failed with '' @ kind e"

fun project_error_code :: "project_error \<Rightarrow> error_code" where
  "project_error_code UnauthorizedPath = PermissionDenied"
| "project_error_code UnsafePath = PermissionDenied"
| "project_error_code GitUnavailable = CliNotInstalled"
| "project_error_code InvalidLimit = InvalidRequest"
| "project_error_code InvalidRegex = InvalidRequest"
| "project_error_code SaveConflict = Internal"
| "project_error_code FileChangedDuringRead = Internal"
| "project_error_code GitFailed = Internal"
| "project_error_code GitOutputTooLarge = Internal"
| "project_error_code MalformedGitOutput = Internal"
| "project_error_code (ProjectIo _ _) = Internal"
| "project_error_code _ = InvalidPath"

fun project_error_retryable :: "project_error \<Rightarrow> bool" where
  "project_error_retryable SaveConflict = True"
| "project_error_retryable FileChangedDuringRead = True"
| "project_error_retryable (ProjectIo _ _) = True"
| "project_error_retryable _ = False"

definition project_failure :: "(errno \<Rightarrow> string) \<Rightarrow> uuid \<Rightarrow> project_error \<Rightarrow> maestro_error" where
  "project_failure kind cid e =
     (maestro_error_new cid (project_error_code e) (project_error_text kind e))
       \<lparr>err_retryable := project_error_retryable e,
        err_user_action :=
          (if e = SaveConflict then Some ''Reload the file, review the external changes, and try again.'' else None)\<rparr>"

section \<open>The manager\<close>

text \<open>The registered projects, and the cancellation flags of the searches that are running.\<close>

record project_manager =
  pm_projects :: "project_id \<rightharpoonup> workspace_roots"
  pm_searches :: "request_id \<rightharpoonup> bool"

definition project_manager_default :: project_manager where
  "project_manager_default = \<lparr>pm_projects = Map.empty, pm_searches = Map.empty\<rparr>"

text \<open>
  What the requests get from outside: the kernel, the walker, the regular expressions, Git, SHA-256,
  the names of I/O errors, and the drawn correlation identifier, temporary name and cancellations.
\<close>

record project_env =
  pv_kernel :: kernel
  pv_walker :: walker
  pv_engine :: search_engine
  pv_exec :: git_exec
  pv_sha256 :: "bytes \<Rightarrow> file_fingerprint"
  pv_kind :: "errno \<Rightarrow> string"
  pv_cid :: uuid
  pv_temporary :: string
  pv_cancel :: cancellation

definition pv_failure :: "project_env \<Rightarrow> project_error \<Rightarrow> maestro_error" where
  "pv_failure v = project_failure (pv_kind v) (pv_cid v)"

definition project_of :: "project_env \<Rightarrow> project_manager \<Rightarrow> project_id \<Rightarrow> maestro_error + workspace_roots" where
  "project_of v pm p =
     ok_or (maestro_error_new (pv_cid v) PermissionDenied ''The project capability is not registered with the daemon.'')
       (pm_projects pm p)"

text \<open>Running a service on the roots of a project.\<close>

definition on_project ::
  "project_env \<Rightarrow> project_manager \<Rightarrow> project_id \<Rightarrow> (workspace_roots \<Rightarrow> world \<Rightarrow> (project_error + 'a) \<times> world) \<Rightarrow>
   world \<Rightarrow> (maestro_error + 'a) \<times> world" where
  "on_project v pm p f =
     io_bind (io_return (project_of v pm p)) (\<lambda>roots. io_map_err (pv_failure v) (f roots))"

text \<open>Registration; \<open>persist\<close> stores the project and answers its durable identity.\<close>

definition register_with_persistence ::
  "project_env \<Rightarrow> project_id \<Rightarrow> string \<Rightarrow> string list \<Rightarrow>
   (project_registered \<Rightarrow> 's \<Rightarrow> (maestro_error + project_id) \<times> 's) \<Rightarrow> project_manager \<times> 's \<Rightarrow> world \<Rightarrow>
   (maestro_error + project_registered) \<times> (project_manager \<times> 's) \<times> world" where
  "register_with_persistence v p display_name roots persist st w =
     (if str_trim (text_bytes display_name) = [] \<or> length display_name > 512
      then (Inl (maestro_error_new (pv_cid v) InvalidRequest ''The project display name is invalid.''), st, w)
      else (case workspace_roots_new (pv_kernel v) (map parse_path roots) w of
              (Inl e, w) \<Rightarrow> (Inl (pv_failure v e), st, w)
            | (Inr services, w) \<Rightarrow>
                (let registered = \<lparr>pg_project_id = p, pg_display_name = display_name,
                       pg_canonical_roots = map path_string (canonical_roots services)\<rparr>
                 in case persist registered (snd st) of
                      (Inl e, s) \<Rightarrow> (Inl e, (fst st, s), w)
                    | (Inr q, s) \<Rightarrow>
                        (Inr (registered\<lparr>pg_project_id := q\<rparr>),
                         ((fst st)\<lparr>pm_projects := (pm_projects (fst st))(q \<mapsto> services)\<rparr>, s), w))))"

section \<open>Requests on a project\<close>

fun protocol_entry_kind :: "directory_entry_kind \<Rightarrow> project_entry_kind" where
  "protocol_entry_kind EntryDirectory = KindDirectory"
| "protocol_entry_kind EntryFile = KindFile"
| "protocol_entry_kind EntrySymlink = KindSymlink"
| "protocol_entry_kind EntryOther = KindOther"

definition pm_list_directory ::
  "project_env \<Rightarrow> project_manager \<Rightarrow> project_id \<Rightarrow> string \<Rightarrow> u64 \<Rightarrow> nat \<Rightarrow> bool \<Rightarrow> world \<Rightarrow>
   (maestro_error + project_directory_page) \<times> world" where
  "pm_list_directory v pm p directory cursor maximum_entries include_hidden =
     io_bind (on_project v pm p (\<lambda>roots.
        directory_list (pv_kernel v) (pv_walker v) roots (parse_path directory) cursor
          \<lparr>lo_maximum_entries = maximum_entries, lo_include_hidden = include_hidden\<rparr>)) (\<lambda>page.
       io_return (Inr \<lparr>pdp_directory = path_string (dg_directory page),
         pdp_entries = map (\<lambda>e. \<lparr>pe_path = path_string (de_path e), pe_display_name = de_display_name e,
                                  pe_kind = protocol_entry_kind (de_kind e), pe_bytes = de_bytes e\<rparr>) (dg_entries page),
         pdp_next_cursor = dg_next_cursor page\<rparr>))"

definition pm_read_file ::
  "project_env \<Rightarrow> project_manager \<Rightarrow> project_id \<Rightarrow> string \<Rightarrow> world \<Rightarrow> (maestro_error + project_text_file) \<times> world" where
  "pm_read_file v pm p file_path =
     io_bind (on_project v pm p (\<lambda>roots. read_text (pv_kernel v) (pv_sha256 v) (file_service_new roots) (parse_path file_path))) (\<lambda>f.
       io_return (Inr \<lparr>ptf_path = path_string (tf_path f), ptf_text = tf_text f, ptf_fingerprint = tf_fingerprint f,
                       ptf_bytes = tf_bytes f\<rparr>))"

definition pm_save_file ::
  "project_env \<Rightarrow> project_manager \<Rightarrow> project_id \<Rightarrow> string \<Rightarrow> string \<Rightarrow> bytes \<Rightarrow> world \<Rightarrow>
   (maestro_error + project_file_saved) \<times> world" where
  "pm_save_file v pm p file_path content expected =
     (if length expected \<noteq> 32
      then io_return (Inl (maestro_error_new (pv_cid v) InvalidRequest ''The file fingerprint is invalid.''))
      else io_bind (on_project v pm p (\<lambda>roots.
          save_text (pv_kernel v) (pv_sha256 v) (file_service_new roots) (pv_temporary v) (parse_path file_path) content expected))
        (\<lambda>saved. io_return (Inr \<lparr>pfs_fingerprint = svr_fingerprint saved, pfs_bytes = svr_bytes saved\<rparr>)))"

text \<open>
  A search puts its flag into the table, runs, and takes the flag out again. A cancellation that arrives
  meanwhile sets the flag; \<open>pv_cancel\<close> tells how each test of the flag ends.
\<close>

fun service_search_mode :: "project_search_mode \<Rightarrow> search_mode" where
  "service_search_mode ModeLiteral = SearchLiteral"
| "service_search_mode ModeRegex = SearchRegex"

definition service_search_options :: "project_search_options \<Rightarrow> search_options" where
  "service_search_options o' =
     \<lparr>so_pattern = pso_pattern o', so_mode = service_search_mode (pso_mode o'), so_case_sensitive = pso_case_sensitive o',
      so_include_hidden = pso_include_hidden o', so_maximum_results = pso_maximum_results o',
      so_maximum_file_bytes = pso_maximum_file_bytes o'\<rparr>"

definition protocol_match :: "search_match \<Rightarrow> project_search_match" where
  "protocol_match m =
     \<lparr>psm_path = path_string (sm_path m), psm_line = sm_line m, psm_byte_column = sm_byte_column m,
      psm_byte_length = sm_byte_length m, psm_excerpt = sm_excerpt m\<rparr>"

definition protocol_summary :: "search_summary \<Rightarrow> project_search_summary" where
  "protocol_summary u =
     \<lparr>pss_scanned_files = su_scanned_files u, pss_skipped_files = su_skipped_files u, pss_matches = su_matches u,
      pss_limit_reached = su_limit_reached u, pss_cancelled = su_cancelled u, pss_consumer_stopped = su_consumer_stopped u\<rparr>"

definition search_begin :: "request_id \<Rightarrow> project_manager \<Rightarrow> project_manager" where
  "search_begin search_id pm = pm\<lparr>pm_searches := (pm_searches pm)(search_id \<mapsto> False)\<rparr>"

definition search_end :: "request_id \<Rightarrow> project_manager \<Rightarrow> project_manager" where
  "search_end search_id pm = pm\<lparr>pm_searches := (pm_searches pm)(search_id := None)\<rparr>"

definition pm_search ::
  "project_env \<Rightarrow> project_id \<Rightarrow> request_id \<Rightarrow> project_search_options \<Rightarrow> project_manager \<Rightarrow> world \<Rightarrow>
   (maestro_error + project_search_result) \<times> project_manager \<times> world" where
  "pm_search v p search_id options pm w =
     (case project_of v pm p of
        Inl e \<Rightarrow> (Inl e, pm, w)
      | Inr roots \<Rightarrow>
          (case search_run (pv_kernel v) (pv_walker v) (pv_engine v) roots (service_search_options options) (pv_cancel v)
              (\<lambda>_ _. True) w of
             (result, w') \<Rightarrow>
               (and_then (map_err (pv_failure v) result) (\<lambda>s.
                  Inr \<lparr>psr_matches = map protocol_match (sc_emitted s), psr_summary = protocol_summary (sc_summary s)\<rparr>),
                search_end search_id (search_begin search_id pm), w')))"

definition cancel_search :: "request_id \<Rightarrow> project_manager \<Rightarrow> (maestro_error + unit) \<times> project_manager" where
  "cancel_search search_id pm =
     (case pm_searches pm search_id of
        Some _ \<Rightarrow> (Inr (), pm\<lparr>pm_searches := (pm_searches pm)(search_id \<mapsto> True)\<rparr>)
      | None \<Rightarrow> (Inr (), pm))"

definition protocol_git_path :: "git_path \<Rightarrow> project_git_path" where
  "protocol_git_path g = \<lparr>pgp_bytes = gp_bytes g, pgp_display = gp_display g\<rparr>"

fun protocol_status_kind :: "git_status_kind \<Rightarrow> project_git_status_kind" where
  "protocol_status_kind Ordinary = GitOrdinary"
| "protocol_status_kind RenamedOrCopied = GitRenamedOrCopied"
| "protocol_status_kind Unmerged = GitUnmerged"
| "protocol_status_kind Untracked = GitUntracked"
| "protocol_status_kind Ignored = GitIgnored"

definition protocol_status_entry :: "git_status_entry \<Rightarrow> project_git_status_entry" where
  "protocol_status_entry e =
     \<lparr>pgs_path = protocol_git_path (gs_path e), pgs_original_path = map_option protocol_git_path (gs_original_path e),
      pgs_index_status = gs_index_status e, pgs_worktree_status = gs_worktree_status e,
      pgs_kind = protocol_status_kind (gs_kind e)\<rparr>"

fun protocol_branch :: "branch_state \<Rightarrow> project_branch_state" where
  "protocol_branch (Branch name) = OnBranch name"
| "protocol_branch (Unborn name) = OnUnborn name"
| "protocol_branch (Detached commit) = OnDetached commit"

fun service_scope :: "project_diff_scope \<Rightarrow> diff_scope" where
  "service_scope ScopeWorkingTree = WorkingTree"
| "service_scope ScopeStaged = Staged"

definition protocol_worktree :: "worktree_info \<Rightarrow> project_worktree" where
  "protocol_worktree t =
     \<lparr>pwt_path = from_utf8_lossy (wt_path t), pwt_head = wt_head t, pwt_branch = wt_branch t, pwt_detached = wt_detached t,
      pwt_bare = wt_bare t, pwt_locked_reason = wt_locked_reason t, pwt_prunable_reason = wt_prunable_reason t\<rparr>"

definition pm_git_status ::
  "project_env \<Rightarrow> project_manager \<Rightarrow> project_id \<Rightarrow> string \<Rightarrow> world \<Rightarrow> (maestro_error + project_git_status_entry list) \<times> world" where
  "pm_git_status v pm p repository =
     io_bind (on_project v pm p (\<lambda>roots. read_status (pv_kernel v) (pv_exec v) (git_service_new roots) (parse_path repository)))
       (\<lambda>entries. io_return (Inr (map protocol_status_entry entries)))"

definition pm_git_branch ::
  "project_env \<Rightarrow> project_manager \<Rightarrow> project_id \<Rightarrow> string \<Rightarrow> world \<Rightarrow> (maestro_error + project_branch_state) \<times> world" where
  "pm_git_branch v pm p repository =
     io_bind (on_project v pm p (\<lambda>roots. current_branch (pv_kernel v) (pv_exec v) (git_service_new roots) (parse_path repository)))
       (\<lambda>b. io_return (Inr (protocol_branch b)))"

definition pm_git_diff ::
  "project_env \<Rightarrow> project_manager \<Rightarrow> project_id \<Rightarrow> string \<Rightarrow> project_diff_scope \<Rightarrow> nat \<Rightarrow> world \<Rightarrow>
   (maestro_error + project_git_diff) \<times> world" where
  "pm_git_diff v pm p repository scope maximum_bytes =
     io_bind (on_project v pm p (\<lambda>roots.
         read_diff (pv_kernel v) (pv_exec v) (git_service_new roots) (parse_path repository) (service_scope scope) maximum_bytes))
       (\<lambda>d. io_return (Inr \<lparr>pgd_text = gd_text d, pgd_truncated = gd_truncated d,
                             pgd_contains_binary_changes = gd_contains_binary_changes d\<rparr>))"

definition pm_git_worktrees ::
  "project_env \<Rightarrow> project_manager \<Rightarrow> project_id \<Rightarrow> string \<Rightarrow> world \<Rightarrow> (maestro_error + project_worktree list) \<times> world" where
  "pm_git_worktrees v pm p repository =
     io_bind (on_project v pm p (\<lambda>roots. worktrees (pv_kernel v) (pv_exec v) (git_service_new roots) (parse_path repository)))
       (\<lambda>ts. io_return (Inr (map protocol_worktree ts)))"

definition primary_root :: "project_env \<Rightarrow> project_manager \<Rightarrow> project_id \<Rightarrow> maestro_error + path" where
  "primary_root v pm p =
     and_then (project_of v pm p) (\<lambda>roots.
       ok_or (maestro_error_new (pv_cid v) InvalidRequest ''The project has no workspace roots.'')
         (case canonical_roots roots of [] \<Rightarrow> None | r # _ \<Rightarrow> Some r))"

definition terminal_cwd ::
  "project_env \<Rightarrow> project_manager \<Rightarrow> project_id \<Rightarrow> string \<Rightarrow> world \<Rightarrow> (maestro_error + path) \<times> world" where
  "terminal_cwd v pm p requested =
     (if \<not> is_absolute (parse_path requested)
      then io_return (Inl (maestro_error_new (pv_cid v) InvalidPath
             ''terminal working directory must be an existing absolute directory''))
      else on_project v pm p (\<lambda>roots. canonical_directory (pv_kernel v) roots (parse_path requested)))"

section \<open>Capabilities\<close>

text \<open>Every registered project has the roots that a registration opened.\<close>

definition manager_ok :: "project_manager \<Rightarrow> bool" where
  "manager_ok pm \<longleftrightarrow>
     (\<forall>p roots. pm_projects pm p = Some roots \<longrightarrow> list_all root_ok roots \<and> disjoint_roots roots \<and> roots \<noteq> [])"

lemma register_cases:
  assumes "register_with_persistence v p name roots persist (pm, s) w = (result, (pm', s'), w')"
  shows "(case result of
      Inl _ \<Rightarrow> pm' = pm
    | Inr g \<Rightarrow> (\<exists>opened s1. workspace_roots_new (pv_kernel v) (map parse_path roots) w = (Inr opened, w') \<and>
        pm' = pm\<lparr>pm_projects := (pm_projects pm)(pg_project_id g \<mapsto> opened)\<rparr> \<and>
        pg_canonical_roots g = map path_string (canonical_roots opened) \<and> pg_display_name g = name \<and>
        persist \<lparr>pg_project_id = p, pg_display_name = name, pg_canonical_roots = map path_string (canonical_roots opened)\<rparr> s
          = (Inr (pg_project_id g), s')))"
  using assms by (auto simp: register_with_persistence_def Let_def split: if_splits prod.splits sum.splits)

lemma register_ok:
  assumes "manager_ok pm" "register_with_persistence v p name roots persist (pm, s) w = (result, (pm', s'), w')"
  shows "manager_ok pm'"
proof (cases result)
  case (Inl e)
  then show ?thesis using register_cases [OF assms(2)] assms(1) by simp
next
  case (Inr g)
  then obtain opened where o: "workspace_roots_new (pv_kernel v) (map parse_path roots) w = (Inr opened, w')"
    and pm': "pm' = pm\<lparr>pm_projects := (pm_projects pm)(pg_project_id g \<mapsto> opened)\<rparr>"
    using register_cases [OF assms(2)] by auto
  show ?thesis using assms(1) workspace_roots_new_ok [OF o] by (auto simp: manager_ok_def pm')
qed

lemma on_project_unregistered:
  assumes "pm_projects pm p = None"
  shows "on_project v pm p f w =
    (Inl (maestro_error_new (pv_cid v) PermissionDenied ''The project capability is not registered with the daemon.''), w)"
  by (simp add: on_project_def project_of_def assms io_bind_def)

lemma on_project_Inr:
  "on_project v pm p f w = (Inr x, w') \<longleftrightarrow> (\<exists>roots. pm_projects pm p = Some roots \<and> f roots w = (Inr x, w'))"
  by (cases "pm_projects pm p") (auto simp: on_project_def project_of_def io_bind_Inr io_map_err_Inr)

definition below_roots :: "workspace_roots \<Rightarrow> string \<Rightarrow> bool" where
  "below_roots roots s \<longleftrightarrow>
     (\<exists>root \<in> set roots. \<exists>names. list_all normal_component names \<and> s = path_string (rc_canonical root @ names))"

lemma open_directory_below:
  assumes "open_directory k roots q w = (Inr d, w')"
  shows "below_roots roots (path_string (ad_canonical d))"
proof -
  obtain az where "authorize roots q = Inr az" "ad_canonical d = az_canonical az"
    using assms by (auto simp: open_directory_def io_bind_Inr io_map_err_Inr simp del: open_components.simps split: if_splits)
  with authorize_confined show ?thesis unfolding below_roots_def by metis
qed

lemma read_text_below:
  assumes "read_text k sha256 (file_service_new roots) q w = (Inr f, w')"
  shows "below_roots roots (path_string (tf_path f))"
proof -
  obtain az where "authorize roots q = Inr az" "tf_path f = az_canonical az"
    using assms by (auto simp: read_text_def io_bind_Inr file_service_new_def split: if_splits)
  with authorize_confined show ?thesis unfolding below_roots_def by metis
qed

lemma directory_list_below:
  assumes "directory_list k walk roots q c options w = (Inr page, w')"
  shows "below_roots roots (path_string (dg_directory page))"
  using assms by (auto simp: directory_list_def io_bind_Inr io_map_err_Inr split: if_splits dest: open_directory_below)

definition refused :: "world \<Rightarrow> (maestro_error + 'a) \<times> world \<Rightarrow> bool" where
  "refused w r \<longleftrightarrow> snd r = w \<and> (\<exists>e. fst r = Inl e \<and> err_code e = PermissionDenied)"

lemma refused_bind:
  assumes "pm_projects pm p = None"
  shows "refused w (io_bind (on_project v pm p f) g w)" "refused w (on_project v pm p f w)"
  by (simp_all add: refused_def io_bind_def on_project_unregistered [OF assms] maestro_error_new_def)

lemma unregistered_refused:
  assumes p: "pm_projects pm p = None"
  shows "refused w (pm_list_directory v pm p d c n h w)" "refused w (pm_read_file v pm p d w)"
    "length x = 32 \<Longrightarrow> refused w (pm_save_file v pm p d content x w)" "refused w (pm_git_status v pm p d w)"
    "refused w (pm_git_diff v pm p d scope m w)"
proof -
  show "refused w (pm_list_directory v pm p d c n h w)" unfolding pm_list_directory_def by (rule refused_bind [OF p])
  show "refused w (pm_read_file v pm p d w)" unfolding pm_read_file_def by (rule refused_bind [OF p])
  show "refused w (pm_save_file v pm p d content x w)" if x: "length x = 32"
    unfolding pm_save_file_def using refused_bind(1) [OF p] x by (simp only: if_not_P if_False not_True_eq_False)
  show "refused w (pm_git_status v pm p d w)" unfolding pm_git_status_def by (rule refused_bind [OF p])
  show "refused w (pm_git_diff v pm p d scope m w)" unfolding pm_git_diff_def by (rule refused_bind [OF p])
qed


definition sample_env :: project_env where
  "sample_env = \<lparr>pv_kernel = quiet_kernel, pv_walker = (\<lambda>_ _. []), pv_engine = \<lparr>rx_escape = id, rx_build = (\<lambda>_ _. None)\<rparr>,
     pv_exec = (\<lambda>_ _ _. None), pv_sha256 = (\<lambda>_. []), pv_kind = (\<lambda>_. []), pv_cid = 0, pv_temporary = ''t'', pv_cancel = (\<lambda>_. False)\<rparr>"

lemma sample_registered:
  "register_with_persistence sample_env (ProjectId 1) ''App'' [''/w''] (\<lambda>r s. (Inr (ProjectId 2), s)) (project_manager_default, ()) sample_world =
   (Inr \<lparr>pg_project_id = ProjectId 2, pg_display_name = ''App'', pg_canonical_roots = [path_string [''/'', ''w'']]\<rparr>,
    (project_manager_default\<lparr>pm_projects := [ProjectId 2 \<mapsto> [sample_root]]\<rparr>, ()), sample_world\<lparr>w_calls := 4\<rparr>)"
proof -
  have name: "str_trim (text_bytes ''App'') \<noteq> []" by code_simp
  have path: "parse_path ''/w'' = [''/'', ''w'']" by code_simp
  show ?thesis using sample_roots_opened
    by (simp add: register_with_persistence_def name path sample_env_def canonical_roots_def sample_root_def
        project_manager_default_def Let_def)
qed


end
