(* ===== verification/Event_Monitor.thy ===== *)
theory Event_Monitor
  imports Storage_Runtime Fake_Session Terminal
begin

text \<open>
  From live sessions to stored ones: the subscriptions of \<^verbatim>\<open>crates/maestrod/src/fake_session.rs\<close> and the
  background tasks of \<^verbatim>\<open>crates/maestrod/src/server.rs\<close> that store the events and the end of a session.
  What a task is told at each of its awaits is an argument, so every interleaving with the other tasks
  is covered.
\<close>

section \<open>Subscriptions\<close>

text \<open>
  A subscription first replays the retained events and then receives from the live channel.
  \<open>sub_position\<close> counts the events of the channel that it has passed. The channel of \<^verbatim>\<open>tokio\<close> keeps as many of the
  newest events as its capacity, rounded up to a power of two; a receiver that falls behind is told how
  many it missed and goes on with the oldest that is left.
\<close>

datatype subscription_error = Lagged u64 | SubscriptionClosed

record session_subscription =
  sub_replay :: "event_envelope list"
  sub_position :: nat
  sub_gap :: "replay_gap option"

fun doubled_until :: "nat \<Rightarrow> nat \<Rightarrow> nat \<Rightarrow> nat" where
  "doubled_until 0 n p = p"
| "doubled_until (Suc fuel) n p = (if n \<le> p then p else doubled_until fuel n (2 * p))"

definition channel_capacity :: "nat \<Rightarrow> nat" where
  "channel_capacity n = doubled_until 64 n 1"

definition live_recv ::
  "nat \<Rightarrow> event_envelope list \<Rightarrow> session_subscription \<Rightarrow>
   (subscription_error + event_envelope option) \<times> session_subscription" where
  "live_recv capacity sent sb =
     (if sub_position sb + capacity < length sent
      then (Inl (Lagged (of_nat (length sent - capacity - sub_position sb))), sb\<lparr>sub_position := length sent - capacity\<rparr>)
      else (case get sent (sub_position sb) of
              Some e \<Rightarrow> (Inr (Some e), sb\<lparr>sub_position := sub_position sb + 1\<rparr>)
            | None \<Rightarrow> (Inr None, sb)))"

text \<open>\<^term>\<open>Inr None\<close>: nothing is there; \<^verbatim>\<open>recv\<close> then waits and looks again.\<close>

definition try_recv ::
  "nat \<Rightarrow> event_envelope list \<Rightarrow> session_subscription \<Rightarrow>
   (subscription_error + event_envelope option) \<times> session_subscription" where
  "try_recv capacity sent sb =
     (case sub_replay sb of
        e # es \<Rightarrow> (Inr (Some e), sb\<lparr>sub_replay := es\<rparr>)
      | [] \<Rightarrow> live_recv capacity sent sb)"

definition subscribe_session ::
  "host \<Rightarrow> uuid \<Rightarrow> session_id \<Rightarrow> u64 \<Rightarrow> supervisor \<Rightarrow> maestro_error + session_subscription" where
  "subscribe_session h cid session after v =
     and_then (sv_session h cid session v) (\<lambda>r.
       and_then (subscribe_log cid after (sr_events r)) (\<lambda>x.
         Inr \<lparr>sub_replay = fst x, sub_position = length (sr_sent r), sub_gap = snd x\<rparr>))"

definition live_events :: "session_id \<Rightarrow> supervisor \<Rightarrow> event_envelope list" where
  "live_events session v = (case sv_sessions v session of Some r \<Rightarrow> sr_sent r | None \<Rightarrow> [])"

text \<open>Taking events until the limit is reached or none is there.\<close>

fun drain ::
  "nat \<Rightarrow> nat \<Rightarrow> event_envelope list \<Rightarrow> session_subscription \<Rightarrow>
   (subscription_error + event_envelope list) \<times> session_subscription" where
  "drain 0 capacity sent sb = (Inr [], sb)"
| "drain (Suc n) capacity sent sb =
     (case try_recv capacity sent sb of
        (Inl e, sb) \<Rightarrow> (Inl e, sb)
      | (Inr None, sb) \<Rightarrow> (Inr [], sb)
      | (Inr (Some e), sb) \<Rightarrow>
          (case drain n capacity sent sb of
             (Inl f, sb) \<Rightarrow> (Inl f, sb)
           | (Inr es, sb) \<Rightarrow> (Inr (e # es), sb)))"

section \<open>The monitor of a structured session\<close>

text \<open>
  One round of the monitor: what the channel holds when it receives, how storing the event ends, what
  the supervisor then tells of the session, and how storing the state ends.
\<close>

record monitor_round =
  mr_live :: "event_envelope list"
  mr_event_sql :: bool
  mr_snapshot :: "maestro_error + fake_session_snapshot"
  mr_state_sql :: bool
  mr_now :: date_time

text \<open>The loop; the first component tells whether it has ended or still waits for an event.\<close>

fun persist_loop ::
  "nat \<Rightarrow> session_id \<Rightarrow> run_id \<Rightarrow> monitor_round list \<Rightarrow> session_subscription \<Rightarrow> session_state option \<Rightarrow>
   storage_runtime \<Rightarrow> bool \<times> storage_runtime" where
  "persist_loop capacity session run [] sb last_state s = (False, s)"
| "persist_loop capacity session run (m # ms) sb last_state s =
     (case try_recv capacity (mr_live m) sb of
        (Inl _, _) \<Rightarrow> (True, s)
      | (Inr None, sb) \<Rightarrow> persist_loop capacity session run ms sb last_state s
      | (Inr (Some e), sb) \<Rightarrow>
          (case rt_persist_event (mr_event_sql m) e s of (_, s) \<Rightarrow>
             (case mr_snapshot m of
                Inl _ \<Rightarrow> (True, s)
              | Inr snapshot \<Rightarrow>
                  if sn_active_run_id snapshot \<noteq> Some run then (True, s)
                  else if last_state = Some (sn_state snapshot) then persist_loop capacity session run ms sb last_state s
                  else (case rt_update_session_state (mr_state_sql m) (mr_now m) session (sn_state snapshot) s of
                          (Inr _, s) \<Rightarrow> persist_loop capacity session run ms sb (Some (sn_state snapshot)) s
                        | (Inl _, s) \<Rightarrow> persist_loop capacity session run ms sb last_state s))))"

text \<open>The end of the run: its exit, what is known of an error, its raw capture.\<close>

fun persisted_exit :: "exit_cause option \<Rightarrow> persisted_run_exit" where
  "persisted_exit (Some (Exited code)) = RunExited code"
| "persisted_exit (Some (Signaled signal)) = RunSignaled signal"
| "persisted_exit _ = RunUnknown"

fun error_code_text :: "error_code \<Rightarrow> string" where
  "error_code_text AuthenticationRequired = ''AUTHENTICATION_REQUIRED''"
| "error_code_text CliNotInstalled = ''CLI_NOT_INSTALLED''"
| "error_code_text CliProtocolIncompatible = ''CLI_PROTOCOL_INCOMPATIBLE''"
| "error_code_text DaemonLocked = ''DAEMON_LOCKED''"
| "error_code_text DatabaseUnavailable = ''DATABASE_UNAVAILABLE''"
| "error_code_text InvalidRequest = ''INVALID_REQUEST''"
| "error_code_text PermissionDenied = ''PERMISSION_DENIED''"
| "error_code_text ProcessCrashed = ''PROCESS_CRASHED''"
| "error_code_text SessionNotFound = ''SESSION_NOT_FOUND''"
| "error_code_text TerminalLimitReached = ''TERMINAL_LIMIT_REACHED''"
| "error_code_text TerminalNotFound = ''TERMINAL_NOT_FOUND''"
| "error_code_text TerminalNotRunning = ''TERMINAL_NOT_RUNNING''"
| "error_code_text InputTooLarge = ''INPUT_TOO_LARGE''"
| "error_code_text InvalidPath = ''INVALID_PATH''"
| "error_code_text UnsupportedCapability = ''UNSUPPORTED_CAPABILITY''"
| "error_code_text Internal = ''INTERNAL''"

definition recovery_json :: "(uuid \<Rightarrow> string) \<Rightarrow> maestro_error \<Rightarrow> json" where
  "recovery_json id_text e =
     Object [(''code'', String (error_code_text (err_code e))), (''message'', String (err_message e)),
             (''correlation_id'', String (id_text (err_correlation_id e)))]"

text \<open>What the monitor draws and is told when its loop has ended.\<close>

record monitor_end =
  me_snapshot :: "maestro_error + fake_session_snapshot"
  me_capture :: "maestro_error + raw_capture_state option"
  me_directory :: "storage_runtime_error + string"
  me_capture_sql :: bool
  me_sql :: "bool \<times> bool"
  me_now :: date_time

definition finish_monitored_run ::
  "(uuid \<Rightarrow> string) \<Rightarrow> session_id \<Rightarrow> run_id \<Rightarrow> monitor_end \<Rightarrow> storage_runtime \<Rightarrow> storage_runtime" where
  "finish_monitored_run id_text session run x s =
     (case me_snapshot x of
        Inl _ \<Rightarrow> s
      | Inr snapshot \<Rightarrow>
          (let s1 = (case me_capture x of
                       Inr (Some c) \<Rightarrow>
                         snd (persist_raw_protocol_capture id_text (me_directory x) (me_capture_sql x) (me_now x) session run
                           (rp_bytes c) (rp_observed_byte_count c) (rp_truncated c) (rp_complete c) s)
                     | _ \<Rightarrow> s)
           in snd (finish_session_run (fst (me_sql x)) (snd (me_sql x)) (me_now x) session run (sn_state snapshot)
                (persisted_exit (sn_last_exit snapshot)) (map_option (recovery_json id_text) (sn_last_error snapshot)) s1)))"

definition persist_session_events ::
  "(uuid \<Rightarrow> string) \<Rightarrow> nat \<Rightarrow> session_id \<Rightarrow> run_id \<Rightarrow> maestro_error + session_subscription \<Rightarrow>
   monitor_round list \<Rightarrow> monitor_end \<Rightarrow> storage_runtime \<Rightarrow> bool \<times> storage_runtime" where
  "persist_session_events id_text capacity session run subscribed ms x s =
     (case subscribed of
        Inl _ \<Rightarrow> (True, s)
      | Inr sb \<Rightarrow>
          (case persist_loop capacity session run ms sb None s of
             (False, s) \<Rightarrow> (False, s)
           | (True, s) \<Rightarrow> (True, finish_monitored_run id_text session run x s)))"

section \<open>Sessions in a terminal\<close>

text \<open>
  The start of a terminal session stores the run, its first event and its state, one after the other; the first failure ends it. \<open>sql\<close> gives the
  outcome of each statement, \<open>event_id\<close> the identifier of the event.
\<close>

definition daemon_envelope ::
  "event_id \<Rightarrow> date_time \<Rightarrow> session_id \<Rightarrow> run_id \<Rightarrow> u64 \<Rightarrow> string \<Rightarrow> json \<Rightarrow> event_envelope" where
  "daemon_envelope event_id now session run sequence kind payload =
     \<lparr>env_event_id = event_id, env_session_id = session, env_run_id = Some run, env_sequence = sequence,
      env_timestamp = now, env_source = Daemon, env_event = normalized_event_user kind payload\<rparr>"

definition persist_started_tui_session ::
  "(uuid \<Rightarrow> string) \<Rightarrow> (nat \<Rightarrow> bool) \<Rightarrow> event_id \<Rightarrow> date_time \<Rightarrow> project_id \<Rightarrow> session_id \<Rightarrow> terminal_opened \<Rightarrow> string \<Rightarrow>
   json \<Rightarrow> storage_runtime \<Rightarrow> (storage_failure + unit) \<times> storage_runtime" where
  "persist_started_tui_session id_text sql event_id now project session opened title invocation s =
     (case start_tui_session_run (sql 0) (sql 1) now project session (to_run_id opened) (to_process_id opened) title invocation s of
        (Inl e, s) \<Rightarrow> (Inl e, s)
      | (Inr _, s) \<Rightarrow>
          (case rt_persist_event (sql 2) (daemon_envelope event_id now session (to_run_id opened) 1 ''run_started''
              (Object [(''channel'', String ''pty_tui''), (''process_id'', nat_json (unat (to_process_id opened))),
                       (''terminal_id'', terminal_json id_text (to_terminal_id opened))])) s of
             (Inl e, s) \<Rightarrow> (Inl e, s)
           | (Inr _, s) \<Rightarrow> rt_update_session_state (sql 3) now session Running s))"

fun terminal_session_state :: "terminal_state \<Rightarrow> terminal_exit option \<Rightarrow> session_state" where
  "terminal_session_state TermClosed _ = Stopped"
| "terminal_session_state TermClosing _ = Stopped"
| "terminal_session_state TermExited exit =
     (case exit of Some x \<Rightarrow> if tx_code x = Some 0 then Completed else Failed | None \<Rightarrow> Failed)"
| "terminal_session_state TermFailed _ = Failed"
| "terminal_session_state TermRunning _ = Interrupted"

definition terminal_run_exit :: "terminal_exit option \<Rightarrow> persisted_run_exit" where
  "terminal_run_exit exit =
     (case exit of
        None \<Rightarrow> RunUnknown
      | Some x \<Rightarrow> (case tx_code x of Some code \<Rightarrow> RunExited code
                   | None \<Rightarrow> (case tx_signal x of Some signal \<Rightarrow> RunSignaled signal | None \<Rightarrow> RunUnknown)))"

definition terminal_exit_json :: "terminal_exit option \<Rightarrow> json" where
  "terminal_exit_json exit =
     option_json (map_option (\<lambda>x. Object [(''code'', option_json (map_option int_json (tx_code x))),
       (''signal'', option_json (map_option int_json (tx_signal x)))]) exit)"

definition persist_tui_completion ::
  "(uuid \<Rightarrow> string) \<Rightarrow> (nat \<Rightarrow> bool) \<Rightarrow> event_id \<Rightarrow> date_time \<Rightarrow> session_id \<Rightarrow> run_id \<Rightarrow> terminal_id \<Rightarrow>
   maestro_error + terminal_status \<Rightarrow> storage_runtime \<Rightarrow> (storage_failure + unit) \<times> storage_runtime" where
  "persist_tui_completion id_text sql event_id now session run t status s =
     (case (case status of
              Inr u \<Rightarrow> (terminal_session_state (tu_state u) (tu_exit u), terminal_run_exit (tu_exit u),
                 Object [(''terminal_id'', terminal_json id_text t), (''terminal_state'', String (terminal_state_name (tu_state u))),
                         (''exit'', terminal_exit_json (tu_exit u))])
            | Inl e \<Rightarrow> (Failed, RunUnknown,
                 Object [(''terminal_id'', terminal_json id_text t), (''error_code'', String (error_code_text (err_code e))),
                         (''correlation_id'', String (id_text (err_correlation_id e)))])) of
        (state, exit, payload) \<Rightarrow>
          (case rt_persist_event (sql 0) (daemon_envelope event_id now session run 2 ''process_exited'' payload) s of
             (Inl e, s) \<Rightarrow> (Inl e, s)
           | (Inr _, s) \<Rightarrow> finish_session_run (sql 1) (sql 2) now session run state exit None s))"

section \<open>What the monitor stores\<close>

definition ready_tables :: "storage_runtime \<Rightarrow> database option" where
  "ready_tables s = (case rt_state s of StorageReady ready \<Rightarrow> Some (rd_database ready) | _ \<Rightarrow> None)"

text \<open>Events that the table of events takes one after the other.\<close>

fun admitted_all :: "database \<Rightarrow> event_envelope list \<Rightarrow> bool" where
  "admitted_all db [] = True"
| "admitted_all db (e # es) =
     (fits_i64 (unat (env_sequence e)) \<and> event_admitted db e \<and>
      admitted_all (db\<lparr>db_events := db_events db @ [redacted_envelope e]\<rparr>) es)"

definition same_events :: "database \<Rightarrow> database \<Rightarrow> bool" where
  "same_events db db' \<longleftrightarrow> db_events db' = db_events db \<and> (\<forall>s. session_exists db s \<longrightarrow> session_exists db' s) \<and>
     (\<forall>r. run_exists db r \<longrightarrow> run_exists db' r)"

lemma admitted_all_same: "admitted_all db es \<Longrightarrow> same_events db db' \<Longrightarrow> admitted_all db' es"
proof (induction es arbitrary: db db')
  case (Cons e es)
  have "same_events (db\<lparr>db_events := db_events db @ [redacted_envelope e]\<rparr>) (db'\<lparr>db_events := db_events db' @ [redacted_envelope e]\<rparr>)"
    using Cons.prems(2) by (simp add: same_events_def session_exists_def run_exists_def)
  moreover have "event_admitted db' e"
    using Cons.prems by (auto simp: event_admitted_def same_events_def split: option.splits)
  ultimately show ?case using Cons by (metis admitted_all.simps(2))
qed simp

lemma ready_persist:
  assumes "ready_tables s = Some db" "admitted_all db (e # es)"
  shows "\<exists>s'. rt_persist_event True e s = (Inr (), s') \<and> ready_tables s' = Some (db\<lparr>db_events := db_events db @ [redacted_envelope e]\<rparr>)"
  using assms by (auto simp: ready_tables_def rt_persist_event_def with_ready_session_store_def append_event_def put_database_def
      split: storage_state.splits)

lemma ready_update:
  assumes "ready_tables s = Some db"
  shows "\<exists>db'. ready_tables (snd (rt_update_session_state sql now session st s)) = Some db' \<and> same_events db db'"
  using assms
  by (auto simp: ready_tables_def rt_update_session_state_def with_ready_session_store_def update_session_state_def put_database_def
      same_events_def session_exists_def run_exists_def update_where_key_set Let_def split: storage_state.splits prod.splits)

lemma try_recv_stream:
  assumes "stream = sub_replay sb @ drop (sub_position sb) sent" "live = take n sent" "length sent \<le> sub_position sb + capacity"
    and "0 < length (sub_replay sb) + (length live - sub_position sb)"
  obtains e sb' where "try_recv capacity live sb = (Inr (Some e), sb')"
    "stream = e # sub_replay sb' @ drop (sub_position sb') sent" "length sent \<le> sub_position sb' + capacity"
    "\<And>k. k - sub_position sb' + length (sub_replay sb') + 1 \<ge> k - sub_position sb + length (sub_replay sb)"
proof (cases "sub_replay sb")
  case (Cons e es)
  show ?thesis by (rule that [of e "sb\<lparr>sub_replay := es\<rparr>"]) (use Cons assms in \<open>simp_all add: try_recv_def\<close>)
next
  case Nil
  let ?p = "sub_position sb"
  have p: "?p < length live" using assms(4) Nil by simp
  then have "sent ! ?p = live ! ?p" "?p < length sent" using assms(2) by simp_all
  moreover have "\<not> ?p + capacity < length live" using assms(2,3) by simp
  ultimately show ?thesis
    by (intro that [of "live ! ?p" "sb\<lparr>sub_position := ?p + 1\<rparr>"])
      (use Nil p assms in \<open>simp_all add: try_recv_def live_recv_def get_def Cons_nth_drop_Suc\<close>)
qed

definition still_active :: "run_id \<Rightarrow> monitor_round \<Rightarrow> bool" where
  "still_active run m \<longleftrightarrow> (\<exists>snapshot. mr_snapshot m = Inr snapshot \<and> sn_active_run_id snapshot = Some run)"

text \<open>Every round finds an event: the \<open>i\<close>-th round finds more than \<open>i\<close> events of the stream in the replay and the channel.\<close>

definition rounds_receive :: "event_envelope list \<Rightarrow> session_subscription \<Rightarrow> monitor_round list \<Rightarrow> bool" where
  "rounds_receive sent sb ms \<longleftrightarrow>
     (\<forall>i < length ms. \<exists>n. mr_live (ms ! i) = take n sent \<and>
        i < length (sub_replay sb) + (length (take n sent) - sub_position sb))"

lemma rounds_receive_step:
  assumes "rounds_receive sent sb (m # ms)"
    and "\<And>k. k - sub_position sb + length (sub_replay sb) \<le> k - sub_position sb' + length (sub_replay sb') + 1"
  shows "rounds_receive sent sb' ms"
  unfolding rounds_receive_def
proof (intro allI impI)
  fix i assume "i < length ms"
  then have "Suc i < length (m # ms)" by simp
  with assms(1) obtain n where n: "mr_live ((m # ms) ! Suc i) = take n sent"
    "Suc i < length (sub_replay sb) + (length (take n sent) - sub_position sb)" unfolding rounds_receive_def by metis
  with assms(2) [of "length (take n sent)"]
  show "\<exists>n. mr_live (ms ! i) = take n sent \<and> i < length (sub_replay sb') + (length (take n sent) - sub_position sb')"
    by (intro exI [of _ n]) auto
qed

lemma persist_loop_stores:
  assumes "rounds_receive sent sb (ms @ [m])" "length sent \<le> sub_position sb + capacity"
    and "ready_tables s = Some db" "admitted_all db (take (length ms + 1) (sub_replay sb @ drop (sub_position sb) sent))"
    and "list_all mr_event_sql (ms @ [m])" "list_all (still_active run) ms" "\<not> still_active run m"
  shows "\<exists>s' db'. persist_loop capacity session run (ms @ [m]) sb last_state s = (True, s') \<and> ready_tables s' = Some db' \<and>
    db_events db' = db_events db @ map redacted_envelope (take (length ms + 1) (sub_replay sb @ drop (sub_position sb) sent))"
  using assms
proof (induction ms arbitrary: sb s db last_state)
  case Nil
  let ?es = "sub_replay sb @ drop (sub_position sb) sent"
  obtain n where n: "mr_live m = take n sent" "0 < length (sub_replay sb) + (length (take n sent) - sub_position sb)"
    using Nil.prems(1) by (auto simp: rounds_receive_def)
  obtain e sb' where recv: "try_recv capacity (mr_live m) sb = (Inr (Some e), sb')" and es: "?es = e # sub_replay sb' @ drop (sub_position sb') sent"
    using try_recv_stream [OF refl n(1) Nil.prems(2)] n by (metis (no_types, lifting))
  have "admitted_all db [e]" using Nil.prems(4) by (simp add: es)
  from ready_persist [OF Nil.prems(3) this] obtain s' where
    s': "rt_persist_event True e s = (Inr (), s')" "ready_tables s' = Some (db\<lparr>db_events := db_events db @ [redacted_envelope e]\<rparr>)" by blast
  have "persist_loop capacity session run ([] @ [m]) sb last_state s = (True, s')"
    using Nil.prems(5,7) recv s'(1) by (auto simp: still_active_def split: sum.splits)
  then show ?case using s'(2) by (simp add: es)
next
  case (Cons k ms)
  let ?es = "sub_replay sb @ drop (sub_position sb) sent"
  obtain n where n: "mr_live k = take n sent" "0 < length (sub_replay sb) + (length (take n sent) - sub_position sb)"
    using Cons.prems(1) by (force simp: rounds_receive_def)
  obtain e sb' where recv: "try_recv capacity (mr_live k) sb = (Inr (Some e), sb')" and es: "?es = e # sub_replay sb' @ drop (sub_position sb') sent"
    and room: "length sent \<le> sub_position sb' + capacity"
    and step: "\<And>k. k - sub_position sb + length (sub_replay sb) \<le> k - sub_position sb' + length (sub_replay sb') + 1"
    using try_recv_stream [OF refl n(1) Cons.prems(2)] n by (metis (no_types, lifting))
  let ?db = "db\<lparr>db_events := db_events db @ [redacted_envelope e]\<rparr>" and ?rest = "take (length ms + 1) (sub_replay sb' @ drop (sub_position sb') sent)"
  have adm: "admitted_all db [e]" "admitted_all ?db ?rest" using Cons.prems(4) by (simp_all add: es)
  from ready_persist [OF Cons.prems(3) adm(1)] obtain s1 where
    s1: "rt_persist_event True e s = (Inr (), s1)" "ready_tables s1 = Some ?db" by blast
  obtain x where x: "mr_snapshot k = Inr x" "sn_active_run_id x = Some run" using Cons.prems(6) by (auto simp: still_active_def)
  let ?u = "rt_update_session_state (mr_state_sql k) (mr_now k) session (sn_state x) s1"
  obtain s2 last2 db2 where cont: "persist_loop capacity session run ((k # ms) @ [m]) sb last_state s
        = persist_loop capacity session run (ms @ [m]) sb' last2 s2"
    and s2: "ready_tables s2 = Some db2" "same_events ?db db2"
  proof (cases "last_state = Some (sn_state x)")
    case True
    show ?thesis by (rule that [of last_state s1 ?db]) (use True recv s1 x Cons.prems(5) in \<open>simp_all add: same_events_def\<close>)
  next
    case False
    obtain r s2 where u: "?u = (r, s2)" by fastforce
    obtain db2 where "ready_tables s2 = Some db2" "same_events ?db db2" using ready_update [OF s1(2)] u by (metis snd_conv)
    then show ?thesis
      by (intro that [of "if is_ok r then Some (sn_state x) else last_state" s2 db2])
        (use False recv s1 x Cons.prems(5) u in \<open>auto split: sum.splits\<close>)
  qed
  have "rounds_receive sent sb' (ms @ [m])" using rounds_receive_step [OF _ step] Cons.prems(1) by simp
  from Cons.IH [OF this room s2(1) admitted_all_same [OF adm(2) s2(2)], of last2] Cons.prems(5-7) obtain s' db' where
    "persist_loop capacity session run (ms @ [m]) sb' last2 s2 = (True, s')" "ready_tables s' = Some db'"
    "db_events db' = db_events db2 @ map redacted_envelope ?rest" by auto
  then show ?case unfolding cont using s2(2) by (simp add: es same_events_def del: persist_loop.simps)
qed

text \<open>The end of a run does not touch the events that are stored.\<close>

lemma finish_keeps_events:
  assumes "ready_tables s = Some db"
  shows "\<exists>db'. ready_tables (finish_monitored_run id_text session run x s) = Some db' \<and> db_events db' = db_events db"
proof -
  have capture: "\<exists>db'. ready_tables (snd (persist_raw_protocol_capture id_text d sql now session run bs ob tr co s)) = Some db' \<and>
      db_events db' = db_events db" for d sql now bs ob tr co
    using assms by (cases d) (auto simp: persist_raw_protocol_capture_def ready_tables_def with_ready_session_store_def put_database_def
        upsert_raw_protocol_capture_def Let_def split: storage_state.splits prod.splits)
  have finish: "\<exists>db''. ready_tables (snd (finish_session_run sql sql' now session run st e r s')) = Some db'' \<and> db_events db'' = db_events db'"
    if "ready_tables s' = Some db'" for sql sql' now st e r s' db'
    using that by (auto simp: finish_session_run_def ready_tables_def with_ready_session_store_def put_database_def
        update_session_state_def finish_run_def Let_def split: storage_state.splits prod.splits sum.splits)
  define s1 where "s1 = (case me_capture x of Inr (Some c) \<Rightarrow>
      snd (persist_raw_protocol_capture id_text (me_directory x) (me_capture_sql x) (me_now x) session run
        (rp_bytes c) (rp_observed_byte_count c) (rp_truncated c) (rp_complete c) s) | _ \<Rightarrow> s)"
  obtain db1 where db1: "ready_tables s1 = Some db1" "db_events db1 = db_events db"
  proof (cases "\<exists>c. me_capture x = Inr (Some c)")
    case True
    then obtain c where c: "me_capture x = Inr (Some c)" by blast
    show ?thesis using capture that unfolding s1_def c by fastforce
  next
    case False
    then have "s1 = s" by (auto simp: s1_def split: sum.splits option.splits)
    then show ?thesis using assms that by simp
  qed
  show ?thesis
  proof (cases "me_snapshot x")
    case (Inl e)
    then show ?thesis using assms by (simp add: finish_monitored_run_def)
  next
    case (Inr sn)
    then show ?thesis using finish [OF db1(1)] db1(2) unfolding finish_monitored_run_def s1_def [symmetric] by (auto simp: Let_def)
  qed
qed

section \<open>Property\<close>


text \<open>Two events in the channel and a run that has ended: one of them is stored.\<close>

definition monitored_tables :: database where
  "monitored_tables = fold store_exec (butlast sample_ops) sample_store"

definition monitored_event :: "uuid \<Rightarrow> u64 \<Rightarrow> event_envelope" where
  "monitored_event u n = daemon_envelope (EventId u) 5 (SessionId 2) (RunId 3) n ''message'' Null"

definition ended_snapshot :: fake_session_snapshot where
  "ended_snapshot = \<lparr>sn_session_id = SessionId 2, sn_active_run_id = None, sn_state = Completed, sn_binding = None,
     sn_latest_sequence = 2, sn_dropped_through_sequence = 0, sn_stderr = [], sn_stderr_truncated = False,
     sn_last_exit = Some (Exited 0), sn_last_error = None\<rparr>"

definition late_round :: monitor_round where
  "late_round = \<lparr>mr_live = [monitored_event 8 1, monitored_event 9 2], mr_event_sql = True,
     mr_snapshot = Inr ended_snapshot, mr_state_sql = True, mr_now = 6\<rparr>"

definition quiet_end :: monitor_end where
  "quiet_end = \<lparr>me_snapshot = Inr ended_snapshot, me_capture = Inr None, me_directory = Inr ''/c'', me_capture_sql = True,
     me_sql = (True, True), me_now = 7\<rparr>"


end
