(* ===== verification/Daemon.thy ===== *)
theory Daemon
  imports Event_Monitor Project_Manager
begin

text \<open>
  The state of the daemon and the parts of its request handlers, \<^verbatim>\<open>crates/maestrod/src/server.rs\<close>. A
  handler is a function on the daemon that returns an error or an answer with the daemon it leaves; what
  it draws and what it is told by the system comes with a record of draws. A handler runs without
  another task in between, except where it waits: there other tasks act, as the draws say. The blocking
  workers do not panic, so joining one never fails.
\<close>

section \<open>The daemon\<close>

text \<open>The background tasks that a request starts.\<close>

datatype monitor_task =
    StructuredMonitor session_id run_id u64
  | TerminalMonitor session_id run_id terminal_id

record daemon =
  dm_active_sessions :: u32
  dm_connected_clients :: u32
  dm_shutting_down :: bool
  dm_sessions :: supervisor
  dm_fake_agent :: string
  dm_projects :: project_manager
  dm_storage :: storage_runtime
  dm_terminals :: terminal_manager
  dm_tui_sessions :: "session_id \<rightharpoonup> terminal_id"
  dm_monitors :: "monitor_task list"
  dm_world :: world

text \<open>
  The draws of one request: identifiers, clock readings, the outcome of each statement of the storage
  and of each system call, and the work of other tasks while the handler waits.
\<close>

record daemon_env =
  dv_host :: host
  dv_daemon_version :: string
  dv_cid :: uuid
  dv_now :: date_time
  dv_sql :: "nat \<Rightarrow> bool"
  dv_session :: session_id
  dv_run :: run_id
  dv_terminal :: terminal_id
  dv_event :: event_id
  dv_token :: uuid
  dv_action :: uuid
  dv_stamps :: "stamp \<times> stamp"
  dv_writes :: "(process_error + unit) \<times> (process_error + unit)"
  dv_spawn :: "process_error + spawned"
  dv_pty :: "process_error + u32"
  dv_terminate :: "process_error + exit_cause"
  dv_terminated :: bool
  dv_probe :: directory_probe
  dv_project :: project_env
  dv_unlock_key :: "key_store_error + database_key"
  dv_unlock :: persistent_draws
  dv_capture_directory :: "storage_runtime_error + string"
  dv_session_order :: "session_id list"
  dv_session_stops :: "session_id \<Rightarrow> stamp \<times> (process_error + exit_cause)"
  dv_terminal_order :: "terminal_id list"
  dv_terminal_closes :: "terminal_id \<Rightarrow> process_error + exit_cause"
  dv_meanwhile :: "supervisor \<Rightarrow> supervisor"
  dv_later_terminal :: terminal_session

type_synonym 'a handler = "daemon \<Rightarrow> (maestro_error + 'a) \<times> daemon"

definition on_storage ::
  "(storage_failure \<Rightarrow> maestro_error) \<Rightarrow> (storage_runtime \<Rightarrow> (storage_failure + 'a) \<times> storage_runtime) \<Rightarrow> 'a handler" where
  "on_storage failure f d = (case f (dm_storage d) of (result, s) \<Rightarrow> (map_err failure result, d\<lparr>dm_storage := s\<rparr>))"

definition on_sessions :: "(supervisor \<Rightarrow> (maestro_error + 'a) \<times> supervisor) \<Rightarrow> 'a handler" where
  "on_sessions f d = (case f (dm_sessions d) of (result, v) \<Rightarrow> (result, d\<lparr>dm_sessions := v\<rparr>))"

definition on_terminals :: "(terminal_manager \<Rightarrow> (maestro_error + 'a) \<times> terminal_manager) \<Rightarrow> 'a handler" where
  "on_terminals f d = (case f (dm_terminals d) of (result, m) \<Rightarrow> (result, d\<lparr>dm_terminals := m\<rparr>))"

definition on_files :: "(project_manager \<Rightarrow> world \<Rightarrow> (maestro_error + 'a) \<times> world) \<Rightarrow> 'a handler" where
  "on_files f d = (case f (dm_projects d) (dm_world d) of (result, w) \<Rightarrow> (result, d\<lparr>dm_world := w\<rparr>))"

section \<open>Errors\<close>

definition database_unavailable_error :: "uuid \<Rightarrow> maestro_error" where
  "database_unavailable_error cid =
     with_user_action (maestro_error_new cid DatabaseUnavailable ''Maestro encrypted storage is unavailable'')
       ''Restart Maestro. If the problem continues, preserve the data directory for recovery.''"

definition locked_storage_error :: "uuid \<Rightarrow> storage_status \<Rightarrow> maestro_error" where
  "locked_storage_error cid status =
     (case status of
        PassphraseRequired _ \<Rightarrow>
          with_user_action
            (maestro_error_new cid DaemonLocked ''Maestro encrypted storage must be unlocked before this action can run'')
            ''Unlock Maestro from the desktop application.''
      | _ \<Rightarrow> database_unavailable_error cid)"

definition storage_unlock_error :: "uuid \<Rightarrow> storage_failure \<Rightarrow> maestro_error" where
  "storage_unlock_error cid e =
     (if e = RuntimeKey IncorrectPassphraseOrCorruptEnvelope \<or> e = RuntimeKey EmptyPassphrase
      then with_user_action (maestro_error_new cid AuthenticationRequired ''The Maestro storage passphrase was not accepted'')
             ''Check the passphrase and try again.''
      else database_unavailable_error cid)"

definition storage_project_error :: "uuid \<Rightarrow> storage_failure \<Rightarrow> maestro_error" where
  "storage_project_error cid e =
     (if e \<in> {RuntimeStorage StorageInvalidLimit, RuntimeStorage ProjectNotFound, RuntimeStorage StorageJson}
      then maestro_error_new cid InvalidRequest ''database operation failed''
      else database_unavailable_error cid)"

definition storage_session_error :: "uuid \<Rightarrow> storage_failure \<Rightarrow> maestro_error" where
  "storage_session_error cid e = database_unavailable_error cid"

definition storage_session_read_error :: "host \<Rightarrow> uuid \<Rightarrow> session_id \<Rightarrow> storage_failure \<Rightarrow> maestro_error" where
  "storage_session_read_error h cid session e =
     (case e of
        RuntimeSession (StoreSessionNotFound _) \<Rightarrow>
          (maestro_error_new cid SessionNotFound ''The requested session does not exist.'')
            \<lparr>err_details := Some (Object [(''session_id'', session_json h session)])\<rparr>
      | _ \<Rightarrow> database_unavailable_error cid)"

definition session_not_found_error :: "host \<Rightarrow> uuid \<Rightarrow> session_id \<Rightarrow> maestro_error" where
  "session_not_found_error h cid session =
     (maestro_error_new cid SessionNotFound ''The logical session was not found.'')
       \<lparr>err_details := Some (Object [(''session_id'', session_json h session)])\<rparr>"

definition invalid_session_request :: "uuid \<Rightarrow> string \<Rightarrow> maestro_error" where
  "invalid_session_request cid message = maestro_error_new cid InvalidRequest message"

definition invalid_setting_request :: "uuid \<Rightarrow> string \<Rightarrow> maestro_error" where
  "invalid_setting_request cid message = maestro_error_new cid InvalidRequest message"

definition session_subscription_error :: "uuid \<Rightarrow> subscription_error \<Rightarrow> maestro_error" where
  "session_subscription_error cid e =
     (let base = maestro_error_new cid Internal ''The session event subscription could not continue.''
      in case e of
           Lagged missed \<Rightarrow>
             base\<lparr>err_retryable := True, err_details := Some (Object [(''missed_events'', nat_json (unat missed))])\<rparr>
         | SubscriptionClosed \<Rightarrow> base)"

section \<open>Validation\<close>

definition validate_setting_identity :: "uuid \<Rightarrow> string \<Rightarrow> string \<Rightarrow> string \<Rightarrow> maestro_error + unit" where
  "validate_setting_identity cid scope reference key =
     (if scope = [] \<or> length scope > MAX_SETTING_SCOPE_BYTES
      then Inl (invalid_setting_request cid
             (''Setting scopes must contain between 1 and '' @ decimal MAX_SETTING_SCOPE_BYTES @ '' bytes.''))
      else if length reference > MAX_SETTING_SCOPE_REFERENCE_BYTES
      then Inl (invalid_setting_request cid
             (''Setting scope references cannot exceed '' @ decimal MAX_SETTING_SCOPE_REFERENCE_BYTES @ '' bytes.''))
      else if key = [] \<or> length key > MAX_SETTING_KEY_BYTES
      then Inl (invalid_setting_request cid
             (''Setting keys must contain between 1 and '' @ decimal MAX_SETTING_KEY_BYTES @ '' bytes.''))
      else Inr ())"

text \<open>\<^verbatim>\<open>serde_json::from_str\<close> on the bytes of a text.\<close>

definition parse_json :: "host \<Rightarrow> string \<Rightarrow> string + json" where
  "parse_json h s = h_from_slice h (text_bytes s)"

definition validate_setting_json :: "host \<Rightarrow> uuid \<Rightarrow> string \<Rightarrow> maestro_error + unit" where
  "validate_setting_json h cid value_json =
     (if length value_json > MAX_SETTING_VALUE_BYTES
      then Inl (invalid_setting_request cid (''Setting values cannot exceed '' @ decimal MAX_SETTING_VALUE_BYTES @ '' bytes.''))
      else (case parse_json h value_json of
              Inr _ \<Rightarrow> Inr ()
            | Inl _ \<Rightarrow> Inl (invalid_setting_request cid ''Setting values must contain valid JSON.'')))"

definition STRUCTURED_SCENARIOS :: "string list" where
  "STRUCTURED_SCENARIOS = [''structured/happy'', ''structured/fragmented'', ''structured/multi-frame-read'',
     ''structured/permission'', ''structured/user-input'', ''structured/gui-actions'', ''structured/nonzero'',
     ''structured/crash'', ''structured/malformed'', ''structured/incompatible'', ''structured/delay'', ''structured/stall'',
     ''structured/flood'', ''structured/resume'', ''structured/process-tree'', ''structured/ignore-term'']"

definition TUI_SCENARIOS :: "string list" where
  "TUI_SCENARIOS = [''tui/vt-baseline'', ''tui/alternate-screen'', ''tui/resize-mouse'', ''tui/osc-security'']"

definition validate_fake_session_request :: "uuid \<Rightarrow> string \<Rightarrow> nat option \<Rightarrow> maestro_error + unit" where
  "validate_fake_session_request cid scenario volume =
     (if scenario \<notin> set STRUCTURED_SCENARIOS
      then Inl (invalid_session_request cid ''The requested fake structured-session scenario is unsupported.'')
      else (case volume of
              Some value \<Rightarrow>
                if value = 0 \<or> value > MAX_FAKE_EVENT_VOLUME
                then Inl (invalid_session_request cid ''The fake-session event volume is outside its supported range.'')
                else Inr ()
            | None \<Rightarrow> Inr ()))"

definition validate_fake_tui_request :: "uuid \<Rightarrow> string \<Rightarrow> maestro_error + unit" where
  "validate_fake_tui_request cid scenario =
     (if scenario \<in> set TUI_SCENARIOS then Inr ()
      else Inl (invalid_session_request cid ''The requested fake exact-TUI scenario is unsupported.''))"

section \<open>Reading a session\<close>

definition redacted_text :: "string \<Rightarrow> string" where
  "redacted_text s = (case redact_text s of Some c \<Rightarrow> cow_text c | None \<Rightarrow> s)"

fun session_exit_of :: "exit_cause \<Rightarrow> session_exit" where
  "session_exit_of (Exited code) = SessionExited code"
| "session_exit_of (Signaled signal) = SessionSignaled signal"
| "session_exit_of ExitUnknown = SessionUnknown"

definition protocol_session_snapshot :: "fake_session_snapshot \<Rightarrow> session_snapshot" where
  "protocol_session_snapshot s =
     \<lparr>snap_session_id = sn_session_id s, snap_active_run_id = sn_active_run_id s, snap_state = sn_state s,
      snap_binding = sn_binding s, snap_latest_sequence = sn_latest_sequence s,
      snap_dropped_through_sequence = sn_dropped_through_sequence s,
      snap_stderr = redacted_text (from_utf8_lossy (sn_stderr s)), snap_stderr_truncated = sn_stderr_truncated s,
      snap_last_exit = map_option session_exit_of (sn_last_exit s),
      snap_last_error = map_option (\<lambda>e. \<lparr>ses_code = err_code e, ses_message = redacted_text (err_message e),
         ses_correlation_id = err_correlation_id e\<rparr>) (sn_last_error s)\<rparr>"

definition stored_metadata :: "daemon_env \<Rightarrow> session_id \<Rightarrow> persisted_session_metadata handler" where
  "stored_metadata v session =
     io_bind (on_storage (storage_session_read_error (dv_host v) (dv_cid v) session) (rt_session_metadata (dv_sql v 0) session))
       (\<lambda>metadata. io_return (ok_or (session_not_found_error (dv_host v) (dv_cid v) session) metadata))"

definition persisted_session_snapshot :: "daemon_env \<Rightarrow> session_id \<Rightarrow> session_snapshot handler" where
  "persisted_session_snapshot v session =
     io_bind (stored_metadata v session) (\<lambda>m. io_return (Inr
       \<lparr>snap_session_id = session, snap_active_run_id = sd_active_run_id m, snap_state = sd_state m, snap_binding = None,
        snap_latest_sequence = sd_latest_sequence m, snap_dropped_through_sequence = 0, snap_stderr = [],
        snap_stderr_truncated = False, snap_last_exit = None, snap_last_error = None\<rparr>))"

definition require_session_ownership :: "daemon_env \<Rightarrow> session_id \<Rightarrow> project_id \<Rightarrow> integration_mode \<Rightarrow> unit handler" where
  "require_session_ownership v session project mode =
     io_bind (stored_metadata v session) (\<lambda>m. io_return
       (if sd_project_id m \<noteq> project \<or> sd_integration_mode m \<noteq> mode
        then Inl (maestro_error_new (dv_cid v) PermissionDenied
               ''The session does not belong to this project or integration mode.'')
        else Inr ()))"

definition read_persisted_session_events :: "daemon_env \<Rightarrow> session_id \<Rightarrow> u64 \<Rightarrow> nat \<Rightarrow> session_event_batch handler" where
  "read_persisted_session_events v session after_sequence maximum_events =
     io_bind (on_storage (storage_session_read_error (dv_host v) (dv_cid v) session) (rt_session_metadata (dv_sql v 0) session)) (\<lambda>metadata.
     io_bind (on_storage (storage_session_read_error (dv_host v) (dv_cid v) session)
         (persisted_events (dv_sql v 1) session after_sequence maximum_events)) (\<lambda>events. io_return
       (case metadata of
          None \<Rightarrow> Inl (session_not_found_error (dv_host v) (dv_cid v) session)
        | Some m \<Rightarrow>
            if after_sequence > sd_latest_sequence m
            then Inl (invalid_session_request (dv_cid v) ''The session event cursor is newer than the durable event stream.'')
            else Inr \<lparr>seb_session_id = session, seb_events = events,
                      seb_next_sequence = (if events = [] then after_sequence else env_sequence (last events)),
                      seb_latest_sequence = sd_latest_sequence m, seb_replay_gap = None, seb_state = sd_state m\<rparr>)))"

text \<open>
  Reading live events. When none is there the handler may wait; \<open>dv_meanwhile\<close> is what the supervisor
  becomes until the wait is over, by an event or by the timeout.
\<close>

definition received_events ::
  "nat \<Rightarrow> session_id \<Rightarrow> nat \<Rightarrow> bool \<Rightarrow> (supervisor \<Rightarrow> supervisor) \<Rightarrow> session_subscription \<Rightarrow> supervisor \<Rightarrow>
   (subscription_error + event_envelope list) \<times> supervisor" where
  "received_events capacity session maximum_events waits meanwhile sb v =
     (case drain maximum_events capacity (live_events session v) sb of
        (Inl e, _) \<Rightarrow> (Inl e, v)
      | (Inr (e # es), _) \<Rightarrow> (Inr (e # es), v)
      | (Inr [], sb') \<Rightarrow>
          if waits then (fst (drain maximum_events capacity (live_events session (meanwhile v)) sb'), meanwhile v)
          else (Inr [], v))"

definition read_session_events ::
  "daemon_env \<Rightarrow> session_id \<Rightarrow> u64 \<Rightarrow> nat \<Rightarrow> u32 \<Rightarrow> session_event_batch handler" where
  "read_session_events v session after_sequence maximum_events wait_milliseconds d =
     (case subscribe_session (dv_host v) (dv_cid v) session after_sequence (dm_sessions d) of
        Inl e \<Rightarrow> if err_code e = SessionNotFound then read_persisted_session_events v session after_sequence maximum_events d
                 else (Inl e, d)
      | Inr sb \<Rightarrow>
          (case received_events (channel_capacity (fl_broadcast_events (sv_limits (dm_sessions d)))) session maximum_events
              (wait_milliseconds > 0) (dv_meanwhile v) sb (dm_sessions d) of
             (Inl e, sessions) \<Rightarrow> (Inl (session_subscription_error (dv_cid v) e), d\<lparr>dm_sessions := sessions\<rparr>)
           | (Inr events, sessions) \<Rightarrow>
               (and_then (sv_snapshot (dv_host v) (dv_cid v) session sessions) (\<lambda>snapshot. Inr
                  \<lparr>seb_session_id = session, seb_events = events,
                   seb_next_sequence = (if events = [] then after_sequence else env_sequence (last events)),
                   seb_latest_sequence = sn_latest_sequence snapshot, seb_replay_gap = sub_gap sb,
                   seb_state = sn_state snapshot\<rparr>),
                d\<lparr>dm_sessions := sessions\<rparr>)))"

text \<open>A page of a raw capture. A length fits in 64 bits.\<close>

definition raw_batch ::
  "uuid \<Rightarrow> session_id \<Rightarrow> run_id \<Rightarrow> bytes \<Rightarrow> u64 \<Rightarrow> bool \<Rightarrow> bool \<Rightarrow> u64 \<Rightarrow> u32 \<Rightarrow> maestro_error + session_raw_batch" where
  "raw_batch cid session run bs observed truncated complete after_offset maximum_bytes =
     (let captured_bytes = of_nat (length bs) :: u64 in
      if after_offset > captured_bytes
      then Inl (invalid_session_request cid ''The raw protocol cursor is newer than the retained capture.'')
      else let start = unat after_offset; finish = min (start + unat maximum_bytes) (length bs)
           in Inr \<lparr>srb_session_id = session, srb_run_id = run, srb_data = take (finish - start) (drop start bs),
                   srb_next_offset = of_nat finish, srb_captured_bytes = captured_bytes, srb_observed_bytes = observed,
                   srb_truncated = truncated, srb_complete = complete\<rparr>)"

text \<open>A live capture is stored before a page of it is answered; without one the stored capture is read.\<close>

definition stored_raw_batch :: "daemon_env \<Rightarrow> session_id \<Rightarrow> run_id \<Rightarrow> u64 \<Rightarrow> u32 \<Rightarrow> session_raw_batch handler" where
  "stored_raw_batch v session run after_offset maximum_bytes =
     io_bind (on_storage (storage_session_read_error (dv_host v) (dv_cid v) session)
         (persisted_raw_protocol_capture (dv_sql v 0) session run)) (\<lambda>capture. io_return
       (case capture of
          None \<Rightarrow> Inl (invalid_session_request (dv_cid v) ''Raw protocol capture was not enabled for this run.'')
        | Some c \<Rightarrow> raw_batch (dv_cid v) session run (prc_bytes c) (prc_observed_byte_count c) (prc_truncated c)
                     (prc_completed c) after_offset maximum_bytes))"

definition read_session_raw :: "daemon_env \<Rightarrow> session_id \<Rightarrow> run_id \<Rightarrow> u64 \<Rightarrow> u32 \<Rightarrow> session_raw_batch handler" where
  "read_session_raw v session run after_offset maximum_bytes d =
     (case sv_raw_capture (dv_host v) (dv_cid v) session run (dm_sessions d) of
        Inr (Some c) \<Rightarrow>
          io_bind (on_storage (storage_session_error (dv_cid v))
              (persist_raw_protocol_capture (h_uuid_text (dv_host v)) (dv_capture_directory v) (dv_sql v 0) (dv_now v) session run
                (rp_bytes c) (rp_observed_byte_count c) (rp_truncated c) (rp_complete c)))
            (\<lambda>_. io_return (raw_batch (dv_cid v) session run (rp_bytes c) (rp_observed_byte_count c) (rp_truncated c)
                (rp_complete c) after_offset maximum_bytes)) d
      | Inl e \<Rightarrow> if err_code e = SessionNotFound then stored_raw_batch v session run after_offset maximum_bytes d else (Inl e, d)
      | Inr None \<Rightarrow> stored_raw_batch v session run after_offset maximum_bytes d)"

end
