(* ===== verification/Daemon_Requests.thy ===== *)
theory Daemon_Requests
  imports Daemon Session_Properties
begin

text \<open>
  The dispatcher of requests and its handlers, \<^verbatim>\<open>handle_request\<close>, \<^verbatim>\<open>handle_session_request\<close> and
  \<^verbatim>\<open>handle_project_request\<close> of \<^verbatim>\<open>crates/maestrod/src/server.rs\<close>.
\<close>

section \<open>Kinds of requests\<close>

fun is_session_request :: "request \<Rightarrow> bool" where
  "is_session_request (ReqFakeSessionStart _ _ _ _ _) = True"
| "is_session_request (ReqFakeSessionResume _ _ _ _ _) = True"
| "is_session_request (ReqFakeTuiStart _ _ _ _) = True"
| "is_session_request (ReqSessionTerminalAttach _ _) = True"
| "is_session_request (ReqSessionStructuredAttach _ _) = True"
| "is_session_request (ReqSessionList _ _) = True"
| "is_session_request (ReqSessionSnapshot _) = True"
| "is_session_request (ReqSessionEventsRead _ _ _ _) = True"
| "is_session_request (ReqSessionRawRead _ _ _ _) = True"
| "is_session_request (ReqSessionPermissionRespond _ _ _ _) = True"
| "is_session_request (ReqSessionUserInputRespond _ _ _ _) = True"
| "is_session_request (ReqSessionGuiAction _ _ _ _) = True"
| "is_session_request (ReqSubscribeSession _ _) = True"
| "is_session_request (ReqUnsubscribeSession _) = True"
| "is_session_request (ReqStopSession _) = True"
| "is_session_request _ = False"

fun is_project_request :: "request \<Rightarrow> bool" where
  "is_project_request (ReqProjectRegister _ _ _) = True"
| "is_project_request (ReqProjectRecentList _) = True"
| "is_project_request (ReqProjectSetFavorite _ _) = True"
| "is_project_request (ReqProjectWindowLayoutLoad _ _) = True"
| "is_project_request (ReqProjectWindowLayoutSave _ _ _) = True"
| "is_project_request (ReqProjectDirectoryList _ _ _ _ _) = True"
| "is_project_request (ReqProjectFileRead _ _) = True"
| "is_project_request (ReqProjectFileSave _ _ _ _) = True"
| "is_project_request (ReqProjectSearch _ _ _) = True"
| "is_project_request (ReqProjectSearchCancel _) = True"
| "is_project_request (ReqProjectGitStatus _ _) = True"
| "is_project_request (ReqProjectGitBranch _ _) = True"
| "is_project_request (ReqProjectGitDiff _ _ _ _) = True"
| "is_project_request (ReqProjectGitWorktrees _ _) = True"
| "is_project_request _ = False"

text \<open>What the daemon answers while its storage is locked.\<close>

fun allowed_while_locked :: "request \<Rightarrow> bool" where
  "allowed_while_locked ReqPing = True"
| "allowed_while_locked ReqSystemSnapshot = True"
| "allowed_while_locked ReqStopAllWork = True"
| "allowed_while_locked (ReqStorageUnlock _) = True"
| "allowed_while_locked _ = False"

section \<open>Sessions\<close>

definition registered_root :: "daemon_env \<Rightarrow> project_id \<Rightarrow> path handler" where
  "registered_root v project d = (primary_root (dv_project v) (dm_projects d) project, d)"

text \<open>A \<^verbatim>\<open>PathBuf\<close> as a text: \<^verbatim>\<open>Path::to_str\<close>.\<close>

definition path_to_str :: "path \<Rightarrow> string option" where
  "path_to_str p = (if valid_utf8 (text_bytes (render_path p)) then Some (render_path p) else None)"

definition fake_title :: "string \<Rightarrow> string" where
  "fake_title scenario = ''Fake '' @ [CHR 0xC2, CHR 0xB7] @ '' '' @ scenario"

definition fake_tui_title :: "string \<Rightarrow> string" where
  "fake_tui_title scenario = ''Fake TUI '' @ [CHR 0xC2, CHR 0xB7] @ '' '' @ scenario"

definition start_session_monitor :: "session_id \<Rightarrow> run_id \<Rightarrow> u64 \<Rightarrow> daemon \<Rightarrow> daemon" where
  "start_session_monitor session run after_sequence d =
     d\<lparr>dm_active_sessions := dm_active_sessions d + 1,
       dm_monitors := dm_monitors d @ [StructuredMonitor session run after_sequence]\<rparr>"

definition start_tui_session_monitor :: "session_id \<Rightarrow> terminal_opened \<Rightarrow> daemon \<Rightarrow> daemon" where
  "start_tui_session_monitor session opened d =
     d\<lparr>dm_active_sessions := dm_active_sessions d + 1,
       dm_monitors := dm_monitors d @ [TerminalMonitor session (to_run_id opened) (to_terminal_id opened)]\<rparr>"

text \<open>
  Storing a run that was started. When that fails the run is stopped and the client gets the error.
\<close>

definition record_started_run ::
  "daemon_env \<Rightarrow> project_id \<Rightarrow> fake_run_handle \<Rightarrow> string \<Rightarrow> json \<Rightarrow> u64 \<Rightarrow> response handler" where
  "record_started_run v project run scenario invocation after_sequence d =
     (case start_session_run (dv_sql v 0) (dv_sql v 1) (dv_now v) project (fh_session_id run) (fh_run_id run) (fh_process_id run)
         (fake_title scenario) invocation (dm_storage d) of
        (Inl e, s) \<Rightarrow>
          (Inl (storage_session_error (dv_cid v) e),
           d\<lparr>dm_storage := s,
             dm_sessions := snd (sv_stop (dv_host v) (snd (dv_stamps v)) (dv_terminate v) (fh_session_id run) (fh_run_id run) (dm_sessions d))\<rparr>)
      | (Inr _, s) \<Rightarrow>
          (Inr (RespSessionRunStarted \<lparr>srs_session_id = fh_session_id run, srs_run_id = fh_run_id run, srs_process_id = fh_process_id run\<rparr>),
           start_session_monitor (fh_session_id run) (fh_run_id run) after_sequence (d\<lparr>dm_storage := s\<rparr>)))"

definition binding_json :: "string option \<Rightarrow> json" where
  "binding_json binding = option_json (map_option String binding)"

definition fake_session_start ::
  "daemon_env \<Rightarrow> project_id \<Rightarrow> string \<Rightarrow> string option \<Rightarrow> nat option \<Rightarrow> bool \<Rightarrow> response handler" where
  "fake_session_start v project scenario binding volume capture =
     io_bind (io_return (validate_fake_session_request (dv_cid v) scenario volume)) (\<lambda>_.
     io_bind (registered_root v project) (\<lambda>cwd.
     io_bind (\<lambda>d. on_sessions (start_with_volume_and_raw_capture (dv_host v) (fst (dv_stamps v)) (dv_session v) (dv_token v) (dv_run v)
         (dv_spawn v) \<lparr>lr_executable = dm_fake_agent d, lr_scenario = scenario, lr_cwd = render_path cwd, lr_binding = binding,
                       lr_volume = volume, lr_capture = capture\<rparr>) d) (\<lambda>run.
     record_started_run v project run scenario
       (Object [(''fixture'', String ''maestro-fake-agent''), (''scenario'', String scenario), (''binding'', binding_json binding),
                (''volume'', option_json (map_option nat_json volume)), (''raw_protocol_capture'', Bool capture)]) 0)))"

definition fake_session_resume ::
  "daemon_env \<Rightarrow> session_id \<Rightarrow> project_id \<Rightarrow> string \<Rightarrow> string option \<Rightarrow> bool \<Rightarrow> response handler" where
  "fake_session_resume v session project scenario binding capture =
     io_bind (io_return (validate_fake_session_request (dv_cid v) scenario None)) (\<lambda>_.
     io_bind (\<lambda>d. (sv_snapshot (dv_host v) (dv_cid v) session (dm_sessions d), d)) (\<lambda>snapshot.
     io_bind (registered_root v project) (\<lambda>cwd.
     io_bind (\<lambda>d. on_sessions (resume_with_raw_capture (dv_host v) (fst (dv_stamps v)) session (dv_token v) (dv_run v)
         (dv_spawn v) \<lparr>lr_executable = dm_fake_agent d, lr_scenario = scenario, lr_cwd = render_path cwd, lr_binding = binding,
                       lr_volume = None, lr_capture = capture\<rparr>) d) (\<lambda>run.
     record_started_run v project run scenario
       (Object [(''fixture'', String ''maestro-fake-agent''), (''scenario'', String scenario), (''binding'', binding_json binding),
                (''resume'', Bool True), (''raw_protocol_capture'', Bool capture)]) (sn_latest_sequence snapshot)))))"

text \<open>
  Opening a terminal stores it once its process runs; \<open>reached\<close> tells whether the manager comes that
  far, and the outcome of storing decides whether it keeps the process.
\<close>

definition stored_open ::
  "daemon_env \<Rightarrow> project_id \<Rightarrow> string \<Rightarrow> string \<Rightarrow> (terminal_manager \<Rightarrow> bool) \<Rightarrow>
   (bool \<Rightarrow> terminal_manager \<Rightarrow> (maestro_error + terminal_opened) \<times> terminal_manager) \<Rightarrow> terminal_opened handler" where
  "stored_open v project kind title reached opening d =
     (case rt_register_terminal (dv_sql v 0) (dv_now v) project (dv_terminal v) kind title (dm_storage d) of
        (registered, s) \<Rightarrow>
          on_terminals (opening (is_ok registered))
            (if reached (dm_terminals d) then d\<lparr>dm_storage := s\<rparr> else d))"

definition open_tui :: "daemon_env \<Rightarrow> project_id \<Rightarrow> string \<Rightarrow> path \<Rightarrow> u16 \<Rightarrow> u16 \<Rightarrow> terminal_opened handler" where
  "open_tui v project scenario cwd columns rows =
     stored_open v project ''agent_tui'' (fake_tui_title scenario)
       (\<lambda>m. is_ok (dv_pty v) \<and> (case path_to_str cwd of
          Some p \<Rightarrow> is_ok (fst (prepare_launch (dv_cid v) p columns rows (dv_probe v) m)) | None \<Rightarrow> False))
       (\<lambda>registered. open_tui_plan_for_project (dv_cid v) (dv_terminal v) (dv_pty v) registered (dv_terminated v) (dv_probe v) project
          (dv_run v) \<lparr>tp_transport_pty = True, tp_working_directory = path_to_str cwd, tp_writer_lease = None\<rparr> columns rows
          (fake_tui_title scenario))"

definition record_started_tui ::
  "daemon_env \<Rightarrow> project_id \<Rightarrow> terminal_opened \<Rightarrow> string \<Rightarrow> response handler" where
  "record_started_tui v project opened scenario d =
     (case persist_started_tui_session (h_uuid_text (dv_host v)) (\<lambda>n. dv_sql v (n + 1)) (dv_event v) (dv_now v) project (dv_session v)
         opened (fake_tui_title scenario)
         (Object [(''fixture'', String ''maestro-fake-agent''), (''scenario'', String scenario),
                  (''terminal_id'', terminal_json (h_uuid_text (dv_host v)) (to_terminal_id opened))]) (dm_storage d) of
        (Inl e, s) \<Rightarrow>
          (Inl (storage_session_error (dv_cid v) e),
           d\<lparr>dm_storage := s,
             dm_terminals := snd (terminal_close (h_uuid_text (dv_host v)) (dv_cid v) (dv_terminate v) (to_terminal_id opened) (dm_terminals d))\<rparr>)
      | (Inr _, s) \<Rightarrow>
          (Inr (RespSessionTerminalStarted \<lparr>sts_session_id = dv_session v, sts_terminal = opened\<rparr>),
           start_tui_session_monitor (dv_session v) opened
             (d\<lparr>dm_storage := s, dm_tui_sessions := (dm_tui_sessions d)(dv_session v \<mapsto> to_terminal_id opened)\<rparr>)))"

definition fake_tui_start :: "daemon_env \<Rightarrow> project_id \<Rightarrow> string \<Rightarrow> u16 \<Rightarrow> u16 \<Rightarrow> response handler" where
  "fake_tui_start v project scenario columns rows =
     io_bind (io_return (validate_fake_tui_request (dv_cid v) scenario)) (\<lambda>_.
     io_bind (registered_root v project) (\<lambda>cwd.
     io_bind (open_tui v project scenario cwd columns rows) (\<lambda>opened.
     record_started_tui v project opened scenario)))"

definition session_terminal_attach :: "daemon_env \<Rightarrow> session_id \<Rightarrow> project_id \<Rightarrow> response handler" where
  "session_terminal_attach v session project =
     io_bind (registered_root v project) (\<lambda>_.
     io_bind (require_session_ownership v session project PtyTui) (\<lambda>_.
     io_bind (\<lambda>d. (ok_or (maestro_error_new (dv_cid v) TerminalNotRunning ''The exact TUI session is not currently running.'')
         (dm_tui_sessions d session), d)) (\<lambda>t.
     io_bind (\<lambda>d. (attach_tui_for_project (h_uuid_text (dv_host v)) (dv_cid v) project t (dm_terminals d), d)) (\<lambda>opened.
     io_return (Inr (RespSessionTerminalAttached \<lparr>sta_session_id = session, sta_terminal = opened\<rparr>))))))"

definition session_structured_attach :: "daemon_env \<Rightarrow> session_id \<Rightarrow> project_id \<Rightarrow> response handler" where
  "session_structured_attach v session project =
     io_bind (registered_root v project) (\<lambda>_.
     io_bind (require_session_ownership v session project StructuredMode) (\<lambda>_.
     io_bind (\<lambda>d. (attach_active (dv_host v) (dv_cid v) session (dm_sessions d), d)) (\<lambda>run.
     io_return (Inr (RespSessionRunAttached
       \<lparr>sra_session_id = fh_session_id run, sra_run_id = fh_run_id run, sra_process_id = fh_process_id run\<rparr>)))))"

definition session_index :: "persisted_session_summary \<Rightarrow> session_index_entry" where
  "session_index s =
     \<lparr>si_session_id = su_session_id s, si_project_id = su_project_id s, si_agent_kind = su_agent_kind s,
      si_integration_mode = su_integration_mode s, si_state = su_state s, si_title = su_title s,
      si_active_run_id = su_active_run_id s, si_latest_sequence = su_latest_sequence s, si_updated_at = su_updated_at s\<rparr>"

definition session_list :: "daemon_env \<Rightarrow> project_id \<Rightarrow> nat \<Rightarrow> response handler" where
  "session_list v project maximum_sessions =
     (if maximum_sessions = 0 \<or> maximum_sessions > MAX_SESSION_INDEX_ENTRIES
      then io_return (Inl (invalid_session_request (dv_cid v) ''The session index limit is outside its supported range.''))
      else io_bind (registered_root v project) (\<lambda>_.
        io_bind (on_storage (storage_session_error (dv_cid v)) (persisted_sessions (dv_sql v 0) project maximum_sessions)) (\<lambda>sessions.
        io_return (Inr (RespSessionList (map session_index sessions))))))"

definition session_snapshot_request :: "daemon_env \<Rightarrow> session_id \<Rightarrow> response handler" where
  "session_snapshot_request v session d =
     (case sv_snapshot (dv_host v) (dv_cid v) session (dm_sessions d) of
        Inr snapshot \<Rightarrow> (Inr (RespSessionSnapshot (protocol_session_snapshot snapshot)), d)
      | Inl e \<Rightarrow>
          if err_code e = SessionNotFound
          then io_bind (persisted_session_snapshot v session) (\<lambda>s. io_return (Inr (RespSessionSnapshot s))) d
          else (Inl e, d))"

definition session_events_read :: "daemon_env \<Rightarrow> session_id \<Rightarrow> u64 \<Rightarrow> nat \<Rightarrow> u32 \<Rightarrow> response handler" where
  "session_events_read v session after_sequence maximum_events wait_milliseconds =
     (if maximum_events = 0 \<or> maximum_events > MAX_SESSION_EVENTS_PER_READ
      then io_return (Inl (invalid_session_request (dv_cid v) ''The session event read limit is outside its supported range.''))
      else if wait_milliseconds > MAX_SESSION_EVENT_WAIT_MILLISECONDS
      then io_return (Inl (invalid_session_request (dv_cid v) ''The session event wait duration is outside its supported range.''))
      else io_bind (read_session_events v session after_sequence maximum_events wait_milliseconds)
        (\<lambda>b. io_return (Inr (RespSessionEvents b))))"

definition session_raw_read :: "daemon_env \<Rightarrow> session_id \<Rightarrow> run_id \<Rightarrow> u64 \<Rightarrow> u32 \<Rightarrow> response handler" where
  "session_raw_read v session run after_offset maximum_bytes =
     (if maximum_bytes = 0 \<or> maximum_bytes > MAX_SESSION_RAW_READ_BYTES
      then io_return (Inl (invalid_session_request (dv_cid v) ''The raw protocol read limit is outside its supported range.''))
      else io_bind (read_session_raw v session run after_offset maximum_bytes) (\<lambda>b. io_return (Inr (RespSessionRaw b))))"

fun supervisor_decision :: "session_permission_decision \<Rightarrow> permission_decision" where
  "supervisor_decision PermitAllow = DecisionAllow"
| "supervisor_decision PermitDeny = DecisionDeny"
| "supervisor_decision PermitCancel = DecisionCancel"

definition session_permission_respond ::
  "daemon_env \<Rightarrow> session_id \<Rightarrow> run_id \<Rightarrow> string \<Rightarrow> session_permission_decision \<Rightarrow> response handler" where
  "session_permission_respond v session run request decision =
     io_bind (on_sessions (respond_permission (dv_host v) (fst (dv_stamps v)) (fst (dv_writes v)) (snd (dv_stamps v)) (snd (dv_writes v))
         session run request (supervisor_decision decision)))
       (\<lambda>_. io_return (Inr (RespSessionPermissionAccepted session request)))"

text \<open>A JSON text of a client: bounded, then parsed.\<close>

definition action_json :: "daemon_env \<Rightarrow> string \<Rightarrow> string \<Rightarrow> string \<Rightarrow> maestro_error + json" where
  "action_json v value_json too_large malformed =
     (if length value_json > MAX_SESSION_ACTION_BYTES then Inl (invalid_session_request (dv_cid v) too_large)
      else map_err (\<lambda>_. invalid_session_request (dv_cid v) malformed) (parse_json (dv_host v) value_json))"

definition session_user_input_respond ::
  "daemon_env \<Rightarrow> session_id \<Rightarrow> run_id \<Rightarrow> string \<Rightarrow> string \<Rightarrow> response handler" where
  "session_user_input_respond v session run request value_json =
     io_bind (io_return (action_json v value_json ''The session input exceeds the supported size.''
         ''The session input must contain valid JSON.'')) (\<lambda>value.
     io_bind (on_sessions (respond_user_input (dv_host v) (fst (dv_stamps v)) (fst (dv_writes v)) (snd (dv_stamps v)) (snd (dv_writes v))
         session run request value))
       (\<lambda>_. io_return (Inr (RespSessionUserInputAccepted session request))))"

definition session_gui_action :: "daemon_env \<Rightarrow> session_id \<Rightarrow> run_id \<Rightarrow> string \<Rightarrow> string \<Rightarrow> response handler" where
  "session_gui_action v session run action payload_json =
     io_bind (io_return (action_json v payload_json ''The GUI action payload exceeds the supported size.''
         ''The GUI action payload must contain valid JSON.'')) (\<lambda>payload.
     io_bind (on_sessions (send_gui_action (dv_host v) (fst (dv_stamps v)) (fst (dv_writes v)) (dv_action v) session run action payload))
       (\<lambda>action_id. io_return (Inr (RespSessionGuiActionAccepted session action_id))))"

definition subscribe_request :: "daemon_env \<Rightarrow> session_id \<Rightarrow> u64 \<Rightarrow> response handler" where
  "subscribe_request v session after_sequence d =
     (case subscribe_session (dv_host v) (dv_cid v) session after_sequence (dm_sessions d) of
        Inr _ \<Rightarrow> (Inr (RespSubscribed session), d)
      | Inl e \<Rightarrow>
          if err_code e = SessionNotFound
          then io_bind (persisted_session_snapshot v session) (\<lambda>s. io_return
            (if after_sequence > snap_latest_sequence s
             then Inl (invalid_session_request (dv_cid v) ''The session event cursor is newer than the durable event stream.'')
             else Inr (RespSubscribed session))) d
          else (Inl e, d))"

definition stop_session :: "daemon_env \<Rightarrow> session_id \<Rightarrow> response handler" where
  "stop_session v session d =
     (case sv_snapshot (dv_host v) (dv_cid v) session (dm_sessions d) of
        Inr snapshot \<Rightarrow>
          (case sn_active_run_id snapshot of
             Some run \<Rightarrow>
               io_bind (on_sessions (sv_stop (dv_host v) (fst (dv_stamps v)) (dv_terminate v) session run))
                 (\<lambda>_. io_return (Inr (RespSessionStopped session))) d
           | None \<Rightarrow> (Inr (RespSessionStopped session), d))
      | Inl e \<Rightarrow>
          if err_code e = SessionNotFound
          then (case dm_tui_sessions d session of
                  Some t \<Rightarrow>
                    io_bind (on_terminals (terminal_close (h_uuid_text (dv_host v)) (dv_cid v) (dv_terminate v) t))
                      (\<lambda>_. io_return (Inr (RespSessionStopped session))) d
                | None \<Rightarrow> io_bind (persisted_session_snapshot v session) (\<lambda>_. io_return (Inr (RespSessionStopped session))) d)
          else (Inl e, d))"

fun handle_session_request :: "daemon_env \<Rightarrow> request \<Rightarrow> response handler" where
  "handle_session_request v (ReqFakeSessionStart p scenario binding volume capture) = fake_session_start v p scenario binding volume capture"
| "handle_session_request v (ReqFakeSessionResume s p scenario binding capture) = fake_session_resume v s p scenario binding capture"
| "handle_session_request v (ReqFakeTuiStart p scenario columns rows) = fake_tui_start v p scenario columns rows"
| "handle_session_request v (ReqSessionTerminalAttach s p) = session_terminal_attach v s p"
| "handle_session_request v (ReqSessionStructuredAttach s p) = session_structured_attach v s p"
| "handle_session_request v (ReqSessionList p n) = session_list v p n"
| "handle_session_request v (ReqSessionSnapshot s) = session_snapshot_request v s"
| "handle_session_request v (ReqSessionEventsRead s c n w) = session_events_read v s c n w"
| "handle_session_request v (ReqSessionRawRead s r c n) = session_raw_read v s r c n"
| "handle_session_request v (ReqSessionPermissionRespond s r q decision) = session_permission_respond v s r q decision"
| "handle_session_request v (ReqSessionUserInputRespond s r q value_json) = session_user_input_respond v s r q value_json"
| "handle_session_request v (ReqSessionGuiAction s r action payload_json) = session_gui_action v s r action payload_json"
| "handle_session_request v (ReqSubscribeSession s c) = subscribe_request v s c"
| "handle_session_request v (ReqUnsubscribeSession s) = io_return (Inr (RespUnsubscribed s))"
| "handle_session_request v (ReqStopSession s) = stop_session v s"
| "handle_session_request v _ =
     io_return (Inl (invalid_session_request (dv_cid v) ''The request is not a session operation.''))"

section \<open>Projects\<close>

definition register_project :: "daemon_env \<Rightarrow> project_id \<Rightarrow> string \<Rightarrow> string list \<Rightarrow> project_registered handler" where
  "register_project v project display_name roots d =
     (case register_with_persistence (dv_project v) project display_name roots
         (\<lambda>g s. case rt_upsert_project_registration (dv_sql v 0) (dv_now v) (pg_project_id g) (pg_display_name g) (pg_canonical_roots g) s of
            (result, s) \<Rightarrow> (map_err (\<lambda>_. database_unavailable_error (dv_cid v)) result, s))
         (dm_projects d, dm_storage d) (dm_world d) of
        (result, (projects, s), w) \<Rightarrow> (result, d\<lparr>dm_projects := projects, dm_storage := s, dm_world := w\<rparr>))"

definition recent_project_of :: "persisted_project \<Rightarrow> recent_project" where
  "recent_project_of p =
     \<lparr>rp_project_id = pp_id p, rp_display_name = pp_display_name p, rp_canonical_roots = pp_canonical_roots p,
      rp_favorite = pp_favorite p, rp_last_opened_at = pp_last_opened_at p\<rparr>"

definition search_project :: "daemon_env \<Rightarrow> project_id \<Rightarrow> request_id \<Rightarrow> project_search_options \<Rightarrow> project_search_result handler" where
  "search_project v project search_id options d =
     (case pm_search (dv_project v) project search_id options (dm_projects d) (dm_world d) of
        (result, projects, w) \<Rightarrow> (result, d\<lparr>dm_projects := projects, dm_world := w\<rparr>))"

text \<open>The answer that a result becomes.\<close>

definition answering :: "('a \<Rightarrow> response) \<Rightarrow> 'a handler \<Rightarrow> response handler" where
  "answering f m = io_bind m (\<lambda>x. io_return (Inr (f x)))"

fun handle_project_request :: "daemon_env \<Rightarrow> request \<Rightarrow> response handler" where
  "handle_project_request v (ReqProjectRegister p display_name roots) =
     answering RespProjectRegistered (register_project v p display_name roots)"
| "handle_project_request v (ReqProjectRecentList n) =
     answering (\<lambda>ps. RespProjectRecentList (map recent_project_of ps))
       (on_storage (storage_project_error (dv_cid v)) (rt_recent_projects (dv_sql v 0) n))"
| "handle_project_request v (ReqProjectSetFavorite p favorite) =
     answering (\<lambda>_. RespProjectFavoriteUpdated p favorite)
       (on_storage (storage_project_error (dv_cid v)) (rt_set_project_favorite (dv_sql v 0) (dv_now v) p favorite))"
| "handle_project_request v (ReqProjectWindowLayoutLoad p window_key) =
     answering (\<lambda>layout. RespProjectWindowLayout \<lparr>pw_project_id = p, pw_window_key = window_key, pw_layout_json = layout\<rparr>)
       (on_storage (storage_project_error (dv_cid v)) (rt_window_layout (dv_sql v 0) p window_key))"
| "handle_project_request v (ReqProjectWindowLayoutSave p window_key layout_json) =
     answering (\<lambda>_. RespProjectWindowLayoutSaved p window_key)
       (on_storage (storage_project_error (dv_cid v))
         (rt_save_window_layout (\<lambda>t. is_ok (parse_json (dv_host v) t)) (dv_sql v 0) (dv_now v) p window_key layout_json))"
| "handle_project_request v (ReqProjectDirectoryList p directory cursor n hidden) =
     answering RespProjectDirectoryPage (on_files (\<lambda>pm. pm_list_directory (dv_project v) pm p directory cursor n hidden))"
| "handle_project_request v (ReqProjectFileRead p file_path) =
     answering RespProjectTextFile (on_files (\<lambda>pm. pm_read_file (dv_project v) pm p file_path))"
| "handle_project_request v (ReqProjectFileSave p file_path content fingerprint) =
     answering RespProjectFileSaved (on_files (\<lambda>pm. pm_save_file (dv_project v) pm p file_path content fingerprint))"
| "handle_project_request v (ReqProjectSearch p search_id options) =
     answering RespProjectSearchResult (search_project v p search_id options)"
| "handle_project_request v (ReqProjectSearchCancel search_id) =
     answering (\<lambda>_. RespProjectSearchCancelled search_id)
       (\<lambda>d. case cancel_search search_id (dm_projects d) of (result, projects) \<Rightarrow> (result, d\<lparr>dm_projects := projects\<rparr>))"
| "handle_project_request v (ReqProjectGitStatus p repository) =
     answering RespProjectGitStatus (on_files (\<lambda>pm. pm_git_status (dv_project v) pm p repository))"
| "handle_project_request v (ReqProjectGitBranch p repository) =
     answering RespProjectGitBranch (on_files (\<lambda>pm. pm_git_branch (dv_project v) pm p repository))"
| "handle_project_request v (ReqProjectGitDiff p repository scope n) =
     answering RespProjectGitDiff (on_files (\<lambda>pm. pm_git_diff (dv_project v) pm p repository scope n))"
| "handle_project_request v (ReqProjectGitWorktrees p repository) =
     answering RespProjectGitWorktrees (on_files (\<lambda>pm. pm_git_worktrees (dv_project v) pm p repository))"
| "handle_project_request v _ =
     io_return (Inl (maestro_error_new (dv_cid v) InvalidRequest ''The request is not a project operation.''))"

section \<open>The dispatcher\<close>

text \<open>\<^verbatim>\<open>u32::try_from(n).unwrap_or(u32::MAX)\<close>.\<close>

definition saturated_u32 :: "nat \<Rightarrow> u32" where
  "saturated_u32 n = (if n < 2 ^ 32 then of_nat n else - 1)"

definition system_snapshot_of :: "daemon_env \<Rightarrow> daemon \<Rightarrow> system_snapshot" where
  "system_snapshot_of v d =
     (case storage_snapshot (dv_sql v 0) (dm_storage d) of
        (status, schema) \<Rightarrow>
          \<lparr>sy_daemon_version = dv_daemon_version v, sy_locked = is_locked status, sy_storage = status,
           sy_storage_schema_version = schema, sy_active_sessions = dm_active_sessions d,
           sy_active_terminals = saturated_u32 (terminal_count (dm_terminals d)), sy_installed_agents = []\<rparr>)"

definition stop_all_work :: "daemon_env \<Rightarrow> response handler" where
  "stop_all_work v d =
     (let terminals_closed = saturated_u32 (terminal_count (dm_terminals d))
      in case stop_all (dv_host v) (dv_session_stops v) (dv_session_order v) (dm_sessions d) of
           (halted, sessions) \<Rightarrow>
             (case close_all (h_uuid_text (dv_host v)) (dv_cid v) (dv_terminal_closes v) (dv_terminal_order v) (dm_terminals d) of
                (_, terminals) \<Rightarrow>
                  (Inr (RespBackgroundWorkStopped (saturated_u32 halted) terminals_closed),
                   d\<lparr>dm_sessions := sessions, dm_terminals := terminals\<rparr>)))"

definition setting_load :: "daemon_env \<Rightarrow> string \<Rightarrow> string \<Rightarrow> string \<Rightarrow> response handler" where
  "setting_load v scope reference key =
     io_bind (io_return (validate_setting_identity (dv_cid v) scope reference key)) (\<lambda>_.
     io_bind (on_storage (\<lambda>_. database_unavailable_error (dv_cid v)) (rt_setting (dv_sql v 0) scope reference key)) (\<lambda>value_json.
     io_return (Inr (RespSettingValue scope reference key value_json))))"

definition setting_save :: "daemon_env \<Rightarrow> string \<Rightarrow> string \<Rightarrow> string \<Rightarrow> string \<Rightarrow> response handler" where
  "setting_save v scope reference key value_json =
     io_bind (io_return (validate_setting_identity (dv_cid v) scope reference key)) (\<lambda>_.
     io_bind (io_return (validate_setting_json (dv_host v) (dv_cid v) value_json)) (\<lambda>_.
     io_bind (on_storage (\<lambda>_. database_unavailable_error (dv_cid v)) (rt_save_setting (dv_sql v 0) (dv_now v) scope reference key value_json)) (\<lambda>_.
     io_return (Inr (RespSettingSaved scope reference key)))))"

definition terminal_open :: "daemon_env \<Rightarrow> project_id \<Rightarrow> string \<Rightarrow> u16 \<Rightarrow> u16 \<Rightarrow> terminal_opened handler" where
  "terminal_open v project cwd columns rows =
     io_bind (on_files (\<lambda>pm. terminal_cwd (dv_project v) pm project cwd)) (\<lambda>canonical.
     io_bind (io_return (ok_or (maestro_error_new (dv_cid v) InvalidPath ''terminal working directory cannot be represented safely'')
         (path_to_str canonical))) (\<lambda>directory.
     stored_open v project ''shell'' ''Shell terminal''
       (\<lambda>m. is_ok (dv_pty v) \<and> is_ok (fst (prepare_launch (dv_cid v) directory columns rows (dv_probe v) m)))
       (\<lambda>registered. open_for_project (dv_cid v) (dv_terminal v) (dv_run v) (dv_pty v) registered (dv_terminated v) (dv_probe v)
          project directory columns rows)))"

text \<open>Reading from the terminals without changing them.\<close>

definition asking_terminals :: "(terminal_manager \<Rightarrow> maestro_error + 'a) \<Rightarrow> 'a handler" where
  "asking_terminals f d = (f (dm_terminals d), d)"

text \<open>
  The requests that the dispatcher answers itself. The last equation stands for the \<^verbatim>\<open>unreachable!\<close> arms:
  \<open>handle_client_request\<close> sends those requests to the other two handlers.
\<close>

fun handle_direct_request :: "daemon_env \<Rightarrow> request \<Rightarrow> response handler" where
  "handle_direct_request v (ReqTerminalOpen p cwd columns rows) = answering RespTerminalOpened (terminal_open v p cwd columns rows)"
| "handle_direct_request v (ReqTerminalList p n) =
     io_bind (registered_root v p) (\<lambda>_. answering RespTerminalList
       (asking_terminals (list_for_project (h_uuid_text (dv_host v)) (dv_cid v) (dv_terminal_order v) p n)))"
| "handle_direct_request v (ReqTerminalAttach p t) =
     io_bind (registered_root v p) (\<lambda>_. answering RespTerminalAttached
       (asking_terminals (attach_shell_for_project (h_uuid_text (dv_host v)) (dv_cid v) p t)))"
| "handle_direct_request v (ReqTerminalWrite t bs) =
     answering (\<lambda>_. RespTerminalWriteAccepted t)
       (on_terminals (terminal_write (h_uuid_text (dv_host v)) (dv_cid v) (fst (dv_writes v)) t bs))"
| "handle_direct_request v (ReqTerminalResize t columns rows) =
     answering (\<lambda>_. RespTerminalResized t)
       (on_terminals (terminal_resize (h_uuid_text (dv_host v)) (dv_cid v) (fst (dv_writes v)) t columns rows))"
| "handle_direct_request v (ReqTerminalRead t c n w) =
     answering RespTerminalRead
       (asking_terminals (terminal_read (h_uuid_text (dv_host v)) (dv_cid v) t c n w (dv_later_terminal v)))"
| "handle_direct_request v (ReqTerminalState t) =
     answering RespTerminalState (asking_terminals (terminal_status_of (h_uuid_text (dv_host v)) (dv_cid v) t))"
| "handle_direct_request v (ReqTerminalClose t) =
     answering RespTerminalClosed (on_terminals (terminal_close (h_uuid_text (dv_host v)) (dv_cid v) (dv_terminate v) t))"
| "handle_direct_request v ReqPing = io_return (Inr RespPong)"
| "handle_direct_request v ReqSystemSnapshot = (\<lambda>d. (Inr (RespSystemSnapshot (system_snapshot_of v d)), d))"
| "handle_direct_request v ReqStopAllWork = stop_all_work v"
| "handle_direct_request v (ReqStorageUnlock passphrase) =
     answering (\<lambda>_. RespStorageUnlocked)
       (on_storage (storage_unlock_error (dv_cid v)) (unlock passphrase (dv_unlock_key v) (dv_unlock v)))"
| "handle_direct_request v (ReqSettingLoad scope reference key) = setting_load v scope reference key"
| "handle_direct_request v (ReqSettingSave scope reference key value_json) = setting_save v scope reference key value_json"
| "handle_direct_request v _ = io_return (Inl (maestro_error_new (dv_cid v) Internal ''unreachable: routed to another handler''))"

definition handle_client_request :: "daemon_env \<Rightarrow> request \<Rightarrow> response handler" where
  "handle_client_request v q d =
     (let status = fst (storage_snapshot (dv_sql v 0) (dm_storage d))
      in if is_locked status \<and> \<not> allowed_while_locked q then (Inl (locked_storage_error (dv_cid v) status), d)
         else if is_session_request q then handle_session_request v q d
         else if is_project_request q then handle_project_request v q d
         else handle_direct_request v q d)"

section \<open>Answers have the form their requests ask for\<close>

definition sessions_keyed :: "daemon \<Rightarrow> bool" where
  "sessions_keyed d \<longleftrightarrow> (\<forall>session r. sv_sessions (dm_sessions d) session = Some r \<longrightarrow> sr_session_id r = session)"

lemma answering_Inr: "answering f m d = (Inr y, d') \<longleftrightarrow> (\<exists>x. m d = (Inr x, d') \<and> y = f x)"
  by (auto simp: answering_def io_bind_Inr)

lemma launch_session:
  assumes "launch h l st token run spawn q (w, r) = (Inr x, w', r')"
  shows "fh_session_id x = sr_session_id r"
proof -
  have same: "sr_session_id r1 = sr_session_id r0" if "launch_reserved h l st token run spawn q r0 = (Inr pid, r1)" for pid r0 r1
    using launch_reserved_Inr [OF that] by (simp add: commit_run_def starting_record_def set_state_def)
  obtain c w1 where c: "(case lr_binding q of Some b \<Rightarrow> claim_binding h (st_cid st) b token (sr_session_id r) w | None \<Rightarrow> (Inr (), w)) = (c, w1)"
    by (metis surj_pair)
  obtain y r1 where y: "launch_reserved h l st token run spawn q (r\<lparr>sr_launching := True\<rparr>) = (y, r1)" by (metis surj_pair)
  obtain u where "validate_launch (st_cid st) (lr_executable q) (lr_scenario q) (lr_cwd q) (lr_binding q) = Inr u"
    "\<not> sr_launching r" using assms by (auto simp: launch_def split: sum.splits if_splits)
  then obtain u' pid where ok: "c = Inr u'" "y = Inr pid"
    using assms c y by (cases c; cases y) (auto simp: launch_def drop_guard_def split: if_splits)
  then show ?thesis
    using assms c y same [of "r\<lparr>sr_launching := True\<rparr>" pid r1] \<open>\<not> sr_launching r\<close>
      \<open>validate_launch _ _ _ _ _ = Inr u\<close>
    by (auto simp: launch_def drop_guard_def split: sum.splits prod.splits)
qed

lemma resume_session:
  assumes "resume_with_raw_capture h st session token run spawn q v = (Inr x, v')"
    and "\<And>r. sv_sessions v session = Some r \<Longrightarrow> sr_session_id r = session"
  shows "fh_session_id x = session"
  using assms
  by (auto simp: resume_with_raw_capture_def sv_session_def Let_def ok_or_def split: sum.splits option.splits if_splits prod.splits
      dest!: launch_session)

lemma raw_batch_ids:
  assumes "raw_batch cid session run bs ob tr co after n = Inr b"
  shows "srb_session_id b = session \<and> srb_run_id b = run"
proof (cases "after > (of_nat (length bs) :: u64)")
  case True
  with assms show ?thesis unfolding raw_batch_def Let_def by (simp only: if_True sum.distinct)
next
  case False
  then obtain data next_offset where "b = \<lparr>srb_session_id = session, srb_run_id = run, srb_data = data, srb_next_offset = next_offset,
      srb_captured_bytes = of_nat (length bs), srb_observed_bytes = ob, srb_truncated = tr, srb_complete = co\<rparr>"
    using assms unfolding raw_batch_def Let_def by (simp only: if_False sum.inject) metis
  then show ?thesis by (simp only: session_raw_batch.select_convs)
qed

lemma stored_raw_ids:
  "stored_raw_batch v session run after n d = (Inr b, d') \<Longrightarrow> srb_session_id b = session \<and> srb_run_id b = run"
  by (auto simp: stored_raw_batch_def io_bind_Inr dest: raw_batch_ids split: option.splits)

lemma read_raw_ids:
  "read_session_raw v session run after n d = (Inr b, d') \<Longrightarrow> srb_session_id b = session \<and> srb_run_id b = run"
  by (auto simp: read_session_raw_def io_bind_Inr dest: raw_batch_ids stored_raw_ids split: sum.splits option.splits if_splits)

lemma persisted_events_id:
  "read_persisted_session_events v session after n d = (Inr b, d') \<Longrightarrow> seb_session_id b = session"
  by (auto simp: read_persisted_session_events_def io_bind_Inr split: option.splits if_splits)

lemma read_events_id:
  "read_session_events v session after n w d = (Inr b, d') \<Longrightarrow> seb_session_id b = session"
  by (auto simp: read_session_events_def and_then_Inr_iff dest: persisted_events_id split: sum.splits prod.splits if_splits)

lemma snapshot_id:
  "sv_snapshot h cid session supervisor_state = Inr x \<Longrightarrow> sn_session_id x = session"
  "persisted_session_snapshot v session d = (Inr y, d') \<Longrightarrow> snap_session_id y = session"
  by (auto simp: sv_snapshot_def and_then_Inr_iff persisted_session_snapshot_def io_bind_Inr)

lemma terminal_read_id: "terminal_read id_text cid t c n w later m = Inr y \<Longrightarrow> tr_terminal_id y = t"
proof -
  have page: "terminal_read_snapshot cid t c k s = Inr z \<Longrightarrow> tr_terminal_id z = t" for k s z
    by (auto simp: terminal_read_snapshot_def and_then_Inr_iff)
  show "terminal_read id_text cid t c n w later m = Inr y \<Longrightarrow> tr_terminal_id y = t"
    unfolding terminal_read_def and_then_Inr_iff by (auto simp: and_then_Inr_iff split: if_splits dest: page)
qed

lemma terminal_ids:
  "attach_shell_for_project id_text cid p t m = Inr x \<Longrightarrow> to_terminal_id x = t"
  "terminal_status_of id_text cid t m = Inr z \<Longrightarrow> tu_terminal_id z = t"
  by (auto simp: attach_shell_for_project_def attach_for_project_kind_def session_opened_def terminal_status_of_def
      session_status_def and_then_Inr_iff split: if_splits option.splits)

lemma terminal_close_id: "terminal_close id_text cid terminated t m = (Inr u, m') \<Longrightarrow> tu_terminal_id u = t"
proof -
  have finish: "tu_terminal_id (fst (finish_close t s m)) = t" for s m
    by (simp add: finish_close_def session_status_def Let_def)
  assume "terminal_close id_text cid terminated t m = (Inr u, m')"
  then show ?thesis
    unfolding terminal_close_def Let_def
    by (auto split: sum.splits if_splits prod.splits option.splits bool.splits) (metis finish fst_conv)+
qed

lemma record_started_run_Inr:
  assumes "record_started_run v p run scenario invocation c d = (Inr y, d')"
  shows "\<exists>r. y = RespSessionRunStarted r \<and> srs_session_id r = fh_session_id run"
proof -
  obtain res s where "start_session_run (dv_sql v 0) (dv_sql v 1) (dv_now v) p (fh_session_id run) (fh_run_id run) (fh_process_id run)
      (fake_title scenario) invocation (dm_storage d) = (res, s)" by fastforce
  with assms show ?thesis by (cases res) (auto simp: record_started_run_def)
qed

lemma record_started_tui_Inr:
  assumes "record_started_tui v p opened scenario d = (Inr y, d')"
  shows "\<exists>t. y = RespSessionTerminalStarted t"
proof -
  obtain res s where "persist_started_tui_session (h_uuid_text (dv_host v)) (\<lambda>n. dv_sql v (n + 1)) (dv_event v) (dv_now v) p (dv_session v)
      opened (fake_tui_title scenario)
      (Object [(''fixture'', String ''maestro-fake-agent''), (''scenario'', String scenario),
               (''terminal_id'', terminal_json (h_uuid_text (dv_host v)) (to_terminal_id opened))]) (dm_storage d) = (res, s)" by fastforce
  with assms show ?thesis by (cases res) (auto simp: record_started_tui_def)
qed

lemma on_sessions_Inr:
  "on_sessions f d = (Inr x, d') \<longleftrightarrow> (\<exists>v. f (dm_sessions d) = (Inr x, v) \<and> d' = d\<lparr>dm_sessions := v\<rparr>)"
  by (auto simp: on_sessions_def split: prod.splits)

lemma session_answers:
  assumes "sessions_keyed d" "is_session_request q" "handle_session_request v q d = (Inr y, d')"
  shows "answers q y"
proof (cases q)
  case (ReqFakeSessionStart p scenario binding volume capture)
  with assms(3) show ?thesis
    by (auto simp: fake_session_start_def io_bind_Inr intro: answers.intros dest!: record_started_run_Inr)
next
  case (ReqFakeSessionResume s p scenario binding capture)
  with assms(3) obtain run cwd v' where
    run: "resume_with_raw_capture (dv_host v) (fst (dv_stamps v)) s (dv_token v) (dv_run v) (dv_spawn v)
        \<lparr>lr_executable = dm_fake_agent d, lr_scenario = scenario, lr_cwd = cwd, lr_binding = binding, lr_volume = None, lr_capture = capture\<rparr>
        (dm_sessions d) = (Inr run, v')"
    and y: "\<exists>r. y = RespSessionRunStarted r \<and> srs_session_id r = fh_session_id run"
    by (auto simp: fake_session_resume_def io_bind_Inr registered_root_def on_sessions_Inr dest!: record_started_run_Inr)
  have "fh_session_id run = s" by (rule resume_session [OF run]) (use assms(1) in \<open>simp add: sessions_keyed_def\<close>)
  then show ?thesis using y ReqFakeSessionResume by (auto intro: answers.intros)
next
  case (ReqFakeTuiStart p scenario columns rows)
  with assms(3) show ?thesis
    by (auto simp: fake_tui_start_def io_bind_Inr intro: answers.intros dest!: record_started_tui_Inr)
next
  case (ReqSessionTerminalAttach s p)
  with assms(3) show ?thesis by (auto simp: session_terminal_attach_def io_bind_Inr intro: answers.intros)
next
  case (ReqSessionStructuredAttach s p)
  with assms(3) show ?thesis
    by (auto simp: session_structured_attach_def io_bind_Inr attach_active_def and_then_Inr_iff intro!: answers.intros
        split: option.splits if_splits)
next
  case (ReqSessionList p n)
  with assms(3) show ?thesis by (auto simp: session_list_def io_bind_Inr intro: answers.intros split: if_splits)
next
  case (ReqSessionSnapshot s)
  with assms(3) show ?thesis
    by (auto simp: session_snapshot_request_def io_bind_Inr protocol_session_snapshot_def dest!: snapshot_id intro!: answers.intros
        split: sum.splits if_splits)
next
  case (ReqSessionEventsRead s c n w)
  with assms(3) show ?thesis
    by (auto simp: session_events_read_def io_bind_Inr dest!: read_events_id intro!: answers.intros split: if_splits)
next
  case (ReqSessionRawRead s r c n)
  with assms(3) show ?thesis
    by (auto simp: session_raw_read_def io_bind_Inr dest!: read_raw_ids intro!: answers.intros split: if_splits)
next
  case (ReqSessionPermissionRespond s r i decision)
  with assms(3) show ?thesis by (auto simp: session_permission_respond_def io_bind_Inr intro: answers.intros)
next
  case (ReqSessionUserInputRespond s r i t)
  with assms(3) show ?thesis by (auto simp: session_user_input_respond_def io_bind_Inr intro: answers.intros)
next
  case (ReqSessionGuiAction s r action t)
  with assms(3) show ?thesis by (auto simp: session_gui_action_def io_bind_Inr intro: answers.intros)
next
  case (ReqSubscribeSession s c)
  with assms(3) show ?thesis
    by (auto simp: subscribe_request_def io_bind_Inr intro: answers.intros split: sum.splits if_splits)
next
  case (ReqStopSession s)
  with assms(3) show ?thesis
    by (auto simp: stop_session_def io_bind_Inr intro: answers.intros split: sum.splits if_splits option.splits)
qed (use assms in \<open>auto intro: answers.intros\<close>)

lemma project_answers:
  "is_project_request q \<Longrightarrow> handle_project_request v q d = (Inr y, d') \<Longrightarrow> answers q y"
  by (cases q) (auto simp: answering_Inr intro!: answers.intros)

lemma direct_answers:
  assumes "\<not> is_session_request q" "\<not> is_project_request q" "handle_direct_request v q d = (Inr y, d')"
  shows "answers q y"
  using assms
  by (cases q) (auto simp: answering_Inr io_bind_Inr asking_terminals_def on_terminals_def stop_all_work_def setting_load_def setting_save_def
      Let_def dest!: terminal_ids terminal_read_id terminal_close_id intro!: answers.intros split: prod.splits)

lemma locked_refuses_request:
  assumes "handle_client_request v q d = (Inr y, d')" "is_locked (fst (storage_snapshot (dv_sql v 0) (dm_storage d)))"
  shows "allowed_while_locked q"
proof (rule ccontr)
  assume "\<not> allowed_while_locked q"
  then have "\<not> is_ok (fst (handle_client_request v q d))" using assms(2) by (simp add: handle_client_request_def Let_def is_ok_iff)
  then show False using assms(1) by simp
qed

lemma dispatched_answers:
  assumes "sessions_keyed d" "handle_client_request v q d = (Inr y, d')"
  shows "answers q y"
proof -
  consider "handle_session_request v q d = (Inr y, d')" "is_session_request q"
    | "handle_project_request v q d = (Inr y, d')" "is_project_request q"
    | "handle_direct_request v q d = (Inr y, d')" "\<not> is_session_request q" "\<not> is_project_request q"
    using assms(2) unfolding handle_client_request_def Let_def by (auto split: if_splits)
  then show ?thesis by cases (rule session_answers [OF assms(1)] project_answers direct_answers; assumption)+
qed

text \<open>
  C35. The dispatcher is well typed. A successful answer has the form that its request asks for and
  repeats the identifiers of the request, for each of the requests of the protocol; and while the
  storage is locked only a ping, the status, the stop of all work and an unlock are answered at all.
\<close>

theorem answers_requests:
  assumes "sessions_keyed d" "handle_client_request v q d = (Inr y, d')"
  shows "answers q y \<and> (is_locked (fst (storage_snapshot (dv_sql v 0) (dm_storage d))) \<longrightarrow> allowed_while_locked q)"
  using dispatched_answers [OF assms] locked_refuses_request [OF assms(2)] by blast

definition quiet_daemon_env :: daemon_env where
  "quiet_daemon_env =
     \<lparr>dv_host = sample_host, dv_daemon_version = ''0.1.0'', dv_cid = 1, dv_now = 7, dv_sql = (\<lambda>_. True),
      dv_session = SessionId 2, dv_run = RunId 3, dv_terminal = TerminalId 4, dv_event = EventId 5, dv_token = 6, dv_action = 7,
      dv_stamps = (sample_stamp, sample_stamp), dv_writes = (Inr (), Inr ()), dv_spawn = Inl MissingProcessId, dv_pty = Inr 44,
      dv_terminate = Inr (Exited 0), dv_terminated = True, dv_probe = sample_probe, dv_project = sample_env,
      dv_unlock_key = Inr [9], dv_unlock = good_draws, dv_capture_directory = Inr ''/c'', dv_session_order = [],
      dv_session_stops = (\<lambda>_. (sample_stamp, Inr (Exited 0))), dv_terminal_order = [], dv_terminal_closes = (\<lambda>_. Inr (Exited 0)),
      dv_meanwhile = id, dv_later_terminal = terminal_session_new (RunId 3) 44 None ''/w'' None (80, 24)\<rparr>"

definition locked_daemon :: daemon where
  "locked_daemon =
     \<lparr>dm_active_sessions = 0, dm_connected_clients = 1, dm_shutting_down = False, dm_sessions = empty_supervisor,
      dm_fake_agent = ''agent'', dm_projects = project_manager_default, dm_storage = locked_runtime stored_file,
      dm_terminals = terminal_manager_with_storage 1, dm_tui_sessions = Map.empty, dm_monitors = [], dm_world = sample_world\<rparr>"

lemma locked_daemon_status:
  "storage_snapshot (dv_sql quiet_daemon_env 0) (dm_storage locked_daemon) = (PassphraseRequired UnlockExisting, None)"
  by (simp add: storage_snapshot_def locked_daemon_def locked_runtime_def)

theorem answers_requests_witness:
  "\<exists>s. fst (handle_client_request quiet_daemon_env ReqSystemSnapshot locked_daemon) = Inr (RespSystemSnapshot s) \<and> sy_locked s \<and>
     answers ReqSystemSnapshot (RespSystemSnapshot s)"
proof -
  let ?s = "system_snapshot_of quiet_daemon_env locked_daemon"
  have "sessions_keyed locked_daemon" by (simp add: sessions_keyed_def locked_daemon_def empty_supervisor_def)
  moreover have h: "handle_client_request quiet_daemon_env ReqSystemSnapshot locked_daemon = (Inr (RespSystemSnapshot ?s), locked_daemon)"
    by (simp add: handle_client_request_def)
  ultimately have "answers ReqSystemSnapshot (RespSystemSnapshot ?s)" using answers_requests by blast
  moreover have "sy_locked ?s" by (simp add: system_snapshot_of_def locked_daemon_status is_locked_def)
  ultimately show ?thesis using h by auto
qed

end
