(* ===== verification/Daemon_Invariant.thy ===== *)
theory Daemon_Invariant
  imports Daemon_Requests
begin

text \<open>
  What every request keeps of the daemon: the sessions stay bounded and filed under their identifiers,
  the projects keep opened roots, the storage keeps its tables and its events.
\<close>

section \<open>Operations keep the identifier of a session\<close>

lemma pending_ids [simp]:
  "sr_session_id (update_run run f r) = sr_session_id r" "sr_session_id (set_pending run t r) = sr_session_id r"
  "sr_session_id (update_waiting_state run r) = sr_session_id r"
  by (simp_all add: update_run_def set_pending_def update_waiting_state_def)

lemma write_ids [simp]:
  "sr_session_id (snd (write_json_bytes cid wr run bytes r)) = sr_session_id r"
  "sr_session_id (snd (write_json h l cid wr run x r)) = sr_session_id r"
proof -
  show bytes: "sr_session_id (snd (write_json_bytes cid wr run bytes r)) = sr_session_id r" for bytes
    by (auto simp: write_json_bytes_def split: sum.split process_error.split)
  show "sr_session_id (snd (write_json h l cid wr run x r)) = sr_session_id r"
    using bytes by (auto simp: write_json_def split: sum.split prod.split) (metis snd_conv)+
qed

lemma tracker_ids [simp]:
  "sr_session_id (snd (register_pending l st run i k r)) = sr_session_id r"
  "sr_session_id (snd (claim_pending st run i k r)) = sr_session_id r"
  "sr_session_id (snd (complete_pending st run i k r)) = sr_session_id r"
  "sr_session_id (snd (restore_pending run i k r)) = sr_session_id r"
  "sr_session_id (snd (mark_pending_delivery_uncertain run i k r)) = sr_session_id r"
  by (auto simp: register_pending_def claim_pending_def complete_pending_def restore_pending_def mark_pending_delivery_uncertain_def
      split: sum.split prod.split)

lemma expire_id [simp]: "sr_session_id (expire_request h l st wr run i k r) = sr_session_id r"
  by (auto simp: expire_request_def Let_def split: prod.split option.split)

lemma undelivered_id [simp]: "sr_session_id (undelivered h l st wr run i k r) = sr_session_id r"
proof -
  obtain b r1 where p: "restore_pending run i k r = (b, r1)" by fastforce
  then have "sr_session_id r1 = sr_session_id r" by (metis tracker_ids(4) snd_conv)
  then show ?thesis using p by (cases b) (simp_all add: undelivered_def)
qed

lemma deliver_id: "sr_session_id (snd (deliver_pending_response h l st wr st' wr' run i k response audit r)) = sr_session_id r"
proof -
  obtain x r1 where c: "claim_pending st run i k r = (x, r1)" by fastforce
  obtain y r2 where w: "\<And>bs. encode_json h l (st_cid st) response = Inr bs \<Longrightarrow> write_json_bytes (st_cid st) wr run bs r1 = (y, r2)"
    by (metis surj_pair sum.inject(2))
  obtain z r3 where f: "complete_pending st run i k r2 = (z, r3)" by fastforce
  obtain u r3' where m: "mark_pending_delivery_uncertain run i k r2 = (u, r3')" by fastforce
  have r1: "sr_session_id r1 = sr_session_id r" using tracker_ids(2) [of st run i k r] c by simp
  have r3: "sr_session_id r3 = sr_session_id r2" "sr_session_id r3' = sr_session_id r2"
    using tracker_ids(3) [of st run i k r2] tracker_ids(5) [of run i k r2] f m by simp_all
  have finish: "sr_session_id (snd (case publish l st (Some run) Gui audit (update_waiting_state run q) of
      (Inl e, r4) \<Rightarrow> (Inl (annotate_delivery_error e ''delivered'' False), r4) | (Inr _, r4) \<Rightarrow> (Inr (), r4))) = sr_session_id q" for q
  proof -
    obtain p r4 where p: "publish l st (Some run) Gui audit (update_waiting_state run q) = (p, r4)" by fastforce
    then have "sr_session_id r4 = sr_session_id q" using publish_same(6) [OF p] by simp
    then show ?thesis using p by (cases p) simp_all
  qed
  show ?thesis
  proof (cases "encode_json h l (st_cid st) response")
    case (Inl e)
    then show ?thesis using c r1 by (cases x) (simp_all add: deliver_pending_response_def)
  next
    case (Inr bs)
    have r2: "sr_session_id r2 = sr_session_id r" using write_ids(1) [of "st_cid st" wr run bs r1] w [OF Inr] r1 by simp
    show ?thesis
    proof (cases x)
      case Inl
      then show ?thesis using c r1 by (simp add: deliver_pending_response_def)
    next
      case x: (Inr _)
      show ?thesis
      proof (cases y)
        case (Inl e)
        then show ?thesis using c x Inr w [OF Inr] m r2 r3 finish
          by (cases e; cases u) (simp_all add: deliver_pending_response_def Let_def)
      next
        case (Inr _)
        then show ?thesis using c x \<open>encode_json h l (st_cid st) response = Inr bs\<close> w [OF \<open>encode_json h l (st_cid st) response = Inr bs\<close>] f r2 r3 finish
          by (cases z) (simp_all add: deliver_pending_response_def Let_def)
      qed
    qed
  qed
qed

lemma gui_action_id: "sr_session_id (snd (gui_action h l st wr run i action x r)) = sr_session_id r"
proof -
  obtain y r1 where r1: "register_pending l st run i PendGuiAction r = (y, r1)" by fastforce
  then have "sr_session_id r1 = sr_session_id r" using tracker_ids(1) [of l st run i PendGuiAction r] by simp
  then show ?thesis using r1
    by (auto simp: gui_action_def split: sum.split prod.split) (metis publish_frame(6) write_ids(2) snd_conv)+
qed

lemma stop_run_id: "sr_session_id (snd (stop_run h l st trm run r)) = sr_session_id r"
proof -
  let ?r1 = "set_state Interrupting (update_run run (\<lambda>c. c\<lparr>rc_stop_requested := True\<rparr>) r)"
  obtain p r2 where p: "publish l st (Some run) Gui (normalized_event_user ''gui_stop_requested'' (Object [(''run_id'', run_json h run)])) ?r1 = (p, r2)"
    by fastforce
  then have "sr_session_id r2 = sr_session_id r" using publish_same(6) [OF p] by simp
  then show ?thesis using p by (cases p; cases trm) (simp_all add: stop_run_def Let_def)
qed

lemma launch_id: "sr_session_id (snd (snd (launch h l st token run spawn q (w, r)))) = sr_session_id r"
proof -
  have failed: "sr_session_id (snd (launch_failed h l st e operation r0)) = sr_session_id r0" for e operation r0
    using publish_frame(6) [of l st None Daemon _ "r0\<lparr>sr_state := Failed, sr_last_error := Some (safe_process_error (st_cid st) e operation)\<rparr>"]
    by (simp add: launch_failed_def record_launch_failure_def)
  have start: "sr_session_id (starting_record q r0) = sr_session_id r0" for r0 by (simp add: starting_record_def)
  have reserved: "sr_session_id (snd (launch_reserved h l st token run spawn q r0)) = sr_session_id r0" for r0
    using failed start by (auto simp: launch_reserved_def commit_run_def Let_def split: sum.split)
  obtain x r1 where lr: "launch_reserved h l st token run spawn q (r\<lparr>sr_launching := True\<rparr>) = (x, r1)" by fastforce
  have r1: "sr_session_id r1 = sr_session_id r" using reserved [of "r\<lparr>sr_launching := True\<rparr>"] lr by simp
  obtain c w1 where c: "(case lr_binding q of Some b \<Rightarrow> claim_binding h (st_cid st) b token (sr_session_id r) w | None \<Rightarrow> (Inr (), w)) = (c, w1)"
    by (metis surj_pair)
  show ?thesis
  proof (cases "is_ok (validate_launch (st_cid st) (lr_executable q) (lr_scenario q) (lr_cwd q) (lr_binding q)) \<and> \<not> sr_launching r \<and> is_ok c \<and> is_ok x")
    case False
    then show ?thesis using c lr r1
      by (cases "validate_launch (st_cid st) (lr_executable q) (lr_scenario q) (lr_cwd q) (lr_binding q)"; cases c; cases x)
        (auto simp: launch_def drop_guard_def)
  next
    case True
    then obtain u u' pid where ok: "validate_launch (st_cid st) (lr_executable q) (lr_scenario q) (lr_cwd q) (lr_binding q) = Inr u"
      "c = Inr u'" "x = Inr pid" by (auto simp: is_ok_iff)
    let ?ev = "normalized_event_user ''run_started'' (Object [(''run_id'', run_json h run), (''process_id'', nat_json (unat pid)),
      (''scenario'', String (lr_scenario q))])"
    obtain p r3 where p: "publish l st (Some run) Daemon ?ev (r1\<lparr>sr_launching := False\<rparr>) = (p, r3)" by fastforce
    have "sr_session_id r3 = sr_session_id r" using publish_same(6) [OF p] r1 by simp
    then show ?thesis using True ok c lr p by (cases p) (simp_all add: launch_def drop_guard_def)
  qed
qed

section \<open>The supervisor\<close>

definition supervisor_ok :: "supervisor \<Rightarrow> bool" where
  "supervisor_ok v \<longleftrightarrow>
     (\<forall>session r. sv_sessions v session = Some r \<longrightarrow> sr_session_id r = session \<and> session_inv (sv_limits v) r)"

lemma supervisor_put:
  assumes "supervisor_ok v" "sr_session_id r = session" "session_inv (sv_limits v) r"
  shows "supervisor_ok (v\<lparr>sv_sessions := (sv_sessions v)(session \<mapsto> r)\<rparr>)"
    "supervisor_ok (v\<lparr>sv_writers := w, sv_sessions := (sv_sessions v)(session \<mapsto> r)\<rparr>)"
  using assms by (auto simp: supervisor_ok_def)

lemma on_active_run_ok:
  assumes "supervisor_ok v"
    and "\<And>r. sr_session_id (snd (f r)) = sr_session_id r" "\<And>r. session_inv (sv_limits v) r \<Longrightarrow> session_inv (sv_limits v) (snd (f r))"
  shows "supervisor_ok (snd (on_active_run h cid session run f v))"
proof (cases "active_run h cid session run v")
  case (Inl e)
  then show ?thesis using assms(1) by (simp add: on_active_run_def)
next
  case (Inr r)
  then have "sv_sessions v session = Some r"
    by (auto simp: active_run_def sv_session_def and_then_Inr_iff ok_or_def split: option.splits if_splits)
  then have r: "sr_session_id r = session" "session_inv (sv_limits v) r" using assms(1) by (auto simp: supervisor_ok_def)
  obtain x r1 where "f r = (x, r1)" by fastforce
  moreover have "sr_session_id r1 = session" "session_inv (sv_limits v) r1"
    using assms(2) [of r] assms(3) [OF r(2)] r(1) \<open>f r = (x, r1)\<close> by simp_all
  ultimately show ?thesis using Inr supervisor_put(1) [OF assms(1), of r1 session] by (simp add: on_active_run_def)
qed

lemma supervisor_requests_ok:
  assumes "supervisor_ok v"
  shows "supervisor_ok (snd (respond_permission h st wr st' wr' session run i decision v))"
    "supervisor_ok (snd (respond_user_input h st wr st' wr' session run i x v))"
    "supervisor_ok (snd (send_gui_action h st wr drawn session run action x v))"
    "supervisor_ok (snd (sv_stop h st trm session run v))"
proof -
  have deliver: "supervisor_ok (snd (on_active_run h cid session run (deliver_pending_response h (sv_limits v) st wr st' wr' run i k response audit) v))"
    for cid k response audit using assms deliver_id deliver_inv by (intro on_active_run_ok)
  show "supervisor_ok (snd (respond_permission h st wr st' wr' session run i decision v))"
    using deliver assms by (auto simp: respond_permission_def Let_def split: sum.split)
  show "supervisor_ok (snd (respond_user_input h st wr st' wr' session run i x v))"
    using deliver assms by (auto simp: respond_user_input_def Let_def split: sum.split)
  have "supervisor_ok (snd (on_active_run h cid session run (gui_action h (sv_limits v) st wr run a action x) v))" for cid a
    using assms gui_action_id gui_action_inv by (intro on_active_run_ok)
  then show "supervisor_ok (snd (send_gui_action h st wr drawn session run action x v))"
    using assms by (auto simp: send_gui_action_def split: sum.split)
  show "supervisor_ok (snd (sv_stop h st trm session run v))"
    unfolding sv_stop_def using assms stop_run_id stop_run_inv by (intro on_active_run_ok)
qed

lemma stop_targets_ok: "supervisor_ok v \<Longrightarrow> supervisor_ok (snd (stop_targets h outcome ts v))"
proof (induction ts arbitrary: v)
  case (Cons t ts)
  obtain s run where t: "t = (s, run)" by fastforce
  obtain x v1 where "sv_stop h (fst (outcome s)) (snd (outcome s)) s run v = (x, v1)" by fastforce
  moreover from this have "supervisor_ok v1" using supervisor_requests_ok(4) [OF Cons.prems] by (metis snd_conv)
  ultimately show ?case using Cons.IH [of v1] t by (auto split: prod.split)
qed simp

lemma supervisor_launches_ok:
  assumes "supervisor_ok v"
  shows "supervisor_ok (snd (start_with_volume_and_raw_capture h st session token run spawn q v))"
    "supervisor_ok (snd (resume_with_raw_capture h st session token run spawn q v))"
proof -
  have launched: "sr_session_id r' = session \<and> session_inv (sv_limits v) r'"
    if "launch h (sv_limits v) st token run spawn q' (sv_writers v, r) = (x, w, r')" "sr_session_id r = session" "session_inv (sv_limits v) r"
    for q' r x w r'
    using launch_id [of h "sv_limits v" st token run spawn q' "sv_writers v" r] launch_inv [OF that(3), of h st token run spawn q' "sv_writers v"]
      that by simp
  obtain x w r' where l: "launch h (sv_limits v) st token run spawn q (sv_writers v, session_record_new session) = (x, w, r')"
    by (metis surj_pair)
  have "sr_session_id (session_record_new session) = session" by (simp add: session_record_new_def)
  note r' = launched [OF l this session_record_new_inv]
  have gone: "supervisor_ok (v\<lparr>sv_writers := w, sv_sessions := (sv_sessions v)(session := None)\<rparr>)"
    using assms by (auto simp: supervisor_ok_def)
  show "supervisor_ok (snd (start_with_volume_and_raw_capture h st session token run spawn q v))"
    using l r' assms supervisor_put(2) [OF assms, of r' session w] gone
    by (cases x) (simp_all add: start_with_volume_and_raw_capture_def)
  show "supervisor_ok (snd (resume_with_raw_capture h st session token run spawn q v))"
  proof (cases "sv_sessions v session")
    case None
    then show ?thesis using assms by (simp add: resume_with_raw_capture_def sv_session_def)
  next
    case (Some r)
    then have r: "sr_session_id r = session" "session_inv (sv_limits v) r" using assms by (auto simp: supervisor_ok_def)
    let ?q = "q\<lparr>lr_binding := (if sr_binding r \<noteq> None then sr_binding r else lr_binding q), lr_volume := None\<rparr>"
    obtain y w' r2 where l2: "launch h (sv_limits v) st token run spawn ?q (sv_writers v, r) = (y, w', r2)" by (metis surj_pair)
    note launched [OF l2 r]
    then have "supervisor_ok (v\<lparr>sv_writers := w', sv_sessions := (sv_sessions v)(session \<mapsto> r2)\<rparr>)"
      using supervisor_put(2) [OF assms] by blast
    then show ?thesis using Some l2 assms unfolding resume_with_raw_capture_def sv_session_def Let_def
      by (simp only: ok_or_simps sum.case prod.case) auto
  qed
qed

section \<open>Handlers that keep the daemon in order\<close>

definition daemon_ok :: "daemon \<Rightarrow> bool" where
  "daemon_ok d \<longleftrightarrow> runtime_ok (dm_storage d) \<and> manager_ok (dm_projects d) \<and> supervisor_ok (dm_sessions d)"

definition carries :: "daemon \<Rightarrow> daemon \<Rightarrow> bool" where
  "carries d d' \<longleftrightarrow>
     keeps_runtime (dm_storage d) (dm_storage d') \<and> (manager_ok (dm_projects d) \<longrightarrow> manager_ok (dm_projects d')) \<and>
     (supervisor_ok (dm_sessions d) \<longrightarrow> supervisor_ok (dm_sessions d'))"

definition careful :: "'a handler \<Rightarrow> bool" where
  "careful m \<longleftrightarrow> (\<forall>d. carries d (snd (m d)))"

lemma keeps_runtime_trans: "keeps_runtime r s \<Longrightarrow> keeps_runtime s t \<Longrightarrow> keeps_runtime r t"
  by (auto simp: keeps_runtime_def intro: file_kept_trans)

lemma carries_refl [simp]: "carries d d"
  by (simp add: carries_def)

lemma carries_trans: "carries d e \<Longrightarrow> carries e f \<Longrightarrow> carries d f"
  by (auto simp: carries_def intro: keeps_runtime_trans)

lemma carefulI: "(\<And>d. carries d (snd (m d))) \<Longrightarrow> careful m"
  by (simp add: careful_def)

lemma careful_return [invariant_intros]: "careful (io_return x)"
  by (simp add: careful_def)

lemma careful_asking [invariant_intros]: "careful (\<lambda>d. (f d, d))"
  by (simp add: careful_def)

lemma careful_bind [invariant_intros]:
  assumes "careful m" "\<And>x. careful (f x)"
  shows "careful (io_bind m f)"
proof (rule carefulI)
  fix d :: daemon
  obtain r d1 where m: "m d = (r, d1)" by fastforce
  have "carries d d1" using assms(1) m by (metis careful_def snd_conv)
  then show "carries d (snd (io_bind m f d))"
    using m assms(2) by (cases r) (auto simp: io_bind_def careful_def intro: carries_trans)
qed

lemma careful_answering [invariant_intros]: "careful m \<Longrightarrow> careful (answering f m)"
  unfolding answering_def by (intro invariant_intros)

lemma careful_storage [invariant_intros]: "(\<And>s. keeps_runtime s (snd (f s))) \<Longrightarrow> careful (on_storage e f)"
  by (rule carefulI) (auto simp: on_storage_def carries_def split: prod.split, metis snd_conv)

lemma careful_sessions [invariant_intros]: "(\<And>v. supervisor_ok v \<Longrightarrow> supervisor_ok (snd (f v))) \<Longrightarrow> careful (on_sessions f)"
  by (rule carefulI) (auto simp: on_sessions_def carries_def split: prod.split, metis snd_conv)

lemma careful_terminals [invariant_intros]: "careful (on_terminals f)"
  by (rule carefulI) (simp add: on_terminals_def carries_def split: prod.split)

lemma careful_asking_terminals [invariant_intros]: "careful (asking_terminals f)"
  by (rule carefulI) (simp add: asking_terminals_def)

lemma careful_files [invariant_intros]: "careful (on_files f)"
  by (rule carefulI) (simp add: on_files_def carries_def split: prod.split)

lemma careful_root [invariant_intros]: "careful (registered_root v p)"
  by (rule carefulI) (simp add: registered_root_def)

lemma reads_keep [invariant_intros]:
  "keeps_runtime r (snd (rt_session_metadata sql session r))" "keeps_runtime r (snd (persisted_events sql session c n r))"
  "keeps_runtime r (snd (persisted_sessions sql p n r))" "keeps_runtime r (snd (rt_setting sql a b k r))"
  "keeps_runtime r (snd (rt_window_layout sql p w r))" "keeps_runtime r (snd (persisted_raw_protocol_capture sql session run r))"
  unfolding rt_session_metadata_def persisted_events_def persisted_sessions_def rt_setting_def rt_window_layout_def
    persisted_raw_protocol_capture_def
  by (rule with_ready_database_keeps with_ready_session_store_keeps, simp)+

lemmas storage_writes_keep = with_ready_step_keeps capture_keeps unlock_keeps

lemma carries_parts:
  "keeps_runtime (dm_storage d) s \<Longrightarrow> carries d (d\<lparr>dm_storage := s\<rparr>)"
  "(supervisor_ok (dm_sessions d) \<Longrightarrow> supervisor_ok v) \<Longrightarrow> carries d (d\<lparr>dm_sessions := v\<rparr>)"
  "carries d (d\<lparr>dm_terminals := m\<rparr>)" "carries d (start_session_monitor session run c d)"
  "carries d (start_tui_session_monitor session opened d)" "carries d (d\<lparr>dm_tui_sessions := t\<rparr>)"
  by (auto simp: carries_def start_session_monitor_def start_tui_session_monitor_def)

section \<open>Every handler is careful\<close>

lemma stored_reads_careful [invariant_intros]:
  "careful (stored_metadata v session)" "careful (persisted_session_snapshot v session)"
  "careful (require_session_ownership v session p mode)" "careful (read_persisted_session_events v session c n)"
  "careful (stored_raw_batch v session run c m)"
proof -
  show "careful (stored_metadata v session)" for session unfolding stored_metadata_def by (intro invariant_intros)
  note [invariant_intros] = this
  show "careful (persisted_session_snapshot v session)" "careful (require_session_ownership v session p mode)"
    "careful (read_persisted_session_events v session c n)" "careful (stored_raw_batch v session run c m)"
    unfolding persisted_session_snapshot_def require_session_ownership_def read_persisted_session_events_def stored_raw_batch_def
    by (intro invariant_intros)+
qed

lemma careful_carries: "careful m \<Longrightarrow> carries d (snd (m d))"
  by (simp add: careful_def)

lemma read_raw_careful [invariant_intros]: "careful (read_session_raw v session run c m)"
proof (rule carefulI)
  fix d :: daemon
  have live: "careful (io_bind (on_storage e (persist_raw_protocol_capture render dir sql now session run bs ob tr co)) (\<lambda>_. io_return x))"
    for e render dir sql now bs ob tr co and x :: "maestro_error + session_raw_batch"
    by (intro invariant_intros capture_keeps)
  note stored = careful_carries [OF stored_reads_careful(5)]
  show "carries d (snd (read_session_raw v session run c m d))"
    unfolding read_session_raw_def by (auto split: sum.split option.split intro: careful_carries [OF live] stored)
qed

lemma received_supervisor:
  "supervisor_ok u \<Longrightarrow> (\<And>s. supervisor_ok s \<Longrightarrow> supervisor_ok (meanwhile s)) \<Longrightarrow>
   supervisor_ok (snd (received_events cap session n waits meanwhile sb u))"
  by (auto simp: received_events_def split: prod.split sum.split list.split)

lemma read_events_careful [invariant_intros]:
  assumes "\<And>s. supervisor_ok s \<Longrightarrow> supervisor_ok (dv_meanwhile v s)"
  shows "careful (read_session_events v session c n w)"
proof (rule carefulI)
  fix d :: daemon
  show "carries d (snd (read_session_events v session c n w d))"
  proof (cases "subscribe_session (dv_host v) (dv_cid v) session c (dm_sessions d)")
    case (Inl e)
    show ?thesis
      by (cases "err_code e = SessionNotFound") (simp_all add: read_session_events_def Inl careful_carries [OF stored_reads_careful(4)])
  next
    case (Inr sb)
    obtain r sessions where r: "received_events (channel_capacity (fl_broadcast_events (sv_limits (dm_sessions d)))) session n (w > 0)
        (dv_meanwhile v) sb (dm_sessions d) = (r, sessions)" by fastforce
    have "supervisor_ok sessions" if "supervisor_ok (dm_sessions d)"
      using received_supervisor [OF that, of "dv_meanwhile v" "channel_capacity (fl_broadcast_events (sv_limits (dm_sessions d)))"
          session n "w > 0" sb] assms unfolding r by (simp only: snd_conv)
    then have "carries d (d\<lparr>dm_sessions := sessions\<rparr>)" by (rule carries_parts(2))
    moreover have "snd (read_session_events v session c n w d) = d\<lparr>dm_sessions := sessions\<rparr>"
      unfolding read_session_events_def Inr sum.case r prod.case by (cases r) (simp_all only: sum.case snd_conv)
    ultimately show ?thesis by (simp only:)
  qed
qed

lemma record_started_careful [invariant_intros]: "careful (record_started_run v p run scenario invocation c)"
proof (rule carefulI)
  fix d :: daemon
  obtain r s where r: "start_session_run (dv_sql v 0) (dv_sql v 1) (dv_now v) p (fh_session_id run) (fh_run_id run) (fh_process_id run)
      (fake_title scenario) invocation (dm_storage d) = (r, s)" by fastforce
  then have s: "keeps_runtime (dm_storage d) s" using with_ready_step_keeps(8) by (metis snd_conv)
  then show "carries d (snd (record_started_run v p run scenario invocation c d))"
    using r supervisor_requests_ok(4)
    by (cases r) (auto simp: record_started_run_def carries_def start_session_monitor_def)
qed

lemma session_start_careful [invariant_intros]:
  "careful (fake_session_start v p scenario binding volume capture)"
  "careful (fake_session_resume v session p scenario binding capture)"
proof -
  have launch: "careful (\<lambda>d. on_sessions (f d) d)" if "\<And>d u. supervisor_ok u \<Longrightarrow> supervisor_ok (snd (f d u))"
    for f :: "daemon \<Rightarrow> supervisor \<Rightarrow> (maestro_error + fake_run_handle) \<times> supervisor"
    using careful_sessions [of "f d" for d] that by (auto simp: careful_def)
  show "careful (fake_session_start v p scenario binding volume capture)" unfolding fake_session_start_def
    by (intro invariant_intros launch supervisor_launches_ok)
  show "careful (fake_session_resume v session p scenario binding capture)" unfolding fake_session_resume_def
    by (intro invariant_intros launch supervisor_launches_ok)
qed

lemma stored_open_careful [invariant_intros]: "careful (stored_open v p kind title reached opening)"
proof (rule carefulI)
  fix d :: daemon
  obtain r s where r: "rt_register_terminal (dv_sql v 0) (dv_now v) p (dv_terminal v) kind title (dm_storage d) = (r, s)" by fastforce
  then have "keeps_runtime (dm_storage d) s" using with_ready_step_keeps(6) by (metis snd_conv)
  then have "carries d (if reached (dm_terminals d) then d\<lparr>dm_storage := s\<rparr> else d)" by (simp add: carries_parts)
  moreover have "carries e (snd (on_terminals (opening (is_ok r)) e))" for e by (rule careful_carries [OF careful_terminals])
  ultimately show "carries d (snd (stored_open v p kind title reached opening d))"
    using r by (auto simp: stored_open_def intro: carries_trans)
qed

lemma started_tui_keeps:
  "keeps_runtime s (snd (persist_started_tui_session id_text sql event now p session opened title invocation s))"
proof -
  obtain r1 s1 where s1: "start_tui_session_run (sql 0) (sql 1) now p session (to_run_id opened) (to_process_id opened) title invocation s = (r1, s1)"
    by fastforce
  have k1: "keeps_runtime s s1" using with_ready_step_keeps(9) s1 by (metis snd_conv)
  have k2: "keeps_runtime s1 (snd (rt_persist_event q e s1))" for q e by (rule with_ready_step_keeps)
  have k3: "keeps_runtime s2 (snd (rt_update_session_state q now session Running s2))" for q s2 by (rule with_ready_step_keeps)
  show ?thesis
    using s1 k1 keeps_runtime_trans [OF k1 k2] keeps_runtime_trans [OF keeps_runtime_trans [OF k1 k2] k3]
    by (auto simp: persist_started_tui_session_def split: sum.split prod.split) (metis snd_conv)+
qed

lemma record_tui_careful [invariant_intros]: "careful (record_started_tui v p opened scenario)"
proof (rule carefulI)
  fix d :: daemon
  obtain r s where r: "persist_started_tui_session (h_uuid_text (dv_host v)) (\<lambda>n. dv_sql v (n + 1)) (dv_event v) (dv_now v) p (dv_session v)
      opened (fake_tui_title scenario)
      (Object [(''fixture'', String ''maestro-fake-agent''), (''scenario'', String scenario),
               (''terminal_id'', terminal_json (h_uuid_text (dv_host v)) (to_terminal_id opened))]) (dm_storage d) = (r, s)" by fastforce
  then have "keeps_runtime (dm_storage d) s" using started_tui_keeps by (metis snd_conv)
  then show "carries d (snd (record_started_tui v p opened scenario d))"
    using r by (cases r) (auto simp: record_started_tui_def carries_def start_tui_session_monitor_def)
qed

lemma careful_if [invariant_intros]: "careful a \<Longrightarrow> careful b \<Longrightarrow> careful (if c then a else b)"
  by (cases c) (simp_all only: if_True if_False)

lemma session_snapshot_careful [invariant_intros]: "careful (session_snapshot_request v session)"
proof (rule carefulI)
  fix d :: daemon
  have "careful (io_bind (persisted_session_snapshot v session) (\<lambda>s. io_return (Inr (RespSessionSnapshot s))))" by (intro invariant_intros)
  then show "carries d (snd (session_snapshot_request v session d))"
    by (auto simp: session_snapshot_request_def careful_def split: sum.split)
qed

lemma subscribe_careful [invariant_intros]: "careful (subscribe_request v session c)"
proof (rule carefulI)
  fix d :: daemon
  have "careful (io_bind (persisted_session_snapshot v session) (\<lambda>s. io_return (g s :: maestro_error + response)))" for g
    by (intro invariant_intros)
  then show "carries d (snd (subscribe_request v session c d))"
    by (auto simp: subscribe_request_def careful_def split: sum.split)
qed

lemma stop_session_careful [invariant_intros]: "careful (stop_session v session)"
proof (rule carefulI)
  fix d :: daemon
  have "careful (io_bind (persisted_session_snapshot v session) (\<lambda>_. io_return (Inr (RespSessionStopped session))))" by (intro invariant_intros)
  moreover have "careful (io_bind (on_sessions (sv_stop h st trm session run)) (\<lambda>_. io_return (Inr (RespSessionStopped session))))" for h st trm run
    by (intro invariant_intros supervisor_requests_ok)
  moreover have "careful (io_bind (on_terminals f) (\<lambda>_. io_return (Inr (RespSessionStopped session))))"
    for f :: "terminal_manager \<Rightarrow> (maestro_error + terminal_status) \<times> terminal_manager" by (intro invariant_intros)
  ultimately show "carries d (snd (stop_session v session d))"
    by (auto simp: stop_session_def careful_def split: sum.split option.split)
qed

lemma session_handlers_careful [invariant_intros]:
  "careful (fake_tui_start v p scenario columns rows)" "careful (session_terminal_attach v session p)"
  "careful (session_structured_attach v session p)" "careful (session_list v p n)" "careful (session_raw_read v session run c m)"
  "careful (session_permission_respond v session run i decision)" "careful (session_user_input_respond v session run i t)"
  "careful (session_gui_action v session run t x)"
  unfolding fake_tui_start_def open_tui_def session_terminal_attach_def session_structured_attach_def session_list_def
    session_raw_read_def session_permission_respond_def session_user_input_respond_def session_gui_action_def
  by (intro invariant_intros supervisor_requests_ok; assumption)+

lemma session_request_careful:
  assumes "\<And>s. supervisor_ok s \<Longrightarrow> supervisor_ok (dv_meanwhile v s)"
  shows "careful (handle_session_request v q)"
proof -
  have read: "careful (session_events_read v session c n w)" for session c n w
    unfolding session_events_read_def by (intro invariant_intros assms)
  show ?thesis
    by (cases q) (simp_all only: handle_session_request.simps read invariant_intros)
qed

lemma register_persists:
  assumes "\<And>g s. keeps_runtime s (snd (persist g s))" "keeps_runtime s0 s0"
    and "register_with_persistence v p name roots persist (pm, s0) w = (result, (pm', s), w')"
  shows "keeps_runtime s0 s"
proof -
  obtain opened w1 where w: "workspace_roots_new (pv_kernel v) (map parse_path roots) w = (opened, w1)" by fastforce
  let ?g = "\<lambda>services. \<lparr>pg_project_id = p, pg_display_name = name, pg_canonical_roots = map path_string (canonical_roots services)\<rparr>"
  have "s = s0 \<or> (\<exists>g. s = snd (persist g s0))"
  proof (cases opened)
    case (Inl e)
    then show ?thesis using assms(3) by (simp add: register_with_persistence_def Let_def w split: if_splits)
  next
    case (Inr services)
    obtain x s1 where "persist (?g services) s0 = (x, s1)" by fastforce
    then show ?thesis using assms(3) Inr
      by (cases x) (simp_all add: register_with_persistence_def Let_def w split: if_splits, metis snd_conv, metis snd_conv)
  qed
  then show ?thesis using assms(1,2) by blast
qed

lemma register_careful [invariant_intros]: "careful (register_project v p name roots)"
proof (rule carefulI)
  fix d :: daemon
  define persist where "persist = (\<lambda>(g :: project_registered) s.
      case rt_upsert_project_registration (dv_sql v 0) (dv_now v) (pg_project_id g) (pg_display_name g) (pg_canonical_roots g) s of
        (result, s) \<Rightarrow> (map_err (\<lambda>_. database_unavailable_error (dv_cid v)) result, s))"
  obtain r pm s w where r: "register_with_persistence (dv_project v) p name roots persist (dm_projects d, dm_storage d) (dm_world d) = (r, (pm, s), w)"
    by (metis surj_pair)
  have persist: "keeps_runtime s (snd (persist g s))" for g s
    by (simp add: persist_def with_ready_step_keeps(1) split_beta)
  have "keeps_runtime (dm_storage d) s" by (rule register_persists [OF persist keeps_runtime_refl r])
  moreover have "manager_ok pm" if "manager_ok (dm_projects d)" by (rule register_ok [OF that r])
  moreover have "register_project v p name roots d = (r, d\<lparr>dm_projects := pm, dm_storage := s, dm_world := w\<rparr>)"
    unfolding register_project_def persist_def [symmetric] r by (simp only: prod.case)
  ultimately show "carries d (snd (register_project v p name roots d))" by (simp add: carries_def)
qed

lemma search_careful [invariant_intros]: "careful (search_project v p i options)"
proof (rule carefulI)
  fix d :: daemon
  obtain r pm w where r: "pm_search (dv_project v) p i options (dm_projects d) (dm_world d) = (r, pm, w)" by (metis surj_pair)
  have "pm_projects pm = pm_projects (dm_projects d)"
    using r by (auto simp: pm_search_def search_begin_def search_end_def Let_def split: sum.splits prod.splits if_splits)
  then show "carries d (snd (search_project v p i options d))"
    unfolding search_project_def r by (simp add: carries_def manager_ok_def)
qed

lemma cancel_careful [invariant_intros]:
  "careful (\<lambda>d. case cancel_search i (dm_projects d) of (result, projects) \<Rightarrow> (result, d\<lparr>dm_projects := projects\<rparr>))"
  by (rule carefulI) (auto simp: cancel_search_def carries_def manager_ok_def split: option.split)

lemma project_request_careful: "careful (handle_project_request v q)"
  by (cases q) (simp_all only: handle_project_request.simps, (intro invariant_intros storage_writes_keep)+)

lemma direct_request_careful: "careful (handle_direct_request v q)"
proof -
  have all: "careful (stop_all_work v)"
  proof (rule carefulI)
    fix d :: daemon
    obtain n s where s: "stop_all (dv_host v) (dv_session_stops v) (dv_session_order v) (dm_sessions d) = (n, s)" by fastforce
    have "supervisor_ok s" if "supervisor_ok (dm_sessions d)"
      using stop_targets_ok [OF that] s unfolding stop_all_def by (metis snd_conv)
    then show "carries d (snd (stop_all_work v d))"
      by (auto simp: stop_all_work_def s carries_def Let_def split: prod.split)
  qed
  show ?thesis
    by (cases q) (simp_all only: handle_direct_request.simps setting_load_def setting_save_def terminal_open_def,
        (intro invariant_intros storage_writes_keep all)+)
qed

lemma requests_carry:
  assumes "\<And>s. supervisor_ok s \<Longrightarrow> supervisor_ok (dv_meanwhile v s)"
  shows "carries d (snd (handle_client_request v q d))"
  unfolding handle_client_request_def Let_def
  using careful_carries [OF session_request_careful [OF assms]] careful_carries [OF project_request_careful]
    careful_carries [OF direct_request_careful] by simp

lemma daemon_ok_carried: "daemon_ok d \<Longrightarrow> carries d d' \<Longrightarrow> daemon_ok d'"
  by (auto simp: daemon_ok_def carries_def keeps_runtime_def)

lemma locked_daemon_ok: "daemon_ok locked_daemon"
  using stored_file_ok
  by (simp add: daemon_ok_def locked_daemon_def supervisor_ok_def manager_ok_def empty_supervisor_def project_manager_default_def)



end
