(* ===== verification/Desktop_Host.thy ===== *)
theory Desktop_Host
  imports Project_Manager
begin

text \<open>
  The desktop host, \<^verbatim>\<open>apps/desktop/src-tauri/src/lib.rs\<close>: the grants that tie projects, terminals and
  sessions to native windows, the checks of what the web view sends, and the commands that turn a
  checked call into one request to the daemon. The mutexes of the host are never poisoned in the
  sequential model, so the clean-up after a failed registration of a grant does not occur.
\<close>

section \<open>State\<close>

record desktop_error =
  ue_code :: error_code
  ue_message :: string
  ue_retryable :: bool
  ue_user_action :: "string option"
  ue_correlation_id :: string
  ue_details :: "json option"

record project_grant =
  pgr_canonical_path :: string
  pgr_persisted_project_id :: project_id
  pgr_window_label :: string

record terminal_grant =
  tgr_project_grant :: project_id
  tgr_persisted_terminal_id :: terminal_id
  tgr_discovery_only :: bool
  tgr_window_label :: string

record session_grant =
  sgr_project_grant :: project_id
  sgr_terminal_id :: "terminal_id option"
  sgr_window_label :: string

record project_selection =
  psl_id :: project_id
  psl_name :: string
  psl_roots :: "string list"

text \<open>\<open>hs_daemon\<close> names the open connection to the daemon.\<close>

record desktop_host =
  hs_projects :: "project_id \<rightharpoonup> project_grant"
  hs_sessions :: "session_id \<rightharpoonup> session_grant"
  hs_terminals :: "terminal_id \<rightharpoonup> terminal_grant"
  hs_registrations :: "string list \<rightharpoonup> project_id"
  hs_daemon :: "nat option"

definition desktop_host_new :: desktop_host where
  "desktop_host_new = \<lparr>hs_projects = Map.empty, hs_sessions = Map.empty, hs_terminals = Map.empty,
     hs_registrations = Map.empty, hs_daemon = None\<rparr>"

datatype ipc_failure = IpcFatal maestro_error | IpcOther

record shortcut_bindings =
  sb_open_new_window :: string
  sb_open_project :: string
  sb_toggle_bottom_panel :: string
  sb_toggle_command_palette :: string
  sb_toggle_inspector :: string
  sb_toggle_sidebar :: string

text \<open>
  What one command draws and is told: the label of its window, random identifiers (one for all requests of
  the command), how texts are parsed and rendered, whether the paths of the daemon are found, how
  connecting and the deadline of a registration end, how the daemon answers and what the other commands do
  to the host while it is awaited, which external programs start and the platform of the build. \<open>'d\<close> is whatever is behind the connection.
\<close>

record 'd host_env =
  hv_window :: string
  hv_cid :: uuid
  hv_request :: request_id
  hv_draws :: "uuid list"
  hv_id_text :: "uuid \<Rightarrow> string"
  hv_parse_id :: "string \<Rightarrow> uuid option"
  hv_parse_json :: "string \<Rightarrow> json option"
  hv_paths :: bool
  hv_connect :: "ipc_failure + nat"
  hv_deadline_passes :: bool
  hv_daemon :: "request_id \<Rightarrow> request \<Rightarrow> 'd \<Rightarrow> (ipc_failure + response) \<times> 'd"
  hv_meanwhile :: "desktop_host \<Rightarrow> desktop_host"
  hv_canonicalize :: "string \<Rightarrow> path option"
  hv_is_dir :: "path \<Rightarrow> bool"
  hv_launches :: "string \<Rightarrow> bool"
  hv_platform :: string
  hv_architecture :: string
  hv_encode_shortcuts :: "shortcut_bindings \<Rightarrow> string"
  hv_decode_shortcuts :: "string \<Rightarrow> shortcut_bindings option"

text \<open>
  The outcome of a command: \<^term>\<open>Inl (Some e)\<close> is an error, \<^term>\<open>Inl None\<close> means that it has not returned
  because its loop over random identifiers has rejected all the drawn ones so far.
\<close>

type_synonym 'a outcome = "desktop_error option + 'a"
type_synonym ('d, 'a) command = "desktop_host \<times> 'd \<Rightarrow> 'a outcome \<times> (desktop_host \<times> 'd)"

section \<open>Errors\<close>

definition desktop_error_of :: "(uuid \<Rightarrow> string) \<Rightarrow> maestro_error \<Rightarrow> desktop_error" where
  "desktop_error_of id_text e =
     \<lparr>ue_code = err_code e, ue_message = err_message e, ue_retryable = err_retryable e, ue_user_action = err_user_action e,
      ue_correlation_id = id_text (err_correlation_id e), ue_details = err_details e\<rparr>"

definition command_error :: "'d host_env \<Rightarrow> error_code \<Rightarrow> string \<Rightarrow> desktop_error" where
  "command_error v code message = desktop_error_of (hv_id_text v) (maestro_error_new (hv_cid v) code message)"

definition project_grant_denied :: "'d host_env \<Rightarrow> desktop_error" where
  "project_grant_denied v =
     command_error v PermissionDenied ''The project grant is not valid for this window. Select the project again.''"

definition terminal_grant_denied :: "'d host_env \<Rightarrow> desktop_error" where
  "terminal_grant_denied v = command_error v PermissionDenied ''The terminal is not available to this window.''"

definition session_grant_denied :: "'d host_env \<Rightarrow> desktop_error" where
  "session_grant_denied v = command_error v PermissionDenied ''The session is not available to this window.''"

definition daemon_unavailable :: "'d host_env \<Rightarrow> desktop_error" where
  "daemon_unavailable v =
     desktop_error_of (hv_id_text v) ((maestro_error_new (hv_cid v) Internal
         ''The Maestro service is unavailable. Start maestrod and try again.'')
       \<lparr>err_retryable := True, err_user_action := Some ''Start the Maestro service and retry the operation.''\<rparr>)"

definition project_registration_timed_out :: "'d host_env \<Rightarrow> request_id \<Rightarrow> desktop_error" where
  "project_registration_timed_out v request =
     (case request of RequestId u \<Rightarrow> desktop_error_of (hv_id_text v) ((maestro_error_new (hv_cid v) Internal
         ''The selected project took too long to register with the Maestro service.'')
       \<lparr>err_retryable := True,
        err_user_action := Some ''Retry opening the project. If it continues, restart the Maestro service.'',
        err_correlation_id := u\<rparr>))"

definition unexpected_response :: "'d host_env \<Rightarrow> desktop_error" where
  "unexpected_response v = command_error v Internal ''The Maestro service returned an unexpected terminal response.''"

definition host_invalid_request :: "'d host_env \<Rightarrow> string \<Rightarrow> desktop_error" where
  "host_invalid_request v message = command_error v InvalidRequest message"

definition internal_error :: "'d host_env \<Rightarrow> string \<Rightarrow> desktop_error" where
  "internal_error v message = command_error v Internal message"

definition host_invalid_path :: "'d host_env \<Rightarrow> string \<Rightarrow> desktop_error" where
  "host_invalid_path v message = command_error v InvalidPath message"

section \<open>Checks of what the web view sends\<close>

definition parse_id :: "'d host_env \<Rightarrow> desktop_error \<Rightarrow> (uuid \<Rightarrow> 'i) \<Rightarrow> string \<Rightarrow> desktop_error + 'i" where
  "parse_id v failure wrap value = (case hv_parse_id v value of Some u \<Rightarrow> Inr (wrap u) | None \<Rightarrow> Inl failure)"

definition parse_terminal_id :: "'d host_env \<Rightarrow> string \<Rightarrow> desktop_error + terminal_id" where
  "parse_terminal_id v = parse_id v (host_invalid_request v ''The terminal identifier is invalid.'') TerminalId"

definition parse_session_id :: "'d host_env \<Rightarrow> string \<Rightarrow> desktop_error + session_id" where
  "parse_session_id v = parse_id v (host_invalid_request v ''The session identifier is invalid.'') SessionId"

definition parse_run_id :: "'d host_env \<Rightarrow> string \<Rightarrow> desktop_error + run_id" where
  "parse_run_id v = parse_id v (host_invalid_request v ''The session run identifier is invalid.'') RunId"

definition parse_project_id :: "'d host_env \<Rightarrow> string \<Rightarrow> desktop_error + project_id" where
  "parse_project_id v = parse_id v (project_grant_denied v) ProjectId"

definition parse_project_id_for_request :: "'d host_env \<Rightarrow> string \<Rightarrow> desktop_error + project_id" where
  "parse_project_id_for_request v = parse_id v (host_invalid_request v ''The project identifier is invalid.'') ProjectId"

definition parse_request_id :: "'d host_env \<Rightarrow> string \<Rightarrow> desktop_error + request_id" where
  "parse_request_id v = parse_id v (host_invalid_request v ''The request identifier is invalid.'') RequestId"

definition is_canonical_shortcut :: "string \<Rightarrow> bool" where
  "is_canonical_shortcut shortcut =
     (let parts = split_all (CHR ''+'') shortcut;
          key = (case parts of
                   [m, k] \<Rightarrow> if m = ''Mod'' then Some k else None
                 | [m, s, k] \<Rightarrow> if m = ''Mod'' \<and> s = ''Shift'' then Some k else None
                 | _ \<Rightarrow> None)
      in case key of
           Some [c] \<Rightarrow> c \<in> set ''ABCDEFGHIJKLMNOPQRSTUVWXYZ0123456789''
         | _ \<Rightarrow> False)"

definition shortcut_values :: "shortcut_bindings \<Rightarrow> string list" where
  "shortcut_values b = [sb_open_new_window b, sb_open_project b, sb_toggle_bottom_panel b, sb_toggle_command_palette b,
     sb_toggle_inspector b, sb_toggle_sidebar b]"

fun check_shortcuts :: "'d host_env \<Rightarrow> string list \<Rightarrow> string list \<Rightarrow> desktop_error + unit" where
  "check_shortcuts v seen [] = Inr ()"
| "check_shortcuts v seen (s # ss) =
     (if \<not> is_canonical_shortcut s
      then Inl (host_invalid_request v ''Every shortcut must use canonical Mod+[Shift+] plus one letter or number.'')
      else if s \<in> set seen then Inl (host_invalid_request v ''Keyboard shortcuts cannot conflict.'')
      else check_shortcuts v (s # seen) ss)"

definition validate_shortcuts :: "'d host_env \<Rightarrow> shortcut_bindings \<Rightarrow> desktop_error + unit" where
  "validate_shortcuts v b = check_shortcuts v [] (shortcut_values b)"

definition MAXIMUM_RECENT_PROJECTS :: nat where "MAXIMUM_RECENT_PROJECTS = 100"
definition MAXIMUM_WINDOW_LAYOUT_BYTES :: nat where "MAXIMUM_WINDOW_LAYOUT_BYTES = 16 * 1024"
definition SESSION_EVENTS_PER_READ :: nat where "SESSION_EVENTS_PER_READ = 256"
definition SESSION_READ_WAIT_MILLISECONDS :: u32 where "SESSION_READ_WAIT_MILLISECONDS = 20000"
definition TERMINAL_READ_WAIT_MILLISECONDS :: u32 where "TERMINAL_READ_WAIT_MILLISECONDS = 20000"
definition SHORTCUT_SETTING_SCOPE :: string where "SHORTCUT_SETTING_SCOPE = ''global''"
definition SHORTCUT_SETTING_SCOPE_REFERENCE :: string where "SHORTCUT_SETTING_SCOPE_REFERENCE = []"
definition SHORTCUT_SETTING_KEY :: string where "SHORTCUT_SETTING_KEY = ''keyboard.shortcuts''"

definition validate_recent_project_limit :: "'d host_env \<Rightarrow> nat \<Rightarrow> desktop_error + unit" where
  "validate_recent_project_limit v n =
     (if 1 \<le> n \<and> n \<le> MAXIMUM_RECENT_PROJECTS then Inr ()
      else Inl (host_invalid_request v (''Recent project requests must contain between 1 and '' @
        decimal MAXIMUM_RECENT_PROJECTS @ '' entries.'')))"

text \<open>
  The selected folders: \<^verbatim>\<open>canonicalize\<close> and \<^verbatim>\<open>is_dir\<close> are the file system's, a path that is not a text
  is refused, and the name of a root is its own path.
\<close>

definition validate_project_path :: "'d host_env \<Rightarrow> string \<Rightarrow> string + string \<times> string" where
  "validate_project_path v requested =
     (case hv_canonicalize v requested of
        None \<Rightarrow> Inl ''The selected project folder could not be resolved.''
      | Some canonical \<Rightarrow>
          if \<not> hv_is_dir v canonical then Inl ''The selected project path is not a folder.''
          else if \<not> valid_utf8 (text_bytes (render_path canonical))
          then Inl ''The selected project path is not valid UTF-8 on this platform.''
          else Inr (render_path canonical,
            case path_file_name canonical of
              Some name \<Rightarrow> if valid_utf8 (text_bytes name) \<and> name \<noteq> [] then name else render_path canonical
            | None \<Rightarrow> render_path canonical))"

fun validate_all :: "('a \<Rightarrow> 'e + 'b) \<Rightarrow> 'a list \<Rightarrow> 'e + 'b list" where
  "validate_all f [] = Inr []"
| "validate_all f (x # xs) = and_then (f x) (\<lambda>y. and_then (validate_all f xs) (\<lambda>ys. Inr (y # ys)))"

definition validate_workspace_paths :: "'d host_env \<Rightarrow> string list \<Rightarrow> string + string \<times> string list" where
  "validate_workspace_paths v selected =
     and_then (validate_all (validate_project_path v) selected) (\<lambda>projects.
       case projects of
         [] \<Rightarrow> Inl ''At least one project folder must be selected.''
       | p # ps \<Rightarrow>
           Inr (if ps = [] then snd p else snd p @ '' + '' @ decimal (length ps) @ '' more'', map fst projects))"

definition validate_persisted_roots :: "'d host_env \<Rightarrow> string list \<Rightarrow> desktop_error + string list" where
  "validate_persisted_roots v roots =
     (if roots = [] then Inl (host_invalid_path v ''The saved project does not contain a workspace root.'')
      else validate_all (\<lambda>root.
        and_then (map_err (host_invalid_path v) (validate_project_path v root)) (\<lambda>p.
          if fst p \<noteq> root
          then Inl (host_invalid_path v ''A saved project root no longer resolves to its recorded location.'')
          else Inr (fst p))) roots)"

definition validate_window_key :: "'d host_env \<Rightarrow> string \<Rightarrow> desktop_error + unit" where
  "validate_window_key v window_key =
     (if window_key = hv_window v then Inr () else Inl (project_grant_denied v))"

definition validate_window_layout_json :: "'d host_env \<Rightarrow> string \<Rightarrow> desktop_error + unit" where
  "validate_window_layout_json v layout_json =
     (if length layout_json > MAXIMUM_WINDOW_LAYOUT_BYTES
      then Inl (host_invalid_request v ''The window layout is too large.'')
      else case hv_parse_json v layout_json of
             None \<Rightarrow> Inl (host_invalid_request v ''The window layout is not valid JSON.'')
           | Some (Object _) \<Rightarrow> Inr ()
           | Some _ \<Rightarrow> Inl (host_invalid_request v ''The window layout must be a JSON object.''))"

text \<open>
  A link that terminal content wants opened. \<^verbatim>\<open>Url::parse\<close> is the parameter \<open>parse\<close>: its normal text, the
  scheme, the user, whether there is a password, and the names in the query, in lower case.
\<close>

record parsed_url =
  url_text :: string
  url_scheme :: string
  url_username :: string
  url_password :: "string option"
  url_query_names :: "string list"

definition MAXIMUM_TERMINAL_LINK_BYTES :: nat where "MAXIMUM_TERMINAL_LINK_BYTES = 2048"

definition validate_terminal_link ::
  "'d host_env \<Rightarrow> (string \<Rightarrow> parsed_url option) \<Rightarrow> string \<Rightarrow> desktop_error + parsed_url" where
  "validate_terminal_link v parse value =
     (if length value > MAXIMUM_TERMINAL_LINK_BYTES then Inl (host_invalid_request v ''The terminal link is too large.'')
      else case parse value of
             None \<Rightarrow> Inl (host_invalid_request v ''The terminal link is not a valid URL.'')
           | Some u \<Rightarrow>
               if url_scheme u \<notin> {''http'', ''https''} \<or> url_username u \<noteq> [] \<or> url_password u \<noteq> None \<or>
                  list_ex (\<lambda>name. name \<in> {''access_token'', ''api_key'', ''apikey'', ''auth'', ''authorization'', ''key'',
                     ''password'', ''secret'', ''signature'', ''token''}) (url_query_names u)
               then Inl (host_invalid_request v ''The terminal link uses a blocked scheme or contains credentials.'')
               else Inr u)"

section \<open>What the host shows of the daemon\<close>

datatype daemon_status = Connected | NotConnected

datatype daemon_storage_status = StorageIsReady | PassphraseCreateRequired | PassphraseUnlockRequired | StorageIsUnavailable

record daemon_snapshot =
  dsn_status :: daemon_status
  dsn_detail :: string
  dsn_storage_status :: daemon_storage_status
  dsn_storage_schema_version :: "int option"

record host_snapshot =
  hsn_app_version :: string
  hsn_platform :: string
  hsn_architecture :: string
  hsn_window_label :: string
  hsn_daemon :: daemon_snapshot

fun daemon_storage_status_of :: "storage_status \<Rightarrow> daemon_storage_status" where
  "daemon_storage_status_of StatusReady = StorageIsReady"
| "daemon_storage_status_of (PassphraseRequired UnlockCreate) = PassphraseCreateRequired"
| "daemon_storage_status_of (PassphraseRequired UnlockExisting) = PassphraseUnlockRequired"
| "daemon_storage_status_of StatusUnavailable = StorageIsUnavailable"

definition daemon_detail :: "system_snapshot \<Rightarrow> string" where
  "daemon_detail snapshot =
     (case sy_storage snapshot of
        StatusReady \<Rightarrow> ''Maestro service '' @ sy_daemon_version snapshot @ '' is connected ('' @
          decimal (unat (sy_active_terminals snapshot)) @ '' terminals active).''
      | PassphraseRequired _ \<Rightarrow> ''Encrypted storage requires a passphrase before Maestro can continue.''
      | StatusUnavailable \<Rightarrow> ''Encrypted storage is unavailable; Maestro has not opened project data.'')"

definition host_snapshot_of :: "'d host_env \<Rightarrow> daemon_snapshot \<Rightarrow> host_snapshot" where
  "host_snapshot_of v daemon =
     \<lparr>hsn_app_version = ''0.1.0'', hsn_platform = hv_platform v, hsn_architecture = hv_architecture v,
      hsn_window_label = hv_window v, hsn_daemon = daemon\<rparr>"

definition offline :: "'d host_env \<Rightarrow> host_snapshot" where
  "offline v = host_snapshot_of v
     \<lparr>dsn_status = NotConnected, dsn_detail = ''The Maestro service is not running or could not be authenticated.'',
      dsn_storage_status = StorageIsUnavailable, dsn_storage_schema_version = None\<rparr>"

section \<open>Grants\<close>

definition project_registration_key :: "string list \<Rightarrow> string list" where
  "project_registration_key roots = sort roots"

text \<open>An identifier for the registration of these roots; a retry gets the same one.\<close>

definition begin_project_registration :: "string list \<Rightarrow> project_id \<Rightarrow> desktop_host \<Rightarrow> project_id \<times> desktop_host" where
  "begin_project_registration roots drawn h =
     (let key = project_registration_key roots
      in case hs_registrations h key of
           Some p \<Rightarrow> (p, h)
         | None \<Rightarrow> (drawn, h\<lparr>hs_registrations := (hs_registrations h)(key \<mapsto> drawn)\<rparr>))"

definition finish_project_registration :: "string list \<Rightarrow> project_id \<Rightarrow> desktop_host \<Rightarrow> desktop_host" where
  "finish_project_registration roots p h =
     (let key = project_registration_key roots
      in if hs_registrations h key = Some p then h\<lparr>hs_registrations := (hs_registrations h)(key := None)\<rparr> else h)"

text \<open>Keeping the grants that satisfy a condition.\<close>

definition retain :: "('g \<Rightarrow> bool) \<Rightarrow> ('i \<rightharpoonup> 'g) \<Rightarrow> ('i \<rightharpoonup> 'g)" where
  "retain P m = (\<lambda>i. case m i of Some g \<Rightarrow> if P g then Some g else None | None \<Rightarrow> None)"

text \<open>
  A registered project becomes the only project of its window. The terminals and sessions of the grants
  that it replaces are revoked.
\<close>

definition grant_registered_project ::
  "'d host_env \<Rightarrow> project_id \<Rightarrow> string \<Rightarrow> string list \<Rightarrow> desktop_host \<Rightarrow> project_selection outcome \<times> desktop_host" where
  "grant_registered_project v persisted name roots h =
     (case roots of
        [] \<Rightarrow> (Inl (Some (host_invalid_path v ''The saved project does not contain a usable workspace root.'')), h)
      | root # _ \<Rightarrow>
          (let replaced = (\<lambda>p. case hs_projects h p of Some g \<Rightarrow> pgr_window_label g = hv_window v | None \<Rightarrow> False);
               kept = retain (\<lambda>g. pgr_window_label g \<noteq> hv_window v) (hs_projects h)
           in case find (\<lambda>u. ProjectId u \<noteq> persisted \<and> kept (ProjectId u) = None) (hv_draws v) of
                None \<Rightarrow> (Inl None, h)
              | Some u \<Rightarrow>
                  (Inr \<lparr>psl_id = ProjectId u, psl_name = name, psl_roots = roots\<rparr>,
                   h\<lparr>hs_projects := kept(ProjectId u \<mapsto> \<lparr>pgr_canonical_path = root, pgr_persisted_project_id = persisted,
                                                        pgr_window_label = hv_window v\<rparr>),
                     hs_terminals := retain (\<lambda>g. \<not> replaced (tgr_project_grant g)) (hs_terminals h),
                     hs_sessions := retain (\<lambda>g. \<not> replaced (sgr_project_grant g)) (hs_sessions h)\<rparr>)))"

definition resolve_project :: "'d host_env \<Rightarrow> project_id \<Rightarrow> desktop_host \<Rightarrow> desktop_error + project_grant" where
  "resolve_project v p h =
     (case hs_projects h p of
        None \<Rightarrow> Inl (project_grant_denied v)
      | Some g \<Rightarrow> if pgr_window_label g \<noteq> hv_window v then Inl (project_grant_denied v) else Inr g)"

definition register_terminal ::
  "'d host_env \<Rightarrow> terminal_id \<Rightarrow> project_id \<Rightarrow> bool \<Rightarrow> desktop_host \<Rightarrow> terminal_id outcome \<times> desktop_host" where
  "register_terminal v persisted project discovery_only h =
     (let kept = retain (\<lambda>g.
            if tgr_window_label g \<noteq> hv_window v \<or> tgr_persisted_terminal_id g \<noteq> persisted then True
            else discovery_only \<and> \<not> tgr_discovery_only g) (hs_terminals h)
      in case find (\<lambda>u. TerminalId u \<noteq> persisted \<and> kept (TerminalId u) = None) (hv_draws v) of
           None \<Rightarrow> (Inl None, h)
         | Some u \<Rightarrow>
             (Inr (TerminalId u),
              h\<lparr>hs_terminals := kept(TerminalId u \<mapsto> \<lparr>tgr_project_grant = project, tgr_persisted_terminal_id = persisted,
                  tgr_discovery_only = discovery_only, tgr_window_label = hv_window v\<rparr>)\<rparr>))"

definition authorize_terminal_grant :: "'d host_env \<Rightarrow> terminal_id \<Rightarrow> desktop_host \<Rightarrow> desktop_error + terminal_grant" where
  "authorize_terminal_grant v t h =
     (case hs_terminals h t of
        None \<Rightarrow> Inl (terminal_grant_denied v)
      | Some g \<Rightarrow> if tgr_window_label g \<noteq> hv_window v then Inl (terminal_grant_denied v) else Inr g)"

definition unregister_terminal :: "terminal_id \<Rightarrow> desktop_host \<Rightarrow> desktop_host" where
  "unregister_terminal t h = h\<lparr>hs_terminals := (hs_terminals h)(t := None)\<rparr>"

definition unregister_terminal_process :: "terminal_id \<Rightarrow> desktop_host \<Rightarrow> desktop_host" where
  "unregister_terminal_process persisted h =
     h\<lparr>hs_terminals := retain (\<lambda>g. tgr_persisted_terminal_id g \<noteq> persisted) (hs_terminals h)\<rparr>"

definition register_session :: "'d host_env \<Rightarrow> session_id \<Rightarrow> project_id \<Rightarrow> desktop_host \<Rightarrow> desktop_host" where
  "register_session v session project h =
     (let terminal = (case hs_sessions h session of
            Some g \<Rightarrow> if sgr_project_grant g = project \<and> sgr_window_label g = hv_window v then sgr_terminal_id g else None
          | None \<Rightarrow> None)
      in h\<lparr>hs_sessions := (hs_sessions h)(session \<mapsto>
            \<lparr>sgr_project_grant = project, sgr_terminal_id = terminal, sgr_window_label = hv_window v\<rparr>)\<rparr>)"

definition register_tui_session ::
  "'d host_env \<Rightarrow> session_id \<Rightarrow> terminal_id \<Rightarrow> project_id \<Rightarrow> desktop_host \<Rightarrow> terminal_id outcome \<times> desktop_host" where
  "register_tui_session v session terminal project h =
     (case register_terminal v terminal project False h of
        (Inl e, h) \<Rightarrow> (Inl e, h)
      | (Inr t, h) \<Rightarrow>
          (let previous = (case hs_sessions h session of Some g \<Rightarrow> sgr_terminal_id g | None \<Rightarrow> None);
               h1 = h\<lparr>hs_sessions := (hs_sessions h)(session \<mapsto>
                  \<lparr>sgr_project_grant = project, sgr_terminal_id = Some t, sgr_window_label = hv_window v\<rparr>)\<rparr>
           in (Inr t, case previous of
                 Some old \<Rightarrow> if old \<noteq> t then unregister_terminal old h1 else h1
               | None \<Rightarrow> h1)))"

definition unregister_session :: "session_id \<Rightarrow> desktop_host \<Rightarrow> terminal_id option \<times> desktop_host" where
  "unregister_session session h =
     ((case hs_sessions h session of Some g \<Rightarrow> sgr_terminal_id g | None \<Rightarrow> None),
      h\<lparr>hs_sessions := (hs_sessions h)(session := None)\<rparr>)"

definition authorize_session_grant :: "'d host_env \<Rightarrow> session_id \<Rightarrow> desktop_host \<Rightarrow> desktop_error + session_grant" where
  "authorize_session_grant v session h =
     (case hs_sessions h session of
        None \<Rightarrow> Inl (session_grant_denied v)
      | Some g \<Rightarrow> if sgr_window_label g \<noteq> hv_window v then Inl (session_grant_denied v) else Inr g)"

text \<open>A window was destroyed.\<close>

definition revoke_window :: "string \<Rightarrow> desktop_host \<Rightarrow> desktop_host" where
  "revoke_window window h =
     h\<lparr>hs_projects := retain (\<lambda>g. pgr_window_label g \<noteq> window) (hs_projects h),
       hs_terminals := retain (\<lambda>g. tgr_window_label g \<noteq> window) (hs_terminals h),
       hs_sessions := retain (\<lambda>g. sgr_window_label g \<noteq> window) (hs_sessions h)\<rparr>"

end
