(* ===== verification/Desktop_Commands.thy ===== *)
theory Desktop_Commands
  imports Desktop_Host
begin

text \<open>
  The commands of the desktop host that the web view calls, in \<^verbatim>\<open>apps/desktop/src-tauri/src/lib.rs\<close>. Each
  checks its arguments and the grants of its window, sends one request to the daemon, checks that the
  answer belongs to the request and records or drops grants. While the daemon is awaited, other commands
  and window events change the host (\<open>hv_meanwhile\<close>).
\<close>

section \<open>Talking to the daemon\<close>

text \<open>A check of the host that changes nothing, and a step on the host alone.\<close>

definition check_host :: "(desktop_host \<Rightarrow> desktop_error + 'a) \<Rightarrow> ('d, 'a) command" where
  "check_host f s = (map_err Some (f (fst s)), s)"

definition on_host :: "(desktop_host \<Rightarrow> 'a outcome \<times> desktop_host) \<Rightarrow> ('d, 'a) command" where
  "on_host f s = (case f (fst s) of (r, h) \<Rightarrow> (r, (h, snd s)))"

definition updating :: "(desktop_host \<Rightarrow> desktop_host) \<Rightarrow> ('d, unit) command" where
  "updating f s = (Inr (), (f (fst s), snd s))"

definition invalidate_daemon_client :: "nat \<Rightarrow> desktop_host \<Rightarrow> desktop_host" where
  "invalidate_daemon_client client h = (if hs_daemon h = Some client then h\<lparr>hs_daemon := None\<rparr> else h)"

text \<open>The connection that is open, or a new one.\<close>

definition daemon_client :: "'d host_env \<Rightarrow> desktop_host \<Rightarrow> (desktop_error + nat) \<times> desktop_host" where
  "daemon_client v h =
     (case hs_daemon h of
        Some client \<Rightarrow> (Inr client, h)
      | None \<Rightarrow>
          (case hv_connect v of
             Inr client \<Rightarrow> (Inr client, h\<lparr>hs_daemon := Some client\<rparr>)
           | Inl (IpcFatal e) \<Rightarrow> (Inl (desktop_error_of (hv_id_text v) e), h)
           | Inl IpcOther \<Rightarrow> (Inl (daemon_unavailable v), h)))"

definition request_daemon_correlated :: "'d host_env \<Rightarrow> request_id \<Rightarrow> request \<Rightarrow> ('d, response) command" where
  "request_daemon_correlated v request_id q s =
     (case daemon_client v (fst s) of
        (Inl e, h) \<Rightarrow> (Inl (Some e), (h, snd s))
      | (Inr client, h) \<Rightarrow>
          (case hv_daemon v request_id q (snd s) of
             (Inr y, d) \<Rightarrow> (Inr y, (hv_meanwhile v h, d))
           | (Inl (IpcFatal e), d) \<Rightarrow> (Inl (Some (desktop_error_of (hv_id_text v) e)), (hv_meanwhile v h, d))
           | (Inl IpcOther, d) \<Rightarrow>
               (Inl (Some (daemon_unavailable v)), (invalidate_daemon_client client (hv_meanwhile v h), d))))"

text \<open>Finding the paths of the daemon, then one request.\<close>

definition ask :: "'d host_env \<Rightarrow> request \<Rightarrow> ('d, response) command" where
  "ask v q =
     io_bind (check_host (\<lambda>_. if hv_paths v then Inr () else Inl (daemon_unavailable v))) (\<lambda>_.
     request_daemon_correlated v (hv_request v) q)"

definition unexpected :: "'d host_env \<Rightarrow> ('d, 'a) command" where
  "unexpected v = io_return (Inl (Some (unexpected_response v)))"

definition answer :: "'a \<Rightarrow> ('d, 'a) command" where
  "answer x = io_return (Inr x)"

text \<open>The grants behind the identifiers that the web view sends.\<close>

definition authorize_project :: "'d host_env \<Rightarrow> string \<Rightarrow> ('d, project_id) command" where
  "authorize_project v value =
     check_host (\<lambda>h. and_then (parse_project_id v value) (\<lambda>grant.
       and_then (resolve_project v grant h) (\<lambda>g. Inr (pgr_persisted_project_id g))))"

definition authorize_terminal :: "'d host_env \<Rightarrow> string \<Rightarrow> ('d, terminal_id \<times> terminal_id) command" where
  "authorize_terminal v value =
     check_host (\<lambda>h. and_then (parse_terminal_id v value) (\<lambda>grant.
       and_then (authorize_terminal_grant v grant h) (\<lambda>g. Inr (grant, tgr_persisted_terminal_id g))))"

definition authorize_session :: "'d host_env \<Rightarrow> string \<Rightarrow> ('d, session_id) command" where
  "authorize_session v value =
     check_host (\<lambda>h. and_then (parse_session_id v value) (\<lambda>session.
       and_then (authorize_session_grant v session h) (\<lambda>_. Inr session)))"

section \<open>Sessions\<close>

text \<open>Starting and attaching name the project by its grant.\<close>

definition granted_project :: "'d host_env \<Rightarrow> string \<Rightarrow> ('d, project_id \<times> project_grant) command" where
  "granted_project v value =
     check_host (\<lambda>h. and_then (parse_project_id v value) (\<lambda>grant.
       and_then (resolve_project v grant h) (\<lambda>g. Inr (grant, g))))"

definition ui_fake_session_start :: "'d host_env \<Rightarrow> string \<Rightarrow> string \<Rightarrow> string option \<Rightarrow> nat option \<Rightarrow> bool \<Rightarrow> ('d, session_run_started) command" where
  "ui_fake_session_start v project_value scenario binding volume capture =
     io_bind (granted_project v project_value) (\<lambda>(grant, g).
     io_bind (ask v (ReqFakeSessionStart (pgr_persisted_project_id g) scenario binding volume capture)) (\<lambda>y.
     (case y of
        RespSessionRunStarted started \<Rightarrow>
          io_bind (updating (register_session v (srs_session_id started) grant)) (\<lambda>_. answer started)
      | _ \<Rightarrow> unexpected v)))"

definition ui_fake_tui_start :: "'d host_env \<Rightarrow> string \<Rightarrow> string \<Rightarrow> u16 \<Rightarrow> u16 \<Rightarrow> ('d, session_terminal_started) command" where
  "ui_fake_tui_start v project_value scenario columns rows =
     io_bind (granted_project v project_value) (\<lambda>(grant, g).
     io_bind (ask v (ReqFakeTuiStart (pgr_persisted_project_id g) scenario columns rows)) (\<lambda>y.
     (case y of
        RespSessionTerminalStarted started \<Rightarrow>
          io_bind (on_host (register_tui_session v (sts_session_id started) (to_terminal_id (sts_terminal started)) grant)) (\<lambda>t.
          answer (started\<lparr>sts_terminal := (sts_terminal started)\<lparr>to_terminal_id := t\<rparr>\<rparr>))
      | _ \<Rightarrow> unexpected v)))"

text \<open>The grant of a session with the project grant that it refers to.\<close>

definition granted_session :: "'d host_env \<Rightarrow> string \<Rightarrow> ('d, session_id \<times> session_grant) command" where
  "granted_session v value =
     check_host (\<lambda>h. and_then (parse_session_id v value) (\<lambda>session.
       and_then (authorize_session_grant v session h) (\<lambda>g. Inr (session, g))))"

definition ui_fake_tui_attach :: "'d host_env \<Rightarrow> string \<Rightarrow> ('d, session_terminal_attached) command" where
  "ui_fake_tui_attach v session_value =
     io_bind (granted_session v session_value) (\<lambda>(session, sg).
     io_bind (check_host (resolve_project v (sgr_project_grant sg))) (\<lambda>g.
     io_bind (ask v (ReqSessionTerminalAttach session (pgr_persisted_project_id g))) (\<lambda>y.
     (case y of
        RespSessionTerminalAttached attached \<Rightarrow>
          if sta_session_id attached \<noteq> session then unexpected v
          else io_bind (on_host (register_tui_session v session (to_terminal_id (sta_terminal attached)) (sgr_project_grant sg))) (\<lambda>t.
            answer (attached\<lparr>sta_terminal := (sta_terminal attached)\<lparr>to_terminal_id := t\<rparr>\<rparr>))
      | _ \<Rightarrow> unexpected v))))"

definition ui_fake_session_attach :: "'d host_env \<Rightarrow> string \<Rightarrow> string \<Rightarrow> ('d, session_run_attached) command" where
  "ui_fake_session_attach v project_value session_value =
     io_bind (check_host (\<lambda>_. parse_project_id v project_value)) (\<lambda>grant.
     io_bind (granted_session v session_value) (\<lambda>(session, sg).
     io_bind (check_host (\<lambda>_. if sgr_project_grant sg \<noteq> grant \<or> sgr_terminal_id sg \<noteq> None
                            then Inl (session_grant_denied v) else Inr ())) (\<lambda>_.
     io_bind (check_host (resolve_project v grant)) (\<lambda>g.
     io_bind (ask v (ReqSessionStructuredAttach session (pgr_persisted_project_id g))) (\<lambda>y.
     (case y of
        RespSessionRunAttached attached \<Rightarrow> if sra_session_id attached = session then answer attached else unexpected v
      | _ \<Rightarrow> unexpected v))))))"

text \<open>The listed sessions become grants one after the other, up to one of another project.\<close>

fun grant_sessions :: "'d host_env \<Rightarrow> project_id \<Rightarrow> project_id \<Rightarrow> session_index_entry list \<Rightarrow> ('d, unit) command" where
  "grant_sessions v project grant [] s = (Inr (), s)"
| "grant_sessions v project grant (e # es) s =
     (if si_project_id e \<noteq> project then unexpected v s
      else io_bind (updating (register_session v (si_session_id e) grant)) (\<lambda>_. grant_sessions v project grant es) s)"

definition ui_session_list :: "'d host_env \<Rightarrow> string \<Rightarrow> nat \<Rightarrow> ('d, session_index_entry list) command" where
  "ui_session_list v project_value maximum_sessions =
     io_bind (granted_project v project_value) (\<lambda>(grant, g).
     io_bind (ask v (ReqSessionList (pgr_persisted_project_id g) maximum_sessions)) (\<lambda>y.
     (case y of
        RespSessionList es \<Rightarrow>
          io_bind (grant_sessions v (pgr_persisted_project_id g) grant es) (\<lambda>_. answer es)
      | _ \<Rightarrow> unexpected v)))"

definition ui_fake_session_resume :: "'d host_env \<Rightarrow> string \<Rightarrow> string \<Rightarrow> string \<Rightarrow> string option \<Rightarrow> bool \<Rightarrow> ('d, session_run_started) command" where
  "ui_fake_session_resume v project_value session_value scenario binding capture =
     io_bind (check_host (\<lambda>_. parse_project_id v project_value)) (\<lambda>grant.
     io_bind (granted_session v session_value) (\<lambda>(session, sg).
     io_bind (check_host (\<lambda>_. if sgr_project_grant sg \<noteq> grant then Inl (session_grant_denied v) else Inr ())) (\<lambda>_.
     io_bind (check_host (resolve_project v grant)) (\<lambda>g.
     io_bind (ask v (ReqFakeSessionResume session (pgr_persisted_project_id g) scenario binding capture)) (\<lambda>y.
     (case y of
        RespSessionRunStarted started \<Rightarrow> if srs_session_id started = session then answer started else unexpected v
      | _ \<Rightarrow> unexpected v))))))"

definition ui_session_snapshot :: "'d host_env \<Rightarrow> string \<Rightarrow> ('d, session_snapshot) command" where
  "ui_session_snapshot v session_value =
     io_bind (authorize_session v session_value) (\<lambda>session.
     io_bind (ask v (ReqSessionSnapshot session)) (\<lambda>y.
     (case y of RespSessionSnapshot snapshot \<Rightarrow> if snap_session_id snapshot = session then answer snapshot else unexpected v | _ \<Rightarrow> unexpected v)))"

definition ui_session_events_read :: "'d host_env \<Rightarrow> string \<Rightarrow> u64 \<Rightarrow> ('d, session_event_batch) command" where
  "ui_session_events_read v session_value after_sequence =
     io_bind (authorize_session v session_value) (\<lambda>session.
     io_bind (ask v (ReqSessionEventsRead session after_sequence SESSION_EVENTS_PER_READ SESSION_READ_WAIT_MILLISECONDS)) (\<lambda>y.
     (case y of RespSessionEvents batch \<Rightarrow> if seb_session_id batch = session then answer batch else unexpected v | _ \<Rightarrow> unexpected v)))"

definition ui_session_raw_read :: "'d host_env \<Rightarrow> string \<Rightarrow> string \<Rightarrow> u64 \<Rightarrow> u32 \<Rightarrow> ('d, session_raw_batch) command" where
  "ui_session_raw_read v session_value run_value after_offset maximum_bytes =
     io_bind (authorize_session v session_value) (\<lambda>session.
     io_bind (check_host (\<lambda>_. parse_run_id v run_value)) (\<lambda>run.
     io_bind (ask v (ReqSessionRawRead session run after_offset maximum_bytes)) (\<lambda>y.
     (case y of RespSessionRaw batch \<Rightarrow> if srb_session_id batch = session \<and> srb_run_id batch = run then answer batch else unexpected v | _ \<Rightarrow> unexpected v))))"

definition ui_session_subscribe :: "'d host_env \<Rightarrow> string \<Rightarrow> u64 \<Rightarrow> ('d, unit) command" where
  "ui_session_subscribe v session_value after_sequence =
     io_bind (authorize_session v session_value) (\<lambda>session.
     io_bind (ask v (ReqSubscribeSession session after_sequence)) (\<lambda>y.
     (case y of RespSubscribed subscribed \<Rightarrow> if subscribed = session then answer () else unexpected v | _ \<Rightarrow> unexpected v)))"

definition ui_session_unsubscribe :: "'d host_env \<Rightarrow> string \<Rightarrow> ('d, unit) command" where
  "ui_session_unsubscribe v session_value =
     io_bind (authorize_session v session_value) (\<lambda>session.
     io_bind (ask v (ReqUnsubscribeSession session)) (\<lambda>y.
     (case y of RespUnsubscribed unsubscribed \<Rightarrow> if unsubscribed = session then answer () else unexpected v | _ \<Rightarrow> unexpected v)))"

text \<open>A stopped session loses its grant and the grant of its terminal.\<close>

definition drop_session_grant :: "session_id \<Rightarrow> desktop_host \<Rightarrow> desktop_host" where
  "drop_session_grant session h =
     (case unregister_session session h of
        (Some t, h) \<Rightarrow> unregister_terminal t h
      | (None, h) \<Rightarrow> h)"

definition ui_session_stop :: "'d host_env \<Rightarrow> string \<Rightarrow> ('d, unit) command" where
  "ui_session_stop v session_value =
     io_bind (authorize_session v session_value) (\<lambda>session.
     io_bind (ask v (ReqStopSession session)) (\<lambda>y.
     (case y of RespSessionStopped ended \<Rightarrow> if ended = session then updating (drop_session_grant session) else unexpected v | _ \<Rightarrow> unexpected v)))"

definition ui_session_permission_respond :: "'d host_env \<Rightarrow> string \<Rightarrow> string \<Rightarrow> string \<Rightarrow> session_permission_decision \<Rightarrow> ('d, unit) command" where
  "ui_session_permission_respond v session_value run_value request decision =
     io_bind (authorize_session v session_value) (\<lambda>session.
     io_bind (check_host (\<lambda>_. parse_run_id v run_value)) (\<lambda>run.
     io_bind (ask v (ReqSessionPermissionRespond session run request decision)) (\<lambda>y.
     (case y of RespSessionPermissionAccepted accepted_session accepted_request \<Rightarrow> if accepted_session = session \<and> accepted_request = request then answer () else unexpected v | _ \<Rightarrow> unexpected v))))"

definition ui_session_user_input_respond :: "'d host_env \<Rightarrow> string \<Rightarrow> string \<Rightarrow> string \<Rightarrow> string \<Rightarrow> ('d, unit) command" where
  "ui_session_user_input_respond v session_value run_value request value_json =
     io_bind (authorize_session v session_value) (\<lambda>session.
     io_bind (check_host (\<lambda>_. parse_run_id v run_value)) (\<lambda>run.
     io_bind (ask v (ReqSessionUserInputRespond session run request value_json)) (\<lambda>y.
     (case y of RespSessionUserInputAccepted accepted_session accepted_request \<Rightarrow> if accepted_session = session \<and> accepted_request = request then answer () else unexpected v | _ \<Rightarrow> unexpected v))))"

definition ui_session_gui_action :: "'d host_env \<Rightarrow> string \<Rightarrow> string \<Rightarrow> string \<Rightarrow> string \<Rightarrow> ('d, string) command" where
  "ui_session_gui_action v session_value run_value action payload_json =
     io_bind (authorize_session v session_value) (\<lambda>session.
     io_bind (check_host (\<lambda>_. parse_run_id v run_value)) (\<lambda>run.
     io_bind (ask v (ReqSessionGuiAction session run action payload_json)) (\<lambda>y.
     (case y of RespSessionGuiActionAccepted accepted_session action_id \<Rightarrow> if accepted_session = session then answer action_id else unexpected v | _ \<Rightarrow> unexpected v))))"

section \<open>Terminals\<close>

definition ui_terminal_open :: "'d host_env \<Rightarrow> string \<Rightarrow> u16 \<Rightarrow> u16 \<Rightarrow> ('d, terminal_opened) command" where
  "ui_terminal_open v project_value columns rows =
     io_bind (granted_project v project_value) (\<lambda>(grant, g).
     io_bind (ask v (ReqTerminalOpen (pgr_persisted_project_id g) (pgr_canonical_path g) columns rows)) (\<lambda>y.
     (case y of
        RespTerminalOpened opened \<Rightarrow>
          io_bind (on_host (register_terminal v (to_terminal_id opened) grant False)) (\<lambda>t. answer (opened\<lparr>to_terminal_id := t\<rparr>))
      | _ \<Rightarrow> unexpected v)))"

record desktop_terminal_index_entry =
  dti_terminal_id :: terminal_id
  dti_run_id :: run_id
  dti_process_id :: u32
  dti_canonical_cwd :: string
  dti_state :: terminal_state
  dti_kind :: string
  dti_title :: string
  dti_exit :: "terminal_exit option"

definition grant_terminal_index_entry ::
  "'d host_env \<Rightarrow> terminal_index_entry \<Rightarrow> project_id \<Rightarrow> ('d, desktop_terminal_index_entry) command" where
  "grant_terminal_index_entry v e grant =
     io_bind (on_host (register_terminal v (to_terminal_id (ti_terminal e)) grant True)) (\<lambda>t.
     answer \<lparr>dti_terminal_id = t, dti_run_id = to_run_id (ti_terminal e), dti_process_id = to_process_id (ti_terminal e),
       dti_canonical_cwd = to_canonical_cwd (ti_terminal e), dti_state = terminal_opened.to_state (ti_terminal e), dti_kind = ti_kind e,
       dti_title = ti_title e, dti_exit = ti_exit e\<rparr>)"

text \<open>Each entry draws its own identifiers: \<open>draws\<close> gives those of the entries in turn.\<close>

fun grant_terminals ::
  "'d host_env \<Rightarrow> (nat \<Rightarrow> uuid list) \<Rightarrow> project_id \<Rightarrow> project_id \<Rightarrow> terminal_index_entry list \<Rightarrow>
   ('d, desktop_terminal_index_entry list) command" where
  "grant_terminals v draws project grant [] s = (Inr [], s)"
| "grant_terminals v draws project grant (e # es) s =
     (if ti_project_id e \<noteq> project \<or> ti_kind e \<noteq> ''shell'' then unexpected v s
      else io_bind (grant_terminal_index_entry (v\<lparr>hv_draws := draws 0\<rparr>) e grant) (\<lambda>x.
        io_bind (grant_terminals v (\<lambda>n. draws (Suc n)) project grant es) (\<lambda>xs. answer (x # xs))) s)"

definition ui_terminal_list :: "'d host_env \<Rightarrow> (nat \<Rightarrow> uuid list) \<Rightarrow> string \<Rightarrow> nat \<Rightarrow> ('d, desktop_terminal_index_entry list) command" where
  "ui_terminal_list v draws project_value maximum_terminals =
     io_bind (granted_project v project_value) (\<lambda>(grant, g).
     io_bind (ask v (ReqTerminalList (pgr_persisted_project_id g) maximum_terminals)) (\<lambda>y.
     (case y of
        RespTerminalList es \<Rightarrow> grant_terminals v draws (pgr_persisted_project_id g) grant es
      | _ \<Rightarrow> unexpected v)))"

definition ui_terminal_attach :: "'d host_env \<Rightarrow> string \<Rightarrow> string \<Rightarrow> ('d, terminal_opened) command" where
  "ui_terminal_attach v project_value terminal_value =
     io_bind (check_host (\<lambda>_. parse_project_id v project_value)) (\<lambda>grant.
     io_bind (check_host (\<lambda>_. parse_terminal_id v terminal_value)) (\<lambda>terminal_grant.
     io_bind (check_host (authorize_terminal_grant v terminal_grant)) (\<lambda>tg.
     io_bind (check_host (\<lambda>_. if tgr_project_grant tg \<noteq> grant then Inl (terminal_grant_denied v) else Inr ())) (\<lambda>_.
     io_bind (check_host (resolve_project v grant)) (\<lambda>g.
     io_bind (ask v (ReqTerminalAttach (pgr_persisted_project_id g) (tgr_persisted_terminal_id tg))) (\<lambda>y.
     (case y of
        RespTerminalAttached opened \<Rightarrow>
          if to_terminal_id opened \<noteq> tgr_persisted_terminal_id tg then unexpected v
          else io_bind (on_host (register_terminal v (to_terminal_id opened) grant False)) (\<lambda>t.
            answer (opened\<lparr>to_terminal_id := t\<rparr>))
      | _ \<Rightarrow> unexpected v)))))))"

definition ui_terminal_write :: "'d host_env \<Rightarrow> string \<Rightarrow> bytes \<Rightarrow> ('d, terminal_id) command" where
  "ui_terminal_write v terminal_value bs =
     io_bind (authorize_terminal v terminal_value) (\<lambda>(grant, terminal).
     io_bind (ask v (ReqTerminalWrite terminal bs)) (\<lambda>y.
     (case y of RespTerminalWriteAccepted accepted \<Rightarrow> if accepted = terminal then answer grant else unexpected v | _ \<Rightarrow> unexpected v)))"

definition ui_terminal_resize :: "'d host_env \<Rightarrow> string \<Rightarrow> u16 \<Rightarrow> u16 \<Rightarrow> ('d, terminal_id) command" where
  "ui_terminal_resize v terminal_value columns rows =
     io_bind (authorize_terminal v terminal_value) (\<lambda>(grant, terminal).
     io_bind (ask v (ReqTerminalResize terminal columns rows)) (\<lambda>y.
     (case y of RespTerminalResized resized \<Rightarrow> if resized = terminal then answer grant else unexpected v | _ \<Rightarrow> unexpected v)))"

definition ui_terminal_read :: "'d host_env \<Rightarrow> string \<Rightarrow> u64 \<Rightarrow> u32 \<Rightarrow> ('d, terminal_read_result) command" where
  "ui_terminal_read v terminal_value after_sequence maximum_bytes =
     io_bind (authorize_terminal v terminal_value) (\<lambda>(grant, terminal).
     io_bind (ask v (ReqTerminalRead terminal after_sequence maximum_bytes TERMINAL_READ_WAIT_MILLISECONDS)) (\<lambda>y.
     (case y of RespTerminalRead r \<Rightarrow> if tr_terminal_id r = terminal then answer (r\<lparr>tr_terminal_id := grant\<rparr>) else unexpected v | _ \<Rightarrow> unexpected v)))"

definition ui_terminal_state :: "'d host_env \<Rightarrow> string \<Rightarrow> ('d, terminal_status) command" where
  "ui_terminal_state v terminal_value =
     io_bind (authorize_terminal v terminal_value) (\<lambda>(grant, terminal).
     io_bind (ask v (ReqTerminalState terminal)) (\<lambda>y.
     (case y of RespTerminalState status \<Rightarrow> if tu_terminal_id status = terminal then answer (status\<lparr>tu_terminal_id := grant\<rparr>) else unexpected v | _ \<Rightarrow> unexpected v)))"

definition ui_terminal_close :: "'d host_env \<Rightarrow> string \<Rightarrow> ('d, terminal_status) command" where
  "ui_terminal_close v terminal_value =
     io_bind (authorize_terminal v terminal_value) (\<lambda>(grant, terminal).
     io_bind (ask v (ReqTerminalClose terminal)) (\<lambda>y.
     (case y of RespTerminalClosed status \<Rightarrow> if tu_terminal_id status = terminal then io_bind (updating (unregister_terminal_process terminal)) (\<lambda>_. answer (status\<lparr>tu_terminal_id := grant\<rparr>)) else unexpected v | _ \<Rightarrow> unexpected v)))"

section \<open>Projects\<close>

definition ui_project_window_layout_load :: "'d host_env \<Rightarrow> string \<Rightarrow> string \<Rightarrow> ('d, string option) command" where
  "ui_project_window_layout_load v project_value window_key =
     io_bind (authorize_project v project_value) (\<lambda>project.
     io_bind (check_host (\<lambda>_. validate_window_key v window_key)) (\<lambda>_.
     io_bind (ask v (ReqProjectWindowLayoutLoad project window_key)) (\<lambda>y.
     (case y of RespProjectWindowLayout layout \<Rightarrow> if pw_project_id layout = project \<and> pw_window_key layout = window_key then answer (pw_layout_json layout) else unexpected v | _ \<Rightarrow> unexpected v))))"

definition ui_project_window_layout_save :: "'d host_env \<Rightarrow> string \<Rightarrow> string \<Rightarrow> string \<Rightarrow> ('d, unit) command" where
  "ui_project_window_layout_save v project_value window_key layout_json =
     io_bind (authorize_project v project_value) (\<lambda>project.
     io_bind (check_host (\<lambda>_. validate_window_key v window_key)) (\<lambda>_.
     io_bind (check_host (\<lambda>_. validate_window_layout_json v layout_json)) (\<lambda>_.
     io_bind (ask v (ReqProjectWindowLayoutSave project window_key layout_json)) (\<lambda>y.
     (case y of RespProjectWindowLayoutSaved saved_project saved_key \<Rightarrow> if saved_project = project \<and> saved_key = window_key then answer () else unexpected v | _ \<Rightarrow> unexpected v)))))"

definition ui_project_directory_list :: "'d host_env \<Rightarrow> string \<Rightarrow> string \<Rightarrow> u64 \<Rightarrow> nat \<Rightarrow> bool \<Rightarrow> ('d, project_directory_page) command" where
  "ui_project_directory_list v project_value directory cursor maximum_entries hidden =
     io_bind (authorize_project v project_value) (\<lambda>project.
     io_bind (ask v (ReqProjectDirectoryList project directory cursor maximum_entries hidden)) (\<lambda>y.
     (case y of RespProjectDirectoryPage page \<Rightarrow> answer page | _ \<Rightarrow> unexpected v)))"

definition ui_project_file_read :: "'d host_env \<Rightarrow> string \<Rightarrow> string \<Rightarrow> ('d, project_text_file) command" where
  "ui_project_file_read v project_value file_path =
     io_bind (authorize_project v project_value) (\<lambda>project.
     io_bind (ask v (ReqProjectFileRead project file_path)) (\<lambda>y.
     (case y of RespProjectTextFile opened \<Rightarrow> answer opened | _ \<Rightarrow> unexpected v)))"

definition ui_project_file_save :: "'d host_env \<Rightarrow> string \<Rightarrow> string \<Rightarrow> string \<Rightarrow> bytes \<Rightarrow> ('d, project_file_saved) command" where
  "ui_project_file_save v project_value file_path content fingerprint =
     io_bind (authorize_project v project_value) (\<lambda>project.
     io_bind (ask v (ReqProjectFileSave project file_path content fingerprint)) (\<lambda>y.
     (case y of RespProjectFileSaved saved \<Rightarrow> answer saved | _ \<Rightarrow> unexpected v)))"

definition ui_project_search_cancel :: "'d host_env \<Rightarrow> string \<Rightarrow> string \<Rightarrow> ('d, unit) command" where
  "ui_project_search_cancel v project_value search_value =
     io_bind (authorize_project v project_value) (\<lambda>project.
     io_bind (check_host (\<lambda>_. parse_request_id v search_value)) (\<lambda>search_id.
     io_bind (ask v (ReqProjectSearchCancel search_id)) (\<lambda>y.
     (case y of RespProjectSearchCancelled cancelled \<Rightarrow> answer () | _ \<Rightarrow> unexpected v))))"

definition ui_project_git_status :: "'d host_env \<Rightarrow> string \<Rightarrow> string \<Rightarrow> ('d, project_git_status_entry list) command" where
  "ui_project_git_status v project_value repository =
     io_bind (authorize_project v project_value) (\<lambda>project.
     io_bind (ask v (ReqProjectGitStatus project repository)) (\<lambda>y.
     (case y of RespProjectGitStatus status \<Rightarrow> answer status | _ \<Rightarrow> unexpected v)))"

definition ui_project_git_branch :: "'d host_env \<Rightarrow> string \<Rightarrow> string \<Rightarrow> ('d, project_branch_state) command" where
  "ui_project_git_branch v project_value repository =
     io_bind (authorize_project v project_value) (\<lambda>project.
     io_bind (ask v (ReqProjectGitBranch project repository)) (\<lambda>y.
     (case y of RespProjectGitBranch branch \<Rightarrow> answer branch | _ \<Rightarrow> unexpected v)))"

definition ui_project_git_diff :: "'d host_env \<Rightarrow> string \<Rightarrow> string \<Rightarrow> project_diff_scope \<Rightarrow> nat \<Rightarrow> ('d, project_git_diff) command" where
  "ui_project_git_diff v project_value repository scope n =
     io_bind (authorize_project v project_value) (\<lambda>project.
     io_bind (ask v (ReqProjectGitDiff project repository scope n)) (\<lambda>y.
     (case y of RespProjectGitDiff diff \<Rightarrow> answer diff | _ \<Rightarrow> unexpected v)))"

definition ui_project_git_worktrees :: "'d host_env \<Rightarrow> string \<Rightarrow> string \<Rightarrow> ('d, project_worktree list) command" where
  "ui_project_git_worktrees v project_value repository =
     io_bind (authorize_project v project_value) (\<lambda>project.
     io_bind (ask v (ReqProjectGitWorktrees project repository)) (\<lambda>y.
     (case y of RespProjectGitWorktrees trees \<Rightarrow> answer trees | _ \<Rightarrow> unexpected v)))"

definition ui_project_search :: "'d host_env \<Rightarrow> string \<Rightarrow> string \<Rightarrow> project_search_options \<Rightarrow> ('d, project_search_result) command" where
  "ui_project_search v project_value search_value options =
     io_bind (authorize_project v project_value) (\<lambda>project.
     io_bind (check_host (\<lambda>_. parse_request_id v search_value)) (\<lambda>search_id.
     io_bind (ask v (ReqProjectSearch project search_id options)) (\<lambda>y.
     (case y of RespProjectSearchResult found \<Rightarrow> answer found | _ \<Rightarrow> unexpected v))))"

section \<open>Opening projects\<close>

definition ui_project_recent_list :: "'d host_env \<Rightarrow> nat \<Rightarrow> ('d, recent_project list) command" where
  "ui_project_recent_list v maximum_projects =
     io_bind (check_host (\<lambda>_. validate_recent_project_limit v maximum_projects)) (\<lambda>_.
     io_bind (ask v (ReqProjectRecentList maximum_projects)) (\<lambda>y.
     (case y of RespProjectRecentList ps \<Rightarrow> answer ps | _ \<Rightarrow> unexpected v)))"

definition ui_project_set_favorite :: "'d host_env \<Rightarrow> string \<Rightarrow> bool \<Rightarrow> ('d, bool) command" where
  "ui_project_set_favorite v project_value favorite =
     io_bind (check_host (\<lambda>_. parse_project_id_for_request v project_value)) (\<lambda>project.
     io_bind (ask v (ReqProjectSetFavorite project favorite)) (\<lambda>y.
     (case y of
        RespProjectFavoriteUpdated updated f \<Rightarrow> if updated = project \<and> f = favorite then answer f else unexpected v
      | _ \<Rightarrow> unexpected v)))"

text \<open>
  A registration is one request with a deadline; the answer must name the requested roots. When the
  deadline passes the request has been sent all the same.
\<close>

definition project_registration_with_deadline :: "'d host_env \<Rightarrow> request_id \<Rightarrow> ('d, response) command \<Rightarrow> ('d, response) command" where
  "project_registration_with_deadline v request operation s =
     (case operation s of
        (r, s) \<Rightarrow> (if hv_deadline_passes v then Inl (Some (project_registration_timed_out v request)) else r, s))"

definition register_project_with_paths ::
  "'d host_env \<Rightarrow> project_id \<Rightarrow> request_id \<Rightarrow> string \<Rightarrow> string list \<Rightarrow> ('d, project_selection) command" where
  "register_project_with_paths v project correlation display_name roots =
     io_bind (project_registration_with_deadline v correlation
       (request_daemon_correlated v correlation (ReqProjectRegister project display_name roots))) (\<lambda>y.
     (case y of
        RespProjectRegistered g \<Rightarrow>
          io_bind (check_host (\<lambda>_. validate_persisted_roots v (pg_canonical_roots g))) (\<lambda>canonical.
          if canonical \<noteq> project_registration_key roots then unexpected v
          else on_host (grant_registered_project v (pg_project_id g) (pg_display_name g) canonical))
      | _ \<Rightarrow> unexpected v))"

definition open_recent_project_with_paths ::
  "'d host_env \<Rightarrow> project_id \<Rightarrow> ('d, project_selection) command" where
  "open_recent_project_with_paths v project =
     io_bind (request_daemon_correlated v (hv_request v) (ReqProjectRecentList MAXIMUM_RECENT_PROJECTS)) (\<lambda>y.
     (case y of
        RespProjectRecentList ps \<Rightarrow>
          io_bind (check_host (\<lambda>_. ok_or (host_invalid_request v ''The saved project is no longer available.'')
              (find (\<lambda>p. rp_project_id p = project) ps))) (\<lambda>saved.
          io_bind (check_host (\<lambda>_. validate_persisted_roots v (rp_canonical_roots saved))) (\<lambda>roots.
          register_project_with_paths v project (hv_request v) (rp_display_name saved) roots))
      | _ \<Rightarrow> unexpected v))"

definition ui_open_recent_project :: "'d host_env \<Rightarrow> string \<Rightarrow> ('d, project_selection) command" where
  "ui_open_recent_project v project_value =
     io_bind (check_host (\<lambda>_. parse_project_id_for_request v project_value)) (\<lambda>project.
     io_bind (check_host (\<lambda>_. if hv_paths v then Inr () else Inl (daemon_unavailable v))) (\<lambda>_.
     open_recent_project_with_paths v project))"

text \<open>The registration of new folders keeps its identifier for a retry unless it is over.\<close>

definition register_new_project_with_paths ::
  "'d host_env \<Rightarrow> project_id \<Rightarrow> string \<Rightarrow> string list \<Rightarrow> ('d, project_selection) command" where
  "register_new_project_with_paths v drawn display_name roots s =
     (case begin_project_registration roots drawn (fst s) of
        (project, h) \<Rightarrow>
          (case register_project_with_paths v project (hv_request v) display_name roots (h, snd s) of
             (r, (h, d)) \<Rightarrow>
               (r, (case r of
                      Inr _ \<Rightarrow> finish_project_registration roots project h
                    | Inl (Some e) \<Rightarrow> if ue_retryable e then h else finish_project_registration roots project h
                    | Inl None \<Rightarrow> h, d))))"

text \<open>The selected folders; \<open>selected\<close> is \<^term>\<open>None\<close> when the dialog was cancelled.\<close>

definition ui_open_project_folder ::
  "'d host_env \<Rightarrow> project_id \<Rightarrow> string list option \<Rightarrow> ('d, project_selection option) command" where
  "ui_open_project_folder v drawn selected =
     (case selected of
        None \<Rightarrow> answer None
      | Some folders \<Rightarrow>
          io_bind (check_host (\<lambda>_. map_err (host_invalid_path v) (validate_workspace_paths v folders))) (\<lambda>(name, roots).
          io_bind (check_host (\<lambda>_. if hv_paths v then Inr () else Inl (daemon_unavailable v))) (\<lambda>_.
          io_bind (register_new_project_with_paths v drawn name roots) (\<lambda>p. answer (Some p)))))"

section \<open>Settings and storage\<close>

definition ui_shortcut_settings_load :: "'d host_env \<Rightarrow> ('d, shortcut_bindings option) command" where
  "ui_shortcut_settings_load v =
     io_bind (ask v (ReqSettingLoad SHORTCUT_SETTING_SCOPE SHORTCUT_SETTING_SCOPE_REFERENCE SHORTCUT_SETTING_KEY)) (\<lambda>y.
     (case y of
        RespSettingValue scope reference key value_json \<Rightarrow>
          if scope \<noteq> SHORTCUT_SETTING_SCOPE \<or> reference \<noteq> SHORTCUT_SETTING_SCOPE_REFERENCE \<or> key \<noteq> SHORTCUT_SETTING_KEY
          then unexpected v
          else (case value_json of
                  None \<Rightarrow> answer None
                | Some t \<Rightarrow>
                    io_bind (check_host (\<lambda>_. ok_or (host_invalid_request v ''Saved keyboard shortcuts are not valid.'')
                        (hv_decode_shortcuts v t))) (\<lambda>b.
                    io_bind (check_host (\<lambda>_. validate_shortcuts v b)) (\<lambda>_. answer (Some b))))
      | _ \<Rightarrow> unexpected v))"

definition ui_shortcut_settings_save :: "'d host_env \<Rightarrow> shortcut_bindings \<Rightarrow> ('d, unit) command" where
  "ui_shortcut_settings_save v b =
     io_bind (check_host (\<lambda>_. if hv_paths v then Inr () else Inl (daemon_unavailable v))) (\<lambda>_.
     io_bind (check_host (\<lambda>_. validate_shortcuts v b)) (\<lambda>_.
     io_bind (request_daemon_correlated v (hv_request v) (ReqSettingSave SHORTCUT_SETTING_SCOPE SHORTCUT_SETTING_SCOPE_REFERENCE
       SHORTCUT_SETTING_KEY (hv_encode_shortcuts v b))) (\<lambda>y.
     (case y of
        RespSettingSaved scope reference key \<Rightarrow>
          if scope = SHORTCUT_SETTING_SCOPE \<and> reference = SHORTCUT_SETTING_SCOPE_REFERENCE \<and> key = SHORTCUT_SETTING_KEY
          then answer () else unexpected v
      | _ \<Rightarrow> unexpected v))))"

definition ui_background_stop_all :: "'d host_env \<Rightarrow> ('d, u32 \<times> u32) command" where
  "ui_background_stop_all v =
     io_bind (ask v ReqStopAllWork) (\<lambda>y.
     (case y of RespBackgroundWorkStopped sessions terminals \<Rightarrow> answer (sessions, terminals) | _ \<Rightarrow> unexpected v))"

text \<open>
  A snapshot of the daemon never fails: what cannot be asked is shown as not connected. An unlock is
  answered with the snapshot taken after it.
\<close>

definition capture_with_host :: "'d host_env \<Rightarrow> ('d, host_snapshot) command" where
  "capture_with_host v s =
     (case request_daemon_correlated v (hv_request v) ReqSystemSnapshot s of
        (r, s) \<Rightarrow>
          (case r of
             Inr (RespSystemSnapshot snapshot) \<Rightarrow>
               (Inr (host_snapshot_of v
                  \<lparr>dsn_status = Connected, dsn_detail = daemon_detail snapshot,
                   dsn_storage_status = daemon_storage_status_of (sy_storage snapshot),
                   dsn_storage_schema_version = sy_storage_schema_version snapshot\<rparr>), s)
           | _ \<Rightarrow> (Inr (offline v), s)))"

definition ui_system_snapshot :: "'d host_env \<Rightarrow> ('d, host_snapshot) command" where
  "ui_system_snapshot v = (if hv_paths v then capture_with_host v else answer (offline v))"

definition ui_storage_unlock :: "'d host_env \<Rightarrow> string \<Rightarrow> ('d, host_snapshot) command" where
  "ui_storage_unlock v passphrase =
     io_bind (ask v (ReqStorageUnlock passphrase)) (\<lambda>y.
     (case y of RespStorageUnlocked \<Rightarrow> capture_with_host v | _ \<Rightarrow> unexpected v))"

section \<open>External programs\<close>

text \<open>A file of the project is read by the daemon first, and the path it answers is opened.\<close>

definition launch_external :: "'d host_env \<Rightarrow> string \<Rightarrow> string \<Rightarrow> ('d, unit) command" where
  "launch_external v failure target =
     check_host (\<lambda>_. if hv_launches v target then Inr () else Inl (internal_error v failure))"

definition ui_project_file_open_external :: "'d host_env \<Rightarrow> string \<Rightarrow> string \<Rightarrow> ('d, unit) command" where
  "ui_project_file_open_external v project_value file_path =
     io_bind (authorize_project v project_value) (\<lambda>project.
     io_bind (ask v (ReqProjectFileRead project file_path)) (\<lambda>y.
     (case y of
        RespProjectTextFile opened \<Rightarrow> launch_external v ''The external editor could not be launched.'' (ptf_path opened)
      | _ \<Rightarrow> unexpected v)))"

text \<open>A link is opened only when the user approves.\<close>

definition ui_terminal_link_open :: "'d host_env \<Rightarrow> (string \<Rightarrow> parsed_url option) \<Rightarrow> bool \<Rightarrow> string \<Rightarrow> ('d, bool) command" where
  "ui_terminal_link_open v parse approved value =
     io_bind (check_host (\<lambda>_. validate_terminal_link v parse value)) (\<lambda>url.
     if \<not> approved then answer False
     else io_bind (launch_external v ''The external browser could not be launched.'' (url_text url)) (\<lambda>_. answer True))"

end
