(* ===== verification/Desktop_Grants.thy ===== *)
theory Desktop_Grants
  imports Desktop_Commands
begin

text \<open>
  What the grants of the desktop host guarantee: every request that a command sends names only what its
  window holds grants for, and the grants stay consistent. The last section shows three situations that
  the code does not handle.
\<close>

section \<open>What a request names\<close>

text \<open>Registrations and favorites name a stored project by its own identity and need no grant.\<close>

definition request_project :: "request \<Rightarrow> project_id option" where
  "request_project q =
     (case q of
        ReqProjectWindowLayoutLoad p _ \<Rightarrow> Some p | ReqProjectWindowLayoutSave p _ _ \<Rightarrow> Some p
      | ReqFakeSessionStart p _ _ _ _ \<Rightarrow> Some p | ReqFakeSessionResume _ p _ _ _ \<Rightarrow> Some p | ReqFakeTuiStart p _ _ _ \<Rightarrow> Some p
      | ReqSessionTerminalAttach _ p \<Rightarrow> Some p | ReqSessionStructuredAttach _ p \<Rightarrow> Some p | ReqSessionList p _ \<Rightarrow> Some p
      | ReqProjectDirectoryList p _ _ _ _ \<Rightarrow> Some p | ReqProjectFileRead p _ \<Rightarrow> Some p | ReqProjectFileSave p _ _ _ \<Rightarrow> Some p
      | ReqProjectSearch p _ _ \<Rightarrow> Some p | ReqProjectGitStatus p _ \<Rightarrow> Some p | ReqProjectGitBranch p _ \<Rightarrow> Some p
      | ReqProjectGitDiff p _ _ _ \<Rightarrow> Some p | ReqProjectGitWorktrees p _ \<Rightarrow> Some p | ReqTerminalOpen p _ _ _ \<Rightarrow> Some p
      | ReqTerminalList p _ \<Rightarrow> Some p | ReqTerminalAttach p _ \<Rightarrow> Some p
      | _ \<Rightarrow> None)"

definition request_session :: "request \<Rightarrow> session_id option" where
  "request_session q =
     (case q of
        ReqFakeSessionResume s _ _ _ _ \<Rightarrow> Some s | ReqSessionTerminalAttach s _ \<Rightarrow> Some s | ReqSessionStructuredAttach s _ \<Rightarrow> Some s
      | ReqSessionSnapshot s \<Rightarrow> Some s | ReqSessionEventsRead s _ _ _ \<Rightarrow> Some s | ReqSessionRawRead s _ _ _ \<Rightarrow> Some s
      | ReqSessionPermissionRespond s _ _ _ \<Rightarrow> Some s | ReqSessionUserInputRespond s _ _ _ \<Rightarrow> Some s
      | ReqSessionGuiAction s _ _ _ \<Rightarrow> Some s | ReqSubscribeSession s _ \<Rightarrow> Some s | ReqUnsubscribeSession s \<Rightarrow> Some s
      | ReqStopSession s \<Rightarrow> Some s
      | _ \<Rightarrow> None)"

definition request_terminal :: "request \<Rightarrow> terminal_id option" where
  "request_terminal q =
     (case q of
        ReqTerminalAttach _ t \<Rightarrow> Some t | ReqTerminalWrite t _ \<Rightarrow> Some t | ReqTerminalResize t _ _ \<Rightarrow> Some t
      | ReqTerminalRead t _ _ _ \<Rightarrow> Some t | ReqTerminalState t \<Rightarrow> Some t | ReqTerminalClose t \<Rightarrow> Some t
      | _ \<Rightarrow> None)"

definition confined :: "desktop_host \<Rightarrow> string \<Rightarrow> request \<Rightarrow> bool" where
  "confined h window q \<longleftrightarrow>
     (\<forall>p. request_project q = Some p \<longrightarrow>
        (\<exists>i g. hs_projects h i = Some g \<and> pgr_window_label g = window \<and> pgr_persisted_project_id g = p)) \<and>
     (\<forall>s. request_session q = Some s \<longrightarrow> (\<exists>g. hs_sessions h s = Some g \<and> sgr_window_label g = window)) \<and>
     (\<forall>t. request_terminal q = Some t \<longrightarrow>
        (\<exists>i g. hs_terminals h i = Some g \<and> tgr_window_label g = window \<and> tgr_persisted_terminal_id g = t))"

lemmas names = request_project_def request_session_def request_terminal_def

section \<open>Commands and window events as steps\<close>

inductive command_step :: "'d host_env \<Rightarrow> desktop_host \<times> 'd \<Rightarrow> desktop_host \<times> 'd \<Rightarrow> bool" for v s where
  "command_step v s (snd (ui_fake_session_start v a b c n raw s))"
| "command_step v s (snd (ui_fake_tui_start v a b columns rows s))"
| "command_step v s (snd (ui_fake_tui_attach v a s))"
| "command_step v s (snd (ui_fake_session_attach v a b s))"
| "command_step v s (snd (ui_session_list v a n s))"
| "command_step v s (snd (ui_fake_session_resume v a b e c raw s))"
| "command_step v s (snd (ui_session_snapshot v a s))"
| "command_step v s (snd (ui_session_events_read v a sequence s))"
| "command_step v s (snd (ui_session_raw_read v a b position nb s))"
| "command_step v s (snd (ui_session_subscribe v a sequence s))"
| "command_step v s (snd (ui_session_unsubscribe v a s))"
| "command_step v s (snd (ui_session_stop v a s))"
| "command_step v s (snd (ui_session_permission_respond v a b e decision s))"
| "command_step v s (snd (ui_session_user_input_respond v a b e t s))"
| "command_step v s (snd (ui_session_gui_action v a b e t s))"
| "command_step v s (snd (ui_terminal_open v a columns rows s))"
| "command_step v s (snd (ui_terminal_list v draws a n s))"
| "command_step v s (snd (ui_terminal_attach v a b s))"
| "command_step v s (snd (ui_terminal_write v a bs s))"
| "command_step v s (snd (ui_terminal_resize v a columns rows s))"
| "command_step v s (snd (ui_terminal_read v a sequence nb s))"
| "command_step v s (snd (ui_terminal_state v a s))"
| "command_step v s (snd (ui_terminal_close v a s))"
| "command_step v s (snd (ui_project_window_layout_load v a b s))"
| "command_step v s (snd (ui_project_window_layout_save v a b t s))"
| "command_step v s (snd (ui_project_directory_list v a b sequence n hidden s))"
| "command_step v s (snd (ui_project_file_read v a b s))"
| "command_step v s (snd (ui_project_file_save v a b t bs s))"
| "command_step v s (snd (ui_project_search v a b options s))"
| "command_step v s (snd (ui_project_search_cancel v a b s))"
| "command_step v s (snd (ui_project_git_status v a b s))"
| "command_step v s (snd (ui_project_git_branch v a b s))"
| "command_step v s (snd (ui_project_git_diff v a b scope n s))"
| "command_step v s (snd (ui_project_git_worktrees v a b s))"
| "command_step v s (snd (ui_project_recent_list v n s))"
| "command_step v s (snd (ui_project_set_favorite v a favorite s))"
| "command_step v s (snd (ui_open_recent_project v a s))"
| "command_step v s (snd (ui_open_project_folder v drawn selected s))"
| "command_step v s (snd (ui_shortcut_settings_load v s))"
| "command_step v s (snd (ui_shortcut_settings_save v bindings s))"
| "command_step v s (snd (ui_background_stop_all v s))"
| "command_step v s (snd (ui_storage_unlock v t s))"
| "command_step v s (snd (ui_system_snapshot v s))"
| "command_step v s (snd (ui_project_file_open_external v a b s))"
| "command_step v s (snd (ui_terminal_link_open v parse approved t s))"

section \<open>Requests are confined to the grants\<close>

text \<open>Behind the connection stands a list of the requests so far.\<close>

definition recording :: "request list host_env \<Rightarrow> bool" where
  "recording v \<longleftrightarrow> (\<forall>i q sent. snd (hv_daemon v i q sent) = sent @ [q])"

definition sends_at :: "(request \<Rightarrow> bool) \<Rightarrow> desktop_host \<Rightarrow> (request list, 'a) command \<Rightarrow> bool" where
  "sends_at P h m \<longleftrightarrow> (\<forall>sent. \<exists>new. snd (snd (m (h, sent))) = sent @ new \<and> list_all P new)"

definition silent :: "(request list, 'a) command \<Rightarrow> bool" where
  "silent m \<longleftrightarrow> (\<forall>s. snd (snd (m s)) = snd s)"

named_theorems sending \<open>what a command sends\<close>

lemma silent_sends [sending]: "silent m \<Longrightarrow> sends_at P h m"
  by (simp add: silent_def sends_at_def)

lemma silent_parts [sending]:
  "silent (answer x)" "silent (unexpected v)" "silent (updating f)" "silent (on_host g)" "silent (check_host c)" "silent (io_return r)"
  "silent (launch_external v a b)"
  by (simp_all add: silent_def answer_def unexpected_def io_return_def updating_def on_host_def check_host_def launch_external_def
      split: prod.split)

lemma silent_bind [sending]: "silent m \<Longrightarrow> (\<And>x. silent (f x)) \<Longrightarrow> silent (io_bind m f)"
  by (auto simp: silent_def io_bind_def split: prod.split sum.split) (metis snd_conv)+

lemma silent_if [sending]: "silent a \<Longrightarrow> silent b \<Longrightarrow> silent (if c then a else b)"
  by simp

lemma sends_if [sending]: "sends_at P h a \<Longrightarrow> sends_at P h b \<Longrightarrow> sends_at P h (if c then a else b)"
  by simp

lemma sends_check [sending]: "(\<And>x. f h = Inr x \<Longrightarrow> sends_at P h (k x)) \<Longrightarrow> sends_at P h (io_bind (check_host f) k)"
  by (cases "f h") (simp_all add: sends_at_def io_bind_def check_host_def)

lemma sends_bind [sending]:
  assumes "sends_at P h m" "\<And>x h'. sends_at P h' (f x)"
  shows "sends_at P h (io_bind m f)"
  unfolding sends_at_def
proof
  fix sent
  obtain new where new: "snd (snd (m (h, sent))) = sent @ new" "list_all P new" using assms(1) by (auto simp: sends_at_def)
  obtain r h1 d where m: "m (h, sent) = (r, (h1, d))" by (metis surj_pair)
  show "\<exists>new. snd (snd (io_bind m f (h, sent))) = sent @ new \<and> list_all P new"
  proof (cases r)
    case (Inl e)
    then show ?thesis using m new by (auto simp: io_bind_def)
  next
    case (Inr x)
    obtain more where "snd (snd (f x (h1, d))) = d @ more" "list_all P more" using assms(2) [of h1 x] by (auto simp: sends_at_def)
    then show ?thesis using m new Inr by (auto simp: io_bind_def)
  qed
qed

lemma sends_request:
  assumes "recording v" "P q"
  shows "sends_at P h (request_daemon_correlated v i q)" "sends_at P h (ask v q)"
proof -
  show request: "sends_at P h (request_daemon_correlated v i q)" for i h
    unfolding sends_at_def
  proof
    fix sent
    obtain c h1 where c: "daemon_client v h = (c, h1)" by fastforce
    obtain r d where d: "hv_daemon v i q sent = (r, d)" by fastforce
    have "d = sent @ [q]" using assms(1) d by (metis recording_def snd_conv)
    then have "snd (snd (request_daemon_correlated v i q (h, sent))) \<in> {sent, sent @ [q]}"
      using c d by (auto simp: request_daemon_correlated_def split: sum.split ipc_failure.split)
    then show "\<exists>new. snd (snd (request_daemon_correlated v i q (h, sent))) = sent @ new \<and> list_all P new"
      using assms(2) by (auto intro: exI [of _ "[]"] exI [of _ "[q]"])
  qed
  show "sends_at P h (ask v q)" unfolding ask_def by (intro sends_check request)
qed

lemma sends_pair [sending]: "(\<And>a b. x = (a, b) \<Longrightarrow> sends_at P h (f a b)) \<Longrightarrow> sends_at P h (case x of (a, b) \<Rightarrow> f a b)"
  by (cases x) simp

text \<open>A check, one request and a silent rest: the request needs what the check established.\<close>

lemma sends_asked:
  assumes "recording v" "P q" "\<And>y. silent (k y)"
  shows "sends_at P h (io_bind (ask v q) k)"
  using assms by (intro sends_bind sends_request silent_sends)

lemma granted_project_confines:
  "sends_at P h (io_bind (granted_project v a) f)"
  if "\<And>i g. hs_projects h i = Some g \<Longrightarrow> pgr_window_label g = hv_window v \<Longrightarrow> sends_at P h (f (i, g))"
  unfolding granted_project_def
  by (rule sends_check) (use that in \<open>auto simp: and_then_Inr_iff resolve_project_def split: option.splits if_splits\<close>)

lemma authorize_project_confines:
  "sends_at P h (io_bind (authorize_project v a) f)"
  if "\<And>i g. hs_projects h i = Some g \<Longrightarrow> pgr_window_label g = hv_window v \<Longrightarrow> sends_at P h (f (pgr_persisted_project_id g))"
  unfolding authorize_project_def
  by (rule sends_check) (use that in \<open>auto simp: and_then_Inr_iff resolve_project_def split: option.splits if_splits\<close>)

lemma resolve_project_confines:
  "sends_at P h (io_bind (check_host (resolve_project v i)) f)"
  if "\<And>g. hs_projects h i = Some g \<Longrightarrow> pgr_window_label g = hv_window v \<Longrightarrow> sends_at P h (f g)"
  by (rule sends_check) (use that in \<open>auto simp: resolve_project_def split: option.splits if_splits\<close>)

lemma granted_session_confines:
  "sends_at P h (io_bind (granted_session v a) f)"
  if "\<And>s g. hs_sessions h s = Some g \<Longrightarrow> sgr_window_label g = hv_window v \<Longrightarrow> sends_at P h (f (s, g))"
  unfolding granted_session_def
  by (rule sends_check) (use that in \<open>auto simp: and_then_Inr_iff authorize_session_grant_def split: option.splits if_splits\<close>)

lemma authorize_session_confines:
  "sends_at P h (io_bind (authorize_session v a) f)"
  if "\<And>s g. hs_sessions h s = Some g \<Longrightarrow> sgr_window_label g = hv_window v \<Longrightarrow> sends_at P h (f s)"
  unfolding authorize_session_def
  by (rule sends_check) (use that in \<open>auto simp: and_then_Inr_iff authorize_session_grant_def split: option.splits if_splits\<close>)

lemma authorize_terminal_confines:
  "sends_at P h (io_bind (authorize_terminal v a) f)"
  if "\<And>i g. hs_terminals h i = Some g \<Longrightarrow> tgr_window_label g = hv_window v \<Longrightarrow> sends_at P h (f (i, tgr_persisted_terminal_id g))"
  unfolding authorize_terminal_def
  by (rule sends_check) (use that in \<open>auto simp: and_then_Inr_iff authorize_terminal_grant_def split: option.splits if_splits\<close>)

lemma terminal_grant_confines:
  "sends_at P h (io_bind (check_host (authorize_terminal_grant v i)) f)"
  if "\<And>g. hs_terminals h i = Some g \<Longrightarrow> tgr_window_label g = hv_window v \<Longrightarrow> sends_at P h (f g)"
  by (rule sends_check) (use that in \<open>auto simp: authorize_terminal_grant_def split: option.splits if_splits\<close>)

lemma silent_grant_sessions [sending]: "silent (grant_sessions v p grant es)"
proof (induction es)
  case (Cons e es)
  have "silent (io_bind (updating (register_session v (si_session_id e) grant)) (\<lambda>_. grant_sessions v p grant es))"
    by (intro sending Cons.IH)
  then show ?case by (simp add: silent_def unexpected_def io_return_def)
qed (simp add: silent_def)

lemma silent_grant_terminals [sending]: "silent (grant_terminals v draws p grant es)"
proof (induction es arbitrary: draws)
  case (Cons e es)
  have "silent (io_bind (grant_terminal_index_entry (v\<lparr>hv_draws := draws 0\<rparr>) e grant) (\<lambda>x.
      io_bind (grant_terminals v (\<lambda>n. draws (Suc n)) p grant es) (\<lambda>xs. answer (x # xs))))"
    unfolding grant_terminal_index_entry_def by (intro sending Cons.IH)
  then show ?case by (simp add: silent_def unexpected_def io_return_def)
qed (simp add: silent_def)

lemma project_commands_confined:
  assumes "recording v"
  shows "sends_at (confined h (hv_window v)) h (ui_fake_session_start v a b c n raw)"
    "sends_at (confined h (hv_window v)) h (ui_fake_tui_start v a b columns rows)"
    "sends_at (confined h (hv_window v)) h (ui_session_list v a m)"
    "sends_at (confined h (hv_window v)) h (ui_terminal_open v a columns rows)"
    "sends_at (confined h (hv_window v)) h (ui_terminal_list v draws a m)"
  unfolding ui_fake_session_start_def ui_fake_tui_start_def ui_session_list_def ui_terminal_open_def ui_terminal_list_def
  by (rule granted_project_confines, simp only: prod.case, rule sends_asked [OF assms],
      force simp: confined_def names, case_tac y; simp only: response.case; intro sending)+

lemma project_queries_confined:
  assumes "recording v"
  shows "sends_at (confined h (hv_window v)) h (ui_project_window_layout_load v a b)"
    "sends_at (confined h (hv_window v)) h (ui_project_window_layout_save v a b t)"
    "sends_at (confined h (hv_window v)) h (ui_project_directory_list v a b sequence n hidden)"
    "sends_at (confined h (hv_window v)) h (ui_project_file_read v a b)"
    "sends_at (confined h (hv_window v)) h (ui_project_file_save v a b t bs)"
    "sends_at (confined h (hv_window v)) h (ui_project_search v a b options)"
    "sends_at (confined h (hv_window v)) h (ui_project_search_cancel v a b)"
    "sends_at (confined h (hv_window v)) h (ui_project_git_status v a b)"
    "sends_at (confined h (hv_window v)) h (ui_project_git_branch v a b)"
    "sends_at (confined h (hv_window v)) h (ui_project_git_diff v a b scope n)"
    "sends_at (confined h (hv_window v)) h (ui_project_git_worktrees v a b)"
    "sends_at (confined h (hv_window v)) h (ui_project_file_open_external v a b)"
  unfolding ui_project_window_layout_load_def ui_project_window_layout_save_def ui_project_directory_list_def
    ui_project_file_read_def ui_project_file_save_def ui_project_search_def ui_project_search_cancel_def ui_project_git_status_def
    ui_project_git_branch_def ui_project_git_diff_def ui_project_git_worktrees_def
    ui_project_file_open_external_def
  by (rule authorize_project_confines, (rule sends_check)?, (rule sends_check)?, rule sends_asked [OF assms],
      force simp: confined_def names, case_tac y; simp only: response.case; intro sending)+

lemma session_commands_confined:
  assumes "recording v"
  shows "sends_at (confined h (hv_window v)) h (ui_session_snapshot v a)"
    "sends_at (confined h (hv_window v)) h (ui_session_events_read v a sequence)"
    "sends_at (confined h (hv_window v)) h (ui_session_raw_read v a b position nb)"
    "sends_at (confined h (hv_window v)) h (ui_session_subscribe v a sequence)"
    "sends_at (confined h (hv_window v)) h (ui_session_unsubscribe v a)"
    "sends_at (confined h (hv_window v)) h (ui_session_stop v a)"
    "sends_at (confined h (hv_window v)) h (ui_session_permission_respond v a b e decision)"
    "sends_at (confined h (hv_window v)) h (ui_session_user_input_respond v a b e t)"
    "sends_at (confined h (hv_window v)) h (ui_session_gui_action v a b e t)"
  unfolding ui_session_snapshot_def ui_session_events_read_def ui_session_raw_read_def ui_session_subscribe_def
    ui_session_unsubscribe_def ui_session_stop_def ui_session_permission_respond_def ui_session_user_input_respond_def
    ui_session_gui_action_def
  by (rule authorize_session_confines, (rule sends_check)?, rule sends_asked [OF assms],
      force simp: confined_def names, case_tac y; simp only: response.case; intro sending)+

lemma terminal_commands_confined:
  assumes "recording v"
  shows "sends_at (confined h (hv_window v)) h (ui_terminal_write v a bs)"
    "sends_at (confined h (hv_window v)) h (ui_terminal_resize v a columns rows)"
    "sends_at (confined h (hv_window v)) h (ui_terminal_read v a sequence nb)"
    "sends_at (confined h (hv_window v)) h (ui_terminal_state v a)"
    "sends_at (confined h (hv_window v)) h (ui_terminal_close v a)"
  unfolding ui_terminal_write_def ui_terminal_resize_def ui_terminal_read_def ui_terminal_state_def ui_terminal_close_def
  by (rule authorize_terminal_confines, simp only: prod.case, rule sends_asked [OF assms],
      force simp: confined_def names, case_tac y; simp only: response.case; intro sending)+

lemma attach_commands_confined:
  assumes "recording v"
  shows "sends_at (confined h (hv_window v)) h (ui_fake_tui_attach v a)"
    "sends_at (confined h (hv_window v)) h (ui_fake_session_attach v a b)"
    "sends_at (confined h (hv_window v)) h (ui_fake_session_resume v a b e c raw)"
    "sends_at (confined h (hv_window v)) h (ui_terminal_attach v a b)"
  unfolding ui_fake_tui_attach_def ui_fake_session_attach_def ui_fake_session_resume_def ui_terminal_attach_def
  by ((rule granted_session_confines resolve_project_confines terminal_grant_confines sends_check, (simp only: prod.case)?)+,
      rule sends_asked [OF assms],
      force simp: confined_def names, case_tac y; simp only: response.case; intro sending)+

text \<open>Requests that name no grant are confined whatever the host holds.\<close>

lemma ungranted_confined:
  "confined h window (ReqProjectRecentList n)" "confined h window (ReqProjectSetFavorite p favorite)"
  "confined h window (ReqProjectRegister p name roots)" "confined h window (ReqSettingLoad a b c)"
  "confined h window (ReqSettingSave a b c t)" "confined h window ReqStopAllWork" "confined h window (ReqStorageUnlock t)"
  "confined h window ReqSystemSnapshot"
  by (simp_all add: confined_def names)

lemma registration_confined:
  assumes "recording v"
  shows "sends_at (confined h0 (hv_window v)) h (register_project_with_paths v p i name roots)"
proof -
  let ?P = "confined h0 (hv_window v)"
  have deadline: "sends_at ?P h (project_registration_with_deadline v i m)" if "sends_at ?P h m" for m h
    using that by (auto simp: sends_at_def project_registration_with_deadline_def split: prod.split) (metis snd_conv)
  show ?thesis unfolding register_project_with_paths_def
    by (rule sends_bind, rule deadline, rule sends_request(1) [OF assms], rule ungranted_confined)
      (case_tac x; simp only: response.case; intro sending)
qed

lemma open_commands_confined:
  assumes "recording v"
  shows "sends_at (confined h (hv_window v)) h (ui_project_recent_list v n)"
    "sends_at (confined h (hv_window v)) h (ui_project_set_favorite v a favorite)"
    "sends_at (confined h (hv_window v)) h (ui_open_recent_project v a)"
    "sends_at (confined h (hv_window v)) h (ui_open_project_folder v drawn selected)"
proof -
  let ?P = "confined h (hv_window v)"
  show "sends_at ?P h (ui_project_recent_list v n)" "sends_at ?P h (ui_project_set_favorite v a favorite)"
    unfolding ui_project_recent_list_def ui_project_set_favorite_def
    by (rule sends_check, rule sends_asked [OF assms], rule ungranted_confined, case_tac y; simp only: response.case; intro sending)+
  have recent: "sends_at ?P h' (open_recent_project_with_paths v p)" for p h'
    unfolding open_recent_project_with_paths_def
    by (rule sends_bind, rule sends_request(1) [OF assms], rule ungranted_confined)
      (case_tac x; simp only: response.case; intro sending registration_confined [OF assms])
  show "sends_at ?P h (ui_open_recent_project v a)" unfolding ui_open_recent_project_def by (intro sends_check recent)
  have registers: "sends_at ?P h' (register_new_project_with_paths v drawn name roots)" for h' name roots
    unfolding sends_at_def
  proof
    fix sent
    obtain p h1 where p: "begin_project_registration roots drawn h' = (p, h1)" by fastforce
    obtain new where "snd (snd (register_project_with_paths v p (hv_request v) name roots (h1, sent))) = sent @ new" "list_all ?P new"
      using registration_confined [OF assms, of h h1 p "hv_request v" name roots] unfolding sends_at_def by blast
    then show "\<exists>new. snd (snd (register_new_project_with_paths v drawn name roots (h', sent))) = sent @ new \<and> list_all ?P new"
      using p by (auto simp: register_new_project_with_paths_def split: prod.split)
  qed
  show "sends_at ?P h (ui_open_project_folder v drawn selected)"
    unfolding ui_open_project_folder_def
    by (cases selected) (simp_all only: option.case, intro sending, intro sends_check sends_pair sends_bind registers sending)
qed

lemma capture_confined:
  assumes "recording v"
  shows "sends_at (confined h0 (hv_window v)) h (capture_with_host v)"
proof -
  have "snd (capture_with_host v s) = snd (request_daemon_correlated v (hv_request v) ReqSystemSnapshot s)" for s
    by (simp add: capture_with_host_def split_beta split: sum.split response.split)
  moreover have "sends_at (confined h0 (hv_window v)) h (request_daemon_correlated v (hv_request v) ReqSystemSnapshot)"
    by (intro sends_request(1) assms ungranted_confined)
  ultimately show ?thesis by (simp add: sends_at_def)
qed

lemma other_commands_confined:
  assumes "recording v"
  shows "sends_at (confined h (hv_window v)) h (ui_shortcut_settings_load v)"
    "sends_at (confined h (hv_window v)) h (ui_shortcut_settings_save v bindings)"
    "sends_at (confined h (hv_window v)) h (ui_background_stop_all v)"
    "sends_at (confined h (hv_window v)) h (ui_storage_unlock v t)"
    "sends_at (confined h (hv_window v)) h (ui_system_snapshot v)"
    "sends_at (confined h (hv_window v)) h (ui_terminal_link_open v parse approved t)"
proof -
  let ?P = "confined h (hv_window v)"
  show "sends_at ?P h (ui_system_snapshot v)" "sends_at ?P h (ui_terminal_link_open v parse approved t)"
    unfolding ui_system_snapshot_def ui_terminal_link_open_def by (intro capture_confined [OF assms] sending)+
  show "sends_at ?P h (ui_storage_unlock v t)" unfolding ui_storage_unlock_def ask_def
    by (intro sends_check sends_bind sends_request(1) [OF assms] ungranted_confined)
      (case_tac x; simp only: response.case; intro capture_confined [OF assms] sending)
  show "sends_at ?P h (ui_shortcut_settings_load v)" "sends_at ?P h (ui_background_stop_all v)"
    unfolding ui_shortcut_settings_load_def ui_background_stop_all_def
    by (rule sends_asked [OF assms], rule ungranted_confined, case_tac y; auto intro!: sending split: option.split)+
  show "sends_at ?P h (ui_shortcut_settings_save v bindings)"
    unfolding ui_shortcut_settings_save_def
    by (rule sends_check, rule sends_check, rule sends_bind, rule sends_request(1) [OF assms], rule ungranted_confined)
      (case_tac xb; simp only: response.case; intro sending)
qed


section \<open>The grants stay consistent\<close>

text \<open>
  A window has at most one project, and every grant of a terminal or a session hangs on the project that
  its window has now.
\<close>

definition grants_ok :: "desktop_host \<Rightarrow> bool" where
  "grants_ok h \<longleftrightarrow>
     (\<forall>i j g g'. hs_projects h i = Some g \<longrightarrow> hs_projects h j = Some g' \<longrightarrow> pgr_window_label g = pgr_window_label g' \<longrightarrow> i = j) \<and>
     (\<forall>t g. hs_terminals h t = Some g \<longrightarrow>
        (\<exists>p. hs_projects h (tgr_project_grant g) = Some p \<and> pgr_window_label p = tgr_window_label g)) \<and>
     (\<forall>s g. hs_sessions h s = Some g \<longrightarrow>
        (\<exists>p. hs_projects h (sgr_project_grant g) = Some p \<and> pgr_window_label p = sgr_window_label g))"

text \<open>The same, and the window holds this project grant.\<close>

definition holds_project :: "string \<Rightarrow> project_id \<Rightarrow> desktop_host \<Rightarrow> bool" where
  "holds_project window i h \<longleftrightarrow> grants_ok h \<and> (\<exists>g. hs_projects h i = Some g \<and> pgr_window_label g = window)"

text \<open>
  What the others do while a command waits: they keep the grants consistent and leave the project of this
  window alone.
\<close>

definition steady :: "'d host_env \<Rightarrow> bool" where
  "steady v \<longleftrightarrow> (\<forall>h. grants_ok h \<longrightarrow> grants_ok (hv_meanwhile v h) \<and>
     (\<forall>i g. hs_projects h i = Some g \<longrightarrow> pgr_window_label g = hv_window v \<longrightarrow> hs_projects (hv_meanwhile v h) i = Some g))"

definition keeps :: "(desktop_host \<Rightarrow> bool) \<Rightarrow> ('d, 'a) command \<Rightarrow> bool" where
  "keeps I m \<longleftrightarrow> (\<forall>s. I (fst s) \<longrightarrow> I (fst (snd (m s))))"

named_theorems keeping \<open>commands that keep the grants consistent\<close>

lemma retain_Some: "retain P m i = Some g \<longleftrightarrow> m i = Some g \<and> P g"
  by (auto simp: retain_def split: option.split)

lemma retain_None: "retain P m i = None \<longleftrightarrow> (\<forall>g. m i = Some g \<longrightarrow> \<not> P g)"
  by (auto simp: retain_def split: option.split)

lemma grants_ok_frame:
  "grants_ok h \<Longrightarrow> grants_ok (h\<lparr>hs_registrations := r\<rparr>)" "grants_ok h \<Longrightarrow> grants_ok (h\<lparr>hs_daemon := c\<rparr>)"
  "holds_project w i h \<Longrightarrow> holds_project w i (h\<lparr>hs_registrations := r\<rparr>)" "holds_project w i h \<Longrightarrow> holds_project w i (h\<lparr>hs_daemon := c\<rparr>)"
  by (simp_all add: grants_ok_def holds_project_def)

lemma grants_ok_fewer:
  assumes "grants_ok h" "hs_projects h' = hs_projects h"
    and "\<And>t g. hs_terminals h' t = Some g \<Longrightarrow> hs_terminals h t = Some g \<or> (\<exists>p. hs_projects h (tgr_project_grant g) = Some p \<and> pgr_window_label p = tgr_window_label g)"
    and "\<And>s g. hs_sessions h' s = Some g \<Longrightarrow> hs_sessions h s = Some g \<or> (\<exists>p. hs_projects h (sgr_project_grant g) = Some p \<and> pgr_window_label p = sgr_window_label g)"
  shows "grants_ok h'"
  using assms unfolding grants_ok_def by metis

lemma drop_ok:
  assumes "grants_ok h"
  shows "grants_ok (unregister_terminal t h)" "grants_ok (unregister_terminal_process t h)" "grants_ok (drop_session_grant session h)"
  by (rule grants_ok_fewer [OF assms]; auto simp: unregister_terminal_def unregister_terminal_process_def drop_session_grant_def
      unregister_session_def retain_Some split: if_splits option.splits)+

lemma drop_projects [simp]:
  "hs_projects (unregister_terminal t h) = hs_projects h" "hs_projects (unregister_terminal_process t h) = hs_projects h"
  "hs_projects (drop_session_grant session h) = hs_projects h"
  by (simp_all add: unregister_terminal_def unregister_terminal_process_def drop_session_grant_def unregister_session_def split: option.split)

lemma drop_keeps [keeping]:
  "keeps grants_ok (updating (unregister_terminal_process t))" "keeps grants_ok (updating (drop_session_grant session))"
  "keeps (holds_project w i) (updating (unregister_terminal_process t))" "keeps (holds_project w i) (updating (drop_session_grant session))"
  using drop_ok by (auto simp: keeps_def updating_def holds_project_def)

lemma register_session_ok:
  assumes "holds_project (hv_window v) i h"
  shows "holds_project (hv_window v) i (register_session v session i h)"
proof -
  have "grants_ok (register_session v session i h)"
    by (rule grants_ok_fewer [of h]) (use assms in \<open>auto simp: holds_project_def register_session_def Let_def split: if_splits\<close>)
  then show ?thesis using assms by (simp add: holds_project_def register_session_def Let_def)
qed

lemma register_terminal_ok:
  assumes "holds_project (hv_window v) i h"
  shows "holds_project (hv_window v) i (snd (register_terminal v t i discovery h))"
proof -
  have "grants_ok (snd (register_terminal v t i discovery h))"
    by (rule grants_ok_fewer [of h]) (use assms in \<open>auto simp: holds_project_def register_terminal_def Let_def retain_Some split: if_splits option.splits\<close>)
  then show ?thesis using assms by (auto simp: holds_project_def register_terminal_def Let_def split: option.split)
qed

lemma register_tui_ok:
  assumes "holds_project (hv_window v) i h"
  shows "holds_project (hv_window v) i (snd (register_tui_session v session t i h))"
proof -
  obtain r h1 where h1: "register_terminal v t i False h = (r, h1)" by fastforce
  have p: "holds_project (hv_window v) i h1" using register_terminal_ok [OF assms, of t False] h1 by simp
  let ?h2 = "\<lambda>x. h1\<lparr>hs_sessions := (hs_sessions h1)(session \<mapsto>
      \<lparr>sgr_project_grant = i, sgr_terminal_id = Some x, sgr_window_label = hv_window v\<rparr>)\<rparr>"
  have "grants_ok (?h2 x)" for x
    by (rule grants_ok_fewer [of h1]) (use p in \<open>auto simp: holds_project_def split: if_splits\<close>)
  then have "holds_project (hv_window v) i (?h2 x)" "holds_project (hv_window v) i (unregister_terminal u (?h2 x))" for x u
    using p drop_ok(1) by (simp_all add: holds_project_def)
  then show ?thesis using h1 p by (cases r) (simp_all add: register_tui_session_def Let_def split: option.split)
qed

lemma registers_keep [keeping]:
  "keeps (holds_project (hv_window v) i) (updating (register_session v session i))"
  "keeps (holds_project (hv_window v) i) (on_host (register_terminal v t i discovery))"
  "keeps (holds_project (hv_window v) i) (on_host (register_tui_session v session t i))"
  by (simp_all add: keeps_def updating_def on_host_def register_session_ok register_terminal_ok register_tui_ok split_beta)

lemma keeps_parts [keeping]:
  "keeps I (answer x)" "keeps I (unexpected v)" "keeps I (check_host f)" "keeps I (io_return r)"
  by (simp_all add: keeps_def answer_def unexpected_def check_host_def io_return_def)

lemma keeps_if [keeping]: "keeps I a \<Longrightarrow> keeps I b \<Longrightarrow> keeps I (if c then a else b)"
  by simp

lemma keeps_pair [keeping]: "(\<And>a b. keeps I (f a b)) \<Longrightarrow> keeps I (case x of (a, b) \<Rightarrow> f a b)"
  by (cases x) simp

lemma keeps_bind [keeping]:
  fixes m :: "('d, 'a) command"
  assumes "keeps I m" "\<And>x. keeps I (f x)"
  shows "keeps I (io_bind m f)"
  unfolding keeps_def
proof (intro allI impI)
  fix s :: "desktop_host \<times> 'd" assume s: "I (fst s)"
  obtain r s1 where m: "m s = (r, s1)" by (metis surj_pair)
  have "I (fst s1)" using assms(1) s m unfolding keeps_def by (metis snd_conv)
  then have "I (fst (snd (f x s1)))" for x using assms(2) unfolding keeps_def by blast
  then show "I (fst (snd (io_bind m f s)))" using m \<open>I (fst s1)\<close> by (cases r) (simp_all add: io_bind_def)
qed

lemma correlated_keeps:
  assumes "\<And>h. I h \<Longrightarrow> I (hv_meanwhile v h)" "\<And>h c. I h \<Longrightarrow> I (h\<lparr>hs_daemon := c\<rparr>)"
  shows "keeps I (request_daemon_correlated v i q)"
  unfolding keeps_def
proof (intro allI impI)
  fix s :: "desktop_host \<times> 'a" assume s: "I (fst s)"
  obtain c h1 where c: "daemon_client v (fst s) = (c, h1)" by fastforce
  have h1: "I h1"
    using s c assms(2) by (cases "hs_daemon (fst s)"; cases "hv_connect v") (auto simp: daemon_client_def split: ipc_failure.splits)
  then have later: "I (hv_meanwhile v h1)" by (rule assms(1))
  then have "I (invalidate_daemon_client n (hv_meanwhile v h1))" for n
    using assms(2) by (simp add: invalidate_daemon_client_def)
  with later h1 c show "I (fst (snd (request_daemon_correlated v i q s)))"
    by (cases c; cases "fst (hv_daemon v i q (snd s))")
      (simp_all add: request_daemon_correlated_def split_beta split: ipc_failure.split)
qed

lemma request_keeps:
  assumes "steady v"
  shows "keeps grants_ok (request_daemon_correlated v i q)" "keeps (holds_project (hv_window v) p) (request_daemon_correlated v i q)"
    "keeps grants_ok (ask v q)" "keeps (holds_project (hv_window v) p) (ask v q)"
proof -
  show g: "keeps grants_ok (request_daemon_correlated v i q)" for i
    by (rule correlated_keeps) (use assms grants_ok_frame in \<open>auto simp: steady_def\<close>)
  show p: "keeps (holds_project (hv_window v) p) (request_daemon_correlated v i q)" for i
    by (rule correlated_keeps) (use assms grants_ok_frame in \<open>auto simp: steady_def holds_project_def\<close>)
  show "keeps grants_ok (ask v q)" "keeps (holds_project (hv_window v) p) (ask v q)"
    unfolding ask_def by (intro keeping g p)+
qed

lemma resolve_keeps:
  fixes f :: "project_grant \<Rightarrow> ('d, 'a) command"
  assumes "\<And>g. keeps (holds_project (hv_window v) i) (f g)"
  shows "keeps grants_ok (io_bind (check_host (resolve_project v i)) f)"
  unfolding keeps_def
proof (intro allI impI)
  fix s :: "desktop_host \<times> 'd" assume s: "grants_ok (fst s)"
  show "grants_ok (fst (snd (io_bind (check_host (resolve_project v i)) f s)))"
  proof (cases "resolve_project v i (fst s)")
    case (Inl e)
    then show ?thesis using s by (simp add: io_bind_def check_host_def)
  next
    case (Inr g)
    then have "holds_project (hv_window v) i (fst s)"
      using s by (auto simp: resolve_project_def holds_project_def split: option.splits if_splits)
    then have "holds_project (hv_window v) i (fst (snd (f g s)))" using assms [of g] unfolding keeps_def by blast
    then show ?thesis using Inr by (simp add: io_bind_def check_host_def holds_project_def)
  qed
qed

lemma and_then_map: "map_err g (and_then r (\<lambda>x. Inr (k x))) = and_then (map_err g r) (\<lambda>x. Inr (k x))"
  by (cases r) simp_all

lemma granted_keeps:
  assumes "\<And>i g. keeps (holds_project (hv_window v) i) (f (i, g))"
  shows "keeps grants_ok (io_bind (granted_project v a) f)"
proof -
  have "io_bind (granted_project v a) f =
      io_bind (check_host (\<lambda>_. parse_project_id v a)) (\<lambda>i. io_bind (check_host (resolve_project v i)) (\<lambda>g. f (i, g)))"
    by (rule ext, cases "parse_project_id v a") (auto simp: granted_project_def io_bind_def check_host_def and_then_map split: sum.split)
  then show ?thesis by (simp only:) (intro keeping resolve_keeps assms)
qed

lemma grant_sessions_keep [keeping]: "keeps (holds_project (hv_window v) i) (grant_sessions v p i es)"
proof (induction es)
  case (Cons e es)
  have "keeps (holds_project (hv_window v) i)
      (io_bind (updating (register_session v (si_session_id e) i)) (\<lambda>_. grant_sessions v p i es))" by (intro keeping Cons.IH)
  then show ?case by (simp add: keeps_def unexpected_def io_return_def)
qed (simp add: keeps_def)

lemma grant_terminals_keep [keeping]: "keeps (holds_project (hv_window v) i) (grant_terminals v draws p i es)"
proof (induction es arbitrary: draws)
  case (Cons e es)
  have "hv_window v = hv_window (v\<lparr>hv_draws := ds\<rparr>)" for ds by simp
  then have one: "keeps (holds_project (hv_window v) i) (grant_terminal_index_entry (v\<lparr>hv_draws := ds\<rparr>) e i)" for ds
    unfolding grant_terminal_index_entry_def by (metis keeping)
  have "keeps (holds_project (hv_window v) i) (io_bind (grant_terminal_index_entry (v\<lparr>hv_draws := draws 0\<rparr>) e i) (\<lambda>x.
      io_bind (grant_terminals v (\<lambda>n. draws (Suc n)) p i es) (\<lambda>xs. answer (x # xs))))"
    by (intro keeping Cons.IH one)
  then show ?case by (simp add: keeps_def unexpected_def io_return_def)
qed (simp add: keeps_def)

lemma registering_commands_keep:
  assumes "steady v"
  shows "keeps grants_ok (ui_fake_session_start v a b c n raw)" "keeps grants_ok (ui_fake_tui_start v a b columns rows)"
    "keeps grants_ok (ui_session_list v a m)" "keeps grants_ok (ui_terminal_open v a columns rows)"
    "keeps grants_ok (ui_terminal_list v draws a m)"
  unfolding ui_fake_session_start_def ui_fake_tui_start_def ui_session_list_def ui_terminal_open_def ui_terminal_list_def
  by (rule granted_keeps, simp only: prod.case, rule keeps_bind, rule request_keeps [OF assms],
      case_tac x; simp only: response.case; intro keeping)+

lemma attaching_commands_keep:
  assumes "steady v"
  shows "keeps grants_ok (ui_fake_tui_attach v a)" "keeps grants_ok (ui_fake_session_attach v a b)"
    "keeps grants_ok (ui_fake_session_resume v a b e c raw)" "keeps grants_ok (ui_terminal_attach v a b)"
proof -
  note steps = resolve_keeps keeps_bind keeps_parts(3) keeps_pair and asked = request_keeps [OF assms]
  show "keeps grants_ok (ui_fake_tui_attach v a)" unfolding ui_fake_tui_attach_def granted_session_def
    by ((rule steps)+, rule asked, case_tac xa; simp only: response.case; intro keeping)
  show "keeps grants_ok (ui_fake_session_attach v a b)" "keeps grants_ok (ui_fake_session_resume v a b e c raw)"
    unfolding ui_fake_session_attach_def ui_fake_session_resume_def granted_session_def
    by ((rule steps)+, rule asked, case_tac xc; simp only: response.case; intro keeping)+
  show "keeps grants_ok (ui_terminal_attach v a b)" unfolding ui_terminal_attach_def
    by ((rule steps)+, rule asked, case_tac xd; simp only: response.case; intro keeping)
qed

text \<open>Commands that leave the grants alone, or only drop some.\<close>

lemma querying_commands_keep:
  assumes "steady v"
  shows "keeps grants_ok (ui_session_snapshot v a)" "keeps grants_ok (ui_session_events_read v a sequence)"
    "keeps grants_ok (ui_session_raw_read v a b position nb)" "keeps grants_ok (ui_session_subscribe v a sequence)"
    "keeps grants_ok (ui_session_unsubscribe v a)" "keeps grants_ok (ui_session_stop v a)"
    "keeps grants_ok (ui_session_permission_respond v a b e decision)" "keeps grants_ok (ui_session_user_input_respond v a b e t)"
    "keeps grants_ok (ui_session_gui_action v a b e t)" "keeps grants_ok (ui_terminal_write v a bs)"
    "keeps grants_ok (ui_terminal_resize v a columns rows)" "keeps grants_ok (ui_terminal_read v a sequence nb)"
    "keeps grants_ok (ui_terminal_state v a)" "keeps grants_ok (ui_terminal_close v a)"
    "keeps grants_ok (ui_project_window_layout_load v a b)" "keeps grants_ok (ui_project_window_layout_save v a b t)"
    "keeps grants_ok (ui_project_directory_list v a b sequence n hidden)" "keeps grants_ok (ui_project_file_read v a b)"
    "keeps grants_ok (ui_project_file_save v a b t bs)" "keeps grants_ok (ui_project_search v a b options)"
    "keeps grants_ok (ui_project_search_cancel v a b)" "keeps grants_ok (ui_project_git_status v a b)"
    "keeps grants_ok (ui_project_git_branch v a b)" "keeps grants_ok (ui_project_git_diff v a b scope n)"
    "keeps grants_ok (ui_project_git_worktrees v a b)" "keeps grants_ok (ui_project_file_open_external v a b)"
  unfolding ui_session_snapshot_def ui_session_events_read_def ui_session_raw_read_def ui_session_subscribe_def
    ui_session_unsubscribe_def ui_session_stop_def ui_session_permission_respond_def ui_session_user_input_respond_def
    ui_session_gui_action_def ui_terminal_write_def ui_terminal_resize_def ui_terminal_read_def ui_terminal_state_def
    ui_terminal_close_def ui_project_window_layout_load_def ui_project_window_layout_save_def ui_project_directory_list_def
    ui_project_file_read_def ui_project_file_save_def ui_project_search_def ui_project_search_cancel_def ui_project_git_status_def
    ui_project_git_branch_def ui_project_git_diff_def ui_project_git_worktrees_def
    ui_project_file_open_external_def launch_external_def
    authorize_session_def authorize_terminal_def authorize_project_def
  by ((rule keeps_bind keeps_parts(3) keeps_pair request_keeps(3) [OF assms])+, simp split: response.split, intro conjI allI impI keeping)+

lemma grant_registered_ok:
  assumes "grants_ok h"
  shows "grants_ok (snd (grant_registered_project v p name roots h))"
proof -
  let ?kept = "retain (\<lambda>g. pgr_window_label g \<noteq> hv_window v) (hs_projects h)"
  let ?gone = "\<lambda>p. case hs_projects h p of Some g \<Rightarrow> pgr_window_label g = hv_window v | None \<Rightarrow> False"
  have granted: "grants_ok (h\<lparr>hs_projects := ?kept(ProjectId u \<mapsto> g), hs_terminals := retain (\<lambda>g. \<not> ?gone (tgr_project_grant g)) (hs_terminals h),
      hs_sessions := retain (\<lambda>g. \<not> ?gone (sgr_project_grant g)) (hs_sessions h)\<rparr>)" (is "grants_ok ?h")
    if u: "?kept (ProjectId u) = None" and g: "pgr_window_label g = hv_window v" for u g
  proof -
    have live: "\<exists>p. hs_projects ?h i = Some p \<and> pgr_window_label p = w"
      if ex: "\<exists>p. hs_projects h i = Some p \<and> pgr_window_label p = w" and alive: "\<not> ?gone i" for i w
    proof -
      from ex obtain p where p: "hs_projects h i = Some p" "pgr_window_label p = w" by blast
      then have "?kept i = Some p" using alive by (auto simp: retain_Some)
      then show ?thesis using u p(2) by auto
    qed
    have one: "i = j" if "hs_projects ?h i = Some a" "hs_projects ?h j = Some b" "pgr_window_label a = pgr_window_label b" for i j a b
      using that g assms by (auto simp: grants_ok_def retain_Some split: if_splits)
    show ?thesis
      unfolding grants_ok_def
    proof (intro conjI allI impI)
      fix t x assume "hs_terminals ?h t = Some x"
      then have "hs_terminals h t = Some x" "\<not> ?gone (tgr_project_grant x)" by (simp_all add: retain_Some)
      then show "\<exists>p. hs_projects ?h (tgr_project_grant x) = Some p \<and> pgr_window_label p = tgr_window_label x"
        using assms live by (simp add: grants_ok_def)
    next
      fix t x assume "hs_sessions ?h t = Some x"
      then have "hs_sessions h t = Some x" "\<not> ?gone (sgr_project_grant x)" by (simp_all add: retain_Some)
      then show "\<exists>p. hs_projects ?h (sgr_project_grant x) = Some p \<and> pgr_window_label p = sgr_window_label x"
        using assms live by (simp add: grants_ok_def)
    qed (rule one)
  qed
  show ?thesis
  proof (cases roots)
    case Nil
    then show ?thesis using assms by (simp add: grant_registered_project_def)
  next
    case (Cons root rest)
    show ?thesis
    proof (cases "find (\<lambda>u. ProjectId u \<noteq> p \<and> ?kept (ProjectId u) = None) (hv_draws v)")
      case None
      then show ?thesis using Cons assms by (simp add: grant_registered_project_def Let_def)
    next
      case (Some u)
      then have "?kept (ProjectId u) = None" by (auto simp: find_Some_iff)
      then show ?thesis using Cons Some granted by (simp add: grant_registered_project_def Let_def)
    qed
  qed
qed

lemma opening_commands_keep:
  assumes "steady v"
  shows "keeps grants_ok (ui_project_recent_list v n)" "keeps grants_ok (ui_project_set_favorite v a favorite)"
    "keeps grants_ok (ui_open_recent_project v a)" "keeps grants_ok (ui_open_project_folder v drawn selected)"
proof -
  note asked = request_keeps [OF assms]
  have "keeps grants_ok (on_host (grant_registered_project v p name roots))" for p name roots
    by (simp add: keeps_def on_host_def split_beta grant_registered_ok)
  note [keeping] = this
  have "keeps grants_ok (project_registration_with_deadline v i m)" if "keeps grants_ok m" for i m
    using that by (simp add: keeps_def project_registration_with_deadline_def split_beta)
  note [keeping] = this
  show "keeps grants_ok (ui_project_recent_list v n)" "keeps grants_ok (ui_project_set_favorite v a favorite)"
    unfolding ui_project_recent_list_def ui_project_set_favorite_def
    by ((rule keeps_bind keeps_parts(3) asked)+, simp split: response.split, intro conjI allI impI keeping)+
  have registers: "keeps grants_ok (register_project_with_paths v p i name roots)" for p i name roots
    unfolding register_project_with_paths_def
    by (intro keeping asked, simp split: response.split, intro conjI allI impI keeping)
  have recent: "keeps grants_ok (open_recent_project_with_paths v p)" for p
    unfolding open_recent_project_with_paths_def
    by (intro keeping asked, simp split: response.split, intro conjI allI impI keeping registers)
  show "keeps grants_ok (ui_open_recent_project v a)" unfolding ui_open_recent_project_def by (intro keeping recent)
  have fresh: "keeps grants_ok (register_new_project_with_paths v drawn name roots)" for name roots
    unfolding keeps_def
  proof (intro allI impI)
    fix s :: "desktop_host \<times> 'a" assume s: "grants_ok (fst s)"
    obtain p h where p: "begin_project_registration roots drawn (fst s) = (p, h)" by fastforce
    obtain r h1 d where r: "register_project_with_paths v p (hv_request v) name roots (h, snd s) = (r, (h1, d))" by (metis surj_pair)
    have "grants_ok h" using s p grants_ok_frame(1) by (auto simp: begin_project_registration_def Let_def split: option.splits)
    then have "grants_ok h1" using registers r unfolding keeps_def by (metis fst_conv snd_conv)
    moreover from this have "grants_ok (finish_project_registration roots p h1)"
      using grants_ok_frame(1) by (simp add: finish_project_registration_def Let_def)
    ultimately show "grants_ok (fst (snd (register_new_project_with_paths v drawn name roots s)))"
      using p r by (simp add: register_new_project_with_paths_def split: sum.split option.split)
  qed
  show "keeps grants_ok (ui_open_project_folder v drawn selected)" unfolding ui_open_project_folder_def
    by (cases selected) (simp_all only: option.case, (intro keeping fresh)+)
qed

lemma host_snapshot_keeps [keeping]:
  assumes "steady v"
  shows "keeps grants_ok (capture_with_host v)"
proof -
  have "snd (capture_with_host v s) = snd (request_daemon_correlated v (hv_request v) ReqSystemSnapshot s)" for s
    by (simp add: capture_with_host_def split_beta split: sum.split response.split)
  then show ?thesis using request_keeps(1) [OF assms] by (simp add: keeps_def)
qed

lemma other_commands_keep:
  assumes "steady v"
  shows "keeps grants_ok (ui_shortcut_settings_load v)" "keeps grants_ok (ui_shortcut_settings_save v bindings)"
    "keeps grants_ok (ui_background_stop_all v)" "keeps grants_ok (ui_storage_unlock v t)"
    "keeps grants_ok (ui_system_snapshot v)" "keeps grants_ok (ui_terminal_link_open v parse approved t)"
proof -
  show "keeps grants_ok (ui_shortcut_settings_load v)" "keeps grants_ok (ui_shortcut_settings_save v bindings)"
    "keeps grants_ok (ui_background_stop_all v)" "keeps grants_ok (ui_storage_unlock v t)"
    unfolding ui_shortcut_settings_load_def ui_shortcut_settings_save_def ui_background_stop_all_def ui_storage_unlock_def
    by ((rule keeps_bind keeps_parts(3) request_keeps [OF assms])+, simp split: response.split option.split,
        intro conjI allI impI keeping assms)+
  show "keeps grants_ok (ui_system_snapshot v)" "keeps grants_ok (ui_terminal_link_open v parse approved t)"
    unfolding ui_system_snapshot_def ui_terminal_link_open_def launch_external_def by (intro keeping assms)+
qed

lemma revoke_window_ok: "grants_ok h \<Longrightarrow> grants_ok (revoke_window w h)"
  unfolding grants_ok_def revoke_window_def by (auto simp: retain_Some) metis+

text \<open>Commands of any windows and the end of windows, one after the other.\<close>

inductive host_reachable :: "'d \<Rightarrow> desktop_host \<times> 'd \<Rightarrow> bool" for d where
  "host_reachable d (desktop_host_new, d)"
| "host_reachable d s \<Longrightarrow> steady v \<Longrightarrow> command_step v s s' \<Longrightarrow> host_reachable d s'"
| "host_reachable d (h, e) \<Longrightarrow> host_reachable d (revoke_window w h, e)"

lemma command_step_keeps:
  assumes "steady v" "command_step v s s'" "grants_ok (fst s)"
  shows "grants_ok (fst s')"
proof -
  have kept: "grants_ok (fst s')" if "keeps grants_ok m" "s' = snd (m s)" for m :: "('a, 'b) command"
    using that assms(3) unfolding keeps_def by blast
  note keep = registering_commands_keep attaching_commands_keep querying_commands_keep opening_commands_keep other_commands_keep
  show ?thesis using assms(2) by cases (erule kept [rotated], rule keep [OF assms(1)])+
qed


section \<open>Samples\<close>

text \<open>
  A window whose daemon answers \<open>reply\<close> and records the requests, while the others do \<open>others\<close>. An
  identifier is read as the number of its characters.
\<close>

definition desk :: "string \<Rightarrow> (request \<Rightarrow> response) \<Rightarrow> (desktop_host \<Rightarrow> desktop_host) \<Rightarrow> request list host_env" where
  "desk window reply others =
     \<lparr>hv_window = window, hv_cid = 0, hv_request = RequestId 0, hv_draws = [20, 21, 22, 23], hv_id_text = (\<lambda>_. []),
      hv_parse_id = (\<lambda>value. Some (of_nat (length value))), hv_parse_json = (\<lambda>_. None), hv_paths = True, hv_connect = Inr 3,
      hv_deadline_passes = False, hv_daemon = (\<lambda>_ q sent. (Inr (reply q), sent @ [q])), hv_meanwhile = others,
      hv_canonicalize = (\<lambda>value. Some (parse_path value)), hv_is_dir = (\<lambda>_. True),
      hv_launches = (\<lambda>_. True), hv_platform = ''linux'', hv_architecture = ''x86_64'', hv_encode_shortcuts = (\<lambda>_. []),
      hv_decode_shortcuts = (\<lambda>_. None)\<rparr>"

text \<open>The window \<^verbatim>\<open>main\<close> holds the grant 1 of the project 9.\<close>

definition granted_host :: desktop_host where
  "granted_host = desktop_host_new\<lparr>hs_projects := [ProjectId 1 \<mapsto>
     \<lparr>pgr_canonical_path = ''/w'', pgr_persisted_project_id = ProjectId 9, pgr_window_label = ''main''\<rparr>]\<rparr>"

definition sample_terminal :: terminal_opened where
  "sample_terminal = \<lparr>to_terminal_id = TerminalId 5, to_run_id = RunId 6, to_process_id = 7, to_canonical_cwd = ''/w'',
     to_state = TermRunning\<rparr>"

lemma desk_recording: "recording (desk window reply others)"
  by (simp add: recording_def desk_def)

lemma desk_alone_steady: "steady (desk window reply id)"
  by (simp add: steady_def desk_def)

text \<open>Opening a terminal asks the daemon for project 9 and gives the window the grant 20 of terminal 5.\<close>

lemma granted_host_fields [simp]:
  "hs_projects granted_host = [ProjectId 1 \<mapsto> \<lparr>pgr_canonical_path = ''/w'', pgr_persisted_project_id = ProjectId 9, pgr_window_label = ''main''\<rparr>]"
  "hs_terminals granted_host = Map.empty" "hs_sessions granted_host = Map.empty" "hs_daemon granted_host = None"
  by (simp_all add: granted_host_def desktop_host_new_def)

lemma terminal_opened_sample:
  assumes "others (granted_host\<lparr>hs_daemon := Some 3\<rparr>) = h" "hs_terminals h = Map.empty"
  shows "snd (ui_terminal_open (desk ''main'' (\<lambda>_. RespTerminalOpened sample_terminal) others) ''p'' 80 24 (granted_host, [])) =
    (h\<lparr>hs_terminals := [TerminalId 20 \<mapsto> \<lparr>tgr_project_grant = ProjectId 1, tgr_persisted_terminal_id = TerminalId 5,
       tgr_discovery_only = False, tgr_window_label = ''main''\<rparr>]\<rparr>, [ReqTerminalOpen (ProjectId 9) ''/w'' 80 24])"
  using assms
  by (simp add: ui_terminal_open_def granted_project_def parse_project_id_def parse_id_def desk_def check_host_def io_bind_def
      resolve_project_def ask_def request_daemon_correlated_def daemon_client_def
      on_host_def register_terminal_def Let_def sample_terminal_def retain_def answer_def io_return_def)


text \<open>A window opens the folder \<^verbatim>\<open>/w\<close> and the daemon registers it as the project 9.\<close>

definition opened_host :: "desktop_host \<times> request list" where
  "opened_host = snd (ui_open_project_folder
     (desk ''main'' (\<lambda>_. RespProjectRegistered \<lparr>pg_project_id = ProjectId 9, pg_display_name = ''w'', pg_canonical_roots = [''/w'']\<rparr>) id)
     (ProjectId 9) (Some [''/w'']) (desktop_host_new, []))"

lemma opened_host_grant:
  "hs_projects (fst opened_host) (ProjectId 20) =
     Some \<lparr>pgr_canonical_path = ''/w'', pgr_persisted_project_id = ProjectId 9, pgr_window_label = ''main''\<rparr>"
  by code_simp


section \<open>Situations that the code does not handle\<close>

text \<open>
  While \<^verbatim>\<open>terminal_open\<close> waits for the daemon, the same window opens another project. Its first grant is
  revoked with all its terminals, yet the terminal that the daemon then reports is recorded under the
  revoked grant and stays usable from the window.
\<close>

definition project_replaced :: "desktop_host \<Rightarrow> desktop_host" where
  "project_replaced = snd \<circ> grant_registered_project (desk ''main'' (\<lambda>_. RespPong) id) (ProjectId 8) ''x'' [''/x'']"

lemma orphan_not_ok: "hs_terminals h t = Some g \<Longrightarrow> hs_projects h (tgr_project_grant g) = None \<Longrightarrow> \<not> grants_ok h"
  by (metis grants_ok_def option.distinct(1))

lemma terminal_survives_its_project:
  "\<exists>h. h = fst (snd (ui_terminal_open (desk ''main'' (\<lambda>_. RespTerminalOpened sample_terminal) project_replaced) ''p'' 80 24 (granted_host, []))) \<and>
     hs_projects h (ProjectId 1) = None \<and> \<not> grants_ok h \<and>
     is_ok (authorize_terminal_grant (desk ''main'' (\<lambda>_. RespPong) id) (TerminalId 20) h)"
proof -
  have replaced: "project_replaced (granted_host\<lparr>hs_daemon := Some 3\<rparr>) = desktop_host_new\<lparr>hs_projects := [ProjectId 20 \<mapsto>
      \<lparr>pgr_canonical_path = ''/x'', pgr_persisted_project_id = ProjectId 8, pgr_window_label = ''main''\<rparr>], hs_daemon := Some 3\<rparr>"
    by (simp add: project_replaced_def grant_registered_project_def desk_def Let_def retain_def granted_host_def desktop_host_new_def
        fun_eq_iff)
  note reported = terminal_opened_sample [where others = project_replaced, OF replaced]
  let ?h = "fst (snd (ui_terminal_open (desk ''main'' (\<lambda>_. RespTerminalOpened sample_terminal) project_replaced) ''p'' 80 24 (granted_host, [])))"
  have opened: "hs_projects ?h = [ProjectId 20 \<mapsto> \<lparr>pgr_canonical_path = ''/x'', pgr_persisted_project_id = ProjectId 8, pgr_window_label = ''main''\<rparr>]"
    "hs_terminals ?h (TerminalId 20) = Some \<lparr>tgr_project_grant = ProjectId 1, tgr_persisted_terminal_id = TerminalId 5,
       tgr_discovery_only = False, tgr_window_label = ''main''\<rparr>"
    by (simp_all add: reported desktop_host_new_def)
  then have "\<not> grants_ok ?h" by (intro orphan_not_ok [OF opened(2)]) simp
  with opened show ?thesis by (auto simp: authorize_terminal_grant_def desk_def)
qed

text \<open>
  There is one grant per session, not one per session and window: a window that lists the sessions of
  its project takes the grant of a session away from another window of the same project.
\<close>

lemma session_grant_taken_over:
  assumes "is_ok (authorize_session_grant v session h)" "hv_window v' \<noteq> hv_window v"
  shows "\<not> is_ok (authorize_session_grant v session (register_session v' session grant h))"
  using assms by (simp add: authorize_session_grant_def register_session_def Let_def)

text \<open>
  The host expects the roots of a registration in the order of their texts, the daemon answers them in
  the order of their components. For two roots such as \<^verbatim>\<open>/w/a-b\<close> and \<^verbatim>\<open>/w/a/b\<close> the orders differ, and
  such a workspace cannot be opened.
\<close>

definition sibling_roots :: "string list" where
  "sibling_roots = [''/w/a-b'', ''/w/a/b'']"

lemma sibling_roots_rejected:
  "fst (register_project_with_paths (desk ''main'' (\<lambda>_. RespProjectRegistered \<lparr>pg_project_id = ProjectId 9, pg_display_name = ''w'',
       pg_canonical_roots = map path_string (sort (map parse_path sibling_roots))\<rparr>) id)
     (ProjectId 9) (RequestId 0) ''w'' sibling_roots (desktop_host_new, [])) =
   Inl (Some (unexpected_response (desk ''main'' (\<lambda>_. RespPong) id)))"
  by code_simp

end
