(* ===== verification/Connection.thy ===== *)
theory Connection
  imports Daemon_Invariant Wire_Protocol
begin

text \<open>
  The two ends of a connection: the daemon's handshake and its loop over requests,
  \<^verbatim>\<open>crates/maestrod/src/server.rs\<close>, and the client that multiplexes requests over one socket,
  \<^verbatim>\<open>crates/maestrod/src/ipc.rs\<close>. A \<^verbatim>\<open>select!\<close> is a step for the branch that it takes; what the awaited
  call answers is part of the step. A frame is read whole or not at all: that dropping the read of a
  frame loses what was read of it is outside the model.
\<close>

section \<open>The handshake\<close>

text \<open>\<^verbatim>\<open>SecretToken::matches\<close> of \<^verbatim>\<open>paths.rs\<close>: the comparison does not stop at the first difference.\<close>

definition token_matches :: "string \<Rightarrow> string \<Rightarrow> bool" where
  "token_matches token candidate =
     (if length candidate \<noteq> length token then False
      else foldl (\<lambda>difference (expected, actual). difference OR (expected XOR actual)) 0
             (zip (text_bytes token) (text_bytes candidate)) = 0)"

lemma byte_of_char_eq: "(of_char c = (of_char d :: u8)) = (c = d)"
proof
  assume "of_char c = (of_char d :: u8)"
  then have "unat (of_nat (of_char c) :: u8) = unat (of_nat (of_char d) :: u8)" by (simp only: of_nat_of_char)
  moreover have "(of_char c :: nat) < 256" "(of_char d :: nat) < 256" by simp_all
  ultimately have "(of_char c :: nat) = of_char d" by (simp add: unat_of_nat)
  then show "c = d" by simp
qed simp

lemma text_bytes_inject: "text_bytes s = text_bytes t \<longleftrightarrow> s = t"
  unfolding text_bytes_def by (metis byte_of_char_eq injI inj_map_eq_map)

lemma xor_zero_iff: "e XOR a = (0 :: u8) \<longleftrightarrow> e = a"
  by (metis xor_self_eq xor.assoc xor.right_neutral xor.left_neutral)

lemma fold_difference:
  "foldl (\<lambda>d (e, a). d OR (e XOR a)) d (zip es as) = (0 :: u8) \<longleftrightarrow> d = 0 \<and> (\<forall>(e, a) \<in> set (zip es as). e = a)"
proof (induction es as arbitrary: d rule: list_induct2')
  case (4 e es a as)
  have "d OR (e XOR a) = 0 \<longleftrightarrow> d = 0 \<and> e = a" by (simp add: or_eq_0_iff xor_zero_iff)
  then show ?case by (simp add: "4.IH")
qed auto

lemma token_matches_iff: "token_matches token candidate \<longleftrightarrow> candidate = token"
proof (cases "length candidate = length token")
  case True
  then have "token_matches token candidate \<longleftrightarrow> text_bytes token = text_bytes candidate"
    by (auto simp: token_matches_def fold_difference list_eq_iff_zip_eq)
  then show ?thesis by (auto simp: text_bytes_inject)
qed (auto simp: token_matches_def)

text \<open>Writing one frame, or failing to.\<close>

definition send_frame :: "bool \<Rightarrow> server_frame \<Rightarrow> 'a \<Rightarrow> (ipc_error + 'a) \<times> server_frame list" where
  "send_frame written frame x = (if written then (Inr x, [frame]) else (Inl Io, []))"

text \<open>
  The first frame decides. \<open>first\<close> is what reading it gave; a hello that takes too long is an I/O error.
\<close>

definition incompatible_hello :: "uuid \<Rightarrow> client_hello \<Rightarrow> maestro_error" where
  "incompatible_hello cid hello =
     (maestro_error_new cid CliProtocolIncompatible ''the client and daemon protocol versions are incompatible'')
       \<lparr>err_user_action := Some ''UPDATE_MAESTRO'',
        err_details := Some (Object [(''client_protocol_version'', nat_json (unat (ch_protocol_version hello))),
                                     (''daemon_protocol_version'', nat_json (unat PROTOCOL_VERSION))])\<rparr>"

definition authenticate_connection ::
  "uuid \<Rightarrow> uuid \<Rightarrow> string \<Rightarrow> bool \<Rightarrow> ipc_error + client_frame option \<Rightarrow> (ipc_error + bool) \<times> server_frame list" where
  "authenticate_connection cid connection token written first_frame =
     (case first_frame of
        Inl e \<Rightarrow> (Inl e, [])
      | Inr (Some (ClientFrameHello hello)) \<Rightarrow>
          if \<not> token_matches token (ch_authentication_token hello)
          then send_frame written (ServerFrameFatal (maestro_error_new cid AuthenticationRequired ''daemon authentication failed'')) False
          else if ch_protocol_version hello \<noteq> PROTOCOL_VERSION
          then send_frame written (ServerFrameFatal (incompatible_hello cid hello)) False
          else send_frame written (ServerFrameHello
            \<lparr>sh_protocol_version = PROTOCOL_VERSION, sh_daemon_version = ''0.1.0'', sh_connection_id = connection\<rparr>) True
      | Inr _ \<Rightarrow>
          send_frame written (ServerFrameFatal
            (maestro_error_new cid AuthenticationRequired ''system.hello must be the first frame'')) False)"

section \<open>Serving requests\<close>

definition MAX_IN_FLIGHT_REQUESTS_PER_CONNECTION :: nat where "MAX_IN_FLIGHT_REQUESTS_PER_CONNECTION = 64"

text \<open>A task that handles one request; it has an outcome when the handler is done.\<close>

record request_task =
  tk_envelope :: request_envelope
  tk_outcome :: "(maestro_error + response) option"

record connection =
  cn_tasks :: "request_task list"
  cn_sent :: "server_frame list"
  cn_detached :: "request_task list"

text \<open>
  The branches of the loop, and in between the tasks: the \<open>k\<close>-th task runs its handler, and others change
  the daemon.
\<close>

datatype connection_event =
    ShutdownSeen bool
  | TaskRuns nat daemon_env
  | TaskJoined nat bool
  | TaskFailed nat
  | FrameArrived "ipc_error + client_frame option" bool uuid
  | OthersRun "daemon \<Rightarrow> daemon"

fun selected :: "connection_event \<Rightarrow> bool" where
  "selected (TaskRuns _ _) = False"
| "selected (OthersRun _) = False"
| "selected _ = True"

definition too_many_in_flight :: "uuid \<Rightarrow> maestro_error" where
  "too_many_in_flight cid =
     (maestro_error_new cid InvalidRequest ''this client has too many requests in flight'')
       \<lparr>err_retryable := True,
        err_details := Some (Object [(''maximum_in_flight_requests'', nat_json MAX_IN_FLIGHT_REQUESTS_PER_CONNECTION)])\<rparr>"

definition drop_task :: "nat \<Rightarrow> connection \<Rightarrow> connection" where
  "drop_task k c = c\<lparr>cn_tasks := take k (cn_tasks c) @ drop (Suc k) (cn_tasks c)\<rparr>"

definition send_on :: "bool \<Rightarrow> server_frame \<Rightarrow> connection \<times> daemon \<Rightarrow> (ipc_error + bool) \<times> (connection \<times> daemon)" where
  "send_on written frame = (\<lambda>(c, d).
     (case send_frame written frame True of (r, frames) \<Rightarrow> (r, (c\<lparr>cn_sent := cn_sent c @ frames\<rparr>, d))))"

definition detach_all :: "connection \<Rightarrow> connection" where
  "detach_all c = c\<lparr>cn_tasks := [], cn_detached := cn_detached c @ cn_tasks c\<rparr>"

text \<open>\<^term>\<open>Inr True\<close> goes on, \<^term>\<open>Inr False\<close> leaves the loop, an error leaves the function.\<close>

fun serve_event :: "connection_event \<Rightarrow> connection \<times> daemon \<Rightarrow> (ipc_error + bool) \<times> (connection \<times> daemon)" where
  "serve_event (ShutdownSeen ends) s = (Inr (\<not> ends), s)"
| "serve_event (OthersRun f) (c, d) = (Inr True, (c, f d))"
| "serve_event (TaskRuns k v) (c, d) =
     (if k < length (cn_tasks c) \<and> tk_outcome (cn_tasks c ! k) = None
      then (case handle_client_request v (rqe_request (tk_envelope (cn_tasks c ! k))) d of
              (r, d') \<Rightarrow> (Inr True, (c\<lparr>cn_tasks := (cn_tasks c)[k := (cn_tasks c ! k)\<lparr>tk_outcome := Some r\<rparr>]\<rparr>, d')))
      else (Inr True, (c, d)))"
| "serve_event (TaskJoined k written) (c, d) =
     (if k < length (cn_tasks c)
      then (case tk_outcome (cn_tasks c ! k) of
              Some r \<Rightarrow> send_on written (ServerFrameResponse
                \<lparr>rse_request_id = rqe_request_id (tk_envelope (cn_tasks c ! k)), rse_response = r\<rparr>) (drop_task k c, d)
            | None \<Rightarrow> (Inr True, (c, d)))
      else (Inr True, (c, d)))"
| "serve_event (TaskFailed k) (c, d) = (Inr True, (drop_task k c, d))"
| "serve_event (FrameArrived (Inl e) written cid) s = (Inl e, s)"
| "serve_event (FrameArrived (Inr None) written cid) (c, d) = (Inr False, (detach_all c, d))"
| "serve_event (FrameArrived (Inr (Some (ClientFrameHello hello))) written cid) s =
     (case send_on written (ServerFrameFatal (maestro_error_new cid InvalidRequest ''system.hello was already completed'')) s of
        (Inl e, s) \<Rightarrow> (Inl e, s)
      | (Inr _, (c, d)) \<Rightarrow> (Inr False, (detach_all c, d)))"
| "serve_event (FrameArrived (Inr (Some (ClientFrameRequest e))) written cid) (c, d) =
     (if length (cn_tasks c) \<ge> MAX_IN_FLIGHT_REQUESTS_PER_CONNECTION
      then send_on written (ServerFrameResponse
        \<lparr>rse_request_id = rqe_request_id e, rse_response = Inl (too_many_in_flight cid)\<rparr>) (c, d)
      else (Inr True, (c\<lparr>cn_tasks := cn_tasks c @ [\<lparr>tk_envelope = e, tk_outcome = None\<rparr>]\<rparr>, d)))"

text \<open>
  The loop looks at the shutdown flag before it waits. Leaving it aborts the tasks; \<^term>\<open>None\<close> means that it
  has not ended yet.
\<close>

definition aborted :: "connection \<Rightarrow> connection" where
  "aborted c = c\<lparr>cn_tasks := []\<rparr>"

fun serve_loop :: "connection_event list \<Rightarrow> connection \<times> daemon \<Rightarrow> (ipc_error + unit) option \<times> (connection \<times> daemon)" where
  "serve_loop [] s = (None, s)"
| "serve_loop (e # es) s =
     (case serve_event e s of
        (Inl x, (c, d)) \<Rightarrow> (Some (Inl x), (aborted c, d))
      | (Inr goes_on, (c, d)) \<Rightarrow>
          if \<not> goes_on \<or> selected e \<and> dm_shutting_down d then (Some (Inr ()), (aborted c, d))
          else serve_loop es (c, d))"

definition serve_connection ::
  "uuid \<Rightarrow> uuid \<Rightarrow> string \<Rightarrow> bool \<Rightarrow> ipc_error + client_frame option \<Rightarrow> connection_event list \<Rightarrow> daemon \<Rightarrow>
   (ipc_error + unit) option \<times> (connection \<times> daemon)" where
  "serve_connection cid connection token written first_frame es d =
     (case authenticate_connection cid connection token written first_frame of
        (r, frames) \<Rightarrow>
          (let c = \<lparr>cn_tasks = [], cn_sent = frames, cn_detached = []\<rparr>
           in case r of
                Inl e \<Rightarrow> (Some (Inl e), (c, d))
              | Inr granted \<Rightarrow>
                  if \<not> granted \<or> dm_shutting_down d then (Some (Inr ()), (c, d)) else serve_loop es (c, d)))"

text \<open>
  C39. Nothing is served before the handshake. A client whose first frame is not a hello with the token of
  the daemon and its protocol version changes nothing: whatever it sends then, its connection is over, no
  request of it is run, and all it is told is one error.
\<close>

theorem handshake_required:
  assumes "serve_connection cid connection token written first_frame es d = (r, (c, d'))"
    and "\<not> (\<exists>hello. first_frame = Inr (Some (ClientFrameHello hello)) \<and> ch_authentication_token hello = token \<and>
            ch_protocol_version hello = PROTOCOL_VERSION)"
  shows "d' = d \<and> r \<noteq> None \<and> cn_tasks c = [] \<and> cn_detached c = [] \<and>
    (cn_sent c = [] \<or> (\<exists>e. cn_sent c = [ServerFrameFatal e]))"
proof -
  have "fst (authenticate_connection cid connection token written first_frame) \<noteq> Inr True \<and>
      (snd (authenticate_connection cid connection token written first_frame) = [] \<or>
       (\<exists>e. snd (authenticate_connection cid connection token written first_frame) = [ServerFrameFatal e]))"
    using assms(2) by (auto simp: authenticate_connection_def send_frame_def token_matches_iff split: sum.split option.split client_frame.split)
  then show ?thesis using assms(1) by (auto simp: serve_connection_def split_beta Let_def split: sum.splits if_splits)
qed

theorem handshake_required_witness:
  "\<exists>r c. serve_connection 1 2 ''t'' True (Inr (Some (ClientFrameHello
       \<lparr>ch_protocol_version = PROTOCOL_VERSION, ch_client_name = ''n'', ch_client_version = ''v'', ch_authentication_token = ''u''\<rparr>)))
       [FrameArrived (Inr (Some (ClientFrameRequest \<lparr>rqe_request_id = RequestId 3, rqe_request = ReqPing\<rparr>))) True 4] locked_daemon =
     (r, (c, locked_daemon)) \<and> r \<noteq> None \<and> cn_tasks c = []"
proof -
  let ?first = "Inr (Some (ClientFrameHello
       \<lparr>ch_protocol_version = PROTOCOL_VERSION, ch_client_name = ''n'', ch_client_version = ''v'', ch_authentication_token = ''u''\<rparr>))"
  let ?es = "[FrameArrived (Inr (Some (ClientFrameRequest \<lparr>rqe_request_id = RequestId 3, rqe_request = ReqPing\<rparr>))) True 4]"
  obtain r c d where run: "serve_connection 1 2 ''t'' True ?first ?es locked_daemon = (r, (c, d))" by (metis surj_pair)
  from handshake_required [OF this] show ?thesis using run by simp
qed

section \<open>Accepting clients\<close>

record daemon_config =
  dc_maximum_connections :: nat
  dc_maximum_processes :: nat
  dc_maximum_terminals :: nat
  dc_idle_shutdown_grace :: nat
  dc_fake_agent_executable :: "string option"

text \<open>The grace in seconds.\<close>

definition daemon_config_default :: daemon_config where
  "daemon_config_default =
     \<lparr>dc_maximum_connections = 32, dc_maximum_processes = DEFAULT_PROCESS_LIMIT, dc_maximum_terminals = 16,
      dc_idle_shutdown_grace = 30, dc_fake_agent_executable = None\<rparr>"

definition check_config :: "daemon_config \<Rightarrow> string + unit" where
  "check_config config =
     (if dc_maximum_connections config = 0 then Inl ''connection limit must be nonzero''
      else if dc_maximum_processes config = 0 then Inl ''process limit must be nonzero''
      else if dc_maximum_terminals config = 0 \<or> dc_maximum_terminals config > dc_maximum_processes config
      then Inl ''terminal limit must be nonzero and no greater than the process limit''
      else Inr ())"

text \<open>
  The loop of the server: a task serves or rejects a client until it has ended, and is then reaped.
  \<open>processes\<close> is the number of running processes that the spawner counts, times are in seconds.
\<close>

datatype client_task = Serving | Rejecting | Ended

record accept_loop =
  al_daemon :: daemon
  al_permits :: nat
  al_tasks :: "client_task list"
  al_idle_since :: "nat option"

datatype accept_event =
    AcceptShutdown bool
  | ActivityChanged nat nat
  | IdleDeadline nat nat
  | TaskReaped nat
  | Accepted bool
  | TaskEnds nat

definition is_idle :: "nat \<Rightarrow> daemon \<Rightarrow> bool" where
  "is_idle processes d \<longleftrightarrow> dm_connected_clients d = 0 \<and> dm_active_sessions d = 0 \<and> processes = 0"

definition accept_loop_new :: "daemon_config \<Rightarrow> nat \<Rightarrow> daemon \<Rightarrow> accept_loop" where
  "accept_loop_new config now d =
     \<lparr>al_daemon = d, al_permits = dc_maximum_connections config, al_tasks = [], al_idle_since = Some now\<rparr>"

text \<open>\<^term>\<open>Inr True\<close> goes on, \<^term>\<open>Inr False\<close> shuts down. A deadline passes when the daemon was idle for the grace.\<close>

fun accept_step :: "daemon_config \<Rightarrow> accept_event \<Rightarrow> accept_loop \<Rightarrow> (unit + bool) \<times> accept_loop" where
  "accept_step config (AcceptShutdown ends) l = (Inr (\<not> ends), l)"
| "accept_step config (ActivityChanged now processes) l =
     (Inr True, l\<lparr>al_idle_since := if is_idle processes (al_daemon l) then Some now else None\<rparr>)"
| "accept_step config (IdleDeadline now processes) l =
     (case al_idle_since l of
        None \<Rightarrow> (Inr True, l)
      | Some start \<Rightarrow>
          if now < start + dc_idle_shutdown_grace config then (Inr True, l)
          else if is_idle processes (al_daemon l) then (Inr False, l)
          else (Inr True, l\<lparr>al_idle_since := None\<rparr>))"
| "accept_step config (TaskReaped k) l =
     (if k < length (al_tasks l) \<and> al_tasks l ! k = Ended
      then (Inr True, l\<lparr>al_tasks := take k (al_tasks l) @ drop (Suc k) (al_tasks l)\<rparr>) else (Inr True, l))"
| "accept_step config (Accepted ok) l =
     (if \<not> ok then (Inl (), l)
      else if al_permits l > 0
      then (Inr True, l\<lparr>al_permits := al_permits l - 1, al_tasks := al_tasks l @ [Serving],
              al_daemon := (al_daemon l)\<lparr>dm_connected_clients := dm_connected_clients (al_daemon l) + 1\<rparr>\<rparr>)
      else (Inr True, l\<lparr>al_tasks := al_tasks l @ [Rejecting]\<rparr>))"
| "accept_step config (TaskEnds k) l =
     (if k < length (al_tasks l) \<and> al_tasks l ! k = Serving
      then (Inr True, l\<lparr>al_permits := al_permits l + 1, al_tasks := (al_tasks l)[k := Ended],
              al_daemon := (al_daemon l)\<lparr>dm_connected_clients := dm_connected_clients (al_daemon l) - 1\<rparr>\<rparr>)
      else if k < length (al_tasks l) then (Inr True, l\<lparr>al_tasks := (al_tasks l)[k := Ended]\<rparr>)
      else (Inr True, l))"

text \<open>The number of clients is that of the taken permits, so the daemon never goes idle under a client.\<close>

definition clients_counted :: "daemon_config \<Rightarrow> accept_loop \<Rightarrow> bool" where
  "clients_counted config l \<longleftrightarrow>
     al_permits l + length (filter (\<lambda>t. t = Serving) (al_tasks l)) = dc_maximum_connections config \<and>
     dm_connected_clients (al_daemon l) = of_nat (length (filter (\<lambda>t. t = Serving) (al_tasks l)))"

lemma unat_of_nat_u32: "n < 2 ^ 32 \<Longrightarrow> unat (of_nat n :: u32) = n"
  by (simp add: unat_of_nat)

lemma serving_update:
  "k < length ts \<Longrightarrow> length (filter (\<lambda>t. t = Serving) ts) =
     length (filter (\<lambda>t. t = Serving) (take k ts @ drop (Suc k) ts)) + (if ts ! k = Serving then 1 else 0)"
  by (subst id_take_nth_drop [of k ts]) simp_all

lemma accept_step_counts:
  assumes "clients_counted config l" "accept_step config e l = (r, l')"
  shows "clients_counted config l'"
proof (cases e)
  case (TaskReaped k)
  then show ?thesis using assms serving_update [of k "al_tasks l"] by (auto simp: clients_counted_def split: if_splits)
next
  case (TaskEnds k)
  have "length (filter (\<lambda>t. t = Serving) ((al_tasks l)[k := Ended])) = length (filter (\<lambda>t. t = Serving) (take k (al_tasks l) @ drop (Suc k) (al_tasks l)))"
    if "k < length (al_tasks l)" using that by (simp add: upd_conv_take_nth_drop)
  then show ?thesis
    using TaskEnds assms serving_update [of k "al_tasks l"] by (auto simp: clients_counted_def split: if_splits)
qed (use assms in \<open>auto simp: clients_counted_def split: if_splits option.splits\<close>)

lemma idle_without_clients:
  assumes "clients_counted config l" "dc_maximum_connections config < 2 ^ 32"
    and "accept_step config (IdleDeadline now processes) l = (Inr False, l')"
  shows "Serving \<notin> set (al_tasks l) \<and> dm_active_sessions (al_daemon l) = 0 \<and> processes = 0"
proof -
  let ?n = "length (filter (\<lambda>t. t = Serving) (al_tasks l))"
  have idle: "is_idle processes (al_daemon l)" using assms(3) by (auto split: option.splits if_splits)
  then have "(of_nat ?n :: u32) = 0" using assms(1) by (simp add: clients_counted_def is_idle_def)
  moreover have "?n < 2 ^ 32" using assms(1,2) by (simp add: clients_counted_def)
  ultimately have "?n = 0" by (metis (no_types, lifting) unat_of_nat_u32 unat_0)
  then show ?thesis using idle by (auto simp: is_idle_def filter_empty_conv)
qed

end
