(* ===== verification/Multiplexed_Client.thy ===== *)
theory Multiplexed_Client
  imports Protocol_Types Wire_Protocol "HOL-Library.Multiset"
begin

text \<open>
  The clients of the daemon's socket, \<^verbatim>\<open>crates/maestrod/src/ipc.rs\<close>. A caller of the multiplexed client is
  its ticket: the one-shot channel on which it waits. The driver is a loop over what its \<^verbatim>\<open>select!\<close> yields.
\<close>

section \<open>Handshake and single requests\<close>

definition client_hello_of :: "string \<Rightarrow> string \<Rightarrow> string \<Rightarrow> client_frame" where
  "client_hello_of token name version = ClientFrameHello
     \<lparr>ch_protocol_version = PROTOCOL_VERSION, ch_client_name = name, ch_client_version = version, ch_authentication_token = token\<rparr>"

text \<open>What the answer to the hello means.\<close>

definition hello_answer :: "ipc_error + server_frame option \<Rightarrow> ipc_error + unit" where
  "hello_answer answered =
     (case answered of
        Inl e \<Rightarrow> Inl e
      | Inr (Some (ServerFrameHello _)) \<Rightarrow> Inr ()
      | Inr (Some (ServerFrameFatal e)) \<Rightarrow> Inl (Fatal e)
      | Inr _ \<Rightarrow> Inl UnexpectedFrame)"

text \<open>\<^verbatim>\<open>DaemonClient::request\<close>: one request, and the next frame must answer it.\<close>

definition request_answer :: "request_id \<Rightarrow> ipc_error + server_frame option \<Rightarrow> ipc_error + response" where
  "request_answer i answered =
     (case answered of
        Inl e \<Rightarrow> Inl e
      | Inr (Some (ServerFrameResponse e)) \<Rightarrow>
          if rse_request_id e = i then map_err Fatal (rse_response e) else Inl UnexpectedFrame
      | Inr (Some (ServerFrameFatal e)) \<Rightarrow> Inl (Fatal e)
      | Inr _ \<Rightarrow> Inl UnexpectedFrame)"

section \<open>The driver\<close>

text \<open>
  \<open>cd_pending\<close> is the table of waiting callers in some order of its entries, \<open>cd_completed\<close> what callers
  were told, in order.
\<close>

record client_driver =
  cd_running :: bool
  cd_pending :: "(request_id \<times> nat) list"
  cd_completed :: "(nat \<times> (ipc_error + response)) list"
  cd_written :: "client_frame list"
  cd_events :: "server_event list"

definition client_driver_new :: client_driver where
  "client_driver_new = \<lparr>cd_running = True, cd_pending = [], cd_completed = [], cd_written = [], cd_events = []\<rparr>"

record outbound_request =
  ob_request_id :: request_id
  ob_request :: request
  ob_ticket :: nat

datatype driver_event =
    OutboundArrived outbound_request bool
  | OutboundClosed
  | ServerFrameArrived "ipc_error + server_frame option"

definition complete_all :: "(ipc_error + response) \<Rightarrow> client_driver \<Rightarrow> client_driver" where
  "complete_all r c = c\<lparr>cd_completed := cd_completed c @ map (\<lambda>(i, t). (t, r)) (cd_pending c), cd_pending := []\<rparr>"

text \<open>Leaving the loop: whoever still waits is told that the connection is gone.\<close>

definition driver_ends :: "client_driver \<Rightarrow> client_driver" where
  "driver_ends c = (complete_all (Inl Disconnected) c)\<lparr>cd_running := False\<rparr>"

text \<open>
  A request whose identifier is still in the table replaces the caller there, who finds its channel
  closed.
\<close>

definition insert_pending :: "outbound_request \<Rightarrow> client_driver \<Rightarrow> client_driver" where
  "insert_pending q c =
     c\<lparr>cd_completed := cd_completed c @ map (\<lambda>(i, t). (t, Inl Disconnected)) (filter (\<lambda>p. fst p = ob_request_id q) (cd_pending c)),
       cd_pending := filter (\<lambda>p. fst p \<noteq> ob_request_id q) (cd_pending c) @ [(ob_request_id q, ob_ticket q)]\<rparr>"

definition complete_response :: "response_envelope \<Rightarrow> client_driver \<Rightarrow> client_driver" where
  "complete_response e c =
     (case map_of (cd_pending c) (rse_request_id e) of
        Some t \<Rightarrow> c\<lparr>cd_completed := cd_completed c @ [(t, map_err Fatal (rse_response e))],
                    cd_pending := filter (\<lambda>p. fst p \<noteq> rse_request_id e) (cd_pending c)\<rparr>
      | None \<Rightarrow> c)"

fun driver_event_step :: "driver_event \<Rightarrow> client_driver \<Rightarrow> client_driver" where
  "driver_event_step (OutboundArrived q written) c =
     (let c = insert_pending q c
      in if written
         then c\<lparr>cd_written := cd_written c @ [ClientFrameRequest \<lparr>rqe_request_id = ob_request_id q, rqe_request = ob_request q\<rparr>]\<rparr>
         else driver_ends c)"
| "driver_event_step OutboundClosed c = driver_ends c"
| "driver_event_step (ServerFrameArrived (Inr (Some (ServerFrameResponse e)))) c = complete_response e c"
| "driver_event_step (ServerFrameArrived (Inr (Some (ServerFrameEvent event)))) c = c\<lparr>cd_events := cd_events c @ [event]\<rparr>"
| "driver_event_step (ServerFrameArrived (Inr (Some (ServerFrameFatal e)))) c = driver_ends (complete_all (Inl (Fatal e)) c)"
| "driver_event_step (ServerFrameArrived (Inr (Some (ServerFrameHello hello)))) c = driver_ends c"
| "driver_event_step (ServerFrameArrived (Inr None)) c = driver_ends c"
| "driver_event_step (ServerFrameArrived (Inl e)) c = driver_ends c"

fun run_multiplexed_driver :: "driver_event list \<Rightarrow> client_driver \<Rightarrow> client_driver" where
  "run_multiplexed_driver [] c = c"
| "run_multiplexed_driver (e # es) c = (if cd_running c then run_multiplexed_driver es (driver_event_step e c) else c)"

section \<open>Every caller is answered once\<close>

definition waiting_tickets :: "client_driver \<Rightarrow> nat list" where
  "waiting_tickets c = map snd (cd_pending c)"

definition pending_ok :: "client_driver \<Rightarrow> bool" where
  "pending_ok c \<longleftrightarrow> distinct (map fst (cd_pending c)) \<and> (cd_running c \<or> cd_pending c = [])"

text \<open>The tickets that wait or were completed, with their number.\<close>

definition driver_tickets :: "client_driver \<Rightarrow> nat multiset" where
  "driver_tickets c = mset (map snd (cd_pending c)) + mset (map fst (cd_completed c))"

fun event_tickets :: "driver_event \<Rightarrow> nat multiset" where
  "event_tickets (OutboundArrived q written) = {#ob_ticket q#}"
| "event_tickets _ = {#}"

lemma tickets_frame [simp]:
  "driver_tickets (c\<lparr>cd_written := w\<rparr>) = driver_tickets c" "driver_tickets (c\<lparr>cd_events := es\<rparr>) = driver_tickets c"
  by (simp_all add: driver_tickets_def)

lemma complete_all_tickets [simp]: "driver_tickets (complete_all r c) = driver_tickets c"
  by (simp add: driver_tickets_def complete_all_def comp_def split_beta)

lemma driver_ends_tickets [simp]: "driver_tickets (driver_ends c) = driver_tickets c"
proof -
  have "driver_tickets (driver_ends c) = driver_tickets (complete_all (Inl Disconnected) c)"
    by (simp add: driver_tickets_def driver_ends_def)
  then show ?thesis by simp
qed

lemma mset_split: "mset (map f xs) = mset (map f (filter P xs)) + mset (map f (filter (\<lambda>x. \<not> P x) xs))"
  by (induction xs) auto

lemma insert_pending_tickets: "driver_tickets (insert_pending q c) = add_mset (ob_ticket q) (driver_tickets c)"
  using mset_split [of snd "cd_pending c" "\<lambda>p. fst p = ob_request_id q"]
  by (simp add: driver_tickets_def insert_pending_def comp_def split_beta)

lemma distinct_key_filter:
  "distinct (map fst ps) \<Longrightarrow> map_of ps i = Some t \<Longrightarrow> filter (\<lambda>p. fst p = i) ps = [(i, t)]"
  by (induction ps) (auto simp: filter_empty_conv image_iff split: if_splits)

lemma complete_response_tickets:
  assumes "distinct (map fst (cd_pending c))"
  shows "driver_tickets (complete_response e c) = driver_tickets c"
proof (cases "map_of (cd_pending c) (rse_request_id e)")
  case (Some t)
  then show ?thesis
    using mset_split [of snd "cd_pending c" "\<lambda>p. fst p = rse_request_id e"] distinct_key_filter [OF assms Some]
    by (simp add: driver_tickets_def complete_response_def)
qed (simp add: complete_response_def)

lemma driver_step_tickets:
  assumes "pending_ok c"
  shows "driver_tickets (driver_event_step e c) = driver_tickets c + event_tickets e"
  using assms by (cases "(e, c)" rule: driver_event_step.cases)
    (simp_all add: Let_def insert_pending_tickets complete_response_tickets pending_ok_def)

lemma distinct_map_filter: "distinct (map f xs) \<Longrightarrow> distinct (map f (filter P xs))"
  by (induction xs) auto

lemma driver_step_ok: "pending_ok c \<Longrightarrow> cd_running c \<Longrightarrow> pending_ok (driver_event_step e c)"
  by (cases "(e, c)" rule: driver_event_step.cases)
    (auto simp: pending_ok_def insert_pending_def complete_response_def complete_all_def driver_ends_def Let_def distinct_map_filter
      split: option.split)

end
