(* ===== verification/Request_Link.thy ===== *)
theory Request_Link
  imports Connection Multiplexed_Client
begin

text \<open>
  The client and the daemon's end of one connection together: callers that submit requests, the driver of
  the client, the frames under way in both directions and the tasks of the daemon, in any interleaving.
  Other connections and background tasks change the daemon in between.
\<close>

section \<open>The two ends joined\<close>

text \<open>
  \<open>lk_queue\<close> holds the requests submitted to the driver, \<open>lk_taken\<close> and \<open>lk_read\<close> count the frames that the
  daemon and the client have read of what the other wrote, \<open>lk_ended\<close> tells that the daemon left the
  connection. \<open>lk_submitted\<close> remembers all submitted requests.
\<close>

record link =
  lk_queue :: "outbound_request list"
  lk_client :: client_driver
  lk_taken :: nat
  lk_server :: connection
  lk_read :: nat
  lk_ended :: bool
  lk_submitted :: "outbound_request list"

definition link_new :: "server_frame list \<Rightarrow> link" where
  "link_new frames =
     \<lparr>lk_queue = [], lk_client = client_driver_new, lk_taken = 0,
      lk_server = \<lparr>cn_tasks = [], cn_sent = frames, cn_detached = []\<rparr>, lk_read = length frames, lk_ended = False, lk_submitted = []\<rparr>"

text \<open>Requests that are queued when the driver ends find their channel closed, and so does a later one.\<close>

definition disconnect :: "outbound_request list \<Rightarrow> client_driver \<Rightarrow> client_driver" where
  "disconnect qs c = c\<lparr>cd_completed := cd_completed c @ map (\<lambda>q. (ob_ticket q, Inl Disconnected)) qs\<rparr>"

definition drive :: "driver_event \<Rightarrow> link \<Rightarrow> link" where
  "drive e l =
     (let c = driver_event_step e (lk_client l)
      in if cd_running c then l\<lparr>lk_client := c\<rparr>
         else l\<lparr>lk_client := disconnect (lk_queue l) c, lk_queue := []\<rparr>)"

definition request_correlated :: "outbound_request \<Rightarrow> link \<Rightarrow> link" where
  "request_correlated q l =
     (if cd_running (lk_client l) then l\<lparr>lk_queue := lk_queue l @ [q], lk_submitted := lk_submitted l @ [q]\<rparr>
      else l\<lparr>lk_client := disconnect [q] (lk_client l), lk_submitted := lk_submitted l @ [q]\<rparr>)"

definition serve_on :: "connection_event \<Rightarrow> link \<times> daemon \<Rightarrow> link \<times> daemon" where
  "serve_on e = (\<lambda>(l, d).
     (case serve_loop [e] (lk_server l, d) of (r, (c, d')) \<Rightarrow> (l\<lparr>lk_server := c, lk_ended := r \<noteq> None\<rparr>, d')))"

inductive link_step :: "link \<times> daemon \<Rightarrow> link \<times> daemon \<Rightarrow> bool" where
  submit: "ob_ticket q \<notin> ob_ticket ` set (lk_submitted l) \<Longrightarrow> ob_request_id q \<notin> ob_request_id ` set (lk_submitted l) \<Longrightarrow>
    link_step (l, d) (request_correlated q l, d)"
| take_request: "cd_running (lk_client l) \<Longrightarrow> lk_queue l = q # qs \<Longrightarrow>
    link_step (l, d) (drive (OutboundArrived q written) (l\<lparr>lk_queue := qs\<rparr>), d)"
| hang_up: "cd_running (lk_client l) \<Longrightarrow> lk_queue l = [] \<Longrightarrow> link_step (l, d) (drive OutboundClosed l, d)"
| read_answer: "cd_running (lk_client l) \<Longrightarrow> lk_read l < length (cn_sent (lk_server l)) \<Longrightarrow>
    link_step (l, d) (drive (ServerFrameArrived (Inr (Some (cn_sent (lk_server l) ! lk_read l)))) (l\<lparr>lk_read := Suc (lk_read l)\<rparr>), d)"
| lose_daemon: "cd_running (lk_client l) \<Longrightarrow> r = Inr None \<or> r = Inl e \<Longrightarrow> link_step (l, d) (drive (ServerFrameArrived r) l, d)"
| take_frame: "\<not> lk_ended l \<Longrightarrow> lk_taken l < length (cd_written (lk_client l)) \<Longrightarrow>
    link_step (l, d) (serve_on (FrameArrived (Inr (Some (cd_written (lk_client l) ! lk_taken l))) written cid)
      (l\<lparr>lk_taken := Suc (lk_taken l)\<rparr>, d))"
| lose_client: "\<not> lk_ended l \<Longrightarrow> r = Inr None \<or> r = Inl e \<Longrightarrow> link_step (l, d) (serve_on (FrameArrived r written cid) (l, d))"
| run_task: "\<not> lk_ended l \<Longrightarrow> (\<And>s. supervisor_ok s \<Longrightarrow> supervisor_ok (dv_meanwhile v s)) \<Longrightarrow>
    link_step (l, d) (serve_on (TaskRuns k v) (l, d))"
| join_task: "\<not> lk_ended l \<Longrightarrow> e = TaskJoined k written \<or> e = TaskFailed k \<Longrightarrow> link_step (l, d) (serve_on e (l, d))"
| shut_down: "\<not> lk_ended l \<Longrightarrow> link_step (l, d) (serve_on (ShutdownSeen ends) (l, d))"
| others_run: "(\<And>d. daemon_ok d \<Longrightarrow> daemon_ok (f d)) \<Longrightarrow> link_step (l, d) (l, f d)"

text \<open>A link begins with a handshake: the client offers a token and the daemon accepts it.\<close>

inductive link_reachable :: "string \<Rightarrow> string \<Rightarrow> link \<times> daemon \<Rightarrow> bool" for token offered where
  connect: "authenticate_connection cid connection token True (Inr (Some (client_hello_of offered name version))) = (Inr True, frames) \<Longrightarrow>
    daemon_ok d \<Longrightarrow> link_reachable token offered (link_new frames, d)"
| step: "link_reachable token offered s \<Longrightarrow> link_step s s' \<Longrightarrow> link_reachable token offered s'"

section \<open>Answers reach the callers that asked for them\<close>

definition envelope_of :: "outbound_request \<Rightarrow> request_envelope" where
  "envelope_of q = \<lparr>rqe_request_id = ob_request_id q, rqe_request = ob_request q\<rparr>"

text \<open>A result that a request may have: an error, or an answer of the form it asks for.\<close>

definition suits :: "request \<Rightarrow> 'e + response \<Rightarrow> bool" where
  "suits q r \<longleftrightarrow> (\<forall>y. r = Inr y \<longrightarrow> answers q y)"

definition task_ok :: "outbound_request list \<Rightarrow> request_task \<Rightarrow> bool" where
  "task_ok qs t \<longleftrightarrow> (\<exists>q \<in> set qs. tk_envelope t = envelope_of q \<and> (\<forall>r. tk_outcome t = Some r \<longrightarrow> suits (ob_request q) r))"

fun sent_ok :: "outbound_request list \<Rightarrow> server_frame \<Rightarrow> bool" where
  "sent_ok qs (ServerFrameResponse e) \<longleftrightarrow> (\<exists>q \<in> set qs. ob_request_id q = rse_request_id e \<and> suits (ob_request q) (rse_response e))"
| "sent_ok qs _ \<longleftrightarrow> True"

definition server_ok :: "outbound_request list \<Rightarrow> connection \<Rightarrow> bool" where
  "server_ok qs c \<longleftrightarrow> list_all (task_ok qs) (cn_tasks c) \<and> list_all (sent_ok qs) (cn_sent c) \<and>
     length (cn_tasks c) \<le> MAX_IN_FLIGHT_REQUESTS_PER_CONNECTION"

definition driver_ok :: "outbound_request list \<Rightarrow> client_driver \<Rightarrow> bool" where
  "driver_ok qs c \<longleftrightarrow> pending_ok c \<and>
     (\<forall>(i, t) \<in> set (cd_pending c). \<exists>q \<in> set qs. ob_request_id q = i \<and> ob_ticket q = t) \<and>
     (\<forall>(t, r) \<in> set (cd_completed c). \<exists>q \<in> set qs. ob_ticket q = t \<and> suits (ob_request q) r) \<and>
     (\<forall>f \<in> set (cd_written c). \<exists>q \<in> set qs. f = ClientFrameRequest (envelope_of q))"

definition link_ok :: "link \<Rightarrow> bool" where
  "link_ok l \<longleftrightarrow>
     distinct (map ob_ticket (lk_submitted l)) \<and> distinct (map ob_request_id (lk_submitted l)) \<and>
     set (lk_queue l) \<subseteq> set (lk_submitted l) \<and> (cd_running (lk_client l) \<or> lk_queue l = []) \<and>
     mset (map ob_ticket (lk_queue l)) + driver_tickets (lk_client l) = mset (map ob_ticket (lk_submitted l)) \<and>
     driver_ok (lk_submitted l) (lk_client l) \<and> server_ok (lk_submitted l) (lk_server l)"

text \<open>The daemon's end.\<close>

lemma task_ok_mono: "task_ok qs t \<Longrightarrow> set qs \<subseteq> set qs' \<Longrightarrow> task_ok qs' t"
  by (auto simp: task_ok_def)

lemma sent_ok_mono: "sent_ok qs f \<Longrightarrow> set qs \<subseteq> set qs' \<Longrightarrow> sent_ok qs' f"
  by (cases f) auto

lemma server_ok_mono: "server_ok qs c \<Longrightarrow> set qs \<subseteq> set qs' \<Longrightarrow> server_ok qs' c"
  unfolding server_ok_def list_all_iff using task_ok_mono sent_ok_mono by blast

lemma driver_ok_mono: "driver_ok qs c \<Longrightarrow> set qs \<subseteq> set qs' \<Longrightarrow> driver_ok qs' c"
  unfolding driver_ok_def by (fast dest: subsetD)

lemma drop_task_ok: "server_ok qs c \<Longrightarrow> server_ok qs (drop_task k c)"
  by (auto simp: server_ok_def drop_task_def list_all_iff dest: in_set_takeD in_set_dropD)

lemma send_on_ok:
  assumes "server_ok qs c" "sent_ok qs f" "send_on written f (c, d) = (r, (c', d'))"
  shows "server_ok qs c' \<and> d' = d"
  using assms by (auto simp: send_on_def send_frame_def server_ok_def split: if_splits)

lemma keyed_daemon: "daemon_ok d \<Longrightarrow> sessions_keyed d"
  by (simp add: daemon_ok_def supervisor_ok_def sessions_keyed_def)

lemma handled_suits:
  assumes "daemon_ok d" "handle_client_request v q d = (r, d')"
  shows "suits q r"
  unfolding suits_def using dispatched_answers [OF keyed_daemon [OF assms(1)]] assms(2) by blast

text \<open>What the events of the daemon's end need: requests that were submitted, and others that keep order.\<close>

fun event_ok :: "outbound_request list \<Rightarrow> connection_event \<Rightarrow> bool" where
  "event_ok qs (FrameArrived (Inr (Some f)) _ _) \<longleftrightarrow> (\<exists>q \<in> set qs. f = ClientFrameRequest (envelope_of q))"
| "event_ok qs (TaskRuns _ v) \<longleftrightarrow> (\<forall>s. supervisor_ok s \<longrightarrow> supervisor_ok (dv_meanwhile v s))"
| "event_ok qs (OthersRun f) \<longleftrightarrow> (\<forall>d. daemon_ok d \<longrightarrow> daemon_ok (f d))"
| "event_ok qs _ \<longleftrightarrow> True"

lemma serve_event_ok:
  assumes "server_ok qs c" "daemon_ok d" "event_ok qs e" "serve_event e (c, d) = (r, (c', d'))"
  shows "server_ok qs c' \<and> daemon_ok d'"
  using assms
proof (cases "(e, (c, d))" rule: serve_event.cases)
  case (3 k v)
  show ?thesis
  proof (cases "k < length (cn_tasks c) \<and> tk_outcome (cn_tasks c ! k) = None")
    case True
    obtain y d1 where y: "handle_client_request v (rqe_request (tk_envelope (cn_tasks c ! k))) d = (y, d1)" by fastforce
    have "daemon_ok d1"
      using daemon_ok_carried [OF assms(2) requests_carry [of v]] assms(3) 3 y by (metis event_ok.simps(2) prod.inject snd_conv)
    moreover have "task_ok qs (cn_tasks c ! k)" using assms(1) True by (simp add: server_ok_def list_all_length)
    then have "task_ok qs ((cn_tasks c ! k)\<lparr>tk_outcome := Some y\<rparr>)"
      using handled_suits [OF assms(2) y] by (auto simp: task_ok_def envelope_of_def)
    ultimately show ?thesis
      using assms(1,4) 3 True y by (auto simp: server_ok_def list_all_iff dest!: subsetD [OF set_update_subset_insert])
  qed (use assms 3 in auto)
next
  case (4 k written)
  show ?thesis
  proof (cases "k < length (cn_tasks c) \<and> tk_outcome (cn_tasks c ! k) \<noteq> None")
    case True
    then obtain y where y: "tk_outcome (cn_tasks c ! k) = Some y" by blast
    have "task_ok qs (cn_tasks c ! k)" using assms(1) True by (simp add: server_ok_def list_all_length)
    then have "sent_ok qs (ServerFrameResponse \<lparr>rse_request_id = rqe_request_id (tk_envelope (cn_tasks c ! k)), rse_response = y\<rparr>)"
      using y by (auto simp: task_ok_def envelope_of_def)
    then have "server_ok qs c' \<and> d' = d"
      by (rule send_on_ok [OF drop_task_ok [OF assms(1), of k]]) (use assms(4) 4 True y in simp)
    then show ?thesis using assms(2) by simp
  qed (use assms 4 in \<open>auto split: if_splits\<close>)
next
  case (5 k)
  then show ?thesis using assms drop_task_ok [OF assms(1), of k] by simp
next
  case (8 hello written cid)
  then show ?thesis using assms(3) by simp
next
  case (9 q written cid)
  have sent: "sent_ok qs (ServerFrameResponse \<lparr>rse_request_id = rqe_request_id q, rse_response = Inl (too_many_in_flight cid)\<rparr>)"
    and task: "task_ok qs \<lparr>tk_envelope = q, tk_outcome = None\<rparr>"
    using assms(3) 9 by (auto simp: suits_def task_ok_def envelope_of_def)
  show ?thesis
  proof (cases "MAX_IN_FLIGHT_REQUESTS_PER_CONNECTION \<le> length (cn_tasks c)")
    case True
    have "server_ok qs c' \<and> d' = d" by (rule send_on_ok [OF assms(1) sent]) (use assms(4) 9 True in simp)
    then show ?thesis using assms(2) by simp
  next
    case False
    then show ?thesis using assms task 9 by (auto simp: server_ok_def)
  qed
qed (auto simp: drop_task_ok detach_all_def server_ok_def)

lemma serve_on_ok:
  assumes "server_ok (lk_submitted l) (lk_server l)" "daemon_ok d" "event_ok (lk_submitted l) e" "serve_on e (l, d) = (l', d')"
  shows "server_ok (lk_submitted l') (lk_server l') \<and> daemon_ok d' \<and> (\<exists>c b. l' = l\<lparr>lk_server := c, lk_ended := b\<rparr>)"
proof -
  obtain r c1 d1 where e: "serve_event e (lk_server l, d) = (r, (c1, d1))" by (metis surj_pair)
  have "server_ok (lk_submitted l) c1" "daemon_ok d1" using serve_event_ok [OF assms(1-3) e] by blast+
  moreover have "server_ok qs (aborted c)" if "server_ok qs c" for qs c using that by (simp add: server_ok_def aborted_def)
  ultimately show ?thesis using assms(4) e by (auto simp: serve_on_def split: sum.splits if_splits)
qed

text \<open>The client's end.\<close>

fun answer_ok :: "outbound_request list \<Rightarrow> driver_event \<Rightarrow> bool" where
  "answer_ok qs (OutboundArrived q _) \<longleftrightarrow> q \<in> set qs"
| "answer_ok qs (ServerFrameArrived (Inr (Some f))) \<longleftrightarrow> sent_ok qs f"
| "answer_ok qs _ \<longleftrightarrow> True"

lemma suits_error [simp]: "suits q (Inl e)" "suits q (map_err f r) \<longleftrightarrow> suits q r"
  by (auto simp: suits_def map_err_Inr_iff)

lemma complete_all_ok: "driver_ok qs c \<Longrightarrow> driver_ok qs (complete_all (Inl e) c)"
  by (fastforce simp: driver_ok_def complete_all_def pending_ok_def)

lemma driver_ends_ok: "driver_ok qs c \<Longrightarrow> driver_ok qs (driver_ends c)"
  using complete_all_ok [of qs c Disconnected] by (simp add: driver_ends_def driver_ok_def pending_ok_def complete_all_def)

lemma insert_pending_ok: "driver_ok qs c \<Longrightarrow> cd_running c \<Longrightarrow> q \<in> set qs \<Longrightarrow> driver_ok qs (insert_pending q c)"
  by (fastforce simp: driver_ok_def insert_pending_def pending_ok_def distinct_map_filter)

lemma complete_response_ok:
  assumes "driver_ok qs c" "sent_ok qs (ServerFrameResponse e)" "distinct (map ob_request_id qs)"
  shows "driver_ok qs (complete_response e c)"
proof (cases "map_of (cd_pending c) (rse_request_id e)")
  case (Some t)
  obtain q where q: "q \<in> set qs" "ob_request_id q = rse_request_id e" "suits (ob_request q) (rse_response e)" using assms(2) by auto
  obtain q' where q': "q' \<in> set qs" "ob_request_id q' = rse_request_id e" "ob_ticket q' = t"
    using assms(1) map_of_SomeD [OF Some] by (auto simp: driver_ok_def)
  have "q' = q" using assms(3) q(1,2) q'(1,2) by (metis distinct_map inj_onD)
  then show ?thesis
    using assms(1) q q' Some by (auto simp: driver_ok_def complete_response_def pending_ok_def distinct_map_filter)
qed (use assms in \<open>simp add: complete_response_def\<close>)

lemma driver_frame_ok [simp]: "driver_ok qs (c\<lparr>cd_events := es\<rparr>) = driver_ok qs c"
  by (simp add: driver_ok_def pending_ok_def)

lemma driver_step_answers:
  assumes "driver_ok qs c" "cd_running c" "answer_ok qs e" "distinct (map ob_request_id qs)"
  shows "driver_ok qs (driver_event_step e c)"
  using assms
proof (cases "(e, c)" rule: driver_event_step.cases)
  case (1 q written c)
  have "driver_ok qs (c'\<lparr>cd_written := cd_written c' @ [ClientFrameRequest (envelope_of q)]\<rparr>)" if "driver_ok qs c'" for c'
    using that assms(3) 1 by (auto simp: driver_ok_def pending_ok_def)
  then show ?thesis using 1 assms insert_pending_ok driver_ends_ok by (simp add: Let_def envelope_of_def)
qed (use assms in \<open>simp_all add: complete_response_ok complete_all_ok driver_ends_ok\<close>)

lemma drive_ok:
  assumes "driver_ok (lk_submitted l) (lk_client l)" "cd_running (lk_client l)" "answer_ok (lk_submitted l) e"
    and "distinct (map ob_request_id (lk_submitted l))" "set (lk_queue l) \<subseteq> set (lk_submitted l)"
    and "mset (map ob_ticket (lk_queue l)) + driver_tickets (lk_client l) + event_tickets e = mset (map ob_ticket (lk_submitted l))"
    and "distinct (map ob_ticket (lk_submitted l))" "server_ok (lk_submitted l) (lk_server l)"
  shows "link_ok (drive e l)"
proof -
  let ?c = "driver_event_step e (lk_client l)"
  have c: "driver_ok (lk_submitted l) ?c" by (rule driver_step_answers [OF assms(1-4)])
  have tickets: "driver_tickets ?c = driver_tickets (lk_client l) + event_tickets e"
    using assms(1) by (intro driver_step_tickets) (simp add: driver_ok_def)
  then have kept: "mset (map ob_ticket (lk_queue l)) + driver_tickets ?c = mset (map ob_ticket (lk_submitted l))"
    using assms(6) by (simp add: add.assoc)
  have "driver_tickets (disconnect (lk_queue l) ?c) = driver_tickets ?c + mset (map ob_ticket (lk_queue l))"
    by (simp add: driver_tickets_def disconnect_def comp_def)
  then have "driver_tickets (disconnect (lk_queue l) ?c) = mset (map ob_ticket (lk_submitted l))" using kept by (simp only: add.commute)
  moreover have "driver_ok (lk_submitted l) (disconnect (lk_queue l) ?c)"
    using c assms(5) by (auto simp: driver_ok_def disconnect_def pending_ok_def)
  ultimately show ?thesis using assms(4,5,7,8) c kept by (simp add: link_ok_def drive_def Let_def)
qed

lemma request_correlated_ok:
  assumes "link_ok l" "ob_ticket q \<notin> ob_ticket ` set (lk_submitted l)" "ob_request_id q \<notin> ob_request_id ` set (lk_submitted l)"
  shows "link_ok (request_correlated q l)"
proof -
  let ?qs = "lk_submitted l @ [q]"
  have base: "driver_ok (lk_submitted l) (lk_client l)" "server_ok (lk_submitted l) (lk_server l)"
    "mset (map ob_ticket (lk_queue l)) + driver_tickets (lk_client l) = mset (map ob_ticket (lk_submitted l))"
    using assms(1) by (simp_all add: link_ok_def)
  have "set (lk_submitted l) \<subseteq> set ?qs" by auto
  then have more: "driver_ok ?qs (lk_client l)" "server_ok ?qs (lk_server l)"
    using driver_ok_mono [OF base(1)] server_ok_mono [OF base(2)] by blast+
  have "driver_ok ?qs (disconnect [q] (lk_client l))"
    using more(1) by (auto simp: driver_ok_def disconnect_def pending_ok_def)
  moreover have "driver_tickets (disconnect [q] (lk_client l)) = add_mset (ob_ticket q) (driver_tickets (lk_client l))"
    by (simp add: driver_tickets_def disconnect_def)
  moreover have "cd_running (disconnect [q] (lk_client l)) = cd_running (lk_client l)" by (simp add: disconnect_def)
  ultimately show ?thesis
    using assms more base(3) by (cases "cd_running (lk_client l)") (simp_all add: link_ok_def request_correlated_def subset_insertI2)
qed

lemma serve_keeps:
  assumes "link_ok l" "daemon_ok d" "event_ok (lk_submitted l) e" "(l', d') = serve_on e (l, d)"
  shows "link_ok l' \<and> daemon_ok d'"
  using serve_on_ok [OF _ assms(2,3) assms(4) [symmetric]] assms(1) by (auto simp: link_ok_def)

lemma link_step_ok:
  assumes "link_step (l, d) (l', d')" "link_ok l" "daemon_ok d"
  shows "link_ok l' \<and> daemon_ok d'"
  using assms(1)
proof cases
  case (submit q)
  then show ?thesis using assms(2,3) request_correlated_ok by simp
next
  case (take_request q qs written)
  then show ?thesis using assms(2,3) drive_ok [of "l\<lparr>lk_queue := qs\<rparr>" "OutboundArrived q written"] by (simp add: link_ok_def)
next
  case hang_up
  then show ?thesis using assms(2,3) drive_ok [of l OutboundClosed] by (simp add: link_ok_def)
next
  case read_answer
  have "sent_ok (lk_submitted l) (cn_sent (lk_server l) ! lk_read l)"
    using read_answer assms(2) by (simp add: link_ok_def server_ok_def list_all_length)
  then show ?thesis
    using read_answer assms(2,3) drive_ok [of "l\<lparr>lk_read := Suc (lk_read l)\<rparr>" "ServerFrameArrived (Inr (Some (cn_sent (lk_server l) ! lk_read l)))"]
    by (simp add: link_ok_def)
next
  case (lose_daemon r e)
  then show ?thesis using assms(2,3) drive_ok [of l "ServerFrameArrived r"] by (auto simp: link_ok_def)
next
  case (take_frame written cid)
  let ?l = "l\<lparr>lk_taken := Suc (lk_taken l)\<rparr>" and ?f = "cd_written (lk_client l) ! lk_taken l"
  have "link_ok ?l" using assms(2) by (simp add: link_ok_def)
  moreover have "event_ok (lk_submitted ?l) (FrameArrived (Inr (Some ?f)) written cid)"
    using take_frame assms(2) by (simp add: link_ok_def driver_ok_def)
  ultimately show ?thesis using serve_keeps [OF _ assms(3)] take_frame(1) by blast
next
  case (lose_client r e written cid)
  then have "event_ok (lk_submitted l) (FrameArrived r written cid)" by auto
  then show ?thesis using serve_keeps [OF assms(2,3)] lose_client(1) by blast
next
  case (run_task v k)
  then have "event_ok (lk_submitted l) (TaskRuns k v)" by simp
  then show ?thesis using serve_keeps [OF assms(2,3)] run_task(1) by blast
next
  case (join_task e k written)
  then have "event_ok (lk_submitted l) e" by auto
  then show ?thesis using serve_keeps [OF assms(2,3)] join_task(1) by blast
next
  case (shut_down ends)
  have "event_ok (lk_submitted l) (ShutdownSeen ends)" by simp
  then show ?thesis using serve_keeps [OF assms(2,3)] shut_down(1) by blast
next
  case (others_run f)
  then show ?thesis using assms(2,3) by simp
qed

lemma handshake_accepted:
  assumes "authenticate_connection cid connection token True (Inr (Some (client_hello_of offered name version))) = (Inr True, frames)"
  shows "offered = token \<and> (\<exists>h. frames = [ServerFrameHello h])"
  using assms by (auto simp: authenticate_connection_def client_hello_of_def send_frame_def token_matches_iff split: if_splits)

lemma link_reachable_ok: "link_reachable token offered s \<Longrightarrow> offered = token \<and> link_ok (fst s) \<and> daemon_ok (snd s)"
proof (induction rule: link_reachable.induct)
  case (connect cid connection name version frames d)
  from handshake_accepted [OF connect(1)] connect(2) show ?case
    by (auto simp: link_ok_def link_new_def driver_ok_def server_ok_def pending_ok_def client_driver_new_def driver_tickets_def)
next
  case (step s s')
  then show ?case using link_step_ok [of "fst s" "snd s" "fst s'" "snd s'"] by simp
qed


text \<open>One ping, from its caller and back.\<close>

definition ping :: outbound_request where
  "ping = \<lparr>ob_request_id = RequestId 3, ob_request = ReqPing, ob_ticket = 0\<rparr>"

definition greeting :: server_frame where
  "greeting = ServerFrameHello \<lparr>sh_protocol_version = PROTOCOL_VERSION, sh_daemon_version = ''0.1.0'', sh_connection_id = 2\<rparr>"

definition ping_sent :: link where
  "ping_sent = (drive (OutboundArrived ping True) ((request_correlated ping (link_new [greeting]))\<lparr>lk_queue := []\<rparr>))"

definition ping_served :: "link \<times> daemon" where
  "ping_served = serve_on (TaskJoined 0 True) (serve_on (TaskRuns 0 quiet_daemon_env)
     (serve_on (FrameArrived (Inr (Some (ClientFrameRequest (envelope_of ping)))) True 1) (ping_sent\<lparr>lk_taken := 1\<rparr>, locked_daemon)))"

definition ping_answered :: link where
  "ping_answered = drive (ServerFrameArrived (Inr (Some (ServerFrameResponse \<lparr>rse_request_id = RequestId 3, rse_response = Inr RespPong\<rparr>))))
     ((fst ping_served)\<lparr>lk_read := 2\<rparr>)"

lemma ping_sent_eq:
  "ping_sent = (link_new [greeting])\<lparr>lk_client := client_driver_new\<lparr>cd_pending := [(RequestId 3, 0)],
     cd_written := [ClientFrameRequest (envelope_of ping)]\<rparr>, lk_submitted := [ping]\<rparr>"
  by (simp add: ping_sent_def drive_def request_correlated_def link_new_def client_driver_new_def insert_pending_def Let_def ping_def envelope_of_def)

lemma ping_served_eq:
  "ping_served = (ping_sent\<lparr>lk_taken := 1, lk_server := \<lparr>cn_tasks = [], cn_sent = [greeting,
     ServerFrameResponse \<lparr>rse_request_id = RequestId 3, rse_response = Inr RespPong\<rparr>], cn_detached = []\<rparr>\<rparr>, locked_daemon)"
  by (simp add: ping_served_def ping_sent_eq serve_on_def MAX_IN_FLIGHT_REQUESTS_PER_CONNECTION_def link_new_def send_on_def send_frame_def
      drop_task_def envelope_of_def ping_def handle_client_request_def Let_def locked_daemon_def)

lemma ping_answered_eq:
  "ping_answered = (fst ping_served)\<lparr>lk_read := 2, lk_client := client_driver_new\<lparr>cd_written := [ClientFrameRequest (envelope_of ping)],
     cd_completed := [(0, Inr RespPong)]\<rparr>\<rparr>"
  by (simp add: ping_answered_def ping_served_eq ping_sent_eq drive_def Let_def complete_response_def client_driver_new_def)

lemma ping_reached: "link_reachable ''t'' ''t'' (ping_answered, locked_daemon)"
proof -
  have "link_reachable ''t'' ''t'' (link_new [greeting], locked_daemon)"
  proof (rule link_reachable.connect)
    show "authenticate_connection 1 2 ''t'' True (Inr (Some (client_hello_of ''t'' ''n'' ''v''))) = (Inr True, [greeting])"
      by (simp add: authenticate_connection_def client_hello_of_def token_matches_iff send_frame_def greeting_def)
    show "daemon_ok locked_daemon" by (rule locked_daemon_ok)
  qed
  moreover have "link_step (link_new [greeting], locked_daemon) (request_correlated ping (link_new [greeting]), locked_daemon)"
    by (rule submit) (simp_all add: link_new_def)
  moreover have "link_step (request_correlated ping (link_new [greeting]), locked_daemon) (ping_sent, locked_daemon)"
    unfolding ping_sent_def by (rule take_request) (simp_all add: request_correlated_def link_new_def client_driver_new_def)
  ultimately have "link_reachable ''t'' ''t'' (ping_sent, locked_daemon)" by (blast intro: link_reachable.step)
  moreover have "link_step (ping_sent, locked_daemon)
      (serve_on (FrameArrived (Inr (Some (ClientFrameRequest (envelope_of ping)))) True 1) (ping_sent\<lparr>lk_taken := 1\<rparr>, locked_daemon))"
    using take_frame [of ping_sent locked_daemon True 1] by (simp add: ping_sent_eq link_new_def)
  ultimately have arrived: "link_reachable ''t'' ''t''
      (serve_on (FrameArrived (Inr (Some (ClientFrameRequest (envelope_of ping)))) True 1) (ping_sent\<lparr>lk_taken := 1\<rparr>, locked_daemon))"
    (is "link_reachable _ _ ?s") by (blast intro: link_reachable.step)
  have open1: "\<not> lk_ended (fst ?s)"
    by (simp add: serve_on_def ping_sent_eq link_new_def MAX_IN_FLIGHT_REQUESTS_PER_CONNECTION_def locked_daemon_def)
  then have "link_step (fst ?s, snd ?s) (serve_on (TaskRuns 0 quiet_daemon_env) (fst ?s, snd ?s))"
    by (rule run_task) (simp add: quiet_daemon_env_def)
  with arrived have ran: "link_reachable ''t'' ''t'' (serve_on (TaskRuns 0 quiet_daemon_env) ?s)" (is "link_reachable _ _ ?t")
    unfolding prod.collapse by (blast intro: link_reachable.step)
  have open2: "\<not> lk_ended (fst ?t)"
    by (simp add: serve_on_def ping_sent_eq link_new_def MAX_IN_FLIGHT_REQUESTS_PER_CONNECTION_def locked_daemon_def
        handle_client_request_def Let_def split_beta)
  then have "link_step (fst ?t, snd ?t) (serve_on (TaskJoined 0 True) (fst ?t, snd ?t))" by (rule join_task) simp
  with ran have "link_reachable ''t'' ''t'' ping_served" unfolding prod.collapse ping_served_def by (blast intro: link_reachable.step)
  then have served: "link_reachable ''t'' ''t'' (fst ping_served, locked_daemon)" by (simp add: ping_served_eq)
  have "link_step (fst ping_served, locked_daemon) (ping_answered, locked_daemon)"
    using read_answer [of "fst ping_served" locked_daemon]
    by (simp add: ping_answered_def ping_served_eq ping_sent_eq link_new_def client_driver_new_def numeral_2_eq_2)
  with served show ?thesis by (blast intro: link_reachable.step)
qed


end
