(* ===== verification/Spec2Isabelle.thy ===== *)
theory Spec2Isabelle
  imports Session_State Permission Wire_Protocol Jsonl Redaction Session_Properties Terminal
    Storage_Maintenance Fake_Adapter Git_Output Project_Listing Session_Store Protocol_Types
    Key_Store Storage_Runtime Project_Manager Event_Monitor Daemon_Invariant Desktop_Grants Request_Link
begin

text \<open>
  Maestro is a local desktop control center for coding-agent command lines. A desktop host
  (\<^verbatim>\<open>apps/desktop/src-tauri\<close>, below a web interface in TypeScript) talks over a local socket to a per-user
  daemon (\<^verbatim>\<open>crates/maestrod\<close>). The daemon runs the agents as structured sessions and as terminals, keeps what
  happened in an encrypted database (\<^verbatim>\<open>crates/maestro-storage\<close>) and gives the windows access to the files of
  the opened projects (\<^verbatim>\<open>crates/maestro-project\<close>). This development models the program below the web
  interface and proves what its parts promise. Claims are numbered C1 to C40 where they are stated.

  \<^bold>\<open>How a request travels, and the theories on its way.\<close> A command of a window checks its arguments and the
  grants of the window and sends one request (\<^verbatim>\<open>Desktop_Host\<close>, \<^verbatim>\<open>Desktop_Commands\<close>). The request is one of
  the messages of \<^verbatim>\<open>Protocol_Types\<close> in a length-prefixed frame (\<^verbatim>\<open>Wire_Protocol\<close>). The dispatcher of the
  daemon refuses most requests while the storage is locked and otherwise runs a handler on the state of
  \<^verbatim>\<open>Daemon\<close> (\<^verbatim>\<open>Daemon_Requests\<close>): structured sessions, terminals, projects and storage. Tasks started by
  handlers store the events of sessions (\<^verbatim>\<open>Event_Monitor\<close>).

  \<^bold>\<open>Theories and sources.\<close> Names of types and functions are those of the code; the fields of a record have
  a prefix of their own.
  \<^item> \<^verbatim>\<open>Maestro_Prelude\<close>: machine integers as words with the checked and saturating operations of the standard
    library, results as sums, state-passing steps (\<open>io_bind\<close>), shared lemmas on lists, maps and words.
  \<^item> \<^verbatim>\<open>Domain_Types\<close>, \<^verbatim>\<open>Session_State\<close>, \<^verbatim>\<open>Permission\<close>: \<^verbatim>\<open>crates/maestro-domain\<close>.
  \<^item> \<^verbatim>\<open>Redaction\<close>: \<^verbatim>\<open>crates/maestro-redaction\<close>, slicing inside a character being a value, not an assumption.
  \<^item> \<^verbatim>\<open>Wire_Protocol\<close>, \<^verbatim>\<open>Protocol_Types\<close>: \<^verbatim>\<open>crates/maestro-protocol\<close> and the framing of \<^verbatim>\<open>maestrod/src/ipc.rs\<close>.
  \<^item> \<^verbatim>\<open>Jsonl\<close>, \<^verbatim>\<open>Adapter_Contract\<close>, \<^verbatim>\<open>Fake_Adapter\<close>: \<^verbatim>\<open>crates/maestro-adapter\<close>.
  \<^item> \<^verbatim>\<open>Process\<close>: the pure part of \<^verbatim>\<open>crates/maestro-process\<close>.
  \<^item> \<^verbatim>\<open>Session_Buffers\<close>, \<^verbatim>\<open>Pending\<close>, \<^verbatim>\<open>Fake_Session\<close>, \<^verbatim>\<open>Session_Properties\<close>: \<^verbatim>\<open>maestrod/src/fake_session.rs\<close>; the
    decoder, event log, rings and request tracker, then the supervisor on top, then what it guarantees.
  \<^item> \<^verbatim>\<open>Terminal_Output\<close>, \<^verbatim>\<open>Terminal\<close>: \<^verbatim>\<open>maestrod/src/terminal.rs\<close>.
  \<^item> \<^verbatim>\<open>File_System\<close>, \<^verbatim>\<open>Workspace_Roots\<close>, \<^verbatim>\<open>Text_Files\<close>, \<^verbatim>\<open>Git_Output\<close>, \<^verbatim>\<open>Project_Listing\<close>: \<^verbatim>\<open>crates/maestro-project\<close> over
    a Unix file system whose state other processes may change before every system call; \<^verbatim>\<open>Project_Manager\<close>:
    \<^verbatim>\<open>maestrod/src/project.rs\<close>.
  \<^item> \<^verbatim>\<open>Database\<close>, \<^verbatim>\<open>Session_Store\<close>, \<^verbatim>\<open>Retention\<close>, \<^verbatim>\<open>Key_Store\<close>: \<^verbatim>\<open>crates/maestro-storage\<close>; \<^verbatim>\<open>Storage_Maintenance\<close>,
    \<^verbatim>\<open>Storage_Runtime\<close>: \<^verbatim>\<open>maestrod/src/storage_runtime.rs\<close>.
  \<^item> \<^verbatim>\<open>Event_Monitor\<close>, \<^verbatim>\<open>Daemon\<close>, \<^verbatim>\<open>Daemon_Requests\<close>, \<^verbatim>\<open>Daemon_Invariant\<close>: \<^verbatim>\<open>maestrod/src/server.rs\<close>.
  \<^item> \<^verbatim>\<open>Desktop_Host\<close>, \<^verbatim>\<open>Desktop_Commands\<close>, \<^verbatim>\<open>Desktop_Grants\<close>: \<^verbatim>\<open>apps/desktop/src-tauri/src/lib.rs\<close>.

  \<^bold>\<open>Interfaces.\<close> Three contracts are locales, each interpreted on the two components that implement it:
  \<open>line_decoder\<close> in \<^verbatim>\<open>Line_Framing\<close> (an incremental decoder yields the lines of the whole text however it is
  cut; \<^verbatim>\<open>Jsonl\<close>, \<^verbatim>\<open>Session_Buffers\<close>), \<open>replay_log\<close> in \<^verbatim>\<open>Replay_Log\<close> (a bounded log holds the newest part of a
  numbered stream; \<^verbatim>\<open>Session_Buffers\<close>, \<^verbatim>\<open>Terminal_Output\<close>) and \<open>writer_table\<close> in \<^verbatim>\<open>Writer_Lease\<close> (one writer per
  binding until its own token is released; \<^verbatim>\<open>Fake_Session\<close>, \<^verbatim>\<open>Fake_Adapter\<close>).

  \<^bold>\<open>What the lemmas show.\<close> Round trips of frames, JSON lines, Git output and stored events; the scanner of
  secrets never panics and removes what it must; permission rules, retention plans, searches and directory
  pages equal independent descriptions; sessions, terminals, projects, tables and grants keep their
  invariants over every sequence of operations; writers are exclusive and answers delivered once; failed
  launches, saves, closes and unlocks leave what the code promises; paths stay below the project roots
  although other processes rename and link; every answer of the daemon fits its request; and every request
  of a window names only what that window was granted.

  \<^bold>\<open>How the outside is modelled.\<close> What a call into the system or a library answers (spawning, writing,
  SQLite and the cipher, the walker, the regular expressions, Git, JSON and URL parsing, digests, random
  identifiers and clocks) is an argument, and so is what other tasks do while one waits. Operations of one
  component run one after the other, in any order. Failures of each call are values of these arguments, so
  every error branch of the code is a branch of the model. A lock is never poisoned.

  \<^bold>\<open>Bounds and fuel.\<close> The recursions over lists and texts are structural or have measures. The resolution of
  links follows at most 40 of them, as Linux does. Loops over random identifiers consume a list of drawn
  candidates and have not returned when the list runs out. The tasks of \<^verbatim>\<open>Event_Monitor\<close> are recursive in the
  list of what their awaits are told. The next power of two is reached by at most 64 doublings, enough for a
  64-bit size.

  \<^bold>\<open>Not modelled.\<close> The accept loop, the connections and the shutdown of \<^verbatim>\<open>server.rs\<close>, the clients of
  \<^verbatim>\<open>ipc.rs\<close>, \<^verbatim>\<open>paths.rs\<close> and the entry points are socket, task and directory handling. \<^verbatim>\<open>pty.rs\<close>,
  \<^verbatim>\<open>process_group.rs\<close> and the child handling of \<^verbatim>\<open>structured.rs\<close> are system calls whose outcomes the
  supervisor and the terminal manager take as arguments. The envelope of \<^verbatim>\<open>key.rs\<close> and the snapshots of
  \<^verbatim>\<open>backup.rs\<close> are cryptography, the system key store and SQLite's backup, which the storage runtime takes as
  arguments. Of the desktop, the window and menu handling, the launcher of the daemon and the web interface
  are left out. The fake agent (\<^verbatim>\<open>fixtures\<close>) is a test program. Zeroizing of memory, debug renderings and
  serialization formats other than the frame header and the JSON lines are not part of the values modelled.
\<close>

end
